(* ===== verification/Signon_Prelude.thy ===== *)
theory Signon_Prelude
  imports Main "HOL-Library.List_Lexorder" "HOL-Library.Char_ord"
begin

text \<open>
  What every theory of the development shares: the model of \<open>QString\<close> (a null string is not
  an empty one, although the two compare equal), \<open>QString::number\<close> and \<open>toInt\<close>, the
  conversions between the 32-bit integers of the code and the numbers of the model,
  the error values of \<open>SignOn::CredentialsDBError\<close>, and the collections of
  simplification rules the components add to.
\<close>

named_theorems sql_simps
  \<open>how the SQL engine's primitive operations act on the fields of a database\<close>

named_theorems frame_simps
  \<open>what an operation leaves unchanged\<close>

named_theorems inv_intros
  \<open>preservation of the component invariants\<close>

section \<open>QString\<close>

text \<open>
  A \<open>QString\<close> is null or holds characters. \<open>isNull\<close>, \<open>isEmpty\<close> and the comparison
  of the class tell the two apart in different ways; a null string is bound to an SQL
  statement as NULL.
\<close>

datatype qstring = QNull | QStr string

primrec chars :: "qstring \<Rightarrow> string" where
  "chars QNull = []"
| "chars (QStr s) = s"

definition qisNull :: "qstring \<Rightarrow> bool" where
  "qisNull s \<longleftrightarrow> s = QNull"

definition qisEmpty :: "qstring \<Rightarrow> bool" where
  "qisEmpty s \<longleftrightarrow> chars s = []"

definition qeq :: "qstring \<Rightarrow> qstring \<Rightarrow> bool" where
  "qeq a b \<longleftrightarrow> chars a = chars b"

definition qcontains :: "qstring list \<Rightarrow> qstring \<Rightarrow> bool" where
  "qcontains xs x \<longleftrightarrow> list_ex (qeq x) xs"

lemma fst_pair: "fst p = a \<Longrightarrow> p = (a, snd p)"
  by (cases p) simp

lemma qisNull_simps [simp]: "qisNull QNull" "\<not> qisNull (QStr s)"
  by (simp_all add: qisNull_def)

lemma qisEmpty_simps [simp]: "qisEmpty QNull" "qisEmpty (QStr s) \<longleftrightarrow> s = []"
  by (simp_all add: qisEmpty_def)

lemma qeq_refl [simp]: "qeq s s"
  by (simp add: qeq_def)

lemma qeq_QStr [simp]: "qeq (QStr a) (QStr b) \<longleftrightarrow> a = b"
  by (simp add: qeq_def)

lemma qcontains_iff: "qcontains xs x \<longleftrightarrow> (\<exists>y \<in> set xs. chars y = chars x)"
  unfolding qcontains_def list_ex_iff qeq_def by (metis (mono_tags))

lemma qcontains_code [simp]:
  "\<not> qcontains [] x" "qcontains (y # ys) x \<longleftrightarrow> qeq x y \<or> qcontains ys x"
  by (simp_all add: qcontains_def)

section \<open>Numbers and strings\<close>

text \<open>\<open>QString::number\<close> in base ten.\<close>

definition digit_char :: "nat \<Rightarrow> char" where
  "digit_char d = char_of (48 + d)"

fun nat_str :: "nat \<Rightarrow> string" where
  "nat_str n = (if n < 10 then [digit_char n] else nat_str (n div 10) @ [digit_char (n mod 10)])"

declare nat_str.simps [simp del]

definition is_digit :: "char \<Rightarrow> bool" where
  "is_digit c \<longleftrightarrow> 48 \<le> (of_char c :: nat) \<and> (of_char c :: nat) \<le> 57"

definition digit_val :: "char \<Rightarrow> nat" where
  "digit_val c = of_char c - 48"

definition digits_val :: "string \<Rightarrow> nat" where
  "digits_val s = fold (\<lambda>c n. 10 * n + digit_val c) s 0"

lemma is_digit_digit_char: "d < 10 \<Longrightarrow> is_digit (digit_char d)"
  by (simp add: is_digit_def digit_char_def)

lemma digit_val_digit_char [simp]: "d < 10 \<Longrightarrow> digit_val (digit_char d) = d"
  by (simp add: digit_val_def digit_char_def)

lemma nat_str_digits: "c \<in> set (nat_str n) \<Longrightarrow> is_digit c"
proof (induction n rule: nat_str.induct)
  case (1 n)
  then show ?case
    by (subst (asm) nat_str.simps) (auto simp: is_digit_digit_char split: if_splits)
qed

lemma nat_str_not_Nil [simp]: "nat_str n \<noteq> []"
  by (subst nat_str.simps) simp

lemma digits_val_nat_str [simp]: "digits_val (nat_str n) = n"
proof (induction n rule: nat_str.induct)
  case (1 n)
  show ?case
  proof (cases "n < 10")
    case True
    then show ?thesis by (subst nat_str.simps) (simp add: digits_val_def)
  next
    case False
    with 1 have "digits_val (nat_str (n div 10)) = n div 10" by simp
    with False show ?thesis by (subst nat_str.simps) (simp add: digits_val_def)
  qed
qed

lemma nat_str_inj [simp]: "nat_str m = nat_str n \<longleftrightarrow> m = n"
  by (metis digits_val_nat_str)

definition int_str :: "int \<Rightarrow> string" where
  "int_str i = (if i < 0 then CHR ''-'' # nat_str (nat (- i)) else nat_str (nat i))"

text \<open>\<open>QString::toInt\<close>: surrounding white space is skipped, anything else that is not a
  decimal number in the range of \<open>int\<close> gives 0.\<close>

definition is_space :: "char \<Rightarrow> bool" where
  "is_space c \<longleftrightarrow> c = CHR '' '' \<or> 9 \<le> (of_char c :: nat) \<and> (of_char c :: nat) \<le> 13"

definition trim :: "string \<Rightarrow> string" where
  "trim s = rev (dropWhile is_space (rev (dropWhile is_space s)))"

definition str_int :: "string \<Rightarrow> int option" where
  "str_int s =
     (case trim s of
        [] \<Rightarrow> None
      | c # cs \<Rightarrow>
          let (neg, ds) = (if c = CHR ''-'' then (True, cs)
                           else if c = CHR ''+'' then (False, cs) else (False, c # cs))
          in if ds = [] \<or> \<not> list_all is_digit ds then None
             else Some (if neg then - int (digits_val ds) else int (digits_val ds)))"

section \<open>Integers of 32 bits\<close>

text \<open>
  An id of the code is a \<open>quint32\<close>. Ids are natural numbers in the model, and every
  conversion of the code that can lose bits is one of these two functions.
\<close>

definition to_uint :: "int \<Rightarrow> nat" where
  "to_uint i = nat (i mod 4294967296)"

definition to_int :: "int \<Rightarrow> int" where
  "to_int i = (i + 2147483648) mod 4294967296 - 2147483648"

lemma to_uint_small [simp]: "n < 4294967296 \<Longrightarrow> to_uint (int n) = n"
  by (simp add: to_uint_def)

lemma to_uint_0 [simp]: "to_uint 0 = 0"
  by (simp add: to_uint_def)

lemma to_uint_less [simp]: "to_uint i < 4294967296"
  by (simp add: to_uint_def nat_less_iff)

lemma to_int_small: "- 2147483648 \<le> i \<Longrightarrow> i < 2147483648 \<Longrightarrow> to_int i = i"
  by (simp add: to_int_def)

section \<open>Errors of the databases\<close>

text \<open>\<open>SignOn::CredentialsDBError\<close>: the type of the error decides, its text is for the log.\<close>

datatype db_error = NoError | NotOpen | ConnectionError | StatementError | UnknownError

definition isValid :: "db_error \<Rightarrow> bool" where
  "isValid e \<longleftrightarrow> e \<noteq> NoError"

lemma isValid_simps [simp]:
  "\<not> isValid NoError" "isValid NotOpen" "isValid ConnectionError"
  "isValid StatementError" "isValid UnknownError"
  by (simp_all add: isValid_def)

end
