(* ===== verification/Sql_Database.thy ===== *)
theory Sql_Database
  imports Signon_Prelude
begin

text \<open>
  \<open>SqlDatabase\<close> (src/signond/credentialsdb.cpp): the layer over SQLite that both databases of
  the daemon are built on. The content of a database is of any type \<open>'d\<close>. A statement
  computes a new content, fails, or, through a trigger, rolls the whole transaction back.
  Whether the driver succeeds is decided by the environment: a database carries the list of
  outcomes of its coming driver calls, and an exhausted list stands for calls that succeed.
  What is assumed of SQLite is its documented behaviour: one transaction at a time, a
  rollback restores the content of its start, a failed statement leaves no trace, a
  statement outside of a transaction is committed by itself.
\<close>

section \<open>State\<close>

text \<open>\<open>BadRollback\<close> is an error on which SQLite ends the transaction by itself (a full disk, an
  I/O error).\<close>

datatype outcome = Good | Bad | BadRollback

datatype 'd statement_result = Done 'd | Fail | RaiseRollback

type_synonym 'd statement = "'d \<Rightarrow> 'd statement_result"

record 'd sqldb =
  sq_data :: 'd
  sq_saved :: "'d option"
  sq_error :: db_error
  sq_io :: "outcome list"

definition next_io :: "'d sqldb \<Rightarrow> outcome \<times> 'd sqldb" where
  "next_io db = (case sq_io db of [] \<Rightarrow> (Good, db) | x # xs \<Rightarrow> (x, db\<lparr>sq_io := xs\<rparr>))"

definition undo :: "'d sqldb \<Rightarrow> 'd sqldb" where
  "undo db = (case sq_saved db of
     None \<Rightarrow> db | Some d \<Rightarrow> db\<lparr>sq_data := d, sq_saved := None\<rparr>)"

text \<open>What the file holds should the process die now.\<close>

definition durable :: "'d sqldb \<Rightarrow> 'd" where
  "durable db = (case sq_saved db of None \<Rightarrow> sq_data db | Some d \<Rightarrow> d)"

section \<open>Operations\<close>

definition sql_connect :: "'d sqldb \<Rightarrow> bool \<times> 'd sqldb" where
  "sql_connect db =
     (case next_io db of
        (Good, db) \<Rightarrow> (True, db)
      | (_, db) \<Rightarrow> (False, db\<lparr>sq_error := ConnectionError\<rparr>))"

definition startTransaction :: "'d sqldb \<Rightarrow> bool \<times> 'd sqldb" where
  "startTransaction db =
     (case next_io db of
        (Good, db) \<Rightarrow>
          (case sq_saved db of
             None \<Rightarrow> (True, db\<lparr>sq_saved := Some (sq_data db)\<rparr>)
           | Some _ \<Rightarrow> (False, db))
      | (_, db) \<Rightarrow> (False, db))"

definition sql_commit :: "'d sqldb \<Rightarrow> bool \<times> 'd sqldb" where
  "sql_commit db =
     (case next_io db of
        (Good, db) \<Rightarrow>
          (case sq_saved db of
             None \<Rightarrow> (False, db)
           | Some _ \<Rightarrow> (True, db\<lparr>sq_saved := None\<rparr>))
      | (Bad, db) \<Rightarrow> (False, db)
      | (BadRollback, db) \<Rightarrow> (False, undo db))"

definition sql_rollback :: "'d sqldb \<Rightarrow> 'd sqldb" where
  "sql_rollback db = undo db"

text \<open>\<open>exec\<close> of a statement that returns no rows, and of a query.\<close>

definition sql_exec :: "'d statement \<Rightarrow> 'd sqldb \<Rightarrow> 'd sqldb" where
  "sql_exec st db =
     (case next_io db of
        (Good, db) \<Rightarrow>
          (case st (sq_data db) of
             Done d \<Rightarrow> db\<lparr>sq_data := d, sq_error := NoError\<rparr>
           | Fail \<Rightarrow> db\<lparr>sq_error := StatementError\<rparr>
           | RaiseRollback \<Rightarrow> (undo db)\<lparr>sq_error := StatementError\<rparr>)
      | (Bad, db) \<Rightarrow> db\<lparr>sq_error := StatementError\<rparr>
      | (BadRollback, db) \<Rightarrow> (undo db)\<lparr>sq_error := StatementError\<rparr>)"

definition sql_query :: "('d \<Rightarrow> 'r) \<Rightarrow> 'd sqldb \<Rightarrow> 'r option \<times> 'd sqldb" where
  "sql_query q db =
     (case next_io db of
        (Good, db) \<Rightarrow> (Some (q (sq_data db)), db\<lparr>sq_error := NoError\<rparr>)
      | (Bad, db) \<Rightarrow> (None, db\<lparr>sq_error := StatementError\<rparr>)
      | (BadRollback, db) \<Rightarrow> (None, (undo db)\<lparr>sq_error := StatementError\<rparr>))"

definition errorOccurred :: "'d sqldb \<Rightarrow> bool" where
  "errorOccurred db \<longleftrightarrow> isValid (sq_error db)"

definition clearError :: "'d sqldb \<Rightarrow> 'd sqldb" where
  "clearError db = db\<lparr>sq_error := NoError\<rparr>"

definition queryList :: "('d \<Rightarrow> 'r list) \<Rightarrow> 'd sqldb \<Rightarrow> 'r list \<times> 'd sqldb" where
  "queryList q db = (case sql_query q db of (None, db) \<Rightarrow> ([], db) | (Some rs, db) \<Rightarrow> (rs, db))"

fun exec_while_ok :: "'d statement list \<Rightarrow> 'd sqldb \<Rightarrow> bool \<times> 'd sqldb" where
  "exec_while_ok [] db = (True, db)"
| "exec_while_ok (st # sts) db =
     (let db = sql_exec st db
      in if errorOccurred db then (False, db) else exec_while_ok sts db)"

definition transactionalExec :: "'d statement list \<Rightarrow> 'd sqldb \<Rightarrow> bool \<times> 'd sqldb" where
  "transactionalExec sts db =
     (let (started, db) = startTransaction db in
      if \<not> started then (False, db\<lparr>sq_error := StatementError\<rparr>)
      else let (allOk, db) = exec_while_ok sts db in
        if allOk
        then let (done, db) = sql_commit db in
          if done then (True, db) else (False, sql_rollback db)
        else (False, sql_rollback db))"

text \<open>
  \<open>init\<close>. What the derived class overrides is an argument: whether there are tables,
  \<open>createTables\<close>, \<open>updateDB\<close>; and the statement \<open>PRAGMA user_version\<close> in its two uses.
\<close>

definition base_updateDB :: "(int \<Rightarrow> 'd statement) \<Rightarrow> int \<Rightarrow> 'd sqldb \<Rightarrow> bool \<times> 'd sqldb" where
  "base_updateDB set_version m_version db = (True, sql_exec (set_version m_version) db)"

definition sql_init ::
    "('d \<Rightarrow> bool) \<Rightarrow> ('d sqldb \<Rightarrow> bool \<times> 'd sqldb) \<Rightarrow> (int \<Rightarrow> 'd sqldb \<Rightarrow> bool \<times> 'd sqldb)
       \<Rightarrow> ('d \<Rightarrow> int) \<Rightarrow> (int \<Rightarrow> 'd statement) \<Rightarrow> int \<Rightarrow> 'd sqldb \<Rightarrow> bool \<times> 'd sqldb" where
  "sql_init hasTables createTables updateDB version set_version m_version db =
     (let (connected, db) = sql_connect db in
      if \<not> connected then (False, db)
      else if \<not> hasTables (sq_data db)
      then let (created, db) = createTables db in
        if \<not> created then (False, db)
        else let (_, db) = base_updateDB set_version m_version db in (True, db)
      else let (q, db) = sql_query version db;
               oldVersion = (case q of None \<Rightarrow> 0 | Some v \<Rightarrow> v) in
        if oldVersion < m_version then (True, snd (updateDB oldVersion db)) else (True, db))"

section \<open>Invariants over statements\<close>

text \<open>
  A property of the content that statements preserve holds of the content and, should the
  transaction be rolled back, of the content that comes back.
\<close>

definition db_inv :: "('d \<Rightarrow> bool) \<Rightarrow> 'd sqldb \<Rightarrow> bool" where
  "db_inv P db \<longleftrightarrow> P (sq_data db) \<and> (\<forall>d. sq_saved db = Some d \<longrightarrow> P d)"

definition preserves :: "('d \<Rightarrow> bool) \<Rightarrow> 'd statement \<Rightarrow> bool" where
  "preserves P st \<longleftrightarrow> (\<forall>d d'. P d \<longrightarrow> st d = Done d' \<longrightarrow> P d')"

lemma preservesI: "(\<And>d d'. P d \<Longrightarrow> st d = Done d' \<Longrightarrow> P d') \<Longrightarrow> preserves P st"
  by (simp add: preserves_def)

lemmas sql_op_defs = sql_connect_def startTransaction_def sql_commit_def sql_rollback_def
  sql_exec_def sql_query_def next_io_def undo_def clearError_def

lemmas sql_splits = list.splits option.splits outcome.splits statement_result.splits prod.splits
  if_splits

lemma db_inv_exec [inv_intros]: "db_inv P db \<Longrightarrow> preserves P st \<Longrightarrow> db_inv P (sql_exec st db)"
  unfolding db_inv_def preserves_def sql_op_defs by (auto split: sql_splits)

lemma db_inv_query: "db_inv P db \<Longrightarrow> db_inv P (snd (sql_query q db))"
  unfolding db_inv_def sql_op_defs by (auto split: sql_splits)

lemma db_inv_queryList: "db_inv P db \<Longrightarrow> db_inv P (snd (queryList q db))"
  using db_inv_query [of P db q] by (auto simp: queryList_def split: prod.splits option.splits)

lemma db_inv_start: "db_inv P db \<Longrightarrow> db_inv P (snd (startTransaction db))"
  unfolding db_inv_def sql_op_defs by (auto split: sql_splits)

lemma db_inv_commit: "db_inv P db \<Longrightarrow> db_inv P (snd (sql_commit db))"
  unfolding db_inv_def sql_op_defs by (auto split: sql_splits)

lemma db_inv_connect: "db_inv P db \<Longrightarrow> db_inv P (snd (sql_connect db))"
  unfolding db_inv_def sql_op_defs by (auto split: sql_splits)

lemma db_inv_rollback [inv_intros]: "db_inv P db \<Longrightarrow> db_inv P (sql_rollback db)"
  unfolding db_inv_def sql_op_defs by (auto split: sql_splits)

lemma db_inv_error [simp]: "db_inv P (db\<lparr>sq_error := e\<rparr>) = db_inv P db"
  by (simp add: db_inv_def)

lemma db_inv_clearError [simp]: "db_inv P (clearError db) = db_inv P db"
  by (simp add: clearError_def)

lemmas db_inv_intros = db_inv_exec db_inv_query db_inv_queryList db_inv_start db_inv_commit
  db_inv_connect db_inv_rollback

lemma db_inv_exec_while_ok:
  "db_inv P db \<Longrightarrow> list_all (preserves P) sts \<Longrightarrow> db_inv P (snd (exec_while_ok sts db))"
  by (induction sts arbitrary: db) (auto simp: Let_def db_inv_exec)

lemma db_inv_transactionalExec:
  assumes "db_inv P db" and "list_all (preserves P) sts"
  shows "db_inv P (snd (transactionalExec sts db))"
proof -
  obtain b db1 where s: "startTransaction db = (b, db1)" by force
  obtain a db2 where r: "exec_while_ok sts db1 = (a, db2)" by force
  obtain c db3 where k: "sql_commit db2 = (c, db3)" by force
  have 1: "db_inv P db1" using db_inv_start [OF assms(1)] s by simp
  have 2: "db_inv P db2" using db_inv_exec_while_ok [OF 1 assms(2)] r by simp
  have 3: "db_inv P db3" using db_inv_commit [OF 2] k by simp
  from 1 2 3 show ?thesis
    by (simp add: transactionalExec_def s r k db_inv_rollback)
qed

section \<open>Running without failures, and atomicity\<close>

lemma durable_simps [simp]:
  "sq_saved db = None \<Longrightarrow> durable db = sq_data db"
  "sq_saved db = Some d \<Longrightarrow> durable db = d"
  by (simp_all add: durable_def)

fun run_statements :: "'d statement list \<Rightarrow> 'd \<Rightarrow> 'd option" where
  "run_statements [] d = Some d"
| "run_statements (st # sts) d =
     (case st d of Done d' \<Rightarrow> run_statements sts d' | _ \<Rightarrow> None)"

lemma exec_good [sql_simps]:
  "sq_io db = [] \<Longrightarrow> st (sq_data db) = Done d \<Longrightarrow>
     sql_exec st db = db\<lparr>sq_data := d, sq_error := NoError\<rparr>"
  by (simp add: sql_op_defs)

lemma query_good [sql_simps]:
  "sq_io db = [] \<Longrightarrow> sql_query q db = (Some (q (sq_data db)), db\<lparr>sq_error := NoError\<rparr>)"
  by (simp add: sql_op_defs)

lemma queryList_good [sql_simps]:
  "sq_io db = [] \<Longrightarrow> queryList q db = (q (sq_data db), db\<lparr>sq_error := NoError\<rparr>)"
  by (simp add: queryList_def query_good)

lemma start_good [sql_simps]:
  "sq_io db = [] \<Longrightarrow> sq_saved db = None \<Longrightarrow>
     startTransaction db = (True, db\<lparr>sq_saved := Some (sq_data db)\<rparr>)"
  by (simp add: sql_op_defs)

lemma commit_good [sql_simps]:
  "sq_io db = [] \<Longrightarrow> sq_saved db = Some d \<Longrightarrow> sql_commit db = (True, db\<lparr>sq_saved := None\<rparr>)"
  by (simp add: sql_op_defs)

text \<open>Under any outcomes: inside a transaction, what the file holds does not change.\<close>

lemma exec_in_transaction:
  assumes "sq_saved db = Some d"
  shows "sq_saved (sql_exec st db) = Some d \<or>
    sq_saved (sql_exec st db) = None \<and> sq_data (sql_exec st db) = d \<and> errorOccurred (sql_exec st db)"
  using assms unfolding sql_op_defs errorOccurred_def by (auto split: sql_splits)

lemma exec_ok_effect:
  "\<not> errorOccurred (sql_exec st db) \<Longrightarrow>
     st (sq_data db) = Done (sq_data (sql_exec st db)) \<and> sq_saved (sql_exec st db) = sq_saved db"
  unfolding sql_op_defs errorOccurred_def by (auto split: sql_splits)

lemma exec_while_ok_effect:
  "exec_while_ok sts db = (True, db') \<Longrightarrow>
     run_statements sts (sq_data db) = Some (sq_data db') \<and> sq_saved db' = sq_saved db"
proof (induction sts arbitrary: db)
  case (Cons st sts)
  then show ?case
    using exec_ok_effect [of st db] by (auto simp: Let_def split: if_splits)
qed simp

lemma exec_while_ok_fail:
  "exec_while_ok sts db = (False, db') \<Longrightarrow> sq_saved db = Some d \<Longrightarrow>
     sq_saved db' = Some d \<or> sq_saved db' = None \<and> sq_data db' = d"
proof (induction sts arbitrary: db)
  case (Cons st sts)
  then show ?case
    using exec_in_transaction [of db d st]
    by (cases "errorOccurred (sql_exec st db)") (auto simp: Let_def dest: exec_ok_effect)
qed simp

lemma rollback_effect:
  "sq_saved db = Some d \<or> sq_saved db = None \<and> sq_data db = d \<Longrightarrow>
     sq_saved (sql_rollback db) = None \<and> sq_data (sql_rollback db) = d"
  by (auto simp: sql_rollback_def undo_def)

lemma commit_effect:
  assumes "sq_saved db = Some d" and "sql_commit db = (b, db')"
  shows "if b then sq_saved db' = None \<and> sq_data db' = sq_data db
    else sq_saved db' = Some d \<or> sq_saved db' = None \<and> sq_data db' = d"
  using assms unfolding sql_op_defs by (auto split: sql_splits)

lemma start_effect:
  assumes "sq_saved db = None" and "startTransaction db = (b, db')"
  shows "sq_data db' = sq_data db \<and> sq_saved db' = (if b then Some (sq_data db) else None)"
  using assms unfolding sql_op_defs by (auto split: sql_splits)

text \<open>
  Whatever the driver does, \<open>transactionalExec\<close> runs all of its statements or none of them,
  and no transaction is left open.
\<close>

lemma transactionalExec_atomic:
  assumes "sq_saved db = None" and "transactionalExec sts db = (ok, db')"
  shows "sq_saved db' = None \<and>
    (if ok then run_statements sts (sq_data db) = Some (sq_data db')
     else sq_data db' = sq_data db)"
proof -
  obtain b db1 where start: "startTransaction db = (b, db1)" by force
  note se = start_effect [OF assms(1) start]
  show ?thesis
  proof (cases b)
    case False
    with assms(2) start se show ?thesis by (auto simp: transactionalExec_def)
  next
    case True
    obtain a db2 where run: "exec_while_ok sts db1 = (a, db2)" by force
    show ?thesis
    proof (cases a)
      case False
      with run \<open>b\<close> se have "sq_saved db2 = Some (sq_data db) \<or>
          sq_saved db2 = None \<and> sq_data db2 = sq_data db"
        by (intro exec_while_ok_fail [of sts db1]) simp_all
      from rollback_effect [OF this] False run \<open>b\<close> assms(2) start
      show ?thesis by (auto simp: transactionalExec_def)
    next
      case True
      obtain c db3 where com: "sql_commit db2 = (c, db3)" by force
      have e: "run_statements sts (sq_data db1) = Some (sq_data db2)" "sq_saved db2 = sq_saved db1"
        using True run exec_while_ok_effect [of sts db1 db2] by simp_all
      with com commit_effect [of db2 "sq_data db" c db3] rollback_effect [of db3 "sq_data db"]
      show ?thesis using \<open>b\<close> \<open>a\<close> assms(2) start run se
        by (auto simp: transactionalExec_def split: if_splits)
    qed
  qed
qed

lemma exec_while_ok_good:
  "sq_io db = [] \<Longrightarrow> run_statements sts (sq_data db) = Some d \<Longrightarrow>
     exec_while_ok sts db =
       (True, db\<lparr>sq_data := d, sq_error := (if sts = [] then sq_error db else NoError)\<rparr>)"
proof (induction sts arbitrary: db)
  case (Cons st sts)
  then obtain d' where "st (sq_data db) = Done d'" "run_statements sts d' = Some d"
    by (auto split: statement_result.splits)
  with Cons.IH [of "db\<lparr>sq_data := d', sq_error := NoError\<rparr>"] Cons.prems show ?case
    by (simp add: exec_good errorOccurred_def)
qed simp

lemma transactionalExec_good:
  assumes "sq_io db = []" and "sq_saved db = None" and "run_statements sts (sq_data db) = Some d"
  shows "transactionalExec sts db =
    (True, db\<lparr>sq_data := d, sq_error := (if sts = [] then sq_error db else NoError)\<rparr>)"
  using assms by (simp add: transactionalExec_def start_good commit_good exec_while_ok_good)

end
