(* ===== verification/Qt_Map.thy ===== *)
theory Qt_Map
  imports Signon_Prelude
begin

text \<open>
  The containers the daemon keeps its data in: \<open>QMap\<close>, a list of pairs sorted by key in
  which \<open>insertMulti\<close> and \<open>unite\<close> may put several values under one key, and \<open>QHash\<close>,
  a list of pairs in no particular order. What the code relies on is one interface, the
  locale \<open>dictionary\<close>, with an interpretation for each of the two.
\<close>

section \<open>The interface\<close>

locale dictionary =
  fixes lookup :: "'m \<Rightarrow> 'k \<Rightarrow> 'v option"
    and ins :: "'k \<Rightarrow> 'v \<Rightarrow> 'm \<Rightarrow> 'm"
    and rem :: "'k \<Rightarrow> 'm \<Rightarrow> 'm"
    and entries :: "'m \<Rightarrow> ('k \<times> 'v) list"
  assumes lookup_ins: "lookup (ins k v m) = (lookup m)(k \<mapsto> v)"
    and lookup_rem: "lookup (rem k m) = (lookup m)(k := None)"
    and lookup_entries: "lookup m = map_of (entries m)"
begin

lemma lookup_ins_same: "lookup (ins k v m) k = Some v"
  by (simp add: lookup_ins)

lemma lookup_rem_same: "lookup (rem k m) k = None"
  by (simp add: lookup_rem)

lemma lookup_rem_ins: "lookup (rem k (ins k v m)) = lookup (rem k m)"
  by (simp add: lookup_ins lookup_rem)

text \<open>A loop that inserts pairs one after the other: the last one of each key wins.\<close>

lemma lookup_fold_ins:
  "lookup (fold (\<lambda>(k, v). ins k v) xs m) = lookup m ++ map_of (rev xs)"
proof (induction xs arbitrary: m)
  case (Cons x xs)
  then show ?case
    by (cases x) (simp add: lookup_ins map_add_assoc [symmetric] fun_eq_iff map_add_def
        split: option.splits)
qed simp

text \<open>A loop that removes keys one after the other.\<close>

lemma lookup_fold_rem:
  "lookup (fold rem ks m) k = (if k \<in> set ks then None else lookup m k)"
  by (induction ks arbitrary: m) (auto simp: lookup_rem)

lemma finite_dom_lookup: "finite (dom (lookup m))"
  by (simp add: lookup_entries finite_dom_map_of)

end

section \<open>QMap\<close>

type_synonym ('k, 'v) qmap = "('k \<times> 'v) list"

fun qm_insert :: "'k::linorder \<Rightarrow> 'v \<Rightarrow> ('k, 'v) qmap \<Rightarrow> ('k, 'v) qmap" where
  "qm_insert k v [] = [(k, v)]"
| "qm_insert k v ((k', v') # m) =
     (if k' < k then (k', v') # qm_insert k v m
      else if k' = k then (k, v) # m
      else (k, v) # (k', v') # m)"

fun qm_insertMulti :: "'k::linorder \<Rightarrow> 'v \<Rightarrow> ('k, 'v) qmap \<Rightarrow> ('k, 'v) qmap" where
  "qm_insertMulti k v [] = [(k, v)]"
| "qm_insertMulti k v ((k', v') # m) =
     (if k' < k then (k', v') # qm_insertMulti k v m else (k, v) # (k', v') # m)"

definition qm_remove :: "'k \<Rightarrow> ('k, 'v) qmap \<Rightarrow> ('k, 'v) qmap" where
  "qm_remove k m = filter (\<lambda>p. fst p \<noteq> k) m"

text \<open>\<open>unite\<close> walks its argument from the last entry to the first.\<close>

definition qm_unite :: "('k::linorder, 'v) qmap \<Rightarrow> ('k, 'v) qmap \<Rightarrow> ('k, 'v) qmap" where
  "qm_unite m other = foldr (\<lambda>(k, v). qm_insertMulti k v) other m"

definition qm_contains :: "('k, 'v) qmap \<Rightarrow> 'k \<Rightarrow> bool" where
  "qm_contains m k \<longleftrightarrow> map_of m k \<noteq> None"

definition qm_value :: "('k, 'v) qmap \<Rightarrow> 'k \<Rightarrow> 'v \<Rightarrow> 'v" where
  "qm_value m k d = (case map_of m k of None \<Rightarrow> d | Some v \<Rightarrow> v)"

definition qm_keys :: "('k, 'v) qmap \<Rightarrow> 'k list" where
  "qm_keys m = map fst m"

text \<open>Single-valued maps: the keys are strictly increasing.\<close>

definition qm_wf :: "('k::linorder, 'v) qmap \<Rightarrow> bool" where
  "qm_wf m \<longleftrightarrow> sorted_wrt (<) (map fst m)"

lemma map_of_qm_insert [simp]: "map_of (qm_insert k v m) = (map_of m)(k \<mapsto> v)"
  by (induction m) (auto simp: fun_eq_iff)

lemma map_of_qm_insertMulti [simp]: "map_of (qm_insertMulti k v m) = (map_of m)(k \<mapsto> v)"
  by (induction m) (auto simp: fun_eq_iff)

lemma map_of_qm_remove [simp]: "map_of (qm_remove k m) = (map_of m)(k := None)"
  by (induction m) (auto simp: qm_remove_def fun_eq_iff)

lemma map_of_qm_unite [simp]: "map_of (qm_unite m other) = map_of m ++ map_of other"
  by (induction other) (auto simp: qm_unite_def fun_eq_iff map_add_def)

lemma qm_contains_insert [simp]:
  "qm_contains (qm_insert k v m) k' \<longleftrightarrow> k' = k \<or> qm_contains m k'"
  by (simp add: qm_contains_def)

lemma qm_value_insert [simp]:
  "qm_value (qm_insert k v m) k' d = (if k' = k then v else qm_value m k' d)"
  by (simp add: qm_value_def)

lemma qm_contains_remove [simp]:
  "qm_contains (qm_remove k m) k' \<longleftrightarrow> k' \<noteq> k \<and> qm_contains m k'"
  by (simp add: qm_contains_def)

lemma qm_value_remove [simp]:
  "qm_value (qm_remove k m) k' d = (if k' = k then d else qm_value m k' d)"
  by (simp add: qm_value_def)

lemma qm_empty_simps [simp]: "\<not> qm_contains [] k" "qm_value [] k d = d"
  by (simp_all add: qm_contains_def qm_value_def)

lemma set_qm_insert [simp]: "fst ` set (qm_insert k v m) = insert k (fst ` set m)"
  by (simp flip: dom_map_of_conv_image_fst)

lemma set_qm_insertMulti [simp]: "fst ` set (qm_insertMulti k v m) = insert k (fst ` set m)"
  by (simp flip: dom_map_of_conv_image_fst)

lemma set_qm_unite [simp]: "fst ` set (qm_unite m other) = fst ` set m \<union> fst ` set other"
  by (simp flip: dom_map_of_conv_image_fst add: Un_commute)

lemma qm_wf_Nil [simp]: "qm_wf []"
  by (simp add: qm_wf_def)

lemma qm_wf_Cons: "qm_wf (p # m) \<longleftrightarrow> (\<forall>k \<in> fst ` set m. fst p < k) \<and> qm_wf m"
  by (auto simp: qm_wf_def)

lemma qm_wf_insert [simp, inv_intros]: "qm_wf m \<Longrightarrow> qm_wf (qm_insert k v m)"
proof (induction m)
  case (Cons p m)
  obtain k' v' where p: "p = (k', v')" by (cases p)
  have "\<forall>x \<in> fst ` set m. k < x" if "\<not> k' < k" "k' \<noteq> k"
    using Cons.prems that by (auto simp: qm_wf_Cons p dest: less_trans)
  then show ?case
    using Cons by (auto simp: p qm_wf_Cons simp del: ball_simps)
qed (simp add: qm_wf_Cons)

lemma qm_wf_insertMulti: "qm_wf m \<Longrightarrow> k \<notin> fst ` set m \<Longrightarrow> qm_wf (qm_insertMulti k v m)"
proof (induction m)
  case (Cons p m)
  obtain k' v' where p: "p = (k', v')" by (cases p)
  have "\<forall>x \<in> fst ` set m. k < x" if "\<not> k' < k" "k' \<noteq> k"
    using Cons.prems that by (auto simp: qm_wf_Cons p dest: less_trans)
  then show ?case
    using Cons by (auto simp: p qm_wf_Cons simp del: ball_simps)
qed (simp add: qm_wf_Cons)

lemma qm_wf_remove [simp, inv_intros]: "qm_wf m \<Longrightarrow> qm_wf (qm_remove k m)"
  by (auto simp: qm_wf_def qm_remove_def sorted_wrt_map intro: sorted_wrt_filter)

lemma qm_wf_distinct: "qm_wf m \<Longrightarrow> distinct (map fst m)"
  by (simp add: qm_wf_def strict_sorted_iff)

lemma qm_wf_unite:
  assumes "qm_wf m" and "qm_wf other" and "fst ` set m \<inter> fst ` set other = {}"
  shows "qm_wf (qm_unite m other)"
  using assms(2,3)
proof (induction other)
  case Nil
  then show ?case by (simp add: qm_unite_def assms(1))
next
  case (Cons p other)
  obtain k v where p: "p = (k, v)" by (cases p)
  have IH: "qm_wf (qm_unite m other)"
    using Cons by (auto simp: qm_wf_Cons)
  have "k \<notin> fst ` set (qm_unite m other)"
    using Cons.prems p by (auto simp: qm_wf_Cons simp del: ball_simps)
  with IH show ?case
    by (simp add: qm_unite_def p qm_wf_insertMulti)
qed

interpretation qmap: dictionary map_of qm_insert qm_remove "\<lambda>m. m"
  by unfold_locales simp_all

section \<open>QHash\<close>

type_synonym ('k, 'v) qhash = "('k \<times> 'v) list"

fun qh_insert :: "'k \<Rightarrow> 'v \<Rightarrow> ('k, 'v) qhash \<Rightarrow> ('k, 'v) qhash" where
  "qh_insert k v [] = [(k, v)]"
| "qh_insert k v ((k', v') # h) = (if k' = k then (k, v) # h else (k', v') # qh_insert k v h)"

definition qh_remove :: "'k \<Rightarrow> ('k, 'v) qhash \<Rightarrow> ('k, 'v) qhash" where
  "qh_remove k h = filter (\<lambda>p. fst p \<noteq> k) h"

text \<open>\<open>operator[]\<close> and \<open>value\<close>: the value under a key, or a default-constructed one.\<close>

definition qh_value :: "('k, 'v) qhash \<Rightarrow> 'k \<Rightarrow> 'v \<Rightarrow> 'v" where
  "qh_value h k d = (case map_of h k of None \<Rightarrow> d | Some v \<Rightarrow> v)"

lemma map_of_qh_insert [simp]: "map_of (qh_insert k v h) = (map_of h)(k \<mapsto> v)"
  by (induction h) (auto simp: fun_eq_iff)

lemma map_of_qh_remove [simp]: "map_of (qh_remove k h) = (map_of h)(k := None)"
  by (induction h) (auto simp: qh_remove_def fun_eq_iff)

lemma keys_qh_insert [simp]: "fst ` set (qh_insert k v h) = insert k (fst ` set h)"
  by (simp flip: dom_map_of_conv_image_fst)

lemma distinct_qh_insert [simp, inv_intros]:
  "distinct (map fst h) \<Longrightarrow> distinct (map fst (qh_insert k v h))"
proof (induction h)
  case (Cons p h)
  have "fst ` set (qh_insert k v h) = insert k (fst ` set h)" by simp
  with Cons show ?case by (cases p) auto
qed simp

interpretation qhash: dictionary map_of qh_insert qh_remove "\<lambda>h. h"
  by unfold_locales simp_all

end
