(* ===== verification/Variants.thy ===== *)
theory Variants
  imports Qt_Map
begin

text \<open>
  \<open>QVariant\<close> and \<open>QVariantMap\<close>, the type of everything that crosses D-Bus or is handed to a
  plugin, with the conversions the daemon applies to them; and the two functions of the
  session core that work on whole maps: \<open>mergeVariantMaps\<close>
  (src/signond/signonsessioncoretools.cpp) and \<open>filterVariantMap\<close>
  (src/signond/signonsessioncore.cpp).
\<close>

section \<open>QVariant\<close>

text \<open>
  One constructor for each type the daemon reads or writes. A \<open>QDBusArgument\<close> is a value that
  D-Bus has not demarshalled yet; the daemon expects one to hold a \<open>MethodMap\<close> or an
  \<open>a{sv}\<close> map. \<open>VOther\<close> stands for a value of any other type.
\<close>

type_synonym method_map = "(string, qstring list) qmap"

datatype qvariant =
    VInvalid
  | VBool bool
  | VInt int
  | VUInt nat
  | VString qstring
  | VStringList "qstring list"
  | VMap "(string \<times> qvariant) list"
  | VMethodMap method_map
  | VDBus dbus_argument
  | VOther string
and dbus_argument =
    DVariantMap "(string \<times> qvariant) list"
  | DMethodMap method_map
  | DOther

type_synonym qvariant_map = "(string, qvariant) qmap"

fun v_isValid :: "qvariant \<Rightarrow> bool" where
  "v_isValid VInvalid = False"
| "v_isValid _ = True"

fun v_isNull :: "qvariant \<Rightarrow> bool" where
  "v_isNull VInvalid = True"
| "v_isNull (VString s) = qisNull s"
| "v_isNull _ = False"

fun v_toString :: "qvariant \<Rightarrow> qstring" where
  "v_toString (VString s) = s"
| "v_toString (VInt i) = QStr (int_str i)"
| "v_toString (VUInt n) = QStr (nat_str n)"
| "v_toString (VBool b) = QStr (if b then ''true'' else ''false'')"
| "v_toString (VStringList [s]) = s"
| "v_toString _ = QNull"

definition lower :: "string \<Rightarrow> string" where
  "lower = map (\<lambda>c. let n = of_char c :: nat in if 65 \<le> n \<and> n \<le> 90 then char_of (n + 32) else c)"

fun v_toBool :: "qvariant \<Rightarrow> bool" where
  "v_toBool (VBool b) = b"
| "v_toBool (VInt i) = (i \<noteq> 0)"
| "v_toBool (VUInt n) = (n \<noteq> 0)"
| "v_toBool (VString s) = (lower (chars s) \<notin> {[], ''0'', ''false''})"
| "v_toBool _ = False"

text \<open>\<open>toInt\<close> and \<open>toUInt\<close> read a string as a number of 64 bits, signed for \<open>toInt\<close> and unsigned for \<open>toUInt\<close>, which is 0
  when there is none, and keep its lower 32 bits.\<close>

fun v_toInt :: "qvariant \<Rightarrow> int" where
  "v_toInt (VInt i) = i"
| "v_toInt (VUInt n) = to_int (int n)"
| "v_toInt (VBool b) = (if b then 1 else 0)"
| "v_toInt (VString s) =
     (case str_int (chars s) of None \<Rightarrow> 0 | Some i \<Rightarrow> if - (2 ^ 63) \<le> i \<and> i < 2 ^ 63 then to_int i else 0)"
| "v_toInt _ = 0"

fun v_toUInt :: "qvariant \<Rightarrow> nat" where
  "v_toUInt (VInt i) = to_uint i"
| "v_toUInt (VUInt n) = n"
| "v_toUInt (VBool b) = (if b then 1 else 0)"
| "v_toUInt (VString s) =
     (case str_int (chars s) of None \<Rightarrow> 0 | Some i \<Rightarrow> if 0 \<le> i \<and> i < 2 ^ 64 then to_uint i else 0)"
| "v_toUInt _ = 0"

fun v_toStringList :: "qvariant \<Rightarrow> qstring list" where
  "v_toStringList (VStringList xs) = xs"
| "v_toStringList (VString s) = [s]"
| "v_toStringList _ = []"

text \<open>\<open>value<MethodMap>()\<close> of a variant that holds a method map, and \<open>qdbus_cast\<close> of one that
  has not been demarshalled.\<close>

fun v_methodMap :: "qvariant \<Rightarrow> method_map" where
  "v_methodMap (VMethodMap m) = m"
| "v_methodMap _ = []"

fun qdbus_cast_methods :: "dbus_argument \<Rightarrow> method_map" where
  "qdbus_cast_methods (DMethodMap m) = m"
| "qdbus_cast_methods _ = []"

section \<open>Functions on whole maps\<close>

text \<open>
  \<open>mergeVariantMaps\<close>. The loop over the second map removes the keys it shares with the first,
  because \<open>unite\<close> would otherwise keep both values under one key.
\<close>

definition merge_loop :: "qvariant_map \<Rightarrow> qvariant_map \<Rightarrow> qvariant_map" where
  "merge_loop m m2 =
     fold (\<lambda>(k, _) m. if qm_contains m k then qm_remove k m else m) m2 m"

definition mergeVariantMaps :: "qvariant_map \<Rightarrow> qvariant_map \<Rightarrow> qvariant_map" where
  "mergeVariantMaps m1 m2 =
     (if m1 = [] then m2
      else if m2 = [] then m1
      else qm_unite (merge_loop m1 m2) m2)"

definition filterVariantMap :: "qvariant_map \<Rightarrow> qvariant_map" where
  "filterVariantMap other =
     fold (\<lambda>k result.
        if \<not> v_isNull (qm_value other k VInvalid) \<and> v_isValid (qm_value other k VInvalid)
        then qm_insert k (qm_value other k VInvalid) result else result)
       (qm_keys other) []"

lemma qm_remove_absent: "\<not> qm_contains m k \<Longrightarrow> qm_remove k m = m"
  by (simp add: qm_contains_def qm_remove_def filter_id_conv map_of_eq_None_iff) force

lemma merge_loop_eq: "merge_loop m xs = fold qm_remove (map fst xs) m"
  by (induction xs arbitrary: m)
     (auto simp: merge_loop_def qm_remove_absent split: prod.splits)

lemma merge_loop_lookup:
  "map_of (merge_loop m xs) k = (if k \<in> fst ` set xs then None else map_of m k)"
  by (simp add: merge_loop_eq qmap.lookup_fold_rem)

lemma merge_loop_keys: "fst ` set (merge_loop m xs) = fst ` set m - fst ` set xs"
  by (auto simp: merge_loop_lookup split: if_splits simp flip: dom_map_of_conv_image_fst)

lemma merge_loop_wf: "qm_wf m \<Longrightarrow> qm_wf (merge_loop m xs)"
  unfolding merge_loop_eq by (induction xs arbitrary: m) simp_all

lemma merge_lookup: "map_of (mergeVariantMaps m1 m2) = map_of m1 ++ map_of m2"
proof (rule ext)
  fix k
  have "map_of m2 k = None \<longleftrightarrow> k \<notin> fst ` set m2"
    by (simp add: map_of_eq_None_iff)
  then show "map_of (mergeVariantMaps m1 m2) k = (map_of m1 ++ map_of m2) k"
    by (cases "map_of m2 k")
       (auto simp: mergeVariantMaps_def merge_loop_lookup map_add_def)
qed

lemma merge_wf [inv_intros]:
  "qm_wf m1 \<Longrightarrow> qm_wf m2 \<Longrightarrow> qm_wf (mergeVariantMaps m1 m2)"
  by (simp add: mergeVariantMaps_def merge_loop_wf qm_wf_unite merge_loop_keys Diff_disjoint
      Int_commute)

lemma merge_value [simp]:
  "qm_value (mergeVariantMaps m1 m2) k d = qm_value m2 k (qm_value m1 k d)"
  by (simp add: qm_value_def merge_lookup map_add_def split: option.splits)

text \<open>The loop of \<open>filterVariantMap\<close>, started from any result.\<close>

lemma filter_loop:
  "map_of (fold (\<lambda>k r. if P k then qm_insert k (f k) r else r) ks m) k
     = (if k \<in> set ks \<and> P k then Some (f k) else map_of m k)"
  by (induction ks arbitrary: m) auto

lemma filter_loop_wf:
  "qm_wf m \<Longrightarrow> qm_wf (fold (\<lambda>k r. if P k then qm_insert k (f k) r else r) ks m)"
  by (induction ks arbitrary: m) auto

lemma filterVariantMap_lookup:
  "map_of (filterVariantMap m) k =
     (case map_of m k of None \<Rightarrow> None | Some v \<Rightarrow> if v_isNull v \<or> \<not> v_isValid v then None else Some v)"
  by (cases "map_of m k")
     (auto simp: filterVariantMap_def filter_loop qm_keys_def qm_value_def
      simp flip: dom_map_of_conv_image_fst)

lemma filterVariantMap_wf [inv_intros, simp]: "qm_wf (filterVariantMap m)"
  by (simp add: filterVariantMap_def filter_loop_wf)

lemma v_isNull_invalid: "\<not> v_isValid v \<Longrightarrow> v_isNull v"
  by (cases v) simp_all

end
