(* ===== verification/Identity_Info.thy ===== *)
theory Identity_Info
  imports Variants
begin

text \<open>
  \<open>SignonIdentityInfo\<close> (src/signond/signonidentityinfo.h and .cpp): what the daemon knows of an
  identity. It is a \<open>QVariantMap\<close> with typed accessors, so a field can be missing or hold a
  value of the wrong type, in which case its accessor gives a default. The last section is
  the check of a requested method and mechanism against those the identity allows.
\<close>

type_synonym identity_info = qvariant_map

text \<open>The keys of src/lib/signond/signoncommon.h.\<close>

abbreviation "KEY_ID \<equiv> ''Id''"
abbreviation "KEY_USERNAME \<equiv> ''UserName''"
abbreviation "KEY_SECRET \<equiv> ''Secret''"
abbreviation "KEY_STORESECRET \<equiv> ''StoreSecret''"
abbreviation "KEY_CAPTION \<equiv> ''Caption''"
abbreviation "KEY_REALMS \<equiv> ''Realms''"
abbreviation "KEY_AUTHMETHODS \<equiv> ''AuthMethods''"
abbreviation "KEY_OWNER \<equiv> ''Owner''"
abbreviation "KEY_ACL \<equiv> ''ACL''"
abbreviation "KEY_TYPE \<equiv> ''Type''"
abbreviation "KEY_REFCOUNT \<equiv> ''RefCount''"
abbreviation "KEY_VALIDATED \<equiv> ''Validated''"
abbreviation "KEY_USERNAME_IS_SECRET \<equiv> ''UserNameSecret''"

definition NEW_IDENTITY :: nat where
  "NEW_IDENTITY = 0"

section \<open>Accessors\<close>

definition setId :: "nat \<Rightarrow> identity_info \<Rightarrow> identity_info" where
  "setId n i = qm_insert KEY_ID (VUInt n) i"

definition info_id :: "identity_info \<Rightarrow> nat" where
  "info_id i = v_toUInt (qm_value i KEY_ID (VInt 0))"

definition setNew :: "identity_info \<Rightarrow> identity_info" where
  "setNew i = setId NEW_IDENTITY i"

definition isNew :: "identity_info \<Rightarrow> bool" where
  "isNew i \<longleftrightarrow> info_id i = NEW_IDENTITY"

definition setUserName :: "qstring \<Rightarrow> identity_info \<Rightarrow> identity_info" where
  "setUserName s i = qm_insert KEY_USERNAME (VString s) i"

definition userName :: "identity_info \<Rightarrow> qstring" where
  "userName i = v_toString (qm_value i KEY_USERNAME VInvalid)"

definition setUserNameSecret :: "bool \<Rightarrow> identity_info \<Rightarrow> identity_info" where
  "setUserNameSecret b i = qm_insert KEY_USERNAME_IS_SECRET (VBool b) i"

definition isUserNameSecret :: "identity_info \<Rightarrow> bool" where
  "isUserNameSecret i = v_toBool (qm_value i KEY_USERNAME_IS_SECRET VInvalid)"

definition setPassword :: "qstring \<Rightarrow> identity_info \<Rightarrow> identity_info" where
  "setPassword s i = qm_insert KEY_SECRET (VString s) i"

definition password :: "identity_info \<Rightarrow> qstring" where
  "password i = v_toString (qm_value i KEY_SECRET VInvalid)"

definition removeSecrets :: "identity_info \<Rightarrow> identity_info" where
  "removeSecrets i =
     (let i' = qm_remove KEY_SECRET i
      in if isUserNameSecret i' then qm_remove KEY_USERNAME i' else i')"

definition hasSecrets :: "identity_info \<Rightarrow> bool" where
  "hasSecrets i \<longleftrightarrow>
     qm_contains i KEY_SECRET \<or> (isUserNameSecret i \<and> qm_contains i KEY_USERNAME)"

definition setStorePassword :: "bool \<Rightarrow> identity_info \<Rightarrow> identity_info" where
  "setStorePassword b i = qm_insert KEY_STORESECRET (VBool b) i"

definition storePassword :: "identity_info \<Rightarrow> bool" where
  "storePassword i = v_toBool (qm_value i KEY_STORESECRET VInvalid)"

definition setCaption :: "qstring \<Rightarrow> identity_info \<Rightarrow> identity_info" where
  "setCaption s i = qm_insert KEY_CAPTION (VString s) i"

definition caption :: "identity_info \<Rightarrow> qstring" where
  "caption i = v_toString (qm_value i KEY_CAPTION VInvalid)"

definition setRealms :: "qstring list \<Rightarrow> identity_info \<Rightarrow> identity_info" where
  "setRealms xs i = qm_insert KEY_REALMS (VStringList xs) i"

definition realms :: "identity_info \<Rightarrow> qstring list" where
  "realms i = v_toStringList (qm_value i KEY_REALMS VInvalid)"

definition setMethods :: "method_map \<Rightarrow> identity_info \<Rightarrow> identity_info" where
  "setMethods m i = qm_insert KEY_AUTHMETHODS (VMethodMap m) i"

definition info_methods :: "identity_info \<Rightarrow> method_map" where
  "info_methods i = v_methodMap (qm_value i KEY_AUTHMETHODS VInvalid)"

definition setAccessControlList :: "qstring list \<Rightarrow> identity_info \<Rightarrow> identity_info" where
  "setAccessControlList xs i = qm_insert KEY_ACL (VStringList xs) i"

definition info_acl :: "identity_info \<Rightarrow> qstring list" where
  "info_acl i = v_toStringList (qm_value i KEY_ACL VInvalid)"

definition setValidated :: "bool \<Rightarrow> identity_info \<Rightarrow> identity_info" where
  "setValidated b i = qm_insert KEY_VALIDATED (VBool b) i"

definition validated :: "identity_info \<Rightarrow> bool" where
  "validated i = v_toBool (qm_value i KEY_VALIDATED VInvalid)"

definition setType :: "int \<Rightarrow> identity_info \<Rightarrow> identity_info" where
  "setType t i = qm_insert KEY_TYPE (VInt t) i"

definition info_type :: "identity_info \<Rightarrow> int" where
  "info_type i = v_toInt (qm_value i KEY_TYPE VInvalid)"

definition setOwnerList :: "qstring list \<Rightarrow> identity_info \<Rightarrow> identity_info" where
  "setOwnerList xs i = qm_insert KEY_OWNER (VStringList xs) i"

definition info_owners :: "identity_info \<Rightarrow> qstring list" where
  "info_owners i = v_toStringList (qm_value i KEY_OWNER VInvalid)"

definition setRefCount :: "int \<Rightarrow> identity_info \<Rightarrow> identity_info" where
  "setRefCount n i = qm_insert KEY_REFCOUNT (VInt n) i"

lemmas info_set_defs = setId_def setNew_def setUserName_def setUserNameSecret_def setPassword_def
  setStorePassword_def setCaption_def setRealms_def setMethods_def setAccessControlList_def
  setValidated_def setType_def setOwnerList_def setRefCount_def

lemmas info_get_defs = info_id_def isNew_def userName_def isUserNameSecret_def password_def
  storePassword_def caption_def realms_def info_methods_def info_acl_def validated_def
  info_type_def info_owners_def

lemma info_set_wf [simp, inv_intros]:
  assumes "qm_wf i"
  shows "qm_wf (setId n i)" "qm_wf (setNew i)" "qm_wf (setUserName s i)" "qm_wf (setPassword s i)"
    "qm_wf (setUserNameSecret b i)" "qm_wf (setStorePassword b i)" "qm_wf (setCaption s i)"
    "qm_wf (setRealms xs i)" "qm_wf (setMethods ms i)" "qm_wf (setAccessControlList xs i)"
    "qm_wf (setValidated b i)" "qm_wf (setType t i)" "qm_wf (setOwnerList xs i)"
    "qm_wf (setRefCount t i)" "qm_wf (removeSecrets i)"
  using assms by (simp_all add: info_set_defs removeSecrets_def Let_def)

section \<open>Construction from a D-Bus map, and update\<close>

definition SignonIdentityInfo :: "qvariant_map \<Rightarrow> identity_info" where
  "SignonIdentityInfo info =
     fold (\<lambda>(k, v) this.
        case v of
          VDBus container \<Rightarrow>
            if k = KEY_AUTHMETHODS then setMethods (qdbus_cast_methods container) this else this
        | _ \<Rightarrow> qm_insert k v this) info []"

definition info_update :: "identity_info \<Rightarrow> identity_info \<Rightarrow> identity_info" where
  "info_update this info =
     fold (\<lambda>(k, v) this. if k = KEY_ID then this else qm_insert k v this) info this"

lemma info_update_fold:
  "info_update this info = fold (\<lambda>(k, v). qm_insert k v) (filter (\<lambda>p. fst p \<noteq> KEY_ID) info) this"
  by (induction info arbitrary: this) (auto simp: info_update_def)

lemma info_update_lookup:
  assumes "distinct (map fst info)"
  shows "map_of (info_update this info) =
    map_of this ++ (map_of info)(KEY_ID := None)"
proof -
  let ?xs = "filter (\<lambda>p. fst p \<noteq> KEY_ID) info"
  have d: "distinct (map fst ?xs)"
    using assms by (rule distinct_map_filter)
  have "map_of (info_update this info) = map_of this ++ map_of (rev ?xs)"
    unfolding info_update_fold by (rule qmap.lookup_fold_ins)
  also have "map_of (rev ?xs) = map_of ?xs"
    using d by (intro map_of_inject_set [THEN iffD2]) (simp_all add: rev_map [symmetric])
  also have "\<dots> = (map_of info)(KEY_ID := None)"
    using map_of_qm_remove [of KEY_ID info] by (simp add: qm_remove_def)
  finally show ?thesis .
qed

lemma info_update_id [simp]: "info_id (info_update this info) = info_id this"
proof -
  have "map_of (info_update this info) KEY_ID = map_of this KEY_ID"
    unfolding info_update_fold qmap.lookup_fold_ins
    by (rule map_add_dom_app_simps(3)) (auto simp: dom_map_of_conv_image_fst)
  then show ?thesis by (simp add: info_id_def qm_value_def)
qed

lemma info_update_wf [inv_intros]: "qm_wf this \<Longrightarrow> qm_wf (info_update this info)"
  unfolding info_update_def by (induction info arbitrary: this) auto

lemma SignonIdentityInfo_wf [simp, inv_intros]: "qm_wf (SignonIdentityInfo info)"
proof -
  have "qm_wf m \<Longrightarrow> qm_wf (fold (\<lambda>(k, v) this.
        case v of VDBus container \<Rightarrow>
            if k = KEY_AUTHMETHODS then setMethods (qdbus_cast_methods container) this else this
        | _ \<Rightarrow> qm_insert k v this) info m)" for m
    by (induction info arbitrary: m) (auto split: qvariant.splits)
  then show ?thesis by (simp add: SignonIdentityInfo_def)
qed

section \<open>Removing the secrets\<close>

lemma removeSecrets_lookup:
  "map_of (removeSecrets i) k =
     (if k = KEY_SECRET \<or> isUserNameSecret i \<and> k = KEY_USERNAME then None else map_of i k)"
  by (simp add: removeSecrets_def Let_def isUserNameSecret_def)

lemma removeSecrets_flag [simp]: "isUserNameSecret (removeSecrets i) = isUserNameSecret i"
  by (simp add: isUserNameSecret_def qm_value_def removeSecrets_lookup)

section \<open>Methods and mechanisms\<close>

text \<open>\<open>QString::split\<close> with \<open>SkipEmptyParts\<close>, and \<open>QStringList::join\<close>.\<close>

fun split_acc :: "char \<Rightarrow> string \<Rightarrow> string \<Rightarrow> string list" where
  "split_acc c acc [] = (if acc = [] then [] else [rev acc])"
| "split_acc c acc (x # xs) =
     (if x = c then (if acc = [] then split_acc c [] xs else rev acc # split_acc c [] xs)
      else split_acc c (x # acc) xs)"

definition split_skip :: "char \<Rightarrow> string \<Rightarrow> string list" where
  "split_skip c s = split_acc c [] s"

fun join :: "string \<Rightarrow> string list \<Rightarrow> string" where
  "join sep [] = []"
| "join sep [x] = x"
| "join sep (x # y # xs) = x @ sep @ join sep (y # xs)"

lemma split_acc_append:
  "c \<notin> set x \<Longrightarrow> split_acc c acc (x @ ys) = split_acc c (rev x @ acc) ys"
  by (induction x arbitrary: acc) auto

lemma split_join:
  "\<forall>x \<in> set xs. x \<noteq> [] \<and> c \<notin> set x \<Longrightarrow> split_skip c (join [c] xs) = xs"
proof (induction "[c]" xs rule: join.induct)
  case (2 x)
  then show ?case using split_acc_append [of c x "[]" "[]"] by (simp add: split_skip_def)
next
  case (3 x y xs)
  then show ?case by (simp add: split_skip_def split_acc_append)
qed (simp add: split_skip_def)

lemma split_acc_parts:
  "c \<notin> set acc \<Longrightarrow> x \<in> set (split_acc c acc s) \<Longrightarrow> x \<noteq> [] \<and> c \<notin> set x"
  by (induction s arbitrary: acc) (fastforce split: if_splits)+

lemma split_skip_parts: "x \<in> set (split_skip c s) \<Longrightarrow> x \<noteq> [] \<and> c \<notin> set x"
  using split_acc_parts [of c "[]"] by (simp add: split_skip_def)

text \<open>
  \<open>checkMethodAndMechanism\<close>: the verdict, and the value the out-parameter
  \<open>allowedMechanism\<close> has afterwards (it keeps the caller's value where the code does not
  assign it).
\<close>

definition checkMethodAndMechanism ::
    "identity_info \<Rightarrow> qstring \<Rightarrow> qstring \<Rightarrow> qstring \<Rightarrow> bool \<times> qstring" where
  "checkMethodAndMechanism info method mechanism allowedMechanism =
     (let methodMap = info_methods info in
      if methodMap = [] then (True, allowedMechanism)
      else case map_of methodMap (chars method) of
        None \<Rightarrow> (False, allowedMechanism)
      | Some mechs \<Rightarrow>
          if mechs = [] then (True, allowedMechanism)
          else if qcontains mechs mechanism then (True, mechanism)
          else let mechanisms = split_skip (CHR '' '') (chars mechanism) in
            if length mechanisms \<le> 1 then (False, allowedMechanism)
            else let allowedMechanisms = filter (\<lambda>m. qcontains mechs (QStr m)) mechanisms in
              if allowedMechanisms = [] then (False, allowedMechanism)
              else (True, QStr (join '' '' allowedMechanisms)))"

text \<open>What the allowed mechanisms of a request are, as a set.\<close>

definition offered :: "qstring list \<Rightarrow> qstring \<Rightarrow> string set" where
  "offered mechs mechanism =
     (if qcontains mechs mechanism then {chars mechanism}
      else {m \<in> set (split_skip (CHR '' '') (chars mechanism)). qcontains mechs (QStr m)})"

lemma check_unrestricted:
  "info_methods i = [] \<Longrightarrow> checkMethodAndMechanism i me m a = (True, a)"
  "info_methods i \<noteq> [] \<Longrightarrow> map_of (info_methods i) (chars me) = Some [] \<Longrightarrow>
     checkMethodAndMechanism i me m a = (True, a)"
  by (simp_all add: checkMethodAndMechanism_def Let_def)

lemma check_unknown_method:
  "info_methods i \<noteq> [] \<Longrightarrow> map_of (info_methods i) (chars me) = None \<Longrightarrow>
     checkMethodAndMechanism i me m a = (False, a)"
  by (simp add: checkMethodAndMechanism_def Let_def)

lemma single_part_offered:
  assumes "length (split_skip (CHR '' '') s) \<le> 1" and "x \<in> set (split_skip (CHR '' '') s)"
  shows "set (split_skip (CHR '' '') s) = {x}"
  using assms by (cases "split_skip (CHR '' '') s") auto

lemma check_restricted:
  assumes "map_of (info_methods i) (chars me) = Some mechs" and "mechs \<noteq> []"
  shows "checkMethodAndMechanism i me m a =
    (if qcontains mechs m then (True, m)
     else let ps = split_skip (CHR '' '') (chars m);
              as = filter (\<lambda>x. qcontains mechs (QStr x)) ps
          in if length ps \<le> 1 \<or> as = [] then (False, a) else (True, QStr (join '' '' as)))"
proof -
  have "info_methods i \<noteq> []" using assms(1) by auto
  with assms show ?thesis
    by (simp add: checkMethodAndMechanism_def Let_def)
qed

lemma check_restricted_parts:
  assumes "map_of (info_methods i) (chars me) = Some mechs" and "mechs \<noteq> []"
    and "checkMethodAndMechanism i me m a = (True, r)"
  shows "r = m \<and> qcontains mechs m \<or>
    split_skip (CHR '' '') (chars r) =
      filter (\<lambda>x. qcontains mechs (QStr x)) (split_skip (CHR '' '') (chars m))"
proof (cases "qcontains mechs m")
  case True
  then show ?thesis using assms by (simp add: check_restricted)
next
  case False
  let ?as = "filter (\<lambda>x. qcontains mechs (QStr x)) (split_skip (CHR '' '') (chars m))"
  have "r = QStr (join '' '' ?as)"
    using assms False by (auto simp: check_restricted Let_def split: if_splits)
  moreover have "split_skip (CHR '' '') (join '' '' ?as) = ?as"
    by (rule split_join) (auto dest: split_skip_parts)
  ultimately show ?thesis by simp
qed

end
