(* ===== verification/Meta_Tables.thy ===== *)
theory Meta_Tables
  imports Sql_Database Identity_Info
begin

unbundle bit_operations_syntax

text \<open>
  The schema of the metadata database and the SQL statements that \<open>MetaDataDB\<close>
  (src/signond/credentialsdb.cpp) executes on it: the tables of \<open>createTables\<close> and
  \<open>tableUpdates2\<close>, their triggers, and for each INSERT, UPDATE, DELETE and SELECT of the
  class the function it computes. SQLite enforces no foreign keys unless asked to; all the
  referential integrity there is comes from the triggers, each of which acts only if it has
  been created.
\<close>

section \<open>Schema objects\<close>

datatype meta_obj =
    T_CREDENTIALS | T_METHODS | T_MECHANISMS | T_TOKENS | T_REALMS | T_ACL | T_REFS | T_OWNER
  | fki_REALMS_identity_id_CREDENTIALS_id | fku_REALMS_identity_id_CREDENTIALS_id
  | fkdc_REALMS_identity_id_CREDENTIALS_id
  | fki_ACL_identity_id_CREDENTIALS_id | fku_ACL_identity_id_CREDENTIALS_id
  | fkdc_ACL_identity_id_CREDENTIALS_id
  | fki_ACL_method_id_METHODS_id | fku_ACL_method_id_METHODS_id | fkdc_ACL_method_id_METHODS_id
  | fki_ACL_mechanism_id_MECHANISMS_id | fku_ACL_mechanism_id_MECHANISMS_id
  | fkdc_ACL_mechanism_id_MECHANISMS_id
  | fki_ACL_token_id_TOKENS_id | fku_ACL_token_id_TOKENS_id | fkdc_ACL_token_id_TOKENS_id
  | fki_REFS_identity_id_CREDENTIALS_id | fku_REFS_identity_id_CREDENTIALS_id
  | fkdc_REFS_identity_id_CREDENTIALS_id
  | fki_REFS_token_id_TOKENS_id | fku_REFS_token_id_TOKENS_id | fkdc_REFS_token_id_TOKENS_id
  | fki_OWNER_token_id_TOKENS_id | fku_OWNER_token_id_TOKENS_id | fkdc_OWNER_token_id_TOKENS_id

text \<open>The CREATE statements, in the order of the code.\<close>

definition tableUpdates2 :: "meta_obj list" where
  "tableUpdates2 =
    [T_OWNER, fki_OWNER_token_id_TOKENS_id, fku_OWNER_token_id_TOKENS_id,
     fkdc_OWNER_token_id_TOKENS_id]"

definition create_base_tables :: "meta_obj list" where
  "create_base_tables =
    [T_CREDENTIALS, T_METHODS, T_MECHANISMS, T_TOKENS, T_REALMS, T_ACL, T_REFS]"

definition create_realms_acl_triggers :: "meta_obj list" where
  "create_realms_acl_triggers =
    [fki_REALMS_identity_id_CREDENTIALS_id, fku_REALMS_identity_id_CREDENTIALS_id,
     fkdc_REALMS_identity_id_CREDENTIALS_id,
     fki_ACL_identity_id_CREDENTIALS_id, fku_ACL_identity_id_CREDENTIALS_id,
     fkdc_ACL_identity_id_CREDENTIALS_id,
     fki_ACL_method_id_METHODS_id, fku_ACL_method_id_METHODS_id, fkdc_ACL_method_id_METHODS_id,
     fki_ACL_mechanism_id_MECHANISMS_id, fku_ACL_mechanism_id_MECHANISMS_id,
     fkdc_ACL_mechanism_id_MECHANISMS_id,
     fki_ACL_token_id_TOKENS_id, fku_ACL_token_id_TOKENS_id, fkdc_ACL_token_id_TOKENS_id]"

definition create_refs_triggers :: "meta_obj list" where
  "create_refs_triggers =
    [fki_REFS_identity_id_CREDENTIALS_id, fku_REFS_identity_id_CREDENTIALS_id,
     fkdc_REFS_identity_id_CREDENTIALS_id,
     fki_REFS_token_id_TOKENS_id, fku_REFS_token_id_TOKENS_id, fkdc_REFS_token_id_TOKENS_id]"

definition createTableQuery :: "meta_obj list" where
  "createTableQuery = create_base_tables @ create_realms_acl_triggers @ create_refs_triggers
     @ tableUpdates2"

lemmas schema_defs = createTableQuery_def create_base_tables_def create_realms_acl_triggers_def
  create_refs_triggers_def tableUpdates2_def

section \<open>Rows\<close>

record cred_row =
  cr_id :: nat
  cr_caption :: qstring
  cr_username :: qstring
  cr_flags :: int
  cr_type :: int

record acl_row =
  acl_identity :: nat
  acl_method :: "nat option"
  acl_mechanism :: "nat option"
  acl_token :: "nat option"

text \<open>METHODS, MECHANISMS and TOKENS: AUTOINCREMENT ids and a UNIQUE name.\<close>

record name_table =
  nt_seq :: nat
  nt_rows :: "(nat \<times> qstring) list"

text \<open>The hostname column of REALMS is never set: a row is an identity and a realm.\<close>

record meta_data =
  md_objects :: "meta_obj list"
  md_version :: int
  md_cred_seq :: nat
  md_credentials :: "cred_row list"
  md_methods :: name_table
  md_mechanisms :: name_table
  md_tokens :: name_table
  md_realms :: "(nat \<times> qstring) list"
  md_acl :: "acl_row list"
  md_refs :: "(nat \<times> nat option \<times> qstring) list"
  md_owner :: "(nat \<times> nat option) list"

definition empty_names :: name_table where
  "empty_names = \<lparr>nt_seq = 0, nt_rows = []\<rparr>"

definition empty_meta :: meta_data where
  "empty_meta = \<lparr>md_objects = [], md_version = 0, md_cred_seq = 0, md_credentials = [],
     md_methods = empty_names, md_mechanisms = empty_names, md_tokens = empty_names,
     md_realms = [], md_acl = [], md_refs = [], md_owner = []\<rparr>"

definition has :: "meta_data \<Rightarrow> meta_obj \<Rightarrow> bool" where
  "has d obj \<longleftrightarrow> obj \<in> set (md_objects d)"

definition cred_ids :: "meta_data \<Rightarrow> nat list" where
  "cred_ids d = map cr_id (md_credentials d)"

definition nt_ids :: "name_table \<Rightarrow> nat list" where
  "nt_ids t = map fst (nt_rows t)"

text \<open>\<open>(SELECT id FROM T WHERE name = :name)\<close>: NULL equals nothing.\<close>

definition nt_id :: "name_table \<Rightarrow> qstring \<Rightarrow> nat option" where
  "nt_id t n = (if n = QNull then None else map_option fst (List.find (\<lambda>r. snd r = n) (nt_rows t)))"

definition nt_taken :: "name_table \<Rightarrow> qstring \<Rightarrow> bool" where
  "nt_taken t n \<longleftrightarrow> n \<noteq> QNull \<and> n \<in> snd ` set (nt_rows t)"

text \<open>
  INSERT OR IGNORE: a name that is taken is ignored, but the AUTOINCREMENT counter has been
  advanced. UNIQUE lets any number of NULLs in.
\<close>

definition nt_insert_or_ignore :: "qstring \<Rightarrow> name_table \<Rightarrow> name_table" where
  "nt_insert_or_ignore n t =
     (if nt_taken t n then t\<lparr>nt_seq := nt_seq t + 1\<rparr>
      else t\<lparr>nt_seq := nt_seq t + 1, nt_rows := nt_rows t @ [(nt_seq t + 1, n)]\<rparr>)"

section \<open>Statements\<close>

text \<open>CREATE TABLE or CREATE TRIGGER: the table a trigger is attached to has to exist.\<close>

fun obj_table :: "meta_obj \<Rightarrow> meta_obj" where
  "obj_table fki_REALMS_identity_id_CREDENTIALS_id = T_REALMS"
| "obj_table fku_REALMS_identity_id_CREDENTIALS_id = T_REALMS"
| "obj_table fkdc_REALMS_identity_id_CREDENTIALS_id = T_CREDENTIALS"
| "obj_table fkdc_ACL_identity_id_CREDENTIALS_id = T_CREDENTIALS"
| "obj_table fkdc_ACL_method_id_METHODS_id = T_METHODS"
| "obj_table fkdc_ACL_mechanism_id_MECHANISMS_id = T_MECHANISMS"
| "obj_table fkdc_ACL_token_id_TOKENS_id = T_TOKENS"
| "obj_table fki_ACL_identity_id_CREDENTIALS_id = T_ACL"
| "obj_table fku_ACL_identity_id_CREDENTIALS_id = T_ACL"
| "obj_table fki_ACL_method_id_METHODS_id = T_ACL"
| "obj_table fku_ACL_method_id_METHODS_id = T_ACL"
| "obj_table fki_ACL_mechanism_id_MECHANISMS_id = T_ACL"
| "obj_table fku_ACL_mechanism_id_MECHANISMS_id = T_ACL"
| "obj_table fki_ACL_token_id_TOKENS_id = T_ACL"
| "obj_table fku_ACL_token_id_TOKENS_id = T_ACL"
| "obj_table fkdc_REFS_identity_id_CREDENTIALS_id = T_CREDENTIALS"
| "obj_table fkdc_REFS_token_id_TOKENS_id = T_TOKENS"
| "obj_table fki_REFS_identity_id_CREDENTIALS_id = T_REFS"
| "obj_table fku_REFS_identity_id_CREDENTIALS_id = T_REFS"
| "obj_table fki_REFS_token_id_TOKENS_id = T_REFS"
| "obj_table fku_REFS_token_id_TOKENS_id = T_REFS"
| "obj_table fki_OWNER_token_id_TOKENS_id = T_OWNER"
| "obj_table fku_OWNER_token_id_TOKENS_id = T_OWNER"
| "obj_table fkdc_OWNER_token_id_TOKENS_id = T_TOKENS"
| "obj_table t = t"

definition st_create :: "meta_obj \<Rightarrow> meta_data statement" where
  "st_create obj d =
     (if has d obj \<or> obj_table obj \<noteq> obj \<and> \<not> has d (obj_table obj) then Fail
      else Done (d\<lparr>md_objects := md_objects d @ [obj]\<rparr>))"

definition st_set_version :: "int \<Rightarrow> meta_data statement" where
  "st_set_version v d = Done (d\<lparr>md_version := v\<rparr>)"

text \<open>The test in the BEFORE INSERT triggers: the reference is not NULL and there is no such
  row.\<close>

definition violates :: "meta_data \<Rightarrow> meta_obj \<Rightarrow> nat option \<Rightarrow> nat list \<Rightarrow> bool" where
  "violates d trigger ref ids \<longleftrightarrow>
     has d trigger \<and> (case ref of None \<Rightarrow> False | Some i \<Rightarrow> i \<notin> set ids)"

definition st_insert_credentials :: "qstring \<Rightarrow> qstring \<Rightarrow> int \<Rightarrow> int \<Rightarrow> meta_data statement" where
  "st_insert_credentials cap user flags type d =
     (if \<not> has d T_CREDENTIALS then Fail
      else let n = md_cred_seq d + 1 in
        Done (d\<lparr>md_cred_seq := n, md_credentials := md_credentials d @
          [\<lparr>cr_id = n, cr_caption = cap, cr_username = user, cr_flags = flags, cr_type = type\<rparr>]\<rparr>))"

definition st_update_credentials ::
    "nat \<Rightarrow> qstring \<Rightarrow> qstring \<Rightarrow> int \<Rightarrow> int \<Rightarrow> meta_data statement" where
  "st_update_credentials n cap user flags type d =
     (if \<not> has d T_CREDENTIALS then Fail
      else Done (d\<lparr>md_credentials := map (\<lambda>r. if cr_id r = n
          then r\<lparr>cr_caption := cap, cr_username := user, cr_flags := flags, cr_type := type\<rparr>
          else r) (md_credentials d)\<rparr>))"

definition st_ignore_method :: "qstring \<Rightarrow> meta_data statement" where
  "st_ignore_method n d =
     (if \<not> has d T_METHODS then Fail
      else Done (d\<lparr>md_methods := nt_insert_or_ignore n (md_methods d)\<rparr>))"

definition st_insert_method :: "qstring \<Rightarrow> meta_data statement" where
  "st_insert_method n d =
     (if \<not> has d T_METHODS \<or> nt_taken (md_methods d) n then Fail
      else Done (d\<lparr>md_methods := nt_insert_or_ignore n (md_methods d)\<rparr>))"

definition st_ignore_mechanism :: "qstring \<Rightarrow> meta_data statement" where
  "st_ignore_mechanism n d =
     (if \<not> has d T_MECHANISMS then Fail
      else Done (d\<lparr>md_mechanisms := nt_insert_or_ignore n (md_mechanisms d)\<rparr>))"

definition st_ignore_token :: "qstring \<Rightarrow> meta_data statement" where
  "st_ignore_token n d =
     (if \<not> has d T_TOKENS then Fail
      else Done (d\<lparr>md_tokens := nt_insert_or_ignore n (md_tokens d)\<rparr>))"

text \<open>REALMS: the primary key contains the hostname, which is NULL, so that no two rows are
  in conflict and OR IGNORE ignores nothing.\<close>

definition st_insert_realm :: "nat \<Rightarrow> qstring \<Rightarrow> meta_data statement" where
  "st_insert_realm n realm d =
     (if \<not> has d T_REALMS then Fail
      else if violates d fki_REALMS_identity_id_CREDENTIALS_id (Some n) (cred_ids d)
      then RaiseRollback
      else Done (d\<lparr>md_realms := md_realms d @ [(n, realm)]\<rparr>))"

definition acl_violation :: "acl_row \<Rightarrow> meta_data \<Rightarrow> bool" where
  "acl_violation r d \<longleftrightarrow>
     violates d fki_ACL_identity_id_CREDENTIALS_id (Some (acl_identity r)) (cred_ids d)
   \<or> violates d fki_ACL_method_id_METHODS_id (acl_method r) (nt_ids (md_methods d))
   \<or> violates d fki_ACL_mechanism_id_MECHANISMS_id (acl_mechanism r) (nt_ids (md_mechanisms d))
   \<or> violates d fki_ACL_token_id_TOKENS_id (acl_token r) (nt_ids (md_tokens d))"

text \<open>The columns an INSERT into ACL leaves out are NULL, like a sub-select without a row.\<close>

definition acl_row_of ::
    "nat \<Rightarrow> qstring option \<Rightarrow> qstring option \<Rightarrow> qstring option \<Rightarrow> meta_data \<Rightarrow> acl_row" where
  "acl_row_of n method mech token d =
     \<lparr>acl_identity = n,
      acl_method = Option.bind method (nt_id (md_methods d)),
      acl_mechanism = Option.bind mech (nt_id (md_mechanisms d)),
      acl_token = Option.bind token (nt_id (md_tokens d))\<rparr>"

definition st_insert_acl ::
    "nat \<Rightarrow> qstring option \<Rightarrow> qstring option \<Rightarrow> qstring option \<Rightarrow> meta_data statement" where
  "st_insert_acl n method mech token d =
     (let r = acl_row_of n method mech token d in
      if \<not> has d T_ACL then Fail
      else if acl_violation r d then RaiseRollback
      else Done (d\<lparr>md_acl := md_acl d @ [r]\<rparr>))"

text \<open>OWNER has a trigger for the token only, none for the identity.\<close>

definition st_insert_owner :: "nat \<Rightarrow> qstring \<Rightarrow> meta_data statement" where
  "st_insert_owner n token d =
     (if \<not> has d T_OWNER then Fail
      else if violates d fki_OWNER_token_id_TOKENS_id (nt_id (md_tokens d) token)
                (nt_ids (md_tokens d)) then RaiseRollback
      else Done (d\<lparr>md_owner := md_owner d @ [(n, nt_id (md_tokens d) token)]\<rparr>))"

text \<open>INSERT OR REPLACE into REFS: a row without NULLs replaces the one with the same key.\<close>

definition st_insert_ref :: "nat \<Rightarrow> qstring \<Rightarrow> qstring \<Rightarrow> meta_data statement" where
  "st_insert_ref n token reference d =
     (let t = nt_id (md_tokens d) token; row = (n, t, reference) in
      if \<not> has d T_REFS then Fail
      else if violates d fki_REFS_identity_id_CREDENTIALS_id (Some n) (cred_ids d)
            \<or> violates d fki_REFS_token_id_TOKENS_id t (nt_ids (md_tokens d)) then RaiseRollback
      else Done (d\<lparr>md_refs :=
        (if t = None \<or> reference = QNull then md_refs d else removeAll row (md_refs d)) @ [row]\<rparr>))"

text \<open>INSERT INTO OWNER SELECT identity_id, token_id FROM ACL.\<close>

definition st_owner_from_acl :: "meta_data statement" where
  "st_owner_from_acl d =
     (if \<not> has d T_OWNER \<or> \<not> has d T_ACL then Fail
      else if list_ex (\<lambda>r. violates d fki_OWNER_token_id_TOKENS_id (acl_token r)
             (nt_ids (md_tokens d))) (md_acl d) then RaiseRollback
      else Done (d\<lparr>md_owner := md_owner d @ map (\<lambda>r. (acl_identity r, acl_token r)) (md_acl d)\<rparr>))"

text \<open>DELETE FROM CREDENTIALS, with the BEFORE DELETE triggers on the rows it deletes.\<close>

definition st_delete_credentials :: "(nat \<Rightarrow> bool) \<Rightarrow> meta_data statement" where
  "st_delete_credentials P d =
     (let gone = filter P (cred_ids d) in
      if \<not> has d T_CREDENTIALS then Fail
      else Done (d\<lparr>
        md_credentials := filter (\<lambda>r. \<not> P (cr_id r)) (md_credentials d),
        md_realms := (if has d fkdc_REALMS_identity_id_CREDENTIALS_id
          then filter (\<lambda>r. fst r \<notin> set gone) (md_realms d) else md_realms d),
        md_acl := (if has d fkdc_ACL_identity_id_CREDENTIALS_id
          then filter (\<lambda>r. acl_identity r \<notin> set gone) (md_acl d) else md_acl d),
        md_refs := (if has d fkdc_REFS_identity_id_CREDENTIALS_id
          then filter (\<lambda>r. fst r \<notin> set gone) (md_refs d) else md_refs d)\<rparr>))"

definition st_clear_methods :: "meta_data statement" where
  "st_clear_methods d =
     (let gone = Some ` set (nt_ids (md_methods d)) in
      if \<not> has d T_METHODS then Fail
      else Done (d\<lparr>md_methods := (md_methods d)\<lparr>nt_rows := []\<rparr>,
        md_acl := (if has d fkdc_ACL_method_id_METHODS_id
          then filter (\<lambda>r. acl_method r \<notin> gone) (md_acl d) else md_acl d)\<rparr>))"

definition st_clear_mechanisms :: "meta_data statement" where
  "st_clear_mechanisms d =
     (let gone = Some ` set (nt_ids (md_mechanisms d)) in
      if \<not> has d T_MECHANISMS then Fail
      else Done (d\<lparr>md_mechanisms := (md_mechanisms d)\<lparr>nt_rows := []\<rparr>,
        md_acl := (if has d fkdc_ACL_mechanism_id_MECHANISMS_id
          then filter (\<lambda>r. acl_mechanism r \<notin> gone) (md_acl d) else md_acl d)\<rparr>))"

definition st_clear_tokens :: "meta_data statement" where
  "st_clear_tokens d =
     (let gone = Some ` set (nt_ids (md_tokens d)) in
      if \<not> has d T_TOKENS then Fail
      else Done (d\<lparr>md_tokens := (md_tokens d)\<lparr>nt_rows := []\<rparr>,
        md_acl := (if has d fkdc_ACL_token_id_TOKENS_id
          then filter (\<lambda>r. acl_token r \<notin> gone) (md_acl d) else md_acl d),
        md_refs := (if has d fkdc_REFS_token_id_TOKENS_id
          then filter (\<lambda>r. fst (snd r) \<notin> gone) (md_refs d) else md_refs d),
        md_owner := (if has d fkdc_OWNER_token_id_TOKENS_id
          then filter (\<lambda>r. snd r \<notin> gone) (md_owner d) else md_owner d)\<rparr>))"

definition st_delete_realms :: "(nat \<Rightarrow> bool) \<Rightarrow> meta_data statement" where
  "st_delete_realms P d = (if \<not> has d T_REALMS then Fail
     else Done (d\<lparr>md_realms := filter (\<lambda>r. \<not> P (fst r)) (md_realms d)\<rparr>))"

definition st_delete_acl :: "(nat \<Rightarrow> bool) \<Rightarrow> meta_data statement" where
  "st_delete_acl P d = (if \<not> has d T_ACL then Fail
     else Done (d\<lparr>md_acl := filter (\<lambda>r. \<not> P (acl_identity r)) (md_acl d)\<rparr>))"

definition st_delete_owner :: "(nat \<Rightarrow> bool) \<Rightarrow> meta_data statement" where
  "st_delete_owner P d = (if \<not> has d T_OWNER then Fail
     else Done (d\<lparr>md_owner := filter (\<lambda>r. \<not> P (fst r)) (md_owner d)\<rparr>))"

definition st_delete_refs :: "nat \<Rightarrow> qstring \<Rightarrow> qstring option \<Rightarrow> meta_data statement" where
  "st_delete_refs n token reference d =
     (let t = nt_id (md_tokens d) token in
      if \<not> has d T_REFS then Fail
      else Done (d\<lparr>md_refs := filter (\<lambda>(i, t', r).
        \<not> (i = n \<and> t \<noteq> None \<and> t' = t \<and>
            (case reference of None \<Rightarrow> True | Some ref \<Rightarrow> ref \<noteq> QNull \<and> r = ref))) (md_refs d)\<rparr>))"

section \<open>Queries\<close>

definition sel_credentials :: "nat \<Rightarrow> meta_data \<Rightarrow> cred_row option" where
  "sel_credentials n d = List.find (\<lambda>r. cr_id r = n) (md_credentials d)"

definition sel_ids_ordered :: "meta_data \<Rightarrow> nat list" where
  "sel_ids_ordered d = sort (cred_ids d)"

definition sel_realms :: "nat \<Rightarrow> meta_data \<Rightarrow> qstring list" where
  "sel_realms n d = map snd (filter (\<lambda>r. fst r = n) (md_realms d))"

definition sel_acl_tokens :: "nat \<Rightarrow> meta_data \<Rightarrow> qstring list" where
  "sel_acl_tokens n d =
     map snd (filter (\<lambda>t. \<exists>r \<in> set (md_acl d). acl_identity r = n \<and> acl_token r = Some (fst t))
       (nt_rows (md_tokens d)))"

definition sel_owner_tokens :: "nat \<Rightarrow> meta_data \<Rightarrow> qstring list" where
  "sel_owner_tokens n d =
     map snd (filter (\<lambda>t. (n, Some (fst t)) \<in> set (md_owner d)) (nt_rows (md_tokens d)))"

definition sel_acl_methods :: "nat \<Rightarrow> meta_data \<Rightarrow> (nat \<times> qstring) list" where
  "sel_acl_methods n d =
     filter (\<lambda>m. \<exists>r \<in> set (md_acl d). acl_identity r = n \<and> acl_method r = Some (fst m))
       (nt_rows (md_methods d))"

definition sel_method_names :: "nat \<Rightarrow> meta_data \<Rightarrow> qstring list" where
  "sel_method_names n d = remdups (map snd (sel_acl_methods n d))"

definition sel_method_names_token :: "nat \<Rightarrow> qstring \<Rightarrow> meta_data \<Rightarrow> qstring list" where
  "sel_method_names_token n token d =
     remdups (map snd (filter (\<lambda>m. \<exists>r \<in> set (md_acl d). acl_identity r = n
         \<and> acl_method r = Some (fst m) \<and> acl_token r \<noteq> None
         \<and> acl_token r = nt_id (md_tokens d) token) (nt_rows (md_methods d))))"

definition sel_mechanisms :: "int \<Rightarrow> nat \<Rightarrow> meta_data \<Rightarrow> qstring list" where
  "sel_mechanisms m n d =
     remdups (map snd (filter (\<lambda>k. \<exists>r \<in> set (md_acl d). acl_identity r = n
         \<and> map_option int (acl_method r) = Some m \<and> acl_mechanism r = Some (fst k))
       (nt_rows (md_mechanisms d))))"

definition sel_method_id :: "qstring \<Rightarrow> meta_data \<Rightarrow> nat option" where
  "sel_method_id n d = nt_id (md_methods d) n"

definition sel_refs :: "nat \<Rightarrow> meta_data \<Rightarrow> qstring list" where
  "sel_refs n d = map (\<lambda>r. snd (snd r)) (filter (\<lambda>r. fst r = n) (md_refs d))"

definition sel_refs_token :: "nat \<Rightarrow> qstring \<Rightarrow> meta_data \<Rightarrow> qstring list" where
  "sel_refs_token n token d =
     map (\<lambda>r. snd (snd r)) (filter (\<lambda>r. fst r = n \<and> fst (snd r) \<noteq> None
       \<and> fst (snd r) = nt_id (md_tokens d) token) (md_refs d))"

end
