(* ===== verification/Meta_Integrity.thy ===== *)
theory Meta_Integrity
  imports Meta_Tables
begin

text \<open>
  The integrity of the metadata database: all tables and triggers are there, ids are unique
  and below their AUTOINCREMENT counters, names are unique, and no row refers to one that
  does not exist, except that OWNER may refer to an identity that does not. Every
  statement of \<open>Meta_Tables\<close> preserves it, whatever its arguments: the triggers do what
  foreign keys would.
\<close>

section \<open>The invariant\<close>

definition nt_ok :: "name_table \<Rightarrow> bool" where
  "nt_ok t \<longleftrightarrow> distinct (nt_ids t) \<and> (\<forall>i \<in> set (nt_ids t). 0 < i \<and> i \<le> nt_seq t)
     \<and> distinct (filter (\<lambda>n. n \<noteq> QNull) (map snd (nt_rows t)))"

definition refers :: "nat option \<Rightarrow> nat list \<Rightarrow> bool" where
  "refers ref ids \<longleftrightarrow> (\<forall>i. ref = Some i \<longrightarrow> i \<in> set ids)"

definition creds_ok :: "meta_data \<Rightarrow> bool" where
  "creds_ok d \<longleftrightarrow> distinct (cred_ids d) \<and> (\<forall>i \<in> set (cred_ids d). 0 < i \<and> i \<le> md_cred_seq d)"

definition acl_row_ok :: "meta_data \<Rightarrow> acl_row \<Rightarrow> bool" where
  "acl_row_ok d r \<longleftrightarrow> acl_identity r \<in> set (cred_ids d) \<and> refers (acl_method r) (nt_ids (md_methods d))
     \<and> refers (acl_mechanism r) (nt_ids (md_mechanisms d))
     \<and> refers (acl_token r) (nt_ids (md_tokens d))"

definition rows_ok :: "meta_data \<Rightarrow> bool" where
  "rows_ok d \<longleftrightarrow>
     (\<forall>r \<in> set (md_realms d). fst r \<in> set (cred_ids d))
   \<and> (\<forall>r \<in> set (md_acl d). acl_row_ok d r)
   \<and> (\<forall>r \<in> set (md_refs d). fst r \<in> set (cred_ids d) \<and> refers (fst (snd r)) (nt_ids (md_tokens d)))
   \<and> (\<forall>r \<in> set (md_owner d). refers (snd r) (nt_ids (md_tokens d)))"

definition schema_ok :: "meta_data \<Rightarrow> bool" where
  "schema_ok d \<longleftrightarrow> set createTableQuery \<subseteq> set (md_objects d)"

definition meta_ok :: "meta_data \<Rightarrow> bool" where
  "meta_ok d \<longleftrightarrow> schema_ok d \<and> creds_ok d \<and> nt_ok (md_methods d) \<and> nt_ok (md_mechanisms d)
     \<and> nt_ok (md_tokens d) \<and> rows_ok d"

section \<open>Objects of the schema\<close>

lemma has_update [simp]:
  "has (d\<lparr>md_version := v\<rparr>) = has d" "has (d\<lparr>md_cred_seq := n\<rparr>) = has d"
  "has (d\<lparr>md_credentials := cs\<rparr>) = has d" "has (d\<lparr>md_methods := t\<rparr>) = has d"
  "has (d\<lparr>md_mechanisms := t\<rparr>) = has d" "has (d\<lparr>md_tokens := t\<rparr>) = has d"
  "has (d\<lparr>md_realms := rs\<rparr>) = has d" "has (d\<lparr>md_acl := as\<rparr>) = has d"
  "has (d\<lparr>md_refs := fs\<rparr>) = has d" "has (d\<lparr>md_owner := os\<rparr>) = has d"
  by (simp_all add: has_def fun_eq_iff)

lemma schema_has: "schema_ok d \<Longrightarrow> obj \<in> set createTableQuery \<Longrightarrow> has d obj"
  by (auto simp: schema_ok_def has_def)

lemma schema_has_all:
  assumes "schema_ok d"
  shows "has d T_CREDENTIALS" "has d T_METHODS" "has d T_MECHANISMS" "has d T_TOKENS"
    "has d T_REALMS" "has d T_ACL" "has d T_REFS" "has d T_OWNER"
    "has d fki_REALMS_identity_id_CREDENTIALS_id" "has d fki_ACL_identity_id_CREDENTIALS_id"
    "has d fki_ACL_method_id_METHODS_id" "has d fki_ACL_mechanism_id_MECHANISMS_id"
    "has d fki_ACL_token_id_TOKENS_id" "has d fki_REFS_identity_id_CREDENTIALS_id"
    "has d fki_REFS_token_id_TOKENS_id" "has d fki_OWNER_token_id_TOKENS_id"
    "has d fkdc_REALMS_identity_id_CREDENTIALS_id" "has d fkdc_ACL_identity_id_CREDENTIALS_id"
    "has d fkdc_ACL_method_id_METHODS_id" "has d fkdc_ACL_mechanism_id_MECHANISMS_id"
    "has d fkdc_ACL_token_id_TOKENS_id" "has d fkdc_REFS_identity_id_CREDENTIALS_id"
    "has d fkdc_REFS_token_id_TOKENS_id" "has d fkdc_OWNER_token_id_TOKENS_id"
  using assms by (auto intro!: schema_has simp: schema_defs)

lemma meta_has_all:
  assumes "meta_ok d"
  shows "has d T_CREDENTIALS" "has d T_METHODS" "has d T_MECHANISMS" "has d T_TOKENS"
    "has d T_REALMS" "has d T_ACL" "has d T_REFS" "has d T_OWNER"
  using assms by (simp_all add: meta_ok_def schema_has_all)

lemma schema_ok_update [simp]:
  "schema_ok (d\<lparr>md_version := v\<rparr>) = schema_ok d" "schema_ok (d\<lparr>md_cred_seq := n\<rparr>) = schema_ok d"
  "schema_ok (d\<lparr>md_credentials := cs\<rparr>) = schema_ok d"
  "schema_ok (d\<lparr>md_methods := t\<rparr>) = schema_ok d" "schema_ok (d\<lparr>md_mechanisms := t\<rparr>) = schema_ok d"
  "schema_ok (d\<lparr>md_tokens := t\<rparr>) = schema_ok d" "schema_ok (d\<lparr>md_realms := rs\<rparr>) = schema_ok d"
  "schema_ok (d\<lparr>md_acl := as\<rparr>) = schema_ok d" "schema_ok (d\<lparr>md_refs := fs\<rparr>) = schema_ok d"
  "schema_ok (d\<lparr>md_owner := os\<rparr>) = schema_ok d"
  by (simp_all add: schema_ok_def)

lemma cred_ids_update [simp]:
  "cred_ids (d\<lparr>md_objects := x\<rparr>) = cred_ids d"
  "cred_ids (d\<lparr>md_version := v\<rparr>) = cred_ids d" "cred_ids (d\<lparr>md_cred_seq := n\<rparr>) = cred_ids d"
  "cred_ids (d\<lparr>md_credentials := cs\<rparr>) = map cr_id cs"
  "cred_ids (d\<lparr>md_methods := t\<rparr>) = cred_ids d" "cred_ids (d\<lparr>md_mechanisms := t\<rparr>) = cred_ids d"
  "cred_ids (d\<lparr>md_tokens := t\<rparr>) = cred_ids d" "cred_ids (d\<lparr>md_realms := rs\<rparr>) = cred_ids d"
  "cred_ids (d\<lparr>md_acl := as\<rparr>) = cred_ids d" "cred_ids (d\<lparr>md_refs := fs\<rparr>) = cred_ids d"
  "cred_ids (d\<lparr>md_owner := os\<rparr>) = cred_ids d"
  by (simp_all add: cred_ids_def)

section \<open>Name tables\<close>

lemma refers_simps [simp]: "refers None ids" "refers (Some i) ids \<longleftrightarrow> i \<in> set ids"
  by (simp_all add: refers_def)

lemma refers_mono: "refers r ids \<Longrightarrow> set ids \<subseteq> set ids' \<Longrightarrow> refers r ids'"
  by (auto simp: refers_def)

lemma nt_id_Some: "nt_id t n = Some i \<Longrightarrow> n \<noteq> QNull \<and> (i, n) \<in> set (nt_rows t)"
  by (auto simp: nt_id_def find_Some_iff split: if_splits) (metis nth_mem snd_conv)

lemma nt_id_None: "nt_id t n = None \<longleftrightarrow> n = QNull \<or> n \<notin> snd ` set (nt_rows t)"
  by (auto simp: nt_id_def find_None_iff image_iff)

lemma nt_id_in_ids: "nt_id t n = Some i \<Longrightarrow> i \<in> set (nt_ids t)"
  by (force simp: nt_ids_def dest: nt_id_Some)

lemma refers_nt_id [simp]: "refers (nt_id t n) (nt_ids t)"
  by (auto simp: refers_def nt_id_in_ids)

lemma refers_bind_nt_id [simp]: "refers (Option.bind m (nt_id t)) (nt_ids t)"
  by (cases m) simp_all

lemma distinct_filter_map_unique:
  "distinct (filter P (map f xs)) \<Longrightarrow> x \<in> set xs \<Longrightarrow> y \<in> set xs \<Longrightarrow> f x = f y \<Longrightarrow> P (f x) \<Longrightarrow> x = y"
  by (induction xs) (auto split: if_splits simp: image_iff)

lemma nt_id_iff:
  assumes "nt_ok t"
  shows "nt_id t n = Some i \<longleftrightarrow> n \<noteq> QNull \<and> (i, n) \<in> set (nt_rows t)"
proof
  assume r: "n \<noteq> QNull \<and> (i, n) \<in> set (nt_rows t)"
  then obtain j where j: "nt_id t n = Some j"
    by (cases "nt_id t n") (force simp: nt_id_None)+
  with nt_id_Some have "(j, n) \<in> set (nt_rows t)" by blast
  with assms r have "(i, n) = (j, n)"
    by (intro distinct_filter_map_unique [of "\<lambda>n. n \<noteq> QNull" snd "nt_rows t"]) (auto simp: nt_ok_def)
  with j show "nt_id t n = Some i" by simp
qed (rule nt_id_Some)

lemma nt_ids_insert [simp]: "i \<in> set (nt_ids t) \<Longrightarrow> i \<in> set (nt_ids (nt_insert_or_ignore n t))"
  by (auto simp: nt_insert_or_ignore_def nt_ids_def)

lemma nt_rows_insert: "set (nt_rows t) \<subseteq> set (nt_rows (nt_insert_or_ignore n t))"
  by (auto simp: nt_insert_or_ignore_def)

lemma nt_ok_insert [simp]: "nt_ok t \<Longrightarrow> nt_ok (nt_insert_or_ignore n t)"
  by (fastforce simp: nt_ok_def nt_insert_or_ignore_def nt_ids_def nt_taken_def)

lemma nt_ok_clear [simp]: "nt_ok (t\<lparr>nt_rows := []\<rparr>)"
  by (simp add: nt_ok_def nt_ids_def)

lemma nt_id_insert [simp]: "nt_ok t \<Longrightarrow> nt_id t n = Some i \<Longrightarrow> nt_id (nt_insert_or_ignore m t) n = Some i"
  using nt_rows_insert [of t m] by (auto simp: nt_id_iff)

lemma nt_insert_present: "n \<noteq> QNull \<Longrightarrow> n \<in> snd ` set (nt_rows (nt_insert_or_ignore n t))"
  by (auto simp: nt_insert_or_ignore_def nt_taken_def)

section \<open>Preservation by the statements\<close>

lemmas st_defs = st_set_version_def st_insert_credentials_def st_update_credentials_def
  st_ignore_method_def st_insert_method_def st_ignore_mechanism_def st_ignore_token_def
  st_insert_realm_def st_insert_acl_def st_insert_owner_def st_insert_ref_def
  st_owner_from_acl_def st_delete_credentials_def st_clear_methods_def st_clear_mechanisms_def
  st_clear_tokens_def st_delete_realms_def st_delete_acl_def st_delete_owner_def
  st_delete_refs_def

lemma not_violates:
  "\<not> violates d obj ref ids \<Longrightarrow> has d obj \<Longrightarrow> refers ref ids"
  by (auto simp: violates_def refers_def split: option.splits)

lemma acl_row_ok_mono:
  "acl_row_ok d r \<Longrightarrow> set (cred_ids d) \<subseteq> set (cred_ids d') \<Longrightarrow>
   set (nt_ids (md_methods d)) \<subseteq> set (nt_ids (md_methods d')) \<Longrightarrow>
   set (nt_ids (md_mechanisms d)) \<subseteq> set (nt_ids (md_mechanisms d')) \<Longrightarrow>
   set (nt_ids (md_tokens d)) \<subseteq> set (nt_ids (md_tokens d')) \<Longrightarrow> acl_row_ok d' r"
  by (auto simp: acl_row_ok_def intro: refers_mono)

lemma rows_ok_mono:
  "rows_ok d \<Longrightarrow> set (cred_ids d) \<subseteq> set (cred_ids d') \<Longrightarrow>
   set (nt_ids (md_methods d)) \<subseteq> set (nt_ids (md_methods d')) \<Longrightarrow>
   set (nt_ids (md_mechanisms d)) \<subseteq> set (nt_ids (md_mechanisms d')) \<Longrightarrow>
   set (nt_ids (md_tokens d)) \<subseteq> set (nt_ids (md_tokens d')) \<Longrightarrow>
   set (md_realms d') \<subseteq> set (md_realms d) \<Longrightarrow> set (md_acl d') \<subseteq> set (md_acl d) \<Longrightarrow>
   set (md_refs d') \<subseteq> set (md_refs d) \<Longrightarrow> set (md_owner d') \<subseteq> set (md_owner d) \<Longrightarrow> rows_ok d'"
  unfolding rows_ok_def by (blast intro: acl_row_ok_mono refers_mono)

lemma acl_row_ok_update [simp]:
  "acl_row_ok (d\<lparr>md_version := v\<rparr>) = acl_row_ok d" "acl_row_ok (d\<lparr>md_cred_seq := n\<rparr>) = acl_row_ok d"
  "acl_row_ok (d\<lparr>md_realms := rs\<rparr>) = acl_row_ok d" "acl_row_ok (d\<lparr>md_acl := as\<rparr>) = acl_row_ok d"
  "acl_row_ok (d\<lparr>md_refs := fs\<rparr>) = acl_row_ok d" "acl_row_ok (d\<lparr>md_owner := os\<rparr>) = acl_row_ok d"
  by (simp_all add: fun_eq_iff acl_row_ok_def)

lemma rows_ok_add [intro]:
  "rows_ok d \<Longrightarrow> n \<in> set (cred_ids d) \<Longrightarrow> rows_ok (d\<lparr>md_realms := md_realms d @ [(n, r)]\<rparr>)"
  "rows_ok d \<Longrightarrow> acl_row_ok d a \<Longrightarrow> rows_ok (d\<lparr>md_acl := md_acl d @ [a]\<rparr>)"
  "rows_ok d \<Longrightarrow> refers t (nt_ids (md_tokens d)) \<Longrightarrow> rows_ok (d\<lparr>md_owner := md_owner d @ [(n, t)]\<rparr>)"
  by (simp_all add: rows_ok_def ball_Un)

lemma rows_ok_refs:
  "rows_ok d \<Longrightarrow> n \<in> set (cred_ids d) \<Longrightarrow> refers t (nt_ids (md_tokens d)) \<Longrightarrow>
   set fs \<subseteq> insert (n, t, r) (set (md_refs d)) \<Longrightarrow> rows_ok (d\<lparr>md_refs := fs\<rparr>)"
  by (fastforce simp: rows_ok_def)

lemma rows_ok_owner_from_acl:
  "rows_ok d \<Longrightarrow>
     rows_ok (d\<lparr>md_owner := md_owner d @ map (\<lambda>r. (acl_identity r, acl_token r)) (md_acl d)\<rparr>)"
  by (simp add: rows_ok_def ball_Un acl_row_ok_def)

lemma creds_ok_update [simp]:
  "creds_ok (d\<lparr>md_version := v\<rparr>) = creds_ok d"
  "creds_ok (d\<lparr>md_methods := t\<rparr>) = creds_ok d" "creds_ok (d\<lparr>md_mechanisms := t\<rparr>) = creds_ok d"
  "creds_ok (d\<lparr>md_tokens := t\<rparr>) = creds_ok d" "creds_ok (d\<lparr>md_realms := rs\<rparr>) = creds_ok d"
  "creds_ok (d\<lparr>md_acl := as\<rparr>) = creds_ok d" "creds_ok (d\<lparr>md_refs := fs\<rparr>) = creds_ok d"
  "creds_ok (d\<lparr>md_owner := os\<rparr>) = creds_ok d"
  by (simp_all add: creds_ok_def)

lemma pres_version [inv_intros]: "preserves meta_ok (st_set_version v)"
  by (rule preservesI) (auto simp: meta_ok_def st_defs elim: rows_ok_mono)

lemma pres_insert_credentials [inv_intros]: "preserves meta_ok (st_insert_credentials c u f t)"
proof (rule preservesI)
  fix d d' assume ok: "meta_ok d" and st: "st_insert_credentials c u f t d = Done d'"
  let ?n = "md_cred_seq d + 1"
  from st have ids: "cred_ids d' = cred_ids d @ [?n]" "md_cred_seq d' = ?n"
    by (auto simp: st_defs Let_def cred_ids_def split: if_splits)
  with ok have "creds_ok d'"
    by (fastforce simp: meta_ok_def creds_ok_def)
  moreover have "schema_ok d' \<and> md_methods d' = md_methods d \<and> md_mechanisms d' = md_mechanisms d
      \<and> md_tokens d' = md_tokens d"
    using ok st by (auto simp: meta_ok_def st_defs Let_def split: if_splits)
  moreover have "rows_ok d'"
    using ok st ids by (auto simp: meta_ok_def st_defs Let_def split: if_splits elim!: rows_ok_mono)
  ultimately show "meta_ok d'" using ok by (simp add: meta_ok_def)
qed

lemma pres_update_credentials [inv_intros]: "preserves meta_ok (st_update_credentials n c u f t)"
proof (rule preservesI)
  fix d d' assume ok: "meta_ok d" and st: "st_update_credentials n c u f t d = Done d'"
  have ids: "cred_ids d' = cred_ids d"
    using st by (auto simp: st_defs cred_ids_def split: if_splits)
  moreover from ids have "rows_ok d'"
    using ok st by (auto simp: meta_ok_def st_defs split: if_splits elim!: rows_ok_mono)
  ultimately show "meta_ok d'"
    using ok st by (auto simp: meta_ok_def creds_ok_def st_defs split: if_splits)
qed

lemma pres_names [inv_intros]:
  "preserves meta_ok (st_ignore_method n)" "preserves meta_ok (st_insert_method n)"
  "preserves meta_ok (st_ignore_mechanism n)" "preserves meta_ok (st_ignore_token n)"
  by (auto intro!: preservesI simp: meta_ok_def st_defs elim!: rows_ok_mono split: if_splits)

lemma pres_insert_realm [inv_intros]: "preserves meta_ok (st_insert_realm n r)"
proof (rule preservesI)
  fix d d' assume ok: "meta_ok d" and st: "st_insert_realm n r d = Done d'"
  from ok have "has d fki_REALMS_identity_id_CREDENTIALS_id"
    by (simp add: meta_ok_def schema_has_all)
  with st have "n \<in> set (cred_ids d)" and "d' = d\<lparr>md_realms := md_realms d @ [(n, r)]\<rparr>"
    by (auto simp: st_defs dest: not_violates split: if_splits)
  with ok show "meta_ok d'" by (auto simp: meta_ok_def)
qed

lemma insert_acl_row_ok:
  assumes "schema_ok d" and "\<not> acl_violation (acl_row_of n m k t d) d"
  shows "acl_row_ok d (acl_row_of n m k t d)"
proof -
  have "has d fki_ACL_identity_id_CREDENTIALS_id"
    using assms(1) by (rule schema_has_all)
  with assms(2) not_violates [of d _ "Some n" "cred_ids d"] show ?thesis
    by (auto simp: acl_violation_def acl_row_ok_def acl_row_of_def)
qed

lemma pres_insert_acl [inv_intros]: "preserves meta_ok (st_insert_acl n m k t)"
  by (rule preservesI)
     (auto simp: meta_ok_def st_insert_acl_def Let_def insert_acl_row_ok split: if_splits)

lemma pres_insert_owner [inv_intros]: "preserves meta_ok (st_insert_owner n t)"
  by (rule preservesI) (auto simp: meta_ok_def st_defs split: if_splits)

lemma pres_insert_ref [inv_intros]: "preserves meta_ok (st_insert_ref n t r)"
proof (rule preservesI)
  fix d d' assume ok: "meta_ok d" and st: "st_insert_ref n t r d = Done d'"
  from ok have h: "has d fki_REFS_identity_id_CREDENTIALS_id"
    by (simp add: meta_ok_def schema_has_all)
  from st have n: "n \<in> set (cred_ids d)"
    using not_violates [OF _ h, of "Some n" "cred_ids d"]
    by (auto simp: st_defs Let_def split: if_splits)
  obtain fs where "d' = d\<lparr>md_refs := fs\<rparr>"
      and "set fs \<subseteq> insert (n, nt_id (md_tokens d) t, r) (set (md_refs d))"
    using st by (auto simp: st_defs Let_def split: if_splits)
  with ok n show "meta_ok d'"
    using rows_ok_refs [of d n "nt_id (md_tokens d) t" fs r] by (simp add: meta_ok_def)
qed

lemma pres_owner_from_acl [inv_intros]: "preserves meta_ok st_owner_from_acl"
  by (rule preservesI)
     (auto simp: meta_ok_def st_defs rows_ok_owner_from_acl split: if_splits)

lemma pres_delete_credentials [inv_intros]: "preserves meta_ok (st_delete_credentials P)"
proof (rule preservesI)
  fix d d' assume ok: "meta_ok d" and st: "st_delete_credentials P d = Done d'"
  from ok have s: "schema_ok d" by (simp add: meta_ok_def)
  note h = schema_has_all [OF s]
  have ids: "cred_ids d' = filter (\<lambda>i. \<not> P i) (cred_ids d)"
    using st by (auto simp: st_defs Let_def cred_ids_def filter_map o_def split: if_splits)
  have fs: "md_realms d' = filter (\<lambda>r. fst r \<notin> set (filter P (cred_ids d))) (md_realms d)"
      "md_acl d' = filter (\<lambda>r. acl_identity r \<notin> set (filter P (cred_ids d))) (md_acl d)"
      "md_refs d' = filter (\<lambda>r. fst r \<notin> set (filter P (cred_ids d))) (md_refs d)"
      "md_owner d' = md_owner d" "md_methods d' = md_methods d" "md_mechanisms d' = md_mechanisms d"
      "md_tokens d' = md_tokens d" "md_cred_seq d' = md_cred_seq d" "schema_ok d'"
    using st s h by (auto simp: st_defs Let_def)
  from ok show "meta_ok d'"
    by (auto simp: meta_ok_def creds_ok_def rows_ok_def acl_row_ok_def ids fs)
qed

lemma pres_clears [inv_intros]:
  "preserves meta_ok st_clear_methods" "preserves meta_ok st_clear_mechanisms"
  "preserves meta_ok st_clear_tokens"
  by (rule preservesI,
      force simp: meta_ok_def rows_ok_def acl_row_ok_def st_defs Let_def
        schema_has_all refers_def split: if_splits)+

lemma pres_deletes [inv_intros]:
  "preserves meta_ok (st_delete_realms P)" "preserves meta_ok (st_delete_acl P)"
  "preserves meta_ok (st_delete_owner P)"
  by (auto intro!: preservesI simp: meta_ok_def st_defs elim!: rows_ok_mono split: if_splits)

lemma pres_delete_refs [inv_intros]: "preserves meta_ok (st_delete_refs n t r)"
  by (rule preservesI)
     (auto simp: meta_ok_def st_defs Let_def elim!: rows_ok_mono split: if_splits)

lemmas statements_preserve = pres_version pres_insert_credentials pres_update_credentials pres_names
  pres_insert_realm pres_insert_acl pres_insert_owner pres_insert_ref pres_owner_from_acl
  pres_delete_credentials pres_clears pres_deletes pres_delete_refs

end
