(* ===== verification/Meta_Db.thy ===== *)
theory Meta_Db
  imports Meta_Integrity
begin

text \<open>
  \<open>MetaDataDB\<close> (src/signond/credentialsdb.cpp): its methods as sequences of statements and
  queries, with the early returns of the code and with every error the code does not look at
  left unlooked at. The integrity of \<open>Meta_Integrity\<close> is kept by all of them under any outcomes of
  the driver calls.
\<close>

type_synonym meta_db = "meta_data sqldb"

section \<open>Creating and upgrading the database\<close>

definition META_VERSION :: int where
  "META_VERSION = 2"

fun create_loop :: "meta_obj list \<Rightarrow> meta_db \<Rightarrow> bool \<times> meta_db" where
  "create_loop [] db = (True, db)"
| "create_loop (obj # objs) db =
     (let db = sql_exec (st_create obj) db in
      if errorOccurred db then (False, db)
      else let (_, db) = sql_commit db in create_loop objs db)"

definition meta_createTables :: "meta_db \<Rightarrow> bool \<times> meta_db" where
  "meta_createTables db = create_loop createTableQuery db"

text \<open>Closing the database, removing its file and naming it again.\<close>

definition remove_file :: "meta_db \<Rightarrow> meta_db" where
  "remove_file db = db\<lparr>sq_data := empty_meta, sq_saved := None\<rparr>"

definition meta_updateDB :: "int \<Rightarrow> meta_db \<Rightarrow> bool \<times> meta_db" where
  "meta_updateDB version db =
     (if version = META_VERSION then (True, db)
      else
        let (ok, db) =
          (if version < 1 then
             let (connected, db) = sql_connect (remove_file db) in
             if \<not> connected then (False, db) else meta_createTables db
           else (True, db))
        in if \<not> ok then (False, db)
        else if version = 1 then
          let (inserted, db) = create_loop tableUpdates2 db in
          if \<not> inserted then (False, db)
          else
            let db = sql_exec st_owner_from_acl db;
                (done, db) = sql_commit db;
                db = (if done then db else sql_rollback db)
            in base_updateDB st_set_version META_VERSION db
        else (False, db))"

definition meta_hasTables :: "meta_data \<Rightarrow> bool" where
  "meta_hasTables d \<longleftrightarrow> md_objects d \<noteq> []"

definition meta_init :: "meta_db \<Rightarrow> bool \<times> meta_db" where
  "meta_init db = sql_init meta_hasTables meta_createTables meta_updateDB md_version
     st_set_version META_VERSION db"

section \<open>Reading\<close>

definition meta_methods :: "nat \<Rightarrow> qstring \<Rightarrow> meta_db \<Rightarrow> qstring list \<times> meta_db" where
  "meta_methods n securityToken db =
     (if qisEmpty securityToken then queryList (sel_method_names n) db
      else queryList (sel_method_names_token n securityToken) db)"

definition methodId :: "qstring \<Rightarrow> meta_db \<Rightarrow> nat \<times> meta_db" where
  "methodId method db =
     (case sql_query (sel_method_id method) db of
        (Some (Some n), db) \<Rightarrow> (to_uint (int n), db)
      | (_, db) \<Rightarrow> (0, db))"

definition FLAG_Validated :: int where "FLAG_Validated = 1"
definition FLAG_RememberPassword :: int where "FLAG_RememberPassword = 2"
definition FLAG_UserNameIsSecret :: int where "FLAG_UserNameIsSecret = 4"

fun identity_methods :: "nat \<Rightarrow> (nat \<times> qstring) list \<Rightarrow> method_map \<Rightarrow> meta_db \<Rightarrow> method_map \<times> meta_db"
  where
  "identity_methods n [] methods db = (methods, db)"
| "identity_methods n ((m, name) # rows) methods db =
     (let (mechanisms, db) = queryList (sel_mechanisms (to_int (int m)) n) db
      in identity_methods n rows (qm_insert (chars name) mechanisms methods) db)"

definition meta_identity :: "nat \<Rightarrow> meta_db \<Rightarrow> identity_info \<times> meta_db" where
  "meta_identity n db =
     (case sql_query (sel_credentials n) db of
        (Some (Some row), db) \<Rightarrow>
          let flags = cr_flags row;
              savePassword = (flags AND FLAG_RememberPassword \<noteq> 0);
              valid = (flags AND FLAG_Validated \<noteq> 0);
              userNameSecret = (flags AND FLAG_UserNameIsSecret \<noteq> 0);
              username = (if userNameSecret then QNull else cr_username row);
              (realms, db) = queryList (sel_realms n) db;
              (ownerTokens, db) = queryList (sel_owner_tokens n) db;
              (securityTokens, db) = queryList (sel_acl_tokens n) db;
              (rows, db) = queryList (sel_acl_methods n) db;
              (methods, db) = identity_methods n rows [] db;
              info = setId n [];
              info = (if userNameSecret then info else setUserName username info);
              info = setStorePassword savePassword info;
              info = setCaption (cr_caption row) info;
              info = setMethods methods info;
              info = setRealms realms info;
              info = setAccessControlList securityTokens info;
              info = setOwnerList ownerTokens info;
              info = setType (cr_type row) info;
              info = setRefCount 0 info;
              info = setValidated valid info;
              info = setUserNameSecret userNameSecret info
          in (info, db)
      | (_, db) \<Rightarrow> ([], db))"

fun identities_loop :: "nat list \<Rightarrow> meta_db \<Rightarrow> identity_info list \<times> meta_db" where
  "identities_loop [] db = ([], db)"
| "identities_loop (n # ns) db =
     (let (info, db) = meta_identity (to_uint (int n)) db in
      if errorOccurred db then ([], db)
      else let (infos, db) = identities_loop ns db in (info # infos, db))"

definition meta_identities :: "meta_db \<Rightarrow> identity_info list \<times> meta_db" where
  "meta_identities db =
     (case sql_query sel_ids_ordered db of
        (None, db) \<Rightarrow> ([], db)
      | (Some ns, db) \<Rightarrow> identities_loop ns db)"

definition meta_accessControlList :: "nat \<Rightarrow> meta_db \<Rightarrow> qstring list \<times> meta_db" where
  "meta_accessControlList n db = queryList (sel_acl_tokens n) db"

definition meta_ownerList :: "nat \<Rightarrow> meta_db \<Rightarrow> qstring list \<times> meta_db" where
  "meta_ownerList n db = queryList (sel_owner_tokens n) db"

definition meta_references :: "nat \<Rightarrow> qstring \<Rightarrow> meta_db \<Rightarrow> qstring list \<times> meta_db" where
  "meta_references n token db =
     (if qisEmpty token then queryList (sel_refs n) db else queryList (sel_refs_token n token) db)"

section \<open>Writing\<close>

text \<open>A \<open>foreach\<close> loop over \<open>exec\<close> that does not look at errors.\<close>

definition exec_all :: "'d statement list \<Rightarrow> 'd sqldb \<Rightarrow> 'd sqldb" where
  "exec_all sts db = fold sql_exec sts db"

definition insertMethods_stmts :: "method_map \<Rightarrow> meta_data statement list" where
  "insertMethods_stmts methods =
     concat (map (\<lambda>(m, mechs). st_ignore_method (QStr m) # map st_ignore_mechanism mechs) methods)"

definition insertMethods :: "method_map \<Rightarrow> meta_db \<Rightarrow> meta_db" where
  "insertMethods methods db = exec_all (insertMethods_stmts methods) db"

definition insertMethod :: "qstring \<Rightarrow> meta_db \<Rightarrow> nat \<times> bool \<times> meta_db" where
  "insertMethod method db =
     (let db = sql_exec (st_insert_method method) db in
      if errorOccurred db then (0, False, db)
      else (to_uint (int (nt_seq (md_methods (sq_data db)))), True, db))"

definition info_flags :: "identity_info \<Rightarrow> int" where
  "info_flags info =
     (let flags = 0;
          flags = (if validated info then flags OR FLAG_Validated else flags);
          flags = (if storePassword info then flags OR FLAG_RememberPassword else flags)
      in if isUserNameSecret info then flags OR FLAG_UserNameIsSecret else flags)"

definition credentials_stmt :: "identity_info \<Rightarrow> meta_data statement" where
  "credentials_stmt info =
     (let username = (if isUserNameSecret info then QNull else userName info) in
      if \<not> isNew info
      then st_update_credentials (info_id info) (caption info) username (info_flags info)
             (info_type info)
      else st_insert_credentials (caption info) username (info_flags info) (info_type info))"

definition meta_updateCredentials :: "identity_info \<Rightarrow> meta_db \<Rightarrow> nat \<times> meta_db" where
  "meta_updateCredentials info db =
     (let db = sql_exec (credentials_stmt info) db in
      if errorOccurred db then (0, db)
      else if isNew info then (to_uint (int (md_cred_seq (sq_data db))), db)
      else (info_id info, db))"

definition updateRealms :: "nat \<Rightarrow> qstring list \<Rightarrow> bool \<Rightarrow> meta_db \<Rightarrow> bool \<times> meta_db" where
  "updateRealms n rs new db =
     (let db = (if new then db else sql_exec (st_delete_realms (\<lambda>i. i = n)) db)
      in exec_while_ok (map (st_insert_realm n) rs) db)"

definition token_inserts :: "identity_info \<Rightarrow> meta_data statement list" where
  "token_inserts info =
     map st_ignore_token (info_acl info)
     @ map st_ignore_token (filter (\<lambda>t. \<not> qisEmpty t) (info_owners info))"

text \<open>
  The rows of the ACL, as method, mechanism and token: every method with every token and
  every mechanism; a method without mechanisms has one row for each token; without tokens
  there is one for each mechanism; tokens without any method stand alone.
\<close>

definition acl_entries ::
    "method_map \<Rightarrow> qstring list \<Rightarrow> (qstring option \<times> qstring option \<times> qstring option) list" where
  "acl_entries methods acl =
     concat (map (\<lambda>(m, mechs).
        if acl \<noteq> [] then
          concat (map (\<lambda>token.
            map (\<lambda>mech. (Some (QStr m), Some mech, Some token)) mechs
            @ (if mechs = [] then [(Some (QStr m), None, Some token)] else [])) acl)
        else
          map (\<lambda>mech. (Some (QStr m), Some mech, None)) mechs
          @ (if mechs = [] then [(Some (QStr m), None, None)] else [])) methods)
     @ (if methods = [] then map (\<lambda>token. (None, None, Some token)) acl else [])"

definition acl_inserts :: "nat \<Rightarrow> identity_info \<Rightarrow> meta_data statement list" where
  "acl_inserts n info =
     map (\<lambda>(m, k, t). st_insert_acl n m k t) (acl_entries (info_methods info) (info_acl info))"

definition owner_inserts :: "nat \<Rightarrow> identity_info \<Rightarrow> meta_data statement list" where
  "owner_inserts n info = map (st_insert_owner n) (filter (\<lambda>t. \<not> qisEmpty t) (info_owners info))"

definition acl_owner_deletes :: "identity_info \<Rightarrow> meta_data statement list" where
  "acl_owner_deletes info =
     (if isNew info then []
      else [st_delete_acl (\<lambda>i. i = info_id info), st_delete_owner (\<lambda>i. i = info_id info)])"

definition meta_updateIdentity :: "identity_info \<Rightarrow> meta_db \<Rightarrow> nat \<times> meta_db" where
  "meta_updateIdentity info db =
     (let (started, db) = startTransaction db in
      if \<not> started then (0, db)
      else let (n, db) = meta_updateCredentials info db in
        if n = 0 then (0, sql_rollback db)
        else let db = insertMethods (info_methods info) db;
                 (ok, db) = updateRealms n (realms info) (isNew info) db in
          if \<not> ok then (0, sql_rollback db)
          else
            let db = exec_all (token_inserts info) db;
                db = exec_all (acl_owner_deletes info) db;
                db = exec_all (acl_inserts n info) db;
                db = exec_all (owner_inserts n info) db;
                (done, db) = sql_commit db
            in if done then (n, db) else (0, sql_rollback db))"

definition removeIdentity_stmts :: "nat \<Rightarrow> meta_data statement list" where
  "removeIdentity_stmts n =
     [st_delete_credentials (\<lambda>i. i = n), st_delete_acl (\<lambda>i. i = n), st_delete_realms (\<lambda>i. i = n),
      st_delete_owner (\<lambda>i. i = n)]"

definition meta_removeIdentity :: "nat \<Rightarrow> meta_db \<Rightarrow> bool \<times> meta_db" where
  "meta_removeIdentity n db = transactionalExec (removeIdentity_stmts n) db"

definition clear_stmts :: "meta_data statement list" where
  "clear_stmts =
     [st_delete_credentials (\<lambda>_. True), st_clear_methods, st_clear_mechanisms,
      st_delete_acl (\<lambda>_. True), st_delete_realms (\<lambda>_. True), st_clear_tokens,
      st_delete_owner (\<lambda>_. True)]"

definition meta_clear :: "meta_db \<Rightarrow> bool \<times> meta_db" where
  "meta_clear db = transactionalExec clear_stmts db"

definition meta_addReference :: "nat \<Rightarrow> qstring \<Rightarrow> qstring \<Rightarrow> meta_db \<Rightarrow> bool \<times> meta_db" where
  "meta_addReference n token reference db =
     (let (started, db) = startTransaction db in
      if \<not> started then (False, db)
      else
        let db = sql_exec (st_ignore_token token) db; ok1 = (\<not> errorOccurred db);
            db = sql_exec (st_insert_ref n token reference) db; ok2 = (\<not> errorOccurred db) in
        if ok1 \<and> ok2
        then let (done, db) = sql_commit db in
          if done then (True, db) else (False, sql_rollback db)
        else (False, sql_rollback db))"

definition meta_removeReference :: "nat \<Rightarrow> qstring \<Rightarrow> qstring \<Rightarrow> meta_db \<Rightarrow> bool \<times> meta_db" where
  "meta_removeReference n token reference db =
     (let (refs, db) = meta_references n token db in
      if refs = [] then (False, db)
      else if \<not> qisNull reference \<and> \<not> qcontains refs reference then (False, db)
      else let (started, db) = startTransaction db in
        if \<not> started then (False, db)
        else
          let db = sql_exec (st_delete_refs n token
                     (if qisEmpty reference then None else Some reference)) db in
          if errorOccurred db then (False, sql_rollback db)
          else let (done, db) = sql_commit db in
            if done then (True, db) else (False, sql_rollback db))"

section \<open>Integrity is kept\<close>

lemma db_inv_exec_all:
  "db_inv P db \<Longrightarrow> list_all (preserves P) sts \<Longrightarrow> db_inv P (exec_all sts db)"
  unfolding exec_all_def by (induction sts arbitrary: db) (auto intro: db_inv_exec)

lemma all_preserve:
  "list_all (preserves meta_ok) (insertMethods_stmts ms)"
  "list_all (preserves meta_ok) (token_inserts info)"
  "list_all (preserves meta_ok) (acl_inserts n info)"
  "list_all (preserves meta_ok) (owner_inserts n info)"
  "list_all (preserves meta_ok) (acl_owner_deletes info)"
  "list_all (preserves meta_ok) (removeIdentity_stmts n)"
  "list_all (preserves meta_ok) clear_stmts"
  "list_all (preserves meta_ok) (map (st_insert_realm n) rs)"
  by (auto simp: insertMethods_stmts_def token_inserts_def acl_inserts_def owner_inserts_def
      acl_owner_deletes_def removeIdentity_stmts_def clear_stmts_def list_all_iff
      intro: statements_preserve)

lemma credentials_stmt_preserves: "preserves meta_ok (credentials_stmt info)"
  by (simp add: credentials_stmt_def Let_def statements_preserve)

lemma inv_updateCredentials:
  "db_inv meta_ok db \<Longrightarrow> db_inv meta_ok (snd (meta_updateCredentials info db))"
  by (simp add: meta_updateCredentials_def Let_def db_inv_exec credentials_stmt_preserves)

lemma inv_updateRealms: "db_inv meta_ok db \<Longrightarrow> db_inv meta_ok (snd (updateRealms n rs new db))"
  by (auto simp: updateRealms_def Let_def all_preserve
      intro!: db_inv_exec_while_ok db_inv_exec statements_preserve)

lemma inv_updateIdentity:
  assumes "db_inv meta_ok db"
  shows "db_inv meta_ok (snd (meta_updateIdentity info db))"
proof -
  obtain b db1 where 1: "startTransaction db = (b, db1)" by force
  obtain n db2 where 2: "meta_updateCredentials info db1 = (n, db2)" by force
  define db3 where "db3 = insertMethods (info_methods info) db2"
  obtain ok db4 where 4: "updateRealms n (realms info) (isNew info) db3 = (ok, db4)" by force
  define db5 where "db5 = exec_all (owner_inserts n info) (exec_all (acl_inserts n info)
    (exec_all (acl_owner_deletes info) (exec_all (token_inserts info) db4)))"
  obtain c db6 where 6: "sql_commit db5 = (c, db6)" by force
  have i1: "db_inv meta_ok db1" using db_inv_start [OF assms] 1 by simp
  have i2: "db_inv meta_ok db2" using inv_updateCredentials [OF i1] 2 by (metis snd_conv)
  have i3: "db_inv meta_ok db3"
    unfolding db3_def insertMethods_def by (intro db_inv_exec_all i2 all_preserve)
  have i4: "db_inv meta_ok db4" using inv_updateRealms [OF i3] 4 by (metis snd_conv)
  have i5: "db_inv meta_ok db5"
    unfolding db5_def by (intro db_inv_exec_all i4 all_preserve)
  have i6: "db_inv meta_ok db6" using db_inv_commit [OF i5] 6 by simp
  have "snd (meta_updateIdentity info db) \<in>
      {db1, sql_rollback db2, sql_rollback db4, db6, sql_rollback db6}"
    by (simp add: meta_updateIdentity_def Let_def 1 2 4 6 flip: db3_def db5_def)
  with i1 i2 i4 i6 show ?thesis by (auto intro: db_inv_rollback)
qed

lemma inv_removeIdentity: "db_inv meta_ok db \<Longrightarrow> db_inv meta_ok (snd (meta_removeIdentity n db))"
  by (simp add: meta_removeIdentity_def db_inv_transactionalExec all_preserve)

lemma inv_clear: "db_inv meta_ok db \<Longrightarrow> db_inv meta_ok (snd (meta_clear db))"
  by (simp add: meta_clear_def db_inv_transactionalExec all_preserve)

lemma inv_insertMethod: "db_inv meta_ok db \<Longrightarrow> db_inv meta_ok (snd (snd (insertMethod m db)))"
  by (simp add: insertMethod_def Let_def db_inv_exec statements_preserve)

lemma inv_steps:
  "db_inv P db \<Longrightarrow> startTransaction db = (b, db1) \<Longrightarrow> db_inv P db1"
  "db_inv P db \<Longrightarrow> sql_commit db = (b, db1) \<Longrightarrow> db_inv P db1"
  "db_inv P db \<Longrightarrow> queryList q db = (rs, db1) \<Longrightarrow> db_inv P db1"
  "db_inv P db \<Longrightarrow> sql_query r db = (v, db1) \<Longrightarrow> db_inv P db1"
  "db_inv P db \<Longrightarrow> sql_connect db = (b, db1) \<Longrightarrow> db_inv P db1"
  using db_inv_start [of P db] db_inv_commit [of P db] db_inv_queryList [of P db q]
    db_inv_query [of P db r] db_inv_connect [of P db]
  by simp_all

lemma inv_addReference:
  assumes "db_inv meta_ok db"
  shows "db_inv meta_ok (snd (meta_addReference n t r db))"
proof -
  obtain b db1 where 1: "startTransaction db = (b, db1)" by force
  define db2 where "db2 = sql_exec (st_ignore_token t) db1"
  define db3 where "db3 = sql_exec (st_insert_ref n t r) db2"
  obtain c db4 where 4: "sql_commit db3 = (c, db4)" by force
  have i1: "db_inv meta_ok db1" by (rule inv_steps(1) [OF assms 1])
  have i3: "db_inv meta_ok db3"
    unfolding db3_def db2_def by (intro db_inv_exec i1 statements_preserve)
  have i4: "db_inv meta_ok db4" by (rule inv_steps(2) [OF i3 4])
  have "snd (meta_addReference n t r db) \<in> {db1, db4, sql_rollback db4, sql_rollback db3}"
    by (simp add: meta_addReference_def Let_def 1 4 flip: db2_def db3_def)
  with i1 i3 i4 show ?thesis by (auto intro: db_inv_rollback)
qed

lemma inv_references:
  "db_inv P db \<Longrightarrow> meta_references n t db = (rs, db1) \<Longrightarrow> db_inv P db1"
  by (auto simp: meta_references_def intro: inv_steps split: if_splits)

lemma inv_removeReference:
  assumes "db_inv meta_ok db"
  shows "db_inv meta_ok (snd (meta_removeReference n t r db))"
proof -
  obtain rs db0 where 0: "meta_references n t db = (rs, db0)" by force
  obtain b db1 where 1: "startTransaction db0 = (b, db1)" by force
  define db2 where
    "db2 = sql_exec (st_delete_refs n t (if qisEmpty r then None else Some r)) db1"
  obtain c db3 where 3: "sql_commit db2 = (c, db3)" by force
  have i0: "db_inv meta_ok db0" by (rule inv_references [OF assms 0])
  have i1: "db_inv meta_ok db1" by (rule inv_steps(1) [OF i0 1])
  have i2: "db_inv meta_ok db2"
    unfolding db2_def by (intro db_inv_exec i1 statements_preserve)
  have i3: "db_inv meta_ok db3" by (rule inv_steps(2) [OF i2 3])
  have "snd (meta_removeReference n t r db)
      \<in> {db0, db1, sql_rollback db2, db3, sql_rollback db3}"
    by (simp add: meta_removeReference_def Let_def 0 1 3 flip: db2_def)
  with i0 i1 i2 i3 show ?thesis by (auto intro: db_inv_rollback)
qed

lemma inv_identity_methods:
  "db_inv P db \<Longrightarrow> db_inv P (snd (identity_methods n rows ms db))"
  by (induction n rows ms db rule: identity_methods.induct)
     (auto dest: inv_steps(3) split: prod.splits)

lemma inv_identity:
  assumes "db_inv P db"
  shows "db_inv P (snd (meta_identity n db))"
proof -
  obtain v db0 where 0: "sql_query (sel_credentials n) db = (v, db0)" by force
  obtain l1 db1 where 1: "queryList (sel_realms n) db0 = (l1, db1)" by force
  obtain l2 db2 where 2: "queryList (sel_owner_tokens n) db1 = (l2, db2)" by force
  obtain l3 db3 where 3: "queryList (sel_acl_tokens n) db2 = (l3, db3)" by force
  obtain l4 db4 where 4: "queryList (sel_acl_methods n) db3 = (l4, db4)" by force
  obtain l5 db5 where 5: "identity_methods n l4 [] db4 = (l5, db5)" by force
  have i0: "db_inv P db0" by (rule inv_steps(4) [OF assms 0])
  have "db_inv P db4" using inv_steps(3) 1 2 3 4 i0 by metis
  then have i5: "db_inv P db5" using inv_identity_methods 5 by (metis snd_conv)
  have "snd (meta_identity n db) \<in> {db0, db5}"
    by (auto simp: meta_identity_def Let_def 0 1 2 3 4 5 split: option.splits)
  with i0 i5 show ?thesis by auto
qed

lemma inv_identities_loop: "db_inv P db \<Longrightarrow> db_inv P (snd (identities_loop ns db))"
proof (induction ns arbitrary: db)
  case (Cons n ns)
  obtain i db1 where 1: "meta_identity (to_uint (int n)) db = (i, db1)" by force
  with inv_identity [OF Cons.prems] have "db_inv P db1" by (metis snd_conv)
  with Cons.IH [of db1] show ?case
    using 1 by (auto simp: Let_def split: prod.splits)
qed simp

lemma inv_identities: "db_inv P db \<Longrightarrow> db_inv P (snd (meta_identities db))"
  by (auto simp: meta_identities_def inv_identities_loop dest: inv_steps(4)
      split: prod.splits option.splits)

lemma inv_methodId: "db_inv P db \<Longrightarrow> db_inv P (snd (methodId m db))"
  by (auto simp: methodId_def dest: inv_steps(4) split: prod.splits option.splits)

lemma inv_methods: "db_inv P db \<Longrightarrow> db_inv P (snd (meta_methods n t db))"
  by (simp add: meta_methods_def db_inv_queryList)

end
