(* ===== verification/Meta_Update.thy ===== *)
theory Meta_Update
  imports Meta_Db
begin

text \<open>
  What \<open>MetaDataDB\<close> stores, seen from outside: for each identity a view in which the names of
  methods, mechanisms and tokens are spelt out, whatever their row ids. The lemmas lead to
  the refinement: an update without failures changes the view of one identity to what
  its argument says, and no other.
\<close>

section \<open>Views\<close>

record identity_view =
  vw_caption :: qstring
  vw_username :: qstring
  vw_flags :: int
  vw_type :: int
  vw_realms :: "qstring list"
  vw_entries :: "(qstring option \<times> qstring option \<times> qstring option) list"
  vw_owners :: "qstring option list"

definition nt_name :: "name_table \<Rightarrow> nat option \<Rightarrow> qstring option" where
  "nt_name t ref = Option.bind ref (map_of (nt_rows t))"

definition acl_names :: "meta_data \<Rightarrow> acl_row \<Rightarrow> qstring option \<times> qstring option \<times> qstring option"
  where
  "acl_names d r = (nt_name (md_methods d) (acl_method r), nt_name (md_mechanisms d) (acl_mechanism r),
     nt_name (md_tokens d) (acl_token r))"

definition view_of :: "meta_data \<Rightarrow> nat \<Rightarrow> identity_view option" where
  "view_of d n =
     map_option (\<lambda>c. \<lparr>vw_caption = cr_caption c, vw_username = cr_username c, vw_flags = cr_flags c,
         vw_type = cr_type c, vw_realms = sel_realms n d,
         vw_entries = map (acl_names d) (filter (\<lambda>r. acl_identity r = n) (md_acl d)),
         vw_owners = map (nt_name (md_tokens d) \<circ> snd) (filter (\<lambda>r. fst r = n) (md_owner d))\<rparr>)
       (sel_credentials n d)"

text \<open>A null string is stored as NULL.\<close>

definition norm :: "qstring option \<Rightarrow> qstring option" where
  "norm s = (if s = Some QNull then None else s)"

definition info_view :: "identity_info \<Rightarrow> identity_view" where
  "info_view info =
     \<lparr>vw_caption = caption info,
      vw_username = (if isUserNameSecret info then QNull else userName info),
      vw_flags = info_flags info, vw_type = info_type info, vw_realms = realms info,
      vw_entries = map (\<lambda>(m, k, t). (norm m, norm k, norm t))
        (acl_entries (info_methods info) (info_acl info)),
      vw_owners = map Some (filter (\<lambda>t. \<not> qisEmpty t) (info_owners info))\<rparr>"

section \<open>Name tables\<close>

definition nt_inserts :: "qstring list \<Rightarrow> name_table \<Rightarrow> name_table" where
  "nt_inserts ns t = fold nt_insert_or_ignore ns t"

lemma nt_inserts_simps [simp]:
  "nt_inserts [] t = t" "nt_inserts (n # ns) t = nt_inserts ns (nt_insert_or_ignore n t)"
  "nt_inserts (ns @ ms) t = nt_inserts ms (nt_inserts ns t)"
  by (simp_all add: nt_inserts_def)

lemma nt_ok_inserts [simp]: "nt_ok t \<Longrightarrow> nt_ok (nt_inserts ns t)"
  by (induction ns arbitrary: t) auto

lemma nt_inserts_rows: "\<exists>rs. nt_rows (nt_inserts ns t) = nt_rows t @ rs"
proof (induction ns arbitrary: t)
  case (Cons n ns)
  have "\<exists>rs. nt_rows (nt_insert_or_ignore n t) = nt_rows t @ rs"
    by (simp add: nt_insert_or_ignore_def)
  with Cons [of "nt_insert_or_ignore n t"] show ?case by auto
qed simp

lemma nt_id_inserts_Some:
  "nt_ok t \<Longrightarrow> nt_id t n = Some i \<Longrightarrow> nt_id (nt_inserts ns t) n = Some i"
  by (induction ns arbitrary: t) auto

lemma nt_id_inserted:
  assumes "nt_ok t" and "n \<in> set ns" and "n \<noteq> QNull"
  shows "\<exists>i. nt_id (nt_inserts ns t) n = Some i"
  using assms
proof (induction ns arbitrary: t)
  case (Cons m ns)
  show ?case
  proof (cases "n = m")
    case True
    have "nt_id (nt_insert_or_ignore n t) n \<noteq> None"
      using nt_insert_present [of n t] Cons.prems by (simp add: nt_id_None)
    then obtain i where "nt_id (nt_insert_or_ignore n t) n = Some i" by auto
    with True Cons.prems nt_id_inserts_Some [of "nt_insert_or_ignore n t" n i ns] show ?thesis
      by simp
  qed (use Cons in auto)
qed simp

lemma nt_name_inserts:
  assumes "refers ref (nt_ids t)"
  shows "nt_name (nt_inserts ns t) ref = nt_name t ref"
proof (cases ref)
  case (Some i)
  with assms have "i \<in> fst ` set (nt_rows t)" by (simp add: nt_ids_def)
  then have "\<exists>y. map_of (nt_rows t) i = Some y"
    by (simp flip: dom_map_of_conv_image_fst add: dom_def)
  moreover obtain rs where "nt_rows (nt_inserts ns t) = nt_rows t @ rs"
    using nt_inserts_rows by blast
  ultimately show ?thesis using Some by (auto simp: nt_name_def map_add_def)
qed (simp add: nt_name_def)

lemma nt_name_id:
  assumes "nt_ok t" and "nt_id t n = Some i"
  shows "nt_name t (Some i) = Some n"
  using assms by (auto simp: nt_name_def nt_ok_def nt_ids_def dest: nt_id_Some)

lemma nt_name_bind_id:
  assumes "nt_ok t" and "\<And>n. m = Some n \<Longrightarrow> n \<noteq> QNull \<Longrightarrow> \<exists>i. nt_id t n = Some i"
  shows "nt_name t (Option.bind m (nt_id t)) = norm m"
proof (cases m)
  case (Some n)
  then show ?thesis
    using assms by (cases "n = QNull") (auto simp: norm_def nt_name_id, simp add: nt_name_def nt_id_def)
qed (simp add: nt_name_def norm_def)

section \<open>The statements of an update, one after the other\<close>

lemma run_statements_append:
  "run_statements (xs @ ys) d = Option.bind (run_statements xs d) (run_statements ys)"
  by (induction xs arbitrary: d) (auto split: statement_result.splits)

lemma exec_all_good:
  "sq_io db = [] \<Longrightarrow> run_statements sts (sq_data db) = Some d \<Longrightarrow>
     exec_all sts db = db\<lparr>sq_data := d, sq_error := (if sts = [] then sq_error db else NoError)\<rparr>"
proof (induction sts arbitrary: db)
  case (Cons st sts)
  then obtain d' where "st (sq_data db) = Done d'" "run_statements sts d' = Some d"
    by (auto split: statement_result.splits)
  with Cons.IH [of "db\<lparr>sq_data := d', sq_error := NoError\<rparr>"] Cons.prems show ?case
    by (simp add: exec_good exec_all_def)
qed (simp add: exec_all_def)

text \<open>The names an update brings with it.\<close>

definition with_names :: "identity_info \<Rightarrow> meta_data \<Rightarrow> meta_data" where
  "with_names info d =
     d\<lparr>md_methods := nt_inserts (map (QStr \<circ> fst) (info_methods info)) (md_methods d),
       md_mechanisms := nt_inserts (concat (map snd (info_methods info))) (md_mechanisms d),
       md_tokens := nt_inserts (info_acl info @ filter (\<lambda>t. \<not> qisEmpty t) (info_owners info))
         (md_tokens d)\<rparr>"

lemma run_mechanisms:
  "has d T_MECHANISMS \<Longrightarrow> run_statements (map st_ignore_mechanism ks) d =
     Some (d\<lparr>md_mechanisms := nt_inserts ks (md_mechanisms d)\<rparr>)"
  by (induction ks arbitrary: d) (simp_all add: st_ignore_mechanism_def)

lemma run_tokens:
  "has d T_TOKENS \<Longrightarrow> run_statements (map st_ignore_token ks) d =
     Some (d\<lparr>md_tokens := nt_inserts ks (md_tokens d)\<rparr>)"
  by (induction ks arbitrary: d) (simp_all add: st_ignore_token_def)

lemma run_methods:
  "has d T_METHODS \<Longrightarrow> has d T_MECHANISMS \<Longrightarrow> run_statements (insertMethods_stmts ms) d =
     Some (d\<lparr>md_methods := nt_inserts (map (QStr \<circ> fst) ms) (md_methods d),
             md_mechanisms := nt_inserts (concat (map snd ms)) (md_mechanisms d)\<rparr>)"
proof (induction ms arbitrary: d)
  case (Cons p ms)
  then show ?case
    by (cases p) (simp add: insertMethods_stmts_def run_statements_append run_mechanisms
        st_ignore_method_def)
qed (simp add: insertMethods_stmts_def)

lemma run_realms:
  "has d T_REALMS \<Longrightarrow> n \<in> set (cred_ids d) \<Longrightarrow> run_statements (map (st_insert_realm n) rs) d =
     Some (d\<lparr>md_realms := md_realms d @ map (Pair n) rs\<rparr>)"
  by (induction rs arbitrary: d) (simp_all add: st_insert_realm_def violates_def)

lemma acl_row_of_cong [simp]: "acl_row_of n m k t (d\<lparr>md_acl := x\<rparr>) = acl_row_of n m k t d"
  by (simp add: acl_row_of_def)

lemma not_violates_refers: "refers ref ids \<Longrightarrow> \<not> violates d trig ref ids"
  by (auto simp: violates_def refers_def split: option.splits)

lemma no_acl_violation:
  "n \<in> set (cred_ids d) \<Longrightarrow> \<not> acl_violation (acl_row_of n m k t d) (d\<lparr>md_acl := x\<rparr>)"
  by (simp add: acl_violation_def acl_row_of_def not_violates_refers)

lemma run_acl:
  assumes "has d T_ACL" and "n \<in> set (cred_ids d)"
  shows "run_statements (map (\<lambda>(m, k, t). st_insert_acl n m k t) es) (d\<lparr>md_acl := x\<rparr>) =
    Some (d\<lparr>md_acl := x @ map (\<lambda>(m, k, t). acl_row_of n m k t d) es\<rparr>)"
proof (induction es arbitrary: x)
  case (Cons e es)
  then show ?case
    using assms by (cases e) (simp add: st_insert_acl_def no_acl_violation Let_def)
qed simp

lemma run_owners:
  "has d T_OWNER \<Longrightarrow> run_statements (map (st_insert_owner n) ts) d =
     Some (d\<lparr>md_owner := md_owner d @ map (\<lambda>t. (n, nt_id (md_tokens d) t)) ts\<rparr>)"
  by (induction ts arbitrary: d) (simp_all add: st_insert_owner_def not_violates_refers)


section \<open>The whole update\<close>

definition put_credentials :: "nat \<Rightarrow> identity_info \<Rightarrow> meta_data \<Rightarrow> meta_data" where
  "put_credentials n info d =
     (let row = \<lparr>cr_id = n, cr_caption = caption info,
            cr_username = (if isUserNameSecret info then QNull else userName info),
            cr_flags = info_flags info, cr_type = info_type info\<rparr> in
      if isNew info then d\<lparr>md_cred_seq := n, md_credentials := md_credentials d @ [row]\<rparr>
      else d\<lparr>md_credentials := map (\<lambda>r. if cr_id r = n then row else r) (md_credentials d)\<rparr>)"

text \<open>What is left of the rows of the identity before the new ones are inserted.\<close>

definition drop_rows :: "nat \<Rightarrow> identity_info \<Rightarrow> meta_data \<Rightarrow> meta_data" where
  "drop_rows n info d =
     (if isNew info then d
      else d\<lparr>md_realms := filter (\<lambda>r. fst r \<noteq> n) (md_realms d),
             md_acl := filter (\<lambda>r. acl_identity r \<noteq> n) (md_acl d),
             md_owner := filter (\<lambda>r. fst r \<noteq> n) (md_owner d)\<rparr>)"

definition updated :: "nat \<Rightarrow> identity_info \<Rightarrow> meta_data \<Rightarrow> meta_data" where
  "updated n info d =
     (let e = with_names info (drop_rows n info (put_credentials n info d)) in
      e\<lparr>md_realms := md_realms e @ map (Pair n) (realms info),
        md_acl := md_acl e @ map (\<lambda>(m, k, t). acl_row_of n m k t e)
          (acl_entries (info_methods info) (info_acl info)),
        md_owner := md_owner e @ map (\<lambda>t. (n, nt_id (md_tokens e) t))
          (filter (\<lambda>t. \<not> qisEmpty t) (info_owners info))\<rparr>)"

text \<open>The id an update is about.\<close>

definition target :: "identity_info \<Rightarrow> meta_data \<Rightarrow> nat" where
  "target info d = (if isNew info then md_cred_seq d + 1 else info_id info)"

definition target_ok :: "identity_info \<Rightarrow> meta_data \<Rightarrow> bool" where
  "target_ok info d \<longleftrightarrow>
     (if isNew info then md_cred_seq d + 1 < 4294967296 \<and> (\<forall>r \<in> set (md_owner d). fst r \<noteq> target info d)
      else info_id info \<in> set (cred_ids d))"

lemma run_credentials:
  assumes "meta_ok d"
  shows "credentials_stmt info d = Done (put_credentials (target info d) info d)"
  using meta_has_all [OF assms]
  by (auto simp: credentials_stmt_def st_insert_credentials_def st_update_credentials_def
      put_credentials_def target_def Let_def intro!: meta_data.fold_congs)

lemma cred_ids_put:
  "cred_ids (put_credentials n info d) = (if isNew info then cred_ids d @ [n] else cred_ids d)"
  by (auto simp: put_credentials_def Let_def cred_ids_def)

lemma target_in_ids:
  "target_ok info d \<Longrightarrow> target info d \<in> set (cred_ids (put_credentials (target info d) info d))"
  by (simp add: cred_ids_put target_def target_ok_def split: if_splits)

definition realms_stmts :: "nat \<Rightarrow> identity_info \<Rightarrow> meta_data statement list" where
  "realms_stmts n info = (if isNew info then [] else [st_delete_realms (\<lambda>i. i = n)])
     @ map (st_insert_realm n) (realms info)"

definition update_stmts :: "nat \<Rightarrow> identity_info \<Rightarrow> meta_data statement list" where
  "update_stmts n info = insertMethods_stmts (info_methods info) @ realms_stmts n info
     @ token_inserts info @ acl_owner_deletes info @ acl_inserts n info @ owner_inserts n info"

lemma run_update_stmts:
  assumes "schema_ok d" and "n \<in> set (cred_ids d)" and "isNew info \<or> n = info_id info"
  shows "run_statements (update_stmts n info) d =
    Some (let e = with_names info (drop_rows n info d) in
      e\<lparr>md_realms := md_realms e @ map (Pair n) (realms info),
        md_acl := md_acl e @ map (\<lambda>(m, k, t). acl_row_of n m k t e)
          (acl_entries (info_methods info) (info_acl info)),
        md_owner := md_owner e @ map (\<lambda>t. (n, nt_id (md_tokens e) t))
          (filter (\<lambda>t. \<not> qisEmpty t) (info_owners info))\<rparr>)"
proof -
  note h = schema_has_all [OF assms(1)]
  have acl: "run_statements (map (\<lambda>(m, k, t). st_insert_acl n m k t) es) e =
    Some (e\<lparr>md_acl := md_acl e @ map (\<lambda>(m, k, t). acl_row_of n m k t e) es\<rparr>)"
    if "has e T_ACL" "n \<in> set (cred_ids e)" for e es n
    using run_acl [OF that, of es "md_acl e"] by simp
  show ?thesis
    using h assms(2,3)
    by (cases "isNew info")
       (simp_all add: update_stmts_def realms_stmts_def run_statements_append run_methods run_realms
         token_inserts_def run_tokens acl_owner_deletes_def acl_inserts_def owner_inserts_def
         run_owners acl with_names_def drop_rows_def st_delete_realms_def st_delete_acl_def
         st_delete_owner_def Let_def acl_row_of_def)
qed

end
