(* ===== verification/Meta_Refinement.thy ===== *)
theory Meta_Refinement
  imports Meta_Update
begin

text \<open>
  \<open>MetaDataDB\<close> refines a map from ids to views, and reads back what it stored; its integrity
  survives any sequence of operations under any failures of the driver.
\<close>

section \<open>A run without failures\<close>

lemma bind_Some_split: "Option.bind x f = Some y \<Longrightarrow> (\<And>z. x = Some z \<Longrightarrow> f z = Some y \<Longrightarrow> P) \<Longrightarrow> P"
  by (cases x) auto

lemma updateRealms_good:
  assumes "sq_io db = []"
    and "run_statements (realms_stmts n info) (sq_data db) = Some d"
    and "sq_error db = NoError"
  shows "updateRealms n (realms info) (isNew info) db = (True, db\<lparr>sq_data := d\<rparr>)"
proof (cases "isNew info")
  case True
  with assms show ?thesis
    by (auto simp: updateRealms_def realms_stmts_def exec_while_ok_good)
next
  case False
  let ?e = "if has (sq_data db) T_REALMS then sq_data db\<lparr>md_realms :=
    filter (\<lambda>r. fst r \<noteq> n) (md_realms (sq_data db))\<rparr> else sq_data db"
  have "st_delete_realms (\<lambda>i. i = n) (sq_data db) = Done ?e"
    using assms(2) False by (auto simp: realms_stmts_def st_delete_realms_def split: if_splits)
  with False assms show ?thesis
    by (auto simp: updateRealms_def realms_stmts_def exec_good exec_while_ok_good Let_def)
qed

lemma put_credentials_keeps [simp]:
  "schema_ok (put_credentials n info d) = schema_ok d"
  "md_methods (put_credentials n info d) = md_methods d"
  "md_mechanisms (put_credentials n info d) = md_mechanisms d"
  "md_tokens (put_credentials n info d) = md_tokens d"
  "md_realms (put_credentials n info d) = md_realms d"
  "md_acl (put_credentials n info d) = md_acl d"
  "md_owner (put_credentials n info d) = md_owner d"
  by (simp_all add: put_credentials_def Let_def)

lemma updateCredentials_good:
  assumes "sq_io db = []" and "meta_ok (sq_data db)" and "target_ok info (sq_data db)"
  shows "meta_updateCredentials info db =
    (target info (sq_data db),
     db\<lparr>sq_data := put_credentials (target info (sq_data db)) info (sq_data db), sq_error := NoError\<rparr>)"
proof -
  have "md_cred_seq (put_credentials (target info (sq_data db)) info (sq_data db))
      = md_cred_seq (sq_data db) + 1" if "isNew info"
    using that by (simp add: put_credentials_def target_def Let_def)
  with assms(3) show ?thesis
    using exec_good [where db = db and st = "credentials_stmt info",
        OF assms(1) run_credentials [OF assms(2)]]
    by (auto simp: meta_updateCredentials_def errorOccurred_def target_def target_ok_def Let_def
        to_uint_small [of "Suc (md_cred_seq (sq_data db))"] simp del: of_nat_Suc)
qed

lemma updateIdentity_good:
  assumes "sq_io db = []" and "sq_saved db = None" and "meta_ok (sq_data db)"
    and "target_ok info (sq_data db)"
  shows "meta_updateIdentity info db =
    (target info (sq_data db),
     db\<lparr>sq_data := updated (target info (sq_data db)) info (sq_data db), sq_error := NoError\<rparr>)"
proof -
  define d n where "d = sq_data db" and "n = target info d"
  define d1 d' where "d1 = put_credentials n info d" and "d' = updated n info d"
  have run: "run_statements (update_stmts n info) d1 = Some d'"
    unfolding d1_def d'_def updated_def n_def
    using assms target_in_ids [of info d]
    by (subst run_update_stmts) (auto simp: meta_ok_def d_def target_def)
  then obtain d2 d3 d4 d5 d6 where
      "run_statements (insertMethods_stmts (info_methods info)) d1 = Some d2"
      "run_statements (realms_stmts n info) d2 = Some d3"
      "run_statements (token_inserts info) d3 = Some d4"
      "run_statements (acl_owner_deletes info) d4 = Some d5"
      "run_statements (acl_inserts n info) d5 = Some d6"
      "run_statements (owner_inserts n info) d6 = Some d'"
    by (auto simp: update_stmts_def run_statements_append elim!: bind_Some_split)
  note runs = this
  have n: "n \<noteq> 0"
    by (simp add: n_def target_def isNew_def NEW_IDENTITY_def)
  have cred: "meta_updateCredentials info (db\<lparr>sq_saved := Some d\<rparr>) =
      (n, db\<lparr>sq_saved := Some d, sq_data := d1, sq_error := NoError\<rparr>)"
    using updateCredentials_good [of "db\<lparr>sq_saved := Some d\<rparr>" info] assms
    by (simp add: d1_def n_def d_def)
  show ?thesis
    using assms(1,2) cred runs n
    by (simp add: meta_updateIdentity_def start_good insertMethods_def exec_all_good
        updateRealms_good commit_good flip: d_def n_def d'_def)
qed

section \<open>Views after an update\<close>

lemma find_append:
  "List.find P (xs @ ys) = (case List.find P xs of None \<Rightarrow> List.find P ys | Some x \<Rightarrow> Some x)"
  by (induction xs) auto

lemma find_replace:
  "cr_id row = n \<Longrightarrow> n \<in> cr_id ` set rs \<Longrightarrow>
     List.find (\<lambda>r. cr_id r = n) (map (\<lambda>r. if cr_id r = n then row else r) rs) = Some row"
  by (induction rs) auto

lemma find_replace_other:
  "cr_id row = n \<Longrightarrow> m \<noteq> n \<Longrightarrow>
     List.find (\<lambda>r. cr_id r = m) (map (\<lambda>r. if cr_id r = n then row else r) rs) =
     List.find (\<lambda>r. cr_id r = m) rs"
  by (induction rs) auto

lemma sel_credentials_put:
  assumes "meta_ok d" and "target_ok info d" and "n = target info d"
  shows "sel_credentials m (put_credentials n info d) =
    (if m = n then Some \<lparr>cr_id = n, cr_caption = caption info,
            cr_username = (if isUserNameSecret info then QNull else userName info),
            cr_flags = info_flags info, cr_type = info_type info\<rparr>
     else sel_credentials m d)"
proof (cases "isNew info")
  case True
  then have "\<forall>r \<in> set (md_credentials d). cr_id r \<noteq> n"
    using assms by (force simp: meta_ok_def creds_ok_def cred_ids_def target_def)
  then have "List.find (\<lambda>r. cr_id r = n) (md_credentials d) = None"
    by (auto simp: find_None_iff)
  then show ?thesis
    using True by (simp add: sel_credentials_def put_credentials_def Let_def find_append
        split: option.splits)
next
  case False
  have "n \<in> cr_id ` set (md_credentials d)"
    using assms False by (auto simp: target_ok_def target_def cred_ids_def)
  with False show ?thesis
    by (simp add: sel_credentials_def put_credentials_def Let_def find_replace find_replace_other)
qed

lemma acl_entries_names:
  assumes "(m, k, t) \<in> set (acl_entries ms acl)"
  shows "(\<forall>x. m = Some x \<longrightarrow> x \<in> set (map (QStr \<circ> fst) ms))
    \<and> (\<forall>x. k = Some x \<longrightarrow> x \<in> set (concat (map snd ms))) \<and> (\<forall>x. t = Some x \<longrightarrow> x \<in> set acl)"
  using assms unfolding acl_entries_def by (auto split: if_splits) force+

text \<open>No row of the identity is left when the new ones are inserted.\<close>

lemma drop_rows_fields [simp]:
  "md_methods (drop_rows n info d) = md_methods d" "md_mechanisms (drop_rows n info d) = md_mechanisms d"
  "md_tokens (drop_rows n info d) = md_tokens d"
  "md_credentials (drop_rows n info d) = md_credentials d"
  by (simp_all add: drop_rows_def)

lemma drop_rows_other:
  assumes "m \<noteq> n"
  shows "filter (\<lambda>r. fst r = m) (md_realms (drop_rows n info d)) = filter (\<lambda>r. fst r = m) (md_realms d)"
    "filter (\<lambda>r. acl_identity r = m) (md_acl (drop_rows n info d)) =
      filter (\<lambda>r. acl_identity r = m) (md_acl d)"
    "filter (\<lambda>r. fst r = m) (md_owner (drop_rows n info d)) = filter (\<lambda>r. fst r = m) (md_owner d)"
  using assms by (auto simp: drop_rows_def intro: filter_cong)

lemma drop_rows_gone:
  assumes "meta_ok d" and "target_ok info d" and "n = target info d"
  shows "filter (\<lambda>r. fst r = n) (md_realms (drop_rows n info d)) = []"
    "filter (\<lambda>r. acl_identity r = n) (md_acl (drop_rows n info d)) = []"
    "filter (\<lambda>r. fst r = n) (md_owner (drop_rows n info d)) = []"
proof -
  have new: "\<forall>i \<in> set (cred_ids d). i \<noteq> n" if "isNew info"
    using assms that by (auto simp: meta_ok_def creds_ok_def target_def)
  have rows: "rows_ok d" using assms(1) by (simp add: meta_ok_def)
  show "filter (\<lambda>r. fst r = n) (md_realms (drop_rows n info d)) = []"
    using rows new unfolding filter_empty_conv by (auto simp: drop_rows_def rows_ok_def)
  show "filter (\<lambda>r. acl_identity r = n) (md_acl (drop_rows n info d)) = []"
    using rows new unfolding filter_empty_conv
    by (auto simp: drop_rows_def rows_ok_def acl_row_ok_def)
  show "filter (\<lambda>r. fst r = n) (md_owner (drop_rows n info d)) = []"
    using assms(2,3) unfolding filter_empty_conv by (auto simp: drop_rows_def target_ok_def)
qed

lemma updated_fields [simp]:
  "md_methods (updated n info d) = nt_inserts (map (QStr \<circ> fst) (info_methods info)) (md_methods d)"
  "md_mechanisms (updated n info d) = nt_inserts (concat (map snd (info_methods info))) (md_mechanisms d)"
  "md_tokens (updated n info d) =
     nt_inserts (info_acl info @ filter (\<lambda>t. \<not> qisEmpty t) (info_owners info)) (md_tokens d)"
  "md_credentials (updated n info d) = md_credentials (put_credentials n info d)"
  by (simp_all add: updated_def with_names_def Let_def)

lemma acl_names_updated:
  assumes "acl_row_ok d r"
  shows "acl_names (updated n info d) r = acl_names d r"
  using assms by (simp add: acl_names_def acl_row_ok_def nt_name_inserts del: nt_inserts_simps)

lemma norm_token: "\<not> qisEmpty t \<Longrightarrow> norm (Some t) = Some t"
  by (auto simp: norm_def)

lemma acl_names_inserted:
  assumes "meta_ok d" and "(m, k, t) \<in> set (acl_entries (info_methods info) (info_acl info))"
    and e: "md_methods e = md_methods (updated n info d)"
      "md_mechanisms e = md_mechanisms (updated n info d)"
      "md_tokens e = md_tokens (updated n info d)"
  shows "acl_names (updated n info d) (acl_row_of n m k t e) = (norm m, norm k, norm t)"
proof -
  note names = acl_entries_names [OF assms(2)]
  have ok: "nt_ok (md_methods d)" "nt_ok (md_mechanisms d)" "nt_ok (md_tokens d)"
    using assms(1) by (simp_all add: meta_ok_def)
  have "\<exists>i. nt_id (nt_inserts (map (QStr \<circ> fst) (info_methods info)) (md_methods d)) x = Some i"
    if "m = Some x" "x \<noteq> QNull" for x
    using names that by (intro nt_id_inserted ok) auto
  moreover have "\<exists>i. nt_id (nt_inserts (concat (map snd (info_methods info))) (md_mechanisms d)) x = Some i"
    if "k = Some x" "x \<noteq> QNull" for x
    using names that by (intro nt_id_inserted ok) auto
  moreover have "\<exists>i. nt_id (nt_inserts (info_acl info @ filter (\<lambda>t. \<not> qisEmpty t) (info_owners info))
      (md_tokens d)) x = Some i" if "t = Some x" "x \<noteq> QNull" for x
    using names that by (intro nt_id_inserted ok) auto
  ultimately show ?thesis
    unfolding acl_names_def acl_row_of_def
    by (simp add: e nt_name_bind_id ok del: nt_inserts_simps)
qed

lemma owner_name_inserted:
  assumes "meta_ok d" and "t \<in> set (filter (\<lambda>t. \<not> qisEmpty t) (info_owners info))"
  shows "nt_name (md_tokens (updated n info d)) (nt_id (md_tokens (updated n info d)) t) = Some t"
proof -
  have ok: "nt_ok (md_tokens d)" using assms(1) by (simp add: meta_ok_def)
  have "\<exists>i. nt_id (nt_inserts (info_acl info @ filter (\<lambda>t. \<not> qisEmpty t) (info_owners info))
      (md_tokens d)) t = Some i"
    using assms(2) by (intro nt_id_inserted ok) auto
  then show ?thesis
    using ok by (auto simp: nt_name_id simp del: nt_inserts_simps)
qed

lemma view_updated_other:
  assumes ok: "meta_ok d" and t: "target_ok info d" and n: "n = target info d" and m: "m \<noteq> n"
  shows "view_of (updated n info d) m = view_of d m"
proof -
  have rows: "rows_ok d" using ok by (simp add: meta_ok_def)
  have 0: "sel_credentials m (updated n info d) = sel_credentials m d"
    using sel_credentials_put [OF ok t n, of m] m by (simp add: sel_credentials_def)
  have 1: "sel_realms m (updated n info d) = sel_realms m d"
    using m by (simp add: sel_realms_def updated_def with_names_def Let_def drop_rows_other)
  have "filter (\<lambda>r. acl_identity r = m) (md_acl (updated n info d)) =
      filter (\<lambda>r. acl_identity r = m) (md_acl d)"
    using m by (auto simp: updated_def with_names_def Let_def drop_rows_other filter_empty_conv
        acl_row_of_def)
  moreover have "acl_names (updated n info d) r = acl_names d r" if "r \<in> set (md_acl d)" for r
    using rows that by (simp add: rows_ok_def acl_names_updated)
  ultimately have 2: "map (acl_names (updated n info d))
        (filter (\<lambda>r. acl_identity r = m) (md_acl (updated n info d))) =
      map (acl_names d) (filter (\<lambda>r. acl_identity r = m) (md_acl d))"
    by simp
  have "filter (\<lambda>r. fst r = m) (md_owner (updated n info d)) =
      filter (\<lambda>r. fst r = m) (md_owner d)"
    using m by (auto simp: updated_def with_names_def Let_def drop_rows_other filter_empty_conv)
  moreover have "nt_name (md_tokens (updated n info d)) (snd r) = nt_name (md_tokens d) (snd r)"
    if "r \<in> set (md_owner d)" for r
    using rows that by (simp add: rows_ok_def nt_name_inserts del: nt_inserts_simps)
  ultimately have 3: "map (nt_name (md_tokens (updated n info d)) \<circ> snd)
        (filter (\<lambda>r. fst r = m) (md_owner (updated n info d))) =
      map (nt_name (md_tokens d) \<circ> snd) (filter (\<lambda>r. fst r = m) (md_owner d))"
    by simp
  show ?thesis unfolding view_of_def by (simp only: 0 1 2 3)
qed

lemma view_updated_same:
  assumes ok: "meta_ok d" and t: "target_ok info d" and n: "n = target info d"
  shows "view_of (updated n info d) n = Some (info_view info)"
proof -
  have 0: "sel_credentials n (updated n info d) = sel_credentials n (put_credentials n info d)"
    by (simp add: sel_credentials_def)
  have gone: "filter (\<lambda>r. fst r = n) (md_realms (drop_rows n info (put_credentials n info d))) = []"
    "filter (\<lambda>r. acl_identity r = n) (md_acl (drop_rows n info (put_credentials n info d))) = []"
    "filter (\<lambda>r. fst r = n) (md_owner (drop_rows n info (put_credentials n info d))) = []"
    using drop_rows_gone [OF ok t n] by (cases "isNew info"; simp add: drop_rows_def)+
  have 1: "sel_realms n (updated n info d) = realms info"
    by (simp add: sel_realms_def updated_def with_names_def Let_def gone filter_map o_def)
  define e where "e = with_names info (drop_rows n info (put_credentials n info d))"
  have en: "md_methods e = md_methods (updated n info d)"
      "md_mechanisms e = md_mechanisms (updated n info d)" "md_tokens e = md_tokens (updated n info d)"
    by (simp_all add: e_def with_names_def)
  have rows_n: "filter (\<lambda>r. acl_identity r = n) (map (\<lambda>(m, k, t). acl_row_of n m k t e') es) =
      map (\<lambda>(m, k, t). acl_row_of n m k t e') es" for es e'
    by (auto simp: filter_id_conv acl_row_of_def)
  have "filter (\<lambda>r. acl_identity r = n) (md_acl (updated n info d)) =
      map (\<lambda>(m, k, t). acl_row_of n m k t e) (acl_entries (info_methods info) (info_acl info))"
    by (simp add: updated_def Let_def e_def with_names_def gone rows_n)
  then have 2: "map (acl_names (updated n info d))
      (filter (\<lambda>r. acl_identity r = n) (md_acl (updated n info d))) = vw_entries (info_view info)"
    using acl_names_inserted [OF ok _ en] by (auto simp: info_view_def)
  have "filter (\<lambda>r. fst r = n) (md_owner (updated n info d)) =
      map (\<lambda>t. (n, nt_id (md_tokens (updated n info d)) t))
        (filter (\<lambda>t. \<not> qisEmpty t) (info_owners info))"
    by (simp add: updated_def Let_def with_names_def gone filter_map o_def)
  then have 3: "map (nt_name (md_tokens (updated n info d)) \<circ> snd)
      (filter (\<lambda>r. fst r = n) (md_owner (updated n info d))) = vw_owners (info_view info)"
    using owner_name_inserted [OF ok] by (auto simp: info_view_def simp del: updated_fields)
  show ?thesis
    using sel_credentials_put [OF ok t n, of n]
    unfolding view_of_def 0 1 2 3 by (simp add: info_view_def)
qed

lemma view_updated:
  assumes "meta_ok d" and "target_ok info d"
  shows "view_of (updated (target info d) info d) = (view_of d)(target info d \<mapsto> info_view info)"
  using view_updated_same [OF assms refl] view_updated_other [OF assms refl] by (auto simp: fun_eq_iff)

section \<open>Reading back\<close>

lemma nt_name_iff: "nt_ok t \<Longrightarrow> nt_name t (Some i) = Some s \<longleftrightarrow> (i, s) \<in> set (nt_rows t)"
  by (simp add: nt_name_def nt_ok_def nt_ids_def)

lemma set_sel_acl_tokens:
  assumes "nt_ok (md_tokens d)"
  shows "t \<in> set (sel_acl_tokens n d) \<longleftrightarrow>
    (\<exists>r \<in> set (md_acl d). acl_identity r = n \<and> snd (snd (acl_names d r)) = Some t)"
proof -
  have "snd (snd (acl_names d r)) = Some t \<longleftrightarrow>
      (\<exists>i. acl_token r = Some i \<and> (i, t) \<in> set (nt_rows (md_tokens d)))" for r
    using nt_name_iff [OF assms] by (cases "acl_token r") (auto simp: acl_names_def nt_name_def)
  then show ?thesis by (force simp: sel_acl_tokens_def)
qed

lemma set_sel_owner_tokens:
  assumes "nt_ok (md_tokens d)"
  shows "t \<in> set (sel_owner_tokens n d) \<longleftrightarrow>
    (\<exists>r \<in> set (md_owner d). fst r = n \<and> nt_name (md_tokens d) (snd r) = Some t)"
proof -
  have "nt_name (md_tokens d) ref = Some t \<longleftrightarrow>
      (\<exists>i. ref = Some i \<and> (i, t) \<in> set (nt_rows (md_tokens d)))" for ref
    using nt_name_iff [OF assms] by (cases ref) (auto simp: nt_name_def)
  then show ?thesis by (force simp: sel_owner_tokens_def)
qed

lemma set_sel_acl_methods:
  assumes "nt_ok (md_methods d)"
  shows "m \<in> snd ` set (sel_acl_methods n d) \<longleftrightarrow>
    (\<exists>r \<in> set (md_acl d). acl_identity r = n \<and> fst (acl_names d r) = Some m)"
proof -
  have "fst (acl_names d r) = Some m \<longleftrightarrow>
      (\<exists>i. acl_method r = Some i \<and> (i, m) \<in> set (nt_rows (md_methods d)))" for r
    using nt_name_iff [OF assms] by (cases "acl_method r") (auto simp: acl_names_def nt_name_def)
  then show ?thesis by (force simp: sel_acl_methods_def)
qed

lemma set_sel_mechanisms:
  assumes "nt_ok (md_methods d)" and "nt_ok (md_mechanisms d)" and "(i, m) \<in> set (nt_rows (md_methods d))"
    and "m \<noteq> QNull"
  shows "k \<in> set (sel_mechanisms (int i) n d) \<longleftrightarrow>
    (\<exists>r \<in> set (md_acl d). acl_identity r = n \<and> fst (acl_names d r) = Some m
       \<and> fst (snd (acl_names d r)) = Some k)"
proof -
  have "fst (acl_names d r) = Some m \<longleftrightarrow> acl_method r = Some i" for r
  proof (cases "acl_method r")
    case (Some j)
    have "(j, m) \<in> set (nt_rows (md_methods d)) \<longleftrightarrow> j = i"
      using nt_id_iff [OF assms(1), of m j] nt_id_iff [OF assms(1), of m i] assms(3,4) by auto
    with Some nt_name_iff [OF assms(1)] show ?thesis by (simp add: acl_names_def)
  qed (simp add: acl_names_def nt_name_def)
  moreover have "fst (snd (acl_names d r)) = Some k \<longleftrightarrow>
      (\<exists>j. acl_mechanism r = Some j \<and> (j, k) \<in> set (nt_rows (md_mechanisms d)))" for r
    using nt_name_iff [OF assms(2)]
    by (cases "acl_mechanism r") (auto simp: acl_names_def nt_name_def)
  moreover have "map_option int (acl_method r) = Some (int i) \<longleftrightarrow> acl_method r = Some i" for r
    by (cases "acl_method r") auto
  ultimately show ?thesis
    by (force simp: sel_mechanisms_def)
qed

section \<open>Reading an identity\<close>

lemma identity_methods_good:
  "sq_io db = [] \<Longrightarrow> sq_error db = NoError \<Longrightarrow> identity_methods n rows ms db =
     (fold (\<lambda>(m, name). qm_insert (chars name) (sel_mechanisms (to_int (int m)) n (sq_data db))) rows ms, db)"
proof (induction rows arbitrary: ms)
  case (Cons p rows)
  have same: "db\<lparr>sq_error := NoError\<rparr> = db" using Cons.prems(2) by simp
  from Cons show ?case by (cases p) (simp add: queryList_good same)
qed simp

definition read_methods :: "nat \<Rightarrow> meta_data \<Rightarrow> method_map" where
  "read_methods n d =
     fold (\<lambda>(m, name). qm_insert (chars name) (sel_mechanisms (to_int (int m)) n d)) (sel_acl_methods n d) []"

definition read_info :: "nat \<Rightarrow> meta_data \<Rightarrow> cred_row \<Rightarrow> identity_info" where
  "read_info n d row =
     (let secret = (cr_flags row AND FLAG_UserNameIsSecret \<noteq> 0) in
      setUserNameSecret secret (setValidated (cr_flags row AND FLAG_Validated \<noteq> 0) (setRefCount 0
        (setType (cr_type row) (setOwnerList (sel_owner_tokens n d) (setAccessControlList (sel_acl_tokens n d)
          (setRealms (sel_realms n d) (setMethods (read_methods n d) (setCaption (cr_caption row)
            (setStorePassword (cr_flags row AND FLAG_RememberPassword \<noteq> 0)
              (if secret then setId n [] else setUserName (cr_username row) (setId n []))))))))))))"

lemma meta_identity_good:
  assumes "sq_io db = []"
  shows "meta_identity n db = (case sel_credentials n (sq_data db) of
      None \<Rightarrow> ([], db\<lparr>sq_error := NoError\<rparr>)
    | Some row \<Rightarrow> (read_info n (sq_data db) row, db\<lparr>sq_error := NoError\<rparr>))"
  using assms
  by (simp add: meta_identity_def query_good queryList_good identity_methods_good read_info_def
      read_methods_def Let_def split: option.splits)

lemma read_info_fields:
  "info_id (read_info n d row) = n"
  "caption (read_info n d row) = cr_caption row"
  "userName (read_info n d row) = (if isUserNameSecret (read_info n d row) then QNull else cr_username row)"
  "isUserNameSecret (read_info n d row) = (cr_flags row AND FLAG_UserNameIsSecret \<noteq> 0)"
  "storePassword (read_info n d row) = (cr_flags row AND FLAG_RememberPassword \<noteq> 0)"
  "validated (read_info n d row) = (cr_flags row AND FLAG_Validated \<noteq> 0)"
  "realms (read_info n d row) = sel_realms n d"
  "info_type (read_info n d row) = cr_type row"
  "info_acl (read_info n d row) = sel_acl_tokens n d"
  "info_owners (read_info n d row) = sel_owner_tokens n d"
  "info_methods (read_info n d row) = read_methods n d"
  by (simp_all add: read_info_def info_set_defs info_get_defs Let_def del: qm_insert.simps)

lemma info_flags_bits:
  "(info_flags info AND FLAG_UserNameIsSecret \<noteq> 0) = isUserNameSecret info"
  "(info_flags info AND FLAG_RememberPassword \<noteq> 0) = storePassword info"
  "(info_flags info AND FLAG_Validated \<noteq> 0) = validated info"
  by (auto simp: info_flags_def Let_def FLAG_UserNameIsSecret_def FLAG_RememberPassword_def
      FLAG_Validated_def)

text \<open>The rows of an identity, found again through its view.\<close>

lemma view_entries:
  assumes "view_of d n = Some v"
  shows "set (vw_entries v) = acl_names d ` {r \<in> set (md_acl d). acl_identity r = n}"
    and "set (vw_owners v) = (nt_name (md_tokens d) \<circ> snd) ` {r \<in> set (md_owner d). fst r = n}"
  using assms by (clarsimp simp: view_of_def)+

lemma acl_entries_iff:
  "(m, k, t) \<in> set (acl_entries ms acl) \<longleftrightarrow>
     (\<exists>(name, mechs) \<in> set ms. m = Some (QStr name)
        \<and> (if mechs = [] then k = None else k \<in> Some ` set mechs)
        \<and> (if acl = [] then t = None else t \<in> Some ` set acl))
   \<or> ms = [] \<and> m = None \<and> k = None \<and> t \<in> Some ` set acl"
proof -
  have "(m, k, t) \<in> set (if acl \<noteq> [] then
          concat (map (\<lambda>token.
            map (\<lambda>mech. (Some (QStr name), Some mech, Some token)) mechs
            @ (if mechs = [] then [(Some (QStr name), None, Some token)] else [])) acl)
        else
          map (\<lambda>mech. (Some (QStr name), Some mech, None)) mechs
          @ (if mechs = [] then [(Some (QStr name), None, None)] else [])) \<longleftrightarrow>
      m = Some (QStr name)
        \<and> (if mechs = [] then k = None else k \<in> Some ` set mechs)
        \<and> (if acl = [] then t = None else t \<in> Some ` set acl)" for name mechs
    by (cases "acl = []"; cases "mechs = []") auto
  note body = this
  have ex: "e \<in> set (concat (map (\<lambda>(name, mechs). F name mechs) ms)) \<longleftrightarrow>
      (\<exists>(name, mechs) \<in> set ms. e \<in> set (F name mechs))" for e and F :: "string \<Rightarrow> qstring list \<Rightarrow> 'e list"
    by auto
  show ?thesis
    unfolding acl_entries_def set_append Un_iff ex body by auto
qed

lemma acl_entries_I:
  assumes "(name, mechs) \<in> set ms" and "if mechs = [] then k = None else k \<in> Some ` set mechs"
    and "if acl = [] then t = None else t \<in> Some ` set acl"
  shows "(Some (QStr name), k, t) \<in> set (acl_entries ms acl)"
  unfolding acl_entries_iff by (intro disjI1 bexI [OF _ assms(1)]) (simp add: assms(2,3))

lemma ex_mechs: "\<exists>k. if mechs = [] then k = None else k \<in> Some ` set mechs"
  by (cases mechs) auto

lemma acl_entries_tokens:
  "(\<exists>m k. (m, k, Some t) \<in> set (acl_entries ms acl)) \<longleftrightarrow> t \<in> set acl"
proof
  assume t: "t \<in> set acl"
  show "\<exists>m k. (m, k, Some t) \<in> set (acl_entries ms acl)"
  proof (cases ms)
    case (Cons p ms')
    obtain k where "if snd p = [] then k = None else k \<in> Some ` set (snd p)" using ex_mechs by blast
    moreover have "(fst p, snd p) \<in> set ms" using Cons by simp
    moreover have "if acl = [] then Some t = None else Some t \<in> Some ` set acl"
      using t by (cases acl) auto
    ultimately show ?thesis using acl_entries_I by blast
  qed (use t in \<open>simp add: acl_entries_iff\<close>)
qed (auto simp: acl_entries_iff split: if_splits)

lemma acl_entries_methods:
  "(\<exists>k t. (Some x, k, t) \<in> set (acl_entries ms acl)) \<longleftrightarrow> x \<in> QStr ` fst ` set ms"
proof
  assume "x \<in> QStr ` fst ` set ms"
  then obtain name mechs where m: "(name, mechs) \<in> set ms" "x = QStr name" by auto
  obtain k t where "if mechs = [] then k = None else k \<in> Some ` set mechs"
      "if acl = [] then t = None else t \<in> Some ` set acl"
    using ex_mechs by metis
  with m acl_entries_I [OF m(1)] show "\<exists>k t. (Some x, k, t) \<in> set (acl_entries ms acl)"
    by blast
next
  assume "\<exists>k t. (Some x, k, t) \<in> set (acl_entries ms acl)"
  then obtain k t where "(Some x, k, t) \<in> set (acl_entries ms acl)" by blast
  then obtain name mechs where "(name, mechs) \<in> set ms" "x = QStr name"
    unfolding acl_entries_iff by auto
  then show "x \<in> QStr ` fst ` set ms" by force
qed

lemma acl_entries_mechanisms:
  assumes "qm_wf ms" and "map_of ms m = Some mechs"
  shows "(\<exists>t. (Some (QStr m), Some k, t) \<in> set (acl_entries ms acl)) \<longleftrightarrow> k \<in> set mechs"
proof
  assume k: "k \<in> set mechs"
  obtain t where "if acl = [] then t = None else t \<in> Some ` set acl"
    using ex_mechs by metis
  moreover have "if mechs = [] then Some k = None else Some k \<in> Some ` set mechs"
    using k by (cases mechs) auto
  ultimately show "\<exists>t. (Some (QStr m), Some k, t) \<in> set (acl_entries ms acl)"
    using acl_entries_I [OF map_of_SomeD [OF assms(2)]] by blast
next
  assume "\<exists>t. (Some (QStr m), Some k, t) \<in> set (acl_entries ms acl)"
  then obtain ks where "(m, ks) \<in> set ms" "k \<in> set ks"
    unfolding acl_entries_iff by (auto split: if_splits)
  moreover have "(m, mechs) \<in> set ms" using assms(2) by (rule map_of_SomeD)
  ultimately show "k \<in> set mechs"
    using qm_wf_distinct [OF assms(1)] by (metis eq_key_imp_eq_value)
qed

lemma nt_seq_inserts: "nt_seq (nt_inserts ns t) = nt_seq t + length ns"
  by (induction ns arbitrary: t) (auto simp: nt_insert_or_ignore_def)

lemma sel_acl_methods_rows: "set (sel_acl_methods n d) \<subseteq> set (nt_rows (md_methods d))"
  by (auto simp: sel_acl_methods_def)

lemma distinct_filter_map_filter:
  "distinct (filter P (map f xs)) \<Longrightarrow> distinct (filter P (map f (filter Q xs)))"
  by (induction xs) auto

lemma read_methods_lookup:
  assumes ok: "nt_ok (md_methods d)" and str: "QNull \<notin> snd ` set (sel_acl_methods n d)"
  shows "map_of (read_methods n d) x = Some ks \<longleftrightarrow>
    (\<exists>i. (i, QStr x) \<in> set (sel_acl_methods n d) \<and> ks = sel_mechanisms (to_int (int i)) n d)"
proof -
  let ?rows = "sel_acl_methods n d"
  let ?xs = "map (\<lambda>(i, name). (chars name, sel_mechanisms (to_int (int i)) n d)) ?rows"
  have inj: "chars a = chars b \<longleftrightarrow> a = b" if "a \<in> snd ` set ?rows" "b \<in> snd ` set ?rows" for a b
    using str that by (cases a; cases b) auto
  have "distinct (filter (\<lambda>n. n \<noteq> QNull) (map snd ?rows))"
    using ok by (simp add: nt_ok_def sel_acl_methods_def distinct_filter_map_filter)
  moreover have "filter (\<lambda>n. n \<noteq> QNull) (map snd ?rows) = map snd ?rows"
    using str by (force simp: filter_id_conv)
  moreover have "inj_on chars (set (map snd ?rows))"
    by (rule inj_onI) (simp only: set_map inj)
  ultimately have "distinct (map chars (map snd ?rows))"
    by (simp only: distinct_map [of chars "map snd ?rows"])
  moreover have "map fst ?xs = map chars (map snd ?rows)" by auto
  ultimately have d: "distinct (map fst ?xs)" by (simp only:)
  have "read_methods n d = fold (\<lambda>(k, v). qm_insert k v) ?xs []"
    by (simp add: read_methods_def fold_map comp_def split_def)
  then have "map_of (read_methods n d) = map_of (rev ?xs)"
    using qmap.lookup_fold_ins [of ?xs "[]"] by simp
  also have "\<dots> = map_of ?xs"
    using d by (intro map_of_inject_set [THEN iffD2]) (simp_all add: rev_map [symmetric])
  finally have "map_of (read_methods n d) x = Some ks \<longleftrightarrow> (x, ks) \<in> set ?xs"
    using d by simp
  also have "\<dots> \<longleftrightarrow> (\<exists>i name. (i, name) \<in> set ?rows \<and> x = chars name
      \<and> ks = sel_mechanisms (to_int (int i)) n d)"
    by auto
  also have "\<dots> \<longleftrightarrow> (\<exists>i. (i, QStr x) \<in> set ?rows \<and> ks = sel_mechanisms (to_int (int i)) n d)"
  proof -
    have "name = QStr (chars name)" if "(i, name) \<in> set ?rows" for i name
      using str that by (cases name) force+
    then show ?thesis by (metis chars.simps(2))
  qed
  finally show ?thesis .
qed

text \<open>What is read of an identity whose view is known.\<close>

lemma norm_Some: "norm m = Some x \<longleftrightarrow> m = Some x \<and> x \<noteq> QNull"
  by (auto simp: norm_def)

lemma view_entry_ex:
  "(\<exists>e \<in> set (vw_entries (info_view info)). P e) \<longleftrightarrow>
     (\<exists>(m, k, t) \<in> set (acl_entries (info_methods info) (info_acl info)). P (norm m, norm k, norm t))"
  by (auto simp: info_view_def split_beta)

lemma read_acl_owners:
  assumes "meta_ok d" and "view_of d n = Some (info_view info)"
  shows "set (sel_acl_tokens n d) = set (info_acl info) - {QNull}"
    and "set (sel_owner_tokens n d) = {t \<in> set (info_owners info). \<not> qisEmpty t}"
proof -
  have ok: "nt_ok (md_tokens d)" using assms(1) by (simp add: meta_ok_def)
  have "t \<in> set (sel_acl_tokens n d) \<longleftrightarrow> (\<exists>e \<in> set (vw_entries (info_view info)). snd (snd e) = Some t)" for t
    unfolding set_sel_acl_tokens [OF ok] view_entries(1) [OF assms(2)] by auto
  also have "\<dots> t \<longleftrightarrow> t \<noteq> QNull \<and> (\<exists>m k. (m, k, Some t) \<in> set (acl_entries (info_methods info) (info_acl info)))" for t
    unfolding view_entry_ex by (auto simp: norm_Some)
  finally show "set (sel_acl_tokens n d) = set (info_acl info) - {QNull}"
    by (auto simp: acl_entries_tokens)
  have "t \<in> set (sel_owner_tokens n d) \<longleftrightarrow> Some t \<in> set (vw_owners (info_view info))" for t
    unfolding set_sel_owner_tokens [OF ok] view_entries(2) [OF assms(2)]
    by force
  then show "set (sel_owner_tokens n d) = {t \<in> set (info_owners info). \<not> qisEmpty t}"
    by (simp add: info_view_def set_eq_iff image_iff del: qisEmpty_simps)
qed

lemma read_methods_view:
  assumes ok: "meta_ok d" and v: "view_of d n = Some (info_view info)"
    and wf: "qm_wf (info_methods info)" and small: "nt_seq (md_methods d) < 2147483648"
  shows "map_option set (map_of (read_methods n d) m) =
    map_option (\<lambda>ks. set ks - {QNull}) (map_of (info_methods info) m)"
proof -
  let ?es = "acl_entries (info_methods info) (info_acl info)"
  have nt: "nt_ok (md_methods d)" "nt_ok (md_mechanisms d)"
    using ok by (simp_all add: meta_ok_def)
  have meth: "x \<in> snd ` set (sel_acl_methods n d) \<longleftrightarrow> x \<in> QStr ` fst ` set (info_methods info)" for x
  proof -
    have "x \<in> snd ` set (sel_acl_methods n d) \<longleftrightarrow> (\<exists>e \<in> set (vw_entries (info_view info)). fst e = Some x)"
      unfolding set_sel_acl_methods [OF nt(1)] view_entries(1) [OF v] by auto
    also have "\<dots> \<longleftrightarrow> x \<noteq> QNull \<and> (\<exists>k t. (Some x, k, t) \<in> set ?es)"
      unfolding view_entry_ex by (auto simp: norm_Some)
    finally show ?thesis unfolding acl_entries_methods by auto
  qed
  then have str: "QNull \<notin> snd ` set (sel_acl_methods n d)" by auto
  show ?thesis
  proof (cases "map_of (info_methods info) m")
    case None
    then have "QStr m \<notin> snd ` set (sel_acl_methods n d)"
      unfolding meth by (auto simp: map_of_eq_None_iff)
    then have "(i, QStr m) \<notin> set (sel_acl_methods n d)" for i
      by (metis image_eqI snd_conv)
    then have "map_of (read_methods n d) m \<noteq> Some ks" for ks
      unfolding read_methods_lookup [OF nt(1) str] by blast
    then have "map_of (read_methods n d) m = None" by blast
    with None show ?thesis by simp
  next
    case (Some mechs)
    then have "QStr m \<in> snd ` set (sel_acl_methods n d)"
      unfolding meth using map_of_SomeD [of _ m mechs] by (metis fst_conv image_eqI)
    then obtain i where i: "(i, QStr m) \<in> set (sel_acl_methods n d)" by auto
    then have row: "(i, QStr m) \<in> set (nt_rows (md_methods d))" using sel_acl_methods_rows by blast
    then have "i \<le> nt_seq (md_methods d)" using nt(1) by (auto simp: nt_ok_def nt_ids_def)
    with small have "to_int (int i) = int i" by (intro to_int_small) auto
    with i have r: "map_of (read_methods n d) m = Some (sel_mechanisms (int i) n d)"
      unfolding read_methods_lookup [OF nt(1) str] by metis
    have "k \<in> set (sel_mechanisms (int i) n d) \<longleftrightarrow>
        (\<exists>e \<in> set (vw_entries (info_view info)). fst e = Some (QStr m) \<and> fst (snd e) = Some k)" for k
      unfolding set_sel_mechanisms [OF nt row qstring.distinct(2)] view_entries(1) [OF v] by auto
    also have "\<dots> k \<longleftrightarrow> k \<noteq> QNull \<and> (\<exists>t. (Some (QStr m), Some k, t) \<in> set ?es)" for k
      unfolding view_entry_ex by (auto simp: norm_Some)
    finally have "set (sel_mechanisms (int i) n d) = set mechs - {QNull}"
      unfolding acl_entries_mechanisms [OF wf Some] by auto
    with r Some show ?thesis by simp
  qed
qed

end
