(* ===== verification/Meta_Properties.thy ===== *)
theory Meta_Properties
  imports Meta_Refinement
begin

text \<open>
  Any sequence of operations on the metadata database, its creation and upgrade, the round
  trip of an identity through it, and the removal of identities.
\<close>

section \<open>Sequences of operations\<close>

datatype meta_op =
    M_insertMethod qstring
  | M_updateIdentity identity_info
  | M_removeIdentity nat
  | M_clear
  | M_addReference nat qstring qstring
  | M_removeReference nat qstring qstring
  | M_identity nat
  | M_identities
  | M_methods nat qstring
  | M_methodId qstring
  | M_accessControlList nat
  | M_ownerList nat
  | M_references nat qstring

fun meta_step :: "meta_op \<Rightarrow> meta_db \<Rightarrow> meta_db" where
  "meta_step (M_insertMethod m) db = snd (snd (insertMethod m db))"
| "meta_step (M_updateIdentity i) db = snd (meta_updateIdentity i db)"
| "meta_step (M_removeIdentity n) db = snd (meta_removeIdentity n db)"
| "meta_step M_clear db = snd (meta_clear db)"
| "meta_step (M_addReference n t r) db = snd (meta_addReference n t r db)"
| "meta_step (M_removeReference n t r) db = snd (meta_removeReference n t r db)"
| "meta_step (M_identity n) db = snd (meta_identity n db)"
| "meta_step M_identities db = snd (meta_identities db)"
| "meta_step (M_methods n t) db = snd (meta_methods n t db)"
| "meta_step (M_methodId m) db = snd (methodId m db)"
| "meta_step (M_accessControlList n) db = snd (meta_accessControlList n db)"
| "meta_step (M_ownerList n) db = snd (meta_ownerList n db)"
| "meta_step (M_references n t) db = snd (meta_references n t db)"

definition meta_run :: "meta_op list \<Rightarrow> meta_db \<Rightarrow> meta_db" where
  "meta_run ops db = fold meta_step ops db"

lemma inv_meta_step: "db_inv meta_ok db \<Longrightarrow> db_inv meta_ok (meta_step op db)"
  by (cases op)
     (simp_all add: inv_insertMethod inv_updateIdentity inv_removeIdentity inv_clear inv_addReference
       inv_removeReference inv_identity inv_identities inv_methods inv_methodId db_inv_queryList
       meta_accessControlList_def meta_ownerList_def meta_references_def)

lemma inv_meta_run: "db_inv meta_ok db \<Longrightarrow> db_inv meta_ok (meta_run ops db)"
  unfolding meta_run_def by (induction ops arbitrary: db) (simp_all add: inv_meta_step)

section \<open>No transaction stays open\<close>

lemma closed_rollback [simp]: "sq_saved (sql_rollback db) = None"
  by (simp add: sql_rollback_def undo_def split: option.splits)

lemma closed_exec: "sq_saved db = None \<Longrightarrow> sq_saved (sql_exec st db) = None"
  unfolding sql_op_defs by (auto split: sql_splits)

lemma closed_query: "sq_saved db = None \<Longrightarrow> sql_query q db = (r, db') \<Longrightarrow> sq_saved db' = None"
  unfolding sql_op_defs by (auto split: sql_splits)

lemma closed_queryList: "sq_saved db = None \<Longrightarrow> queryList q db = (r, db') \<Longrightarrow> sq_saved db' = None"
  by (auto simp: queryList_def dest: closed_query split: prod.splits option.splits)

lemma closed_queryList_snd: "sq_saved db = None \<Longrightarrow> sq_saved (snd (queryList q db)) = None"
  using closed_queryList by (cases "queryList q db") auto

lemma closed_commit: "sql_commit db = (True, db') \<Longrightarrow> sq_saved db' = None"
  unfolding sql_op_defs by (auto split: sql_splits)

lemma closed_start: "sq_saved db = None \<Longrightarrow> startTransaction db = (False, db') \<Longrightarrow> sq_saved db' = None"
  by (auto dest: start_effect)

lemma closed_identity_methods:
  "sq_saved db = None \<Longrightarrow> identity_methods n rows ms db = (m, db') \<Longrightarrow> sq_saved db' = None"
  by (induction n rows ms db rule: identity_methods.induct)
     (auto dest: closed_queryList split: prod.splits)

lemma closed_identity:
  assumes "sq_saved db = None" and "meta_identity n db = (i, db')"
  shows "sq_saved db' = None"
proof -
  obtain v db0 where 0: "sql_query (sel_credentials n) db = (v, db0)" by force
  obtain l1 db1 where 1: "queryList (sel_realms n) db0 = (l1, db1)" by force
  obtain l2 db2 where 2: "queryList (sel_owner_tokens n) db1 = (l2, db2)" by force
  obtain l3 db3 where 3: "queryList (sel_acl_tokens n) db2 = (l3, db3)" by force
  obtain l4 db4 where 4: "queryList (sel_acl_methods n) db3 = (l4, db4)" by force
  obtain l5 db5 where 5: "identity_methods n l4 [] db4 = (l5, db5)" by force
  have c0: "sq_saved db0 = None" by (rule closed_query [OF assms(1) 0])
  then have c5: "sq_saved db5 = None"
    using closed_queryList 1 2 3 4 closed_identity_methods 5 by metis
  have "db' \<in> {db0, db5}"
    using assms(2) by (auto simp: meta_identity_def Let_def 0 1 2 3 4 5 split: option.splits)
  with c0 c5 show ?thesis by auto
qed

lemma closed_identities_loop:
  "sq_saved db = None \<Longrightarrow> sq_saved (snd (identities_loop ns db)) = None"
proof (induction ns arbitrary: db)
  case (Cons n ns)
  obtain i db1 where 1: "meta_identity (to_uint (int n)) db = (i, db1)" by force
  with Cons.IH [of db1] closed_identity [OF Cons.prems 1] show ?case
    by (simp add: Let_def split: prod.splits) (metis snd_conv)
qed simp

lemma closed_updateIdentity:
  assumes "sq_saved db = None"
  shows "sq_saved (snd (meta_updateIdentity info db)) = None"
proof -
  obtain b db1 where 1: "startTransaction db = (b, db1)" by force
  obtain n db2 where 2: "meta_updateCredentials info db1 = (n, db2)" by force
  define db3 where "db3 = insertMethods (info_methods info) db2"
  obtain ok db4 where 4: "updateRealms n (realms info) (isNew info) db3 = (ok, db4)" by force
  define db5 where "db5 = exec_all (owner_inserts n info) (exec_all (acl_inserts n info)
    (exec_all (acl_owner_deletes info) (exec_all (token_inserts info) db4)))"
  obtain c db6 where 6: "sql_commit db5 = (c, db6)" by force
  have "snd (meta_updateIdentity info db) \<in> {sql_rollback db2, sql_rollback db4, sql_rollback db6}
      \<union> (if b then {} else {db1}) \<union> (if c then {db6} else {})"
    by (simp add: meta_updateIdentity_def Let_def 1 2 4 6 flip: db3_def db5_def)
  with closed_start [OF assms] closed_commit [of db5] 1 6 show ?thesis
    by (auto split: if_splits)
qed

lemma closed_addReference:
  assumes "sq_saved db = None"
  shows "sq_saved (snd (meta_addReference n t r db)) = None"
proof -
  obtain b db1 where 1: "startTransaction db = (b, db1)" by force
  define db3 where "db3 = sql_exec (st_insert_ref n t r) (sql_exec (st_ignore_token t) db1)"
  obtain c db4 where 4: "sql_commit db3 = (c, db4)" by force
  have "snd (meta_addReference n t r db) \<in>
      {sql_rollback db4, sql_rollback db3} \<union> (if b then {} else {db1}) \<union> (if c then {db4} else {})"
    by (simp add: meta_addReference_def Let_def 1 4 flip: db3_def)
  with closed_start [OF assms] closed_commit [of db3] 1 4 show ?thesis
    by (auto split: if_splits)
qed

lemma closed_removeReference:
  assumes "sq_saved db = None"
  shows "sq_saved (snd (meta_removeReference n t r db)) = None"
proof -
  obtain rs db0 where 0: "meta_references n t db = (rs, db0)" by force
  obtain b db1 where 1: "startTransaction db0 = (b, db1)" by force
  define db2 where
    "db2 = sql_exec (st_delete_refs n t (if qisEmpty r then None else Some r)) db1"
  obtain c db3 where 3: "sql_commit db2 = (c, db3)" by force
  have c0: "sq_saved db0 = None"
    using 0 closed_queryList [OF assms] by (auto simp: meta_references_def split: if_splits)
  have "snd (meta_removeReference n t r db) \<in> {db0, sql_rollback db2, sql_rollback db3}
      \<union> (if b then {} else {db1}) \<union> (if c then {db3} else {})"
    by (simp add: meta_removeReference_def Let_def 0 1 3 flip: db2_def)
  with c0 closed_start [OF c0] closed_commit [of db2] 1 3 show ?thesis
    by (auto split: if_splits)
qed

lemma closed_transactionalExec:
  "sq_saved db = None \<Longrightarrow> sq_saved (snd (transactionalExec sts db)) = None"
  using transactionalExec_atomic [of db sts] by (cases "transactionalExec sts db") auto

lemma closed_meta_step: "sq_saved db = None \<Longrightarrow> sq_saved (meta_step op db) = None"
proof (cases op)
  case (M_identity n)
  then show "sq_saved db = None \<Longrightarrow> ?thesis"
    using closed_identity by (cases "meta_identity n db") auto
next
  case M_identities
  then show "sq_saved db = None \<Longrightarrow> ?thesis"
    by (auto simp: meta_identities_def closed_identities_loop dest: closed_query
        split: prod.splits option.splits)
qed (auto simp: insertMethod_def Let_def closed_exec closed_queryList_snd closed_updateIdentity closed_addReference
      closed_removeReference meta_removeIdentity_def meta_clear_def closed_transactionalExec
      meta_methods_def methodId_def meta_accessControlList_def meta_ownerList_def meta_references_def
      dest: closed_query closed_queryList split: prod.splits option.splits)

lemma closed_meta_run: "sq_saved db = None \<Longrightarrow> sq_saved (meta_run ops db) = None"
  unfolding meta_run_def by (induction ops arbitrary: db) (simp_all add: closed_meta_step)

section \<open>A fresh database\<close>

lemma create_loop_effect:
  "create_loop objs db = (True, db') \<Longrightarrow> sq_saved db = None \<Longrightarrow>
     sq_saved db' = None \<and> sq_data db' = sq_data db\<lparr>md_objects := md_objects (sq_data db) @ objs\<rparr>"
proof (induction objs arbitrary: db)
  case (Cons obj objs)
  define db1 where "db1 = sql_exec (st_create obj) db"
  have ok: "\<not> errorOccurred db1" using Cons.prems by (auto simp: db1_def Let_def split: if_splits)
  obtain c db2 where 2: "sql_commit db1 = (c, db2)" by force
  from ok have 1: "sq_data db1 = sq_data db\<lparr>md_objects := md_objects (sq_data db) @ [obj]\<rparr>"
      "sq_saved db1 = None"
    using exec_ok_effect [of "st_create obj" db] Cons.prems(2)
    by (auto simp: db1_def st_create_def split: if_splits)
  have "sq_saved db2 = None \<and> sq_data db2 = sq_data db1"
    using 2 1(2) unfolding sql_op_defs by (auto split: sql_splits)
  moreover have "create_loop objs db2 = (True, db')"
    using Cons.prems(1) ok 2 by (simp add: Let_def flip: db1_def)
  ultimately show ?case using Cons.IH [of db2] 1 by simp
qed simp

text \<open>Without failures, objects are created if no name is taken and every trigger finds its table.\<close>

fun creatable :: "meta_obj list \<Rightarrow> meta_obj list \<Rightarrow> bool" where
  "creatable [] present \<longleftrightarrow> True"
| "creatable (obj # objs) present \<longleftrightarrow> obj \<notin> set present
     \<and> (obj_table obj = obj \<or> obj_table obj \<in> set present) \<and> creatable objs (present @ [obj])"

lemma create_loop_good:
  "sq_io db = [] \<Longrightarrow> sq_saved db = None \<Longrightarrow> sq_error db = NoError \<Longrightarrow>
     creatable objs (md_objects (sq_data db)) \<Longrightarrow> create_loop objs db =
     (True, db\<lparr>sq_data := sq_data db\<lparr>md_objects := md_objects (sq_data db) @ objs\<rparr>\<rparr>)"
proof (induction objs arbitrary: db)
  case (Cons obj objs)
  let ?d = "sq_data db\<lparr>md_objects := md_objects (sq_data db) @ [obj]\<rparr>"
  have "st_create obj (sq_data db) = Done ?d"
    using Cons.prems(4) by (auto simp: st_create_def has_def)
  then have e: "sql_exec (st_create obj) db = db\<lparr>sq_data := ?d\<rparr>"
    using Cons.prems by (simp add: exec_good)
  have "sql_commit (db\<lparr>sq_data := ?d\<rparr>) = (False, db\<lparr>sq_data := ?d\<rparr>)"
    using Cons.prems by (simp add: sql_commit_def next_io_def)
  with e Cons.IH [of "db\<lparr>sq_data := ?d\<rparr>"] Cons.prems show ?case
    by (simp add: Let_def errorOccurred_def)
qed simp

lemma creatable_code: "creatable createTableQuery []"
  "creatable tableUpdates2 (create_base_tables @ create_realms_acl_triggers @ create_refs_triggers)"
  by code_simp+

lemma names_empty_ok [simp]: "nt_ok empty_names"
  by (simp add: nt_ok_def nt_ids_def empty_names_def)

lemma fresh_meta_ok:
  "set createTableQuery \<subseteq> set objs \<Longrightarrow>
     meta_ok (empty_meta\<lparr>md_objects := objs, md_version := v\<rparr>)"
  "set createTableQuery \<subseteq> set objs \<Longrightarrow> meta_ok (empty_meta\<lparr>md_objects := objs\<rparr>)"
  by (simp_all add: meta_ok_def schema_ok_def creds_ok_def rows_ok_def cred_ids_def empty_meta_def)

lemma connect_effect:
  "sql_connect db = (b, db') \<Longrightarrow> sq_data db' = sq_data db \<and> sq_saved db' = sq_saved db"
  unfolding sql_op_defs by (auto split: sql_splits)

lemma init_fresh:
  assumes "sq_data db = empty_meta" and "sq_saved db = None" and "meta_init db = (True, db')"
  shows "db_inv meta_ok db' \<and> sq_saved db' = None"
proof -
  obtain c db1 where 1: "sql_connect db = (c, db1)" by force
  note e1 = connect_effect [OF 1]
  have h: "\<not> meta_hasTables (sq_data db1)"
    using assms(1) e1 by (simp add: meta_hasTables_def empty_meta_def)
  have c: c
    using assms(3) 1 by (cases c) (simp_all add: meta_init_def sql_init_def)
  obtain ok db2 where 2: "create_loop createTableQuery db1 = (ok, db2)" by force
  have init: "meta_init db = (if ok then (True, sql_exec (st_set_version META_VERSION) db2) else (False, db2))"
    using c h by (simp add: meta_init_def sql_init_def 1 meta_createTables_def 2 base_updateDB_def)
  then have ok: ok and db': "db' = sql_exec (st_set_version META_VERSION) db2"
    using assms(3) by (cases ok; simp)+
  have e2: "sq_saved db2 = None \<and>
      sq_data db2 = sq_data db1\<lparr>md_objects := md_objects (sq_data db1) @ createTableQuery\<rparr>"
    by (rule create_loop_effect) (use 2 ok e1 assms in auto)
  then have "meta_ok (sq_data db2)"
    using e1 assms by (simp add: fresh_meta_ok)
  with e2 have "db_inv meta_ok db2" by (simp add: db_inv_def)
  then have "db_inv meta_ok db'"
    unfolding db' by (rule db_inv_exec) (rule pres_version)
  with e2 show ?thesis by (simp add: db' closed_exec)
qed

lemma find_removed:
  "List.find (\<lambda>r. cr_id r = m) (filter (\<lambda>r. cr_id r \<noteq> n) rs) =
     (if m = n then None else List.find (\<lambda>r. cr_id r = m) rs)"
  by (induction rs) auto

section \<open>Examples\<close>

definition fresh_db :: "outcome list \<Rightarrow> meta_db" where
  "fresh_db io = \<lparr>sq_data = empty_meta, sq_saved = None, sq_error = NoError, sq_io = io\<rparr>"

definition sample_db :: meta_db where
  "sample_db = \<lparr>sq_data = empty_meta\<lparr>md_objects := createTableQuery, md_version := META_VERSION\<rparr>,
     sq_saved = None, sq_error = NoError, sq_io = []\<rparr>"

definition sample_info :: identity_info where
  "sample_info =
     setOwnerList [QStr ''app'', QStr []] (setAccessControlList [QStr ''app'', QNull]
       (setMethods [(''oauth2'', [QStr ''web'', QNull]), (''password'', [])]
         (setStorePassword True (setCaption (QStr ''mail'') (setUserName (QStr ''ann'') (setId 0 []))))))"

lemma sample_db_ok: "meta_ok (sq_data sample_db)" "sq_io sample_db = []" "sq_saved sample_db = None"
  by (simp_all add: sample_db_def fresh_meta_ok)

lemma sample_new: "isNew sample_info"
  by (simp add: sample_info_def info_set_defs isNew_def info_id_def NEW_IDENTITY_def qm_value_def)

lemma sample_target: "target_ok sample_info (sq_data sample_db)"
  "target sample_info (sq_data sample_db) = 1"
  by (simp_all add: target_ok_def target_def sample_new sample_db_def empty_meta_def)

lemma identity_read_back:
  assumes "sq_io db = []" and "sq_saved db = None" and "meta_ok (sq_data db)"
    and "target_ok info (sq_data db)" and "qm_wf (info_methods info)"
    and "nt_seq (md_methods (sq_data db)) + length (info_methods info) < 2147483648"
    and "meta_updateIdentity info db = (n, db1)" and "meta_identity n db1 = (info', db2)"
  shows "info_id info' = n \<and> caption info' = caption info
    \<and> userName info' = (if isUserNameSecret info then QNull else userName info)
    \<and> isUserNameSecret info' = isUserNameSecret info \<and> storePassword info' = storePassword info
    \<and> validated info' = validated info \<and> info_type info' = info_type info
    \<and> realms info' = realms info
    \<and> set (info_acl info') = set (info_acl info) - {QNull}
    \<and> set (info_owners info') = {t \<in> set (info_owners info). \<not> qisEmpty t}
    \<and> (\<lambda>m. map_option set (map_of (info_methods info') m)) =
      (\<lambda>m. map_option (\<lambda>ks. set ks - {QNull}) (map_of (info_methods info) m))"
proof -
  let ?d = "updated n info (sq_data db)"
  have n: "n = target info (sq_data db)" and db1: "db1 = db\<lparr>sq_data := ?d, sq_error := NoError\<rparr>"
    using updateIdentity_good [OF assms(1-4)] assms(7) by simp_all
  have "db_inv meta_ok db1"
    using inv_updateIdentity [of db info] assms(2,3,7) by (simp add: db_inv_def)
  then have ok: "meta_ok ?d" by (simp add: db_inv_def db1)
  have v: "view_of ?d n = Some (info_view info)"
    using view_updated [OF assms(3,4)] n by simp
  then obtain row where row: "sel_credentials n ?d = Some row"
    by (auto simp: view_of_def)
  have i': "info' = read_info n ?d row"
    using meta_identity_good [of db1 n] assms(1,8) row by (simp add: db1)
  from v row have "cr_caption row = caption info" "cr_flags row = info_flags info"
    "cr_username row = (if isUserNameSecret info then QNull else userName info)"
    "cr_type row = info_type info" "sel_realms n ?d = realms info"
    by (simp_all add: view_of_def info_view_def)
  moreover have "nt_seq (md_methods ?d) < 2147483648"
    using assms(6) by (simp add: nt_seq_inserts)
  ultimately show ?thesis
    unfolding i' using read_acl_owners [OF ok v] read_methods_view [OF ok v assms(5)]
    by (simp add: read_info_fields info_flags_bits)
qed

lemma removeIdentity_effect:
  assumes "sq_saved db = None" and "meta_ok (sq_data db)" and "meta_removeIdentity n db = (ok, db')"
  shows "durable db' = sq_data db' \<and>
    (if ok then view_of (sq_data db') = (view_of (sq_data db))(n := None)
        \<and> n \<notin> fst ` set (md_realms (sq_data db')) \<union> acl_identity ` set (md_acl (sq_data db'))
           \<union> fst ` set (md_refs (sq_data db')) \<union> fst ` set (md_owner (sq_data db'))
     else sq_data db' = sq_data db)"
proof -
  let ?d = "sq_data db"
  note atom = transactionalExec_atomic [OF assms(1) assms(3) [unfolded meta_removeIdentity_def]]
  have s: "schema_ok ?d" using assms(2) by (simp add: meta_ok_def)
  have rows: "rows_ok ?d" using assms(2) by (simp add: meta_ok_def)
  note h = schema_has_all [OF s]
  show ?thesis
  proof (cases ok)
    case True
    define d' where "d' = sq_data db'"
    from atom True have run: "run_statements (removeIdentity_stmts n) ?d = Some d'"
      by (simp add: d'_def)
    have fs: "md_credentials d' = filter (\<lambda>r. cr_id r \<noteq> n) (md_credentials ?d)"
      "md_tokens d' = md_tokens ?d" "md_methods d' = md_methods ?d" "md_mechanisms d' = md_mechanisms ?d"
      "md_owner d' = filter (\<lambda>r. fst r \<noteq> n) (md_owner ?d)"
      "md_realms d' = filter (\<lambda>r. fst r \<noteq> n)
         (filter (\<lambda>r. fst r \<notin> set (filter (\<lambda>i. i = n) (cred_ids ?d))) (md_realms ?d))"
      "md_acl d' = filter (\<lambda>r. acl_identity r \<noteq> n)
         (filter (\<lambda>r. acl_identity r \<notin> set (filter (\<lambda>i. i = n) (cred_ids ?d))) (md_acl ?d))"
      "md_refs d' = filter (\<lambda>r. fst r \<notin> set (filter (\<lambda>i. i = n) (cred_ids ?d))) (md_refs ?d)"
      using run h by (auto simp: removeIdentity_stmts_def st_delete_credentials_def st_delete_acl_def
          st_delete_realms_def st_delete_owner_def Let_def simp del: filter_filter)
    have "sel_credentials m d' = (if m = n then None else sel_credentials m ?d)" for m
      unfolding sel_credentials_def fs(1) by (rule find_removed)
    moreover have "acl_names d' = acl_names ?d"
      by (simp add: fun_eq_iff acl_names_def fs)
    moreover have "sel_realms m d' = sel_realms m ?d" if "m \<noteq> n" for m
      using that unfolding sel_realms_def fs by (auto intro!: arg_cong [of _ _ "map snd"] filter_cong)
    moreover have "filter (\<lambda>r. acl_identity r = m) (md_acl d') = filter (\<lambda>r. acl_identity r = m) (md_acl ?d)"
      "filter (\<lambda>r. fst r = m) (md_owner d') = filter (\<lambda>r. fst r = m) (md_owner ?d)" if "m \<noteq> n" for m
      using that unfolding fs by (auto intro!: filter_cong)
    ultimately have "view_of d' m = (if m = n then None else view_of ?d m)" for m
      by (cases "m = n") (simp_all add: view_of_def fs)
    moreover have "n \<notin> fst ` set (md_refs d')"
      using rows by (auto simp: fs rows_ok_def)
    ultimately show ?thesis
      using True atom by (auto simp: fs fun_eq_iff simp flip: d'_def)
  qed (use atom in simp)
qed

text \<open>The same, table by table: what is left of a database without one identity.\<close>

definition erased :: "nat \<Rightarrow> meta_data \<Rightarrow> meta_data" where
  "erased n d = d\<lparr>md_credentials := filter (\<lambda>r. cr_id r \<noteq> n) (md_credentials d), md_realms := filter (\<lambda>r. fst r \<noteq> n) (md_realms d),
     md_acl := filter (\<lambda>r. acl_identity r \<noteq> n) (md_acl d), md_refs := filter (\<lambda>r. fst r \<noteq> n) (md_refs d),
     md_owner := filter (\<lambda>r. fst r \<noteq> n) (md_owner d)\<rparr>"

lemma removeIdentity_erases:
  assumes "sq_saved db = None" and "meta_ok (sq_data db)" and "meta_removeIdentity n db = (True, db')"
  shows "sq_data db' = erased n (sq_data db)"
proof -
  let ?d = "sq_data db"
  have h: "has ?d T_CREDENTIALS" "has ?d T_REALMS" "has ?d T_ACL" "has ?d T_OWNER"
    "has ?d fkdc_REALMS_identity_id_CREDENTIALS_id" "has ?d fkdc_ACL_identity_id_CREDENTIALS_id" "has ?d fkdc_REFS_identity_id_CREDENTIALS_id"
    using assms(2) schema_has_all [of ?d] by (simp_all add: meta_ok_def)
  have refs: "filter (\<lambda>r. fst r \<notin> set (filter (\<lambda>i. i = n) (cred_ids ?d))) (md_refs ?d) = filter (\<lambda>r. fst r \<noteq> n) (md_refs ?d)"
    using assms(2) by (auto simp: meta_ok_def rows_ok_def intro!: filter_cong)
  have both: "filter (\<lambda>r. f r \<noteq> n) (filter (\<lambda>r. f r \<notin> set (filter (\<lambda>i. i = n) ids)) xs) = filter (\<lambda>r. f r \<noteq> n) xs"
    for f :: "'x \<Rightarrow> nat" and ids xs by (auto intro!: filter_cong)
  have "run_statements (removeIdentity_stmts n) ?d = Some (sq_data db')"
    using transactionalExec_atomic [OF assms(1) assms(3) [unfolded meta_removeIdentity_def]] by simp
  then have "sq_data db' = ?d\<lparr>md_credentials := filter (\<lambda>r. cr_id r \<noteq> n) (md_credentials ?d),
     md_realms := filter (\<lambda>r. fst r \<noteq> n) (filter (\<lambda>r. fst r \<notin> set (filter (\<lambda>i. i = n) (cred_ids ?d))) (md_realms ?d)),
     md_acl := filter (\<lambda>r. acl_identity r \<noteq> n) (filter (\<lambda>r. acl_identity r \<notin> set (filter (\<lambda>i. i = n) (cred_ids ?d))) (md_acl ?d)),
     md_refs := filter (\<lambda>r. fst r \<notin> set (filter (\<lambda>i. i = n) (cred_ids ?d))) (md_refs ?d),
     md_owner := filter (\<lambda>r. fst r \<noteq> n) (md_owner ?d)\<rparr>"
    using h by (simp add: removeIdentity_stmts_def st_delete_credentials_def st_delete_acl_def
        st_delete_realms_def st_delete_owner_def Let_def del: filter_filter set_filter) (drule sym, simp del: filter_filter set_filter)
  then show ?thesis unfolding erased_def refs both .
qed

section \<open>Properties\<close>

text \<open>C2: A database created by \<open>MetaDataDB::init\<close> from an empty file keeps the integrity that its triggers
  stand for, in the file and in memory, through any sequence of operations and any failures
  of the driver during creation or later, and no operation leaves a transaction open: all tables and triggers
  are there, ids and names are unique, and every row of REALMS, ACL and REFS refers to an identity, a method, a
  mechanism and a token that exist, every row of OWNER to a token that exists. The identity of a row of OWNER
  is left out: the schema declares it a reference but gives it no trigger, and \<open>updateIdentity\<close> of an identity
  that is not there leaves such a row.\<close>

theorem metadata_integrity:
  assumes "meta_init (fresh_db io) = (True, db)"
  shows "meta_ok (durable (meta_run ops db)) \<and> meta_ok (sq_data (meta_run ops db))
    \<and> sq_saved (meta_run ops db) = None"
proof -
  have "db_inv meta_ok db \<and> sq_saved db = None"
    using init_fresh [OF _ _ assms] by (simp add: fresh_db_def)
  then have "db_inv meta_ok (meta_run ops db)" "sq_saved (meta_run ops db) = None"
    by (simp_all add: inv_meta_run closed_meta_run)
  then show ?thesis by (simp add: db_inv_def)
qed

theorem metadata_integrity_witness:
  "meta_ok (durable (meta_run [M_updateIdentity sample_info, M_clear]
     (snd (meta_init (fresh_db (replicate 65 Good @ [Good, Bad]))))))"
proof -
  have "fst (meta_init (fresh_db (replicate 65 Good @ [Good, Bad])))" by code_simp
  then show ?thesis
    using metadata_integrity [of "replicate 65 Good @ [Good, Bad]"
        "snd (meta_init (fresh_db (replicate 65 Good @ [Good, Bad])))"
        "[M_updateIdentity sample_info, M_clear]"]
    by (metis prod.collapse)
qed

text \<open>C3: Without failures, \<open>updateIdentity\<close> returns the id of the identity and refines the update
  of a map from ids to views: the stored caption, user name (unless secret), flags, type, realms,
  access control rows and owners of that id are those of its argument, and no other identity
  changes.\<close>

theorem updateIdentity_refines:
  assumes "sq_io db = []" and "sq_saved db = None" and "meta_ok (sq_data db)"
    and "target_ok info (sq_data db)" and "meta_updateIdentity info db = (n, db')"
  shows "n = target info (sq_data db) \<and>
    view_of (sq_data db') = (view_of (sq_data db))(n \<mapsto> info_view info) \<and> meta_ok (durable db')"
proof -
  have "db_inv meta_ok db" using assms(2,3) by (simp add: db_inv_def)
  then have "db_inv meta_ok db'" using inv_updateIdentity assms(5) by (metis snd_conv)
  then show ?thesis
    using updateIdentity_good [OF assms(1-4)] view_updated [OF assms(3,4)] assms(2,5)
    by (simp add: db_inv_def)
qed

theorem updateIdentity_refines_witness:
  "view_of (sq_data (snd (meta_updateIdentity sample_info sample_db))) 1 = Some (info_view sample_info)"
  using updateIdentity_refines [OF sample_db_ok(2,3,1) sample_target(1)
      prod.collapse [of "meta_updateIdentity sample_info sample_db", symmetric]]
  by (simp add: sample_target(2))

text \<open>C5: An identity stored and then read back without failures comes back with the same caption,
  user name (unless it is secret), flags, type and realms; its access control list and owner
  list are those stored, up to order, repetition and null or empty tokens; and it has the
  same methods with the same mechanisms.\<close>

theorem identity_roundtrip:
  assumes "sq_io db = []" and "sq_saved db = None" and "meta_ok (sq_data db)"
    and "target_ok info (sq_data db)" and "qm_wf (info_methods info)"
    and "nt_seq (md_methods (sq_data db)) + length (info_methods info) < 2147483648"
    and "meta_updateIdentity info db = (n, db1)" and "meta_identity n db1 = (info', db2)"
  shows "info_id info' = n \<and> caption info' = caption info
    \<and> userName info' = (if isUserNameSecret info then QNull else userName info)
    \<and> isUserNameSecret info' = isUserNameSecret info \<and> storePassword info' = storePassword info
    \<and> validated info' = validated info \<and> info_type info' = info_type info
    \<and> realms info' = realms info
    \<and> set (info_acl info') = set (info_acl info) - {QNull}
    \<and> set (info_owners info') = {t \<in> set (info_owners info). \<not> qisEmpty t}
    \<and> (\<lambda>m. map_option set (map_of (info_methods info') m)) =
      (\<lambda>m. map_option (\<lambda>ks. set ks - {QNull}) (map_of (info_methods info) m))"
  by (rule identity_read_back [OF assms])

theorem identity_roundtrip_witness:
  "set (info_acl (fst (meta_identity 1 (snd (meta_updateIdentity sample_info sample_db))))) = {QStr ''app''}"
proof -
  have m: "info_methods sample_info = [(''oauth2'', [QStr ''web'', QNull]), (''password'', [])]"
    and a: "info_acl sample_info = [QStr ''app'', QNull]"
    by (simp_all add: sample_info_def info_set_defs info_get_defs qm_value_def)
  have "fst (meta_updateIdentity sample_info sample_db) = 1"
    using updateIdentity_good [OF sample_db_ok(2,3,1) sample_target(1)] sample_target(2) by simp
  then have u: "meta_updateIdentity sample_info sample_db =
      (1, snd (meta_updateIdentity sample_info sample_db))"
    by (metis prod.collapse)
  have "qm_wf (info_methods sample_info)" by (simp add: m) code_simp
  moreover have "nt_seq (md_methods (sq_data sample_db)) + length (info_methods sample_info) < 2147483648"
    by (simp add: m sample_db_def empty_meta_def empty_names_def)
  ultimately show ?thesis
    using identity_roundtrip [OF sample_db_ok(2,3,1) sample_target(1) _ _ u
        prod.collapse [of "meta_identity 1 (snd (meta_updateIdentity sample_info sample_db))", symmetric]]
    by (auto simp: a)
qed

text \<open>Whatever the driver does, \<open>removeIdentity\<close> either removes the identity with all its
  realms, access control rows, references and owners, leaving every other identity as it
  was, or it returns false and changes nothing.\<close>

theorem removeIdentity_all_or_nothing:
  assumes "sq_saved db = None" and "meta_ok (sq_data db)" and "meta_removeIdentity n db = (ok, db')"
  shows "durable db' = sq_data db' \<and>
    (if ok then view_of (sq_data db') = (view_of (sq_data db))(n := None)
        \<and> n \<notin> fst ` set (md_realms (sq_data db')) \<union> acl_identity ` set (md_acl (sq_data db'))
           \<union> fst ` set (md_refs (sq_data db')) \<union> fst ` set (md_owner (sq_data db'))
     else sq_data db' = sq_data db)"
  by (rule removeIdentity_effect [OF assms])

theorem removeIdentity_all_or_nothing_witness:
  "sq_data (snd (meta_removeIdentity 1 (sample_db\<lparr>sq_io := [Good, Good, Good, Bad]\<rparr>))) = sq_data sample_db"
proof -
  let ?db = "sample_db\<lparr>sq_io := [Good, Good, Good, Bad]\<rparr>"
  have "\<not> fst (meta_removeIdentity 1 ?db)" by code_simp
  then have "meta_removeIdentity 1 ?db = (False, snd (meta_removeIdentity 1 ?db))"
    by (simp add: fst_pair)
  then show ?thesis
    using removeIdentity_all_or_nothing [of ?db 1 False] sample_db_ok by simp
qed

text \<open>Whatever the driver does, \<open>clear\<close> either empties every table or returns false and
  changes nothing.\<close>

theorem clear_all_or_nothing:
  assumes "sq_saved db = None" and "meta_ok (sq_data db)" and "meta_clear db = (ok, db')"
  shows "durable db' = sq_data db' \<and>
    (if ok then md_credentials (sq_data db') = [] \<and> nt_rows (md_methods (sq_data db')) = []
        \<and> nt_rows (md_mechanisms (sq_data db')) = [] \<and> nt_rows (md_tokens (sq_data db')) = []
        \<and> md_realms (sq_data db') = [] \<and> md_acl (sq_data db') = [] \<and> md_refs (sq_data db') = []
        \<and> md_owner (sq_data db') = []
     else sq_data db' = sq_data db)"
proof -
  let ?d = "sq_data db"
  note atom = transactionalExec_atomic [OF assms(1) assms(3) [unfolded meta_clear_def]]
  have s: "schema_ok ?d" using assms(2) by (simp add: meta_ok_def)
  note h = schema_has_all [OF s]
  have refs: "fst r \<in> set (cred_ids ?d)" if "r \<in> set (md_refs ?d)" for r
    using assms(2) that by (auto simp: meta_ok_def rows_ok_def)
  have "md_credentials d' = [] \<and> nt_rows (md_methods d') = [] \<and> nt_rows (md_mechanisms d') = []
      \<and> nt_rows (md_tokens d') = [] \<and> md_realms d' = [] \<and> md_acl d' = [] \<and> md_refs d' = [] \<and> md_owner d' = []"
    if "run_statements clear_stmts ?d = Some d'" for d'
    using that h refs by (auto simp: clear_stmts_def st_delete_credentials_def st_clear_methods_def
        st_clear_mechanisms_def st_delete_acl_def st_delete_realms_def st_clear_tokens_def
        st_delete_owner_def Let_def filter_empty_conv)
  with atom show ?thesis by simp
qed

theorem clear_all_or_nothing_witness:
  "md_credentials (sq_data (snd (meta_clear sample_db))) = []"
proof -
  have "fst (meta_clear sample_db)" by code_simp
  then have "meta_clear sample_db = (True, snd (meta_clear sample_db))"
    by (simp add: fst_pair)
  then show ?thesis
    using clear_all_or_nothing [of sample_db True] sample_db_ok by simp
qed

text \<open>A database of version 1 opened without failures is upgraded in place: it gets the OWNER
  table with its triggers, every access control row becomes an ownership, the rest of the data
  stays, and the version becomes 2, although the commit of the copy always reports a failure.\<close>

theorem upgrade_from_version_1:
  assumes "sq_io db = []" and "sq_saved db = None" and "md_version (sq_data db) = 1"
    and "md_objects (sq_data db) = create_base_tables @ create_realms_acl_triggers @ create_refs_triggers"
    and "\<forall>r \<in> set (md_acl (sq_data db)). refers (acl_token r) (nt_ids (md_tokens (sq_data db)))"
  shows "meta_init db = (True, db\<lparr>sq_error := NoError, sq_data := (sq_data db)
    \<lparr>md_version := 2, md_objects := createTableQuery,
      md_owner := md_owner (sq_data db) @ map (\<lambda>r. (acl_identity r, acl_token r)) (md_acl (sq_data db))\<rparr>\<rparr>)"
proof -
  define d where "d = sq_data db"
  have objs: "md_objects d = create_base_tables @ create_realms_acl_triggers @ create_refs_triggers"
    using assms(4) by (simp add: d_def)
  have create: "create_loop tableUpdates2 (db\<lparr>sq_error := NoError\<rparr>) =
      (True, db\<lparr>sq_error := NoError, sq_data := d\<lparr>md_objects := createTableQuery\<rparr>\<rparr>)"
    using create_loop_good [of "db\<lparr>sq_error := NoError\<rparr>" tableUpdates2] assms(1,2) creatable_code(2)
    by (simp add: objs createTableQuery_def flip: d_def)
  have copy: "st_owner_from_acl (d\<lparr>md_objects := createTableQuery\<rparr>) =
      Done (d\<lparr>md_objects := createTableQuery,
        md_owner := md_owner d @ map (\<lambda>r. (acl_identity r, acl_token r)) (md_acl d)\<rparr>)"
    using assms(5) by (auto simp: st_owner_from_acl_def has_def list_ex_iff not_violates_refers
        d_def schema_defs)
  have "md_objects d \<noteq> []" by (simp add: objs create_base_tables_def)
  with assms(1-3) create copy show ?thesis
    by (simp add: meta_init_def sql_init_def sql_connect_def next_io_def meta_hasTables_def query_good
        META_VERSION_def meta_updateDB_def exec_good sql_commit_def sql_rollback_def undo_def
        base_updateDB_def st_set_version_def Let_def flip: d_def)
qed

theorem upgrade_from_version_1_witness:
  "md_owner (sq_data (snd (meta_init (sample_db\<lparr>sq_data := empty_meta\<lparr>md_version := 1,
     md_objects := create_base_tables @ create_realms_acl_triggers @ create_refs_triggers,
     md_tokens := \<lparr>nt_seq = 7, nt_rows = [(7, QStr ''app'')]\<rparr>,
     md_acl := [\<lparr>acl_identity = 4, acl_method = None, acl_mechanism = None, acl_token = Some 7\<rparr>]\<rparr>\<rparr>))))
   = [(4, Some 7)]"
  by (subst upgrade_from_version_1) (simp_all add: sample_db_def empty_meta_def nt_ids_def)

text \<open>A database file whose version number was never written (0) is emptied whenever it is opened,
  and its version stays 0, so that whatever is stored in it until then is lost at the next start,
  although \<open>init\<close> returns true each time.\<close>

theorem version_0_is_wiped_at_every_start:
  assumes "sq_io db = []" and "sq_saved db = None" and "md_objects (sq_data db) \<noteq> []"
    and "md_version (sq_data db) < 1" and "meta_init db = (ok, db')"
  shows "ok \<and> sq_data db' = empty_meta\<lparr>md_objects := createTableQuery\<rparr> \<and> md_version (sq_data db') = 0"
proof -
  have create: "create_loop createTableQuery (db\<lparr>sq_error := NoError, sq_data := empty_meta\<rparr>) =
      (True, db\<lparr>sq_error := NoError, sq_data := empty_meta\<lparr>md_objects := createTableQuery\<rparr>\<rparr>)"
    using create_loop_good [of "db\<lparr>sq_error := NoError, sq_data := empty_meta\<rparr>" createTableQuery]
      assms(1,2) creatable_code(1) by (simp add: empty_meta_def)
  have close: "db\<lparr>sq_error := NoError, sq_data := empty_meta, sq_saved := None\<rparr> =
      db\<lparr>sq_error := NoError, sq_data := empty_meta\<rparr>"
    using assms(2) by simp
  have "meta_init db = (True, db\<lparr>sq_error := NoError, sq_data := empty_meta\<lparr>md_objects := createTableQuery\<rparr>\<rparr>)"
    using assms(1-4) create
    by (simp add: meta_init_def sql_init_def sql_connect_def next_io_def meta_hasTables_def query_good
        META_VERSION_def meta_updateDB_def remove_file_def close meta_createTables_def)
  with assms(5) have "ok" and
      "db' = db\<lparr>sq_error := NoError, sq_data := empty_meta\<lparr>md_objects := createTableQuery\<rparr>\<rparr>"
    by simp_all
  then show ?thesis by (simp add: empty_meta_def)
qed

theorem version_0_is_wiped_at_every_start_witness:
  "md_credentials (sq_data (snd (meta_init (sample_db\<lparr>sq_data := (sq_data sample_db)
     \<lparr>md_version := 0, md_credentials := [\<lparr>cr_id = 1, cr_caption = QNull, cr_username = QNull,
        cr_flags = 0, cr_type = 0\<rparr>]\<rparr>\<rparr>)))) = []"
proof -
  let ?db = "sample_db\<lparr>sq_data := (sq_data sample_db)
     \<lparr>md_version := 0, md_credentials := [\<lparr>cr_id = 1, cr_caption = QNull, cr_username = QNull,
        cr_flags = 0, cr_type = 0\<rparr>]\<rparr>\<rparr>"
  have "md_objects (sq_data ?db) \<noteq> []"
    by (simp add: sample_db_def createTableQuery_def create_base_tables_def)
  then show ?thesis
    using version_0_is_wiped_at_every_start [of ?db "fst (meta_init ?db)" "snd (meta_init ?db)"]
      sample_db_ok by (simp add: empty_meta_def)
qed

end
