(* ===== verification/Secrets_Db.thy ===== *)
theory Secrets_Db
  imports Sql_Database Variants "HOL-Library.Word"
begin

text \<open>
  \<open>SecretsDB\<close> and \<open>DefaultSecretsStorage\<close> (src/signond/default-secrets-storage.cpp) on top of
  \<open>AbstractSecretsStorage\<close> (src/lib/signond/SignOn/abstract-secrets-storage.cpp): user names,
  passwords and the data of the plugins, in a database of their own that is open only while
  its file system is mounted. The serialisation of a \<open>QVariant\<close> by \<open>QDataStream\<close> is a pair
  of parameters, \<open>ser\<close> and \<open>deser\<close>. The interface the credentials database relies on is the
  locale \<open>secrets_storage\<close>, interpreted at the end on the operations of this theory.
\<close>

section \<open>Schema, rows and statements\<close>

type_synonym bytes = "8 word list"

datatype secrets_obj = S_CREDENTIALS | S_STORE | S_tg_delete_credentials

record secrets_data =
  sd_objects :: "secrets_obj list"
  sd_version :: int
  sd_credentials :: "(nat, qstring \<times> qstring) qhash"
  sd_store :: "(nat \<times> nat \<times> string, bytes) qhash"

definition empty_secrets :: secrets_data where
  "empty_secrets = \<lparr>sd_objects = [], sd_version = 0, sd_credentials = [], sd_store = []\<rparr>"

type_synonym secrets_db = "secrets_data sqldb"

definition secrets_createTableQuery :: "secrets_obj list" where
  "secrets_createTableQuery = [S_CREDENTIALS, S_STORE, S_tg_delete_credentials]"

definition ss_create :: "secrets_obj \<Rightarrow> secrets_data statement" where
  "ss_create obj d =
     (if obj \<in> set (sd_objects d)
         \<or> obj = S_tg_delete_credentials \<and> S_CREDENTIALS \<notin> set (sd_objects d) then Fail
      else Done (d\<lparr>sd_objects := sd_objects d @ [obj]\<rparr>))"

definition ss_set_version :: "int \<Rightarrow> secrets_data statement" where
  "ss_set_version v d = Done (d\<lparr>sd_version := v\<rparr>)"

text \<open>DELETE FROM CREDENTIALS, with the trigger for the rows it deletes.\<close>

definition ss_delete_credentials :: "(nat \<Rightarrow> bool) \<Rightarrow> secrets_data statement" where
  "ss_delete_credentials P d =
     (if S_CREDENTIALS \<notin> set (sd_objects d) then Fail
      else Done (d\<lparr>sd_credentials := filter (\<lambda>r. \<not> P (fst r)) (sd_credentials d),
        sd_store := (if S_tg_delete_credentials \<in> set (sd_objects d)
          then filter (\<lambda>r. \<not> (P (fst (fst r)) \<and> fst (fst r) \<in> fst ` set (sd_credentials d))) (sd_store d)
          else sd_store d)\<rparr>))"

definition ss_delete_store :: "(nat \<Rightarrow> nat \<Rightarrow> bool) \<Rightarrow> secrets_data statement" where
  "ss_delete_store P d =
     (if S_STORE \<notin> set (sd_objects d) then Fail
      else Done (d\<lparr>sd_store := filter (\<lambda>r. \<not> P (fst (fst r)) (fst (snd (fst r)))) (sd_store d)\<rparr>))"

text \<open>INSERT OR REPLACE; the replaced row fires no trigger.\<close>

definition ss_insert_credentials :: "nat \<Rightarrow> qstring \<Rightarrow> qstring \<Rightarrow> secrets_data statement" where
  "ss_insert_credentials n username password d =
     (if S_CREDENTIALS \<notin> set (sd_objects d) then Fail
      else Done (d\<lparr>sd_credentials := qh_insert n (username, password) (sd_credentials d)\<rparr>))"

definition ss_insert_store :: "nat \<Rightarrow> nat \<Rightarrow> string \<Rightarrow> bytes \<Rightarrow> secrets_data statement" where
  "ss_insert_store n m key value d =
     (if S_STORE \<notin> set (sd_objects d) then Fail
      else Done (d\<lparr>sd_store := qh_insert (n, m, key) value (sd_store d)\<rparr>))"

definition sq_credentials :: "nat \<Rightarrow> secrets_data \<Rightarrow> (qstring \<times> qstring) option" where
  "sq_credentials n d = map_of (sd_credentials d) n"

definition sq_store :: "nat \<Rightarrow> nat \<Rightarrow> secrets_data \<Rightarrow> (string \<times> bytes) list" where
  "sq_store n m d =
     map (\<lambda>r. (snd (snd (fst r)), snd r))
       (filter (\<lambda>r. fst (fst r) = n \<and> fst (snd (fst r)) = m) (sd_store d))"

section \<open>SecretsDB\<close>

definition SECRETS_VERSION :: int where
  "SECRETS_VERSION = 1"

fun secrets_create_loop :: "secrets_obj list \<Rightarrow> secrets_db \<Rightarrow> bool \<times> secrets_db" where
  "secrets_create_loop [] db = (True, db)"
| "secrets_create_loop (obj # objs) db =
     (let db = sql_exec (ss_create obj) db in
      if errorOccurred db then (False, db)
      else let (_, db) = sql_commit db in secrets_create_loop objs db)"

definition secrets_init :: "secrets_db \<Rightarrow> bool \<times> secrets_db" where
  "secrets_init db =
     sql_init (\<lambda>d. sd_objects d \<noteq> []) (secrets_create_loop secrets_createTableQuery)
       (\<lambda>_. base_updateDB ss_set_version SECRETS_VERSION) sd_version ss_set_version SECRETS_VERSION db"

definition secrets_clear :: "secrets_db \<Rightarrow> bool \<times> secrets_db" where
  "secrets_clear db =
     transactionalExec [ss_delete_credentials (\<lambda>_. True), ss_delete_store (\<lambda>_ _. True)] db"

definition secrets_updateCredentials ::
    "nat \<Rightarrow> qstring \<Rightarrow> qstring \<Rightarrow> secrets_db \<Rightarrow> bool \<times> secrets_db" where
  "secrets_updateCredentials n username password db =
     (let (started, db) = startTransaction db in
      if \<not> started then (False, db)
      else let db = sql_exec (ss_insert_credentials n username password) db in
        if errorOccurred db then (False, sql_rollback db) else sql_commit db)"

definition secrets_removeCredentials :: "nat \<Rightarrow> secrets_db \<Rightarrow> bool \<times> secrets_db" where
  "secrets_removeCredentials n db =
     transactionalExec [ss_delete_credentials (\<lambda>i. i = n), ss_delete_store (\<lambda>i _. i = n)] db"

definition secrets_loadCredentials ::
    "nat \<Rightarrow> secrets_db \<Rightarrow> (qstring \<times> qstring) option \<times> secrets_db" where
  "secrets_loadCredentials n db =
     (case sql_query (sq_credentials n) db of
        (Some (Some up), db) \<Rightarrow> (Some up, db)
      | (_, db) \<Rightarrow> (None, db))"

definition secrets_loadData ::
    "(bytes \<Rightarrow> qvariant) \<Rightarrow> nat \<Rightarrow> nat \<Rightarrow> secrets_db \<Rightarrow> qvariant_map \<times> secrets_db" where
  "secrets_loadData deser n m db =
     (let (rows, db) = sql_query (sq_store n m) db in
      if errorOccurred db then ([], db)
      else (fold (\<lambda>(k, a) result. qm_insert k (deser a) result)
              (case rows of None \<Rightarrow> [] | Some rs \<Rightarrow> rs) [], db))"

definition SSO_MAX_TOKEN_STORAGE :: nat where
  "SSO_MAX_TOKEN_STORAGE = 4096"

text \<open>The loop of \<open>storeData\<close>; it counts the values it skips, too.\<close>

fun store_loop ::
    "(qvariant \<Rightarrow> bytes) \<Rightarrow> nat \<Rightarrow> nat \<Rightarrow> nat \<Rightarrow> qvariant_map \<Rightarrow> secrets_db \<Rightarrow> bool \<times> secrets_db" where
  "store_loop ser n m dataCounter [] db = (True, db)"
| "store_loop ser n m dataCounter ((k, v) # data) db =
     (let array = ser v;
          dataCounter = dataCounter + length k + length array in
      if dataCounter \<ge> SSO_MAX_TOKEN_STORAGE then (False, db)
      else if \<not> v_isValid v \<or> v_isNull v then store_loop ser n m dataCounter data db
      else let db = sql_exec (ss_insert_store n m k array) db in
        if errorOccurred db then (False, db) else store_loop ser n m dataCounter data db)"

definition secrets_storeData ::
    "(qvariant \<Rightarrow> bytes) \<Rightarrow> nat \<Rightarrow> nat \<Rightarrow> qvariant_map \<Rightarrow> secrets_db \<Rightarrow> bool \<times> secrets_db" where
  "secrets_storeData ser n m data db =
     (let (started, db) = startTransaction db in
      if \<not> started then (False, db)
      else let db = sql_exec (ss_delete_store (\<lambda>i j. i = n \<and> j = m)) db in
        if errorOccurred db then (False, sql_rollback db)
        else let (allOk, db) = store_loop ser n m 0 data db in
          if allOk
          then let (done, db) = sql_commit db in
            if done then (True, db) else (False, sql_rollback db)
          else (False, sql_rollback db))"

definition secrets_removeData :: "nat \<Rightarrow> nat \<Rightarrow> secrets_db \<Rightarrow> bool \<times> secrets_db" where
  "secrets_removeData n m db =
     (let (started, db) = startTransaction db in
      if \<not> started then (False, db)
      else let db = sql_exec (if m = 0 then ss_delete_store (\<lambda>i _. i = n)
                              else ss_delete_store (\<lambda>i j. i = n \<and> j = m)) db in
        if errorOccurred db then (False, sql_rollback db)
        else let (done, db) = sql_commit db in
          if done then (True, db) else (False, sql_rollback db))"

section \<open>DefaultSecretsStorage\<close>

text \<open>
  The storage object, the files it can open and the outcomes of the driver calls to come.
  Destroying a \<open>SecretsDB\<close> commits a transaction that is still open.
\<close>

record secrets_storage =
  ss_isOpen :: bool
  ss_lastError :: db_error
  ss_db :: "(string \<times> secrets_db) option"
  ss_files :: "(string, secrets_data) qhash"
  ss_io :: "outcome list"

definition ss_close :: "secrets_storage \<Rightarrow> secrets_storage" where
  "ss_close s =
     (case ss_db s of
        None \<Rightarrow> s\<lparr>ss_isOpen := False\<rparr>
      | Some (name, db) \<Rightarrow>
          let (_, db) = sql_commit db in
          s\<lparr>ss_isOpen := False, ss_db := None, ss_files := qh_insert name (durable db) (ss_files s),
            ss_io := sq_io db\<rparr>)"

definition ss_initialize :: "string \<Rightarrow> secrets_storage \<Rightarrow> bool \<times> secrets_storage" where
  "ss_initialize name s =
     (let s = (if ss_isOpen s then ss_close s else s);
          db = \<lparr>sq_data = qh_value (ss_files s) name empty_secrets, sq_saved = None,
                sq_error = NoError, sq_io = ss_io s\<rparr>;
          (ok, db) = secrets_init db in
      if \<not> ok
      then let e = sq_error db; (_, db) = sql_commit db in
        (False, s\<lparr>ss_lastError := e, ss_db := None,
          ss_files := qh_insert name (durable db) (ss_files s), ss_io := sq_io db\<rparr>)
      else (True, s\<lparr>ss_db := Some (name, db), ss_isOpen := True\<rparr>))"

text \<open>\<open>RETURN_IF_NOT_OPEN\<close> and the call of the same method of \<open>SecretsDB\<close>.\<close>

definition if_open :: "'r \<Rightarrow> (secrets_db \<Rightarrow> 'r \<times> secrets_db) \<Rightarrow> secrets_storage \<Rightarrow> 'r \<times> secrets_storage"
  where
  "if_open retval f s =
     (case ss_db s of
        Some (name, db) \<Rightarrow>
          if ss_isOpen s then let (r, db) = f db in (r, s\<lparr>ss_db := Some (name, db)\<rparr>)
          else (retval, s\<lparr>ss_lastError := NotOpen\<rparr>)
      | None \<Rightarrow> (retval, s\<lparr>ss_lastError := NotOpen\<rparr>))"

definition ss_clear :: "secrets_storage \<Rightarrow> bool \<times> secrets_storage" where
  "ss_clear = if_open False secrets_clear"

definition ss_updateCredentials ::
    "nat \<Rightarrow> qstring \<Rightarrow> qstring \<Rightarrow> secrets_storage \<Rightarrow> bool \<times> secrets_storage" where
  "ss_updateCredentials n u p = if_open False (secrets_updateCredentials n u p)"

definition ss_removeCredentials :: "nat \<Rightarrow> secrets_storage \<Rightarrow> bool \<times> secrets_storage" where
  "ss_removeCredentials n = if_open False (secrets_removeCredentials n)"

definition ss_loadCredentials ::
    "nat \<Rightarrow> secrets_storage \<Rightarrow> (qstring \<times> qstring) option \<times> secrets_storage" where
  "ss_loadCredentials n = if_open None (secrets_loadCredentials n)"

definition ss_loadData ::
    "(bytes \<Rightarrow> qvariant) \<Rightarrow> nat \<Rightarrow> nat \<Rightarrow> secrets_storage \<Rightarrow> qvariant_map \<times> secrets_storage" where
  "ss_loadData deser n m = if_open [] (secrets_loadData deser n m)"

definition ss_storeData ::
    "(qvariant \<Rightarrow> bytes) \<Rightarrow> nat \<Rightarrow> nat \<Rightarrow> qvariant_map \<Rightarrow> secrets_storage \<Rightarrow> bool \<times> secrets_storage"
  where
  "ss_storeData ser n m data = if_open False (secrets_storeData ser n m data)"

definition ss_removeData :: "nat \<Rightarrow> nat \<Rightarrow> secrets_storage \<Rightarrow> bool \<times> secrets_storage" where
  "ss_removeData n m = if_open False (secrets_removeData n m)"

definition ss_checkPassword ::
    "nat \<Rightarrow> qstring \<Rightarrow> qstring \<Rightarrow> secrets_storage \<Rightarrow> bool \<times> secrets_storage" where
  "ss_checkPassword n username password s =
     (case ss_loadCredentials n s of
        (None, s) \<Rightarrow> (False, s)
      | (Some (storedUsername, storedPassword), s) \<Rightarrow>
          (qeq storedUsername username \<and> qeq storedPassword password, s))"

section \<open>Integrity\<close>

definition secrets_ok :: "secrets_data \<Rightarrow> bool" where
  "secrets_ok d \<longleftrightarrow> set secrets_createTableQuery \<subseteq> set (sd_objects d)
     \<and> distinct (map fst (sd_credentials d)) \<and> distinct (map fst (sd_store d))"

lemma secrets_objs:
  assumes "secrets_ok d"
  shows "S_CREDENTIALS \<in> set (sd_objects d)" "S_STORE \<in> set (sd_objects d)"
    "S_tg_delete_credentials \<in> set (sd_objects d)"
  using assms by (simp_all add: secrets_ok_def secrets_createTableQuery_def)

lemma secrets_preserve [inv_intros]:
  "preserves secrets_ok (ss_delete_credentials P)" "preserves secrets_ok (ss_delete_store Q)"
  "preserves secrets_ok (ss_insert_credentials n u p)" "preserves secrets_ok (ss_insert_store n m k a)"
  "preserves secrets_ok (ss_set_version v)"
  by (auto intro!: preservesI simp: secrets_ok_def ss_delete_credentials_def ss_delete_store_def
      ss_insert_credentials_def ss_insert_store_def ss_set_version_def distinct_map_filter
      secrets_createTableQuery_def split: if_splits)

section \<open>Storing the data of a plugin\<close>

text \<open>What the size limit counts.\<close>

fun data_size :: "(qvariant \<Rightarrow> bytes) \<Rightarrow> qvariant_map \<Rightarrow> nat" where
  "data_size ser [] = 0"
| "data_size ser ((k, v) # data) = length k + length (ser v) + data_size ser data"

definition storable :: "qvariant_map \<Rightarrow> qvariant_map" where
  "storable data = filter (\<lambda>(k, v). v_isValid v \<and> \<not> v_isNull v) data"

definition store_rows ::
    "(qvariant \<Rightarrow> bytes) \<Rightarrow> nat \<Rightarrow> nat \<Rightarrow> qvariant_map \<Rightarrow> secrets_data \<Rightarrow> secrets_data" where
  "store_rows ser n m data d =
     d\<lparr>sd_store := fold (\<lambda>(k, v). qh_insert (n, m, k) (ser v)) (storable data) (sd_store d)\<rparr>"

lemma store_rows_simps [simp]:
  "store_rows ser n m [] d = d"
  "store_rows ser n m ((k, v) # data) d = (if v_isValid v \<and> \<not> v_isNull v
     then store_rows ser n m data (d\<lparr>sd_store := qh_insert (n, m, k) (ser v) (sd_store d)\<rparr>)
     else store_rows ser n m data d)"
  by (simp_all add: store_rows_def storable_def)

lemma store_loop_effect:
  "store_loop ser n m c data db = (True, db') \<Longrightarrow>
     sq_data db' = store_rows ser n m data (sq_data db) \<and> sq_saved db' = sq_saved db
     \<and> (data \<noteq> [] \<longrightarrow> c + data_size ser data < SSO_MAX_TOKEN_STORAGE)"
proof (induction ser n m c data db rule: store_loop.induct)
  case (2 ser n m c k v data db)
  let ?c = "c + length k + length (ser v)"
  let ?db = "sql_exec (ss_insert_store n m k (ser v)) db"
  have c: "?c < SSO_MAX_TOKEN_STORAGE" using 2(3) by (auto simp: Let_def split: if_splits)
  then have c': "data = [] \<Longrightarrow> c + data_size ser ((k, v) # data) < SSO_MAX_TOKEN_STORAGE" by simp
  show ?case
  proof (cases "\<not> v_isValid v \<or> v_isNull v")
    case True
    with 2(1) [OF refl refl _ True] 2(3) c c' show ?thesis by (auto simp: Let_def)
  next
    case False
    then have e: "\<not> errorOccurred ?db" using 2(3) c by (auto simp: Let_def)
    from exec_ok_effect [OF this] have "sq_saved ?db = sq_saved db"
      "sq_data ?db = sq_data db\<lparr>sd_store := qh_insert (n, m, k) (ser v) (sd_store (sq_data db))\<rparr>"
      by (auto simp: ss_insert_store_def split: if_splits)
    with 2(2) [OF refl refl _ False refl e] 2(3) c c' e False show ?thesis
      by (auto simp: Let_def)
  qed
qed simp

lemma store_loop_saved:
  "sq_saved db = Some d \<Longrightarrow> store_loop ser n m c data db = (False, db') \<Longrightarrow>
     sq_saved db' = Some d \<or> sq_saved db' = None \<and> sq_data db' = d"
proof (induction ser n m c data db rule: store_loop.induct)
  case (2 ser n m c k v data db)
  let ?db = "sql_exec (ss_insert_store n m k (ser v)) db"
  show ?case
  proof (cases "c + length k + length (ser v) \<ge> SSO_MAX_TOKEN_STORAGE \<or> \<not> v_isValid v \<or> v_isNull v
      \<or> errorOccurred ?db")
    case True
    with 2 exec_in_transaction [OF 2(3), of "ss_insert_store n m k (ser v)"] show ?thesis
      by (auto simp: Let_def split: if_splits)
  next
    case False
    with exec_ok_effect [of "ss_insert_store n m k (ser v)" db] 2(3) have "sq_saved ?db = Some d"
      by simp
    with 2(2) [of "ser v" "c + length k + length (ser v)" ?db] 2(4) False show ?thesis
      by (simp add: Let_def)
  qed
qed simp

definition stored_data ::
    "(qvariant \<Rightarrow> bytes) \<Rightarrow> nat \<Rightarrow> nat \<Rightarrow> qvariant_map \<Rightarrow> secrets_data \<Rightarrow> secrets_data" where
  "stored_data ser n m data d =
     store_rows ser n m data (d\<lparr>sd_store := filter (\<lambda>r. \<not> (fst (fst r) = n \<and> fst (snd (fst r)) = m)) (sd_store d)\<rparr>)"

text \<open>Under any outcomes of the driver, \<open>storeData\<close> replaces the data or changes nothing.\<close>

lemma storeData_atomic:
  assumes "sq_saved db = None" and "secrets_storeData ser n m data db = (ok, db')"
  shows "sq_saved db' = None \<and>
    (if ok then sq_data db' = stored_data ser n m data (sq_data db)
        \<and> (data = [] \<or> data_size ser data < SSO_MAX_TOKEN_STORAGE)
     else sq_data db' = sq_data db)"
proof -
  let ?d = "sq_data db" and ?st = "ss_delete_store (\<lambda>i j. i = n \<and> j = m)"
  obtain b db1 where 1: "startTransaction db = (b, db1)" by force
  note e1 = start_effect [OF assms(1) 1]
  show ?thesis
  proof (cases b)
    case False
    with e1 1 assms(2) show ?thesis by (auto simp: secrets_storeData_def)
  next
    case True
    with e1 have s1: "sq_saved db1 = Some ?d" by simp
    define db2 where "db2 = sql_exec ?st db1"
    show ?thesis
    proof (cases "errorOccurred db2")
      case True
      have "sq_saved db2 = Some ?d \<or> sq_saved db2 = None \<and> sq_data db2 = ?d"
        using exec_in_transaction [OF s1, of ?st] by (auto simp: db2_def)
      from rollback_effect [OF this] True \<open>b\<close> 1 assms(2) show ?thesis
        by (auto simp: secrets_storeData_def Let_def simp flip: db2_def)
    next
      case False
      obtain a db3 where 3: "store_loop ser n m 0 data db2 = (a, db3)" by force
      obtain c db4 where 4: "sql_commit db3 = (c, db4)" by force
      from exec_ok_effect [of ?st db1] False e1 s1 have s2: "sq_saved db2 = Some ?d" and
        d2: "sq_data db2 = ?d\<lparr>sd_store := filter (\<lambda>r. \<not> (fst (fst r) = n \<and> fst (snd (fst r)) = m)) (sd_store ?d)\<rparr>"
        by (auto simp: db2_def ss_delete_store_def split: if_splits)
      have res: "(ok, db') = (if a then if c then (True, db4) else (False, sql_rollback db4)
          else (False, sql_rollback db3))"
        using assms(2) 1 \<open>b\<close> False 3 4
        by (auto simp: secrets_storeData_def Let_def simp flip: db2_def split: if_splits)
      show ?thesis
      proof (cases a)
        case True
        with store_loop_effect [of ser n m 0 data db2 db3] 3 d2 s2
        have "sq_saved db3 = Some ?d" "sq_data db3 = stored_data ser n m data ?d"
          "data = [] \<or> data_size ser data < SSO_MAX_TOKEN_STORAGE"
          by (auto simp: stored_data_def)
        with commit_effect [of db3 ?d c db4] rollback_effect [of db4 ?d] 4 res True show ?thesis
          by (auto split: if_splits)
      next
        case False
        with store_loop_saved [OF s2, of ser n m 0 data db3] 3 rollback_effect [of db3 ?d] res
        show ?thesis by auto
      qed
    qed
  qed
qed

section \<open>What is stored, as maps\<close>

definition blob :: "(bytes \<Rightarrow> qvariant) \<Rightarrow> secrets_data \<Rightarrow> nat \<times> nat \<Rightarrow> string \<Rightarrow> qvariant option" where
  "blob deser d = (\<lambda>(n, m) k. map_option deser (map_of (sd_store d) (n, m, k)))"

text \<open>What comes back of a map: the values that are neither invalid nor null.\<close>

definition kept :: "qvariant_map \<Rightarrow> string \<Rightarrow> qvariant option" where
  "kept data = map_of (storable data)"

definition serializable :: "(qvariant \<Rightarrow> bytes) \<Rightarrow> (bytes \<Rightarrow> qvariant) \<Rightarrow> qvariant_map \<Rightarrow> bool" where
  "serializable ser deser data \<longleftrightarrow> (\<forall>(k, v) \<in> set data. deser (ser v) = v)"

lemma map_of_store_rows:
  assumes "qm_wf data"
  shows "map_of (sd_store (store_rows ser n m data d)) (i, j, k) =
    (if i = n \<and> j = m \<and> kept data k \<noteq> None then map_option ser (kept data k)
     else map_of (sd_store d) (i, j, k))"
proof -
  let ?xs = "map (\<lambda>(k, v). ((n, m, k), ser v)) (storable data)"
  have "distinct (map fst data)" using assms by (rule qm_wf_distinct)
  then have dist: "distinct (map fst (storable data))"
    unfolding storable_def by (rule distinct_map_filter)
  then have "distinct (map fst ?xs)"
    by (simp add: comp_def split_def distinct_map inj_on_def)
  then have rev: "map_of (rev ?xs) = map_of ?xs"
    by (intro map_of_inject_set [THEN iffD2]) (simp_all add: rev_map [symmetric])
  have xs: "map_of (map (\<lambda>(k, v). ((n, m, k), ser v)) ys) (i, j, k) =
      (if i = n \<and> j = m then map_option ser (map_of ys k) else None)" for ys :: qvariant_map
    by (induction ys) auto
  have "sd_store (store_rows ser n m data d) = fold (\<lambda>(k, v). qh_insert k v) ?xs (sd_store d)"
    by (simp add: store_rows_def fold_map comp_def split_def)
  then have "map_of (sd_store (store_rows ser n m data d)) = map_of (sd_store d) ++ map_of ?xs"
    using qhash.lookup_fold_ins [of ?xs "sd_store d"] rev by simp
  then show ?thesis
    by (auto simp: map_add_def xs kept_def split: option.splits)
qed

lemma map_of_filter_keys:
  "map_of (filter (\<lambda>r. P (fst r)) xs) k = (if P k then map_of xs k else None)"
  by (induction xs) auto

lemma blob_stored_data:
  assumes "qm_wf data" and "serializable ser deser data"
  shows "blob deser (stored_data ser n m data d) = (blob deser d)((n, m) := kept data)"
proof (intro ext)
  fix ij :: "nat \<times> nat" and k
  obtain i j where ij: "ij = (i, j)" by (cases ij)
  have kv: "deser (ser v) = v" if "kept data k = Some v" for v
    using assms(2) that by (force simp: kept_def storable_def serializable_def dest: map_of_SomeD)
  have "map_of (filter (\<lambda>r. \<not> (fst (fst r) = n \<and> fst (snd (fst r)) = m)) (sd_store d)) (i, j, k)
      = (if i = n \<and> j = m then None else map_of (sd_store d) (i, j, k))"
    using map_of_filter_keys [of "\<lambda>x. \<not> (fst x = n \<and> fst (snd x) = m)" "sd_store d" "(i, j, k)"] by simp
  then show "blob deser (stored_data ser n m data d) ij k = ((blob deser d)((n, m) := kept data)) ij k"
    by (cases "kept data k") (auto simp: ij blob_def stored_data_def map_of_store_rows [OF assms(1)] kv)
qed

lemma secrets_ok_insert: "secrets_ok d \<Longrightarrow> secrets_ok (d\<lparr>sd_store := qh_insert k a (sd_store d)\<rparr>)"
  by (simp add: secrets_ok_def)

lemma secrets_ok_store_rows: "secrets_ok d \<Longrightarrow> secrets_ok (store_rows ser n m data d)"
  by (induction data arbitrary: d) (auto simp: secrets_ok_insert)

lemma secrets_ok_stored_data: "secrets_ok d \<Longrightarrow> secrets_ok (stored_data ser n m data d)"
  unfolding stored_data_def
  by (rule secrets_ok_store_rows) (simp add: secrets_ok_def distinct_map_filter)

lemma sd_credentials_stored [simp]: "sd_credentials (stored_data ser n m data d) = sd_credentials d"
  by (simp add: stored_data_def store_rows_def)

text \<open>Reading gives what the map says.\<close>

lemma sq_store_lookup:
  assumes "distinct (map fst (sd_store d))"
  shows "map_of (sq_store n m d) k = map_of (sd_store d) (n, m, k)"
    and "distinct (map fst (sq_store n m d))"
proof -
  have *: "map_of (map (\<lambda>r. (snd (snd (fst r)), snd r))
      (filter (\<lambda>r. fst (fst r) = n \<and> fst (snd (fst r)) = m) xs)) k = map_of xs (n, m, k)" for xs :: "((nat \<times> nat \<times> string) \<times> bytes) list"
    by (induction xs) auto
  then show "map_of (sq_store n m d) k = map_of (sd_store d) (n, m, k)"
    unfolding sq_store_def .
  have "distinct (map (\<lambda>r. snd (snd (fst r)))
      (filter (\<lambda>r. fst (fst r) = n \<and> fst (snd (fst r)) = m) xs))"
    if "distinct (map fst xs)" for xs :: "((nat \<times> nat \<times> string) \<times> bytes) list"
    using that by (induction xs) (auto simp: image_iff)
  with assms show "distinct (map fst (sq_store n m d))"
    by (simp add: sq_store_def comp_def)
qed

lemma loadData_good:
  assumes "sq_io db = []" and "secrets_ok (sq_data db)"
  shows "snd (secrets_loadData deser n m db) = db\<lparr>sq_error := NoError\<rparr>"
    and "map_of (fst (secrets_loadData deser n m db)) = blob deser (sq_data db) (n, m)"
proof -
  let ?rows = "sq_store n m (sq_data db)"
  let ?xs = "map (\<lambda>(k, a). (k, deser a)) ?rows"
  have d: "distinct (map fst (sd_store (sq_data db)))" using assms(2) by (simp add: secrets_ok_def)
  have eq: "secrets_loadData deser n m db =
      (fold (\<lambda>(k, v). qm_insert k v) ?xs [], db\<lparr>sq_error := NoError\<rparr>)"
    using assms(1) by (simp add: secrets_loadData_def query_good errorOccurred_def fold_map comp_def split_def)
  then show "snd (secrets_loadData deser n m db) = db\<lparr>sq_error := NoError\<rparr>" by simp
  have "distinct (map fst ?xs)"
    using sq_store_lookup(2) [OF d] by (simp add: comp_def split_def)
  then have "map_of (rev ?xs) = map_of ?xs"
    by (intro map_of_inject_set [THEN iffD2]) (simp_all add: rev_map [symmetric])
  moreover have "map_of (map (\<lambda>(k, a). (k, deser a)) ys) k = map_option deser (map_of ys k)"
    for k and ys :: "(string \<times> bytes) list"
    by (induction ys) auto
  ultimately show "map_of (fst (secrets_loadData deser n m db)) = blob deser (sq_data db) (n, m)"
    using qmap.lookup_fold_ins [of ?xs "[]"]
    by (simp add: eq fun_eq_iff blob_def sq_store_lookup(1) [OF d])
qed

section \<open>The interface of a secrets storage\<close>

text \<open>
  What the credentials database relies on while the storage is in order (\<open>ready\<close>): after a
  successful update the credentials are there, after \<open>storeData\<close> the data, after
  \<open>removeCredentials\<close> neither, and nothing else has changed.
\<close>

locale secrets_storage =
  fixes ready :: "'s \<Rightarrow> bool"
    and creds :: "'s \<Rightarrow> nat \<Rightarrow> (qstring \<times> qstring) option"
    and data :: "'s \<Rightarrow> nat \<times> nat \<Rightarrow> string \<Rightarrow> qvariant option"
    and fits :: "qvariant_map \<Rightarrow> bool"
    and upd :: "nat \<Rightarrow> qstring \<Rightarrow> qstring \<Rightarrow> 's \<Rightarrow> bool \<times> 's"
    and load :: "nat \<Rightarrow> 's \<Rightarrow> (qstring \<times> qstring) option \<times> 's"
    and store :: "nat \<Rightarrow> nat \<Rightarrow> qvariant_map \<Rightarrow> 's \<Rightarrow> bool \<times> 's"
    and loadd :: "nat \<Rightarrow> nat \<Rightarrow> 's \<Rightarrow> qvariant_map \<times> 's"
    and rem :: "nat \<Rightarrow> 's \<Rightarrow> bool \<times> 's"
  assumes upd: "ready s \<Longrightarrow> upd n u p s = (ok, s') \<Longrightarrow>
      ok \<and> ready s' \<and> creds s' = (creds s)(n \<mapsto> (u, p)) \<and> data s' = data s"
    and load: "ready s \<Longrightarrow> load n s = (r, s') \<Longrightarrow>
      r = creds s n \<and> ready s' \<and> creds s' = creds s \<and> data s' = data s"
    and store: "ready s \<Longrightarrow> fits m \<Longrightarrow> store n k m s = (ok, s') \<Longrightarrow>
      ok \<and> ready s' \<and> creds s' = creds s \<and> data s' = (data s)((n, k) := kept m)"
    and loadd: "ready s \<Longrightarrow> loadd n k s = (m, s') \<Longrightarrow>
      map_of m = data s (n, k) \<and> ready s' \<and> creds s' = creds s \<and> data s' = data s"
    and rem: "ready s \<Longrightarrow> rem n s = (ok, s') \<Longrightarrow>
      ok \<and> ready s' \<and> creds s' = (creds s)(n := None)
      \<and> data s' = (\<lambda>(i, k). if i = n then Map.empty else data s (i, k))"
begin

lemma load_after_upd:
  assumes "ready s" and "upd n u p s = (ok, s')" and "load n s' = (r, s'')"
  shows "r = Some (u, p)"
  using upd [OF assms(1,2)] load [OF _ assms(3)] by simp

lemma loadd_after_store:
  assumes "ready s" and "fits m" and "store n k m s = (ok, s')" and "loadd n k s' = (r, s'')"
  shows "map_of r = kept m"
  using store [OF assms(1-3)] loadd [OF _ assms(4)] by simp

lemma nothing_after_rem:
  assumes "ready s" and "rem n s = (ok, s1)" and "load n s1 = (r, s2)" and "loadd n k s2 = (m, s3)"
  shows "ok \<and> r = None \<and> m = []"
proof -
  have "ready s1" "r = None" "ready s2" "map_of m = Map.empty"
    using rem [OF assms(1,2)] load [OF _ assms(3)] loadd [OF _ assms(4)] by auto
  then show ?thesis
    using rem [OF assms(1,2)] by simp
qed

text \<open>A client that stores one account after the other.\<close>

lemma fold_upd:
  assumes "ready s"
  shows "ready (fold (\<lambda>(n, u, p) s. snd (upd n u p s)) xs s)
    \<and> creds (fold (\<lambda>(n, u, p) s. snd (upd n u p s)) xs s) = creds s ++ map_of (rev xs)
    \<and> data (fold (\<lambda>(n, u, p) s. snd (upd n u p s)) xs s) = data s"
  using assms
proof (induction xs arbitrary: s)
  case (Cons x xs)
  obtain n u p where x: "x = (n, u, p)" by (cases x)
  have u: "ready (snd (upd n u p s))" "creds (snd (upd n u p s)) = (creds s)(n \<mapsto> (u, p))"
    "data (snd (upd n u p s)) = data s"
    using upd [OF Cons.prems, of n u p] by (cases "upd n u p s"; simp)+
  have "(creds s)(n \<mapsto> (u, p)) ++ map_of (rev xs) = creds s ++ map_of (rev (x # xs))"
    by (auto simp: x fun_eq_iff map_add_def split: option.splits)
  moreover have "fold (\<lambda>(n, u, p) s. snd (upd n u p s)) (x # xs) s =
      fold (\<lambda>(n, u, p) s. snd (upd n u p s)) xs (snd (upd n u p s))"
    by (simp add: x)
  ultimately show ?case
    using Cons.IH [OF u(1)] u by (simp only: simp_thms)
qed simp

end

section \<open>DefaultSecretsStorage provides it\<close>

definition ss_ready :: "secrets_storage \<Rightarrow> bool" where
  "ss_ready s \<longleftrightarrow> ss_isOpen s \<and>
     (case ss_db s of None \<Rightarrow> False
      | Some (_, db) \<Rightarrow> sq_io db = [] \<and> sq_saved db = None \<and> secrets_ok (sq_data db))"

definition ss_creds :: "secrets_storage \<Rightarrow> nat \<Rightarrow> (qstring \<times> qstring) option" where
  "ss_creds s = (case ss_db s of None \<Rightarrow> Map.empty | Some (_, db) \<Rightarrow> map_of (sd_credentials (sq_data db)))"

definition ss_data ::
    "(bytes \<Rightarrow> qvariant) \<Rightarrow> secrets_storage \<Rightarrow> nat \<times> nat \<Rightarrow> string \<Rightarrow> qvariant option" where
  "ss_data deser s =
     (case ss_db s of None \<Rightarrow> (\<lambda>_ _. None) | Some (_, db) \<Rightarrow> blob deser (sq_data db))"

definition ss_fits :: "(qvariant \<Rightarrow> bytes) \<Rightarrow> (bytes \<Rightarrow> qvariant) \<Rightarrow> qvariant_map \<Rightarrow> bool" where
  "ss_fits ser deser m \<longleftrightarrow> qm_wf m \<and> serializable ser deser m \<and> data_size ser m < SSO_MAX_TOKEN_STORAGE"

lemma ss_readyE:
  assumes "ss_ready s"
  obtains name db where "ss_db s = Some (name, db)" "ss_isOpen s" "sq_io db = []" "sq_saved db = None"
    "secrets_ok (sq_data db)"
  using assms by (auto simp: ss_ready_def split: option.splits)

lemma secrets_updateCredentials_good:
  assumes "sq_io db = []" and "sq_saved db = None" and "secrets_ok (sq_data db)"
  shows "secrets_updateCredentials n u p db = (True, db\<lparr>sq_error := NoError,
    sq_data := (sq_data db)\<lparr>sd_credentials := qh_insert n (u, p) (sd_credentials (sq_data db))\<rparr>\<rparr>)"
proof -
  have "db\<lparr>sq_saved := None, sq_error := NoError,
      sq_data := (sq_data db)\<lparr>sd_credentials := qh_insert n (u, p) (sd_credentials (sq_data db))\<rparr>\<rparr> =
    db\<lparr>sq_error := NoError,
      sq_data := (sq_data db)\<lparr>sd_credentials := qh_insert n (u, p) (sd_credentials (sq_data db))\<rparr>\<rparr>"
    using assms(2) by simp
  then show ?thesis
    using assms by (simp add: secrets_updateCredentials_def start_good exec_good commit_good
        ss_insert_credentials_def secrets_objs errorOccurred_def)
qed

lemma store_loop_good:
  "sq_io db = [] \<Longrightarrow> secrets_ok (sq_data db) \<Longrightarrow> sq_error db = NoError \<Longrightarrow>
     c + data_size ser data < SSO_MAX_TOKEN_STORAGE \<Longrightarrow>
     store_loop ser n m c data db = (True, db\<lparr>sq_data := store_rows ser n m data (sq_data db)\<rparr>)"
proof (induction ser n m c data db rule: store_loop.induct)
  case (2 ser n m c k v data db)
  have c: "\<not> c + length k + length (ser v) \<ge> SSO_MAX_TOKEN_STORAGE" using 2(6) by simp
  show ?case
  proof (cases "\<not> v_isValid v \<or> v_isNull v")
    case True
    with 2(1) [OF refl refl c True] 2 c show ?thesis by (auto simp: Let_def)
  next
    case False
    let ?d = "sq_data db\<lparr>sd_store := qh_insert (n, m, k) (ser v) (sd_store (sq_data db))\<rparr>"
    have e: "sql_exec (ss_insert_store n m k (ser v)) db = db\<lparr>sq_data := ?d\<rparr>"
      using 2(3-5) by (simp add: exec_good ss_insert_store_def secrets_objs)
    with 2(2) [OF refl refl c False refl] 2(3-6) c False show ?thesis
      by (auto simp: Let_def errorOccurred_def secrets_ok_insert)
  qed
qed simp

lemma storeData_good:
  assumes "sq_io db = []" and "sq_saved db = None" and "secrets_ok (sq_data db)"
    and "data_size ser data < SSO_MAX_TOKEN_STORAGE"
  shows "secrets_storeData ser n m data db =
    (True, db\<lparr>sq_error := NoError, sq_data := stored_data ser n m data (sq_data db)\<rparr>)"
proof -
  let ?d = "sq_data db\<lparr>sd_store := filter (\<lambda>r. \<not> (fst (fst r) = n \<and> fst (snd (fst r)) = m)) (sd_store (sq_data db))\<rparr>"
  have "secrets_ok ?d" using assms(3) by (simp add: secrets_ok_def distinct_map_filter)
  then have loop: "store_loop ser n m 0 data
      (db\<lparr>sq_saved := Some (sq_data db), sq_data := ?d, sq_error := NoError\<rparr>) =
    (True, db\<lparr>sq_saved := Some (sq_data db), sq_error := NoError, sq_data := store_rows ser n m data ?d\<rparr>)"
    using store_loop_good [of "db\<lparr>sq_saved := Some (sq_data db), sq_data := ?d, sq_error := NoError\<rparr>"
        0 ser data n m] assms(1,4) by simp
  have "db\<lparr>sq_saved := None, sq_error := NoError, sq_data := store_rows ser n m data ?d\<rparr> =
      db\<lparr>sq_error := NoError, sq_data := store_rows ser n m data ?d\<rparr>"
    using assms(2) by simp
  with assms loop show ?thesis
    by (simp add: secrets_storeData_def start_good exec_good ss_delete_store_def secrets_objs
        errorOccurred_def commit_good stored_data_def)
qed

definition removed :: "nat \<Rightarrow> secrets_data \<Rightarrow> secrets_data" where
  "removed n d = d\<lparr>sd_credentials := filter (\<lambda>r. fst r \<noteq> n) (sd_credentials d),
     sd_store := filter (\<lambda>r. fst (fst r) \<noteq> n) (sd_store d)\<rparr>"

lemma removeCredentials_run:
  assumes "secrets_ok d"
  shows "run_statements [ss_delete_credentials (\<lambda>i. i = n), ss_delete_store (\<lambda>i _. i = n)] d = Some (removed n d)"
proof -
  have "filter (\<lambda>r. fst (fst r) \<noteq> n)
      (filter (\<lambda>r. \<not> (fst (fst r) = n \<and> fst (fst r) \<in> fst ` set (sd_credentials d))) (sd_store d)) =
    filter (\<lambda>r. fst (fst r) \<noteq> n) (sd_store d)"
    by (auto intro: filter_cong)
  then show ?thesis
    using secrets_objs [OF assms]
    by (simp add: ss_delete_credentials_def ss_delete_store_def removed_def del: filter_filter)
qed

lemma removed_views:
  "map_of (sd_credentials (removed n d)) = (map_of (sd_credentials d))(n := None)"
  "blob deser (removed n d) = (\<lambda>(i, k). if i = n then Map.empty else blob deser d (i, k))"
  "secrets_ok d \<Longrightarrow> secrets_ok (removed n d)"
proof -
  show "map_of (sd_credentials (removed n d)) = (map_of (sd_credentials d))(n := None)"
    using map_of_qh_remove [of n "sd_credentials d"] by (simp add: removed_def qh_remove_def)
  show "blob deser (removed n d) = (\<lambda>(i, k). if i = n then Map.empty else blob deser d (i, k))"
    using map_of_filter_keys [of "\<lambda>x. fst x \<noteq> n" "sd_store d"]
    by (auto simp: blob_def removed_def fun_eq_iff)
qed (simp add: secrets_ok_def removed_def distinct_map_filter)

lemma if_open_ready:
  "ss_db s = Some (name, db) \<Longrightarrow> ss_isOpen s \<Longrightarrow>
     if_open r f s = (fst (f db), s\<lparr>ss_db := Some (name, snd (f db))\<rparr>)"
  by (simp add: if_open_def split_def Let_def)

lemma ss_update_views:
  "ss_ready (s\<lparr>ss_db := Some (name, db)\<rparr>) \<longleftrightarrow>
     ss_isOpen s \<and> sq_io db = [] \<and> sq_saved db = None \<and> secrets_ok (sq_data db)"
  "ss_creds (s\<lparr>ss_db := Some (name, db)\<rparr>) = map_of (sd_credentials (sq_data db))"
  "ss_data deser (s\<lparr>ss_db := Some (name, db)\<rparr>) = blob deser (sq_data db)"
  by (simp_all add: ss_ready_def ss_creds_def ss_data_def)

lemma ss_views:
  assumes "ss_db s = Some (name, db)"
  shows "ss_creds s = map_of (sd_credentials (sq_data db))" "ss_data deser s = blob deser (sq_data db)"
  using assms by (simp_all add: ss_creds_def ss_data_def)

interpretation sec: secrets_storage ss_ready ss_creds "ss_data deser" "ss_fits ser deser"
  ss_updateCredentials ss_loadCredentials "ss_storeData ser" "ss_loadData deser" ss_removeCredentials
  for ser deser
proof unfold_locales
  fix s n u p ok s' assume r: "ss_ready s" and c: "ss_updateCredentials n u p s = (ok, s')"
  from r obtain name db where db: "ss_db s = Some (name, db)" "ss_isOpen s" "sq_io db = []"
    "sq_saved db = None" "secrets_ok (sq_data db)" by (rule ss_readyE)
  with c have "ok" "s' = s\<lparr>ss_db := Some (name, db\<lparr>sq_error := NoError,
      sq_data := (sq_data db)\<lparr>sd_credentials := qh_insert n (u, p) (sd_credentials (sq_data db))\<rparr>\<rparr>)\<rparr>"
    by (simp_all add: ss_updateCredentials_def if_open_ready secrets_updateCredentials_good)
  with db show "ok \<and> ss_ready s' \<and> ss_creds s' = (ss_creds s)(n \<mapsto> (u, p)) \<and> ss_data deser s' = ss_data deser s"
    by (simp add: ss_update_views ss_views [OF db(1)] secrets_ok_def blob_def)
next
  fix s n r s' assume r: "ss_ready s" and c: "ss_loadCredentials n s = (r, s')"
  from r obtain name db where db: "ss_db s = Some (name, db)" "ss_isOpen s" "sq_io db = []"
    "sq_saved db = None" "secrets_ok (sq_data db)" by (rule ss_readyE)
  have "secrets_loadCredentials n db = (sq_credentials n (sq_data db), db\<lparr>sq_error := NoError\<rparr>)"
    using db(3) by (simp add: secrets_loadCredentials_def query_good split: option.splits)
  with c db show "r = ss_creds s n \<and> ss_ready s' \<and> ss_creds s' = ss_creds s \<and> ss_data deser s' = ss_data deser s"
    by (auto simp: ss_loadCredentials_def if_open_ready ss_update_views ss_views [OF db(1)] sq_credentials_def)
next
  fix s m n k ok s'
  assume r: "ss_ready s" and f: "ss_fits ser deser m" and c: "ss_storeData ser n k m s = (ok, s')"
  from r obtain name db where db: "ss_db s = Some (name, db)" "ss_isOpen s" "sq_io db = []"
    "sq_saved db = None" "secrets_ok (sq_data db)" by (rule ss_readyE)
  from f have f': "qm_wf m" "serializable ser deser m" "data_size ser m < SSO_MAX_TOKEN_STORAGE"
    by (simp_all add: ss_fits_def)
  with c db have "ok" "s' = s\<lparr>ss_db := Some (name, db\<lparr>sq_error := NoError,
      sq_data := stored_data ser n k m (sq_data db)\<rparr>)\<rparr>"
    by (simp_all add: ss_storeData_def if_open_ready storeData_good)
  with db f' show "ok \<and> ss_ready s' \<and> ss_creds s' = ss_creds s \<and> ss_data deser s' = (ss_data deser s)((n, k) := kept m)"
    by (simp add: ss_update_views ss_views [OF db(1)] blob_stored_data secrets_ok_stored_data)
next
  fix s n k m s' assume r: "ss_ready s" and c: "ss_loadData deser n k s = (m, s')"
  from r obtain name db where db: "ss_db s = Some (name, db)" "ss_isOpen s" "sq_io db = []"
    "sq_saved db = None" "secrets_ok (sq_data db)" by (rule ss_readyE)
  with c have "m = fst (secrets_loadData deser n k db)" "s' = s\<lparr>ss_db := Some (name, db\<lparr>sq_error := NoError\<rparr>)\<rparr>"
    by (simp_all add: ss_loadData_def if_open_ready loadData_good(1))
  with db loadData_good(2) [OF db(3,5), of deser n k]
  show "map_of m = ss_data deser s (n, k) \<and> ss_ready s' \<and> ss_creds s' = ss_creds s \<and> ss_data deser s' = ss_data deser s"
    by (simp add: ss_update_views ss_views [OF db(1)])
next
  fix s n ok s' assume r: "ss_ready s" and c: "ss_removeCredentials n s = (ok, s')"
  from r obtain name db where db: "ss_db s = Some (name, db)" "ss_isOpen s" "sq_io db = []"
    "sq_saved db = None" "secrets_ok (sq_data db)" by (rule ss_readyE)
  have "ok" "s' = s\<lparr>ss_db := Some (name, db\<lparr>sq_data := removed n (sq_data db), sq_error := NoError\<rparr>)\<rparr>"
    using c db transactionalExec_good [OF db(3,4) removeCredentials_run [OF db(5)]]
    by (simp_all add: ss_removeCredentials_def if_open_ready secrets_removeCredentials_def)
  with db show "ok \<and> ss_ready s' \<and> ss_creds s' = (ss_creds s)(n := None)
      \<and> ss_data deser s' = (\<lambda>(i, k). if i = n then Map.empty else ss_data deser s (i, k))"
    by (auto simp: ss_update_views ss_views [OF db(1)] removed_views fun_eq_iff)
qed

end
