(* ===== verification/Credentials_Db.thy ===== *)
theory Credentials_Db
  imports Meta_Properties Secrets_Db
begin

text \<open>
  \<open>SecretsCache\<close> and \<open>CredentialsDB\<close> (src/signond/credentialsdb.cpp, credentialsdb_p.h): the
  database the daemon works with, made of the metadata database, the secrets storage, which may
  be closed, and the cache that takes the secrets while it is. The secrets storage is the
  \<open>DefaultSecretsStorage\<close>; \<open>storeToDB\<close> is defined for any storage.
\<close>

section \<open>SecretsCache\<close>

record auth_cache =
  m_username :: qstring
  m_password :: qstring
  m_storePassword :: bool
  m_blobData :: "(nat, qvariant_map) qhash"

type_synonym secrets_cache = "(nat, auth_cache) qhash"

definition new_AuthCache :: auth_cache where
  "new_AuthCache = \<lparr>m_username = QNull, m_password = QNull, m_storePassword = False, m_blobData = []\<rparr>"

definition lookupCredentials :: "nat \<Rightarrow> secrets_cache \<Rightarrow> (qstring \<times> qstring) option" where
  "lookupCredentials n m_cache = map_option (\<lambda>c. (m_username c, m_password c)) (map_of m_cache n)"

definition lookupData :: "nat \<Rightarrow> nat \<Rightarrow> secrets_cache \<Rightarrow> qvariant_map" where
  "lookupData n method m_cache = qh_value (m_blobData (qh_value m_cache n new_AuthCache)) method []"

definition cache_updateCredentials ::
    "nat \<Rightarrow> qstring \<Rightarrow> qstring \<Rightarrow> bool \<Rightarrow> secrets_cache \<Rightarrow> secrets_cache" where
  "cache_updateCredentials n username pass store m_cache =
     (if n = 0 then m_cache
      else qh_insert n ((qh_value m_cache n new_AuthCache)
        \<lparr>m_username := username, m_password := pass, m_storePassword := store\<rparr>) m_cache)"

definition cache_updateData :: "nat \<Rightarrow> nat \<Rightarrow> qvariant_map \<Rightarrow> secrets_cache \<Rightarrow> secrets_cache" where
  "cache_updateData n method data m_cache =
     (if n = 0 then m_cache
      else let c = qh_value m_cache n new_AuthCache in
        qh_insert n (c\<lparr>m_blobData := qh_insert method data (m_blobData c)\<rparr>) m_cache)"

text \<open>The password that is written to permanent storage for a cache entry.\<close>

definition flushed_password :: "auth_cache \<Rightarrow> qstring" where
  "flushed_password c = (if m_storePassword c then m_password c else QNull)"

definition storeToDB ::
    "(nat \<Rightarrow> qstring \<Rightarrow> qstring \<Rightarrow> 's \<Rightarrow> bool \<times> 's) \<Rightarrow> (nat \<Rightarrow> nat \<Rightarrow> qvariant_map \<Rightarrow> 's \<Rightarrow> bool \<times> 's)
       \<Rightarrow> secrets_cache \<Rightarrow> 's \<Rightarrow> 's" where
  "storeToDB updateCredentials storeData m_cache secretsStorage =
     fold (\<lambda>(n, cache) s.
        let s = (if \<not> qisEmpty (m_username cache) \<or> \<not> qisEmpty (flushed_password cache)
                 then snd (updateCredentials n (m_username cache) (flushed_password cache) s) else s)
        in fold (\<lambda>(method, data) s. snd (storeData n method data s)) (m_blobData cache) s)
       m_cache secretsStorage"

section \<open>CredentialsDB\<close>

record credentials_db =
  cd_meta :: meta_db
  cd_secrets :: secrets_storage
  cd_cache :: secrets_cache
  cd_lastError :: db_error
  cd_updated :: "nat list"

text \<open>The signals \<open>credentialsUpdated\<close> that have been emitted are listed in \<open>cd_updated\<close>.\<close>

definition on_meta :: "(meta_db \<Rightarrow> 'r \<times> meta_db) \<Rightarrow> credentials_db \<Rightarrow> 'r \<times> credentials_db" where
  "on_meta f db = (let (r, m) = f (cd_meta db) in (r, db\<lparr>cd_meta := m\<rparr>))"

definition on_secrets ::
    "(secrets_storage \<Rightarrow> 'r \<times> secrets_storage) \<Rightarrow> credentials_db \<Rightarrow> 'r \<times> credentials_db" where
  "on_secrets f db = (let (r, s) = f (cd_secrets db) in (r, db\<lparr>cd_secrets := s\<rparr>))"

text \<open>The error monitor: its constructor, its destructor, and a method body between the two.\<close>

definition init_error :: "credentials_db \<Rightarrow> credentials_db" where
  "init_error db = db\<lparr>cd_lastError := NoError, cd_meta := clearError (cd_meta db),
     cd_secrets := (cd_secrets db)\<lparr>ss_lastError := NoError\<rparr>\<rparr>"

definition collect_error :: "credentials_db \<Rightarrow> credentials_db" where
  "collect_error db =
     (if isValid (cd_lastError db) then db
      else if isValid (ss_lastError (cd_secrets db))
      then db\<lparr>cd_lastError := ss_lastError (cd_secrets db)\<rparr>
      else db\<lparr>cd_lastError := sq_error (cd_meta db)\<rparr>)"

definition monitored ::
    "(credentials_db \<Rightarrow> 'r \<times> credentials_db) \<Rightarrow> credentials_db \<Rightarrow> 'r \<times> credentials_db" where
  "monitored f db = (let (r, db) = f (init_error db) in (r, collect_error db))"

definition isSecretsDBOpen :: "credentials_db \<Rightarrow> bool" where
  "isSecretsDBOpen db \<longleftrightarrow> ss_isOpen (cd_secrets db)"

text \<open>\<open>RETURN_IF_NO_SECRETS_DB\<close>\<close>

definition need_secrets ::
    "'r \<Rightarrow> (credentials_db \<Rightarrow> 'r \<times> credentials_db) \<Rightarrow> credentials_db \<Rightarrow> 'r \<times> credentials_db" where
  "need_secrets retval f db =
     (if \<not> isSecretsDBOpen db then (retval, db\<lparr>cd_lastError := ConnectionError\<rparr>) else f db)"

definition cd_init :: "credentials_db \<Rightarrow> bool \<times> credentials_db" where
  "cd_init = on_meta meta_init"

definition openSecretsDB ::
    "(qvariant \<Rightarrow> bytes) \<Rightarrow> string \<Rightarrow> credentials_db \<Rightarrow> bool \<times> credentials_db" where
  "openSecretsDB ser secretsDbName db =
     (let (ok, db) = on_secrets (ss_initialize secretsDbName) db in
      if \<not> ok then (False, db)
      else (True, db\<lparr>cd_secrets := storeToDB ss_updateCredentials (ss_storeData ser) (cd_cache db) (cd_secrets db),
                     cd_cache := []\<rparr>))"

definition closeSecretsDB :: "credentials_db \<Rightarrow> credentials_db" where
  "closeSecretsDB db = db\<lparr>cd_secrets := ss_close (cd_secrets db)\<rparr>"

definition cd_methods :: "nat \<Rightarrow> qstring \<Rightarrow> credentials_db \<Rightarrow> qstring list \<times> credentials_db" where
  "cd_methods n token = monitored (on_meta (meta_methods n token))"

definition cd_checkPassword ::
    "nat \<Rightarrow> qstring \<Rightarrow> qstring \<Rightarrow> credentials_db \<Rightarrow> bool \<times> credentials_db" where
  "cd_checkPassword n username pass =
     monitored (need_secrets False (\<lambda>db.
       let (info, db) = on_meta (meta_identity n) db in
       if isUserNameSecret info then on_secrets (ss_checkPassword n username pass) db
       else if qeq username (userName info) then on_secrets (ss_checkPassword n QNull pass) db
       else (False, db)))"

definition cd_credentials :: "nat \<Rightarrow> bool \<Rightarrow> credentials_db \<Rightarrow> identity_info \<times> credentials_db" where
  "cd_credentials n queryPassword =
     monitored (\<lambda>db.
       let (info, db) = on_meta (meta_identity n) db in
       if queryPassword \<and> \<not> isNew info
       then let (r, db) =
                  (if storePassword info \<and> isSecretsDBOpen db then on_secrets (ss_loadCredentials n) db
                   else (lookupCredentials n (cd_cache db), db));
                (username, pass) = (case r of None \<Rightarrow> (QNull, QNull) | Some up \<Rightarrow> up);
                info = (if isUserNameSecret info then setUserName username info else info)
            in (setPassword pass info, db)
       else (info, db))"

definition cd_identities :: "credentials_db \<Rightarrow> identity_info list \<times> credentials_db" where
  "cd_identities = monitored (on_meta meta_identities)"

definition cd_updateCredentials :: "identity_info \<Rightarrow> credentials_db \<Rightarrow> nat \<times> credentials_db" where
  "cd_updateCredentials info =
     monitored (\<lambda>db.
       let (n, db) = on_meta (meta_updateIdentity info) db in
       if n = 0 then (n, db)
       else
         let db =
              (if hasSecrets info
               then let pass = password info;
                        name = (if isUserNameSecret info then userName info else QNull) in
                 if storePassword info \<and> isSecretsDBOpen db
                 then snd (on_secrets (ss_updateCredentials n name pass) db)
                 else db\<lparr>cd_cache := cache_updateCredentials n name pass (storePassword info) (cd_cache db)\<rparr>
               else db)
         in (n, db\<lparr>cd_updated := cd_updated db @ [n]\<rparr>))"

definition cd_insertCredentials :: "identity_info \<Rightarrow> credentials_db \<Rightarrow> nat \<times> credentials_db" where
  "cd_insertCredentials info db =
     (let newInfo = (if \<not> isNew info then setNew info else info) in cd_updateCredentials newInfo db)"

definition cd_removeCredentials :: "nat \<Rightarrow> credentials_db \<Rightarrow> bool \<times> credentials_db" where
  "cd_removeCredentials n =
     monitored (need_secrets False (\<lambda>db.
       let (ok, db) = on_secrets (ss_removeCredentials n) db in
       if ok then on_meta (meta_removeIdentity n) db else (False, db)))"

definition cd_clear :: "credentials_db \<Rightarrow> bool \<times> credentials_db" where
  "cd_clear =
     monitored (need_secrets False (\<lambda>db.
       let (ok, db) = on_secrets ss_clear db in
       if ok then on_meta meta_clear db else (False, db)))"

definition cd_loadData ::
    "(bytes \<Rightarrow> qvariant) \<Rightarrow> nat \<Rightarrow> qstring \<Rightarrow> credentials_db \<Rightarrow> qvariant_map \<times> credentials_db" where
  "cd_loadData deser n method =
     monitored (\<lambda>db.
       if n = 0 then ([], db)
       else let (mid, db) = on_meta (methodId method) db in
         if mid = 0 then ([], db)
         else if isSecretsDBOpen db then on_secrets (ss_loadData deser n mid) db
         else (lookupData n mid (cd_cache db), db))"

definition cd_storeData ::
    "(qvariant \<Rightarrow> bytes) \<Rightarrow> nat \<Rightarrow> qstring \<Rightarrow> qvariant_map \<Rightarrow> credentials_db \<Rightarrow> bool \<times> credentials_db"
  where
  "cd_storeData ser n method data =
     monitored (\<lambda>db.
       if n = 0 then (False, db)
       else let (mid, db) = on_meta (methodId method) db;
                ((mid, ok), db) =
                  (if mid = 0 then on_meta (\<lambda>m. let (i, ok, m) = insertMethod method m in ((i, ok), m)) db
                   else ((mid, True), db)) in
         if \<not> ok then (False, db)
         else if isSecretsDBOpen db then on_secrets (ss_storeData ser n mid data) db
         else (True, db\<lparr>cd_cache := cache_updateData n mid data (cd_cache db)\<rparr>))"

definition cd_removeData :: "nat \<Rightarrow> qstring \<Rightarrow> credentials_db \<Rightarrow> bool \<times> credentials_db" where
  "cd_removeData n method =
     monitored (need_secrets False (\<lambda>db.
       if n = 0 then (False, db)
       else if \<not> qisEmpty method
       then let (mid, db) = on_meta (methodId method) db in
         if mid = 0 then (False, db) else on_secrets (ss_removeData n mid) db
       else on_secrets (ss_removeData n 0) db))"

definition cd_accessControlList :: "nat \<Rightarrow> credentials_db \<Rightarrow> qstring list \<times> credentials_db" where
  "cd_accessControlList n = monitored (on_meta (meta_accessControlList n))"

definition cd_ownerList :: "nat \<Rightarrow> credentials_db \<Rightarrow> qstring list \<times> credentials_db" where
  "cd_ownerList n = monitored (on_meta (meta_ownerList n))"

definition credentialsOwnerSecurityToken :: "nat \<Rightarrow> credentials_db \<Rightarrow> qstring \<times> credentials_db" where
  "credentialsOwnerSecurityToken n db =
     (let (owners, db) = cd_ownerList n db in (if owners = [] then QNull else hd owners, db))"

definition cd_addReference :: "nat \<Rightarrow> qstring \<Rightarrow> qstring \<Rightarrow> credentials_db \<Rightarrow> bool \<times> credentials_db" where
  "cd_addReference n token reference = monitored (on_meta (meta_addReference n token reference))"

definition cd_removeReference :: "nat \<Rightarrow> qstring \<Rightarrow> qstring \<Rightarrow> credentials_db \<Rightarrow> bool \<times> credentials_db" where
  "cd_removeReference n token reference = monitored (on_meta (meta_removeReference n token reference))"

definition cd_references :: "nat \<Rightarrow> qstring \<Rightarrow> credentials_db \<Rightarrow> qstring list \<times> credentials_db" where
  "cd_references n token = monitored (on_meta (meta_references n token))"

section \<open>The cache is written to any storage that keeps its interface\<close>

definition cached_creds :: "secrets_cache \<Rightarrow> nat \<Rightarrow> (qstring \<times> qstring) option" where
  "cached_creds cache n =
     (case map_of cache n of
        None \<Rightarrow> None
      | Some c \<Rightarrow> if qisEmpty (m_username c) \<and> qisEmpty (flushed_password c) then None
          else Some (m_username c, flushed_password c))"

context secrets_storage
begin

lemma fold_store:
  assumes "ready s" and "\<forall>(k, m) \<in> set ms. fits m"
  shows "ready (fold (\<lambda>(k, m) s. snd (store n k m s)) ms s)
    \<and> creds (fold (\<lambda>(k, m) s. snd (store n k m s)) ms s) = creds s"
  using assms
proof (induction ms arbitrary: s)
  case (Cons x ms)
  obtain k m where x: "x = (k, m)" by (cases x)
  have "fits m" using Cons.prems(2) x by auto
  from store [OF Cons.prems(1) this prod.collapse [symmetric], of n k]
  have "ready (snd (store n k m s))" "creds (snd (store n k m s)) = creds s" by blast+
  with Cons.IH [of "snd (store n k m s)"] Cons.prems(2) show ?case by (simp add: x)
qed simp

lemma storeToDB_creds:
  assumes "ready s" and "distinct (map fst cache)"
    and "\<forall>(n, c) \<in> set cache. \<forall>(k, m) \<in> set (m_blobData c). fits m"
  shows "ready (storeToDB upd store cache s) \<and> creds (storeToDB upd store cache s) = creds s ++ cached_creds cache"
  using assms
proof (induction cache arbitrary: s)
  case Nil
  then show ?case by (auto simp: storeToDB_def cached_creds_def fun_eq_iff map_add_def)
next
  case (Cons x cache)
  obtain n c where x: "x = (n, c)" by (cases x)
  let ?e = "qisEmpty (m_username c) \<and> qisEmpty (flushed_password c)"
  define s1 where "s1 = (if \<not> ?e then snd (upd n (m_username c) (flushed_password c) s) else s)"
  have s1: "ready s1" "creds s1 = (if ?e then creds s else (creds s)(n \<mapsto> (m_username c, flushed_password c)))"
    using upd [OF Cons.prems(1) prod.collapse [symmetric], of n "m_username c" "flushed_password c"] Cons.prems(1)
    by (simp_all add: s1_def)
  define s2 where "s2 = fold (\<lambda>(k, m) s. snd (store n k m s)) (m_blobData c) s1"
  have s2: "ready s2" "creds s2 = creds s1"
    using fold_store [OF s1(1), of "m_blobData c" n] Cons.prems(3) x by (auto simp: s2_def)
  have step: "storeToDB upd store (x # cache) s = storeToDB upd store cache s2"
    by (simp add: storeToDB_def x s2_def s1_def Let_def)
  have "map_of cache n = None" using Cons.prems(2) by (simp add: x map_of_eq_None_iff)
  then have "creds s1 ++ cached_creds cache = creds s ++ cached_creds (x # cache)"
    unfolding s1 by (auto simp: x cached_creds_def fun_eq_iff map_add_def split: option.splits)
  with Cons.IH [OF s2(1)] Cons.prems s2 show ?case by (simp add: step)
qed

end

section \<open>Which passwords are in storage\<close>

definition pw_in :: "qstring set \<Rightarrow> secrets_data \<Rightarrow> bool" where
  "pw_in A d \<longleftrightarrow> (\<forall>(n, u, p) \<in> set (sd_credentials d). p \<in> A)"

lemma pw_in_insert: "pw_in A d \<Longrightarrow> p \<in> A \<Longrightarrow> pw_in A (d\<lparr>sd_credentials := qh_insert n (u, p) (sd_credentials d)\<rparr>)"
proof -
  have "(\<forall>(n, u, p) \<in> set h. p \<in> A) \<Longrightarrow> p \<in> A \<Longrightarrow> (\<forall>(n, u, p) \<in> set (qh_insert n (u, p) h). p \<in> A)"
    for h :: "(nat \<times> qstring \<times> qstring) list"
    by (induction h) (auto split: if_splits)
  then show "pw_in A d \<Longrightarrow> p \<in> A \<Longrightarrow> ?thesis" by (simp add: pw_in_def)
qed

lemma pw_in_preserve:
  "preserves (pw_in A) (ss_delete_credentials P)" "preserves (pw_in A) (ss_delete_store Q)"
  "preserves (pw_in A) (ss_insert_store n m k a)" "preserves (pw_in A) (ss_set_version v)"
  "preserves (pw_in A) (ss_create obj)" "p \<in> A \<Longrightarrow> preserves (pw_in A) (ss_insert_credentials n u p)"
  by (auto intro!: preservesI pw_in_insert simp: ss_delete_credentials_def ss_delete_store_def
      ss_insert_store_def ss_set_version_def ss_create_def ss_insert_credentials_def split: if_splits)
     (auto simp: pw_in_def)

definition all_files :: "(secrets_data \<Rightarrow> bool) \<Rightarrow> secrets_storage \<Rightarrow> bool" where
  "all_files P s \<longleftrightarrow> (case ss_db s of None \<Rightarrow> True | Some (_, db) \<Rightarrow> db_inv P db)
     \<and> (\<forall>(name, d) \<in> set (ss_files s). P d)"

lemma if_open_all_files:
  "all_files P s \<Longrightarrow> (\<And>db. db_inv P db \<Longrightarrow> db_inv P (snd (f db))) \<Longrightarrow> all_files P (snd (if_open r f s))"
  by (auto simp: all_files_def if_open_def split_def Let_def split: option.splits)

lemma inv_create_loop:
  "(\<And>obj. preserves P (ss_create obj)) \<Longrightarrow> db_inv P db \<Longrightarrow> db_inv P (snd (secrets_create_loop objs db))"
  by (induction objs arbitrary: db)
     (auto simp: Let_def split_def intro!: db_inv_exec db_inv_commit)

lemma inv_start_commit:
  assumes "db_inv P db" and "\<And>db. db_inv P db \<Longrightarrow> db_inv P (snd (f db))"
    and "\<And>db b db1. startTransaction db = (b, db1) \<Longrightarrow> g db = (if b then f db1 else (r, db1))"
  shows "db_inv P (snd (g db))"
  using assms db_inv_start [of P db] by (cases "startTransaction db") auto

lemma inv_secrets_update:
  assumes "db_inv P db" and "preserves P (ss_insert_credentials n u p)"
  shows "db_inv P (snd (secrets_updateCredentials n u p db))"
  unfolding secrets_updateCredentials_def
  using db_inv_start [OF assms(1)] assms(2)
  by (auto simp: Let_def split_def intro: db_inv_exec db_inv_rollback db_inv_commit)

lemma inv_store_loop:
  "(\<And>k a. preserves P (ss_insert_store n m k a)) \<Longrightarrow> db_inv P db \<Longrightarrow> db_inv P (snd (store_loop ser n m c data db))"
  by (induction ser n m c data db rule: store_loop.induct) (simp_all add: Let_def db_inv_exec)

lemma inv_commit_or_rollback:
  "db_inv P db \<Longrightarrow> db_inv P (snd (let (c, db) = sql_commit db in
     if c then (True, db) else (False, sql_rollback db)))"
  using db_inv_commit [of P db] by (simp add: split_def Let_def db_inv_rollback)

lemma inv_secrets_storeData:
  assumes "db_inv P db" and "\<And>k a. preserves P (ss_insert_store n m k a)"
    and "\<And>Q. preserves P (ss_delete_store Q)"
  shows "db_inv P (snd (secrets_storeData ser n m data db))"
proof -
  obtain b db1 where 1: "startTransaction db = (b, db1)" by force
  define db2 where "db2 = sql_exec (ss_delete_store (\<lambda>i j. i = n \<and> j = m)) db1"
  obtain a db3 where 3: "store_loop ser n m 0 data db2 = (a, db3)" by force
  obtain c db4 where 4: "sql_commit db3 = (c, db4)" by force
  have i1: "db_inv P db1" by (rule inv_steps(1) [OF assms(1) 1])
  have i2: "db_inv P db2" unfolding db2_def by (intro db_inv_exec i1 assms(3))
  have i3: "db_inv P db3" using inv_store_loop [OF assms(2) i2, of ser 0 data] 3 by simp
  have i4: "db_inv P db4" by (rule inv_steps(2) [OF i3 4])
  have "snd (secrets_storeData ser n m data db) \<in> {db1, sql_rollback db2, db4, sql_rollback db4, sql_rollback db3}"
    by (simp add: secrets_storeData_def Let_def 1 3 4 flip: db2_def)
  with i1 i2 i3 i4 show ?thesis by (auto intro: db_inv_rollback)
qed

lemma inv_secrets_removeData:
  assumes "db_inv P db" and "\<And>Q. preserves P (ss_delete_store Q)"
  shows "db_inv P (snd (secrets_removeData n m db))"
proof -
  obtain b db1 where 1: "startTransaction db = (b, db1)" by force
  define db2 where "db2 = sql_exec (if m = 0 then ss_delete_store (\<lambda>i _. i = n)
    else ss_delete_store (\<lambda>i j. i = n \<and> j = m)) db1"
  obtain c db3 where 3: "sql_commit db2 = (c, db3)" by force
  have i1: "db_inv P db1" by (rule inv_steps(1) [OF assms(1) 1])
  have i2: "db_inv P db2" unfolding db2_def by (intro db_inv_exec i1) (simp add: assms(2))
  have i3: "db_inv P db3" by (rule inv_steps(2) [OF i2 3])
  have "snd (secrets_removeData n m db) \<in> {db1, sql_rollback db2, db3, sql_rollback db3}"
    by (simp add: secrets_removeData_def Let_def 1 3 flip: db2_def)
  with i1 i2 i3 show ?thesis by (auto intro: db_inv_rollback)
qed

lemma inv_secrets_init:
  assumes "db_inv P db" and "\<And>obj. preserves P (ss_create obj)" and "\<And>v. preserves P (ss_set_version v)"
  shows "db_inv P (snd (secrets_init db))"
proof -
  obtain c db1 where 1: "sql_connect db = (c, db1)" by force
  obtain ok db2 where 2: "secrets_create_loop secrets_createTableQuery db1 = (ok, db2)" by force
  obtain q db3 where 3: "sql_query sd_version db1 = (q, db3)" by force
  have i1: "db_inv P db1" by (rule inv_steps(5) [OF assms(1) 1])
  have i2: "db_inv P db2" using inv_create_loop [OF assms(2) i1] 2 by (metis snd_conv)
  have i3: "db_inv P db3" by (rule inv_steps(4) [OF i1 3])
  have "snd (secrets_init db) \<in> {db1, db2, sql_exec (ss_set_version SECRETS_VERSION) db2, db3,
      sql_exec (ss_set_version SECRETS_VERSION) db3}"
    by (simp add: secrets_init_def sql_init_def base_updateDB_def Let_def 1 2 3)
  moreover have "db_inv P (sql_exec (ss_set_version v) db')" if "db_inv P db'" for v db'
    by (rule db_inv_exec [OF that assms(3)])
  ultimately show ?thesis using i1 i2 i3 by auto
qed

end
