(* ===== verification/Secrets_Properties.thy ===== *)
theory Secrets_Properties
  imports Secrets_Db
begin

text \<open>
  What the secrets storage guarantees, and what a failing commit does to it.
\<close>

section \<open>Examples\<close>

definition sample_ser :: "qvariant \<Rightarrow> bytes" where
  "sample_ser v = (case v of VBool b \<Rightarrow> [if b then 1 else 0] | _ \<Rightarrow> [2])"

definition sample_deser :: "bytes \<Rightarrow> qvariant" where
  "sample_deser a = (if a = [0] then VBool False else if a = [1] then VBool True else VOther [])"

definition sample_data :: qvariant_map where
  "sample_data = [(''token'', VBool True), (''user'', VBool False)]"

definition sample_secrets :: secrets_db where
  "sample_secrets = \<lparr>sq_data = empty_secrets\<lparr>sd_objects := secrets_createTableQuery, sd_version := 1\<rparr>,
     sq_saved = None, sq_error = NoError, sq_io = []\<rparr>"

definition sample_storage :: secrets_storage where
  "sample_storage = \<lparr>ss_isOpen = True, ss_lastError = NoError, ss_db = Some (''signon-secrets.db'', sample_secrets),
     ss_files = [], ss_io = []\<rparr>"

lemma sample_secrets_ok: "secrets_ok (sq_data sample_secrets)" "sq_io sample_secrets = []"
  "sq_saved sample_secrets = None"
  by (simp_all add: sample_secrets_def secrets_ok_def empty_secrets_def)

lemma sample_ready: "ss_ready sample_storage"
  using sample_secrets_ok by (simp add: ss_ready_def sample_storage_def)

lemma sample_fits: "ss_fits sample_ser sample_deser sample_data"
  by (simp add: ss_fits_def sample_data_def serializable_def sample_ser_def sample_deser_def
      SSO_MAX_TOKEN_STORAGE_def qm_wf_def less_list_code)

section \<open>Properties\<close>

text \<open>Whatever the driver does, \<open>SecretsDB::storeData\<close> either replaces the data of one method of one
  identity by the non-null values it was given, touching no password and no other data, which it
  does only below the limit of 4096 bytes, or it returns false and changes nothing; in both cases
  its transaction is closed.\<close>

theorem storeData_all_or_nothing:
  assumes "sq_saved db = None" and "qm_wf data" and "serializable ser deser data"
    and "secrets_storeData ser n m data db = (ok, db')"
  shows "durable db' = sq_data db' \<and>
    (if ok then blob deser (sq_data db') = (blob deser (sq_data db))((n, m) := kept data)
        \<and> sd_credentials (sq_data db') = sd_credentials (sq_data db)
        \<and> (data = [] \<or> data_size ser data < 4096)
     else sq_data db' = sq_data db)"
  using storeData_atomic [OF assms(1,4)] blob_stored_data [OF assms(2,3), of n m "sq_data db"]
  by (auto simp: SSO_MAX_TOKEN_STORAGE_def)

theorem storeData_all_or_nothing_witness:
  "blob sample_deser (sq_data (snd (secrets_storeData sample_ser 1 2 sample_data sample_secrets))) (1, 2) ''user''
     = Some (VBool False)"
proof -
  let ?r = "secrets_storeData sample_ser 1 2 sample_data sample_secrets"
  have fits: "qm_wf sample_data" "serializable sample_ser sample_deser sample_data"
      "data_size sample_ser sample_data < SSO_MAX_TOKEN_STORAGE"
    using sample_fits by (simp_all add: ss_fits_def)
  have "?r = (True, snd ?r)"
    using storeData_good [OF sample_secrets_ok(2,3,1) fits(3)] by simp
  then show ?thesis
    using storeData_all_or_nothing [OF sample_secrets_ok(3) fits(1,2), of 1 2 True "snd ?r"]
    by (simp add: kept_def storable_def sample_data_def)
qed

text \<open>While the storage is open and its driver works, data stored for a method of an identity,
  if it fits, is read back as it was stored but for null values, and a password as it was.\<close>

theorem secrets_roundtrip:
  assumes "ss_ready s" and "ss_fits ser deser m"
    and "ss_updateCredentials n u p s = (ok1, s1)" and "ss_storeData ser n k m s1 = (ok2, s2)"
    and "ss_loadCredentials n s2 = (r, s3)" and "ss_loadData deser n k s3 = (m', s4)"
  shows "ok1 \<and> ok2 \<and> r = Some (u, p) \<and> map_of m' = kept m"
proof -
  note 1 = sec.upd [OF assms(1,3)]
  note 2 = sec.store [OF _ assms(2,4)]
  note 3 = sec.load [OF _ assms(5)]
  note 4 = sec.loadd [OF _ assms(6)]
  show ?thesis using 1 2 3 4 by simp
qed

theorem secrets_roundtrip_witness:
  "fst (ss_loadCredentials 7 (snd (ss_storeData sample_ser 7 2 sample_data
     (snd (ss_updateCredentials 7 QNull (QStr ''pw'') sample_storage))))) = Some (QNull, QStr ''pw'')"
  using secrets_roundtrip [OF sample_ready sample_fits prod.collapse [symmetric] prod.collapse [symmetric]
      prod.collapse [symmetric] prod.collapse [symmetric]]
  by blast

text \<open>While the storage is open and its driver works, removing the credentials of an identity leaves
  neither a user name or password nor data of any method of it.\<close>

theorem nothing_left_after_removal:
  assumes "ss_ready s" and "ss_removeCredentials n s = (ok, s1)"
    and "ss_loadCredentials n s1 = (r, s2)" and "ss_loadData deser n k s2 = (m, s3)"
  shows "ok \<and> r = None \<and> m = []"
  using assms by (rule sec.nothing_after_rem)

theorem nothing_left_after_removal_witness:
  "fst (ss_loadCredentials 7 (snd (ss_removeCredentials 7
     (snd (ss_updateCredentials 7 QNull (QStr ''pw'') sample_storage))))) = None"
proof -
  have "ss_ready (snd (ss_updateCredentials 7 QNull (QStr ''pw'') sample_storage))"
    using sec.upd [OF sample_ready prod.collapse [symmetric]] by blast
  from nothing_left_after_removal [OF this prod.collapse [symmetric] prod.collapse [symmetric] prod.collapse [symmetric]]
  show ?thesis by blast
qed

text \<open>When the commit of \<open>SecretsDB::updateCredentials\<close> fails, the transaction is not rolled back:
  from then on, and although the driver works again, storing credentials or data, removing
  them and clearing the database all fail and the transaction stays open.\<close>

theorem open_transaction_blocks_storage:
  assumes "sq_saved db = Some d"
  shows "secrets_updateCredentials n u p db = (False, snd (startTransaction db))
    \<and> secrets_storeData ser n m data db = (False, snd (startTransaction db))
    \<and> secrets_removeData n m db = (False, snd (startTransaction db))
    \<and> \<not> fst (secrets_removeCredentials n db) \<and> \<not> fst (secrets_clear db)
    \<and> sq_saved (snd (startTransaction db)) = Some d \<and> sq_data (snd (startTransaction db)) = sq_data db"
proof -
  obtain b db1 where 1: "startTransaction db = (b, db1)" by force
  with assms have b: "\<not> b" "sq_saved db1 = Some d" "sq_data db1 = sq_data db"
    unfolding sql_op_defs by (auto split: sql_splits)
  then show ?thesis
    by (simp add: 1 secrets_updateCredentials_def secrets_storeData_def secrets_removeData_def
        secrets_removeCredentials_def secrets_clear_def transactionalExec_def)
qed

theorem open_transaction_blocks_storage_witness:
  "\<exists>db. db = snd (secrets_updateCredentials 1 QNull (QStr ''pw'') (sample_secrets\<lparr>sq_io := [Good, Good, Bad]\<rparr>))
     \<and> sq_io db = [] \<and> fst (secrets_updateCredentials 1 QNull (QStr ''pw'') db) = False"
proof (intro exI conjI)
  let ?db = "snd (secrets_updateCredentials 1 QNull (QStr ''pw'') (sample_secrets\<lparr>sq_io := [Good, Good, Bad]\<rparr>))"
  show "sq_io ?db = []" by code_simp
  have "sq_saved ?db = Some (sq_data sample_secrets)" by code_simp
  from open_transaction_blocks_storage [OF this]
  show "fst (secrets_updateCredentials 1 QNull (QStr ''pw'') ?db) = False" by simp
qed simp

end
