(* ===== verification/Credentials_Properties.thy ===== *)
theory Credentials_Properties
  imports Credentials_Db Secrets_Properties
begin

text \<open>
  Sequences of operations on \<open>CredentialsDB\<close>, with the secrets database open, closed or being
  opened in between: which passwords are ever written to a file, what is found again, and what
  is refused.
\<close>

section \<open>Sequences of operations\<close>

datatype cd_op =
    C_open string
  | C_close
  | C_methods nat qstring
  | C_checkPassword nat qstring qstring
  | C_credentials nat bool
  | C_identities
  | C_insert identity_info
  | C_update identity_info
  | C_remove nat
  | C_clear
  | C_loadData nat qstring
  | C_storeData nat qstring qvariant_map
  | C_removeData nat qstring
  | C_accessControlList nat
  | C_ownerList nat
  | C_ownerToken nat
  | C_addReference nat qstring qstring
  | C_removeReference nat qstring qstring
  | C_references nat qstring

fun cd_step ::
    "(qvariant \<Rightarrow> bytes) \<Rightarrow> (bytes \<Rightarrow> qvariant) \<Rightarrow> cd_op \<Rightarrow> credentials_db \<Rightarrow> credentials_db" where
  "cd_step ser deser (C_open name) db = snd (openSecretsDB ser name db)"
| "cd_step ser deser C_close db = closeSecretsDB db"
| "cd_step ser deser (C_methods n t) db = snd (cd_methods n t db)"
| "cd_step ser deser (C_checkPassword n u p) db = snd (cd_checkPassword n u p db)"
| "cd_step ser deser (C_credentials n q) db = snd (cd_credentials n q db)"
| "cd_step ser deser C_identities db = snd (cd_identities db)"
| "cd_step ser deser (C_insert i) db = snd (cd_insertCredentials i db)"
| "cd_step ser deser (C_update i) db = snd (cd_updateCredentials i db)"
| "cd_step ser deser (C_remove n) db = snd (cd_removeCredentials n db)"
| "cd_step ser deser C_clear db = snd (cd_clear db)"
| "cd_step ser deser (C_loadData n m) db = snd (cd_loadData deser n m db)"
| "cd_step ser deser (C_storeData n m d) db = snd (cd_storeData ser n m d db)"
| "cd_step ser deser (C_removeData n m) db = snd (cd_removeData n m db)"
| "cd_step ser deser (C_accessControlList n) db = snd (cd_accessControlList n db)"
| "cd_step ser deser (C_ownerList n) db = snd (cd_ownerList n db)"
| "cd_step ser deser (C_ownerToken n) db = snd (credentialsOwnerSecurityToken n db)"
| "cd_step ser deser (C_addReference n t r) db = snd (cd_addReference n t r db)"
| "cd_step ser deser (C_removeReference n t r) db = snd (cd_removeReference n t r db)"
| "cd_step ser deser (C_references n t) db = snd (cd_references n t db)"

definition cd_run ::
    "(qvariant \<Rightarrow> bytes) \<Rightarrow> (bytes \<Rightarrow> qvariant) \<Rightarrow> cd_op list \<Rightarrow> credentials_db \<Rightarrow> credentials_db" where
  "cd_run ser deser ops db = fold (cd_step ser deser) ops db"

text \<open>The passwords the clients allow to be stored.\<close>

fun to_be_stored :: "cd_op \<Rightarrow> qstring set" where
  "to_be_stored (C_insert i) = (if storePassword i then {password i} else {})"
| "to_be_stored (C_update i) = (if storePassword i then {password i} else {})"
| "to_be_stored _ = {}"

text \<open>The passwords in the open database and in every file.\<close>

definition stored_in :: "secrets_data \<Rightarrow> qstring set" where
  "stored_in d = snd ` snd ` set (sd_credentials d)"

definition stored_passwords :: "credentials_db \<Rightarrow> qstring set" where
  "stored_passwords db =
     (case ss_db (cd_secrets db) of None \<Rightarrow> {}
      | Some (_, s) \<Rightarrow> stored_in (sq_data s) \<union> stored_in (durable s))
     \<union> \<Union> (stored_in ` snd ` set (ss_files (cd_secrets db)))"

section \<open>The invariant\<close>

definition cd_inv :: "qstring set \<Rightarrow> credentials_db \<Rightarrow> bool" where
  "cd_inv A db \<longleftrightarrow> all_files (pw_in A) (cd_secrets db)
     \<and> (\<forall>(n, c) \<in> set (cd_cache db). m_storePassword c \<longrightarrow> m_password c \<in> A)"

lemma pw_in_iff: "pw_in A d \<longleftrightarrow> stored_in d \<subseteq> A"
  by (force simp: pw_in_def stored_in_def)

lemma durable_inv: "db_inv P db \<Longrightarrow> P (durable db)"
  by (auto simp: db_inv_def durable_def split: option.splits)

lemma cd_inv_stored:
  assumes "cd_inv A db"
  shows "stored_passwords db \<subseteq> A"
proof -
  have "stored_in d \<subseteq> A" if "(name, d) \<in> set (ss_files (cd_secrets db))" for name d
    using assms that by (auto simp: cd_inv_def all_files_def pw_in_iff)
  moreover have "stored_in (sq_data s) \<union> stored_in (durable s) \<subseteq> A"
    if "ss_db (cd_secrets db) = Some (name, s)" for name s
  proof -
    have "db_inv (pw_in A) s" using assms that by (simp add: cd_inv_def all_files_def)
    with durable_inv [OF this] show ?thesis by (simp add: db_inv_def pw_in_iff)
  qed
  ultimately show ?thesis
    by (cases "ss_db (cd_secrets db)") (force simp: stored_passwords_def)+
qed

lemma all_files_error [simp]: "all_files P (s\<lparr>ss_lastError := e\<rparr>) = all_files P s"
  by (simp add: all_files_def)

lemma all_files_ops:
  assumes "all_files (pw_in A) s"
  shows "p \<in> A \<Longrightarrow> all_files (pw_in A) (snd (ss_updateCredentials n u p s))"
    and "all_files (pw_in A) (snd (ss_removeCredentials n s))"
    and "all_files (pw_in A) (snd (ss_clear s))"
    and "all_files (pw_in A) (snd (ss_loadCredentials n s))"
    and "all_files (pw_in A) (snd (ss_loadData deser n k s))"
    and "all_files (pw_in A) (snd (ss_storeData ser n k m s))"
    and "all_files (pw_in A) (snd (ss_removeData n k s))"
  using assms unfolding ss_updateCredentials_def ss_removeCredentials_def ss_clear_def
    ss_loadCredentials_def ss_loadData_def ss_storeData_def ss_removeData_def
  by (auto intro!: if_open_all_files inv_secrets_update inv_secrets_storeData inv_secrets_removeData
        pw_in_preserve db_inv_transactionalExec
      simp: secrets_removeCredentials_def secrets_clear_def secrets_loadCredentials_def
        secrets_loadData_def Let_def
      dest: inv_steps(4) split: prod.splits option.splits)

lemma all_files_checkPassword:
  "all_files (pw_in A) s \<Longrightarrow> all_files (pw_in A) (snd (ss_checkPassword n u p s))"
  using all_files_ops(4) [of A s n]
  by (auto simp: ss_checkPassword_def split: prod.splits option.splits)

lemma qh_insert_all: "(\<forall>(k, v) \<in> set h. P v) \<Longrightarrow> P x \<Longrightarrow> (\<forall>(k, v) \<in> set (qh_insert n x h). P v)"
  by (induction h) (auto split: if_splits)

lemma all_files_close:
  assumes "all_files P s"
  shows "all_files P (ss_close s)"
proof (cases "ss_db s")
  case None
  with assms show ?thesis by (simp add: all_files_def ss_close_def)
next
  case (Some nd)
  obtain name db where nd: "nd = (name, db)" by (cases nd)
  obtain c db1 where 1: "sql_commit db = (c, db1)" by force
  have "db_inv P db" and f: "\<forall>(name, d) \<in> set (ss_files s). P d"
    using assms Some nd by (simp_all add: all_files_def)
  then have "P (durable db1)"
    using inv_steps(2) [OF _ 1, of P] durable_inv [of P db1] by simp
  then have "\<forall>(name, d) \<in> set (qh_insert name (durable db1) (ss_files s)). P d"
    by (rule qh_insert_all [OF f])
  then show ?thesis by (simp add: all_files_def ss_close_def Some nd 1)
qed

lemma qh_value_all: "(\<forall>(k, v) \<in> set h. P v) \<Longrightarrow> P d \<Longrightarrow> P (qh_value h n d)"
  by (auto simp: qh_value_def split: option.splits dest: map_of_SomeD)

lemma pw_in_empty: "pw_in A empty_secrets"
  by (simp add: pw_in_def empty_secrets_def)

lemma all_files_initialize:
  assumes "all_files (pw_in A) s"
  shows "all_files (pw_in A) (snd (ss_initialize name s))"
proof -
  define s1 where "s1 = (if ss_isOpen s then ss_close s else s)"
  define db where "db = \<lparr>sq_data = qh_value (ss_files s1) name empty_secrets, sq_saved = None,
    sq_error = NoError, sq_io = ss_io s1\<rparr>"
  obtain ok db1 where 1: "secrets_init db = (ok, db1)" by force
  obtain c db2 where 2: "sql_commit db1 = (c, db2)" by force
  have s1: "all_files (pw_in A) s1" using assms by (simp add: s1_def all_files_close)
  then have "pw_in A (qh_value (ss_files s1) name empty_secrets)"
    using qh_value_all [of "ss_files s1" "pw_in A" empty_secrets name]
    by (simp add: all_files_def pw_in_empty)
  then have "db_inv (pw_in A) db" by (simp add: db_inv_def db_def)
  then have i1: "db_inv (pw_in A) db1"
    using inv_secrets_init [OF _ pw_in_preserve(5,4), of A db] 1 by simp
  then have i2: "db_inv (pw_in A) db2" by (rule inv_steps(2) [OF _ 2])
  have "snd (ss_initialize name s) \<in>
      {s1\<lparr>ss_lastError := sq_error db1, ss_db := None,
          ss_files := qh_insert name (durable db2) (ss_files s1), ss_io := sq_io db2\<rparr>,
       s1\<lparr>ss_db := Some (name, db1), ss_isOpen := True\<rparr>}"
    by (simp add: ss_initialize_def Let_def 1 2 flip: s1_def db_def)
  moreover have f: "\<forall>(name, d) \<in> set (ss_files s1). pw_in A d"
    using s1 by (simp add: all_files_def)
  moreover have "\<forall>(name, d) \<in> set (qh_insert name (durable db2) (ss_files s1)). pw_in A d"
    by (rule qh_insert_all [OF f durable_inv [OF i2]])
  ultimately show ?thesis using i1 by (auto simp: all_files_def)
qed

lemma all_files_storeToDB:
  assumes "QNull \<in> A" and "all_files (pw_in A) s"
    and "\<forall>(n, c) \<in> set cache. m_storePassword c \<longrightarrow> m_password c \<in> A"
  shows "all_files (pw_in A) (storeToDB ss_updateCredentials (ss_storeData ser) cache s)"
  using assms(2,3)
proof (induction cache arbitrary: s)
  case (Cons x cache)
  obtain n c where x: "x = (n, c)" by (cases x)
  have p: "flushed_password c \<in> A" using Cons.prems(2) assms(1) by (auto simp: x flushed_password_def)
  define s1 where "s1 = (if \<not> qisEmpty (m_username c) \<or> \<not> qisEmpty (flushed_password c)
    then snd (ss_updateCredentials n (m_username c) (flushed_password c) s) else s)"
  have s1: "all_files (pw_in A) s1"
    using all_files_ops(1) [OF Cons.prems(1) p] Cons.prems(1) by (simp add: s1_def)
  have fold: "all_files (pw_in A) s \<Longrightarrow>
      all_files (pw_in A) (fold (\<lambda>(k, m) s. snd (ss_storeData ser n k m s)) ms s)" for ms s
    by (induction ms arbitrary: s) (auto simp: all_files_ops(6))
  have "storeToDB ss_updateCredentials (ss_storeData ser) (x # cache) s =
      storeToDB ss_updateCredentials (ss_storeData ser) cache
        (fold (\<lambda>(k, m) s. snd (ss_storeData ser n k m s)) (m_blobData c) s1)"
    by (simp add: storeToDB_def x s1_def Let_def)
  then show ?case using Cons.IH [OF fold [OF s1]] Cons.prems(2) by simp
qed (simp add: storeToDB_def)

lemma cd_inv_monitored:
  assumes "cd_inv A db" and "\<And>db. cd_inv A db \<Longrightarrow> cd_inv A (snd (f db))"
  shows "cd_inv A (snd (monitored f db))"
proof -
  have "cd_inv A (init_error db)" using assms(1) by (simp add: cd_inv_def init_error_def)
  from assms(2) [OF this] show ?thesis
    by (simp add: monitored_def split_def Let_def cd_inv_def collect_error_def)
qed

lemma cd_inv_on_meta [simp]: "cd_inv A (snd (on_meta f db)) = cd_inv A db"
  by (simp add: on_meta_def split_def cd_inv_def Let_def)

lemma on_meta_inv: "on_meta f db = (r, db') \<Longrightarrow> cd_inv A db \<Longrightarrow> cd_inv A db'"
  using cd_inv_on_meta [of A f db] by simp

lemma cd_inv_on_secrets:
  "cd_inv A db \<Longrightarrow> all_files (pw_in A) (snd (f (cd_secrets db))) \<Longrightarrow> cd_inv A (snd (on_secrets f db))"
  by (simp add: on_secrets_def split_def cd_inv_def Let_def)

lemma on_secrets_inv:
  assumes "on_secrets f db = (r, db')" and "cd_inv A db"
    and "\<And>s. all_files (pw_in A) s \<Longrightarrow> all_files (pw_in A) (snd (f s))"
  shows "cd_inv A db'"
  using cd_inv_on_secrets [of A db f] assms by (simp add: cd_inv_def)

lemma cd_inv_secret_ops:
  assumes "cd_inv A db"
  shows "cd_inv A (snd (on_secrets (ss_removeCredentials n) db))"
    "cd_inv A (snd (on_secrets ss_clear db))"
    "cd_inv A (snd (on_secrets (ss_loadCredentials n) db))"
    "cd_inv A (snd (on_secrets (ss_loadData deser n k) db))"
    "cd_inv A (snd (on_secrets (ss_storeData ser n k m) db))"
    "cd_inv A (snd (on_secrets (ss_removeData n k) db))"
    "cd_inv A (snd (on_secrets (ss_checkPassword n u p) db))"
proof -
  have "all_files (pw_in A) (cd_secrets db)" using assms by (simp add: cd_inv_def)
  note f = all_files_ops [OF this] all_files_checkPassword [OF this]
  show "cd_inv A (snd (on_secrets (ss_removeCredentials n) db))"
    "cd_inv A (snd (on_secrets ss_clear db))"
    "cd_inv A (snd (on_secrets (ss_loadCredentials n) db))"
    "cd_inv A (snd (on_secrets (ss_loadData deser n k) db))"
    "cd_inv A (snd (on_secrets (ss_storeData ser n k m) db))"
    "cd_inv A (snd (on_secrets (ss_removeData n k) db))"
    "cd_inv A (snd (on_secrets (ss_checkPassword n u p) db))"
    by (intro cd_inv_on_secrets assms f)+
qed

lemma cd_inv_need: "cd_inv A db \<Longrightarrow> (\<And>db. cd_inv A db \<Longrightarrow> cd_inv A (snd (f db))) \<Longrightarrow>
    cd_inv A (snd (need_secrets r f db))"
  by (simp add: need_secrets_def cd_inv_def)

lemma cd_inv_cache:
  assumes "cd_inv A db"
  shows "b \<longrightarrow> p \<in> A \<Longrightarrow> cd_inv A (db\<lparr>cd_cache := cache_updateCredentials n u p b (cd_cache db)\<rparr>)"
    and "cd_inv A (db\<lparr>cd_cache := cache_updateData n k m (cd_cache db)\<rparr>)"
proof -
  let ?P = "\<lambda>c. m_storePassword c \<longrightarrow> m_password c \<in> A"
  have c: "\<forall>(n, c) \<in> set (cd_cache db). ?P c" and f: "all_files (pw_in A) (cd_secrets db)"
    using assms by (simp_all add: cd_inv_def)
  have v: "?P (qh_value (cd_cache db) n new_AuthCache)"
    using qh_value_all [OF c, of new_AuthCache n] by (simp add: new_AuthCache_def)
  show "cd_inv A (db\<lparr>cd_cache := cache_updateCredentials n u p b (cd_cache db)\<rparr>)" if "b \<longrightarrow> p \<in> A"
    using qh_insert_all [OF c, of "qh_value (cd_cache db) n new_AuthCache\<lparr>m_username := u, m_password := p, m_storePassword := b\<rparr>" n]
      c f that by (simp add: cd_inv_def cache_updateCredentials_def)
  show "cd_inv A (db\<lparr>cd_cache := cache_updateData n k m (cd_cache db)\<rparr>)"
    using qh_insert_all [OF c, of "qh_value (cd_cache db) n new_AuthCache
        \<lparr>m_blobData := qh_insert k m (m_blobData (qh_value (cd_cache db) n new_AuthCache))\<rparr>" n]
      c f v by (simp add: cd_inv_def cache_updateData_def Let_def)
qed

lemma cd_inv_updated [simp]: "cd_inv A (db\<lparr>cd_updated := x\<rparr>) = cd_inv A db"
  by (simp add: cd_inv_def)

lemma cd_inv_update:
  assumes "cd_inv A db" and "storePassword info \<longrightarrow> password info \<in> A"
  shows "cd_inv A (snd (cd_updateCredentials info db))"
  unfolding cd_updateCredentials_def
proof (rule cd_inv_monitored [OF assms(1)], goal_cases)
  case (1 db)
  obtain n db1 where m: "on_meta (meta_updateIdentity info) db = (n, db1)" by force
  have i: "cd_inv A db1" by (rule on_meta_inv [OF m 1])
  have "cd_inv A (snd (on_secrets (ss_updateCredentials n u (password info)) db1))" if "storePassword info" for u
    using i assms(2) that by (intro cd_inv_on_secrets all_files_ops(1)) (simp_all add: cd_inv_def)
  with i cd_inv_cache(1) [OF i assms(2)] show ?case
    by (simp add: m Let_def)
qed

lemma setNew_fields [simp]: "storePassword (setNew i) = storePassword i" "password (setNew i) = password i"
  by (simp_all add: setNew_def setId_def storePassword_def password_def del: qm_insert.simps)

lemma cd_inv_open:
  assumes "QNull \<in> A" and "cd_inv A db"
  shows "cd_inv A (snd (openSecretsDB ser name db))"
proof -
  obtain ok db1 where 1: "on_secrets (ss_initialize name) db = (ok, db1)" by force
  have i: "cd_inv A db1" by (rule on_secrets_inv [OF 1 assms(2)]) (rule all_files_initialize)
  then show ?thesis
    using all_files_storeToDB [OF assms(1)]
    by (auto simp: openSecretsDB_def 1 cd_inv_def)
qed

lemma cd_inv_step:
  assumes "QNull \<in> A" and "to_be_stored op \<subseteq> A" and "cd_inv A db"
  shows "cd_inv A (cd_step ser deser op db)"
proof (cases op)
  case (C_open name)
  then show ?thesis using cd_inv_open [OF assms(1,3)] by simp
next
  case C_close
  then show ?thesis using assms(3) by (simp add: closeSecretsDB_def cd_inv_def all_files_close)
next
  case (C_insert i)
  then show ?thesis
    using assms(2,3) by (simp add: cd_insertCredentials_def cd_inv_update Let_def split: if_splits)
next
  case (C_update i)
  then show ?thesis using assms(2,3) by (simp add: cd_inv_update split: if_splits)
next
  case (C_checkPassword n u p)
  show ?thesis unfolding C_checkPassword cd_step.simps cd_checkPassword_def
    by (rule cd_inv_monitored [OF assms(3)], rule cd_inv_need)
       (auto intro: cd_inv_secret_ops dest: on_meta_inv split: prod.splits)
next
  case (C_credentials n q)
  show ?thesis unfolding C_credentials cd_step.simps cd_credentials_def
    by (rule cd_inv_monitored [OF assms(3)])
       (auto dest!: on_meta_inv [where A = A] dest: on_secrets_inv [OF _ _ all_files_ops(4)]
         simp: Let_def split: prod.splits if_splits)
next
  case (C_remove n)
  show ?thesis unfolding C_remove cd_step.simps cd_removeCredentials_def
    by (rule cd_inv_monitored [OF assms(3)], rule cd_inv_need)
       (auto dest: on_secrets_inv [OF _ _ all_files_ops(2)] split: prod.splits)
next
  case C_clear
  show ?thesis unfolding C_clear cd_step.simps cd_clear_def
    by (rule cd_inv_monitored [OF assms(3)], rule cd_inv_need)
       (auto dest: on_secrets_inv [OF _ _ all_files_ops(3)] split: prod.splits)
next
  case (C_loadData n m)
  show ?thesis unfolding C_loadData cd_step.simps cd_loadData_def
    by (rule cd_inv_monitored [OF assms(3)])
       (auto intro: cd_inv_secret_ops dest: on_meta_inv split: prod.splits)
next
  case (C_removeData n m)
  show ?thesis unfolding C_removeData cd_step.simps cd_removeData_def
    by (rule cd_inv_monitored [OF assms(3)], rule cd_inv_need)
       (auto intro: cd_inv_secret_ops dest: on_meta_inv split: prod.splits)
next
  case (C_storeData n m d)
  show ?thesis unfolding C_storeData cd_step.simps cd_storeData_def
  proof (rule cd_inv_monitored [OF assms(3)], goal_cases)
    case (1 db)
    obtain mid db1 where m: "on_meta (methodId m) db = (mid, db1)" by force
    obtain mid' ok db2 where 2: "(if mid = 0 then on_meta (\<lambda>d. let (i, ok, d) = insertMethod m d in ((i, ok), d)) db1
        else ((mid, True), db1)) = ((mid', ok), db2)"
      by (metis surj_pair)
    have i1: "cd_inv A db1" by (rule on_meta_inv [OF m 1])
    have i2: "cd_inv A db2" using 2 on_meta_inv i1 by (metis prod.inject)
    then have "all_files (pw_in A) (cd_secrets db2)" by (simp add: cd_inv_def)
    then show ?case
      using 1 i2 cd_inv_cache(2) [OF i2] cd_inv_secret_ops(5) [OF i2]
      by (simp add: m 2)
  qed
qed (simp_all add: cd_methods_def cd_identities_def cd_accessControlList_def cd_ownerList_def
      credentialsOwnerSecurityToken_def cd_addReference_def cd_removeReference_def cd_references_def
      cd_inv_monitored assms(3) split_def Let_def)

lemma cd_inv_run:
  "QNull \<in> A \<Longrightarrow> \<Union> (to_be_stored ` set ops) \<subseteq> A \<Longrightarrow> cd_inv A db \<Longrightarrow> cd_inv A (cd_run ser deser ops db)"
  unfolding cd_run_def by (induction ops arbitrary: db) (auto intro: cd_inv_step)

lemma collect_error_fields [simp]:
  "cd_meta (collect_error db) = cd_meta db" "cd_secrets (collect_error db) = cd_secrets db"
  "cd_cache (collect_error db) = cd_cache db" "cd_updated (collect_error db) = cd_updated db"
  by (simp_all add: collect_error_def)

lemma monitored_eq: "f (init_error db) = (r, db') \<Longrightarrow> monitored f db = (r, collect_error db')"
  by (simp add: monitored_def)

lemma ss_error_views [simp]:
  "ss_ready (s\<lparr>ss_lastError := e\<rparr>) = ss_ready s" "ss_creds (s\<lparr>ss_lastError := e\<rparr>) = ss_creds s"
  "ss_data deser (s\<lparr>ss_lastError := e\<rparr>) = ss_data deser s"
  by (simp_all add: ss_ready_def ss_creds_def ss_data_def)

section \<open>Examples\<close>

definition sample_cd :: "bool \<Rightarrow> credentials_db" where
  "sample_cd open = \<lparr>cd_meta = sample_db,
     cd_secrets = (if open then sample_storage
       else \<lparr>ss_isOpen = False, ss_lastError = NoError, ss_db = None,
         ss_files = [(''signon-secrets.db'', sq_data sample_secrets)], ss_io = []\<rparr>),
     cd_cache = [], cd_lastError = NoError, cd_updated = []\<rparr>"

definition secret_info :: "bool \<Rightarrow> identity_info" where
  "secret_info store = setStorePassword store (setPassword (QStr ''pw'') (setUserName (QStr ''ann'') (setId 0 [])))"

lemma secret_info_fields:
  "isNew (secret_info b)" "storePassword (secret_info b) = b" "password (secret_info b) = QStr ''pw''"
  "hasSecrets (secret_info b)" "isUserNameSecret (secret_info b) = False" "info_methods (secret_info b) = []"
  by (simp_all add: secret_info_def info_set_defs info_get_defs qm_value_def NEW_IDENTITY_def
      hasSecrets_def qm_contains_def)

lemma cd_updateCredentials_effect:
  assumes "meta_updateIdentity info (clearError (cd_meta db)) = (i, m1)" and "i \<noteq> 0" and "hasSecrets info"
    and "name = (if isUserNameSecret info then userName info else QNull)"
    and "st = (cd_secrets db)\<lparr>ss_lastError := NoError\<rparr>"
    and "direct \<longleftrightarrow> storePassword info \<and> isSecretsDBOpen db"
  shows "cd_updateCredentials info db = (i, collect_error ((init_error db)\<lparr>cd_meta := m1,
    cd_secrets := (if direct then snd (ss_updateCredentials i name (password info) st) else st),
    cd_cache := (if direct then cd_cache db
      else cache_updateCredentials i name (password info) (storePassword info) (cd_cache db)),
    cd_updated := cd_updated db @ [i]\<rparr>))"
  unfolding cd_updateCredentials_def using assms
  by (cases db; cases "storePassword info"; cases "ss_isOpen (cd_secrets db)")
     (simp_all add: monitored_def on_meta_def on_secrets_def init_error_def isSecretsDBOpen_def
       Let_def split_def)

lemma cd_credentials_effect:
  assumes "meta_identity i (clearError (cd_meta db)) = (info0, m2)" and "\<not> isNew info0"
    and "if storePassword info0 \<and> ss_isOpen (cd_secrets db)
      then fst (ss_loadCredentials i ((cd_secrets db)\<lparr>ss_lastError := NoError\<rparr>)) = Some (name, pass)
      else lookupCredentials i (cd_cache db) = Some (name, pass)"
  shows "fst (cd_credentials i True db) =
    setPassword pass (if isUserNameSecret info0 then setUserName name info0 else info0)"
  using assms
  by (auto simp: cd_credentials_def monitored_def on_meta_def init_error_def isSecretsDBOpen_def
      on_secrets_def split_def Let_def split: if_splits)

section \<open>Properties\<close>

text \<open>C1: However the operations on the database are ordered, whether its secrets part is open or
  closed and whatever the driver does, a password is found in the secrets database or in one of its
  files only if a client has asked for it to be stored (\<open>StoreSecret\<close>) or it was there before.\<close>

theorem only_permitted_passwords_are_stored:
  assumes "cd_cache db = []"
  shows "stored_passwords (cd_run ser deser ops db) \<subseteq>
    insert QNull (stored_passwords db \<union> \<Union> (to_be_stored ` set ops))"
proof (rule cd_inv_stored, rule cd_inv_run)
  let ?A = "insert QNull (stored_passwords db \<union> \<Union> (to_be_stored ` set ops))"
  have "pw_in ?A d" if "(name, d) \<in> set (ss_files (cd_secrets db))" for name d
    using that by (force simp: pw_in_iff stored_passwords_def)
  moreover have "db_inv (pw_in ?A) s" if "ss_db (cd_secrets db) = Some (name, s)" for name s
    using that by (cases "sq_saved s") (auto simp: db_inv_def pw_in_iff stored_passwords_def)
  ultimately show "cd_inv ?A db"
    by (cases "ss_db (cd_secrets db)") (auto simp: cd_inv_def assms all_files_def)
qed auto

theorem only_permitted_passwords_are_stored_witness:
  "QStr ''pw'' \<notin> stored_passwords (cd_run sample_ser sample_deser
     [C_update (secret_info False), C_open ''signon-secrets.db'', C_close, C_update (secret_info False)] (sample_cd False))"
proof -
  have "cd_cache (sample_cd False) = []" by (simp add: sample_cd_def)
  moreover have "stored_passwords (sample_cd False) = {}"
    by (simp add: sample_cd_def stored_passwords_def sample_secrets_def empty_secrets_def stored_in_def)
  ultimately show ?thesis
    using only_permitted_passwords_are_stored [of "sample_cd False" sample_ser sample_deser
        "[C_update (secret_info False), C_open ''signon-secrets.db'', C_close, C_update (secret_info False)]"]
    by (auto simp: secret_info_fields)
qed

text \<open>What has been written to the secrets is loaded again.\<close>

lemma written_secrets_are_loaded:
  assumes "ss_ready s" and "t = (snd (ss_updateCredentials i name pass s))\<lparr>ss_lastError := NoError\<rparr>"
  shows "ss_isOpen t \<and> fst (ss_loadCredentials i t) = Some (name, pass)"
proof -
  from sec.upd [OF assms(1) prod.collapse [symmetric]]
  have "ss_ready t" "ss_creds t i = Some (name, pass)" by (simp_all add: assms(2))
  with sec.load [OF _ prod.collapse [symmetric], of t i] show ?thesis by (auto simp: ss_ready_def)
qed

text \<open>C4: A password given to \<open>updateCredentials\<close> is returned by \<open>credentials\<close> afterwards when no driver
  call fails: from the secrets database when it is to be stored and the database is open, and
  from the cache when it is not to be stored or the database is closed. The signal
  \<open>credentialsUpdated\<close> is emitted once, for the id that is returned.\<close>

theorem password_is_found_again:
  assumes "sq_io (cd_meta db) = []" and "sq_saved (cd_meta db) = None" and "meta_ok (sq_data (cd_meta db))"
    and "target_ok info (sq_data (cd_meta db))" and "qm_wf (info_methods info)"
    and "nt_seq (md_methods (sq_data (cd_meta db))) + length (info_methods info) < 2147483648"
    and "isSecretsDBOpen db \<longrightarrow> ss_ready (cd_secrets db)"
    and "hasSecrets info"
    and "cd_updateCredentials info db = (n, db1)" and "cd_credentials n True db1 = (info', db2)"
  shows "n = target info (sq_data (cd_meta db)) \<and> password info' = password info
    \<and> userName info' = userName info \<and> storePassword info' = storePassword info
    \<and> cd_updated db1 = cd_updated db @ [n]"
proof -
  define m0 where "m0 = clearError (cd_meta db)"
  have m0: "sq_io m0 = []" "sq_saved m0 = None" "sq_data m0 = sq_data (cd_meta db)"
    using assms(1,2) by (simp_all add: m0_def clearError_def)
  obtain i m1 where u: "meta_updateIdentity info m0 = (i, m1)" by force
  have i: "i = target info (sq_data (cd_meta db))" and m1: "sq_io m1 = []"
    using updateIdentity_good [of m0 info] u m0 assms(3,4) by simp_all
  then have i0: "i \<noteq> 0"
    using assms(4) by (auto simp: target_def isNew_def NEW_IDENTITY_def)
  define name where "name = (if isUserNameSecret info then userName info else QNull)"
  define st where "st = (cd_secrets db)\<lparr>ss_lastError := NoError\<rparr>"
  define direct where "direct \<longleftrightarrow> storePassword info \<and> isSecretsDBOpen db"
  define st1 where "st1 = (if direct then snd (ss_updateCredentials i name (password info) st) else st)"
  define ca where "ca = (if direct then cd_cache db
    else cache_updateCredentials i name (password info) (storePassword info) (cd_cache db))"
  have n: "n = i" and db1: "cd_meta db1 = m1" "cd_secrets db1 = st1" "cd_cache db1 = ca"
      "cd_updated db1 = cd_updated db @ [i]"
    using cd_updateCredentials_effect [OF u [unfolded m0_def] i0 assms(8) name_def st_def direct_def] assms(9)
    by (simp_all add: st1_def ca_def)
  obtain info0 m2 where r: "meta_identity i (clearError m1) = (info0, m2)" by force
  have "clearError m1 = m1" using updateIdentity_good [of m0 info] u m0 assms(3,4) by (simp add: clearError_def)
  with r have r1: "meta_identity i m1 = (info0, m2)" by simp
  have rb: "info_id info0 = i" "userName info0 = (if isUserNameSecret info then QNull else userName info)"
      "isUserNameSecret info0 = isUserNameSecret info" "storePassword info0 = storePassword info"
    using identity_read_back [of m0 info i m1 info0 m2] m0 assms(3-6) u r1 by simp_all
  have cache: "lookupCredentials i ca = Some (name, password info)" if "\<not> direct"
    using that i0 by (simp add: ca_def lookupCredentials_def cache_updateCredentials_def)
  define st2 where "st2 = st1\<lparr>ss_lastError := NoError\<rparr>"
  have store: "storePassword info0 \<and> ss_isOpen st2 \<and> fst (ss_loadCredentials i st2) = Some (name, password info)" if direct
    using written_secrets_are_loaded [of st st2 i name "password info"] assms(7) that rb(4) by (simp add: direct_def st_def st1_def st2_def)
  have closed: "\<not> (storePassword info0 \<and> ss_isOpen st2)" if "\<not> direct"
    using that rb(4) by (auto simp: st2_def st1_def st_def direct_def isSecretsDBOpen_def)
  have "info' = setPassword (password info) (if isUserNameSecret info then setUserName name info0 else info0)"
    using cd_credentials_effect [of i db1 info0 m2 name "password info"] r db1 rb i0 store closed cache assms(10) n
    by (cases direct) (auto simp: isNew_def NEW_IDENTITY_def st2_def split: if_splits)
  note info' = this
  show ?thesis
    using rb i n db1(4) unfolding info'
    by (simp add: name_def setPassword_def setUserName_def password_def userName_def storePassword_def
        del: qm_insert.simps)
qed

theorem password_is_found_again_witness:
  "password (fst (cd_credentials 1 True (snd (cd_updateCredentials (secret_info True) (sample_cd True))))) = QStr ''pw''"
proof -
  let ?db = "sample_cd True"
  have m: "sq_io (cd_meta ?db) = []" "sq_saved (cd_meta ?db) = None" "meta_ok (sq_data (cd_meta ?db))"
    using sample_db_ok by (simp_all add: sample_cd_def)
  have t: "target_ok (secret_info True) (sq_data (cd_meta ?db))" "target (secret_info True) (sq_data (cd_meta ?db)) = 1"
    by (simp_all add: target_ok_def target_def secret_info_fields sample_cd_def sample_db_def empty_meta_def)
  have q: "qm_wf (info_methods (secret_info True))" and
    "nt_seq (md_methods (sq_data (cd_meta ?db))) + length (info_methods (secret_info True)) < 2147483648"
    by (simp_all add: secret_info_fields sample_cd_def sample_db_def empty_meta_def empty_names_def)
  moreover have "isSecretsDBOpen ?db \<longrightarrow> ss_ready (cd_secrets ?db)"
    by (simp add: sample_cd_def sample_ready)
  ultimately show ?thesis
    using password_is_found_again [OF m t(1) q _ _ secret_info_fields(4) prod.collapse [symmetric] prod.collapse [symmetric]]
    by (auto simp: t(2) secret_info_fields)
qed

text \<open>Opening the secrets database, when it can be opened and its driver works, moves the cache into
  it: afterwards the database holds, for every cached identity with a user name or a password to be
  stored, exactly that pair (without the password if it is not to be stored), the accounts that
  were not cached are as the file had them, and the cache is empty.\<close>

theorem open_moves_cache_to_storage:
  assumes "ss_initialize name (cd_secrets db) = (True, s)" and "ss_ready s"
    and "distinct (map fst (cd_cache db))"
    and "\<forall>(n, c) \<in> set (cd_cache db). \<forall>(k, m) \<in> set (m_blobData c). ss_fits ser deser m"
    and "openSecretsDB ser name db = (ok, db')"
  shows "ok \<and> cd_cache db' = [] \<and> ss_ready (cd_secrets db')
    \<and> ss_creds (cd_secrets db') = ss_creds s ++ cached_creds (cd_cache db)"
  using sec.storeToDB_creds [OF assms(2-4)] assms(1,5)
  by (auto simp: openSecretsDB_def on_secrets_def)

theorem open_moves_cache_to_storage_witness:
  "\<exists>db'. openSecretsDB sample_ser ''signon-secrets.db''
       ((sample_cd False)\<lparr>cd_cache := [(5, \<lparr>m_username = QNull, m_password = QStr ''pw'', m_storePassword = True, m_blobData = []\<rparr>)]\<rparr>)
     = (True, db') \<and> ss_creds (cd_secrets db') 5 = Some (QNull, QStr ''pw'')"
proof -
  let ?c = "[(5, \<lparr>m_username = QNull, m_password = QStr ''pw'', m_storePassword = True, m_blobData = []\<rparr>)]"
  let ?db = "(sample_cd False)\<lparr>cd_cache := ?c\<rparr>"
  let ?i = "ss_initialize ''signon-secrets.db'' (cd_secrets ?db)"
  let ?o = "openSecretsDB sample_ser ''signon-secrets.db'' ?db"
  have "fst ?i \<and> ss_isOpen (snd ?i) \<and> ss_io (snd ?i) = [] \<and>
      (case ss_db (snd ?i) of Some (_, d) \<Rightarrow> sq_io d = [] \<and> sq_saved d = None \<and> sd_objects (sq_data d) = secrets_createTableQuery
         \<and> sd_credentials (sq_data d) = [] \<and> sd_store (sq_data d) = [] | None \<Rightarrow> False)"
    by code_simp
  then have f: "fst ?i" and i: "?i = (True, snd ?i)" and r: "ss_ready (snd ?i)"
    by (auto simp: fst_pair ss_ready_def secrets_ok_def split: option.splits)
  from f have "fst ?o"
    by (simp add: openSecretsDB_def on_secrets_def split_def Let_def)
  then have o: "?o = (True, snd ?o)" by (simp add: fst_pair)
  have "cached_creds ?c 5 = Some (QNull, QStr ''pw'')"
    by (simp add: cached_creds_def flushed_password_def)
  with open_moves_cache_to_storage [OF i r _ _ o] show ?thesis
    using o by (auto simp: sample_cd_def map_add_def)
qed

text \<open>While the secrets database is closed, credentials are neither removed nor cleared nor is
  a password checked: the calls return false with a connection error and change nothing else.\<close>

theorem closed_secrets_refuse:
  assumes "\<not> isSecretsDBOpen db"
  shows "cd_removeCredentials n db = (False, (init_error db)\<lparr>cd_lastError := ConnectionError\<rparr>)
    \<and> cd_clear db = (False, (init_error db)\<lparr>cd_lastError := ConnectionError\<rparr>)
    \<and> cd_removeData n m db = (False, (init_error db)\<lparr>cd_lastError := ConnectionError\<rparr>)
    \<and> cd_checkPassword n u p db = (False, (init_error db)\<lparr>cd_lastError := ConnectionError\<rparr>)"
proof -
  have "\<not> isSecretsDBOpen (init_error db)"
    using assms by (simp add: isSecretsDBOpen_def init_error_def)
  then show ?thesis
    by (simp add: cd_removeCredentials_def cd_clear_def cd_removeData_def cd_checkPassword_def monitored_def
        need_secrets_def collect_error_def)
qed

theorem closed_secrets_refuse_witness:
  "\<not> fst (cd_removeCredentials 1 (sample_cd False))"
  using closed_secrets_refuse [of "sample_cd False" 1] by (simp add: isSecretsDBOpen_def sample_cd_def)

text \<open>C8: When \<open>removeCredentials\<close> returns true, with the two databases in order, the identity is gone
  from both and nothing else is: of the metadata exactly its row and its realms, access control rows,
  references and owners have been deleted, in memory and in the file; of the secrets exactly its user name
  and password and the data stored for it under any method.\<close>

theorem removeCredentials_removes_everything:
  assumes "ss_ready (cd_secrets db)" and "sq_saved (cd_meta db) = None" and "meta_ok (sq_data (cd_meta db))"
    and "cd_removeCredentials n db = (True, db')"
  shows "sq_data (cd_meta db') = erased n (sq_data (cd_meta db)) \<and> durable (cd_meta db') = sq_data (cd_meta db')
    \<and> ss_creds (cd_secrets db') = (ss_creds (cd_secrets db))(n := None)
    \<and> ss_data deser (cd_secrets db') = (\<lambda>(i, k). if i = n then Map.empty else ss_data deser (cd_secrets db) (i, k))
    \<and> view_of (sq_data (cd_meta db')) = (view_of (sq_data (cd_meta db)))(n := None)"
proof -
  have "isSecretsDBOpen (init_error db)"
    using assms(1) by (simp add: isSecretsDBOpen_def init_error_def ss_ready_def)
  define s where "s = (cd_secrets db)\<lparr>ss_lastError := NoError\<rparr>"
  obtain ok s1 where s1: "ss_removeCredentials n s = (ok, s1)" by force
  obtain ok2 m1 where m1: "meta_removeIdentity n (clearError (cd_meta db)) = (ok2, m1)" by force
  have "ss_ready s" using assms(1) by (simp add: s_def)
  note sec = sec.rem [OF this s1]
  have ok: "ok2" "cd_secrets db' = s1" "cd_meta db' = m1"
    using assms(4) sec m1 \<open>isSecretsDBOpen (init_error db)\<close> s1
    by (auto simp: cd_removeCredentials_def monitored_def need_secrets_def on_secrets_def on_meta_def
        init_error_def s_def split: if_splits)
  then have meta: "meta_removeIdentity n (clearError (cd_meta db)) = (True, m1)" using m1 by simp
  have c: "sq_saved (clearError (cd_meta db)) = None" "meta_ok (sq_data (clearError (cd_meta db)))"
    using assms(2,3) by (simp_all add: clearError_def)
  have "sq_data (clearError (cd_meta db)) = sq_data (cd_meta db)" by (simp add: clearError_def)
  note meta = removeIdentity_effect [OF c meta, unfolded this, folded ok(3)]
    removeIdentity_erases [OF c meta, unfolded this, folded ok(3)]
  have "ss_creds s = ss_creds (cd_secrets db)" "ss_data deser s = ss_data deser (cd_secrets db)"
    by (simp_all add: s_def ss_data_def fun_eq_iff)
  note sec = sec [of deser, unfolded this, folded ok(2)]
  show ?thesis using sec meta ok(1) by (elim conjE) (intro conjI; simp)
qed

theorem removeCredentials_removes_everything_witness:
  "sq_data (cd_meta (snd (cd_removeCredentials 1 (sample_cd True)))) = erased 1 (sq_data (cd_meta (sample_cd True)))
    \<and> view_of (sq_data (cd_meta (snd (cd_removeCredentials 1 (sample_cd True))))) 1 = None"
proof -
  let ?r = "cd_removeCredentials 1 (sample_cd True)"
  have "fst ?r" by code_simp
  then have r: "?r = (True, snd ?r)" by (simp add: fst_pair)
  have "ss_ready (cd_secrets (sample_cd True))" "sq_saved (cd_meta (sample_cd True)) = None"
    "meta_ok (sq_data (cd_meta (sample_cd True)))"
    using sample_ready sample_db_ok by (simp_all add: sample_cd_def)
  from removeCredentials_removes_everything [OF this r] show ?thesis
    by (metis fun_upd_same)
qed

end
