(* ===== verification/Access_Control.thy ===== *)
theory Access_Control
  imports Credentials_Properties
begin

text \<open>
  \<open>AccessControlManagerHelper\<close> (src/signond/accesscontrolmanagerhelper.cpp): which peers may
  use, change or remove an identity. The access control manager itself is an extension; the
  model takes its three answers as a parameter, with the default implementation of
  src/lib/signond/SignOn/abstract-access-control-manager.cpp as an instance.
\<close>

section \<open>Peers\<close>

text \<open>The connection and the message of a call, as far as the daemon looks at them.\<close>

record dbus_call =
  dc_connection :: nat
  dc_service :: qstring
  dc_serial :: nat

record ac_manager =
  ac_keychainWidgetAppId :: qstring
  ac_isPeerAllowedToAccess :: "dbus_call \<Rightarrow> qstring \<Rightarrow> bool"
  ac_appIdOfPeer :: "dbus_call \<Rightarrow> qstring"

definition default_ac_manager :: ac_manager where
  "default_ac_manager = \<lparr>ac_keychainWidgetAppId = QNull,
     ac_isPeerAllowedToAccess = (\<lambda>_ _. True), ac_appIdOfPeer = (\<lambda>_. QNull)\<rparr>"

text \<open>Process ids come from the socket of a peer-to-peer connection (which can fail) or from
  the bus.\<close>

record pid_source =
  ps_of_connection :: "nat \<Rightarrow> nat option"
  ps_of_service :: "qstring \<Rightarrow> nat"

definition pidOfPeer :: "pid_source \<Rightarrow> dbus_call \<Rightarrow> nat" where
  "pidOfPeer pids peer =
     (if qisEmpty (dc_service peer)
      then (case ps_of_connection pids (dc_connection peer) of None \<Rightarrow> 0 | Some pid \<Rightarrow> pid)
      else ps_of_service pids (dc_service peer))"

section \<open>Checks\<close>

datatype identity_ownership = IdentityDoesNotHaveOwner | ApplicationIsOwner | ApplicationIsNotOwner

definition isPeerAllowedToAccess :: "ac_manager \<Rightarrow> dbus_call \<Rightarrow> qstring \<Rightarrow> bool" where
  "isPeerAllowedToAccess m_acManager peer securityContext =
     ac_isPeerAllowedToAccess m_acManager peer securityContext"

definition appIdOfPeer :: "ac_manager \<Rightarrow> dbus_call \<Rightarrow> qstring" where
  "appIdOfPeer m_acManager peer = ac_appIdOfPeer m_acManager peer"

fun peerHasOneOfAccesses :: "ac_manager \<Rightarrow> dbus_call \<Rightarrow> qstring list \<Rightarrow> bool" where
  "peerHasOneOfAccesses ac peer [] = False"
| "peerHasOneOfAccesses ac peer (securityContext # secContexts) =
     (if isPeerAllowedToAccess ac peer securityContext then True
      else peerHasOneOfAccesses ac peer secContexts)"

definition isPeerKeychainWidget :: "ac_manager \<Rightarrow> dbus_call \<Rightarrow> bool" where
  "isPeerKeychainWidget ac peer \<longleftrightarrow> qeq (appIdOfPeer ac peer) (ac_keychainWidgetAppId ac)"

text \<open>\<open>errorOccurred\<close> of the database, and the two checks that read it. The database is absent
  while the secure storage is not available.\<close>

definition cd_errorOccurred :: "credentials_db \<Rightarrow> bool" where
  "cd_errorOccurred db \<longleftrightarrow> isValid (cd_lastError db)"

definition isPeerOwnerOfIdentity ::
    "ac_manager \<Rightarrow> dbus_call \<Rightarrow> nat \<Rightarrow> credentials_db option
       \<Rightarrow> identity_ownership \<times> credentials_db option" where
  "isPeerOwnerOfIdentity ac peer identityId db =
     (case db of
        None \<Rightarrow> (ApplicationIsNotOwner, None)
      | Some db \<Rightarrow>
          let (ownerSecContexts, db) = cd_ownerList identityId db in
          if cd_errorOccurred db then (ApplicationIsNotOwner, Some db)
          else if ownerSecContexts = [] then (IdentityDoesNotHaveOwner, Some db)
          else (if peerHasOneOfAccesses ac peer ownerSecContexts then ApplicationIsOwner
                else ApplicationIsNotOwner, Some db))"

definition isPeerAllowedToUseIdentity ::
    "ac_manager \<Rightarrow> dbus_call \<Rightarrow> nat \<Rightarrow> credentials_db option \<Rightarrow> bool \<times> credentials_db option" where
  "isPeerAllowedToUseIdentity ac peer identityId db =
     (case db of
        None \<Rightarrow> (False, None)
      | Some db \<Rightarrow>
          let (acl, db) = cd_accessControlList identityId db in
          if cd_errorOccurred db then (False, Some db)
          else let (ownership, db) = isPeerOwnerOfIdentity ac peer identityId (Some db) in
            if ownership = ApplicationIsOwner then (True, db)
            else if acl = [] then (False, db)
            else if qcontains acl (QStr ''*'') then (True, db)
            else (peerHasOneOfAccesses ac peer acl, db))"

section \<open>What the checks read\<close>

lemma peerHasOneOfAccesses_iff:
  "peerHasOneOfAccesses ac peer xs \<longleftrightarrow> (\<exists>t \<in> set xs. ac_isPeerAllowedToAccess ac peer t)"
  by (induction xs) (auto simp: isPeerAllowedToAccess_def)

text \<open>A monitored query either fails, and the error is seen afterwards, or returns what the
  database holds and leaves the data as they were.\<close>

lemma monitored_query:
  assumes "monitored (on_meta (queryList q)) db = (xs, db')"
  shows "cd_errorOccurred db' \<or>
    (\<not> cd_errorOccurred db' \<and> xs = q (sq_data (cd_meta db)) \<and> sq_data (cd_meta db') = sq_data (cd_meta db))"
  using assms
  by (auto simp: monitored_def on_meta_def init_error_def clearError_def queryList_def sql_query_def
      next_io_def collect_error_def cd_errorOccurred_def undo_def
      split: list.splits outcome.splits option.splits prod.splits if_splits)

lemma monitored_query_good:
  assumes "sq_io (cd_meta db) = []"
  shows "\<exists>db'. monitored (on_meta (queryList q)) db = (q (sq_data (cd_meta db)), db')
    \<and> \<not> cd_errorOccurred db' \<and> sq_data (cd_meta db') = sq_data (cd_meta db) \<and> sq_io (cd_meta db') = []"
  using assms
  by (simp add: monitored_def on_meta_def init_error_def clearError_def sql_simps
      collect_error_def cd_errorOccurred_def)

lemma monitored_query_secrets:
  "monitored (on_meta (queryList q)) db = (xs, db') \<Longrightarrow>
     ss_db (cd_secrets db') = ss_db (cd_secrets db) \<and> cd_cache db' = cd_cache db \<and> cd_updated db' = cd_updated db"
  by (auto simp: monitored_def on_meta_def init_error_def collect_error_def Let_def split: prod.splits if_splits)

lemma list_queries:
  "cd_accessControlList n = monitored (on_meta (queryList (sel_acl_tokens n)))"
  "cd_ownerList n = monitored (on_meta (queryList (sel_owner_tokens n)))"
  by (simp_all add: cd_accessControlList_def cd_ownerList_def meta_accessControlList_def
      meta_ownerList_def fun_eq_iff on_meta_def monitored_def)

text \<open>The decision the access control list and the owners of an identity call for.\<close>

definition owner_by :: "ac_manager \<Rightarrow> dbus_call \<Rightarrow> nat \<Rightarrow> meta_data \<Rightarrow> bool" where
  "owner_by ac peer n d \<longleftrightarrow> (\<exists>t \<in> set (sel_owner_tokens n d). ac_isPeerAllowedToAccess ac peer t)"

definition allowed_by :: "ac_manager \<Rightarrow> dbus_call \<Rightarrow> nat \<Rightarrow> meta_data \<Rightarrow> bool" where
  "allowed_by ac peer n d \<longleftrightarrow> owner_by ac peer n d
     \<or> (\<exists>t \<in> set (sel_acl_tokens n d). chars t = ''*'' \<or> ac_isPeerAllowedToAccess ac peer t)"

definition db_data :: "credentials_db option \<Rightarrow> meta_data option" where
  "db_data db = map_option (\<lambda>db. sq_data (cd_meta db)) db"

lemma owner_check_sound:
  assumes "isPeerOwnerOfIdentity ac peer n db = (r, db')"
  shows "r = ApplicationIsOwner \<Longrightarrow> \<exists>d. db_data db = Some d \<and> owner_by ac peer n d"
    and "r = IdentityDoesNotHaveOwner \<Longrightarrow> \<exists>d. db_data db = Some d \<and> sel_owner_tokens n d = []"
  using assms
  by (auto simp: isPeerOwnerOfIdentity_def list_queries Let_def db_data_def owner_by_def
      peerHasOneOfAccesses_iff split: option.splits prod.splits if_splits dest!: monitored_query)

lemma use_check_sound:
  assumes "isPeerAllowedToUseIdentity ac peer n db = (True, db')"
  shows "\<exists>d. db_data db = Some d \<and> allowed_by ac peer n d"
proof -
  obtain c where c: "db = Some c"
    using assms by (cases db) (auto simp: isPeerAllowedToUseIdentity_def)
  obtain acl c1 where 1: "cd_accessControlList n c = (acl, c1)" by force
  obtain own db2 where 2: "isPeerOwnerOfIdentity ac peer n (Some c1) = (own, db2)" by force
  have e: "\<not> cd_errorOccurred c1" using assms by (auto simp: isPeerAllowedToUseIdentity_def c 1)
  with monitored_query [OF 1 [unfolded list_queries]]
  have acl: "acl = sel_acl_tokens n (sq_data (cd_meta c))" "sq_data (cd_meta c1) = sq_data (cd_meta c)"
    by simp_all
  have "own = ApplicationIsOwner \<or> (\<exists>t \<in> set acl. chars t = ''*'' \<or> ac_isPeerAllowedToAccess ac peer t)"
    using assms e
    by (auto simp: isPeerAllowedToUseIdentity_def c 1 2 qcontains_iff peerHasOneOfAccesses_iff split: if_splits)
  then show ?thesis
    using owner_check_sound(1) [OF 2] acl by (auto simp: c db_data_def allowed_by_def)
qed

text \<open>Without driver errors the decision is exactly that one.\<close>

lemma owner_check_exact:
  assumes "sq_io (cd_meta db) = []"
  shows "fst (isPeerOwnerOfIdentity ac peer n (Some db)) =
    (if sel_owner_tokens n (sq_data (cd_meta db)) = [] then IdentityDoesNotHaveOwner
     else if owner_by ac peer n (sq_data (cd_meta db)) then ApplicationIsOwner else ApplicationIsNotOwner)"
  using monitored_query_good [OF assms, of "sel_owner_tokens n"]
  by (auto simp: isPeerOwnerOfIdentity_def list_queries owner_by_def peerHasOneOfAccesses_iff)

lemma use_check_exact:
  assumes "sq_io (cd_meta db) = []"
  shows "fst (isPeerAllowedToUseIdentity ac peer n (Some db)) = allowed_by ac peer n (sq_data (cd_meta db))"
proof -
  let ?d = "sq_data (cd_meta db)"
  obtain db1 where 1: "cd_accessControlList n db = (sel_acl_tokens n ?d, db1)"
      "\<not> cd_errorOccurred db1" "sq_data (cd_meta db1) = ?d" "sq_io (cd_meta db1) = []"
    using monitored_query_good [OF assms, of "sel_acl_tokens n"] by (auto simp: list_queries)
  show ?thesis
    using owner_check_exact [OF 1(4), of ac peer n]
    by (auto simp: isPeerAllowedToUseIdentity_def 1 allowed_by_def qcontains_iff
        peerHasOneOfAccesses_iff owner_by_def split: prod.splits if_splits)
qed

text \<open>The checks only read.\<close>

lemma checks_read_only:
  "db_data (snd (isPeerOwnerOfIdentity ac peer n db)) \<noteq> db_data db \<Longrightarrow>
     \<exists>c d. db = Some c \<and> sq_saved (cd_meta c) = Some d"
  by (auto simp: isPeerOwnerOfIdentity_def list_queries db_data_def monitored_def on_meta_def
      init_error_def clearError_def queryList_def sql_query_def next_io_def collect_error_def undo_def Let_def
      split: option.splits prod.splits list.splits outcome.splits if_splits)

section \<open>Properties\<close>

text \<open>C13: Access to an identity is never granted without a reason in the database. Whatever the
  access control manager answers and whatever the SQL driver does, when
  \<open>isPeerAllowedToUseIdentity\<close> returns true there is a database, and the identity has an owner
  token the peer holds, or an access control list with the wildcard or with a token the peer
  holds; and when no query fails every such peer is let in.\<close>

theorem access_is_granted_exactly_by_the_database:
  "(fst (isPeerAllowedToUseIdentity ac peer n db) \<longrightarrow>
      (\<exists>d. db_data db = Some d \<and> allowed_by ac peer n d))
   \<and> (\<forall>c. db = Some c \<and> sq_io (cd_meta c) = [] \<longrightarrow>
      fst (isPeerAllowedToUseIdentity ac peer n db) = allowed_by ac peer n (sq_data (cd_meta c)))"
  using use_check_sound [of ac peer n db "snd (isPeerAllowedToUseIdentity ac peer n db)"] use_check_exact
  by (auto simp: prod_eq_iff)

theorem access_is_granted_exactly_by_the_database_witness:
  "(let peer = \<lparr>dc_connection = 1, dc_service = QStr '':1.1'', dc_serial = 1\<rparr>;
        c = (sample_cd True)\<lparr>cd_meta := sample_db\<lparr>sq_data := (sq_data sample_db)\<lparr>
              md_tokens := \<lparr>nt_seq = 1, nt_rows = [(1, QStr ''alice'')]\<rparr>, md_owner := [(1, Some 1)]\<rparr>\<rparr>\<rparr>
    in fst (isPeerAllowedToUseIdentity default_ac_manager peer 1 (Some c))
       \<and> fst (isPeerAllowedToUseIdentity
           (default_ac_manager\<lparr>ac_isPeerAllowedToAccess := \<lambda>_ t. t = QStr ''bob''\<rparr>) peer 1 (Some c)) = False)"
proof -
  have io: "sq_io (sample_db\<lparr>sq_data := d\<rparr>) = []" for d using sample_db_ok(2) by simp
  show ?thesis
    using access_is_granted_exactly_by_the_database
      [of default_ac_manager _ 1 "Some ((sample_cd True)\<lparr>cd_meta := sample_db\<lparr>sq_data := (sq_data sample_db)\<lparr>
              md_tokens := \<lparr>nt_seq = 1, nt_rows = [(1, QStr ''alice'')]\<rparr>, md_owner := [(1, Some 1)]\<rparr>\<rparr>\<rparr>)"]
    access_is_granted_exactly_by_the_database
      [of "default_ac_manager\<lparr>ac_isPeerAllowedToAccess := \<lambda>_ t. t = QStr ''bob''\<rparr>" _ 1
         "Some ((sample_cd True)\<lparr>cd_meta := sample_db\<lparr>sq_data := (sq_data sample_db)\<lparr>
              md_tokens := \<lparr>nt_seq = 1, nt_rows = [(1, QStr ''alice'')]\<rparr>, md_owner := [(1, Some 1)]\<rparr>\<rparr>\<rparr>)"]
    by (auto simp: Let_def io allowed_by_def owner_by_def sel_owner_tokens_def sel_acl_tokens_def
        default_ac_manager_def db_data_def sample_db_def empty_meta_def)
qed

end
