(* ===== verification/Signon_Identity.thy ===== *)
theory Signon_Identity
  imports Access_Control
begin

text \<open>
  \<open>SignonIdentity\<close> (src/signond/signonidentity.cpp): the D-Bus object of one identity, which
  caches what it read of the database, asks signon-ui for passwords and tells its clients of
  changes; and the part of the daemon it lives in: the other objects, the register of stored
  identities, the timers of \<open>SignonDisposable\<close> (src/signond/signondisposable.cpp), the calls
  whose reply is still due.
\<close>

section \<open>The daemon's state\<close>

text \<open>The errors sent to clients, without the common prefix of their names.\<close>

abbreviation "ERR_INTERNAL_SERVER \<equiv> ''InternalServer''"
abbreviation "ERR_PERMISSION_DENIED \<equiv> ''PermissionDenied''"
abbreviation "ERR_IDENTITY_NOT_FOUND \<equiv> ''IdentityNotFound''"
abbreviation "ERR_STORE_FAILED \<equiv> ''StoreFailed''"
abbreviation "ERR_REMOVE_FAILED \<equiv> ''RemoveFailed''"
abbreviation "ERR_OPERATION_CANCELED \<equiv> ''IdentityOperationCanceled''"
abbreviation "ERR_CREDENTIALS_NOT_AVAILABLE \<equiv> ''CredentialsNotAvailable''"
abbreviation "ERR_OPERATION_FAILED \<equiv> ''OperationFailed''"
abbreviation "ERR_FORGOT_PASSWORD \<equiv> ''ForgotPassword''"

abbreviation "SSOUI_KEY_ERROR \<equiv> ''QueryErrorCode''"
abbreviation "SSOUI_KEY_CAPTION \<equiv> ''Caption''"
abbreviation "SSOUI_KEY_MESSAGEID \<equiv> ''QueryMessageId''"
abbreviation "SSOUI_KEY_MESSAGE \<equiv> ''QueryMessage''"
abbreviation "SSOUI_KEY_USERNAME \<equiv> ''UserName''"
abbreviation "SSOUI_KEY_QUERYPASSWORD \<equiv> ''QueryPassword''"
abbreviation "SSOUI_KEY_PASSWORD \<equiv> ''Secret''"
abbreviation "SSOUI_KEY_CONFIRMCOUNT \<equiv> ''ConfirmCount''"

definition QUERY_ERROR_NONE :: int where "QUERY_ERROR_NONE = 0"
definition QUERY_ERROR_CANCELED :: int where "QUERY_ERROR_CANCELED = 4"
definition QUERY_ERROR_FORGOT_PASSWORD :: int where "QUERY_ERROR_FORGOT_PASSWORD = 11"
definition QUERY_MESSAGE_NOT_AUTHORIZED :: int where "QUERY_MESSAGE_NOT_AUTHORIZED = 2"

datatype identity_change = IdentityDataUpdated | IdentityRemoved | IdentitySignedOut

record signon_identity =
  si_id :: nat
  si_pInfo :: "identity_info option"
  si_watched :: bool
  si_autoDestruct :: bool
  si_lastActivity :: nat
  si_maxInactivity :: nat

text \<open>Calls to signon-ui that have not returned: the slot that takes the answer, the object, and
  the client's call that waits for it.\<close>

datatype ui_slot = QueryUiSlot | VerifyUiSlot | RemoveCompleted | SignOutCompleted

record pending_call =
  pc_slot :: ui_slot
  pc_object :: nat
  pc_call :: dbus_call

text \<open>Requests to the access control manager that have not been decided.\<close>

record access_request =
  ar_call :: dbus_call
  ar_identity :: nat

datatype event =
    Reply dbus_call "qvariant list"
  | ErrorReply dbus_call string
  | InfoUpdated nat identity_change
  | QueryDialog nat qvariant_map
  | RemoveIdentityData nat nat

text \<open>
  Objects and pending calls are numbered by \<open>w_next\<close>. \<open>w_delayed\<close> says that the reply to the
  call being handled is not sent by QtDBus; \<open>w_doomed\<close> are the objects \<open>deleteLater\<close> has been
  called on. \<open>w_sessionCores\<close> counts the disposable objects that are not identities, and
  \<open>w_lastError\<close> is the error the daemon object reports. A timer exists after \<open>invokeOnIdle\<close> only, and \<open>w_clock\<close> is none when the
  monotonic clock cannot be read. \<open>w_fault\<close> records that a null pointer or a pointer to a
  deleted object has been followed.
\<close>

record world =
  w_db :: "credentials_db option"
  w_opened :: bool
  w_ac :: ac_manager
  w_objects :: "(nat \<times> signon_identity) list"
  w_stored :: "(nat, nat) qhash"
  w_pending :: "(nat \<times> pending_call) list"
  w_next :: nat
  w_delayed :: bool
  w_doomed :: "nat list"
  w_clock :: "nat option"
  w_notifyTimer :: "bool option"
  w_disposeTimer :: "bool option"
  w_sessionCores :: nat
  w_identityTimeout :: nat
  w_lastError :: "string option"
  w_requests :: "(nat \<times> access_request) list"
  w_fault :: bool
  w_out :: "event list"

definition dummy_identity :: signon_identity where
  "dummy_identity = \<lparr>si_id = 0, si_pInfo = None, si_watched = False, si_autoDestruct = True,
     si_lastActivity = 0, si_maxInactivity = 0\<rparr>"

definition this :: "nat \<Rightarrow> world \<Rightarrow> signon_identity" where
  "this ob w = (case map_of (w_objects w) ob of None \<Rightarrow> dummy_identity | Some i \<Rightarrow> i)"

definition set_this :: "nat \<Rightarrow> (signon_identity \<Rightarrow> signon_identity) \<Rightarrow> world \<Rightarrow> world" where
  "set_this ob f w = w\<lparr>w_objects := map (\<lambda>(k, i). (k, if k = ob then f i else i)) (w_objects w)\<rparr>"

definition out :: "event \<Rightarrow> world \<Rightarrow> world" where
  "out e w = w\<lparr>w_out := w_out w @ [e]\<rparr>"

definition setDelayedReply :: "world \<Rightarrow> world" where
  "setDelayedReply w = w\<lparr>w_delayed := True\<rparr>"

definition sendErrorReply :: "dbus_call \<Rightarrow> string \<Rightarrow> world \<Rightarrow> world" where
  "sendErrorReply c name w = out (ErrorReply c name) (setDelayedReply w)"

definition fault :: "world \<Rightarrow> world" where
  "fault w = w\<lparr>w_fault := True\<rparr>"

section \<open>SignonDisposable\<close>

definition keepInUse :: "nat \<Rightarrow> world \<Rightarrow> world" where
  "keepInUse ob w =
     (case w_clock w of
        None \<Rightarrow> w
      | Some sec \<Rightarrow>
          (set_this ob (\<lambda>i. i\<lparr>si_lastActivity := sec\<rparr>) w)
            \<lparr>w_notifyTimer := map_option (\<lambda>_. False) (w_notifyTimer w),
             w_disposeTimer := map_option (\<lambda>_. True) (w_disposeTimer w)\<rparr>)"

definition setAutoDestruct :: "nat \<Rightarrow> bool \<Rightarrow> world \<Rightarrow> world" where
  "setAutoDestruct ob v w = keepInUse ob (set_this ob (\<lambda>i. i\<lparr>si_autoDestruct := v\<rparr>) w)"

definition invokeOnIdle :: "world \<Rightarrow> world" where
  "invokeOnIdle w = w\<lparr>w_notifyTimer := Some False, w_disposeTimer := Some False\<rparr>"

definition destroy :: "nat \<Rightarrow> world \<Rightarrow> world" where
  "destroy ob w = w\<lparr>w_doomed := w_doomed w @ [ob]\<rparr>"

text \<open>The list of disposable objects is a static variable of the file; an object leaves it when
  it is destroyed.\<close>

definition disposable :: "nat \<Rightarrow> world \<Rightarrow> bool" where
  "disposable ob w \<longleftrightarrow> map_of (w_objects w) ob \<noteq> None \<and> ob \<notin> set (w_doomed w)"

definition unused :: "nat \<Rightarrow> signon_identity \<Rightarrow> bool" where
  "unused sec i \<longleftrightarrow> si_autoDestruct i \<and> int sec - int (si_lastActivity i) > int (si_maxInactivity i)"

definition destroyUnused :: "world \<Rightarrow> world" where
  "destroyUnused w =
     (case w_clock w of
        None \<Rightarrow> w
      | Some sec \<Rightarrow>
          let w = fold (\<lambda>ob w. if disposable ob w \<and> unused sec (this ob w) then destroy ob w else w)
                    (map fst (w_objects w)) w in
          if (\<forall>ob \<in> set (map fst (w_objects w)). \<not> disposable ob w) \<and> w_sessionCores w = 0
          then w\<lparr>w_notifyTimer := map_option (\<lambda>_. True) (w_notifyTimer w)\<rparr> else w)"

text \<open>Deferred deletion: the destructor tells the daemon, and takes the watchers of pending calls
  with it, which are children of the object.\<close>

definition delete_object :: "nat \<Rightarrow> world \<Rightarrow> world" where
  "delete_object ob w =
     (let w = (if si_watched (this ob w) then w\<lparr>w_stored := qh_remove (si_id (this ob w)) (w_stored w)\<rparr> else w)
      in w\<lparr>w_objects := filter (\<lambda>p. fst p \<noteq> ob) (w_objects w),
           w_pending := filter (\<lambda>p. pc_object (snd p) \<noteq> ob) (w_pending w)\<rparr>)"

definition deferred_deletes :: "world \<Rightarrow> world" where
  "deferred_deletes w = (fold delete_object (w_doomed w) w)\<lparr>w_doomed := []\<rparr>"

section \<open>Creation and signals\<close>

definition createIdentity :: "nat \<Rightarrow> world \<Rightarrow> nat \<times> world" where
  "createIdentity n w =
     (let ob = w_next w;
          i = \<lparr>si_id = n, si_pInfo = None, si_watched = False, si_autoDestruct = True,
               si_lastActivity = 0, si_maxInactivity = w_identityTimeout w\<rparr>
      in (ob, keepInUse ob (w\<lparr>w_objects := w_objects w @ [(ob, i)], w_next := ob + 1\<rparr>)))"

definition onCredentialsUpdated :: "nat \<Rightarrow> nat \<Rightarrow> world \<Rightarrow> world" where
  "onCredentialsUpdated n ob w =
     (if n \<noteq> si_id (this ob w) then w
      else out (InfoUpdated ob IdentityDataUpdated) (set_this ob (\<lambda>i. i\<lparr>si_pInfo := None\<rparr>) w))"

text \<open>An operation on the database, whose signals reach every object.\<close>

definition emit_updated :: "nat list \<Rightarrow> world \<Rightarrow> world" where
  "emit_updated ns w = fold (\<lambda>n w. fold (onCredentialsUpdated n) (map fst (w_objects w)) w) ns w"

definition on_db :: "(credentials_db \<Rightarrow> 'r \<times> credentials_db) \<Rightarrow> 'r \<Rightarrow> world \<Rightarrow> 'r \<times> world" where
  "on_db f r w =
     (case w_db w of
        None \<Rightarrow> (r, fault w)
      | Some db \<Rightarrow>
          let (r, db') = f db
          in (r, emit_updated (drop (length (cd_updated db)) (cd_updated db')) (w\<lparr>w_db := Some db'\<rparr>)))"

text \<open>\<open>SIGNON_RETURN_IF_CAM_UNAVAILABLE\<close>\<close>

definition need_cam :: "'r \<Rightarrow> dbus_call \<Rightarrow> (world \<Rightarrow> 'r \<times> world) \<Rightarrow> world \<Rightarrow> 'r \<times> world" where
  "need_cam r c f w = (if \<not> w_opened w then (r, sendErrorReply c ERR_INTERNAL_SERVER w) else f w)"

definition db_errorOccurred :: "world \<Rightarrow> bool" where
  "db_errorOccurred w \<longleftrightarrow> (case w_db w of None \<Rightarrow> False | Some db \<Rightarrow> cd_errorOccurred db)"

definition ui_call :: "ui_slot \<Rightarrow> nat \<Rightarrow> dbus_call \<Rightarrow> (nat \<Rightarrow> event) \<Rightarrow> world \<Rightarrow> world" where
  "ui_call slot ob c e w =
     out (e (w_next w))
       (w\<lparr>w_pending := w_pending w @ [(w_next w, \<lparr>pc_slot = slot, pc_object = ob, pc_call = c\<rparr>)],
          w_next := w_next w + 1\<rparr>)"

section \<open>Methods\<close>

definition needs_loading :: "bool \<Rightarrow> identity_info option \<Rightarrow> bool" where
  "needs_loading queryPassword pInfo =
     (case pInfo of None \<Rightarrow> True | Some i \<Rightarrow> queryPassword \<and> qisEmpty (password i))"

definition loaded_info :: "nat \<Rightarrow> bool \<Rightarrow> world \<Rightarrow> identity_info \<times> world" where
  "loaded_info ob queryPassword w =
     (case si_pInfo (this ob w) of
        None \<Rightarrow> ([], fault w)
      | Some i \<Rightarrow> (if queryPassword then i else setPassword QNull i, w))"

definition queryInfo :: "nat \<Rightarrow> bool \<Rightarrow> world \<Rightarrow> (bool \<times> identity_info) \<times> world" where
  "queryInfo ob queryPassword w =
     (let (ok, w) =
        (if needs_loading queryPassword (si_pInfo (this ob w))
         then let (info, w) = on_db (cd_credentials (si_id (this ob w)) queryPassword) [] w in
              if db_errorOccurred w then (False, set_this ob (\<lambda>i. i\<lparr>si_pInfo := None\<rparr>) w)
              else (True, set_this ob (\<lambda>i. i\<lparr>si_pInfo := Some info\<rparr>) w)
         else (True, w))
      in if \<not> ok then ((False, []), w)
         else let (info, w) = loaded_info ob queryPassword w in ((True, info), w))"

definition id_addReference :: "nat \<Rightarrow> dbus_call \<Rightarrow> qstring \<Rightarrow> world \<Rightarrow> bool \<times> world" where
  "id_addReference ob c reference =
     need_cam False c (\<lambda>w.
       if w_db w = None then (False, w)
       else let appId = appIdOfPeer (w_ac w) c; w = keepInUse ob w
         in on_db (cd_addReference (si_id (this ob w)) appId reference) False w)"

definition id_removeReference :: "nat \<Rightarrow> dbus_call \<Rightarrow> qstring \<Rightarrow> world \<Rightarrow> bool \<times> world" where
  "id_removeReference ob c reference =
     need_cam False c (\<lambda>w.
       if w_db w = None then (False, w)
       else let appId = appIdOfPeer (w_ac w) c; w = keepInUse ob w
         in on_db (cd_removeReference (si_id (this ob w)) appId reference) False w)"

definition requestCredentialsUpdate :: "nat \<Rightarrow> dbus_call \<Rightarrow> qstring \<Rightarrow> world \<Rightarrow> nat \<times> world" where
  "requestCredentialsUpdate ob c displayMessage =
     need_cam NEW_IDENTITY c (\<lambda>w.
       let ((ok, info), w) = queryInfo ob False w in
       if \<not> ok then (NEW_IDENTITY, sendErrorReply c ERR_IDENTITY_NOT_FOUND w)
       else if \<not> storePassword info then (NEW_IDENTITY, sendErrorReply c ERR_STORE_FAILED w)
       else
         let w = setDelayedReply w;
             uiRequest = qm_insert SSOUI_KEY_QUERYPASSWORD (VBool True) [];
             uiRequest = qm_insert SSOUI_KEY_USERNAME (VString (userName info)) uiRequest;
             uiRequest = qm_insert SSOUI_KEY_MESSAGE (VString displayMessage) uiRequest;
             uiRequest = qm_insert SSOUI_KEY_CAPTION (VString (caption info)) uiRequest;
             w = ui_call QueryUiSlot ob c (\<lambda>k. QueryDialog k uiRequest) w
         in (0, setAutoDestruct ob False w))"

definition getInfo :: "nat \<Rightarrow> dbus_call \<Rightarrow> world \<Rightarrow> qvariant_map \<times> world" where
  "getInfo ob c =
     need_cam [] c (\<lambda>w.
       let ((ok, info), w) = queryInfo ob False w in
       if \<not> ok then ([], sendErrorReply c ERR_CREDENTIALS_NOT_AVAILABLE w)
       else if isNew info then ([], sendErrorReply c ERR_IDENTITY_NOT_FOUND w)
       else (removeSecrets info, keepInUse ob w))"

definition queryUserPassword :: "nat \<Rightarrow> qvariant_map \<Rightarrow> dbus_call \<Rightarrow> world \<Rightarrow> world" where
  "queryUserPassword ob params c w =
     setAutoDestruct ob False (ui_call VerifyUiSlot ob c (\<lambda>k. QueryDialog k params) w)"

definition verifyUser :: "nat \<Rightarrow> dbus_call \<Rightarrow> qvariant_map \<Rightarrow> world \<Rightarrow> bool \<times> world" where
  "verifyUser ob c params =
     need_cam False c (\<lambda>w.
       let ((ok, info), w) = queryInfo ob True w in
       if \<not> ok then (False, sendErrorReply c ERR_IDENTITY_NOT_FOUND w)
       else if \<not> storePassword info \<or> qisEmpty (password info)
       then (False, sendErrorReply c ERR_CREDENTIALS_NOT_AVAILABLE w)
       else
         let w = setDelayedReply w;
             uiRequest = qm_unite [] params;
             uiRequest = qm_insert SSOUI_KEY_QUERYPASSWORD (VBool True) uiRequest;
             uiRequest = qm_insert SSOUI_KEY_USERNAME (VString (userName info)) uiRequest;
             uiRequest = qm_insert SSOUI_KEY_CAPTION (VString (caption info)) uiRequest
         in (False, queryUserPassword ob uiRequest c w))"

definition verifySecret :: "nat \<Rightarrow> dbus_call \<Rightarrow> qstring \<Rightarrow> world \<Rightarrow> bool \<times> world" where
  "verifySecret ob c secret =
     need_cam False c (\<lambda>w.
       let ((ok, _), w) = queryInfo ob True w in
       if \<not> ok then (False, sendErrorReply c ERR_CREDENTIALS_NOT_AVAILABLE w)
       else case si_pInfo (this ob w) of
           None \<Rightarrow> (False, fault w)
         | Some i \<Rightarrow>
             let (ret, w) = on_db (cd_checkPassword (info_id i) (userName i) secret) False w
             in (ret, keepInUse ob w))"

definition id_remove :: "nat \<Rightarrow> dbus_call \<Rightarrow> world \<Rightarrow> unit \<times> world" where
  "id_remove ob c =
     need_cam () c (\<lambda>w.
       let (ok, w) = (if w_db w = None then (False, w)
                      else on_db (cd_removeCredentials (si_id (this ob w))) False w) in
       if \<not> ok then ((), sendErrorReply c ERR_REMOVE_FAILED w)
       else
         let w = setAutoDestruct ob False (setDelayedReply w);
             w = ui_call RemoveCompleted ob c (\<lambda>k. RemoveIdentityData k (si_id (this ob w))) w
         in ((), keepInUse ob w))"

definition signOut :: "nat \<Rightarrow> dbus_call \<Rightarrow> world \<Rightarrow> bool \<times> world" where
  "signOut ob c w =
     (let w =
        (if si_id (this ob w) \<noteq> NEW_IDENTITY
         then
           let w = (if w_db w = None then w
                    else snd (on_db (cd_removeData (si_id (this ob w)) QNull) False w));
               w = setAutoDestruct ob False (setDelayedReply w)
           in ui_call SignOutCompleted ob c (\<lambda>k. RemoveIdentityData k (si_id (this ob w))) w
         else w)
      in (True, keepInUse ob w))"

definition onIdentityStored :: "nat \<Rightarrow> world \<Rightarrow> world" where
  "onIdentityStored ob w = w\<lparr>w_stored := qh_insert (si_id (this ob w)) ob (w_stored w)\<rparr>"

definition storeCredentials :: "nat \<Rightarrow> identity_info \<Rightarrow> world \<Rightarrow> nat \<times> world" where
  "storeCredentials ob info w =
     (if w_db w = None then (NEW_IDENTITY, w)
      else
        let newIdentity = isNew info;
            w = (if newIdentity
                 then let (n, w) = on_db (cd_insertCredentials info) 0 w
                      in set_this ob (\<lambda>i. i\<lparr>si_id := n\<rparr>) w
                 else snd (on_db (cd_updateCredentials info) 0 w));
            w = (if db_errorOccurred w
                 then (if newIdentity then set_this ob (\<lambda>i. i\<lparr>si_id := NEW_IDENTITY\<rparr>) w else w)
                 else
                   let w = set_this ob (\<lambda>i. i\<lparr>si_pInfo := None\<rparr>) w;
                       w = (if si_watched (this ob w) then onIdentityStored ob w else w)
                   in out (InfoUpdated ob IdentityDataUpdated) w)
        in (si_id (this ob w), w))"

fun store_methods :: "qvariant \<Rightarrow> method_map" where
  "store_methods (VDBus container) = qdbus_cast_methods container"
| "store_methods _ = []"

definition info_to_store :: "qvariant_map \<Rightarrow> qstring \<Rightarrow> identity_info option \<Rightarrow> identity_info" where
  "info_to_store info appId pInfo =
     (case pInfo of
        None \<Rightarrow>
          let i = setMethods (store_methods (qm_value info KEY_AUTHMETHODS VInvalid)) (SignonIdentityInfo info);
              ownerList = v_toStringList (qm_value info KEY_OWNER VInvalid);
              ownerList = (if \<not> qisNull appId then ownerList @ [appId] else ownerList)
          in setOwnerList ownerList i
      | Some i \<Rightarrow> info_update i (SignonIdentityInfo info))"

definition id_store :: "nat \<Rightarrow> dbus_call \<Rightarrow> qvariant_map \<Rightarrow> world \<Rightarrow> nat \<times> world" where
  "id_store ob c info w =
     need_cam NEW_IDENTITY c (\<lambda>w.
       let i = info_to_store info (appIdOfPeer (w_ac w) c) (si_pInfo (this ob w));
           w = set_this ob (\<lambda>s. s\<lparr>si_pInfo := Some i\<rparr>) w;
           (n, w) = storeCredentials ob i w;
           w = set_this ob (\<lambda>s. s\<lparr>si_id := n\<rparr>) w;
           w = (if n = NEW_IDENTITY then sendErrorReply c ERR_STORE_FAILED w else w)
       in (n, w)) (keepInUse ob w)"

section \<open>Answers of signon-ui\<close>

definition removeCompleted :: "nat \<Rightarrow> dbus_call \<Rightarrow> world \<Rightarrow> world" where
  "removeCompleted ob c w = out (Reply c []) (out (InfoUpdated ob IdentityRemoved) (setAutoDestruct ob True w))"

definition signOutCompleted :: "nat \<Rightarrow> dbus_call \<Rightarrow> qvariant_map option \<Rightarrow> world \<Rightarrow> world" where
  "signOutCompleted ob c reply w =
     out (Reply c [VBool (reply \<noteq> None)]) (out (InfoUpdated ob IdentitySignedOut) (setAutoDestruct ob True w))"

definition queryUiSlot :: "nat \<Rightarrow> dbus_call \<Rightarrow> qvariant_map option \<Rightarrow> world \<Rightarrow> world" where
  "queryUiSlot ob c reply w0 =
     (let w = setAutoDestruct ob True w0 in
      case reply of
        None \<Rightarrow> out (ErrorReply c ERR_OPERATION_CANCELED) w
      | Some resultParameters \<Rightarrow>
          if \<not> qm_contains resultParameters SSOUI_KEY_ERROR then out (ErrorReply c ERR_INTERNAL_SERVER) w
          else let errorCode = v_toInt (qm_value resultParameters SSOUI_KEY_ERROR VInvalid) in
            if errorCode \<noteq> QUERY_ERROR_NONE
            then out (ErrorReply c (if errorCode = QUERY_ERROR_CANCELED then ERR_OPERATION_CANCELED
                                    else ERR_INTERNAL_SERVER)) w
            else if qm_contains resultParameters SSOUI_KEY_PASSWORD
            then (if w_db w = None then out (ErrorReply c ERR_STORE_FAILED) w
              else case si_pInfo (this ob w) of
                  None \<Rightarrow> out (ErrorReply c ERR_INTERNAL_SERVER) w
                | Some i \<Rightarrow>
                    let i = setPassword (v_toString (qm_value resultParameters SSOUI_KEY_PASSWORD VInvalid)) i;
                        w = set_this ob (\<lambda>s. s\<lparr>si_pInfo := Some i\<rparr>) w;
                        (ret, w) = on_db (cd_updateCredentials i) 0 w;
                        w = set_this ob (\<lambda>s. s\<lparr>si_pInfo := None\<rparr>) w
                    in if ret \<noteq> NEW_IDENTITY then out (Reply c [VUInt (si_id (this ob w))]) w
                       else out (ErrorReply c ERR_INTERNAL_SERVER) w)
            else out (ErrorReply c ERR_INTERNAL_SERVER) w)"

definition verifyUiSlot :: "nat \<Rightarrow> dbus_call \<Rightarrow> qvariant_map option \<Rightarrow> world \<Rightarrow> world" where
  "verifyUiSlot ob c reply w0 =
     (let w = setAutoDestruct ob True w0 in
      case reply of
        None \<Rightarrow> out (ErrorReply c ERR_OPERATION_CANCELED) w
      | Some resultParameters \<Rightarrow>
          if \<not> qm_contains resultParameters SSOUI_KEY_ERROR then out (ErrorReply c ERR_INTERNAL_SERVER) w
          else let errorCode = v_toInt (qm_value resultParameters SSOUI_KEY_ERROR VInvalid) in
            if errorCode \<noteq> QUERY_ERROR_NONE
            then out (ErrorReply c (if errorCode = QUERY_ERROR_CANCELED then ERR_OPERATION_CANCELED
                                    else if errorCode = QUERY_ERROR_FORGOT_PASSWORD then ERR_FORGOT_PASSWORD
                                    else ERR_INTERNAL_SERVER)) w
            else if qm_contains resultParameters SSOUI_KEY_PASSWORD
            then (if w_db w = None then out (ErrorReply c ERR_STORE_FAILED) w
              else case si_pInfo (this ob w) of
                  None \<Rightarrow> out (ErrorReply c ERR_INTERNAL_SERVER) w
                | Some i \<Rightarrow>
                    let ret = qeq (password i) (v_toString (qm_value resultParameters SSOUI_KEY_PASSWORD VInvalid));
                        count = v_toInt (qm_value resultParameters SSOUI_KEY_CONFIRMCOUNT VInvalid)
                    in if \<not> ret \<and> qm_contains resultParameters SSOUI_KEY_CONFIRMCOUNT \<and> count > 0
                       then let resultParameters =
                                  qm_insert SSOUI_KEY_CONFIRMCOUNT (VInt (count - 1)) resultParameters;
                                resultParameters =
                                  qm_insert SSOUI_KEY_MESSAGEID (VInt QUERY_MESSAGE_NOT_AUTHORIZED) resultParameters
                         in queryUserPassword ob resultParameters c w
                       else out (Reply c [VBool ret]) (set_this ob (\<lambda>s. s\<lparr>si_pInfo := None\<rparr>) w))
            else out (ErrorReply c ERR_INTERNAL_SERVER) w)"

end
