(* ===== verification/Signon_Daemon.thy ===== *)
theory Signon_Daemon
  imports Signon_Identity
begin

text \<open>
  The D-Bus interface of identities: \<open>SignonIdentityAdaptor\<close>
  (src/signond/signonidentityadaptor.cpp), which checks the caller's rights before it calls the
  object; the identity side of \<open>SignonDaemon\<close> (src/signond/signondaemon.cpp) and of
  \<open>SignonDaemonAdaptor\<close> (src/signond/signondaemonadaptor.cpp); and the events that drive them.
\<close>

section \<open>SignonIdentityAdaptor\<close>

definition errorReply :: "dbus_call \<Rightarrow> string \<Rightarrow> world \<Rightarrow> world" where
  "errorReply c name w = out (ErrorReply c name) (setDelayedReply w)"

definition securityErrorReply :: "dbus_call \<Rightarrow> world \<Rightarrow> world" where
  "securityErrorReply c w = errorReply c ERR_PERMISSION_DENIED w"

text \<open>The check every method but \<open>remove\<close> and \<open>store\<close> begins with, and the one of these two.\<close>

definition if_may_use ::
    "nat \<Rightarrow> dbus_call \<Rightarrow> qvariant list \<Rightarrow> (world \<Rightarrow> qvariant list \<times> world) \<Rightarrow> world \<Rightarrow> qvariant list \<times> world"
  where
  "if_may_use ob c r f w =
     (let (ok, db) = isPeerAllowedToUseIdentity (w_ac w) c (si_id (this ob w)) (w_db w);
          w = w\<lparr>w_db := db\<rparr>
      in if \<not> ok then (r, securityErrorReply c w) else f w)"

definition if_may_change ::
    "nat \<Rightarrow> dbus_call \<Rightarrow> qvariant list \<Rightarrow> (world \<Rightarrow> qvariant list \<times> world) \<Rightarrow> world \<Rightarrow> qvariant list \<times> world"
  where
  "if_may_change ob c r f w =
     (let (ownership, db) = isPeerOwnerOfIdentity (w_ac w) c (si_id (this ob w)) (w_db w);
          w = w\<lparr>w_db := db\<rparr>
      in if ownership \<noteq> IdentityDoesNotHaveOwner \<and> ownership = ApplicationIsNotOwner
            \<and> \<not> isPeerKeychainWidget (w_ac w) c
         then (r, securityErrorReply c w) else f w)"

definition ad_requestCredentialsUpdate :: "nat \<Rightarrow> dbus_call \<Rightarrow> qstring \<Rightarrow> world \<Rightarrow> qvariant list \<times> world" where
  "ad_requestCredentialsUpdate ob c msg =
     if_may_use ob c [VUInt 0] (\<lambda>w. let (n, w) = requestCredentialsUpdate ob c msg w in ([VUInt n], w))"

definition ad_getInfo :: "nat \<Rightarrow> dbus_call \<Rightarrow> world \<Rightarrow> qvariant list \<times> world" where
  "ad_getInfo ob c = if_may_use ob c [VMap []] (\<lambda>w. let (m, w) = getInfo ob c w in ([VMap m], w))"

definition ad_addReference :: "nat \<Rightarrow> dbus_call \<Rightarrow> qstring \<Rightarrow> world \<Rightarrow> qvariant list \<times> world" where
  "ad_addReference ob c reference =
     if_may_use ob c [] (\<lambda>w. let (ok, w) = id_addReference ob c reference w in
       ([], if \<not> ok then errorReply c ERR_OPERATION_FAILED w else w))"

definition ad_removeReference :: "nat \<Rightarrow> dbus_call \<Rightarrow> qstring \<Rightarrow> world \<Rightarrow> qvariant list \<times> world" where
  "ad_removeReference ob c reference =
     if_may_use ob c [] (\<lambda>w. let (ok, w) = id_removeReference ob c reference w in
       ([], if \<not> ok then errorReply c ERR_OPERATION_FAILED w else w))"

definition ad_verifyUser :: "nat \<Rightarrow> dbus_call \<Rightarrow> qvariant_map \<Rightarrow> world \<Rightarrow> qvariant list \<times> world" where
  "ad_verifyUser ob c params =
     if_may_use ob c [VBool False] (\<lambda>w. let (b, w) = verifyUser ob c params w in ([VBool b], w))"

definition ad_verifySecret :: "nat \<Rightarrow> dbus_call \<Rightarrow> qstring \<Rightarrow> world \<Rightarrow> qvariant list \<times> world" where
  "ad_verifySecret ob c secret =
     if_may_use ob c [VBool False] (\<lambda>w. let (b, w) = verifySecret ob c secret w in ([VBool b], w))"

definition ad_signOut :: "nat \<Rightarrow> dbus_call \<Rightarrow> world \<Rightarrow> qvariant list \<times> world" where
  "ad_signOut ob c =
     if_may_use ob c [VBool False] (\<lambda>w. let (b, w) = signOut ob c w in ([VBool b], w))"

definition ad_remove :: "nat \<Rightarrow> dbus_call \<Rightarrow> world \<Rightarrow> qvariant list \<times> world" where
  "ad_remove ob c = if_may_change ob c [] (\<lambda>w. ([], snd (id_remove ob c w)))"

text \<open>\<open>store\<close> checks the owner only when the client names an identity.\<close>

definition ad_store :: "nat \<Rightarrow> dbus_call \<Rightarrow> qvariant_map \<Rightarrow> world \<Rightarrow> qvariant list \<times> world" where
  "ad_store ob c info w =
     (let n = to_uint (v_toInt (qm_value info ''Id'' (VUInt NEW_IDENTITY)));
          f = (\<lambda>w. let (n, w) = id_store ob c info w in ([VUInt n], w))
      in if n \<noteq> NEW_IDENTITY then if_may_change ob c [VUInt 0] f w else f w)"

section \<open>SignonDaemon\<close>

definition setLastError :: "string \<Rightarrow> world \<Rightarrow> world" where
  "setLastError name w = w\<lparr>w_lastError := Some name\<rparr>"

definition clearLastError :: "world \<Rightarrow> world" where
  "clearLastError w = w\<lparr>w_lastError := None\<rparr>"

definition watchIdentity :: "nat \<Rightarrow> world \<Rightarrow> world" where
  "watchIdentity ob w =
     (let w = set_this ob (\<lambda>i. i\<lparr>si_watched := True\<rparr>) w
      in if si_id (this ob w) \<noteq> NEW_IDENTITY
         then w\<lparr>w_stored := qh_insert (si_id (this ob w)) ob (w_stored w)\<rparr> else w)"

definition registerNewIdentity :: "world \<Rightarrow> nat \<times> world" where
  "registerNewIdentity w =
     (let (ob, w) = createIdentity NEW_IDENTITY (clearLastError w) in (ob, watchIdentity ob w))"

text \<open>The object is found in the register or created; a registered pointer whose object has been
  deleted is followed all the same.\<close>

definition getIdentity :: "nat \<Rightarrow> world \<Rightarrow> (nat option \<times> qvariant_map) \<times> world" where
  "getIdentity n w0 =
     (let w = clearLastError w0 in
      if \<not> w_opened w then ((None, []), setLastError ERR_INTERNAL_SERVER w)
      else
        let (ob, w) = (case map_of (w_stored w) n of
                         Some ob \<Rightarrow> (ob, if map_of (w_objects w) ob = None then fault w else w)
                       | None \<Rightarrow> createIdentity n w);
            ((_, info), w) = queryInfo ob False w
        in if isNew info then ((None, []), destroy ob (setLastError ERR_IDENTITY_NOT_FOUND w))
           else ((Some ob, info), keepInUse ob (watchIdentity ob w)))"

definition queryIdentities :: "world \<Rightarrow> qvariant_map list \<times> world" where
  "queryIdentities w0 =
     (let w = clearLastError w0 in
      if \<not> w_opened w then ([], setLastError ERR_INTERNAL_SERVER w)
      else if w_db w = None then ([], w)
      else let (credentials, w) = on_db cd_identities [] w in
        if db_errorOccurred w then ([], setLastError ERR_INTERNAL_SERVER w) else (credentials, w))"

definition daemon_clear :: "world \<Rightarrow> bool \<times> world" where
  "daemon_clear w0 =
     (let w = clearLastError w0 in
      if \<not> w_opened w then (False, setLastError ERR_INTERNAL_SERVER w)
      else if w_db w = None then (False, w)
      else let (ok, w) = on_db cd_clear False w in
        if \<not> ok then (False, setLastError ERR_INTERNAL_SERVER w) else (True, w))"

section \<open>SignonDaemonAdaptor\<close>

definition handleLastError :: "dbus_call \<Rightarrow> world \<Rightarrow> bool \<times> world" where
  "handleLastError c w =
     (case w_lastError w of None \<Rightarrow> (False, w) | Some name \<Rightarrow> (True, errorReply c name w))"

definition da_registerNewIdentity :: "dbus_call \<Rightarrow> world \<Rightarrow> qvariant list \<times> world" where
  "da_registerNewIdentity c w = (let (ob, w) = registerNewIdentity w in ([VUInt ob], destroyUnused w))"

text \<open>A peer without access is referred to the access control manager; its answer comes later.\<close>

definition requestAccessToIdentity :: "dbus_call \<Rightarrow> nat \<Rightarrow> world \<Rightarrow> world" where
  "requestAccessToIdentity c n w =
     w\<lparr>w_requests := w_requests w @ [(w_next w, \<lparr>ar_call = c, ar_identity = n\<rparr>)],
       w_next := w_next w + 1\<rparr>"

definition da_getIdentity :: "dbus_call \<Rightarrow> nat \<Rightarrow> world \<Rightarrow> qvariant list \<times> world" where
  "da_getIdentity c n w =
     (let (ok, db) = isPeerAllowedToUseIdentity (w_ac w) c n (w_db w); w = w\<lparr>w_db := db\<rparr> in
      if \<not> ok then ([VUInt 0, VMap []], setDelayedReply (requestAccessToIdentity c n w))
      else
        let ((ob, identityData), w) = getIdentity n w;
            (failed, w) = handleLastError c w
        in case ob of
             Some ob \<Rightarrow> if failed then ([VUInt 0, VMap identityData], w)
                        else ([VUInt ob, VMap identityData], destroyUnused w)
           | None \<Rightarrow> ([VUInt 0, VMap identityData], w))"

definition onIdentityAccessReplyFinished :: "dbus_call \<Rightarrow> nat \<Rightarrow> bool \<Rightarrow> world \<Rightarrow> world" where
  "onIdentityAccessReplyFinished c n isAccepted w =
     (let (ok, w) = (if \<not> isAccepted then (False, w)
                     else let (ok, db) = isPeerAllowedToUseIdentity (w_ac w) c n (w_db w)
                          in (ok, w\<lparr>w_db := db\<rparr>)) in
      if \<not> ok then securityErrorReply c w
      else
        let ((ob, identityData), w) = getIdentity n w;
            (failed, w) = handleLastError c w
        in case ob of
             Some ob \<Rightarrow> if failed then w
                        else destroyUnused (out (Reply c [VUInt ob, VMap identityData]) w)
           | None \<Rightarrow> w)"

definition da_queryIdentities :: "dbus_call \<Rightarrow> world \<Rightarrow> qvariant list \<times> world" where
  "da_queryIdentities c w =
     (if \<not> isPeerKeychainWidget (w_ac w) c then ([], securityErrorReply c w)
      else
        let w = setDelayedReply w;
            (identities, w) = queryIdentities w;
            (failed, w) = handleLastError c w
        in ([], if failed then w else out (Reply c (map VMap identities)) w))"

definition da_clear :: "dbus_call \<Rightarrow> world \<Rightarrow> qvariant list \<times> world" where
  "da_clear c w =
     (if \<not> isPeerKeychainWidget (w_ac w) c then ([VBool False], securityErrorReply c w)
      else
        let (ok, w) = daemon_clear w;
            (failed, w) = handleLastError c w
        in ([VBool (if failed then False else ok)], w))"

section \<open>Events\<close>

datatype client_call =
    RegisterNewIdentity
  | GetIdentity nat
  | QueryIdentities
  | Clear
  | RequestCredentialsUpdate nat qstring
  | GetInfo nat
  | AddReference nat qstring
  | RemoveReference nat qstring
  | VerifyUser nat qvariant_map
  | VerifySecret nat qstring
  | Remove nat
  | SignOut nat
  | Store nat qvariant_map

fun adaptor :: "dbus_call \<Rightarrow> client_call \<Rightarrow> world \<Rightarrow> qvariant list \<times> world" where
  "adaptor c RegisterNewIdentity w = da_registerNewIdentity c w"
| "adaptor c (GetIdentity n) w = da_getIdentity c n w"
| "adaptor c QueryIdentities w = da_queryIdentities c w"
| "adaptor c Clear w = da_clear c w"
| "adaptor c (RequestCredentialsUpdate ob msg) w = ad_requestCredentialsUpdate ob c msg w"
| "adaptor c (GetInfo ob) w = ad_getInfo ob c w"
| "adaptor c (AddReference ob r) w = ad_addReference ob c r w"
| "adaptor c (RemoveReference ob r) w = ad_removeReference ob c r w"
| "adaptor c (VerifyUser ob params) w = ad_verifyUser ob c params w"
| "adaptor c (VerifySecret ob secret) w = ad_verifySecret ob c secret w"
| "adaptor c (Remove ob) w = ad_remove ob c w"
| "adaptor c (SignOut ob) w = ad_signOut ob c w"
| "adaptor c (Store ob info) w = ad_store ob c info w"

fun target_object :: "client_call \<Rightarrow> nat option" where
  "target_object (RequestCredentialsUpdate ob _) = Some ob"
| "target_object (GetInfo ob) = Some ob"
| "target_object (AddReference ob _) = Some ob"
| "target_object (RemoveReference ob _) = Some ob"
| "target_object (VerifyUser ob _) = Some ob"
| "target_object (VerifySecret ob _) = Some ob"
| "target_object (Remove ob) = Some ob"
| "target_object (SignOut ob) = Some ob"
| "target_object (Store ob _) = Some ob"
| "target_object _ = None"

text \<open>QtDBus delivers a call to an object that exists and sends the reply of a slot that has not
  asked for a delay. Objects are deleted when control returns to the event loop.\<close>

definition client_calls :: "dbus_call \<Rightarrow> client_call \<Rightarrow> world \<Rightarrow> world" where
  "client_calls c m w =
     (if (case target_object m of None \<Rightarrow> False | Some ob \<Rightarrow> map_of (w_objects w) ob = None)
      then out (ErrorReply c ''UnknownObject'') w
      else
        let (vals, w) = adaptor c m (w\<lparr>w_delayed := False\<rparr>);
            w = (if w_delayed w then w else out (Reply c vals) w)
        in deferred_deletes w)"

definition ui_answers :: "nat \<Rightarrow> qvariant_map option \<Rightarrow> world \<Rightarrow> world" where
  "ui_answers k reply w =
     (case map_of (w_pending w) k of
        None \<Rightarrow> w
      | Some p \<Rightarrow>
          let w = w\<lparr>w_pending := filter (\<lambda>p. fst p \<noteq> k) (w_pending w)\<rparr>; ob = pc_object p; c = pc_call p in
          deferred_deletes (case pc_slot p of
              QueryUiSlot \<Rightarrow> queryUiSlot ob c reply w
            | VerifyUiSlot \<Rightarrow> verifyUiSlot ob c reply w
            | RemoveCompleted \<Rightarrow> removeCompleted ob c w
            | SignOutCompleted \<Rightarrow> signOutCompleted ob c reply w))"

definition access_decided :: "nat \<Rightarrow> bool \<Rightarrow> world \<Rightarrow> world" where
  "access_decided k isAccepted w =
     (case map_of (w_requests w) k of
        None \<Rightarrow> w
      | Some r \<Rightarrow>
          let w = w\<lparr>w_requests := filter (\<lambda>p. fst p \<noteq> k) (w_requests w)\<rparr>
          in deferred_deletes (onIdentityAccessReplyFinished (ar_call r) (ar_identity r) isAccepted w))"

definition dispose_timeout :: "world \<Rightarrow> world" where
  "dispose_timeout w = deferred_deletes (destroyUnused w)"

datatype happening =
    ClientCalls dbus_call client_call
  | UiAnswers nat "qvariant_map option"
  | AccessDecided nat bool
  | DisposeTimeout
  | ClockTick "nat option"

fun happen :: "happening \<Rightarrow> world \<Rightarrow> world" where
  "happen (ClientCalls c m) w = client_calls c m w"
| "happen (UiAnswers k reply) w = ui_answers k reply w"
| "happen (AccessDecided k b) w = access_decided k b w"
| "happen DisposeTimeout w = dispose_timeout w"
| "happen (ClockTick t) w = w\<lparr>w_clock := t\<rparr>"

definition run :: "happening list \<Rightarrow> world \<Rightarrow> world" where
  "run hs w = fold happen hs w"

end
