(* ===== verification/Identity_Frames.thy ===== *)
theory Identity_Frames
  imports Signon_Daemon
begin

text \<open>
  What the parts of the identity interface leave alone. Two measures of the daemon's state
  carry the properties: the number of answers a call has had or still waits for, and whether
  any answer shows a password. Both have one lemma per operation.
\<close>

section \<open>Selectors\<close>

lemma set_this_sel [simp]:
  "w_db (set_this ob f w) = w_db w" "w_opened (set_this ob f w) = w_opened w" "w_ac (set_this ob f w) = w_ac w"
  "w_stored (set_this ob f w) = w_stored w" "w_pending (set_this ob f w) = w_pending w"
  "w_requests (set_this ob f w) = w_requests w" "w_next (set_this ob f w) = w_next w"
  "w_delayed (set_this ob f w) = w_delayed w" "w_doomed (set_this ob f w) = w_doomed w"
  "w_fault (set_this ob f w) = w_fault w" "w_out (set_this ob f w) = w_out w"
  "w_lastError (set_this ob f w) = w_lastError w" "w_clock (set_this ob f w) = w_clock w"
  "map fst (w_objects (set_this ob f w)) = map fst (w_objects w)"
  by (simp_all add: set_this_def comp_def split_def)

lemma out_sel [simp]:
  "w_db (out e w) = w_db w" "w_opened (out e w) = w_opened w" "w_ac (out e w) = w_ac w"
  "w_stored (out e w) = w_stored w" "w_pending (out e w) = w_pending w"
  "w_requests (out e w) = w_requests w" "w_next (out e w) = w_next w" "w_delayed (out e w) = w_delayed w"
  "w_doomed (out e w) = w_doomed w" "w_fault (out e w) = w_fault w" "w_objects (out e w) = w_objects w"
  "w_lastError (out e w) = w_lastError w" "w_out (out e w) = w_out w @ [e]"
  by (simp_all add: out_def)

lemma keepInUse_sel [simp]:
  "w_db (keepInUse ob w) = w_db w" "w_opened (keepInUse ob w) = w_opened w" "w_ac (keepInUse ob w) = w_ac w"
  "w_stored (keepInUse ob w) = w_stored w" "w_pending (keepInUse ob w) = w_pending w"
  "w_requests (keepInUse ob w) = w_requests w" "w_next (keepInUse ob w) = w_next w"
  "w_delayed (keepInUse ob w) = w_delayed w" "w_doomed (keepInUse ob w) = w_doomed w"
  "w_fault (keepInUse ob w) = w_fault w" "w_out (keepInUse ob w) = w_out w"
  "w_lastError (keepInUse ob w) = w_lastError w"
  "map fst (w_objects (keepInUse ob w)) = map fst (w_objects w)"
  by (simp_all add: keepInUse_def split: option.splits)

lemma setAutoDestruct_sel [simp]:
  "w_db (setAutoDestruct ob v w) = w_db w" "w_opened (setAutoDestruct ob v w) = w_opened w"
  "w_ac (setAutoDestruct ob v w) = w_ac w" "w_stored (setAutoDestruct ob v w) = w_stored w"
  "w_pending (setAutoDestruct ob v w) = w_pending w" "w_requests (setAutoDestruct ob v w) = w_requests w"
  "w_next (setAutoDestruct ob v w) = w_next w" "w_delayed (setAutoDestruct ob v w) = w_delayed w"
  "w_doomed (setAutoDestruct ob v w) = w_doomed w" "w_fault (setAutoDestruct ob v w) = w_fault w"
  "w_out (setAutoDestruct ob v w) = w_out w" "w_lastError (setAutoDestruct ob v w) = w_lastError w"
  "map fst (w_objects (setAutoDestruct ob v w)) = map fst (w_objects w)"
  by (simp_all add: setAutoDestruct_def)

lemma setDelayedReply_sel [simp]:
  "w_db (setDelayedReply w) = w_db w" "w_opened (setDelayedReply w) = w_opened w"
  "w_ac (setDelayedReply w) = w_ac w" "w_stored (setDelayedReply w) = w_stored w"
  "w_pending (setDelayedReply w) = w_pending w" "w_requests (setDelayedReply w) = w_requests w"
  "w_next (setDelayedReply w) = w_next w" "w_delayed (setDelayedReply w)" "w_doomed (setDelayedReply w) = w_doomed w"
  "w_fault (setDelayedReply w) = w_fault w" "w_objects (setDelayedReply w) = w_objects w"
  "w_lastError (setDelayedReply w) = w_lastError w" "w_out (setDelayedReply w) = w_out w"
  by (simp_all add: setDelayedReply_def)

lemma ui_call_sel [simp]:
  "w_db (ui_call s ob c e w) = w_db w" "w_opened (ui_call s ob c e w) = w_opened w"
  "w_ac (ui_call s ob c e w) = w_ac w" "w_stored (ui_call s ob c e w) = w_stored w"
  "w_requests (ui_call s ob c e w) = w_requests w" "w_delayed (ui_call s ob c e w) = w_delayed w"
  "w_doomed (ui_call s ob c e w) = w_doomed w" "w_fault (ui_call s ob c e w) = w_fault w"
  "w_objects (ui_call s ob c e w) = w_objects w" "w_lastError (ui_call s ob c e w) = w_lastError w"
  "w_out (ui_call s ob c e w) = w_out w @ [e (w_next w)]"
  by (simp_all add: ui_call_def)

lemma fault_sel [simp]:
  "w_db (fault w) = w_db w" "w_opened (fault w) = w_opened w" "w_delayed (fault w) = w_delayed w"
  "w_fault (fault w)" "w_out (fault w) = w_out w" "w_doomed (fault w) = w_doomed w" "w_objects (fault w) = w_objects w"
  by (simp_all add: fault_def)

lemma errorReply_eq [simp]: "errorReply = sendErrorReply"
  by (simp add: fun_eq_iff errorReply_def sendErrorReply_def)

lemma sendErrorReply_sel [simp]:
  "w_db (sendErrorReply c n w) = w_db w" "w_opened (sendErrorReply c n w) = w_opened w"
  "w_ac (sendErrorReply c n w) = w_ac w" "w_stored (sendErrorReply c n w) = w_stored w"
  "w_pending (sendErrorReply c n w) = w_pending w" "w_requests (sendErrorReply c n w) = w_requests w"
  "w_next (sendErrorReply c n w) = w_next w" "w_delayed (sendErrorReply c n w)"
  "w_doomed (sendErrorReply c n w) = w_doomed w" "w_fault (sendErrorReply c n w) = w_fault w"
  "w_objects (sendErrorReply c n w) = w_objects w" "w_lastError (sendErrorReply c n w) = w_lastError w"
  "w_out (sendErrorReply c n w) = w_out w @ [ErrorReply c n]"
  by (simp_all add: sendErrorReply_def)

section \<open>Signals of the database\<close>

text \<open>A step that only touches the database and the objects, and tells clients of updates.\<close>

definition is_update :: "event \<Rightarrow> bool" where
  "is_update e \<longleftrightarrow> (\<exists>ob. e = InfoUpdated ob IdentityDataUpdated)"

definition quiet :: "world \<Rightarrow> world \<Rightarrow> bool" where
  "quiet w w' \<longleftrightarrow> w_opened w' = w_opened w \<and> w_ac w' = w_ac w \<and> w_stored w' = w_stored w
     \<and> w_pending w' = w_pending w \<and> w_requests w' = w_requests w \<and> w_next w' = w_next w
     \<and> w_delayed w' = w_delayed w \<and> w_doomed w' = w_doomed w \<and> w_lastError w' = w_lastError w
     \<and> map fst (w_objects w') = map fst (w_objects w) \<and> (w_db w' = None \<longleftrightarrow> w_db w = None)
     \<and> (\<exists>es. w_out w' = w_out w @ es \<and> (\<forall>e \<in> set es. is_update e))"

lemma quiet_refl [simp]: "quiet w w"
  by (simp add: quiet_def)

lemma quiet_trans [trans]: "quiet w1 w2 \<Longrightarrow> quiet w2 w3 \<Longrightarrow> quiet w1 w3"
  by (auto simp: quiet_def)

lemma quiet_simple [simp]:
  "quiet w (set_this ob f w)" "quiet w (keepInUse ob w)" "quiet w (setAutoDestruct ob v w)" "quiet w (fault w)"
  by (simp_all add: quiet_def) (simp_all add: fault_def)

lemma quiet_step [intro]:
  assumes "quiet w w'"
  shows "quiet w (set_this ob f w')" "quiet w (keepInUse ob w')" "quiet w (setAutoDestruct ob v w')"
    "quiet w (fault w')"
  by (rule quiet_trans [OF assms quiet_simple(1)] quiet_trans [OF assms quiet_simple(2)]
      quiet_trans [OF assms quiet_simple(3)] quiet_trans [OF assms quiet_simple(4)])+

lemma quiet_onCredentialsUpdated: "quiet w (onCredentialsUpdated n ob w)"
  by (simp add: onCredentialsUpdated_def quiet_def is_update_def)

lemma quiet_fold: "(\<And>x w. quiet w (f x w)) \<Longrightarrow> quiet w (fold f xs w)"
  by (induction xs arbitrary: w) (auto intro: quiet_trans)

lemma quiet_emit: "quiet w (emit_updated ns w)"
  unfolding emit_updated_def by (intro quiet_fold quiet_onCredentialsUpdated)

lemma quiet_db: "w_db w = Some d \<Longrightarrow> quiet w (w\<lparr>w_db := Some d'\<rparr>)"
  by (simp add: quiet_def)

lemma quiet_on_db: "quiet w (snd (on_db f r w))"
  by (auto simp: on_db_def Let_def split: option.splits prod.splits
      intro: quiet_trans [OF quiet_db quiet_emit])

lemma on_db_quiet: "on_db f r w = (x, w') \<Longrightarrow> quiet w w'"
  using quiet_on_db [of w f r] by simp

lemma queryInfo_quiet: "queryInfo ob q w = (x, w') \<Longrightarrow> quiet w w'"
  by (auto simp: queryInfo_def loaded_info_def Let_def split: prod.splits if_splits option.splits
      dest!: on_db_quiet)

section \<open>Answers\<close>

fun answers :: "dbus_call \<Rightarrow> event \<Rightarrow> bool" where
  "answers c (Reply c' _) = (c' = c)"
| "answers c (ErrorReply c' _) = (c' = c)"
| "answers c _ = False"

text \<open>The answers a call has had, and those it waits for.\<close>

definition answered :: "dbus_call \<Rightarrow> world \<Rightarrow> nat" where
  "answered c w = length (filter (answers c) (w_out w))"

definition waiting :: "dbus_call \<Rightarrow> world \<Rightarrow> nat" where
  "waiting c w = length (filter (\<lambda>p. pc_call (snd p) = c) (w_pending w))
     + length (filter (\<lambda>p. ar_call (snd p) = c) (w_requests w))"

definition due :: "dbus_call \<Rightarrow> world \<Rightarrow> nat" where
  "due c w = answered c w + waiting c w"

lemma due_quiet: "quiet w w' \<Longrightarrow> due c w' = due c w \<and> w_delayed w' = w_delayed w"
proof -
  have "filter (answers c) es = []" if "\<forall>e \<in> set es. is_update e" for es
    using that by (induction es) (auto simp: is_update_def)
  then show "quiet w w' \<Longrightarrow> ?thesis" by (auto simp: quiet_def due_def answered_def waiting_def)
qed

lemma due_simps [simp]:
  "due c (set_this ob f w) = due c w" "due c (keepInUse ob w) = due c w"
  "due c (setAutoDestruct ob v w) = due c w" "due c (setDelayedReply w) = due c w"
  "due c (fault w) = due c w" "due c (w\<lparr>w_db := d\<rparr>) = due c w" "due c (w\<lparr>w_stored := st\<rparr>) = due c w"
  "due c (w\<lparr>w_lastError := le\<rparr>) = due c w" "due c (w\<lparr>w_delayed := dl\<rparr>) = due c w"
  "due c (w\<lparr>w_doomed := dd\<rparr>) = due c w" "due c (w\<lparr>w_notifyTimer := t\<rparr>) = due c w"
  "due c (w\<lparr>w_clock := k\<rparr>) = due c w"
  "due c (out e w) = due c w + (if answers c e then 1 else 0)"
  "due c (sendErrorReply c' n w) = due c w + (if c' = c then 1 else 0)"
  by (simp_all add: due_def answered_def waiting_def fault_def)

lemma due_ui_call [simp]:
  "\<not> answers c (e (w_next w)) \<Longrightarrow> due c (ui_call s ob c' e w) = due c w + (if c' = c then 1 else 0)"
  by (simp add: due_def answered_def waiting_def ui_call_def)

lemma quiet_due:
  "quiet w w' \<Longrightarrow> (\<forall>c. due c w' = due c w) \<and> w_delayed w' = w_delayed w \<and> w_opened w' = w_opened w
     \<and> (w_db w' = None \<longleftrightarrow> w_db w = None) \<and> w_doomed w' = w_doomed w \<and> w_pending w' = w_pending w"
  by (simp add: due_quiet) (simp add: quiet_def)

lemma due_on_db [simp]:
  "due c (snd (on_db f r w)) = due c w" "w_delayed (snd (on_db f r w)) = w_delayed w"
  "w_opened (snd (on_db f r w)) = w_opened w" "w_doomed (snd (on_db f r w)) = w_doomed w"
  using quiet_due [OF quiet_on_db [of w f r]] by simp_all

text \<open>A handler answers its call, or keeps it waiting, when it has asked for a delayed reply, and
  it answers no other call. No handler both starts a pending call and deletes an object.\<close>

definition deals :: "dbus_call \<Rightarrow> world \<Rightarrow> world \<Rightarrow> bool" where
  "deals c w w' \<longleftrightarrow> (\<forall>c'. due c' w' = due c' w + (if c' = c \<and> w_delayed w' then 1 else 0))
     \<and> w_opened w' = w_opened w \<and> (w_doomed w' = w_doomed w \<or> w_pending w' = w_pending w)"

lemmas handler_splits = prod.splits if_splits option.splits

lemma deals_requestCredentialsUpdate:
  "\<not> w_delayed w \<Longrightarrow> deals c w (snd (requestCredentialsUpdate ob c msg w))"
  by (auto simp: requestCredentialsUpdate_def need_cam_def deals_def Let_def split: handler_splits
      dest!: queryInfo_quiet quiet_due)

lemma deals_getInfo: "\<not> w_delayed w \<Longrightarrow> deals c w (snd (getInfo ob c w))"
  by (auto simp: getInfo_def need_cam_def deals_def Let_def split: handler_splits
      dest!: queryInfo_quiet quiet_due)

lemma deals_verifyUser: "\<not> w_delayed w \<Longrightarrow> deals c w (snd (verifyUser ob c params w))"
  by (auto simp: verifyUser_def queryUserPassword_def need_cam_def deals_def Let_def split: handler_splits
      dest!: queryInfo_quiet quiet_due)

lemma deals_verifySecret: "\<not> w_delayed w \<Longrightarrow> deals c w (snd (verifySecret ob c secret w))"
  by (auto simp: verifySecret_def need_cam_def deals_def Let_def split: handler_splits
      dest!: queryInfo_quiet on_db_quiet quiet_due)

lemma deals_remove: "\<not> w_delayed w \<Longrightarrow> deals c w (snd (id_remove ob c w))"
  by (auto simp: id_remove_def need_cam_def deals_def Let_def split: handler_splits
      dest!: on_db_quiet quiet_due)

lemma deals_signOut: "\<not> w_delayed w \<Longrightarrow> deals c w (snd (signOut ob c w))"
  by (auto simp: signOut_def deals_def Let_def split: handler_splits)

lemma storeCredentials_due:
  "storeCredentials ob info w = (n, w') \<Longrightarrow> (\<forall>c. due c w' = due c w) \<and> w_delayed w' = w_delayed w
     \<and> w_opened w' = w_opened w \<and> w_doomed w' = w_doomed w"
  by (auto simp: storeCredentials_def onIdentityStored_def Let_def split: handler_splits
      dest!: on_db_quiet quiet_due)

lemma deals_store: "\<not> w_delayed w \<Longrightarrow> deals c w (snd (id_store ob c info w))"
  by (auto simp: id_store_def need_cam_def deals_def Let_def split: handler_splits
      dest!: storeCredentials_due)

text \<open>The reference methods send one error of their own while the storage is not open.\<close>

lemma reference_quiet:
  "id_addReference ob c r w = (ok, w') \<Longrightarrow> w_opened w \<Longrightarrow> quiet w w'"
  "id_removeReference ob c r w = (ok, w') \<Longrightarrow> w_opened w \<Longrightarrow> quiet w w'"
  by (auto simp: id_addReference_def id_removeReference_def need_cam_def Let_def split: if_splits
      dest!: on_db_quiet intro: quiet_trans [OF quiet_simple(2)])

section \<open>Passwords in answers\<close>

definition shows_password :: "qvariant \<Rightarrow> bool" where
  "shows_password v \<longleftrightarrow> (\<exists>m. v = VMap m \<and> v_toString (qm_value m KEY_SECRET VInvalid) \<noteq> QNull)"

fun discloses :: "event \<Rightarrow> bool" where
  "discloses (Reply _ vs) = list_ex shows_password vs"
| "discloses _ = False"

definition discreet :: "world \<Rightarrow> bool" where
  "discreet w \<longleftrightarrow> (\<forall>e \<in> set (w_out w). \<not> discloses e)"

lemma shows_password_simps [simp]:
  "\<not> shows_password (VBool b)" "\<not> shows_password (VUInt n)" "\<not> shows_password (VMap [])"
  "shows_password (VMap m) \<longleftrightarrow> v_toString (qm_value m KEY_SECRET VInvalid) \<noteq> QNull"
  by (simp_all add: shows_password_def)

lemma discreet_simps [simp]:
  "discreet (set_this ob f w) = discreet w" "discreet (keepInUse ob w) = discreet w"
  "discreet (setAutoDestruct ob v w) = discreet w" "discreet (setDelayedReply w) = discreet w"
  "discreet (fault w) = discreet w" "discreet (w\<lparr>w_db := d\<rparr>) = discreet w" "discreet (w\<lparr>w_stored := st\<rparr>) = discreet w"
  "discreet (w\<lparr>w_lastError := le\<rparr>) = discreet w" "discreet (w\<lparr>w_delayed := dl\<rparr>) = discreet w"
  "discreet (w\<lparr>w_doomed := dd\<rparr>) = discreet w" "discreet (w\<lparr>w_notifyTimer := t\<rparr>) = discreet w"
  "discreet (w\<lparr>w_clock := k\<rparr>) = discreet w" "discreet (sendErrorReply c n w) = discreet w"
  "discreet (out e w) \<longleftrightarrow> \<not> discloses e \<and> discreet w"
  "discreet (ui_call s ob c (\<lambda>k. QueryDialog k m) w) = discreet w"
  "discreet (ui_call s ob c (\<lambda>k. RemoveIdentityData k j) w) = discreet w"
  by (auto simp: discreet_def fault_def)

lemma update_discreet: "is_update e \<Longrightarrow> \<not> discloses e"
  by (auto simp: is_update_def)

lemma quiet_discreet: "quiet w w' \<Longrightarrow> discreet w' = discreet w"
  unfolding quiet_def discreet_def using update_discreet by (metis UnE UnI1 set_append)

lemma discreet_on_db [simp]: "discreet (snd (on_db f r w)) = discreet w"
  by (rule quiet_discreet [OF quiet_on_db])

lemma discreet_steps:
  "on_db f r w = (x, w') \<Longrightarrow> discreet w' = discreet w"
  "queryInfo ob q w = (y, w') \<Longrightarrow> discreet w' = discreet w"
  by (blast dest: on_db_quiet queryInfo_quiet quiet_discreet)+

lemma loaded_without_password:
  "queryInfo ob False w = ((ok, info), w') \<Longrightarrow> v_toString (qm_value info KEY_SECRET VInvalid) = QNull"
  by (auto simp: queryInfo_def loaded_info_def setPassword_def Let_def split: handler_splits)

lemma getInfo_discreet:
  "getInfo ob c w = (m, w') \<Longrightarrow> discreet w' = discreet w
     \<and> v_toString (qm_value m KEY_SECRET VInvalid) = QNull
     \<and> (isUserNameSecret m \<longrightarrow> \<not> qm_contains m KEY_USERNAME)"
  by (auto simp: getInfo_def need_cam_def Let_def qm_value_def qm_contains_def removeSecrets_lookup
      split: handler_splits dest!: discreet_steps)

lemma query_methods_discreet [simp]:
  "discreet (snd (requestCredentialsUpdate ob c msg w)) = discreet w"
  "discreet (snd (verifyUser ob c params w)) = discreet w"
  "discreet (snd (verifySecret ob c secret w)) = discreet w"
  by (auto simp: requestCredentialsUpdate_def verifyUser_def queryUserPassword_def verifySecret_def
      need_cam_def Let_def split: handler_splits dest!: discreet_steps)

lemma change_methods_discreet [simp]:
  "discreet (snd (id_remove ob c w)) = discreet w" "discreet (snd (signOut ob c w)) = discreet w"
  "discreet (snd (id_addReference ob c r w)) = discreet w"
  "discreet (snd (id_removeReference ob c r w)) = discreet w"
  by (auto simp: id_remove_def signOut_def id_addReference_def id_removeReference_def need_cam_def Let_def
      split: handler_splits dest!: discreet_steps)

lemma storeCredentials_discreet:
  "storeCredentials ob info w = (n, w') \<Longrightarrow> discreet w' = discreet w"
  by (auto simp: storeCredentials_def onIdentityStored_def Let_def
      split: handler_splits dest!: discreet_steps)

lemma store_discreet [simp]: "discreet (snd (id_store ob c info w)) = discreet w"
  by (auto simp: id_store_def need_cam_def Let_def split: handler_splits dest!: storeCredentials_discreet)

end
