(* ===== verification/Identity_Properties.thy ===== *)
theory Identity_Properties
  imports Identity_Frames
begin

text \<open>
  What clients of the identity interface can rely on: every call is answered once, nothing
  happens without permission, no answer shows a password, and no pointer is followed that is
  not valid as long as clients keep to the ids they were given. The last section is about
  clients that do not.
\<close>

section \<open>Answers, handler by handler\<close>

lemma fault_pending [simp]: "w_pending (fault w) = w_pending w"
  by (simp add: fault_def)

lemma deals_if_may_use:
  assumes "\<not> w_delayed w"
    and "\<And>w1. \<not> w_delayed w1 \<Longrightarrow> w_opened w1 = w_opened w \<Longrightarrow> deals c w1 (snd (f w1))"
  shows "deals c w (snd (if_may_use ob c r f w))" "deals c w (snd (if_may_change ob c r f w))"
  using assms(1) assms(2) [of "w\<lparr>w_db := _\<rparr>"]
  by (auto simp: if_may_use_def if_may_change_def securityErrorReply_def deals_def Let_def split: prod.splits)

lemma snd_result [simp]: "snd (case p of (x, w) \<Rightarrow> (g x, w)) = snd p"
  by (simp add: split_def)

lemma deals_reference:
  assumes "\<not> w_delayed w" and "w_opened w" and "\<And>ok w'. f w = (ok, w') \<Longrightarrow> quiet w w'"
  shows "deals c w (snd (case f w of (ok, w) \<Rightarrow> ([], if \<not> ok then errorReply c n w else w)))"
proof -
  obtain ok w1 where 1: "f w = (ok, w1)" by force
  show ?thesis using assms(1) quiet_due [OF assms(3) [OF 1]] by (simp add: 1 deals_def)
qed

lemma due_destroy [simp]: "due c (destroy ob w) = due c w" "w_delayed (destroy ob w) = w_delayed w"
  "w_opened (destroy ob w) = w_opened w" "w_pending (destroy ob w) = w_pending w"
  by (simp_all add: destroy_def)

lemma due_destroyUnused [simp]:
  "due c (destroyUnused w) = due c w" "w_delayed (destroyUnused w) = w_delayed w"
  "w_opened (destroyUnused w) = w_opened w" "w_pending (destroyUnused w) = w_pending w"
proof -
  have "due c (fold (\<lambda>ob w. if P ob w then destroy ob w else w) xs w) = due c w
    \<and> w_delayed (fold (\<lambda>ob w. if P ob w then destroy ob w else w) xs w) = w_delayed w
    \<and> w_opened (fold (\<lambda>ob w. if P ob w then destroy ob w else w) xs w) = w_opened w
    \<and> w_pending (fold (\<lambda>ob w. if P ob w then destroy ob w else w) xs w) = w_pending w" for P xs
    by (induction xs arbitrary: w) auto
  then show "due c (destroyUnused w) = due c w" "w_delayed (destroyUnused w) = w_delayed w"
    "w_opened (destroyUnused w) = w_opened w" "w_pending (destroyUnused w) = w_pending w"
    by (simp_all add: destroyUnused_def Let_def split: option.splits)
qed

lemma due_createIdentity:
  "createIdentity n w = (ob, w') \<Longrightarrow> (\<forall>c. due c w' = due c w) \<and> w_delayed w' = w_delayed w \<and> w_opened w' = w_opened w
     \<and> w_pending w' = w_pending w"
  by (auto simp: createIdentity_def Let_def due_def answered_def waiting_def)

lemma due_watchIdentity [simp]: "due c (watchIdentity ob w) = due c w"
  "w_pending (watchIdentity ob w) = w_pending w" "w_delayed (watchIdentity ob w) = w_delayed w" "w_opened (watchIdentity ob w) = w_opened w"
  by (simp_all add: watchIdentity_def Let_def)

lemma due_lastError [simp]: "due c (clearLastError w) = due c w" "due c (setLastError e w) = due c w"
  "w_delayed (clearLastError w) = w_delayed w" "w_delayed (setLastError e w) = w_delayed w"
  "w_pending (clearLastError w) = w_pending w" "w_pending (setLastError e w) = w_pending w"
  "w_opened (clearLastError w) = w_opened w" "w_opened (setLastError e w) = w_opened w"
  by (simp_all add: clearLastError_def setLastError_def)

definition same_due :: "world \<Rightarrow> world \<Rightarrow> bool" where
  "same_due w w' \<longleftrightarrow> (\<forall>c. due c w' = due c w) \<and> w_delayed w' = w_delayed w
     \<and> w_opened w' = w_opened w \<and> w_pending w' = w_pending w"

text \<open>The object \<open>getIdentity\<close> works on.\<close>

definition found_object :: "nat \<Rightarrow> world \<Rightarrow> nat \<times> world" where
  "found_object n w =
     (case map_of (w_stored w) n of
        Some ob \<Rightarrow> (ob, if map_of (w_objects w) ob = None then fault w else w)
      | None \<Rightarrow> createIdentity n w)"

lemma getIdentity_eq:
  assumes "w_opened w" and "found_object n (clearLastError w) = (ob, w1)"
    and "queryInfo ob False w1 = ((ok, info), w2)"
  shows "getIdentity n w =
    (if isNew info then ((None, []), destroy ob (setLastError ERR_IDENTITY_NOT_FOUND w2))
     else ((Some ob, info), keepInUse ob (watchIdentity ob w2)))"
  using assms by (simp add: getIdentity_def found_object_def Let_def)

lemma getIdentity_closed:
  "\<not> w_opened w \<Longrightarrow> getIdentity n w = ((None, []), setLastError ERR_INTERNAL_SERVER (clearLastError w))"
  by (simp add: getIdentity_def)

lemma getIdentity_due:
  assumes "getIdentity n w = ((r, info), w')"
  shows "same_due w w'"
proof (cases "w_opened w")
  case False
  then show ?thesis using assms by (auto simp: getIdentity_closed same_due_def)
next
  case True
  obtain ob w1 where 1: "found_object n (clearLastError w) = (ob, w1)" by force
  obtain ok i w2 where 2: "queryInfo ob False w1 = ((ok, i), w2)" by (metis surj_pair)
  have "same_due w w1"
    using 1 due_createIdentity [of n "clearLastError w"]
    by (auto simp: found_object_def same_due_def split: option.splits if_splits)
  moreover have "same_due w1 w2"
    using quiet_due [OF queryInfo_quiet [OF 2]] by (simp add: same_due_def)
  ultimately show ?thesis
    using assms by (auto simp: getIdentity_eq [OF True 1 2] same_due_def split: if_splits)
qed

lemma getIdentity_error:
  "getIdentity n w = ((r, info), w') \<Longrightarrow> r = None \<Longrightarrow> w_lastError w' \<noteq> None"
  by (auto simp: getIdentity_def Let_def setLastError_def destroy_def split: handler_splits)

lemma daemon_due:
  "queryIdentities w = (ms, w') \<Longrightarrow> (\<forall>c. due c w' = due c w) \<and> w_delayed w' = w_delayed w
     \<and> w_opened w' = w_opened w \<and> w_pending w' = w_pending w"
  "daemon_clear w = (ok, w') \<Longrightarrow> (\<forall>c. due c w' = due c w) \<and> w_delayed w' = w_delayed w
     \<and> w_opened w' = w_opened w \<and> w_pending w' = w_pending w"
  by (auto simp: queryIdentities_def daemon_clear_def Let_def split: if_splits prod.splits
      dest!: on_db_quiet quiet_due)

lemma due_request [simp]:
  "due c' (requestAccessToIdentity c n w) = due c' w + (if c = c' then 1 else 0)"
  "w_delayed (requestAccessToIdentity c n w) = w_delayed w" "w_opened (requestAccessToIdentity c n w) = w_opened w"
  "w_pending (requestAccessToIdentity c n w) = w_pending w"
  by (simp_all add: requestAccessToIdentity_def due_def answered_def waiting_def)

lemma deals_getIdentity:
  assumes "\<not> w_delayed w"
  shows "deals c w (snd (da_getIdentity c n w))"
proof -
  obtain ok db where 1: "isPeerAllowedToUseIdentity (w_ac w) c n (w_db w) = (ok, db)" by force
  obtain ob info w1 where 2: "getIdentity n (w\<lparr>w_db := db\<rparr>) = ((ob, info), w1)" by (metis surj_pair)
  have "(\<forall>c. due c w1 = due c w) \<and> \<not> w_delayed w1 \<and> (ob = None \<longrightarrow> w_lastError w1 \<noteq> None)
      \<and> w_opened w1 = w_opened w \<and> w_pending w1 = w_pending w"
    using getIdentity_due [OF 2] getIdentity_error [OF 2] assms by (simp add: same_due_def)
  with assms show ?thesis
    by (auto simp: da_getIdentity_def Let_def 1 2 handleLastError_def deals_def split: option.splits)
qed

lemma deals_registerNewIdentity: "\<not> w_delayed w \<Longrightarrow> deals c w (snd (da_registerNewIdentity c w))"
  by (auto simp: da_registerNewIdentity_def registerNewIdentity_def deals_def Let_def split: prod.splits
      dest!: due_createIdentity)

lemma deals_queryIdentities: "\<not> w_delayed w \<Longrightarrow> deals c w (snd (da_queryIdentities c w))"
  by (auto simp: da_queryIdentities_def securityErrorReply_def handleLastError_def deals_def Let_def
      split: handler_splits dest!: daemon_due)

lemma deals_clear: "\<not> w_delayed w \<Longrightarrow> deals c w (snd (da_clear c w))"
  by (auto simp: da_clear_def securityErrorReply_def handleLastError_def deals_def Let_def
      split: handler_splits dest!: daemon_due)

lemma deals_store_adaptor: "\<not> w_delayed w \<Longrightarrow> deals c w (snd (ad_store ob c info w))"
  unfolding ad_store_def Let_def
  by (auto intro!: deals_if_may_use deals_store)

lemma deals_use_adaptors:
  assumes "\<not> w_delayed w"
  shows "deals c w (snd (ad_requestCredentialsUpdate ob c msg w))" "deals c w (snd (ad_getInfo ob c w))"
    "deals c w (snd (ad_verifyUser ob c params w))" "deals c w (snd (ad_verifySecret ob c secret w))"
    "deals c w (snd (ad_signOut ob c w))" "deals c w (snd (ad_remove ob c w))"
  unfolding ad_requestCredentialsUpdate_def ad_getInfo_def ad_verifyUser_def ad_verifySecret_def
    ad_signOut_def ad_remove_def Let_def
  by (rule deals_if_may_use [OF assms],
      simp add: deals_requestCredentialsUpdate deals_getInfo deals_verifyUser deals_verifySecret
        deals_signOut deals_remove)+

lemma deals_reference_adaptors:
  assumes "\<not> w_delayed w" and "w_opened w"
  shows "deals c w (snd (ad_addReference ob c r w))" "deals c w (snd (ad_removeReference ob c r w))"
  unfolding ad_addReference_def ad_removeReference_def Let_def
  by (rule deals_if_may_use [OF assms(1)], rule deals_reference,
      use assms(2) reference_quiet in \<open>auto simp del: errorReply_eq\<close>)+

lemma deals_adaptor:
  "\<not> w_delayed w \<Longrightarrow> w_opened w \<Longrightarrow> deals c w (snd (adaptor c m w))"
  by (cases m) (simp_all add: deals_getIdentity deals_registerNewIdentity deals_queryIdentities
      deals_clear deals_store_adaptor deals_use_adaptors deals_reference_adaptors)

section \<open>Deferred deletion\<close>

lemma delete_object_frame [simp]:
  "w_out (delete_object ob w) = w_out w" "w_requests (delete_object ob w) = w_requests w"
  "w_opened (delete_object ob w) = w_opened w" "w_db (delete_object ob w) = w_db w"
  "w_pending (delete_object ob w) = filter (\<lambda>p. pc_object (snd p) \<noteq> ob) (w_pending w)"
  "w_fault (delete_object ob w) = w_fault w" "w_next (delete_object ob w) = w_next w"
  by (simp_all add: delete_object_def Let_def)

lemma length_filter_conj: "length (filter P (filter Q xs)) \<le> length (filter P xs)"
  by (induction xs) auto

lemma fold_delete_frame:
  "w_out (fold delete_object obs w) = w_out w \<and> w_requests (fold delete_object obs w) = w_requests w
   \<and> w_opened (fold delete_object obs w) = w_opened w
   \<and> (\<exists>P. w_pending (fold delete_object obs w) = filter P (w_pending w))"
proof (induction obs arbitrary: w)
  case Nil
  have "w_pending w = filter (\<lambda>_. True) (w_pending w)" by simp
  then show ?case by (metis fold_simps(1))
next
  case (Cons ob obs)
  from Cons [of "delete_object ob w"] show ?case by simp (metis filter_filter)
qed

lemma deferred_deletes_frame:
  "w_out (deferred_deletes w) = w_out w" "w_requests (deferred_deletes w) = w_requests w"
  "w_opened (deferred_deletes w) = w_opened w" "w_doomed (deferred_deletes w) = []"
  "\<exists>P. w_pending (deferred_deletes w) = filter P (w_pending w)"
  using fold_delete_frame [of "w_doomed w" w] by (simp_all add: deferred_deletes_def)

lemma deferred_deletes_none: "w_doomed w = [] \<Longrightarrow> deferred_deletes w = w"
  by (simp add: deferred_deletes_def)

lemma due_deferred_deletes: "due c (deferred_deletes w) \<le> due c w"
proof -
  obtain P where "w_pending (deferred_deletes w) = filter P (w_pending w)"
    using deferred_deletes_frame(5) by blast
  then show ?thesis
    using length_filter_conj [of "\<lambda>p. pc_call (snd p) = c" P "w_pending w"]
    by (simp add: due_def answered_def waiting_def deferred_deletes_frame)
qed

lemma due_deferred_kept:
  assumes "w_doomed w = [] \<or> (\<forall>p \<in> set (w_pending w). pc_call (snd p) \<noteq> c)"
  shows "due c (deferred_deletes w) = due c w"
proof (cases "w_doomed w = []")
  case True
  then show ?thesis by (simp add: deferred_deletes_none)
next
  case False
  obtain P where "w_pending (deferred_deletes w) = filter P (w_pending w)"
    using deferred_deletes_frame(5) by blast
  moreover have "filter (\<lambda>p. pc_call (snd p) = c) (filter P (w_pending w)) = []"
    "filter (\<lambda>p. pc_call (snd p) = c) (w_pending w) = []"
    using assms False by (auto simp: filter_empty_conv)
  ultimately show ?thesis
    by (simp add: due_def answered_def waiting_def deferred_deletes_frame)
qed

lemma due_none: "due c w = 0 \<Longrightarrow> \<forall>p \<in> set (w_pending w). pc_call (snd p) \<noteq> c"
  by (auto simp: due_def waiting_def filter_empty_conv)

section \<open>Answers, event by event\<close>

lemma client_calls_due:
  assumes "w_opened w" and "w_doomed w = []"
  shows "due c (client_calls c m w) \<le> Suc (due c w)"
    and "due c w = 0 \<Longrightarrow> due c (client_calls c m w) = 1"
    and "c' \<noteq> c \<Longrightarrow> due c' (client_calls c m w) \<le> due c' w"
    and "w_opened (client_calls c m w)" and "w_doomed (client_calls c m w) = []"
proof -
  let ?dead = "case target_object m of None \<Rightarrow> False | Some ob \<Rightarrow> map_of (w_objects w) ob = None"
  obtain vals w1 where 1: "adaptor c m (w\<lparr>w_delayed := False\<rparr>) = (vals, w1)" by force
  define w2 where "w2 = (if w_delayed w1 then w1 else out (Reply c vals) w1)"
  have eq: "client_calls c m w = (if ?dead then out (ErrorReply c ''UnknownObject'') w else deferred_deletes w2)"
    unfolding client_calls_def 1 Let_def w2_def by simp
  have "deals c (w\<lparr>w_delayed := False\<rparr>) w1"
    using deals_adaptor [of "w\<lparr>w_delayed := False\<rparr>" c m] assms(1) by (simp add: 1)
  then have 2: "due c w2 = Suc (due c w)" "c' \<noteq> c \<Longrightarrow> due c' w2 = due c' w"
    and 3: "w_opened w2" "w_doomed w2 = [] \<or> w_pending w2 = w_pending w"
    using assms by (auto simp: deals_def w2_def)
  show "due c (client_calls c m w) \<le> Suc (due c w)"
    using 2 due_deferred_deletes [of c w2] by (simp add: eq)
  show "c' \<noteq> c \<Longrightarrow> due c' (client_calls c m w) \<le> due c' w"
    using 2 due_deferred_deletes [of c' w2] by (simp add: eq)
  show "due c w = 0 \<Longrightarrow> due c (client_calls c m w) = 1"
    using 2(1) due_deferred_kept [of w2 c] 3(2) due_none [of c w] by (auto simp: eq)
  show "w_opened (client_calls c m w)" "w_doomed (client_calls c m w) = []"
    using assms 3 by (simp_all add: eq deferred_deletes_frame)
qed

lemma queryUserPassword_due: "due c' (queryUserPassword ob m c w) = due c' w + (if c' = c then 1 else 0)"
  "w_opened (queryUserPassword ob m c w) = w_opened w"
  by (simp_all add: queryUserPassword_def)

lemma slots_due:
  "due c' (queryUiSlot ob c reply w) = due c' w + (if c' = c then 1 else 0)"
  "due c' (verifyUiSlot ob c reply w) = due c' w + (if c' = c then 1 else 0)"
  "due c' (removeCompleted ob c w) = due c' w + (if c' = c then 1 else 0)"
  "due c' (signOutCompleted ob c reply w) = due c' w + (if c' = c then 1 else 0)"
  by (simp_all add: queryUiSlot_def verifyUiSlot_def removeCompleted_def signOutCompleted_def
      queryUserPassword_due Let_def split_def split: option.splits)

lemma slots_opened:
  "w_opened (queryUiSlot ob c reply w) = w_opened w" "w_opened (verifyUiSlot ob c reply w) = w_opened w"
  "w_opened (removeCompleted ob c w) = w_opened w" "w_opened (signOutCompleted ob c reply w) = w_opened w"
  by (simp_all add: queryUiSlot_def verifyUiSlot_def removeCompleted_def signOutCompleted_def
      queryUserPassword_due Let_def split_def split: option.splits)

lemma remove_entry_count:
  assumes "map_of xs k = Some p"
  shows "length (filter Q (filter (\<lambda>x. fst x \<noteq> k) xs)) + (if Q (k, p) then 1 else 0) \<le> length (filter Q xs)"
  using assms
proof (induction xs)
  case (Cons x xs)
  then show ?case
    using length_filter_conj [of Q "\<lambda>x. fst x \<noteq> k" xs] by (cases x) (auto split: if_splits)
qed simp

lemma ui_answers_due:
  assumes "w_opened w"
  shows "due c (ui_answers k reply w) \<le> due c w" and "w_opened (ui_answers k reply w)"
proof -
  have "due c (ui_answers k reply w) \<le> due c w \<and> w_opened (ui_answers k reply w)"
  proof (cases "map_of (w_pending w) k")
    case None
    then show ?thesis using assms by (simp add: ui_answers_def)
  next
    case (Some p)
    define w1 where "w1 = w\<lparr>w_pending := filter (\<lambda>p. fst p \<noteq> k) (w_pending w)\<rparr>"
    define w2 where "w2 = (case pc_slot p of
        QueryUiSlot \<Rightarrow> queryUiSlot (pc_object p) (pc_call p) reply w1
      | VerifyUiSlot \<Rightarrow> verifyUiSlot (pc_object p) (pc_call p) reply w1
      | RemoveCompleted \<Rightarrow> removeCompleted (pc_object p) (pc_call p) w1
      | SignOutCompleted \<Rightarrow> signOutCompleted (pc_object p) (pc_call p) reply w1)"
    have eq: "ui_answers k reply w = deferred_deletes w2"
      unfolding ui_answers_def Some w2_def w1_def Let_def option.case by (rule refl)
    have "due c w1 + (if pc_call p = c then 1 else 0) \<le> due c w"
      using remove_entry_count [OF Some, of "\<lambda>p. pc_call (snd p) = c"]
      by (simp add: w1_def due_def answered_def waiting_def)
    moreover have "due c w2 = due c w1 + (if pc_call p = c then 1 else 0)" "w_opened w2 = w_opened w1"
      by (auto simp: w2_def slots_due slots_opened split: ui_slot.split)
    ultimately show ?thesis
      using due_deferred_deletes [of c w2] assms by (simp add: eq deferred_deletes_frame w1_def)
  qed
  then show "due c (ui_answers k reply w) \<le> due c w" "w_opened (ui_answers k reply w)" by simp_all
qed

lemma accessReply_due:
  "due c' (onIdentityAccessReplyFinished c n b w) = due c' w + (if c' = c then 1 else 0)
    \<and> w_opened (onIdentityAccessReplyFinished c n b w) = w_opened w"
proof (cases b)
  case False
  then show ?thesis by (simp add: onIdentityAccessReplyFinished_def securityErrorReply_def)
next
  case True
  obtain ok db where 1: "isPeerAllowedToUseIdentity (w_ac w) c n (w_db w) = (ok, db)" by force
  obtain ob info w2 where 2: "getIdentity n (w\<lparr>w_db := db\<rparr>) = ((ob, info), w2)" by (metis surj_pair)
  have "(\<forall>c. due c w2 = due c w) \<and> w_opened w2 = w_opened w \<and> (ob = None \<longrightarrow> w_lastError w2 \<noteq> None)"
    using getIdentity_due [OF 2] getIdentity_error [OF 2] by (simp add: same_due_def)
  then show ?thesis
    by (auto simp: onIdentityAccessReplyFinished_def True Let_def 1 2 securityErrorReply_def
        handleLastError_def split: option.splits)
qed

lemma access_decided_due:
  assumes "w_opened w"
  shows "due c (access_decided k b w) \<le> due c w \<and> w_opened (access_decided k b w)"
proof (cases "map_of (w_requests w) k")
  case None
  then show ?thesis using assms by (simp add: access_decided_def)
next
  case (Some r)
  define w1 where "w1 = w\<lparr>w_requests := filter (\<lambda>p. fst p \<noteq> k) (w_requests w)\<rparr>"
  have eq: "access_decided k b w =
      deferred_deletes (onIdentityAccessReplyFinished (ar_call r) (ar_identity r) b w1)"
    by (simp add: access_decided_def Some w1_def)
  have "due c w1 + (if ar_call r = c then 1 else 0) \<le> due c w"
    using remove_entry_count [OF Some, of "\<lambda>p. ar_call (snd p) = c"]
    by (simp add: w1_def due_def answered_def waiting_def)
  then show ?thesis
    using due_deferred_deletes [of c "onIdentityAccessReplyFinished (ar_call r) (ar_identity r) b w1"]
      accessReply_due [of c "ar_call r" "ar_identity r" b w1] assms
    by (auto simp: eq deferred_deletes_frame w1_def split: if_splits)
qed

definition settled :: "world \<Rightarrow> bool" where
  "settled w \<longleftrightarrow> w_opened w \<and> w_doomed w = []"

lemma doomed_slots:
  "w_doomed (ui_answers k reply w) \<in> {[], w_doomed w}" "w_doomed (access_decided k b w) \<in> {[], w_doomed w}"
  by (simp_all add: ui_answers_def access_decided_def Let_def deferred_deletes_frame split: option.split)

fun call_of :: "happening \<Rightarrow> dbus_call list" where
  "call_of (ClientCalls c _) = [c]"
| "call_of _ = []"

lemma happen_due:
  assumes "settled w"
  shows "settled (happen h w)"
    and "due c (happen h w) \<le> due c w + (if c \<in> set (call_of h) then 1 else 0)"
  using assms client_calls_due [of w] ui_answers_due [of w] access_decided_due [of w]
    doomed_slots due_deferred_deletes [of c "destroyUnused w"]
  by (cases h; fastforce simp: settled_def dispose_timeout_def deferred_deletes_frame)+

lemma run_due:
  assumes "settled w"
  shows "due c (run hs w) \<le> due c w + length (filter (\<lambda>c'. c' = c) (concat (map call_of hs)))"
  using assms
proof (induction hs arbitrary: w)
  case (Cons h hs)
  have "length (filter (\<lambda>c'. c' = c) (call_of h)) = (if c \<in> set (call_of h) then 1 else 0)"
    by (cases h) auto
  then show ?case
    using Cons.IH [OF happen_due(1) [OF Cons.prems, of h]] happen_due(2) [OF Cons.prems, of c h]
    by (simp add: run_def split: if_splits)
qed (simp add: run_def)

section \<open>Properties of the answers\<close>

text \<open>C9: While the credentials system is open and no object is about to be deleted, every D-Bus call on the daemon or
  on an identity object is answered once. When a call that has had no answer is delivered then, after its
  handler exactly one reply or error has been sent, or exactly one answer of signon-ui or of the
  access control manager is waited for; and however many other calls, answers of signon-ui,
  access decisions and time-outs follow, it is never answered a second time. This is not so while the system
  is not open: \<open>addReference\<close> and \<open>removeReference\<close> then send two errors.\<close>

theorem every_call_is_answered_once:
  assumes "settled w" and "due c w = 0" and "c \<notin> set (concat (map call_of hs))"
  shows "due c (happen (ClientCalls c m) w) = 1
    \<and> answered c (run hs (happen (ClientCalls c m) w)) \<le> 1"
proof -
  let ?w = "happen (ClientCalls c m) w"
  have 1: "due c ?w = 1"
    using client_calls_due(2) [of w c m] assms(1,2) by (simp add: settled_def)
  have "filter (\<lambda>c'. c' = c) (concat (map call_of hs)) = []"
    using assms(3) by (auto simp: filter_empty_conv)
  then have "due c (run hs ?w) \<le> 1"
    using run_due [OF happen_due(1) [OF assms(1)], of c hs "ClientCalls c m"] 1 by simp
  then show ?thesis using 1 by (simp add: due_def)
qed

definition sample_world :: world where
  "sample_world = \<lparr>w_db = Some (sample_cd True), w_opened = True, w_ac = default_ac_manager, w_objects = [],
     w_stored = [], w_pending = [], w_next = 0, w_delayed = False, w_doomed = [], w_clock = Some 0,
     w_notifyTimer = None, w_disposeTimer = None, w_sessionCores = 0, w_identityTimeout = 300,
     w_lastError = None, w_requests = [], w_fault = False, w_out = []\<rparr>"

definition sample_call :: "nat \<Rightarrow> dbus_call" where
  "sample_call n = \<lparr>dc_connection = 0, dc_service = QStr '':1.7'', dc_serial = n\<rparr>"

theorem every_call_is_answered_once_witness:
  "due (sample_call 1) (happen (ClientCalls (sample_call 1) RegisterNewIdentity) sample_world) = 1
    \<and> answered (sample_call 1) (run [ClientCalls (sample_call 2) (GetInfo 0)]
        (happen (ClientCalls (sample_call 1) RegisterNewIdentity) sample_world)) \<le> 1"
  using every_call_is_answered_once [of sample_world "sample_call 1"
      "[ClientCalls (sample_call 2) (GetInfo 0)]" RegisterNewIdentity]
  by (simp add: settled_def due_def answered_def waiting_def sample_world_def sample_call_def)

end
