(* ===== verification/Identity_Safety.thy ===== *)
theory Identity_Safety
  imports Identity_Properties
begin

text \<open>
  What the identity interface never does: act for a peer without permission, show a password
  in an answer.
\<close>

section \<open>Nothing happens without permission\<close>

text \<open>The calls the daemon lets through: a method of an identity the peer may use; removal, and
  storing under an id, by an owner or where there is none; the list of all identities and
  clearing, by the keychain widget.\<close>

definition may_use :: "dbus_call \<Rightarrow> nat \<Rightarrow> world \<Rightarrow> bool" where
  "may_use c ob w \<longleftrightarrow> fst (isPeerAllowedToUseIdentity (w_ac w) c (si_id (this ob w)) (w_db w))"

definition may_change :: "dbus_call \<Rightarrow> nat \<Rightarrow> world \<Rightarrow> bool" where
  "may_change c ob w \<longleftrightarrow>
     fst (isPeerOwnerOfIdentity (w_ac w) c (si_id (this ob w)) (w_db w)) \<noteq> ApplicationIsNotOwner
     \<or> isPeerKeychainWidget (w_ac w) c"

fun permitted :: "dbus_call \<Rightarrow> client_call \<Rightarrow> world \<Rightarrow> bool" where
  "permitted c RegisterNewIdentity w = True"
| "permitted c (GetIdentity n) w = True"
| "permitted c QueryIdentities w = isPeerKeychainWidget (w_ac w) c"
| "permitted c Clear w = isPeerKeychainWidget (w_ac w) c"
| "permitted c (Remove ob) w = may_change c ob w"
| "permitted c (Store ob info) w =
     (may_change c ob w \<or> to_uint (v_toInt (qm_value info ''Id'' (VUInt NEW_IDENTITY))) = NEW_IDENTITY)"
| "permitted c (RequestCredentialsUpdate ob _) w = may_use c ob w"
| "permitted c (GetInfo ob) w = may_use c ob w"
| "permitted c (AddReference ob _) w = may_use c ob w"
| "permitted c (RemoveReference ob _) w = may_use c ob w"
| "permitted c (VerifyUser ob _) w = may_use c ob w"
| "permitted c (VerifySecret ob _) w = may_use c ob w"
| "permitted c (SignOut ob) w = may_use c ob w"

text \<open>Two databases with the same content; a query that fails may end a transaction that was left
  open.\<close>

definition same_content :: "credentials_db option \<Rightarrow> credentials_db option \<Rightarrow> bool" where
  "same_content db db' \<longleftrightarrow>
     (case (db, db') of
        (None, None) \<Rightarrow> True
      | (Some d, Some d') \<Rightarrow>
          (sq_saved (cd_meta d) = None \<longrightarrow> sq_data (cd_meta d') = sq_data (cd_meta d) \<and> sq_saved (cd_meta d') = None)
          \<and> ss_db (cd_secrets d') = ss_db (cd_secrets d) \<and> ss_files (cd_secrets d') = ss_files (cd_secrets d)
          \<and> cd_cache d' = cd_cache d
      | _ \<Rightarrow> False)"

lemma query_same_content: "same_content (Some db) (Some (snd (monitored (on_meta (queryList q)) db)))"
  by (auto simp: same_content_def monitored_def on_meta_def init_error_def clearError_def queryList_def
      sql_query_def next_io_def collect_error_def undo_def Let_def
      split: list.splits outcome.splits option.splits)

lemma same_content_trans: "same_content a b \<Longrightarrow> same_content b c \<Longrightarrow> same_content a c"
  by (auto simp: same_content_def split: option.splits)

lemma owner_same_content: "same_content db (snd (isPeerOwnerOfIdentity ac c n db))"
proof (cases db)
  case None
  then show ?thesis by (simp add: isPeerOwnerOfIdentity_def same_content_def)
next
  case (Some d)
  obtain xs d1 where 1: "cd_ownerList n d = (xs, d1)" by force
  then have "same_content (Some d) (Some d1)"
    using query_same_content [of d "sel_owner_tokens n"] by (simp add: list_queries)
  then show ?thesis by (simp add: isPeerOwnerOfIdentity_def Some 1)
qed

lemma use_same_content: "same_content db (snd (isPeerAllowedToUseIdentity ac c n db))"
proof (cases db)
  case None
  then show ?thesis by (simp add: isPeerAllowedToUseIdentity_def same_content_def)
next
  case (Some d)
  obtain acl d1 where 1: "cd_accessControlList n d = (acl, d1)" by force
  obtain own db2 where 2: "isPeerOwnerOfIdentity ac c n (Some d1) = (own, db2)" by force
  have s1: "same_content (Some d) (Some d1)"
    using query_same_content [of d "sel_acl_tokens n"] 1 by (simp add: list_queries)
  moreover have "same_content (Some d1) db2"
    using owner_same_content [of "Some d1" ac c n] by (simp add: 2)
  ultimately have "same_content (Some d) db2" by (rule same_content_trans)
  with s1 show ?thesis by (simp add: isPeerAllowedToUseIdentity_def Some 1 2)
qed

definition refused :: "dbus_call \<Rightarrow> world \<Rightarrow> world \<Rightarrow> bool" where
  "refused c w w' \<longleftrightarrow>
     (\<exists>db. w' = w\<lparr>w_db := db, w_delayed := True, w_out := w_out w @ [ErrorReply c ERR_PERMISSION_DENIED]\<rparr>
        \<and> same_content (w_db w) db)"

lemma same_content_refl: "same_content db db"
  by (simp add: same_content_def split: option.split)

lemma refusal: "same_content (w_db w) db \<Longrightarrow> refused c w (securityErrorReply c (w\<lparr>w_delayed := b, w_db := db\<rparr>))"
  by (auto simp: refused_def securityErrorReply_def sendErrorReply_def out_def setDelayedReply_def)

lemma this_frame [simp]: "this ob (w\<lparr>w_delayed := b\<rparr>) = this ob w" "this ob (w\<lparr>w_db := d\<rparr>) = this ob w"
  by (simp_all add: this_def)

lemma refused_guards:
  "\<not> may_use c ob w \<Longrightarrow> refused c w (snd (if_may_use ob c r f (w\<lparr>w_delayed := False\<rparr>)))"
  "\<not> may_change c ob w \<Longrightarrow> refused c w (snd (if_may_change ob c r f (w\<lparr>w_delayed := False\<rparr>)))"
  using use_same_content [of "w_db w" "w_ac w" c "si_id (this ob w)"]
    owner_same_content [of "w_db w" "w_ac w" c "si_id (this ob w)"]
  by (auto simp: if_may_use_def if_may_change_def may_use_def may_change_def Let_def
      simp del: errorReply_eq split: prod.split intro!: refusal)

lemma refused_adaptor:
  assumes "\<not> permitted c m w"
  shows "refused c w (snd (adaptor c m (w\<lparr>w_delayed := False\<rparr>)))"
  using assms refusal [where w = w and db = "w_db w" and c = c and b = False] same_content_refl [of "w_db w"]
    refused_guards [where c = c and w = w]
  by (cases m) (auto simp: ad_requestCredentialsUpdate_def ad_getInfo_def ad_addReference_def
      ad_removeReference_def ad_verifyUser_def ad_verifySecret_def ad_signOut_def ad_remove_def
      ad_store_def da_queryIdentities_def da_clear_def)

lemma refused_call:
  assumes "settled w" and "\<not> permitted c m w"
    and "\<And>ob. target_object m = Some ob \<Longrightarrow> map_of (w_objects w) ob \<noteq> None"
  shows "refused c w (happen (ClientCalls c m) w)"
proof -
  obtain vals w1 where 1: "adaptor c m (w\<lparr>w_delayed := False\<rparr>) = (vals, w1)" by force
  have "refused c w w1" using refused_adaptor [OF assms(2)] by (simp add: 1)
  then have "w_delayed w1" "w_doomed w1 = []" "refused c w w1"
    using assms(1) by (auto simp: refused_def settled_def)
  moreover have "\<not> (case target_object m of None \<Rightarrow> False | Some ob \<Rightarrow> map_of (w_objects w) ob = None)"
    using assms(3) by (auto split: option.splits)
  ultimately show ?thesis
    by (simp add: client_calls_def 1 deferred_deletes_none)
qed

text \<open>C10: A call without permission is refused and does nothing. Whichever of the methods a peer
  calls without the right the daemon requires for it, the answer is the permission error; no
  object, no pending call and no registration changes, no signal is sent, and the metadata, the
  secrets in the database and in the cache are what they were.\<close>

theorem unauthorised_call_is_refused:
  assumes "settled w" and "\<not> permitted c m w"
    and "\<And>ob. target_object m = Some ob \<Longrightarrow> map_of (w_objects w) ob \<noteq> None"
  shows "\<exists>db. happen (ClientCalls c m) w =
      w\<lparr>w_db := db, w_delayed := True, w_out := w_out w @ [ErrorReply c ERR_PERMISSION_DENIED]\<rparr>
    \<and> same_content (w_db w) db"
  using refused_call [OF assms] by (simp add: refused_def)

text \<open>A strict access control manager, for the witnesses.\<close>

definition strict_world :: world where
  "strict_world = sample_world\<lparr>w_ac := \<lparr>ac_keychainWidgetAppId = QStr ''widget'',
     ac_isPeerAllowedToAccess = (\<lambda>c t. dc_service c = t), ac_appIdOfPeer = dc_service\<rparr>\<rparr>"

theorem unauthorised_call_is_refused_witness:
  "\<exists>db. happen (ClientCalls (sample_call 1) Clear) strict_world =
      strict_world\<lparr>w_db := db, w_delayed := True,
        w_out := w_out strict_world @ [ErrorReply (sample_call 1) ERR_PERMISSION_DENIED]\<rparr>
    \<and> same_content (w_db strict_world) db"
  by (rule unauthorised_call_is_refused)
     (simp_all add: settled_def strict_world_def sample_world_def isPeerKeychainWidget_def
       appIdOfPeer_def sample_call_def)

section \<open>Answers without passwords\<close>

lemma discreet_guards:
  assumes "\<And>w. discreet w \<Longrightarrow> discreet (snd (f w)) \<and> \<not> list_ex shows_password (fst (f w))"
    and "\<not> list_ex shows_password r" and "discreet w"
  shows "discreet (snd (if_may_use ob c r f w)) \<and> \<not> list_ex shows_password (fst (if_may_use ob c r f w))"
    and "discreet (snd (if_may_change ob c r f w)) \<and> \<not> list_ex shows_password (fst (if_may_change ob c r f w))"
  using assms(2,3) assms(1) [of "w\<lparr>w_db := _\<rparr>"]
  by (auto simp: if_may_use_def if_may_change_def securityErrorReply_def Let_def split: prod.split)

lemma meta_identity_no_secret: "qm_value (fst (meta_identity n db)) KEY_SECRET v = v"
  by (auto simp: meta_identity_def info_set_defs Let_def qm_value_def split: option.splits prod.splits)

lemma identities_loop_no_secret:
  "\<forall>i \<in> set (fst (identities_loop ns db)). \<forall>v. qm_value i KEY_SECRET v = v"
proof (induction ns arbitrary: db)
  case (Cons n ns)
  obtain info db1 where 1: "meta_identity (to_uint (int n)) db = (info, db1)" by force
  obtain infos db2 where 2: "identities_loop ns db1 = (infos, db2)" by force
  have "qm_value info KEY_SECRET v = v" for v
    using meta_identity_no_secret [of "to_uint (int n)" db] by (simp add: 1)
  then show ?case using Cons.IH [of db1] by (simp add: 1 2)
qed simp

lemma cd_identities_no_secret:
  "i \<in> set (fst (cd_identities db)) \<Longrightarrow> qm_value i KEY_SECRET v = v"
proof -
  have "\<forall>i \<in> set (fst (meta_identities d)). \<forall>v. qm_value i KEY_SECRET v = v" for d
    using identities_loop_no_secret by (auto simp: meta_identities_def split: option.splits prod.splits)
  moreover have "\<exists>d. fst (cd_identities db) = fst (meta_identities d)"
    by (auto simp: cd_identities_def monitored_def on_meta_def Let_def split_def)
  ultimately show "i \<in> set (fst (cd_identities db)) \<Longrightarrow> ?thesis" by metis
qed

lemma discreet_destroy [simp]: "discreet (destroy ob w) = discreet w"
  by (simp add: destroy_def)

lemma discreet_more [simp]:
  "discreet (destroyUnused w) = discreet w" "discreet (watchIdentity ob w) = discreet w"
  "discreet (clearLastError w) = discreet w" "discreet (setLastError e w) = discreet w"
  "discreet (requestAccessToIdentity c n w) = discreet w" "discreet (deferred_deletes w) = discreet w"
proof -
  have "discreet (fold (\<lambda>ob w. if P ob w then destroy ob w else w) xs w) = discreet w" for P xs
    by (induction xs arbitrary: w) auto
  then show "discreet (destroyUnused w) = discreet w"
    by (simp add: destroyUnused_def Let_def split: option.splits)
qed (simp_all add: watchIdentity_def Let_def clearLastError_def setLastError_def requestAccessToIdentity_def
    discreet_def deferred_deletes_frame)

lemma found_object_discreet: "found_object n w = (ob, w') \<Longrightarrow> discreet w' = discreet w"
  by (auto simp: found_object_def createIdentity_def Let_def split: option.splits if_splits)
     (auto simp: discreet_def)

lemma getIdentity_discreet:
  assumes "getIdentity n w = ((r, info), w')"
  shows "discreet w' = discreet w \<and> v_toString (qm_value info KEY_SECRET VInvalid) = QNull"
proof (cases "w_opened w")
  case False
  then show ?thesis using assms by (auto simp: getIdentity_closed)
next
  case True
  obtain ob w1 where 1: "found_object n (clearLastError w) = (ob, w1)" by force
  obtain ok i w2 where 2: "queryInfo ob False w1 = ((ok, i), w2)" by (metis surj_pair)
  show ?thesis
    using assms found_object_discreet [OF 1] discreet_steps(2) [OF 2] loaded_without_password [OF 2]
    by (auto simp: getIdentity_eq [OF True 1 2] split: if_splits)
qed

lemma handleLastError_discreet: "handleLastError c w = (b, w') \<Longrightarrow> discreet w' = discreet w"
  by (auto simp: handleLastError_def split: option.splits)

lemma da_getIdentity_discreet:
  assumes "discreet w"
  shows "discreet (snd (da_getIdentity c n w)) \<and> \<not> list_ex shows_password (fst (da_getIdentity c n w))"
proof -
  obtain ok db where 1: "isPeerAllowedToUseIdentity (w_ac w) c n (w_db w) = (ok, db)" by force
  obtain ob info w1 where 2: "getIdentity n (w\<lparr>w_db := db\<rparr>) = ((ob, info), w1)" by (metis surj_pair)
  show ?thesis
    using getIdentity_discreet [OF 2] assms
    by (auto simp: da_getIdentity_def Let_def 1 2 split: option.splits prod.splits dest!: handleLastError_discreet)
qed

lemma loaded_identities:
  assumes "on_db cd_identities [] w = (ms, w')" and "m \<in> set ms"
  shows "qm_value m KEY_SECRET v = v"
proof -
  have "\<exists>db. ms = fst (cd_identities db)"
    using assms by (auto simp: on_db_def Let_def split: option.splits prod.splits) (metis fst_conv)
  then show ?thesis using cd_identities_no_secret assms(2) by auto
qed

lemma queryIdentities_discreet:
  assumes "queryIdentities w = (ms, w')"
  shows "discreet w' = discreet w \<and> (\<forall>m \<in> set ms. v_toString (qm_value m KEY_SECRET VInvalid) = QNull)"
proof -
  obtain is1 w1 where 1: "on_db cd_identities [] (clearLastError w) = (is1, w1)" by force
  show ?thesis
    using assms discreet_steps(1) [OF 1] loaded_identities [OF 1]
    by (auto simp: queryIdentities_def Let_def 1 split: if_splits)
qed

lemma daemon_clear_discreet: "daemon_clear w = (b, w') \<Longrightarrow> discreet w' = discreet w"
  by (auto simp: daemon_clear_def Let_def split: if_splits prod.splits dest!: discreet_steps(1))

text \<open>A handler is discreet when neither what it sends nor what it returns shows a password.\<close>

definition keeps_secret :: "(world \<Rightarrow> qvariant list \<times> world) \<Rightarrow> bool" where
  "keeps_secret f \<longleftrightarrow> (\<forall>w. discreet w \<longrightarrow> discreet (snd (f w)) \<and> \<not> list_ex shows_password (fst (f w)))"

lemma keeps_secret_guards:
  assumes "keeps_secret f" and "\<not> list_ex shows_password r"
  shows "keeps_secret (if_may_use ob c r f)" and "keeps_secret (if_may_change ob c r f)"
  using discreet_guards [of f r] assms by (auto simp: keeps_secret_def)

lemma keeps_secret_method:
  assumes "\<And>w. discreet (snd (f w)) = discreet w" and "\<And>x. \<not> list_ex shows_password (g x)"
  shows "keeps_secret (\<lambda>w. case f w of (x, w) \<Rightarrow> (g x, w))"
  using assms by (simp add: keeps_secret_def split_def)

lemma keeps_secret_getInfo: "keeps_secret (\<lambda>w. case getInfo ob c w of (m, w) \<Rightarrow> ([VMap m], w))"
  by (auto simp: keeps_secret_def split: prod.split dest!: getInfo_discreet)

lemma keeps_secret_reference:
  assumes "\<And>w. discreet (snd (f w)) = discreet w"
  shows "keeps_secret (\<lambda>w. case f w of (ok, w) \<Rightarrow> ([], if \<not> ok then sendErrorReply c n w else w))"
  using assms by (simp add: keeps_secret_def split_def)

lemma keeps_secret_remove: "keeps_secret (\<lambda>w. ([], snd (id_remove ob c w)))"
  by (simp add: keeps_secret_def)

lemma keeps_secret_objects:
  "keeps_secret (ad_requestCredentialsUpdate ob c msg)" "keeps_secret (ad_getInfo ob c)"
  "keeps_secret (ad_addReference ob c r)" "keeps_secret (ad_removeReference ob c r)"
  "keeps_secret (ad_verifyUser ob c params)" "keeps_secret (ad_verifySecret ob c secret)"
  "keeps_secret (ad_signOut ob c)" "keeps_secret (ad_remove ob c)"
  unfolding ad_requestCredentialsUpdate_def ad_getInfo_def ad_addReference_def ad_removeReference_def
    ad_verifyUser_def ad_verifySecret_def ad_signOut_def ad_remove_def Let_def errorReply_eq
  by (intro keeps_secret_guards keeps_secret_method keeps_secret_getInfo keeps_secret_reference
      keeps_secret_remove; simp)+

lemma keeps_secret_store: "keeps_secret (ad_store ob c info)"
  using keeps_secret_guards(2) [OF keeps_secret_method [of "id_store ob c info" "\<lambda>n. [VUInt n]"], of "[VUInt 0]" ob c]
    keeps_secret_method [of "id_store ob c info" "\<lambda>n. [VUInt n]"]
  by (simp add: ad_store_def keeps_secret_def)

lemma keeps_secret_daemon:
  "keeps_secret (da_registerNewIdentity c)" "keeps_secret (da_clear c)" "keeps_secret (da_queryIdentities c)"
  "keeps_secret (da_getIdentity c n)"
proof -
  show "keeps_secret (da_registerNewIdentity c)"
    by (auto simp: keeps_secret_def da_registerNewIdentity_def registerNewIdentity_def createIdentity_def Let_def)
       (auto simp: discreet_def clearLastError_def)
  show "keeps_secret (da_clear c)"
    by (auto simp: keeps_secret_def da_clear_def securityErrorReply_def Let_def split: prod.splits
        dest!: daemon_clear_discreet handleLastError_discreet)
  show "keeps_secret (da_queryIdentities c)"
    by (auto simp: keeps_secret_def da_queryIdentities_def securityErrorReply_def Let_def list_ex_iff
        split: prod.splits dest!: queryIdentities_discreet handleLastError_discreet)
  show "keeps_secret (da_getIdentity c n)"
    using da_getIdentity_discreet by (simp add: keeps_secret_def)
qed

lemma keeps_secret_adaptor: "keeps_secret (adaptor c m)"
  by (cases m) (simp_all add: keeps_secret_def,
      simp_all add: keeps_secret_objects keeps_secret_store keeps_secret_daemon flip: keeps_secret_def)

lemma client_calls_discreet: "discreet w \<Longrightarrow> discreet (client_calls c m w)"
  using keeps_secret_adaptor [of c m] by (auto simp: client_calls_def keeps_secret_def Let_def split_def)

lemma slots_discreet:
  assumes "discreet w"
  shows "discreet (queryUiSlot ob c reply w)" "discreet (verifyUiSlot ob c reply w)"
    "discreet (removeCompleted ob c w)" "discreet (signOutCompleted ob c reply w)"
  using assms
  by (simp_all add: queryUiSlot_def verifyUiSlot_def removeCompleted_def signOutCompleted_def
      queryUserPassword_def Let_def split_def split: option.splits)

lemma accessReply_discreet: "discreet w \<Longrightarrow> discreet (onIdentityAccessReplyFinished c n b w)"
proof (cases b)
  case False
  then show "discreet w \<Longrightarrow> ?thesis" by (simp add: onIdentityAccessReplyFinished_def securityErrorReply_def)
next
  case True
  assume w: "discreet w"
  obtain ok db where 1: "isPeerAllowedToUseIdentity (w_ac w) c n (w_db w) = (ok, db)" by force
  obtain ob info w1 where 2: "getIdentity n (w\<lparr>w_db := db\<rparr>) = ((ob, info), w1)" by (metis surj_pair)
  show ?thesis
    using getIdentity_discreet [OF 2] w
    by (auto simp: onIdentityAccessReplyFinished_def True Let_def 1 2 securityErrorReply_def
        split: option.splits prod.splits dest!: handleLastError_discreet)
qed

lemma happen_discreet: "discreet w \<Longrightarrow> discreet (happen h w)"
proof (cases h)
  case (UiAnswers k reply)
  have "discreet w \<Longrightarrow> discreet (w\<lparr>w_pending := ps\<rparr>)" for ps by (simp add: discreet_def)
  then show "discreet w \<Longrightarrow> ?thesis"
    by (auto simp: UiAnswers ui_answers_def Let_def slots_discreet split: option.split ui_slot.split)
next
  case (AccessDecided k b)
  have "discreet w \<Longrightarrow> discreet (w\<lparr>w_requests := rs\<rparr>)" for rs by (simp add: discreet_def)
  then show "discreet w \<Longrightarrow> ?thesis"
    by (auto simp: AccessDecided access_decided_def Let_def accessReply_discreet split: option.split)
qed (simp_all add: client_calls_discreet dispose_timeout_def)

lemma run_discreet: "discreet w \<Longrightarrow> discreet (run hs w)"
  unfolding run_def by (induction hs arbitrary: w) (simp_all add: happen_discreet)

text \<open>C11: The interfaces of the daemon and of identity objects never tell a password. In every sequence of their calls,
  answers of signon-ui, access decisions and time-outs, whatever the databases hold, no reply carries a map with a
  value for the secret; and the reply of \<open>getInfo\<close> has no user name either when the user name
  is a secret. Authentication sessions, whose replies are what the plugin answers, are not part of these runs: a session
  of the password method replies with the secret.\<close>

theorem no_answer_shows_a_password:
  assumes "discreet w"
  shows "(\<forall>e \<in> set (w_out (run hs w)). \<not> discloses e)
    \<and> (isUserNameSecret (fst (getInfo ob c (run hs w)))
         \<longrightarrow> \<not> qm_contains (fst (getInfo ob c (run hs w))) KEY_USERNAME)"
  using run_discreet [OF assms, of hs] getInfo_discreet [of ob c "run hs w"]
  by (auto simp: discreet_def prod_eq_iff)

theorem no_answer_shows_a_password_witness:
  "list_all (\<lambda>e. \<not> discloses e) (w_out (run [ClientCalls (sample_call 1) (GetIdentity 1)] sample_world))"
  using no_answer_shows_a_password [of sample_world "[ClientCalls (sample_call 1) (GetIdentity 1)]"]
  by (simp add: discreet_def sample_world_def list_all_iff)

end
