(* ===== verification/Identity_Memory.thy ===== *)
theory Identity_Memory
  imports Identity_Safety
begin

text \<open>
  Which pointers the identity interface follows: the register of stored identities holds plain
  pointers that an object removes when it is deleted. As long as no client stores an object
  that has an id as a new identity, every pointer is valid; a client that does so leaves a
  pointer to a deleted object behind.
\<close>

section \<open>Handlers that keep the register as it is\<close>

definition shape :: "world \<Rightarrow> (nat \<times> nat \<times> bool) list" where
  "shape w = map (\<lambda>p. (fst p, si_id (snd p), si_watched (snd p))) (w_objects w)"

definition live :: "nat \<Rightarrow> world \<Rightarrow> bool" where
  "live ob w \<longleftrightarrow> map_of (w_objects w) ob \<noteq> None"

lemma map_of_shape: "map_of (shape w) ob = map_option (\<lambda>i. (si_id i, si_watched i)) (map_of (w_objects w) ob)"
proof -
  have "map_of (map (\<lambda>p. (fst p, si_id (snd p), si_watched (snd p))) xs) ob =
    map_option (\<lambda>i. (si_id i, si_watched i)) (map_of xs ob)" for xs
    by (induction xs) auto
  then show ?thesis by (simp add: shape_def)
qed

lemma live_shape: "live ob w \<longleftrightarrow> map_of (shape w) ob \<noteq> None"
  by (simp add: live_def map_of_shape)

lemma this_shape: "map_of (shape w) ob = Some (n, b) \<Longrightarrow> si_id (this ob w) = n \<and> si_watched (this ob w) = b"
  by (auto simp: map_of_shape this_def)

lemma shape_fst: "map fst (shape w) = map fst (w_objects w)"
  by (simp add: shape_def comp_def)

definition steady :: "world \<Rightarrow> world \<Rightarrow> bool" where
  "steady w w' \<longleftrightarrow> shape w' = shape w \<and> w_stored w' = w_stored w \<and> w_opened w' = w_opened w
     \<and> (w_db w' = None \<longleftrightarrow> w_db w = None) \<and> w_fault w' = w_fault w \<and> w_requests w' = w_requests w
     \<and> w_next w \<le> w_next w'"

lemma steady_refl [simp]: "steady w w"
  by (simp add: steady_def)

lemma steady_trans [trans]: "steady w1 w2 \<Longrightarrow> steady w2 w3 \<Longrightarrow> steady w1 w3"
  by (auto simp: steady_def)

lemma shape_set_this:
  "(\<And>i. si_id (f i) = si_id i \<and> si_watched (f i) = si_watched i) \<Longrightarrow> shape (set_this ob f w) = shape w"
  by (simp add: shape_def set_this_def split_def)

lemma shape_keepInUse [simp]: "shape (keepInUse ob w) = shape w"
  using shape_set_this [of "\<lambda>i. i\<lparr>si_lastActivity := _\<rparr>" ob w]
  by (simp add: keepInUse_def split: option.split) (simp add: shape_def)

lemma steady_simple [simp]:
  "steady w (set_this ob (\<lambda>i. i\<lparr>si_pInfo := v\<rparr>) w')  = steady w w'"
  "steady w (keepInUse ob w') = steady w w'" "steady w (setAutoDestruct ob b w') = steady w w'"
  "steady w (out e w') = steady w w'" "steady w (setDelayedReply w') = steady w w'"
  "steady w (sendErrorReply c n w') = steady w w'"
  by (simp_all add: steady_def shape_set_this setAutoDestruct_def)
     (simp_all add: shape_def)

lemma steady_ui_call [simp]: "steady w w' \<Longrightarrow> steady w (ui_call s ob c e w')"
  by (simp add: steady_def ui_call_def shape_def)

lemma steady_onCredentialsUpdated: "steady w (onCredentialsUpdated n ob w)"
  by (simp add: onCredentialsUpdated_def)

lemma steady_fold: "(\<And>x w. steady w (f x w)) \<Longrightarrow> steady w (fold f xs w)"
  by (induction xs arbitrary: w) (auto intro: steady_trans)

lemma steady_emit: "steady w (emit_updated ns w)"
  unfolding emit_updated_def by (intro steady_fold steady_onCredentialsUpdated)

lemma on_db_steady: "on_db f r w = (x, w') \<Longrightarrow> w_db w \<noteq> None \<Longrightarrow> steady w w'"
proof -
  have "w_db w \<noteq> None \<Longrightarrow> steady w (w\<lparr>w_db := Some d\<rparr>)" for d
    by (simp add: steady_def shape_def)
  then show "on_db f r w = (x, w') \<Longrightarrow> w_db w \<noteq> None \<Longrightarrow> ?thesis"
    by (auto simp: on_db_def Let_def split: option.splits prod.splits intro: steady_trans [OF _ steady_emit])
qed

lemma this_set_this: "live ob w \<Longrightarrow> this ob (set_this ob f w) = f (this ob w)"
proof -
  have "map_of (map (\<lambda>(k, i). (k, if k = ob then f i else i)) xs) ob = map_option f (map_of xs ob)" for xs
    by (induction xs) auto
  then show "live ob w \<Longrightarrow> ?thesis" by (auto simp: this_def set_this_def live_def)
qed

lemma steady_live: "steady w w' \<Longrightarrow> live ob w' = live ob w"
  by (simp add: steady_def live_shape)

lemma queryInfo_steady:
  assumes "queryInfo ob q w = ((ok, info), w')" and "live ob w" and "w_db w \<noteq> None"
  shows "steady w w' \<and> (ok \<longrightarrow> si_pInfo (this ob w') \<noteq> None)"
proof (cases "needs_loading q (si_pInfo (this ob w))")
  case False
  then show ?thesis
    using assms(1) by (auto simp: queryInfo_def loaded_info_def needs_loading_def split: option.splits)
next
  case True
  obtain i w1 where 1: "on_db (cd_credentials (si_id (this ob w)) q) [] w = (i, w1)" by force
  have s: "steady w w1" by (rule on_db_steady [OF 1 assms(3)])
  then have "live ob w1" using steady_live assms(2) by blast
  then have t: "si_pInfo (this ob (set_this ob (\<lambda>s. s\<lparr>si_pInfo := Some i\<rparr>) w1)) = Some i"
    by (simp add: this_set_this)
  show ?thesis
    using assms(1) s t True by (auto simp: queryInfo_def 1 loaded_info_def split: if_splits)
qed

text \<open>What the handlers of an object rely on.\<close>

definition ready :: "nat \<Rightarrow> world \<Rightarrow> bool" where
  "ready ob w \<longleftrightarrow> live ob w \<and> (w_opened w \<longrightarrow> w_db w \<noteq> None)"

lemma steady_query_methods:
  assumes "ready ob w"
  shows "steady w (snd (requestCredentialsUpdate ob c msg w))" "steady w (snd (getInfo ob c w))"
    "steady w (snd (verifyUser ob c params w))"
  using assms
  by (auto simp: ready_def requestCredentialsUpdate_def getInfo_def verifyUser_def queryUserPassword_def
      need_cam_def Let_def split: handler_splits dest!: queryInfo_steady)

lemma steady_verifySecret:
  assumes "ready ob w"
  shows "steady w (snd (verifySecret ob c secret w))"
proof (cases "w_opened w")
  case False
  then show ?thesis by (simp add: verifySecret_def need_cam_def)
next
  case True
  obtain ok i w1 where 1: "queryInfo ob True w = ((ok, i), w1)" by (metis surj_pair)
  have s: "steady w w1 \<and> (ok \<longrightarrow> si_pInfo (this ob w1) \<noteq> None)"
    using queryInfo_steady [OF 1] assms True by (simp add: ready_def)
  then have "w_db w1 \<noteq> None" using assms True by (simp add: ready_def steady_def)
  then have "steady w w2" if "on_db f r w1 = (x, w2)" for f x w2 and r :: bool
    using on_db_steady [OF that] s steady_trans by blast
  with s show ?thesis
    by (auto simp: verifySecret_def need_cam_def True Let_def 1 split: option.splits prod.splits)
qed

lemma steady_change_methods:
  assumes "ready ob w"
  shows "steady w (snd (id_remove ob c w))" "steady w (snd (signOut ob c w))"
    "steady w (snd (id_addReference ob c r w))" "steady w (snd (id_removeReference ob c r w))"
proof -
  have db: "w_db w' \<noteq> None \<Longrightarrow> steady w' (snd (on_db f r w'))" for f w' and r :: bool
    using on_db_steady [of f r w'] by (metis prod.collapse)
  have k: "w_db w \<noteq> None \<Longrightarrow> steady w (snd (on_db f r (keepInUse ob w)))" for f and r :: bool
    using db [of "keepInUse ob w" f r] steady_trans [of w "keepInUse ob w"] by simp
  show "steady w (snd (id_remove ob c w))"
    by (auto simp: id_remove_def need_cam_def Let_def split: handler_splits dest!: on_db_steady)
  show "steady w (snd (signOut ob c w))"
    by (auto simp: signOut_def Let_def intro!: steady_ui_call db)
  show "steady w (snd (id_addReference ob c r w))" "steady w (snd (id_removeReference ob c r w))"
    by (auto simp: id_addReference_def id_removeReference_def need_cam_def Let_def intro!: k)
qed

section \<open>The register of stored identities\<close>

text \<open>An entry for an id other than 0 points to an object that exists, has that id and will take
  the entry back when it is deleted.\<close>

definition registry_ok :: "world \<Rightarrow> bool" where
  "registry_ok w \<longleftrightarrow>
     (\<forall>n ob. n \<noteq> 0 \<longrightarrow> map_of (w_stored w) n = Some ob \<longrightarrow> map_of (shape w) ob = Some (n, True))
     \<and> (\<forall>ob \<in> fst ` set (shape w). ob < w_next w)
     \<and> (\<forall>r \<in> set (w_requests w). ar_identity (snd r) \<noteq> 0)
     \<and> (w_opened w \<longrightarrow> w_db w \<noteq> None)"

lemma registry_steady: "steady w w' \<Longrightarrow> registry_ok w \<Longrightarrow> registry_ok w'"
  unfolding registry_ok_def steady_def by (metis order_less_le_trans)

lemma registry_fields [simp]:
  "registry_ok (w\<lparr>w_delayed := b\<rparr>) = registry_ok w" "registry_ok (w\<lparr>w_lastError := e\<rparr>) = registry_ok w"
  "registry_ok (w\<lparr>w_doomed := d\<rparr>) = registry_ok w" "registry_ok (w\<lparr>w_pending := p\<rparr>) = registry_ok w"
  "registry_ok (w\<lparr>w_clock := k\<rparr>) = registry_ok w" "registry_ok (w\<lparr>w_notifyTimer := t\<rparr>) = registry_ok w"
  by (simp_all add: registry_ok_def shape_def)

lemma registry_db: "registry_ok w \<Longrightarrow> db = None \<longleftrightarrow> w_db w = None \<Longrightarrow> registry_ok (w\<lparr>w_db := db\<rparr>)"
  by (auto simp: registry_ok_def shape_def)

lemma shape_delete: "shape (delete_object ob w) = filter (\<lambda>p. fst p \<noteq> ob) (shape w)"
  by (simp add: delete_object_def shape_def Let_def filter_map comp_def)

lemma map_of_filter_neq: "map_of (filter (\<lambda>p. fst p \<noteq> ob) xs) k = (if k = ob then None else map_of xs k)"
  by (induction xs) auto

lemma registry_delete:
  assumes "registry_ok w"
  shows "registry_ok (delete_object ob w)"
proof -
  have "map_of (shape (delete_object ob w)) k = Some (n, True)"
    if "n \<noteq> 0" and s: "map_of (w_stored (delete_object ob w)) n = Some k" for n k
  proof -
    have st: "w_stored (delete_object ob w) =
        (if si_watched (this ob w) then qh_remove (si_id (this ob w)) (w_stored w) else w_stored w)"
      by (simp add: delete_object_def Let_def)
    then have m: "map_of (w_stored w) n = Some k" "si_watched (this ob w) \<longrightarrow> n \<noteq> si_id (this ob w)"
      using s by (auto split: if_splits)
    then have "map_of (shape w) k = Some (n, True)" using assms \<open>n \<noteq> 0\<close> by (simp add: registry_ok_def)
    moreover from this m(2) this_shape have "k \<noteq> ob" by metis
    ultimately show ?thesis by (simp add: shape_delete map_of_filter_neq)
  qed
  then show ?thesis using assms by (auto simp: registry_ok_def shape_delete)
qed

lemma deferred_deletes_registry:
  assumes "registry_ok w"
  shows "registry_ok (deferred_deletes w)" and "w_fault (deferred_deletes w) = w_fault w"
proof -
  have "registry_ok (fold delete_object obs w) \<and> w_fault (fold delete_object obs w) = w_fault w" for obs
    using assms by (induction obs arbitrary: w) (auto simp: registry_delete)
  then show "registry_ok (deferred_deletes w)" "w_fault (deferred_deletes w) = w_fault w"
    by (simp_all add: deferred_deletes_def)
qed

section \<open>Storing and registering\<close>

text \<open>Clients keep to the ids they were given: an object with an id is not stored as a new one, and
  nobody asks for the identity 0.\<close>

definition stored_as_new :: "nat \<Rightarrow> dbus_call \<Rightarrow> qvariant_map \<Rightarrow> world \<Rightarrow> bool" where
  "stored_as_new ob c info w \<longleftrightarrow>
     isNew (info_to_store info (appIdOfPeer (w_ac w) c) (si_pInfo (this ob w)))"

fun keeps_ids :: "happening \<Rightarrow> world \<Rightarrow> bool" where
  "keeps_ids (ClientCalls c (Store ob info)) w =
     (si_id (this ob w) \<noteq> 0 \<longrightarrow> \<not> stored_as_new ob c info w)"
| "keeps_ids (ClientCalls c (GetIdentity n)) w = (n \<noteq> 0)"
| "keeps_ids _ w = True"

text \<open>One object gets an id and enters the register under it.\<close>

definition enters :: "nat \<Rightarrow> nat \<Rightarrow> bool \<Rightarrow> world \<Rightarrow> world \<Rightarrow> bool" where
  "enters ob n reg w w' \<longleftrightarrow>
     (\<exists>b. map_of (shape w') ob = Some (n, b) \<and> (reg \<longrightarrow> b))
     \<and> (\<forall>k. k \<noteq> ob \<longrightarrow> map_of (shape w') k = map_of (shape w) k)
     \<and> map fst (shape w') = map fst (shape w)
     \<and> (\<forall>m. map_of (w_stored w') m = (if reg \<and> m = n then Some ob else map_of (w_stored w) m))
     \<and> w_opened w' = w_opened w \<and> (w_db w' = None \<longleftrightarrow> w_db w = None) \<and> w_fault w' = w_fault w
     \<and> w_requests w' = w_requests w \<and> w_next w \<le> w_next w'"

lemma registry_enters:
  assumes "registry_ok w" and "enters ob n reg w w'"
    and "\<And>m b. map_of (shape w) ob = Some (m, b) \<Longrightarrow> m = 0 \<or> m = n \<and> (b \<longrightarrow> (\<exists>b. map_of (shape w') ob = Some (n, True)))"
  shows "registry_ok w'"
proof -
  have "map_of (shape w') k = Some (m, True)" if "m \<noteq> 0" "map_of (w_stored w') m = Some k" for m k
  proof (cases "reg \<and> m = n")
    case True
    then show ?thesis using assms(2) that by (auto simp: enters_def)
  next
    case False
    then have "map_of (w_stored w) m = Some k"
      using assms(2) that by (auto simp: enters_def split: if_splits)
    then have "map_of (shape w) k = Some (m, True)"
      using assms(1) that by (simp add: registry_ok_def)
    with assms(2,3) \<open>m \<noteq> 0\<close> show ?thesis by (cases "k = ob") (auto simp: enters_def)
  qed
  moreover have "fst ` set (shape w') = fst ` set (shape w)"
  proof -
    have "set (map fst (shape w')) = set (map fst (shape w))" using assms(2) by (simp add: enters_def)
    then show ?thesis by simp
  qed
  ultimately show ?thesis using assms(1,2) by (auto simp: registry_ok_def enters_def)
qed

lemma map_of_shape_set_this:
  "map_of (shape (set_this ob f w)) k =
     (if k = ob then map_option (\<lambda>i. (si_id (f i), si_watched (f i))) (map_of (w_objects w) ob)
      else map_of (shape w) k)"
proof -
  have "map_of (map (\<lambda>(k, i). (k, if k = ob then f i else i)) xs) k =
      (if k = ob then map_option f (map_of xs ob) else map_of xs k)" for xs k
    by (induction xs) auto
  then show ?thesis by (simp add: map_of_shape) (simp add: set_this_def option.map_comp comp_def)
qed

lemma enters_refl: "map_of (shape w) ob = Some (n, b) \<Longrightarrow> enters ob n False w w"
  by (simp add: enters_def)

lemma enters_steady: "enters ob n reg w w' \<Longrightarrow> steady w' w'' \<Longrightarrow> enters ob n reg w w''"
  by (simp add: enters_def steady_def)

lemma enters_set_id:
  assumes "enters ob n False w w'"
  shows "enters ob k False w (set_this ob (\<lambda>i. i\<lparr>si_id := k\<rparr>) w')"
proof -
  have "map fst (shape (set_this ob (\<lambda>i. i\<lparr>si_id := k\<rparr>) w')) = map fst (shape w')"
    by (simp add: shape_fst)
  moreover have "\<exists>i. map_of (w_objects w') ob = Some i"
    using assms by (auto simp: enters_def map_of_shape)
  ultimately show ?thesis using assms by (auto simp: enters_def map_of_shape_set_this)
qed

lemma watched_set_id:
  "map_of (shape w) ob = Some (n, b) \<Longrightarrow> map_of (shape (set_this ob (\<lambda>i. i\<lparr>si_id := k\<rparr>) w)) ob = Some (k, b)"
  by (simp add: map_of_shape_set_this) (auto simp: map_of_shape)

lemma enters_register:
  assumes "enters ob n False w w'" and "map_of (shape w') ob = Some (n, True)"
  shows "enters ob n True w (onIdentityStored ob w')"
proof -
  have "si_id (this ob w') = n" using this_shape [OF assms(2)] by simp
  then show ?thesis using assms by (simp add: enters_def onIdentityStored_def shape_def)
qed

text \<open>\<open>storeCredentials\<close>: the identity the object has afterwards, and the register.\<close>

definition written :: "nat \<Rightarrow> identity_info \<Rightarrow> world \<Rightarrow> world" where
  "written ob info w =
     (if isNew info
      then let (n, w) = on_db (cd_insertCredentials info) 0 w in set_this ob (\<lambda>i. i\<lparr>si_id := n\<rparr>) w
      else snd (on_db (cd_updateCredentials info) 0 w))"

definition noted :: "nat \<Rightarrow> world \<Rightarrow> world" where
  "noted ob w =
     (let w = set_this ob (\<lambda>i. i\<lparr>si_pInfo := None\<rparr>) w;
          w = (if si_watched (this ob w) then onIdentityStored ob w else w)
      in out (InfoUpdated ob IdentityDataUpdated) w)"

lemma storeCredentials_eq:
  assumes "w_db w \<noteq> None"
  shows "storeCredentials ob info w =
    (let w1 = written ob info w;
         w2 = (if db_errorOccurred w1
               then (if isNew info then set_this ob (\<lambda>i. i\<lparr>si_id := NEW_IDENTITY\<rparr>) w1 else w1)
               else noted ob w1)
     in (si_id (this ob w2), w2))"
  unfolding storeCredentials_def written_def noted_def Let_def by (simp only: assms if_False)

lemma written_enters:
  assumes "w_db w \<noteq> None" and "map_of (shape w) ob = Some (m, b)"
  shows "\<exists>n. enters ob n False w (written ob info w) \<and> map_of (shape (written ob info w)) ob = Some (n, b)
    \<and> (isNew info \<or> n = m)"
proof -
  obtain k wa where 1: "on_db (cd_insertCredentials info) 0 w = (k, wa)" by force
  obtain k' wb where 2: "on_db (cd_updateCredentials info) 0 w = (k', wb)" by force
  have s: "steady w wa" "steady w wb"
    by (rule on_db_steady [OF 1 assms(1)], rule on_db_steady [OF 2 assms(1)])
  then have "enters ob m False w wa" "enters ob m False w wb"
    using enters_steady [OF enters_refl [OF assms(2)]] by simp_all
  moreover have "map_of (shape wa) ob = Some (m, b)" "map_of (shape wb) ob = Some (m, b)"
    using s assms(2) by (simp_all add: steady_def)
  ultimately show ?thesis
    using enters_set_id [of ob m w wa k] watched_set_id [of wa ob m b k]
    by (cases "isNew info") (auto simp: written_def 1 2)
qed

lemma noted_enters:
  assumes "enters ob n False w w'" and "map_of (shape w') ob = Some (n, b)"
  shows "enters ob n b w (noted ob w') \<and> map_of (shape (noted ob w')) ob = Some (n, b)"
proof -
  define v where "v = set_this ob (\<lambda>i. i\<lparr>si_pInfo := None\<rparr>) w'"
  have s: "steady w' v" using steady_simple(1) [of w' ob None w'] by (simp add: v_def)
  have e: "enters ob n False w v" by (rule enters_steady [OF assms(1) s])
  have m: "map_of (shape v) ob = Some (n, b)" using s assms(2) by (simp add: steady_def)
  have "si_watched (this ob v) = b" using this_shape [OF m] by simp
  moreover have "steady x (out ev x)" for ev x by simp
  moreover have "shape (onIdentityStored ob v) = shape v" by (simp add: onIdentityStored_def shape_def)
  ultimately show ?thesis
    using e m enters_register [OF e] enters_steady
    by (cases b) (auto simp: noted_def v_def [symmetric] Let_def simp flip: steady_def, auto simp: shape_def)
qed

lemma storeCredentials_enters:
  assumes "storeCredentials ob info w = (n, w')" and "w_db w \<noteq> None"
    and "map_of (shape w) ob = Some (m, b)"
  shows "\<exists>reg. enters ob n reg w w' \<and> (reg \<longrightarrow> b) \<and> map_of (shape w') ob = Some (n, b)
    \<and> (isNew info \<or> n = m)"
proof -
  obtain k where k: "enters ob k False w (written ob info w)"
      "map_of (shape (written ob info w)) ob = Some (k, b)" "isNew info \<or> k = m"
    using written_enters [OF assms(2,3)] by blast
  have id: "map_of (shape v) ob = Some (j, b) \<Longrightarrow> si_id (this ob v) = j" for v j
    using this_shape by blast
  show ?thesis
    using assms(1) k enters_set_id [OF k(1), of NEW_IDENTITY] watched_set_id [OF k(2), of NEW_IDENTITY]
      noted_enters [OF k(1,2)] id
    by (auto simp: storeCredentials_eq [OF assms(2)] Let_def split: if_splits)
qed

lemma enters_set_same:
  assumes "enters ob n reg w w'" and "map_of (shape w') ob = Some (n, b)"
  shows "enters ob n reg w (set_this ob (\<lambda>i. i\<lparr>si_id := n\<rparr>) w')"
    and "map_of (shape (set_this ob (\<lambda>i. i\<lparr>si_id := n\<rparr>) w')) ob = Some (n, b)"
proof -
  show m: "map_of (shape (set_this ob (\<lambda>i. i\<lparr>si_id := n\<rparr>) w')) ob = Some (n, b)"
    by (rule watched_set_id [OF assms(2)])
  have "map fst (shape (set_this ob (\<lambda>i. i\<lparr>si_id := n\<rparr>) w')) = map fst (shape w')"
    by (simp add: shape_fst)
  then show "enters ob n reg w (set_this ob (\<lambda>i. i\<lparr>si_id := n\<rparr>) w')"
    using assms m by (auto simp: enters_def map_of_shape_set_this)
qed

definition sound :: "world \<Rightarrow> bool" where
  "sound w \<longleftrightarrow> registry_ok w \<and> \<not> w_fault w"

lemma sound_steady: "sound w \<Longrightarrow> steady w w' \<Longrightarrow> sound w'"
  using registry_steady [of w w'] by (simp add: sound_def) (simp add: steady_def)

lemma sound_ready: "sound w \<Longrightarrow> live ob w \<Longrightarrow> ready ob w"
  by (simp add: sound_def ready_def registry_ok_def)

lemma keepInUse_pInfo: "si_pInfo (this ob (keepInUse ob w)) = si_pInfo (this ob w)"
proof -
  have "map_of (map (\<lambda>(k, i). (k, if k = ob then f i else i)) xs) ob = map_option f (map_of xs ob)" for f :: "signon_identity \<Rightarrow> signon_identity" and xs
    by (induction xs) auto
  then show ?thesis
    by (auto simp: keepInUse_def this_def set_this_def split: option.splits)
qed

lemma store_sound:
  assumes "sound w" and "live ob w" and "si_id (this ob w) \<noteq> 0 \<longrightarrow> \<not> stored_as_new ob c info w"
  shows "sound (snd (id_store ob c info w))"
proof (cases "w_opened w")
  case False
  have "steady w (snd (id_store ob c info w))" using False by (simp add: id_store_def need_cam_def)
  then show ?thesis using sound_steady assms(1) by blast
next
  case True
  obtain m b where mb: "map_of (shape w) ob = Some (m, b)" using assms(2) by (auto simp: live_shape)
  define i where "i = info_to_store info (appIdOfPeer (w_ac w) c) (si_pInfo (this ob w))"
  define w1 where "w1 = set_this ob (\<lambda>s. s\<lparr>si_pInfo := Some i\<rparr>) (keepInUse ob w)"
  obtain n w2 where 2: "storeCredentials ob i w1 = (n, w2)" by force
  define w3 where "w3 = set_this ob (\<lambda>s. s\<lparr>si_id := n\<rparr>) w2"
  have s1: "steady w w1" by (simp add: w1_def)
  have db: "w_db w1 \<noteq> None" and m1: "map_of (shape w1) ob = Some (m, b)" and so: "sound w1"
    using s1 assms(1) True mb sound_steady by (auto simp: steady_def sound_def registry_ok_def)
  obtain reg where e: "enters ob n reg w1 w2" "reg \<longrightarrow> b" "map_of (shape w2) ob = Some (n, b)" "isNew i \<or> n = m"
    using storeCredentials_enters [OF 2 db m1] by blast
  have "m \<noteq> 0 \<longrightarrow> \<not> isNew i"
    using assms(3) this_shape [OF mb] by (simp add: stored_as_new_def i_def)
  then have "registry_ok w3"
    using registry_enters [of w1 ob n reg w3] enters_set_same [OF e(1,3)] so e m1
    by (auto simp: w3_def sound_def)
  moreover have "\<not> w_fault w3" using e(1) so by (simp add: enters_def sound_def w3_def)
  ultimately have "sound w3" by (simp add: sound_def)
  moreover have "snd (id_store ob c info w) \<in> {w3, sendErrorReply c ERR_STORE_FAILED w3}"
    using 2 by (simp add: id_store_def need_cam_def True keepInUse_pInfo Let_def i_def w1_def w3_def)
  ultimately show ?thesis using sound_steady [of w3 "sendErrorReply c ERR_STORE_FAILED w3"] by auto
qed

section \<open>Creating and finding objects\<close>

lemma sound_fields [simp]:
  "sound (w\<lparr>w_delayed := b\<rparr>) = sound w" "sound (w\<lparr>w_lastError := e\<rparr>) = sound w"
  "sound (w\<lparr>w_doomed := d\<rparr>) = sound w" "sound (w\<lparr>w_pending := p\<rparr>) = sound w"
  "sound (w\<lparr>w_clock := k\<rparr>) = sound w" "sound (w\<lparr>w_notifyTimer := t\<rparr>) = sound w"
  "sound (clearLastError w) = sound w" "sound (setLastError e' w) = sound w" "sound (destroy ob w) = sound w"
  "sound (out ev w) = sound w" "sound (sendErrorReply c n w) = sound w" "sound (setDelayedReply w) = sound w"
  by (simp_all add: sound_def clearLastError_def setLastError_def destroy_def)
     (simp_all add: registry_ok_def sendErrorReply_def setDelayedReply_def out_def shape_def)

lemma sound_keepInUse [simp]: "sound (keepInUse ob w) = sound w"
  by (simp add: sound_def registry_ok_def)

lemma sound_db: "sound w \<Longrightarrow> (db = None \<longleftrightarrow> w_db w = None) \<Longrightarrow> sound (w\<lparr>w_db := db\<rparr>)"
  by (simp add: sound_def registry_db)

lemma checks_db:
  "isPeerAllowedToUseIdentity ac c n db = (ok, db') \<Longrightarrow> db' = None \<longleftrightarrow> db = None"
  "isPeerOwnerOfIdentity ac c n db = (own, db') \<Longrightarrow> db' = None \<longleftrightarrow> db = None"
  by (auto simp: isPeerAllowedToUseIdentity_def isPeerOwnerOfIdentity_def Let_def
      split: option.splits prod.splits if_splits)

lemma sound_guards:
  assumes "sound w" and "live ob' w" and "\<And>w1. sound w1 \<Longrightarrow> live ob' w1 \<Longrightarrow> w_objects w1 = w_objects w
      \<Longrightarrow> w_ac w1 = w_ac w \<Longrightarrow> sound (snd (f w1))"
  shows "sound (snd (if_may_use ob c r f w))" and "sound (snd (if_may_change ob c r f w))"
proof -
  obtain ok db where 1: "isPeerAllowedToUseIdentity (w_ac w) c (si_id (this ob w)) (w_db w) = (ok, db)" by force
  obtain own db' where 2: "isPeerOwnerOfIdentity (w_ac w) c (si_id (this ob w)) (w_db w) = (own, db')" by force
  have s: "sound (w\<lparr>w_db := db\<rparr>)" "sound (w\<lparr>w_db := db'\<rparr>)"
    by (rule sound_db [OF assms(1) checks_db(1) [OF 1]], rule sound_db [OF assms(1) checks_db(2) [OF 2]])
  have l: "live ob' (w\<lparr>w_db := d\<rparr>)" for d using assms(2) by (simp add: live_def)
  have f: "sound (snd (f (w\<lparr>w_db := db\<rparr>)))" "sound (snd (f (w\<lparr>w_db := db'\<rparr>)))"
    by (rule assms(3) [OF s(1) l], simp_all, rule assms(3) [OF s(2) l], simp_all)
  show "sound (snd (if_may_use ob c r f w))"
    using s f by (simp add: if_may_use_def Let_def 1 securityErrorReply_def)
  show "sound (snd (if_may_change ob c r f w))"
    using s f by (simp add: if_may_change_def Let_def 2 securityErrorReply_def)
qed

lemma sound_method: "sound w \<Longrightarrow> live ob w \<Longrightarrow> (ready ob w \<Longrightarrow> steady w w') \<Longrightarrow> sound w'"
  using sound_ready sound_steady by blast

lemma sound_objects:
  assumes "sound w" and "live ob w"
  shows "sound (snd (ad_requestCredentialsUpdate ob c msg w))" "sound (snd (ad_getInfo ob c w))"
    "sound (snd (ad_verifyUser ob c params w))" "sound (snd (ad_verifySecret ob c secret w))"
    "sound (snd (ad_signOut ob c w))" "sound (snd (ad_remove ob c w))"
    "sound (snd (ad_addReference ob c r w))" "sound (snd (ad_removeReference ob c r w))"
proof -
  show "sound (snd (ad_requestCredentialsUpdate ob c msg w))" "sound (snd (ad_getInfo ob c w))"
    "sound (snd (ad_verifyUser ob c params w))" "sound (snd (ad_verifySecret ob c secret w))"
    "sound (snd (ad_signOut ob c w))" "sound (snd (ad_remove ob c w))"
    unfolding ad_requestCredentialsUpdate_def ad_getInfo_def ad_verifyUser_def ad_verifySecret_def
      ad_signOut_def ad_remove_def Let_def
    by (rule sound_guards [OF assms], erule sound_method, assumption,
        simp add: steady_query_methods steady_verifySecret steady_change_methods)+
  have r: "sound (snd (case id_addReference ob c r w of (ok, w) \<Rightarrow> ([], if \<not> ok then sendErrorReply c n w else w)))"
    "sound (snd (case id_removeReference ob c r w of (ok, w) \<Rightarrow> ([], if \<not> ok then sendErrorReply c n w else w)))"
    if "sound w" "live ob w" for w n
    using sound_method [OF that steady_change_methods(3)] sound_method [OF that steady_change_methods(4)]
    by (simp_all add: split_def)
  show "sound (snd (ad_addReference ob c r w))" "sound (snd (ad_removeReference ob c r w))"
    unfolding ad_addReference_def ad_removeReference_def Let_def errorReply_eq
    by (rule sound_guards [OF assms], erule (1) r)+
qed

lemma sound_store:
  assumes "sound w" and "live ob w" and "si_id (this ob w) \<noteq> 0 \<longrightarrow> \<not> stored_as_new ob c info w"
  shows "sound (snd (ad_store ob c info w))"
proof -
  have "sound (snd (case id_store ob c info w1 of (n, w) \<Rightarrow> ([VUInt n], w)))"
    if "sound w1" "live ob w1" "w_objects w1 = w_objects w" "w_ac w1 = w_ac w" for w1
  proof -
    have "this ob w1 = this ob w" using that(3) by (simp add: this_def)
    then show ?thesis using store_sound [OF that(1,2), of c info] assms(3) that(4) by (simp add: stored_as_new_def)
  qed
  then show ?thesis
    using sound_guards(2) [OF assms(1,2)] assms by (simp add: ad_store_def Let_def)
qed

lemma sound_createIdentity:
  assumes "sound w" and "createIdentity n w = (ob, w')"
  shows "sound w' \<and> map_of (shape w') ob = Some (n, False) \<and> w_db w' = w_db w \<and> w_opened w' = w_opened w"
proof -
  define w1 where "w1 = w\<lparr>w_objects := w_objects w @ [(w_next w, \<lparr>si_id = n, si_pInfo = None,
      si_watched = False, si_autoDestruct = True, si_lastActivity = 0, si_maxInactivity = w_identityTimeout w\<rparr>)],
    w_next := w_next w + 1\<rparr>"
  have w': "w' = keepInUse (w_next w) w1" "ob = w_next w"
    using assms(2) by (auto simp: createIdentity_def Let_def w1_def)
  have sh: "shape w1 = shape w @ [(w_next w, n, False)]" by (simp add: shape_def w1_def)
  have fresh: "map_of (shape w) (w_next w) = None"
    using assms(1) by (auto simp: sound_def registry_ok_def map_of_eq_None_iff)
  have "registry_ok w1"
    using assms(1) unfolding sound_def registry_ok_def sh
    by (auto simp: w1_def map_add_def split: option.splits)
  then have "sound w1" "w_db w1 = w_db w" "w_opened w1 = w_opened w"
    using assms(1) by (simp_all add: sound_def w1_def)
  then show ?thesis by (simp add: w' sh map_add_def fresh)
qed

lemma sound_watchIdentity:
  assumes "sound w" and "map_of (shape w) ob = Some (n, b)"
  shows "sound (watchIdentity ob w)"
proof -
  define w1 where "w1 = set_this ob (\<lambda>i. i\<lparr>si_watched := True\<rparr>) w"
  have m: "map_of (shape w1) k = (if k = ob then Some (n, True) else map_of (shape w) k)" for k
    using assms(2) by (simp add: w1_def map_of_shape_set_this) (auto simp: map_of_shape)
  then have id: "si_id (this ob w1) = n" using this_shape [of w1 ob n True] by simp
  have w': "watchIdentity ob w = (if n \<noteq> 0 then w1\<lparr>w_stored := qh_insert n ob (w_stored w1)\<rparr> else w1)"
    using id by (simp add: watchIdentity_def w1_def [symmetric] NEW_IDENTITY_def)
  have sh: "shape (watchIdentity ob w) = shape w1" by (simp add: w' shape_def)
  have "map fst (shape w1) = map fst (shape w)" by (simp add: shape_fst w1_def)
  then have "enters ob n (n \<noteq> 0) w (watchIdentity ob w)"
    unfolding enters_def sh by (simp add: m) (simp add: w' w1_def ex_bool_eq)
  then have "registry_ok (watchIdentity ob w)"
    using registry_enters [of w ob n "n \<noteq> 0" "watchIdentity ob w"] assms sh m by (auto simp: sound_def)
  then show ?thesis using assms(1) by (simp add: sound_def w' w1_def)
qed

lemma found_object_sound:
  assumes "sound w" and "n \<noteq> 0" and "found_object n w = (ob, w1)"
  shows "sound w1 \<and> live ob w1 \<and> w_db w1 = w_db w \<and> w_opened w1 = w_opened w"
proof (cases "map_of (w_stored w) n")
  case None
  then have "createIdentity n w = (ob, w1)" using assms(3) by (simp add: found_object_def)
  from sound_createIdentity [OF assms(1) this] show ?thesis by (simp add: live_shape)
next
  case (Some k)
  then have "map_of (shape w) k = Some (n, True)"
    using assms(1,2) by (simp add: sound_def registry_ok_def)
  then have "live k w" by (simp add: live_shape)
  then show ?thesis using assms(1,3) Some by (auto simp: found_object_def live_def)
qed

lemma sound_getIdentity:
  assumes "sound w" and "n \<noteq> 0" and "getIdentity n w = ((r, info), w')"
  shows "sound w'"
proof (cases "w_opened w")
  case False
  then show ?thesis using assms by (auto simp: getIdentity_closed)
next
  case True
  obtain ob w1 where 1: "found_object n (clearLastError w) = (ob, w1)" by force
  obtain ok i w2 where 2: "queryInfo ob False w1 = ((ok, i), w2)" by (metis surj_pair)
  have s1: "sound w1 \<and> live ob w1 \<and> w_db w1 = w_db w"
    using found_object_sound [OF _ assms(2) 1] assms(1) by (simp add: clearLastError_def)
  moreover have "w_db w \<noteq> None" using assms(1) True by (simp add: sound_def registry_ok_def)
  ultimately have s2: "steady w1 w2" using queryInfo_steady [OF 2] by simp
  then have s: "sound w2" "live ob w2" using s1 sound_steady steady_live by blast+
  then obtain m b where "map_of (shape w2) ob = Some (m, b)" by (auto simp: live_shape)
  then have "sound (watchIdentity ob w2)" using sound_watchIdentity [OF s(1)] by simp
  then show ?thesis using assms(3) s(1) by (auto simp: getIdentity_eq [OF True 1 2] split: if_splits)
qed

lemma sound_destroyUnused [simp]: "sound (destroyUnused w) = sound w"
proof -
  have "sound (fold (\<lambda>ob w. if P ob w then destroy ob w else w) xs w) = sound w" for P xs
    by (induction xs arbitrary: w) auto
  then show ?thesis by (simp add: destroyUnused_def Let_def split: option.splits)
qed

lemma sound_deletes: "sound w \<Longrightarrow> sound (deferred_deletes w)"
  by (simp add: sound_def deferred_deletes_registry)

lemma handleLastError_sound: "handleLastError c w = (b, w') \<Longrightarrow> sound w' = sound w"
  by (auto simp: handleLastError_def split: option.splits)

lemma sound_da_getIdentity:
  assumes "sound w" and "n \<noteq> 0"
  shows "sound (snd (da_getIdentity c n w))"
proof -
  obtain ok db where 1: "isPeerAllowedToUseIdentity (w_ac w) c n (w_db w) = (ok, db)" by force
  have s: "sound (w\<lparr>w_db := db\<rparr>)" by (rule sound_db [OF assms(1) checks_db(1) [OF 1]])
  obtain ob info w1 where 2: "getIdentity n (w\<lparr>w_db := db\<rparr>) = ((ob, info), w1)" by (metis surj_pair)
  have "sound (requestAccessToIdentity c n (w\<lparr>w_db := db\<rparr>))"
    using s assms(2)
    by (auto simp: sound_def registry_ok_def requestAccessToIdentity_def shape_def)
  then show ?thesis
    using sound_getIdentity [OF s assms(2) 2]
    by (auto simp: da_getIdentity_def Let_def 1 2 split: option.splits prod.splits dest!: handleLastError_sound)
qed

lemma sound_queries:
  assumes "sound w"
  shows "sound (snd (da_queryIdentities c w))" and "sound (snd (da_clear c w))"
proof -
  have "sound w2" if "queryIdentities w1 = (ms, w2)" "sound w1" for w1 ms w2
    using that by (auto simp: queryIdentities_def Let_def split: if_splits prod.splits
        dest!: on_db_steady sound_steady [rotated])
  then show "sound (snd (da_queryIdentities c w))"
    using assms by (auto simp: da_queryIdentities_def securityErrorReply_def Let_def split: prod.splits
        dest!: handleLastError_sound)
  have "sound w2" if "daemon_clear w1 = (b, w2)" "sound w1" for w1 b w2
    using that by (auto simp: daemon_clear_def Let_def split: if_splits prod.splits
        dest!: on_db_steady sound_steady [rotated])
  moreover have "sound (snd (handleLastError c w1)) = sound w1" for w1
    by (simp add: handleLastError_def split: option.split)
  ultimately show "sound (snd (da_clear c w))"
    using assms by (auto simp: da_clear_def securityErrorReply_def Let_def split: prod.splits)
qed

lemma sound_register:
  assumes "sound w"
  shows "sound (snd (da_registerNewIdentity c w))"
proof -
  obtain ob w1 where 1: "createIdentity NEW_IDENTITY (clearLastError w) = (ob, w1)" by force
  have s: "sound w1" "map_of (shape w1) ob = Some (NEW_IDENTITY, False)"
    using sound_createIdentity [OF _ 1] assms by simp_all
  show ?thesis
    using sound_watchIdentity [OF s] by (simp add: da_registerNewIdentity_def registerNewIdentity_def 1)
qed

lemma sound_adaptor:
  assumes "sound w" and "keeps_ids (ClientCalls c m) w"
    and "\<And>ob. target_object m = Some ob \<Longrightarrow> live ob w"
  shows "sound (snd (adaptor c m w))"
  using assms by (cases m) (simp_all add: sound_objects sound_store sound_da_getIdentity sound_register sound_queries)

lemma client_calls_sound:
  assumes "sound w" and "keeps_ids (ClientCalls c m) w"
  shows "sound (client_calls c m w)"
proof -
  obtain vals w1 where 1: "adaptor c m (w\<lparr>w_delayed := False\<rparr>) = (vals, w1)" by force
  have k: "keeps_ids (ClientCalls c m) (w\<lparr>w_delayed := False\<rparr>)"
    using assms(2) by (cases m) (simp_all add: stored_as_new_def)
  have "sound w1" if "\<And>ob. target_object m = Some ob \<Longrightarrow> live ob w"
    using sound_adaptor [OF _ k] that assms(1) by (simp add: 1 live_def)
  moreover have "target_object m = Some ob \<longrightarrow> live ob w"
    if "\<not> (case target_object m of None \<Rightarrow> False | Some ob \<Rightarrow> map_of (w_objects w) ob = None)" for ob
    using that by (auto simp: live_def)
  ultimately have "\<not> (case target_object m of None \<Rightarrow> False | Some ob \<Rightarrow> map_of (w_objects w) ob = None) \<Longrightarrow> sound w1"
    by blast
  then show ?thesis using assms(1) by (auto simp: client_calls_def 1 intro!: sound_deletes)
qed

lemma slots_sound:
  assumes "sound w"
  shows "sound (queryUiSlot ob c reply w)" "sound (verifyUiSlot ob c reply w)"
    "sound (removeCompleted ob c w)" "sound (signOutCompleted ob c reply w)"
proof -
  have p: "sound (set_this ob (\<lambda>s. s\<lparr>si_pInfo := v\<rparr>) w') = sound w'" for v w'
    using registry_steady [of w' "set_this ob (\<lambda>s. s\<lparr>si_pInfo := v\<rparr>) w'"]
    by (simp add: sound_def registry_ok_def shape_set_this)
  have u: "sound w' \<Longrightarrow> sound (ui_call s ob c e w')" for s e w'
    using sound_steady [of w' "ui_call s ob c e w'"] by simp
  have a: "sound (setAutoDestruct ob b w) = sound w" for b
    by (simp add: setAutoDestruct_def sound_def registry_ok_def shape_set_this)
  have a': "sound (setAutoDestruct ob b w') = sound w'" for b w'
    by (simp add: setAutoDestruct_def sound_def registry_ok_def shape_set_this)
  show "sound (verifyUiSlot ob c reply w)" "sound (removeCompleted ob c w)" "sound (signOutCompleted ob c reply w)"
    using assms by (auto simp: verifyUiSlot_def removeCompleted_def signOutCompleted_def queryUserPassword_def
        Let_def a' p u split: option.splits)
  show "sound (queryUiSlot ob c reply w)"
    using assms by (auto simp: queryUiSlot_def Let_def a' p split: option.splits prod.splits
        dest!: on_db_steady sound_steady [rotated])
qed

lemma accessReply_sound:
  assumes "sound w" and "n \<noteq> 0"
  shows "sound (onIdentityAccessReplyFinished c n b w)"
proof (cases b)
  case False
  then show ?thesis using assms by (simp add: onIdentityAccessReplyFinished_def securityErrorReply_def)
next
  case True
  obtain ok db where 1: "isPeerAllowedToUseIdentity (w_ac w) c n (w_db w) = (ok, db)" by force
  have s: "sound (w\<lparr>w_db := db\<rparr>)" by (rule sound_db [OF assms(1) checks_db(1) [OF 1]])
  obtain ob info w1 where 2: "getIdentity n (w\<lparr>w_db := db\<rparr>) = ((ob, info), w1)" by (metis surj_pair)
  show ?thesis
    using sound_getIdentity [OF s assms(2) 2] s
    by (auto simp: onIdentityAccessReplyFinished_def True Let_def 1 2 securityErrorReply_def
        split: option.splits prod.splits dest!: handleLastError_sound)
qed

lemma happen_sound:
  assumes "sound w" and "keeps_ids h w"
  shows "sound (happen h w)"
proof (cases h)
  case (ClientCalls c m)
  then show ?thesis using client_calls_sound assms by simp
next
  case (UiAnswers k reply)
  then show ?thesis
    using assms(1) by (auto simp: ui_answers_def Let_def intro!: sound_deletes slots_sound
        split: option.split ui_slot.split)
next
  case (AccessDecided k b)
  have "ar_identity r \<noteq> 0" if "map_of (w_requests w) k = Some r" for r
    using assms(1) map_of_SomeD [OF that] by (fastforce simp: sound_def registry_ok_def)
  moreover have "sound (w\<lparr>w_requests := filter (\<lambda>p. fst p \<noteq> k) (w_requests w)\<rparr>)"
    using assms(1) by (auto simp: sound_def registry_ok_def shape_def)
  ultimately show ?thesis
    using assms(1) by (auto simp: AccessDecided access_decided_def Let_def intro!: sound_deletes accessReply_sound
        split: option.split)
qed (use assms in \<open>simp_all add: dispose_timeout_def sound_deletes\<close>)

section \<open>Properties\<close>

fun keep_ids :: "happening list \<Rightarrow> world \<Rightarrow> bool" where
  "keep_ids [] w = True"
| "keep_ids (h # hs) w = (keeps_ids h w \<and> keep_ids hs (happen h w))"

lemma run_sound: "sound w \<Longrightarrow> keep_ids hs w \<Longrightarrow> sound (run hs w)"
  unfolding run_def by (induction hs arbitrary: w) (simp_all add: happen_sound)

text \<open>C12: The daemon follows no invalid pointer as long as clients keep to the ids they were given:
  in every sequence of calls, answers and time-outs in which no object that has an id is stored
  as a new identity, the database pointer, the cached information and the pointers in the
  register of stored identities are valid whenever they are followed, and every entry of the
  register points to a live object with that id.\<close>

theorem pointers_are_valid:
  assumes "sound w" and "keep_ids hs w"
  shows "\<not> w_fault (run hs w)
    \<and> (\<forall>n ob. n \<noteq> 0 \<longrightarrow> map_of (w_stored (run hs w)) n = Some ob
         \<longrightarrow> (\<exists>i. map_of (w_objects (run hs w)) ob = Some i \<and> si_id i = n))"
  using run_sound [OF assms] by (auto simp: sound_def registry_ok_def map_of_shape)

theorem pointers_are_valid_witness:
  "\<not> w_fault (run [ClientCalls (sample_call 1) RegisterNewIdentity,
     ClientCalls (sample_call 2) (Store 0 [(KEY_CAPTION, VString (QStr ''mail''))]), DisposeTimeout] sample_world)"
proof -
  have "sound sample_world"
    by (simp add: sound_def registry_ok_def sample_world_def shape_def)
  moreover have "si_id (this 0 (happen (ClientCalls (sample_call 1) RegisterNewIdentity) sample_world)) = 0"
    by (simp add: client_calls_def da_registerNewIdentity_def registerNewIdentity_def createIdentity_def
        clearLastError_def sample_world_def watchIdentity_def Let_def keepInUse_def set_this_def this_def
        destroyUnused_def disposable_def unused_def NEW_IDENTITY_def deferred_deletes_def out_def)
  ultimately show ?thesis
    using pointers_are_valid [of sample_world "[ClientCalls (sample_call 1) RegisterNewIdentity,
     ClientCalls (sample_call 2) (Store 0 [(KEY_CAPTION, VString (QStr ''mail''))]), DisposeTimeout]"]
    by simp
qed

end
