(* ===== verification/Identity_Findings.thy ===== *)
theory Identity_Findings
  imports Identity_Memory
begin

text \<open>
  What clients can do that the daemon does not mean to allow: storing over an identity they have
  no right to, and leaving a pointer to a deleted object in the register.
\<close>

section \<open>Overwriting another identity\<close>

definition client :: "string \<Rightarrow> nat \<Rightarrow> dbus_call" where
  "client who n = \<lparr>dc_connection = 0, dc_service = QStr who, dc_serial = n\<rparr>"

lemma cd_updateCredentials_meta:
  assumes "sq_io (cd_meta db) = []" and "sq_saved (cd_meta db) = None" and "meta_ok (sq_data (cd_meta db))"
    and "target_ok info (sq_data (cd_meta db))"
  shows "sq_data (cd_meta (snd (cd_updateCredentials info db))) =
    updated (target info (sq_data (cd_meta db))) info (sq_data (cd_meta db))"
proof -
  have "meta_updateIdentity info (clearError (cd_meta db)) = (target info (sq_data (cd_meta db)),
      (clearError (cd_meta db))\<lparr>sq_data := updated (target info (sq_data (cd_meta db))) info (sq_data (cd_meta db)),
        sq_error := NoError\<rparr>)"
    using updateIdentity_good [of "clearError (cd_meta db)" info] assms by (simp add: clearError_def)
  then show ?thesis
    by (auto simp: cd_updateCredentials_def monitored_def on_meta_def on_secrets_def init_error_def
        collect_error_def Let_def split_def)
qed

lemma emit_updated_db [simp]: "w_db (emit_updated ns w) = w_db w"
proof -
  have 1: "w_db (onCredentialsUpdated n ob w) = w_db w" for n ob w
    by (simp add: onCredentialsUpdated_def)
  have 2: "w_db (fold (onCredentialsUpdated n) obs w) = w_db w" for n obs w
    by (induction obs arbitrary: w) (simp_all add: 1)
  show ?thesis
    unfolding emit_updated_def by (induction ns arbitrary: w) (simp_all add: 2)
qed

text \<open>The bug: the owner check of \<open>store\<close> looks at the id of the object, but what is stored is the id
  in the client's map.\<close>

lemma store_of_foreign_id:
  assumes "w_opened w" and "live ob w" and "si_id (this ob w) = 0" and "si_pInfo (this ob w) = None"
    and "w_db w = Some db" and "i = info_to_store info (appIdOfPeer (w_ac w) c) None" and "\<not> isNew i"
  shows "\<exists>w1. id_store ob c info w = (0, sendErrorReply c ERR_STORE_FAILED w1)
    \<and> w_db w1 = Some (snd (cd_updateCredentials i db))"
proof -
  define w1 where "w1 = set_this ob (\<lambda>s. s\<lparr>si_pInfo := Some i\<rparr>) (keepInUse ob w)"
  define w2 where "w2 = snd (on_db (cd_updateCredentials i) 0 w1)"
  have s: "steady w w1" by (simp add: w1_def)
  then have "live ob w1" using steady_live [of w w1 ob] assms(2) by simp
  have "w_db w1 = Some db" by (simp add: w1_def assms(5))
  have "shape w1 = shape w" using s by (simp add: steady_def)
  from \<open>w_db w1 = Some db\<close> have w2: "steady w1 w2" "w_db w2 = Some (snd (cd_updateCredentials i db))"
    using on_db_steady [of "cd_updateCredentials i" 0 w1 "fst (on_db (cd_updateCredentials i) 0 w1)" w2]
    by (simp_all add: w2_def on_db_def split_def Let_def)
  obtain b where "map_of (shape w) ob = Some (0, b)"
    using assms(2,3) by (auto simp: live_def map_of_shape this_def)
  then have m: "map_of (shape w2) ob = Some (0, b)"
    using w2(1) \<open>shape w1 = shape w\<close> by (simp add: steady_def)
  define w3 where "w3 = (if db_errorOccurred w2 then w2 else noted ob w2)"
  have "enters ob 0 False w2 w2" using m by (simp add: enters_refl)
  then have id3: "si_id (this ob w3) = 0"
    using this_shape [OF m] noted_enters [OF _ m, of w2] this_shape [of w3 ob 0 b] by (auto simp: w3_def)
  have st: "storeCredentials ob i w1 = (0, w3)"
    using id3 \<open>w_db w1 = Some db\<close> assms(7)
    by (auto simp: storeCredentials_eq written_def Let_def w2_def [symmetric] w3_def split: if_splits)
  have "w_db w3 = w_db w2" by (simp add: w3_def noted_def onIdentityStored_def Let_def)
  moreover have "storeCredentials ob i (set_this ob (\<lambda>s. s\<lparr>si_pInfo := Some i\<rparr>) (keepInUse ob w)) = (0, w3)"
    using st by (simp add: w1_def)
  then have "id_store ob c info w = (0, sendErrorReply c ERR_STORE_FAILED (set_this ob (\<lambda>s. s\<lparr>si_id := 0\<rparr>) w3))"
    by (simp add: id_store_def need_cam_def assms(1,4) keepInUse_pInfo NEW_IDENTITY_def Let_def flip: assms(6))
  ultimately show ?thesis
    using w2(2) by (intro exI [of _ "set_this ob (\<lambda>s. s\<lparr>si_id := 0\<rparr>) w3"]) simp
qed

lemma deferred_deletes_db [simp]: "w_db (deferred_deletes w) = w_db w"
proof -
  have "w_db (fold delete_object obs w) = w_db w" for obs
    by (induction obs arbitrary: w) simp_all
  then show ?thesis by (simp add: deferred_deletes_def)
qed

lemma no_owner_check:
  assumes "sq_io (cd_meta db) = []" and "sel_owner_tokens 0 (sq_data (cd_meta db)) = []"
  shows "\<exists>db1. isPeerOwnerOfIdentity ac c 0 (Some db) = (IdentityDoesNotHaveOwner, Some db1)
    \<and> sq_data (cd_meta db1) = sq_data (cd_meta db) \<and> sq_io (cd_meta db1) = []
    \<and> sq_saved (cd_meta db1) = sq_saved (cd_meta db)"
proof -
  have "sq_saved (cd_meta (snd (monitored (on_meta (queryList q)) db))) = sq_saved (cd_meta db)" for q :: "meta_data \<Rightarrow> qstring list"
    using assms(1) by (simp add: monitored_def on_meta_def init_error_def clearError_def sql_simps collect_error_def)
  then show ?thesis
    using monitored_query_good [OF assms(1), of "sel_owner_tokens 0"] assms(2)
    by (auto simp: isPeerOwnerOfIdentity_def list_queries) (metis snd_conv)
qed

lemma store_adaptor_foreign:
  assumes "w_opened w" and "live ob w" and "si_id (this ob w) = 0" and "si_pInfo (this ob w) = None"
    and "w_db w = Some db" and "i = info_to_store info (appIdOfPeer (w_ac w) c) None" and "\<not> isNew i"
    and "sq_io (cd_meta db) = []" and "sel_owner_tokens 0 (sq_data (cd_meta db)) = []"
  shows "\<exists>w1 db1. ad_store ob c info w = ([VUInt 0], sendErrorReply c ERR_STORE_FAILED w1)
    \<and> w_db w1 = Some (snd (cd_updateCredentials i db1)) \<and> sq_data (cd_meta db1) = sq_data (cd_meta db)
    \<and> sq_io (cd_meta db1) = [] \<and> sq_saved (cd_meta db1) = sq_saved (cd_meta db)"
proof -
  obtain db1 where 1: "isPeerOwnerOfIdentity (w_ac w) c 0 (Some db) = (IdentityDoesNotHaveOwner, Some db1)"
      "sq_data (cd_meta db1) = sq_data (cd_meta db)" "sq_io (cd_meta db1) = []"
      "sq_saved (cd_meta db1) = sq_saved (cd_meta db)"
    using no_owner_check [OF assms(8,9)] by blast
  have a: "\<exists>w1. id_store ob c info (w\<lparr>w_db := Some d\<rparr>) = (0, sendErrorReply c ERR_STORE_FAILED w1)
      \<and> w_db w1 = Some (snd (cd_updateCredentials i d))" for d
    using store_of_foreign_id [of "w\<lparr>w_db := Some d\<rparr>" ob d i info c] assms by (simp add: live_def)
  have w: "w\<lparr>w_db := Some db\<rparr> = w" using assms(5) by (cases w) simp
  show ?thesis
    using a [of db1] a [of db] 1 assms(3,5,8)
    by (auto simp: ad_store_def if_may_change_def Let_def w)
qed

text \<open>C14: The owner check of \<open>store\<close> can be bypassed. A peer that has just registered a new identity object
  and stores through it a map whose id is that of an existing identity, whoever owns that
  identity and whatever its access control list and the access control manager say, replaces
  it: afterwards the database holds exactly what the peer sent, with the peer as an owner, and
  the peer is told that storing failed. Only the absence of an owner of the identity 0 is used.\<close>

theorem foreign_identity_is_overwritten:
  assumes "settled w" and "live ob w" and "si_id (this ob w) = 0" and "si_pInfo (this ob w) = None"
    and "w_db w = Some db" and "sq_io (cd_meta db) = []" and "sq_saved (cd_meta db) = None"
    and "meta_ok (sq_data (cd_meta db))" and "sel_owner_tokens 0 (sq_data (cd_meta db)) = []"
    and "i = info_to_store info (appIdOfPeer (w_ac w) c) None"
    and "info_id i \<noteq> 0" and "info_id i \<in> set (cred_ids (sq_data (cd_meta db)))"
  shows "\<exists>db'. w_db (happen (ClientCalls c (Store ob info)) w) = Some db'
    \<and> view_of (sq_data (cd_meta db')) (info_id i) = Some (info_view i)
    \<and> last (w_out (happen (ClientCalls c (Store ob info)) w)) = ErrorReply c ERR_STORE_FAILED"
proof -
  have new: "\<not> isNew i" using assms(11) by (simp add: isNew_def NEW_IDENTITY_def)
  obtain w1 db1 where 1: "ad_store ob c info (w\<lparr>w_delayed := False\<rparr>) = ([VUInt 0], sendErrorReply c ERR_STORE_FAILED w1)"
      "w_db w1 = Some (snd (cd_updateCredentials i db1))" "sq_data (cd_meta db1) = sq_data (cd_meta db)"
      "sq_io (cd_meta db1) = []" "sq_saved (cd_meta db1) = None"
    using store_adaptor_foreign [of "w\<lparr>w_delayed := False\<rparr>" ob db i info c] assms new
    by (auto simp: settled_def live_def)
  have t: "target_ok i (sq_data (cd_meta db1))" "target i (sq_data (cd_meta db1)) = info_id i"
    using assms(12) new 1(3) by (simp_all add: target_ok_def target_def)
  have "view_of (sq_data (cd_meta (snd (cd_updateCredentials i db1)))) (info_id i) = Some (info_view i)"
    using cd_updateCredentials_meta [OF 1(4,5) _ t(1)] view_updated [of "sq_data (cd_meta db)" i] assms(8) t 1(3)
    by simp
  moreover have "map_of (w_objects w) ob \<noteq> None" using assms(2) by (simp add: live_def)
  ultimately show ?thesis
    using 1(1,2) by (auto simp: client_calls_def deferred_deletes_frame)
qed

text \<open>A database with one identity, owned by alice.\<close>

definition victim_data :: meta_data where
  "victim_data = (sq_data sample_db)\<lparr>md_cred_seq := 1,
     md_credentials := [\<lparr>cr_id = 1, cr_caption = QStr ''mail'', cr_username = QNull, cr_flags = 2, cr_type = 0\<rparr>],
     md_tokens := \<lparr>nt_seq = 1, nt_rows = [(1, QStr ''alice'')]\<rparr>, md_owner := [(1, Some 1)]\<rparr>"

definition victim_db :: credentials_db where
  "victim_db = (sample_cd True)\<lparr>cd_meta := sample_db\<lparr>sq_data := victim_data\<rparr>\<rparr>"

definition intruder_world :: world where
  "intruder_world = strict_world\<lparr>w_db := Some victim_db, w_objects := [(0, dummy_identity)]\<rparr>"

theorem foreign_identity_is_overwritten_witness:
  "\<exists>db'. w_db (happen (ClientCalls (client ''mallory'' 1) (Store 0 [(KEY_ID, VUInt 1)])) intruder_world) = Some db'
    \<and> view_of (sq_data (cd_meta db')) 1 =
        Some (info_view (info_to_store [(KEY_ID, VUInt 1)] (QStr ''mallory'') None))"
proof -
  let ?i = "info_to_store [(KEY_ID, VUInt 1)] (QStr ''mallory'') None"
  have "md_realms (sq_data sample_db) = []" "md_acl (sq_data sample_db) = []" "md_refs (sq_data sample_db) = []"
    by (simp_all add: sample_db_def empty_meta_def)
  then have m: "meta_ok (sq_data (cd_meta victim_db))"
    using sample_db_ok(1) by (simp add: victim_db_def victim_data_def meta_ok_def schema_ok_def creds_ok_def
        cred_ids_def nt_ok_def nt_ids_def rows_ok_def refers_def)
  have o: "sel_owner_tokens 0 (sq_data (cd_meta victim_db)) = []" "1 \<in> set (cred_ids (sq_data (cd_meta victim_db)))"
    by (simp_all add: victim_db_def victim_data_def sel_owner_tokens_def cred_ids_def)
  have i: "info_id ?i = 1"
    by (simp add: info_to_store_def SignonIdentityInfo_def info_id_def info_set_defs Let_def qm_value_def)
  have "settled intruder_world" "live 0 intruder_world" "si_id (this 0 intruder_world) = 0"
    "si_pInfo (this 0 intruder_world) = None" "w_db intruder_world = Some victim_db"
    "appIdOfPeer (w_ac intruder_world) (client ''mallory'' 1) = QStr ''mallory''"
    by (simp_all add: settled_def live_def this_def intruder_world_def strict_world_def sample_world_def
        dummy_identity_def appIdOfPeer_def client_def)
  moreover have "sq_io (cd_meta victim_db) = []" "sq_saved (cd_meta victim_db) = None"
    using sample_db_ok by (simp_all add: victim_db_def)
  ultimately show ?thesis
    using foreign_identity_is_overwritten [of intruder_world 0 victim_db ?i "[(KEY_ID, VUInt 1)]" "client ''mallory'' 1"]
      m o i by auto
qed

section \<open>A pointer to a deleted object\<close>

text \<open>A client that stores the same object twice without an id leaves a pointer to freed memory in
  the register. In this run a peer registers an identity object and stores it twice without
  naming an id; the object moves on to the second identity, the register keeps it under the
  first one too; when the object has been unused for its time and is deleted, the entry for the
  first identity stays, and the next \<open>getIdentity\<close> for it follows the pointer.\<close>

definition mail :: qvariant_map where
  "mail = [(KEY_CAPTION, VString (QStr ''mail'')), (KEY_SECRET, VString (QStr ''pw'')), (KEY_STORESECRET, VBool True)]"

theorem storing_twice_leaves_a_dangling_pointer:
  "w_fault (run [ClientCalls (client ''alice'' 1) RegisterNewIdentity, ClientCalls (client ''alice'' 2) (Store 0 mail),
     ClientCalls (client ''alice'' 3) (Store 0 mail), ClockTick (Some 1000), DisposeTimeout,
     ClientCalls (client ''alice'' 4) (GetIdentity 1)] strict_world)"
  by code_simp

end
