(* ===== verification/Blob_Io.thy ===== *)
theory Blob_Io
  imports Secrets_Db
begin

text \<open>
  \<open>BlobIOHandler\<close> (src/lib/plugins/signon-plugins-common/SignOn/blobiohandler.cpp): how variant
  maps travel between the daemon and a plugin process, as a size and a sequence of pages on a
  pipe; and the parts of \<open>QDataStream\<close> the two sides use. How \<open>QDataStream\<close> writes a whole
  variant map is a parameter.
\<close>

section \<open>QDataStream\<close>

text \<open>Numbers are big-endian. A number that ends early reads as 0 and takes what there is; an array
  that ends early reads as an empty one. A null array has the length \<open>0xffffffff\<close>.\<close>

definition put_u32 :: "nat \<Rightarrow> bytes" where
  "put_u32 n = [of_nat (n div 16777216), of_nat (n div 65536), of_nat (n div 256), of_nat n]"

fun get_u32 :: "bytes \<Rightarrow> nat \<times> bytes" where
  "get_u32 (a # b # c # d # bs) = (16777216 * unat a + 65536 * unat b + 256 * unat c + unat d, bs)"
| "get_u32 _ = (0, [])"

definition get_i32 :: "bytes \<Rightarrow> int \<times> bytes" where
  "get_i32 bs = (let (n, bs) = get_u32 bs in (to_int (int n), bs))"

definition put_ba :: "bytes \<Rightarrow> bytes" where
  "put_ba ba = put_u32 (length ba) @ ba"

definition get_ba :: "bytes \<Rightarrow> bytes \<times> bytes" where
  "get_ba bs =
     (let (n, bs) = get_u32 bs in
      if n = 4294967295 then ([], bs)
      else if length bs < n then ([], [])
      else (take n bs, drop n bs))"

text \<open>Strings are arrays of UTF-16 code units.\<close>

definition put_qstring :: "qstring \<Rightarrow> bytes" where
  "put_qstring s =
     (case s of
        QNull \<Rightarrow> put_u32 4294967295
      | QStr cs \<Rightarrow> put_ba (concat (map (\<lambda>c. [0, of_char c]) cs)))"

fun utf16_chars :: "bytes \<Rightarrow> string" where
  "utf16_chars (_ # b # bs) = char_of (unat b) # utf16_chars bs"
| "utf16_chars _ = []"

definition get_qstring :: "bytes \<Rightarrow> qstring \<times> bytes" where
  "get_qstring bs =
     (let (n, bs') = get_u32 bs in
      if n = 4294967295 then (QNull, bs')
      else let (ba, bs) = get_ba bs in (QStr (utf16_chars ba), bs))"

lemma length_put_u32 [simp]: "length (put_u32 n) = 4"
  by (simp add: put_u32_def)

lemma get_put_u32 [simp]:
  assumes "n < 4294967296"
  shows "get_u32 (put_u32 n @ bs) = (n, bs)"
proof -
  have 1: "n div 16777216 mod 256 = n div 16777216" using assms by (simp add: div_less_iff_less_mult)
  have 2: "n = 256 * (n div 256) + n mod 256" "n div 256 = 256 * (n div 256 div 256) + n div 256 mod 256"
    "n div 65536 = 256 * (n div 65536 div 256) + n div 65536 mod 256"
    by (rule mult_div_mod_eq [symmetric])+
  have 3: "n div 256 div 256 = n div 65536" "n div 65536 div 256 = n div 16777216"
    by (simp_all add: div_mult2_eq [symmetric])
  have "16777216 * (n div 16777216) + 65536 * (n div 65536 mod 256) + 256 * (n div 256 mod 256) + n mod 256 = n"
    using 2 unfolding 3 by linarith
  then show ?thesis by (simp add: put_u32_def unat_of_nat 1)
qed

lemma get_u32_length: "get_u32 bs = (n, bs') \<Longrightarrow> length bs' \<le> length bs - 4"
  by (cases bs rule: get_u32.cases) auto

lemma get_i32_length: "get_i32 bs = (n, bs') \<Longrightarrow> length bs' \<le> length bs - 4"
  by (auto simp: get_i32_def split: prod.splits dest: get_u32_length)

lemma get_ba_length: "get_ba bs = (ba, bs') \<Longrightarrow> length bs' \<le> length bs - 4"
  by (auto simp: get_ba_def Let_def split: prod.splits if_splits dest!: get_u32_length)

lemma get_put_i32 [simp]: "n < 2147483648 \<Longrightarrow> get_i32 (put_u32 n @ bs) = (int n, bs)"
  by (simp add: get_i32_def to_int_small)

lemma get_put_ba [simp]: "length ba < 4294967295 \<Longrightarrow> get_ba (put_ba ba @ bs) = (ba, bs)"
  by (simp add: put_ba_def get_ba_def)

lemma unat_of_char [simp]: "unat (of_char c :: 8 word) = of_char c"
proof -
  have "(of_char c :: 8 word) = of_nat (of_char c)" by (rule of_nat_of_char [symmetric])
  moreover have "(of_char c :: nat) < 256" by simp
  ultimately show ?thesis by (simp only: unat_of_nat) simp
qed

lemma utf16_roundtrip: "utf16_chars (concat (map (\<lambda>c. [0, of_char c]) cs)) = cs"
  by (induction cs) (simp_all add: char_of_eq_iff)

lemma get_put_qstring [simp]:
  assumes "length (chars s) < 2147483647"
  shows "get_qstring (put_qstring s @ bs) = (s, bs)"
proof (cases s)
  case QNull
  then show ?thesis by (simp add: put_qstring_def get_qstring_def)
next
  case (QStr cs)
  let ?ba = "concat (map (\<lambda>c. [0, of_char c]) cs) :: bytes"
  have "length ?ba = 2 * length cs" by (induction cs) simp_all
  then have l: "length ?ba < 4294967295" using assms QStr by simp
  have "get_u32 (put_ba ?ba @ bs) = (length ?ba, ?ba @ bs)"
    using l by (simp add: put_ba_def)
  then show ?thesis
    using l by (simp add: QStr put_qstring_def get_qstring_def utf16_roundtrip del: length_concat)
qed

section \<open>Sending\<close>

definition SIGNON_IPC_BUFFER_PAGE_SIZE :: nat where "SIGNON_IPC_BUFFER_PAGE_SIZE = 16384"

text \<open>\<open>QDBusArgument\<close> values have no serialisation: those that hold an \<open>a{sv}\<close> map are replaced by
  the map, through all its levels, the others are skipped.\<close>

fun expandDBusArgumentValue :: "qvariant \<Rightarrow> bool \<times> qvariant_map"
and expand_entries :: "(string \<times> qvariant) list \<Rightarrow> bool \<times> qvariant_map" where
  "expandDBusArgumentValue (VDBus (DVariantMap converted)) = expand_entries converted"
| "expandDBusArgumentValue _ = (False, [])"
| "expand_entries [] = (True, [])"
| "expand_entries ((k, v) # xs) =
     (case v of
        VDBus _ \<Rightarrow>
          let (success, convertedValue) = expandDBusArgumentValue v in
          if \<not> success then (False, [])
          else let (success, m) = expand_entries xs in
            if success then (True, qm_insert k (VMap convertedValue) m) else (False, [])
      | _ \<Rightarrow> let (success, m) = expand_entries xs in
            if success then (True, qm_insert k v m) else (False, []))"

definition filterOutComplexTypes :: "qvariant_map \<Rightarrow> qvariant_map" where
  "filterOutComplexTypes m =
     fold (\<lambda>(k, v) filteredMap.
         case v of
           VDBus _ \<Rightarrow> let (success, convertedMap) = expandDBusArgumentValue v
                      in if success then qm_insert k (VMap convertedMap) filteredMap else filteredMap
         | _ \<Rightarrow> qm_insert k v filteredMap) m []"

function pageByteArray :: "bytes \<Rightarrow> bytes list" where
  "pageByteArray ba =
     (if ba = [] then []
      else take SIGNON_IPC_BUFFER_PAGE_SIZE ba # pageByteArray (drop SIGNON_IPC_BUFFER_PAGE_SIZE ba))"
  by auto
termination
  by (relation "measure length") (auto simp: SIGNON_IPC_BUFFER_PAGE_SIZE_def)

declare pageByteArray.simps [simp del]

definition variantMapToByteArray :: "(qvariant_map \<Rightarrow> bytes) \<Rightarrow> qvariant_map \<Rightarrow> bytes" where
  "variantMapToByteArray ser m = ser (filterOutComplexTypes m)"

definition sendData :: "(qvariant_map \<Rightarrow> bytes) \<Rightarrow> qvariant_map \<Rightarrow> bytes" where
  "sendData ser m =
     (let ba = variantMapToByteArray ser m
      in put_u32 (length ba) @ concat (map put_ba (pageByteArray ba)))"

section \<open>Receiving\<close>

record blob_io =
  bi_buffer :: bytes
  bi_size :: int
  bi_isReading :: bool

datatype blob_signal = NoSignal | DataReceived qvariant_map | BlobError

definition setReadNotificationEnabled :: "bool \<Rightarrow> blob_io \<Rightarrow> blob_io" where
  "setReadNotificationEnabled enabled io = io\<lparr>bi_isReading := enabled\<rparr>"

text \<open>The functions that read get the bytes available on the channel and return what they leave.\<close>

definition readBlob :: "(bytes \<Rightarrow> qvariant_map) \<Rightarrow> blob_io \<Rightarrow> bytes \<Rightarrow> blob_signal \<times> blob_io \<times> bytes" where
  "readBlob deser io bs =
     (let (fractionBa, bs) = get_ba bs;
          io = io\<lparr>bi_buffer := bi_buffer io @ fractionBa\<rparr>
      in if fractionBa = [] \<and> int (length (bi_buffer io)) < bi_size io
         then (BlobError, setReadNotificationEnabled False io, bs)
         else if int (length (bi_buffer io)) = bi_size io
         then (DataReceived (deser (bi_buffer io)),
               if bi_size io > int SIGNON_IPC_BUFFER_PAGE_SIZE then setReadNotificationEnabled False io else io, bs)
         else (NoSignal, io, bs))"

definition receiveData ::
    "(bytes \<Rightarrow> qvariant_map) \<Rightarrow> int \<Rightarrow> blob_io \<Rightarrow> bytes \<Rightarrow> blob_signal \<times> blob_io \<times> bytes" where
  "receiveData deser expectedDataSize io bs =
     (let io = io\<lparr>bi_buffer := [], bi_size := expectedDataSize\<rparr>;
          io = (if bi_size io > int SIGNON_IPC_BUFFER_PAGE_SIZE then setReadNotificationEnabled True io else io)
      in readBlob deser io bs)"

lemma readBlob_length: "readBlob deser io bs = (s, io', bs') \<Longrightarrow> length bs' \<le> length bs - 4"
  by (auto simp: readBlob_def Let_def split: prod.splits if_splits dest: get_ba_length)

lemma receiveData_length: "receiveData deser n io bs = (s, io', bs') \<Longrightarrow> length bs' \<le> length bs - 4"
  by (auto simp: receiveData_def Let_def dest: readBlob_length)

section \<open>Pages\<close>

lemma pageByteArray_Nil [simp]: "pageByteArray [] = []"
  by (subst pageByteArray.simps) simp

lemma pageByteArray_step:
  "ba \<noteq> [] \<Longrightarrow> pageByteArray ba =
     take SIGNON_IPC_BUFFER_PAGE_SIZE ba # pageByteArray (drop SIGNON_IPC_BUFFER_PAGE_SIZE ba)"
  by (subst pageByteArray.simps) simp

lemma pages_concat [simp]: "concat (pageByteArray ba) = ba"
  by (induction ba rule: pageByteArray.induct) (subst pageByteArray.simps, simp)

lemma pages_bounds:
  "p \<in> set (pageByteArray ba) \<Longrightarrow> 0 < length p \<and> length p \<le> SIGNON_IPC_BUFFER_PAGE_SIZE"
proof (induction ba rule: pageByteArray.induct)
  case (1 ba)
  then show ?case
    by (cases "ba = []") (auto simp: pageByteArray_step SIGNON_IPC_BUFFER_PAGE_SIZE_def)
qed

lemma pages_length:
  "length (pageByteArray ba) * SIGNON_IPC_BUFFER_PAGE_SIZE < length ba + SIGNON_IPC_BUFFER_PAGE_SIZE"
proof (induction ba rule: pageByteArray.induct)
  case (1 ba)
  show ?case
  proof (cases "ba = []")
    case True
    then show ?thesis by (simp add: SIGNON_IPC_BUFFER_PAGE_SIZE_def)
  next
    case False
    with 1 show ?thesis
      by (cases "length ba < SIGNON_IPC_BUFFER_PAGE_SIZE")
         (auto simp: pageByteArray_step SIGNON_IPC_BUFFER_PAGE_SIZE_def)
  qed
qed

section \<open>A whole blob\<close>

text \<open>Every activation of the reading slot finds the bytes the earlier ones left and the ones that
  have arrived since.\<close>

fun readBlobs ::
    "(bytes \<Rightarrow> qvariant_map) \<Rightarrow> bytes list \<Rightarrow> blob_io \<Rightarrow> bytes \<Rightarrow> blob_signal \<times> blob_io \<times> bytes" where
  "readBlobs deser [] io bs = (NoSignal, io, bs)"
| "readBlobs deser (arrived # later) io bs =
     (case readBlob deser io (bs @ arrived) of
        (NoSignal, io, bs) \<Rightarrow> readBlobs deser later io bs
      | r \<Rightarrow> r)"

lemma readBlob_page:
  assumes "ba \<noteq> []" and "bi_buffer io @ ba = all" and "bi_size io = int (length all)"
  shows "readBlob deser io (concat (map put_ba (pageByteArray ba)) @ rest) =
    (if drop SIGNON_IPC_BUFFER_PAGE_SIZE ba = []
     then (DataReceived (deser all),
           (if bi_size io > int SIGNON_IPC_BUFFER_PAGE_SIZE then setReadNotificationEnabled False else id)
             (io\<lparr>bi_buffer := all\<rparr>), rest)
     else (NoSignal, io\<lparr>bi_buffer := bi_buffer io @ take SIGNON_IPC_BUFFER_PAGE_SIZE ba\<rparr>,
           concat (map put_ba (pageByteArray (drop SIGNON_IPC_BUFFER_PAGE_SIZE ba))) @ rest))"
proof -
  let ?N = SIGNON_IPC_BUFFER_PAGE_SIZE
  have N: "0 < ?N" "length (take ?N ba) < 4294967295" by (simp_all add: SIGNON_IPC_BUFFER_PAGE_SIZE_def)
  then have ne: "take ?N ba \<noteq> []" using assms(1) by simp
  have 1: "get_ba (concat (map put_ba (pageByteArray ba)) @ rest) =
      (take ?N ba, concat (map put_ba (pageByteArray (drop ?N ba))) @ rest)"
    using N(2) by (simp add: pageByteArray_step [OF assms(1)] del: drop_eq_Nil)
  have 2: "bi_buffer io @ take ?N ba = all \<longleftrightarrow> drop ?N ba = []"
    using assms(2) by (metis append_Nil2 append_take_drop_id same_append_eq append_assoc append_self_conv)
  have 3: "length all = length (bi_buffer io) + length (take ?N ba) + length (drop ?N ba)"
    using assms(2) by auto
  show ?thesis
    using ne 2 3 assms(3) by (auto simp: readBlob_def 1 Let_def split: if_splits)
qed

lemma readBlobs_pages:
  assumes "ba \<noteq> []" and "bi_buffer io @ ba = all" and "bi_size io = int (length all)"
    and "length (pageByteArray ba) \<le> n"
  shows "\<exists>io'. readBlobs deser (replicate n []) io (concat (map put_ba (pageByteArray ba)) @ rest) =
      (DataReceived (deser all), io', rest)
    \<and> bi_isReading io' = (bi_isReading io \<and> \<not> bi_size io > int SIGNON_IPC_BUFFER_PAGE_SIZE)"
  using assms
proof (induction n arbitrary: ba io)
  case 0
  then show ?case by (simp add: pageByteArray_step)
next
  case (Suc n)
  let ?N = SIGNON_IPC_BUFFER_PAGE_SIZE
  show ?case
  proof (cases "drop ?N ba = []")
    case True
    then show ?thesis
      using Suc.prems(3) by (simp add: readBlob_page [OF Suc.prems(1-3)] setReadNotificationEnabled_def)
  next
    case False
    have "length (pageByteArray (drop ?N ba)) \<le> n"
      using Suc.prems(1,4) by (simp add: pageByteArray_step)
    moreover have "(bi_buffer io @ take ?N ba) @ drop ?N ba = all"
      using Suc.prems(2) by simp
    ultimately show ?thesis
      using Suc.IH [of "drop ?N ba" "io\<lparr>bi_buffer := bi_buffer io @ take ?N ba\<rparr>"] False Suc.prems(3)
      by (simp add: readBlob_page [OF Suc.prems(1-3)] del: drop_eq_Nil append_assoc)
  qed
qed

text \<open>Without arrivals the activations find one page after the other; what \<open>receiveData\<close> reads is the
  first of them.\<close>

definition receive_all ::
    "(bytes \<Rightarrow> qvariant_map) \<Rightarrow> bytes list \<Rightarrow> blob_io \<Rightarrow> bytes \<Rightarrow> blob_signal \<times> blob_io \<times> bytes" where
  "receive_all deser activations io bs =
     (let (n, bs) = get_i32 bs in
      case receiveData deser n io bs of
        (NoSignal, io, bs) \<Rightarrow> readBlobs deser activations io bs
      | r \<Rightarrow> r)"

lemma receive_all_eq:
  "receive_all deser activations io (put_u32 n @ bs) =
     readBlobs deser ([] # activations)
       (if n > SIGNON_IPC_BUFFER_PAGE_SIZE then setReadNotificationEnabled True (io\<lparr>bi_buffer := [], bi_size := int n\<rparr>)
        else io\<lparr>bi_buffer := [], bi_size := int n\<rparr>) bs" if "n < 2147483648"
  using that by (simp add: receive_all_def receiveData_def Let_def)

text \<open>Reading comes to an end.\<close>

lemma readBlob_grows:
  assumes "readBlob deser io bs = (NoSignal, io', bs')" and "int (length (bi_buffer io)) < bi_size io"
  shows "length (bi_buffer io) < length (bi_buffer io')" and "bi_size io' = bi_size io"
  using assms by (auto simp: readBlob_def Let_def split: prod.splits if_splits)

lemma readBlob_full:
  assumes "readBlob deser io bs = (NoSignal, io', bs')" and "bi_size io < int (length (bi_buffer io))"
  shows "bi_size io' < int (length (bi_buffer io'))"
  using assms by (auto simp: readBlob_def Let_def split: prod.splits if_splits)

lemma readBlobs_full:
  "readBlobs deser activations io bs = (NoSignal, io', bs') \<Longrightarrow> bi_size io < int (length (bi_buffer io)) \<Longrightarrow>
     bi_size io' < int (length (bi_buffer io'))"
  by (induction deser activations io bs rule: readBlobs.induct)
     (auto split: prod.splits blob_signal.splits dest: readBlob_full)

lemma readBlob_not_equal:
  "readBlob deser io bs = (NoSignal, io', bs') \<Longrightarrow> int (length (bi_buffer io')) \<noteq> bi_size io'"
  by (auto simp: readBlob_def Let_def split: prod.splits if_splits)

lemma readBlobs_size: "readBlobs deser activations io bs = (s, io', bs') \<Longrightarrow> bi_size io' = bi_size io"
  by (induction deser activations io bs rule: readBlobs.induct)
     (auto simp: readBlob_def setReadNotificationEnabled_def Let_def split: prod.splits blob_signal.splits if_splits)

lemma readBlobs_end:
  assumes "readBlobs deser activations io bs = (NoSignal, io', bs')"
    and "int (length (bi_buffer io)) < bi_size io"
    and "bi_size io < int (length activations) + int (length (bi_buffer io)) + 1"
  shows "bi_size io' < int (length (bi_buffer io'))"
  using assms
proof (induction deser activations io bs rule: readBlobs.induct)
  case (2 deser arrived later io bs)
  obtain io1 bs1 where r: "readBlob deser io (bs @ arrived) = (NoSignal, io1, bs1)"
    and 3: "readBlobs deser later io1 bs1 = (NoSignal, io', bs')"
    using 2(2) by (auto split: prod.splits blob_signal.splits)
  note g = readBlob_grows [OF r 2(3)]
  consider "int (length (bi_buffer io1)) < bi_size io1" | "bi_size io1 < int (length (bi_buffer io1))"
    using readBlob_not_equal [OF r] by linarith
  then show ?case
  proof cases
    case 1
    then show ?thesis using "2.IH" [OF r [symmetric] refl refl 3] g 2(4)
      by auto
  qed (rule readBlobs_full [OF 3])
qed simp

lemma readBlobs_over:
  "bi_size io < int (length (bi_buffer io)) \<Longrightarrow> fst (readBlobs deser activations io bs) = NoSignal"
proof (induction activations arbitrary: io bs)
  case (Cons arrived later)
  obtain s io1 bs1 where r: "readBlob deser io (bs @ arrived) = (s, io1, bs1)" by (rule prod_cases3)
  have "s = NoSignal" using r Cons.prems by (auto simp: readBlob_def Let_def split: prod.splits if_splits)
  with r Cons.IH [of io1 bs1] readBlob_full [of deser io "bs @ arrived" io1 bs1] Cons.prems show ?case by simp
qed simp

lemma readBlob_signals:
  "readBlob deser io bs = (s, io', bs') \<Longrightarrow>
     (case s of NoSignal \<Rightarrow> bi_isReading io' = bi_isReading io
      | BlobError \<Rightarrow> int (length (bi_buffer io')) < bi_size io'
      | DataReceived m \<Rightarrow> int (length (bi_buffer io')) = bi_size io' \<and> m = deser (bi_buffer io'))"
  by (auto simp: readBlob_def setReadNotificationEnabled_def Let_def split: prod.splits if_splits)

lemma readBlobs_signals:
  "readBlobs deser activations io bs = (s, io', bs') \<Longrightarrow>
     (case s of NoSignal \<Rightarrow> bi_isReading io' = bi_isReading io
      | BlobError \<Rightarrow> int (length (bi_buffer io')) < bi_size io'
      | DataReceived m \<Rightarrow> int (length (bi_buffer io')) = bi_size io' \<and> m = deser (bi_buffer io'))"
proof (induction deser activations io bs rule: readBlobs.induct)
  case (2 deser arrived later io bs)
  obtain s1 io1 bs1 where r: "readBlob deser io (bs @ arrived) = (s1, io1, bs1)" by (rule prod_cases3)
  show ?case
  proof (cases "s1 = NoSignal")
    case True
    with 2 r show ?thesis using readBlob_signals [OF r] by (cases s) simp_all
  next
    case False
    with 2(2) r have "s = s1" "io' = io1" by (simp_all split: blob_signal.splits)
    then show ?thesis using readBlob_signals [OF r] False by (cases s1) simp_all
  qed
qed simp

section \<open>What is sent\<close>

fun is_dbus :: "qvariant \<Rightarrow> bool" where
  "is_dbus (VDBus _) = True"
| "is_dbus _ = False"

lemma filterOut_fold:
  assumes "list_all (\<lambda>(k, v). \<not> is_dbus v) acc"
  shows "list_all (\<lambda>(k, v). \<not> is_dbus v)
    (fold (\<lambda>(k, v) filteredMap.
         case v of
           VDBus _ \<Rightarrow> let (success, convertedMap) = expandDBusArgumentValue v
                      in if success then qm_insert k (VMap convertedMap) filteredMap else filteredMap
         | _ \<Rightarrow> qm_insert k v filteredMap) m acc)"
  using assms
proof (induction m arbitrary: acc)
  case (Cons p m)
  have i: "list_all (\<lambda>(k, v). \<not> is_dbus v) (qm_insert k v acc)" if "\<not> is_dbus v" for k v
    using Cons.prems that by (induction acc) auto
  obtain k v where p: "p = (k, v)" by (cases p)
  show ?case
    using Cons.IH i Cons.prems by (cases v) (auto simp: p split: prod.splits)
qed simp

lemma filterOut_no_dbus: "list_all (\<lambda>(k, v). \<not> is_dbus v) (filterOutComplexTypes m)"
  unfolding filterOutComplexTypes_def by (rule filterOut_fold) simp

section \<open>Properties\<close>

text \<open>C18: A map sent as a blob is received, whatever its size. When the size and all the pages of a
  blob of less than 2 GB are in the channel, \<open>receiveData\<close> and one activation for each further
  page give the map without the values that cannot be serialised, leave what was written after
  the blob in the channel, and switch the notifications off.\<close>

theorem blob_roundtrip:
  assumes "deser (ser (filterOutComplexTypes m)) = filterOutComplexTypes m"
    and "ser (filterOutComplexTypes m) \<noteq> []" and "length (ser (filterOutComplexTypes m)) < 2147483648"
    and "\<not> bi_isReading io"
    and "length (ser (filterOutComplexTypes m)) \<le> SIGNON_IPC_BUFFER_PAGE_SIZE * (n + 1)"
  shows "\<exists>io'. receive_all deser (replicate n []) io (sendData ser m @ rest) =
      (DataReceived (filterOutComplexTypes m), io', rest)
    \<and> \<not> bi_isReading io' \<and> list_all (\<lambda>(k, v). \<not> is_dbus v) (filterOutComplexTypes m)"
proof -
  let ?ba = "ser (filterOutComplexTypes m)"
  let ?io = "if length ?ba > SIGNON_IPC_BUFFER_PAGE_SIZE
     then setReadNotificationEnabled True (io\<lparr>bi_buffer := [], bi_size := int (length ?ba)\<rparr>)
     else io\<lparr>bi_buffer := [], bi_size := int (length ?ba)\<rparr>"
  have "length (pageByteArray ?ba) * SIGNON_IPC_BUFFER_PAGE_SIZE < (n + 2) * SIGNON_IPC_BUFFER_PAGE_SIZE"
    using pages_length [of ?ba] assms(5) by (simp add: algebra_simps)
  then have "length (pageByteArray ?ba) \<le> Suc n"
    by (simp add: SIGNON_IPC_BUFFER_PAGE_SIZE_def)
  moreover have f: "bi_buffer ?io @ ?ba = ?ba" "bi_size ?io = int (length ?ba)" "bi_isReading ?io = (length ?ba > SIGNON_IPC_BUFFER_PAGE_SIZE)"
    using assms(4) by (simp_all add: setReadNotificationEnabled_def)
  ultimately obtain io' where io':
      "readBlobs deser (replicate (Suc n) []) ?io (concat (map put_ba (pageByteArray ?ba)) @ rest) =
        (DataReceived (deser ?ba), io', rest)" "\<not> bi_isReading io'"
    using readBlobs_pages [OF assms(2) f(1,2), of "Suc n" deser rest] by auto
  have "receive_all deser (replicate n []) io (sendData ser m @ rest) =
      readBlobs deser (replicate (Suc n) []) ?io (concat (map put_ba (pageByteArray ?ba)) @ rest)"
    using receive_all_eq [OF assms(3)] by (simp add: sendData_def variantMapToByteArray_def Let_def)
  then show ?thesis
    using io' assms(1) filterOut_no_dbus [of m] by auto
qed

definition plain_ser :: "qvariant_map \<Rightarrow> bytes" where
  "plain_ser m = [0, 0, 0, of_nat (length m)]"

theorem blob_roundtrip_witness:
  "\<exists>io'. receive_all (\<lambda>_. []) [] \<lparr>bi_buffer = [], bi_size = -1, bi_isReading = False\<rparr>
      (sendData plain_ser [(''x'', VDBus DOther)] @ [1, 2]) = (DataReceived [], io', [1, 2])"
  using blob_roundtrip [of "\<lambda>_. []" plain_ser "[(''x'', VDBus DOther)]"
      "\<lparr>bi_buffer = [], bi_size = -1, bi_isReading = False\<rparr>" 0 "[1, 2]"]
  by (simp add: filterOutComplexTypes_def plain_ser_def SIGNON_IPC_BUFFER_PAGE_SIZE_def) blast

text \<open>C19: Receiving a blob comes to an end unless the other side writes more than it announced, and then it never
  does. Of a blob announced with \<open>n\<close> bytes, after \<open>n\<close> further activations, each with any arrivals, either the map is
  delivered, made of exactly \<open>n\<close> bytes, or an error is signalled with fewer bytes taken in, or more than \<open>n\<close> bytes
  have been taken in. In the last case the test for the announced size can no longer succeed: nothing is ever
  signalled, the buffer goes on growing, and the notifications stay as they are. How the activations come about is
  not part of this.\<close>

theorem receiving_ends:
  assumes "receiveData deser n io bs = (NoSignal, io1, bs1)" and "n \<le> int (length activations)"
    and "readBlobs deser activations io1 bs1 = (s, io2, bs2)"
  shows "case s of
      DataReceived m \<Rightarrow> int (length (bi_buffer io2)) = n \<and> m = deser (bi_buffer io2)
    | BlobError \<Rightarrow> int (length (bi_buffer io2)) < n
    | NoSignal \<Rightarrow> n < int (length (bi_buffer io2)) \<and> bi_isReading io2 = bi_isReading io1
        \<and> (\<forall>more. fst (readBlobs deser more io2 bs2) = NoSignal)"
proof -
  have n: "bi_size io1 = n"
    using assms(1) by (auto simp: receiveData_def readBlob_def setReadNotificationEnabled_def Let_def
        split: prod.splits if_splits)
  have ne: "int (length (bi_buffer io1)) \<noteq> bi_size io1"
    using assms(1) by (auto simp: receiveData_def Let_def dest: readBlob_not_equal)
  note facts = readBlobs_signals [OF assms(3)] readBlobs_size [OF assms(3)] n
  show ?thesis
  proof (cases "s = NoSignal")
    case True
    have "bi_size io2 < int (length (bi_buffer io2))"
    proof (cases "bi_size io1 < int (length (bi_buffer io1))")
      case over: True
      show ?thesis using readBlobs_full [OF assms(3) [unfolded True] over] .
    next
      case False
      show ?thesis using readBlobs_end [OF assms(3) [unfolded True]] False ne n assms(2) by simp
    qed
    with True facts readBlobs_over show ?thesis by simp
  qed (use facts in \<open>cases s; simp\<close>)
qed

theorem receiving_ends_witness:
  "\<forall>more. fst (readBlobs (\<lambda>_. []) more \<lparr>bi_buffer = [7, 1, 2, 3, 4], bi_size = 3, bi_isReading = False\<rparr> []) = NoSignal"
  using receiving_ends [of "\<lambda>_. []" 3 "\<lparr>bi_buffer = [], bi_size = -1, bi_isReading = False\<rparr>" "put_ba [7]"
      "\<lparr>bi_buffer = [7], bi_size = 3, bi_isReading = False\<rparr>" "[]" "[put_ba [1, 2, 3, 4], [], []]" NoSignal
      "\<lparr>bi_buffer = [7, 1, 2, 3, 4], bi_size = 3, bi_isReading = False\<rparr>" "[]"]
  by (simp add: receiveData_def readBlob_def get_ba_def put_ba_def put_u32_def Let_def SIGNON_IPC_BUFFER_PAGE_SIZE_def
      setReadNotificationEnabled_def)

end
