(* ===== verification/Plugin_Proxy.thy ===== *)
theory Plugin_Proxy
  imports Blob_Io
begin

text \<open>
  \<open>PluginProxy\<close> (src/signond/pluginproxy.cpp): the daemon's end of the pipes to the process that
  runs an authentication plugin. It writes operations, reads responses, and turns them into the
  signals the session core is connected to.
\<close>

section \<open>State\<close>

text \<open>How \<open>QDataStream\<close> writes and reads variant maps, and variants.\<close>

record codec =
  co_map :: "qvariant_map \<Rightarrow> bytes"
  co_to_map :: "bytes \<Rightarrow> qvariant_map"
  co_variant :: "qvariant \<Rightarrow> bytes"
  co_to_variant :: "bytes \<Rightarrow> qvariant"

text \<open>What happens when the process is started: it does not start, it starts but writes nothing in
  time, or it announces itself; and how it answers the first query.\<close>

datatype start_outcome = NotStarted | Silent | Announced

record plugin_proxy =
  pp_type :: qstring
  pp_mechanisms :: "qstring list"
  pp_isProcessing :: bool
  pp_isResultObtained :: bool
  pp_uiPolicy :: int
  pp_currentResultOperation :: int
  pp_blobIOHandler :: blob_io
  pp_listening :: bool
  pp_running :: bool
  pp_stdin :: bytes
  pp_stdout :: bytes
  pp_starts :: "start_outcome list"

datatype plugin_signal =
    ProcessResultReply qvariant_map
  | ProcessStore qvariant_map
  | ProcessUiRequest qvariant_map
  | ProcessRefreshRequest qvariant_map
  | ProcessError int qstring
  | StateChanged int qstring

abbreviation "PLUGIN_OP_TYPE \<equiv> 1 :: nat"
abbreviation "PLUGIN_OP_MECHANISMS \<equiv> 2 :: nat"
abbreviation "PLUGIN_OP_PROCESS \<equiv> 3 :: nat"
abbreviation "PLUGIN_OP_PROCESS_UI \<equiv> 4 :: nat"
abbreviation "PLUGIN_OP_REFRESH \<equiv> 5 :: nat"
abbreviation "PLUGIN_OP_CANCEL \<equiv> 6 :: nat"
abbreviation "PLUGIN_OP_STOP \<equiv> 7 :: nat"

abbreviation "PLUGIN_RESPONSE_RESULT \<equiv> 1 :: int"
abbreviation "PLUGIN_RESPONSE_STORE \<equiv> 2 :: int"
abbreviation "PLUGIN_RESPONSE_ERROR \<equiv> 3 :: int"
abbreviation "PLUGIN_RESPONSE_SIGNAL \<equiv> 4 :: int"
abbreviation "PLUGIN_RESPONSE_UI \<equiv> 5 :: int"
abbreviation "PLUGIN_RESPONSE_REFRESHED \<equiv> 6 :: int"

abbreviation "Error_InternalServer \<equiv> 2 :: int"

abbreviation "RequestPasswordPolicy \<equiv> 1 :: int"
abbreviation "NoUserInteractionPolicy \<equiv> 2 :: int"
abbreviation "ValidationPolicy \<equiv> 3 :: int"

abbreviation "SSOUI_KEY_UIPOLICY \<equiv> ''UiPolicy''"
abbreviation "QUERY_ERROR_FORBIDDEN \<equiv> 10 :: int"

section \<open>The process\<close>

definition new_blob_io :: blob_io where
  "new_blob_io = \<lparr>bi_buffer = [], bi_size = -1, bi_isReading = False\<rparr>"

definition write_stdin :: "bytes \<Rightarrow> plugin_proxy \<Rightarrow> plugin_proxy" where
  "write_stdin bs pp = (if pp_running pp then pp\<lparr>pp_stdin := pp_stdin pp @ bs\<rparr> else pp)"

text \<open>Starting the process: \<open>start\<close>, \<open>waitForStarted\<close> and \<open>readOnReady\<close>. Only a process that
  announces itself counts; what it writes first is read and dropped.\<close>

definition next_start :: "plugin_proxy \<Rightarrow> start_outcome \<times> plugin_proxy" where
  "next_start pp =
     (case pp_starts pp of [] \<Rightarrow> (Announced, pp) | s # ss \<Rightarrow> (s, pp\<lparr>pp_starts := ss\<rparr>))"

definition start_process :: "plugin_proxy \<Rightarrow> bool \<times> plugin_proxy" where
  "start_process pp0 =
     (let (s, pp) = next_start pp0 in
      if s = NotStarted then (False, pp)
      else (s = Announced, pp\<lparr>pp_running := True, pp_blobIOHandler := new_blob_io, pp_stdin := [], pp_stdout := []\<rparr>))"

definition restartIfRequired :: "plugin_proxy \<Rightarrow> bool \<times> plugin_proxy" where
  "restartIfRequired pp = (if \<not> pp_running pp then start_process pp else (True, pp))"

definition PluginProxy :: "qstring \<Rightarrow> start_outcome list \<Rightarrow> plugin_proxy" where
  "PluginProxy type starts =
     \<lparr>pp_type = type, pp_mechanisms = [], pp_isProcessing = False, pp_isResultObtained = False,
      pp_uiPolicy = 0, pp_currentResultOperation = -1, pp_blobIOHandler = new_blob_io,
      pp_listening = False, pp_running = False, pp_stdin = [], pp_stdout = [], pp_starts = starts\<rparr>"

text \<open>The answer to the query for mechanisms is what arrives in time, or nothing.\<close>

definition queryMechanisms :: "qstring list option \<Rightarrow> plugin_proxy \<Rightarrow> qstring list \<times> plugin_proxy" where
  "queryMechanisms answer pp =
     (let (ok, pp) = restartIfRequired pp in
      if \<not> ok then ([], pp)
      else let pp = write_stdin (put_u32 PLUGIN_OP_MECHANISMS) pp
           in (case answer of None \<Rightarrow> [] | Some varList \<Rightarrow> varList, pp))"

definition createNewPluginProxy ::
    "qstring \<Rightarrow> start_outcome list \<times> qstring list option \<Rightarrow> plugin_proxy option" where
  "createNewPluginProxy type env =
     (let (ok, pp) = start_process (PluginProxy type (fst env)) in
      if \<not> ok then None
      else let (mechs, pp) = queryMechanisms (snd env) pp
           in Some (pp\<lparr>pp_mechanisms := mechs, pp_listening := True\<rparr>))"

section \<open>Operations\<close>

definition pp_process :: "codec \<Rightarrow> qvariant_map \<Rightarrow> qstring \<Rightarrow> plugin_proxy \<Rightarrow> bool \<times> plugin_proxy" where
  "pp_process co inData mechanism pp =
     (let (ok, pp) = restartIfRequired pp in
      if \<not> ok then (False, pp)
      else
        let pp = pp\<lparr>pp_isResultObtained := False, pp_uiPolicy := v_toInt (qm_value inData SSOUI_KEY_UIPOLICY VInvalid)\<rparr>;
            pp = write_stdin (put_u32 PLUGIN_OP_PROCESS @ put_qstring mechanism) pp;
            pp = write_stdin (sendData (co_map co) inData) pp
        in (True, pp\<lparr>pp_isProcessing := True\<rparr>))"

definition pp_processUi :: "codec \<Rightarrow> qvariant_map \<Rightarrow> plugin_proxy \<Rightarrow> bool \<times> plugin_proxy" where
  "pp_processUi co inData pp =
     (let (ok, pp) = restartIfRequired pp in
      if \<not> ok then (False, pp)
      else let pp = write_stdin (put_u32 PLUGIN_OP_PROCESS_UI @ sendData (co_map co) inData) pp
           in (True, pp\<lparr>pp_isProcessing := True\<rparr>))"

definition pp_processRefresh :: "codec \<Rightarrow> qvariant_map \<Rightarrow> plugin_proxy \<Rightarrow> bool \<times> plugin_proxy" where
  "pp_processRefresh co inData pp =
     (let (ok, pp) = restartIfRequired pp in
      if \<not> ok then (False, pp)
      else let pp = write_stdin (put_u32 PLUGIN_OP_REFRESH @ sendData (co_map co) inData) pp
           in (True, pp\<lparr>pp_isProcessing := True\<rparr>))"

definition pp_cancel :: "plugin_proxy \<Rightarrow> plugin_proxy" where
  "pp_cancel pp = write_stdin (put_u32 PLUGIN_OP_CANCEL) pp"

definition pp_stop :: "plugin_proxy \<Rightarrow> plugin_proxy" where
  "pp_stop pp = write_stdin (put_u32 PLUGIN_OP_STOP) pp"

section \<open>Responses\<close>

definition blobIOError :: "plugin_proxy \<Rightarrow> plugin_signal list \<times> plugin_proxy" where
  "blobIOError pp =
     ([ProcessError Error_InternalServer (QStr ''Failed to I/O session data to/from the authentication plugin.'')],
      (pp_stop pp)\<lparr>pp_listening := True\<rparr>)"

definition isResultOperationCodeValid :: "int \<Rightarrow> bool" where
  "isResultOperationCodeValid opCode \<longleftrightarrow>
     opCode = PLUGIN_RESPONSE_RESULT \<or> opCode = PLUGIN_RESPONSE_STORE \<or> opCode = PLUGIN_RESPONSE_ERROR
     \<or> opCode = PLUGIN_RESPONSE_SIGNAL \<or> opCode = PLUGIN_RESPONSE_UI \<or> opCode = PLUGIN_RESPONSE_REFRESHED"

definition ui_allowed :: "int \<Rightarrow> qvariant_map \<Rightarrow> bool" where
  "ui_allowed uiPolicy sessionDataMap =
     (let allowed = (uiPolicy \<noteq> NoUserInteractionPolicy);
          credentialsQueried = (qm_contains sessionDataMap ''QueryUserName'' \<or> qm_contains sessionDataMap ''QueryPassword'');
          captchaQueried = (qm_contains sessionDataMap ''CaptchaImage'' \<or> qm_contains sessionDataMap ''CaptchaUrl'')
      in if uiPolicy = ValidationPolicy \<and> credentialsQueried \<and> \<not> captchaQueried then False else allowed)"

definition handle_ui :: "codec \<Rightarrow> qvariant_map \<Rightarrow> plugin_proxy \<Rightarrow> plugin_signal list \<times> plugin_proxy" where
  "handle_ui co sessionDataMap pp =
     (if \<not> ui_allowed (pp_uiPolicy pp) sessionDataMap
      then ([], snd (pp_processUi co (qm_insert ''QueryErrorCode'' (VInt QUERY_ERROR_FORBIDDEN) sessionDataMap) pp))
      else ([ProcessUiRequest sessionDataMap], pp))"

text \<open>One response, up to the point where the code looks for the next one.\<close>

definition handlePluginResponse ::
    "codec \<Rightarrow> int \<Rightarrow> qvariant_map \<Rightarrow> plugin_proxy \<Rightarrow> plugin_signal list \<times> plugin_proxy" where
  "handlePluginResponse co resultOperation sessionDataMap pp =
     (let obtained = pp_isResultObtained pp in
      if resultOperation = PLUGIN_RESPONSE_RESULT
      then (if \<not> obtained then [ProcessResultReply sessionDataMap] else [],
            pp\<lparr>pp_isProcessing := False, pp_isResultObtained := True\<rparr>)
      else if resultOperation = PLUGIN_RESPONSE_STORE
      then (if \<not> obtained then [ProcessStore sessionDataMap] else [], pp)
      else if resultOperation = PLUGIN_RESPONSE_UI
      then (if \<not> obtained then handle_ui co sessionDataMap pp else ([], pp))
      else if resultOperation = PLUGIN_RESPONSE_REFRESHED
      then (if \<not> obtained then [ProcessRefreshRequest sessionDataMap] else [], pp)
      else if resultOperation = PLUGIN_RESPONSE_ERROR
      then
        let (err, bs) = get_u32 (pp_stdout pp); (errorMessage, bs) = get_qstring bs
        in (if \<not> obtained then [ProcessError (to_int (int err)) errorMessage] else [],
            pp\<lparr>pp_stdout := bs, pp_isProcessing := False, pp_isResultObtained := True\<rparr>)
      else if resultOperation = PLUGIN_RESPONSE_SIGNAL
      then
        let (state, bs) = get_u32 (pp_stdout pp); (message, bs) = get_qstring bs
        in (if \<not> obtained then [StateChanged (to_int (int state)) message] else [], pp\<lparr>pp_stdout := bs\<rparr>)
      else ([], pp))"

lemma get_qstring_length: "get_qstring bs = (s, bs') \<Longrightarrow> length bs' \<le> length bs"
  by (auto simp: get_qstring_def Let_def split: prod.splits if_splits dest!: get_u32_length get_ba_length)

lemma write_stdin_stdout [simp]: "pp_stdout (write_stdin bs pp) = pp_stdout pp"
  by (simp add: write_stdin_def)

lemma restart_stdout:
  "restartIfRequired pp = (ok, pp') \<Longrightarrow> length (pp_stdout pp') \<le> length (pp_stdout pp)"
  by (auto simp: restartIfRequired_def start_process_def next_start_def Let_def
      split: if_splits prod.splits list.splits)

lemma handle_stdout:
  "handlePluginResponse co r m pp = (s, pp') \<Longrightarrow> length (pp_stdout pp') \<le> length (pp_stdout pp)"
  by (auto simp: handlePluginResponse_def handle_ui_def pp_processUi_def Let_def
      split: if_splits prod.splits dest!: get_u32_length get_qstring_length restart_stdout)

text \<open>\<open>onReadStandardOutput\<close>: one response is read; unless reading stops there, the slot is connected
  again and the next one is handled at once if there are bytes for it.\<close>

definition read_blob_response :: "codec \<Rightarrow> int \<Rightarrow> plugin_proxy \<Rightarrow> bool \<times> plugin_signal list \<times> plugin_proxy" where
  "read_blob_response co op pp =
     (let (expectedDataSize, bs) = get_i32 (pp_stdout pp);
          (s, io, bs) = receiveData (co_to_map co) expectedDataSize (pp_blobIOHandler pp) bs;
          pp = pp\<lparr>pp_blobIOHandler := io, pp_stdout := bs\<rparr>
      in case s of
           NoSignal \<Rightarrow> (True, [], pp)
         | BlobError \<Rightarrow> (True, blobIOError pp)
         | DataReceived m \<Rightarrow> (False, handlePluginResponse co op m pp))"

definition read_response :: "codec \<Rightarrow> plugin_proxy \<Rightarrow> bool \<times> plugin_signal list \<times> plugin_proxy" where
  "read_response co pp0 =
     (if pp_stdout pp0 = []
      then (True, [ProcessError Error_InternalServer QNull], pp0\<lparr>pp_listening := False, pp_isProcessing := False\<rparr>)
      else
        let (op, bs) = get_i32 (pp_stdout pp0);
            pp = pp0\<lparr>pp_listening := False, pp_currentResultOperation := op, pp_stdout := bs\<rparr>
        in
        if \<not> isResultOperationCodeValid op then (True, [], pp\<lparr>pp_stdout := [], pp_listening := True\<rparr>)
        else if op \<noteq> PLUGIN_RESPONSE_SIGNAL \<and> op \<noteq> PLUGIN_RESPONSE_ERROR then read_blob_response co op pp
        else (False, handlePluginResponse co op [] pp))"

lemma read_response_stdout:
  assumes "read_response co pp = (False, sigs, pp')"
  shows "length (pp_stdout pp') < length (pp_stdout pp)"
proof -
  have ne: "pp_stdout pp \<noteq> []" using assms by (auto simp: read_response_def)
  obtain op bs where 1: "get_i32 (pp_stdout pp) = (op, bs)" by force
  have "length bs < length (pp_stdout pp)"
    using get_i32_length [OF 1] ne by (cases "pp_stdout pp") auto
  moreover have "length (pp_stdout pp') \<le> length bs"
    using assms ne
    by (auto simp: read_response_def read_blob_response_def 1 Let_def
        split: if_splits prod.splits blob_signal.splits dest!: get_i32_length receiveData_length handle_stdout)
  ultimately show ?thesis by linarith
qed

function onReadStandardOutput :: "codec \<Rightarrow> plugin_proxy \<Rightarrow> plugin_signal list \<times> plugin_proxy" where
  "onReadStandardOutput co pp =
     (let (stopped, sigs, pp) = read_response co pp in
      if stopped then (sigs, pp)
      else
        let pp = pp\<lparr>pp_listening := True\<rparr> in
        if pp_stdout pp = [] then (sigs, pp)
        else let (more, pp) = onReadStandardOutput co pp in (sigs @ more, pp))"
  by pat_completeness auto
termination
  by (relation "measure (\<lambda>(co, pp). length (pp_stdout pp))") (auto dest!: read_response_stdout [OF sym])

declare onReadStandardOutput.simps [simp del]

section \<open>What the process does\<close>

text \<open>Bytes the process writes reach the proxy through \<open>readyRead\<close> while the slot is connected. A blob
  of several pages is read through \<open>readBlob\<close>, which is connected to a notifier that
  \<open>waitForStarted\<close> has disabled.\<close>

definition plugin_writes :: "codec \<Rightarrow> bytes \<Rightarrow> plugin_proxy \<Rightarrow> plugin_signal list \<times> plugin_proxy" where
  "plugin_writes co bs pp =
     (let pp = pp\<lparr>pp_stdout := pp_stdout pp @ bs\<rparr>
      in if pp_listening pp then onReadStandardOutput co pp else ([], pp))"

definition onExit :: "bool \<Rightarrow> plugin_proxy \<Rightarrow> plugin_signal list \<times> plugin_proxy" where
  "onExit crashed pp =
     (if pp_isProcessing pp \<or> crashed
      then [ProcessError Error_InternalServer (QStr ''plugin processed crashed'')] else [],
      pp\<lparr>pp_isProcessing := False, pp_running := False\<rparr>)"

end
