(* ===== verification/Session_Core.thy ===== *)
theory Session_Core
  imports Signon_Daemon Plugin_Proxy
begin

text \<open>
  \<open>SignonSessionCore\<close> (src/signond/signonsessioncore.cpp): the queue of authentication requests for
  one identity and one method, the plugin that serves them, the dialogs it asks for, and the
  registers of all session cores. A core lives in \<open>sessions\<close>, the daemon's state as far as
  authentication sessions see it.
\<close>

section \<open>State\<close>

abbreviation "SSO_KEY_USERNAME \<equiv> ''UserName''"
abbreviation "SSO_KEY_PASSWORD \<equiv> ''Secret''"
abbreviation "SSO_KEY_CAPTION \<equiv> ''Caption''"
abbreviation "SSO_ACCESS_CONTROL_TOKENS \<equiv> ''AccessControlTokens''"
abbreviation "SSOUI_KEY_REFRESH \<equiv> ''refreshRequired''"
abbreviation "QUERY_ERROR_NO_SIGNONUI \<equiv> 2 :: int"
abbreviation "SessionStarted \<equiv> 8 :: int"

record request_data =
  rd_call :: dbus_call
  rd_params :: qvariant_map
  rd_mechanism :: qstring
  rd_cancelKey :: nat

text \<open>The watcher of a call to signon-ui: none, one whose call is under way, or one whose call has
  returned (with a map or an error) and whose slot has not run yet.\<close>

datatype ui_watcher = NoWatcher | Waiting | Finished "qvariant_map option"

text \<open>\<open>sc_queued\<close> counts the invocations of \<open>startNewRequest\<close> in the event queue; \<open>sc_disposable\<close> says
  that the object is in the list of disposable ones.\<close>

record session_core =
  sc_id :: nat
  sc_method :: qstring
  sc_plugin :: plugin_proxy
  sc_requests :: "request_data list"
  sc_watcher :: ui_watcher
  sc_requestIsActive :: bool
  sc_canceled :: bool
  sc_clientData :: qvariant_map
  sc_tmpUsername :: qstring
  sc_tmpPassword :: qstring
  sc_queryCredsUiDisplayed :: bool
  sc_queued :: nat
  sc_autoDestruct :: bool
  sc_lastActivity :: nat
  sc_disposable :: bool

text \<open>Authentication sessions, the D-Bus objects of the clients; their object names are numbers.\<close>

record auth_session =
  as_core :: nat
  as_ownerPid :: nat

record session_request =
  sr_call :: dbus_call
  sr_identity :: nat
  sr_method :: qstring

datatype session_event =
    SReply dbus_call "qvariant list"
  | SError dbus_call string qstring
  | SState nat int qstring
  | SQueryDialog nat qvariant_map
  | SRefreshDialog nat qvariant_map
  | SCancelUiRequest nat
  | SStorageNotAvailable nat

record sessions =
  sw_db :: "credentials_db option"
  sw_ready :: bool
  sw_keysAvailable :: bool
  sw_codec :: codec
  sw_ac :: ac_manager
  sw_pids :: pid_source
  sw_plugins :: "qstring \<Rightarrow> start_outcome list \<times> qstring list option"
  sw_timeout :: nat
  sw_cores :: "(nat \<times> session_core) list"
  sw_stored :: "(string, nat) qmap"
  sw_nonStored :: "nat option list"
  sw_auth :: "(nat \<times> auth_session) list"
  sw_incr :: nat
  sw_next :: nat
  sw_doomed :: "nat list"
  sw_doomed_auth :: "nat list"
  sw_requests :: "(nat \<times> session_request) list"
  sw_delayed :: bool
  sw_clock :: "nat option"
  sw_fault :: bool
  sw_out :: "session_event list"

definition null_core :: session_core where
  "null_core = \<lparr>sc_id = 0, sc_method = QNull, sc_plugin = PluginProxy QNull [], sc_requests = [],
     sc_watcher = NoWatcher, sc_requestIsActive = False, sc_canceled = False, sc_clientData = [],
     sc_tmpUsername = QNull, sc_tmpPassword = QNull, sc_queryCredsUiDisplayed = False, sc_queued = 0,
     sc_autoDestruct = True, sc_lastActivity = 0, sc_disposable = True\<rparr>"

definition core :: "nat \<Rightarrow> sessions \<Rightarrow> session_core" where
  "core k s = (case map_of (sw_cores s) k of None \<Rightarrow> null_core | Some c \<Rightarrow> c)"

definition set_core :: "nat \<Rightarrow> (session_core \<Rightarrow> session_core) \<Rightarrow> sessions \<Rightarrow> sessions" where
  "set_core k f s = s\<lparr>sw_cores := map (\<lambda>(j, c). (j, if j = k then f c else c)) (sw_cores s)\<rparr>"

definition say :: "session_event \<Rightarrow> sessions \<Rightarrow> sessions" where
  "say e s = s\<lparr>sw_out := sw_out s @ [e]\<rparr>"

definition crash :: "sessions \<Rightarrow> sessions" where
  "crash s = s\<lparr>sw_fault := True\<rparr>"

text \<open>A database call; without a database a null pointer is followed.\<close>

definition with_db :: "(credentials_db \<Rightarrow> 'r \<times> credentials_db) \<Rightarrow> 'r \<Rightarrow> sessions \<Rightarrow> 'r \<times> sessions" where
  "with_db f r s =
     (case sw_db s of
        None \<Rightarrow> (r, crash s)
      | Some db \<Rightarrow> let (r, db) = f db in (r, s\<lparr>sw_db := Some db\<rparr>))"

definition sessionName :: "nat \<Rightarrow> qstring \<Rightarrow> string" where
  "sessionName n method = nat_str n @ CHR ''+'' # chars method"

section \<open>Idle time\<close>

definition sc_keepInUse :: "nat \<Rightarrow> sessions \<Rightarrow> sessions" where
  "sc_keepInUse k s =
     (case sw_clock s of None \<Rightarrow> s | Some sec \<Rightarrow> set_core k (\<lambda>c. c\<lparr>sc_lastActivity := sec\<rparr>) s)"

definition sc_setAutoDestruct :: "nat \<Rightarrow> bool \<Rightarrow> sessions \<Rightarrow> sessions" where
  "sc_setAutoDestruct k v s = sc_keepInUse k (set_core k (\<lambda>c. c\<lparr>sc_autoDestruct := v\<rparr>) s)"

definition remove_first :: "'a \<Rightarrow> 'a list \<Rightarrow> 'a list" where
  "remove_first x xs = remove1 x xs"

text \<open>\<open>destroy\<close> refuses while a request or a dialog is under way.\<close>

definition sc_destroy :: "nat \<Rightarrow> sessions \<Rightarrow> sessions" where
  "sc_destroy k s =
     (let c = core k s in
      if sc_requestIsActive c \<or> sc_watcher c \<noteq> NoWatcher then sc_keepInUse k s
      else
        let s = (if sc_id c \<noteq> 0 then s\<lparr>sw_stored := qm_remove (sessionName (sc_id c) (sc_method c)) (sw_stored s)\<rparr>
                 else s\<lparr>sw_nonStored := remove_first (Some k) (sw_nonStored s)\<rparr>)
        in s\<lparr>sw_auth := filter (\<lambda>(_, a). as_core a \<noteq> k) (sw_auth s), sw_doomed := sw_doomed s @ [k]\<rparr>)"

definition core_unused :: "nat \<Rightarrow> nat \<Rightarrow> session_core \<Rightarrow> bool" where
  "core_unused timeout sec c \<longleftrightarrow>
     sc_disposable c \<and> sc_autoDestruct c \<and> int sec - int (sc_lastActivity c) > int timeout"

text \<open>An object leaves the list whether or not it could be destroyed.\<close>

definition sc_destroyUnused :: "sessions \<Rightarrow> sessions" where
  "sc_destroyUnused s =
     (case sw_clock s of
        None \<Rightarrow> s
      | Some sec \<Rightarrow>
          fold (\<lambda>k s. if core_unused (sw_timeout s) sec (core k s)
                      then set_core k (\<lambda>c. c\<lparr>sc_disposable := False\<rparr>) (sc_destroy k s) else s)
            (map fst (sw_cores s)) s)"

text \<open>Children of a core are its authentication sessions and its watcher; \<open>childEvent\<close> is told of
  every one that comes or goes.\<close>

definition childEvent :: "nat \<Rightarrow> bool \<Rightarrow> sessions \<Rightarrow> sessions" where
  "childEvent k added s = (if added then sc_keepInUse k s else sc_destroyUnused s)"

definition new_watcher :: "nat \<Rightarrow> sessions \<Rightarrow> sessions" where
  "new_watcher k s = childEvent k True (set_core k (\<lambda>c. c\<lparr>sc_watcher := Waiting\<rparr>) s)"

definition delete_watcher :: "nat \<Rightarrow> sessions \<Rightarrow> sessions" where
  "delete_watcher k s =
     (if sc_watcher (core k s) = NoWatcher then s
      else childEvent k False (set_core k (\<lambda>c. c\<lparr>sc_watcher := NoWatcher\<rparr>) s))"

section \<open>Registers of cores\<close>

definition setupPlugin :: "qstring \<Rightarrow> sessions \<Rightarrow> plugin_proxy option" where
  "setupPlugin method s = createNewPluginProxy method (sw_plugins s method)"

definition sessionCore :: "nat \<Rightarrow> qstring \<Rightarrow> sessions \<Rightarrow> nat option \<times> sessions" where
  "sessionCore n method s0 =
     (let key = sessionName n method in
      if n \<noteq> 0 \<and> qm_contains (sw_stored s0) key then (map_of (sw_stored s0) key, s0)
      else
        let k = sw_next s0; s = s0\<lparr>sw_next := k + 1\<rparr> in
        case setupPlugin method s of
          None \<Rightarrow> (None, s)
        | Some plugin \<Rightarrow>
            let c = null_core\<lparr>sc_id := n, sc_method := method, sc_plugin := plugin\<rparr>;
                s = sc_keepInUse k (s\<lparr>sw_cores := sw_cores s @ [(k, c)]\<rparr>)
            in (Some k, if n \<noteq> 0 then s\<lparr>sw_stored := qm_insert key k (sw_stored s)\<rparr>
                        else s\<lparr>sw_nonStored := sw_nonStored s @ [Some k]\<rparr>))"

definition sc_setId :: "nat \<Rightarrow> nat \<Rightarrow> sessions \<Rightarrow> sessions" where
  "sc_setId k n s0 =
     (let s = sc_keepInUse k s0; c = core k s in
      if sc_id c = n then s
      else if n = 0
      then
        let key = sessionName (sc_id c) (sc_method c);
            taken = map_of (sw_stored s) key;
            s = s\<lparr>sw_stored := qm_remove key (sw_stored s), sw_nonStored := sw_nonStored s @ [taken]\<rparr>
        in set_core k (\<lambda>c. c\<lparr>sc_id := n\<rparr>) s
      else
        let key = sessionName n (sc_method c) in
        if qm_contains (sw_stored s) key then s
        else
          let s = s\<lparr>sw_nonStored := remove_first (Some k) (sw_nonStored s),
                    sw_stored := qm_insert key k (sw_stored s)\<rparr>
          in set_core k (\<lambda>c. c\<lparr>sc_id := n\<rparr>) s)"

definition stopAllAuthSessions :: "sessions \<Rightarrow> sessions" where
  "stopAllAuthSessions s =
     (let gone = map snd (sw_stored s) @ concat (map (case_option [] (\<lambda>k. [k])) (sw_nonStored s))
      in (if distinct gone \<and> list_all (\<lambda>k. map_of (sw_cores s) k \<noteq> None) gone then id else crash)
         (s\<lparr>sw_cores := filter (\<lambda>p. fst p \<notin> set gone) (sw_cores s),
           sw_auth := filter (\<lambda>p. as_core (snd p) \<notin> set gone) (sw_auth s),
           sw_stored := [], sw_nonStored := []\<rparr>))"

section \<open>The queue\<close>

definition queue_startNewRequest :: "nat \<Rightarrow> sessions \<Rightarrow> sessions" where
  "queue_startNewRequest k s = set_core k (\<lambda>c. c\<lparr>sc_queued := sc_queued c + 1\<rparr>) s"

definition sc_process ::
    "nat \<Rightarrow> dbus_call \<Rightarrow> qvariant_map \<Rightarrow> qstring \<Rightarrow> nat \<Rightarrow> sessions \<Rightarrow> sessions" where
  "sc_process k call sessionDataVa mechanism cancelKey s0 =
     (let s = sc_keepInUse k s0;
          r = \<lparr>rd_call = call, rd_params = sessionDataVa, rd_mechanism = mechanism, rd_cancelKey = cancelKey\<rparr>;
          s = set_core k (\<lambda>c. c\<lparr>sc_requests := sc_requests c @ [r]\<rparr>) s
      in if sw_ready s then queue_startNewRequest k s else s)"

fun request_index :: "nat \<Rightarrow> request_data list \<Rightarrow> nat" where
  "request_index key [] = 0"
| "request_index key (r # rs) = (if rd_cancelKey r = key then 0 else Suc (request_index key rs))"

definition sc_cancel :: "nat \<Rightarrow> nat \<Rightarrow> sessions \<Rightarrow> sessions" where
  "sc_cancel k cancelKey s0 =
     (let c = core k s0; requestIndex = request_index cancelKey (sc_requests c) in
      if requestIndex < length (sc_requests c)
      then
        let isActive = (requestIndex = 0 \<and> sc_requestIsActive c);
            rd = sc_requests c ! requestIndex;
            s = (if isActive
                 then
                   let s = set_core k (\<lambda>c. c\<lparr>sc_canceled := True, sc_plugin := pp_cancel (sc_plugin c)\<rparr>) s0
                   in if sc_watcher (core k s) = Waiting then delete_watcher k (say (SCancelUiRequest cancelKey) s) else s
                 else set_core k (\<lambda>c. c\<lparr>sc_requests := take requestIndex (sc_requests c) @ drop (Suc requestIndex) (sc_requests c)\<rparr>) s0)
        in say (SError (rd_call rd) ''SessionCanceled'' (QStr ''Session processing was canceled.'')) s
      else s0)"

definition requestDone :: "nat \<Rightarrow> sessions \<Rightarrow> sessions" where
  "requestDone k s =
     queue_startNewRequest k (set_core k (\<lambda>c. c\<lparr>sc_requests := tl (sc_requests c), sc_requestIsActive := False\<rparr>) s)"

text \<open>The state of the request at the head goes to the authentication session it came from.\<close>

definition stateChangedSlot :: "nat \<Rightarrow> int \<Rightarrow> qstring \<Rightarrow> sessions \<Rightarrow> sessions" where
  "stateChangedSlot k state message s =
     (let c = core k s;
          s = (case sc_requests c of
                 [] \<Rightarrow> s
               | rd # _ \<Rightarrow>
                   if \<not> sc_canceled c \<and> map_option as_core (map_of (sw_auth s) (rd_cancelKey rd)) = Some k
                   then say (SState (rd_cancelKey rd) state message) s else s)
      in sc_keepInUse k s)"

section \<open>Starting a request\<close>

text \<open>Comparing a variant with an integer converts strings; \<open>operator[]\<close> of a map inserts an invalid
  value where there is none.\<close>

fun v_eq_int :: "qvariant \<Rightarrow> int \<Rightarrow> bool" where
  "v_eq_int (VInt j) i = (j = i)"
| "v_eq_int (VUInt n) i = (int n = i)"
| "v_eq_int (VBool b) i = ((if b then 1 else 0) = i)"
| "v_eq_int (VString s) i = (chars s = int_str i)"
| "v_eq_int _ _ = False"

definition qm_touch :: "string \<Rightarrow> qvariant_map \<Rightarrow> qvariant_map" where
  "qm_touch k m = (if qm_contains m k then m else qm_insert k VInvalid m)"

text \<open>What the database adds to the parameters of a request: the secret and the user name where the
  client gives none (a validated user name in any case), and the tokens of the access control
  list the client holds.\<close>

definition stored_parameters :: "ac_manager \<Rightarrow> dbus_call \<Rightarrow> identity_info \<Rightarrow> qvariant_map \<Rightarrow> qvariant_map" where
  "stored_parameters ac call info parameters0 =
     (if info_id info = 0 then parameters0
      else
        let parameters = (if \<not> qm_contains parameters0 SSO_KEY_PASSWORD
                          then qm_insert SSO_KEY_PASSWORD (VString (password info)) parameters0 else parameters0);
            parameters = (if validated info \<or> \<not> qm_contains parameters SSO_KEY_USERNAME
                          then qm_insert SSO_KEY_USERNAME (VString (userName info)) parameters else parameters);
            paramsTokenList = filter (isPeerAllowedToAccess ac call) (info_acl info)
        in if paramsTokenList \<noteq> []
           then qm_insert SSO_ACCESS_CONTROL_TOKENS (VStringList paramsTokenList) parameters else parameters)"

definition request_parameters :: "nat \<Rightarrow> request_data \<Rightarrow> sessions \<Rightarrow> qvariant_map \<times> sessions" where
  "request_parameters k data s0 =
     (let c = core k s0 in
      if sc_id c = 0 then (rd_params data, s0)
      else
        let (info, s) = with_db (cd_credentials (sc_id c) True) [] s0;
            parameters = stored_parameters (sw_ac s) (rd_call data) info (rd_params data);
            (storedParams, s) = with_db (cd_loadData (co_to_variant (sw_codec s)) (sc_id c) (sc_method c)) [] s
        in (mergeVariantMaps storedParams parameters, s))"

definition startProcess :: "nat \<Rightarrow> sessions \<Rightarrow> sessions" where
  "startProcess k s0 =
     (case sc_requests (core k s0) of
        [] \<Rightarrow> crash s0
      | data # _ \<Rightarrow>
          let s = set_core k (\<lambda>c. c\<lparr>sc_requestIsActive := True, sc_clientData := rd_params data\<rparr>) s0;
              (parameters, s) = request_parameters k data s;
              parameters = (if qm_contains parameters SSOUI_KEY_UIPOLICY
                               \<and> v_eq_int (qm_value parameters SSOUI_KEY_UIPOLICY VInvalid) RequestPasswordPolicy
                            then qm_remove SSO_KEY_PASSWORD parameters else parameters);
              parameters = qm_touch SSO_KEY_PASSWORD (qm_touch SSO_KEY_USERNAME parameters);
              (ok, plugin) = pp_process (sw_codec s) parameters (rd_mechanism data) (sc_plugin (core k s));
              s = set_core k (\<lambda>c. c\<lparr>sc_tmpUsername := v_toString (qm_value parameters SSO_KEY_USERNAME VInvalid),
                                  sc_tmpPassword := v_toString (qm_value parameters SSO_KEY_PASSWORD VInvalid),
                                  sc_plugin := plugin\<rparr>) s
          in if \<not> ok
             then requestDone k (say (SError (rd_call data) ''Runtime'' (QStr ''Casting SessionData into subclass failed.'')) s)
             else stateChangedSlot k SessionStarted (QStr ''The request is started successfully'') s)"

definition startNewRequest :: "nat \<Rightarrow> sessions \<Rightarrow> sessions" where
  "startNewRequest k s0 =
     (let s = set_core k (\<lambda>c. c\<lparr>sc_canceled := False\<rparr>) (sc_keepInUse k s0); c = core k s in
      if sc_requests c = [] then sc_setAutoDestruct k True s
      else if sc_requestIsActive c then s
      else if sc_watcher c = Waiting then s
      else startProcess k (sc_setAutoDestruct k False s))"

definition credentialsSystemReady :: "nat \<Rightarrow> sessions \<Rightarrow> sessions" where
  "credentialsSystemReady k s = queue_startNewRequest k s"

definition sc_queryAvailableMechanisms :: "nat \<Rightarrow> qstring list \<Rightarrow> sessions \<Rightarrow> qstring list \<times> sessions" where
  "sc_queryAvailableMechanisms k wantedMechanisms s0 =
     (let s = sc_keepInUse k s0; mechs = pp_mechanisms (sc_plugin (core k s)) in
      (if wantedMechanisms = [] then mechs
       else remdups (filter (\<lambda>m. qcontains wantedMechanisms m) mechs), s))"


section \<open>Errors\<close>

text \<open>The numbers of \<open>SignOn::Error\<close> are those of signonerror.h; \<open>EncryptionFailure\<close> is 5, outside
  the range in which the \<open>switch\<close> is reached.\<close>

definition session_errors :: "(int \<times> string \<times> string) list" where
  "session_errors =
     [(301, ''MechanismNotAvailable'', ''Requested mechanism is not available.''),
      (302, ''MissingData'', ''The SessionData object does not contain all necessary information.''),
      (303, ''InvalidCredentials'', ''The supplied credentials are invalid for the mechanism implementation.''),
      (304, ''NotAuthorized'', ''Not authorized to access service account.''),
      (305, ''WrongState'', ''Operation method has been called in a wrong state.''),
      (306, ''OperationNotSupported'', ''The operation is not supported by the mechanism implementation.''),
      (307, ''NoConnection'', ''No network connection.''),
      (308, ''Network'', ''Network connetion failed.''),
      (309, ''Ssl'', ''Ssl connection failed.''),
      (310, ''Runtime'', ''Casting SessionData into subclass failed.''),
      (311, ''SessionCanceled'', ''Session processing was canceled.''),
      (312, ''TimedOut'', ''Session processing timed out.''),
      (313, ''UserInteraction'', ''User interaction dialog failed.''),
      (314, ''OperationFailed'', ''Operation failed.''),
      (5, ''EncryptionFailed'', ''Failure in encoding/decoding of incoming data''),
      (316, ''TOSNotAccepted'', ''User declined Terms of Service.''),
      (317, ''ForgotPassword'', ''User selected forgot password.''),
      (319, ''IncorrectDate'', ''The Date set is not correct'')]"

definition unknown_error :: "qstring \<Rightarrow> string \<times> qstring" where
  "unknown_error message = (''Unknown'', if qisEmpty message then QStr ''Unknown error.'' else message)"

definition error_reply :: "int \<Rightarrow> qstring \<Rightarrow> string \<times> qstring" where
  "error_reply err message =
     (let (errName, errMessage) = ('''', QNull);
          (errName, errMessage) = (if err < 300 then unknown_error message else (errName, errMessage));
          (errName, errMessage) =
            (if 300 < err \<and> err < 400
             then (case map_of session_errors err of
                     Some (name, text) \<Rightarrow> (name, QStr text)
                   | None \<Rightarrow> unknown_error message)
             else (errName, errMessage));
          (errName, errMessage) =
            (if err > 400 then (''User'', QStr (int_str err @ CHR '':'' # chars message)) else (errName, errMessage))
      in (errName, if qisEmpty message then errMessage else message))"

definition replyError :: "nat \<Rightarrow> dbus_call \<Rightarrow> int \<Rightarrow> qstring \<Rightarrow> sessions \<Rightarrow> sessions" where
  "replyError k call err message s =
     (let s = sc_keepInUse k s; (errName, errMessage) = error_reply err message
      in say (SError call errName errMessage) s)"

section \<open>Answers of the plugin\<close>

datatype store_operation = StoreCredentials identity_info | StoreBlob qstring qvariant_map

definition processStoreOperation :: "nat \<Rightarrow> store_operation \<Rightarrow> sessions \<Rightarrow> sessions" where
  "processStoreOperation k operation s =
     (case operation of
        StoreCredentials info \<Rightarrow> snd (with_db (cd_updateCredentials info) 0 s)
      | StoreBlob authMethod blobData \<Rightarrow>
          snd (with_db (cd_storeData (co_variant (sw_codec s)) (sc_id (core k s)) authMethod blobData) False s))"

definition secrets_open :: "sessions \<Rightarrow> bool" where
  "secrets_open s \<longleftrightarrow> (case sw_db s of None \<Rightarrow> False | Some db \<Rightarrow> isSecretsDBOpen db)"

text \<open>The credentials that have just been used: a user name the identity has not validated yet and the
  password, when there are any; from now on the identity is validated.\<close>

definition used_credentials :: "session_core \<Rightarrow> identity_info \<Rightarrow> identity_info" where
  "used_credentials c info =
     (let info = (if \<not> validated info \<and> \<not> qisEmpty (sc_tmpUsername c) then setUserName (sc_tmpUsername c) info else info);
          info = (if \<not> qisEmpty (sc_tmpPassword c) then setPassword (sc_tmpPassword c) info else info)
      in setValidated True info)"

definition storage_event :: "nat \<Rightarrow> bool \<Rightarrow> sessions \<Rightarrow> sessions" where
  "storage_event k identityWasValidated s =
     (if identityWasValidated \<and> \<not> secrets_open s \<and> sc_queryCredsUiDisplayed (core k s)
      then say (SStorageNotAvailable k) s else s)"

definition update_entry :: "nat \<Rightarrow> sessions \<Rightarrow> sessions" where
  "update_entry k s0 =
     (if sc_id (core k s0) = 0 then s0
      else
        let (info, s) = with_db (cd_credentials (sc_id (core k s0)) True) [] s0;
            identityWasValidated = validated info;
            s = processStoreOperation k (StoreCredentials (used_credentials (core k s) info)) s
        in storage_event k identityWasValidated s)"

text \<open>The part of a result that is sent: without null values, and without the secret unless the method
  is \<open>password\<close>.\<close>

definition result_data :: "session_core \<Rightarrow> qvariant_map \<Rightarrow> qvariant_map" where
  "result_data c data =
     (let filteredData = filterVariantMap data in
      if chars (sc_method c) \<noteq> ''password'' \<and> qm_contains filteredData SSO_KEY_PASSWORD
      then qm_remove SSO_KEY_PASSWORD filteredData else filteredData)"

text \<open>What follows an answer: a dialog that is still open is abandoned.\<close>

definition close_ui :: "nat \<Rightarrow> request_data \<Rightarrow> sessions \<Rightarrow> sessions" where
  "close_ui k rd s =
     (let s = (if sc_watcher (core k s) = Waiting then delete_watcher k s else s)
      in if sc_queryCredsUiDisplayed (core k s)
         then set_core k (\<lambda>c. c\<lparr>sc_queryCredsUiDisplayed := False\<rparr>) (say (SCancelUiRequest (rd_cancelKey rd)) s)
         else s)"

definition processResultReply :: "nat \<Rightarrow> qvariant_map \<Rightarrow> sessions \<Rightarrow> sessions" where
  "processResultReply k data s0 =
     (let s = sc_keepInUse k s0 in
      case sc_requests (core k s) of
        [] \<Rightarrow> s
      | rd # _ \<Rightarrow>
          let s = (if \<not> sc_canceled (core k s)
                   then
                     let s = update_entry k s;
                         s = set_core k (\<lambda>c. c\<lparr>sc_tmpUsername := QNull, sc_tmpPassword := QNull\<rparr>) s;
                         s = say (SReply (rd_call rd) [VMap (result_data (core k s) data)]) s
                     in close_ui k rd s
                   else s)
          in requestDone k s)"

definition blob_to_store :: "qvariant_map \<Rightarrow> qvariant_map" where
  "blob_to_store data =
     qm_remove SSO_ACCESS_CONTROL_TOKENS (qm_remove SSO_KEY_USERNAME (qm_remove SSO_KEY_PASSWORD data))"

definition processStore :: "nat \<Rightarrow> qvariant_map \<Rightarrow> sessions \<Rightarrow> sessions" where
  "processStore k data s0 =
     (let s = sc_keepInUse k s0 in
      if sc_id (core k s) = 0 then s
      else
        let s = processStoreOperation k (StoreBlob (sc_method (core k s)) (blob_to_store data)) s;
            (info, s) = with_db (cd_credentials (sc_id (core k s)) True) [] s;
            s = storage_event k (validated info) s
        in set_core k (\<lambda>c. c\<lparr>sc_queryCredsUiDisplayed := False\<rparr>) s)"

section \<open>Dialogs\<close>

definition drop_watcher :: "nat \<Rightarrow> nat \<Rightarrow> sessions \<Rightarrow> sessions" where
  "drop_watcher k uiRequestId s =
     (if sc_watcher (core k s) = NoWatcher then s
      else delete_watcher k (if sc_watcher (core k s) = Waiting then say (SCancelUiRequest uiRequestId) s else s))"

definition set_head_params :: "nat \<Rightarrow> qvariant_map \<Rightarrow> sessions \<Rightarrow> sessions" where
  "set_head_params k params s =
     set_core k (\<lambda>c. case sc_requests c of [] \<Rightarrow> c | rd # rds \<Rightarrow> c\<lparr>sc_requests := rd\<lparr>rd_params := params\<rparr> # rds\<rparr>) s"

definition dialog_params :: "nat \<Rightarrow> request_data \<Rightarrow> qvariant_map \<Rightarrow> sessions \<Rightarrow> qvariant_map" where
  "dialog_params k request data s =
     (let c = core k s;
          m = qm_insert ''requestId'' (VUInt (rd_cancelKey request)) (filterVariantMap data);
          m = qm_insert ''StoredIdentity'' (VBool (sc_id c \<noteq> 0)) m;
          m = qm_insert ''Identity'' (VUInt (sc_id c)) m;
          m = qm_insert ''ClientData'' (VMap (sc_clientData c)) m;
          m = qm_insert ''Method'' (VString (sc_method c)) m;
          m = qm_insert ''Mechanism'' (VString (rd_mechanism request)) m;
          m = qm_insert ''Pid'' (VInt (int (pidOfPeer (sw_pids s) (rd_call request)))) m
      in qm_insert ''AppId'' (VString (appIdOfPeer (sw_ac s) (rd_call request))) m)"

definition processUiRequest :: "nat \<Rightarrow> qvariant_map \<Rightarrow> sessions \<Rightarrow> sessions" where
  "processUiRequest k data s0 =
     (let s = sc_keepInUse k s0; c = core k s in
      case sc_requests c of
        [] \<Rightarrow> s
      | request # _ \<Rightarrow>
          if sc_canceled c then s
          else
            let s = drop_watcher k (rd_cancelKey request) s;
                params = dialog_params k request data s;
                (params, s) =
                  (if \<not> qm_contains data SSO_KEY_CAPTION \<and> sc_id c \<noteq> 0
                   then let (info, s) = with_db (cd_credentials (sc_id c) True) [] s
                        in (qm_insert SSO_KEY_CAPTION (VString (caption info)) params, s)
                   else (params, s));
                s = (if sw_db s = None then crash s else s);
                params = (if \<not> secrets_open s \<and> \<not> sw_keysAvailable s
                          then qm_insert ''StorageKeysUnavailable'' (VBool True) params else params);
                s = set_head_params k params s
            in set_core k (\<lambda>c. c\<lparr>sc_queryCredsUiDisplayed := True\<rparr>) (new_watcher k (say (SQueryDialog k params) s)))"

definition processRefreshRequest :: "nat \<Rightarrow> qvariant_map \<Rightarrow> sessions \<Rightarrow> sessions" where
  "processRefreshRequest k data s0 =
     (let s = sc_keepInUse k s0; c = core k s in
      case sc_requests c of
        [] \<Rightarrow> s
      | request # _ \<Rightarrow>
          if sc_canceled c then s
          else
            let s = drop_watcher k (rd_cancelKey request) s;
                params = filterVariantMap data;
                s = set_head_params k params s
            in set_core k (\<lambda>c. c\<lparr>sc_queryCredsUiDisplayed := True\<rparr>) (new_watcher k (say (SRefreshDialog k params) s)))"

definition processError :: "nat \<Rightarrow> int \<Rightarrow> qstring \<Rightarrow> sessions \<Rightarrow> sessions" where
  "processError k err message s0 =
     (let s = set_core k (\<lambda>c. c\<lparr>sc_tmpUsername := QNull, sc_tmpPassword := QNull\<rparr>) (sc_keepInUse k s0) in
      case sc_requests (core k s) of
        [] \<Rightarrow> s
      | rd # _ \<Rightarrow>
          requestDone k
            (if \<not> sc_canceled (core k s) then close_ui k rd (replyError k (rd_call rd) err message s) else s))"

text \<open>The answer of signon-ui goes to the plugin.\<close>

definition ui_result :: "request_data \<Rightarrow> qvariant_map option \<Rightarrow> bool \<times> qvariant_map \<times> bool" where
  "ui_result rd reply =
     (case reply of
        Some resultParameters \<Rightarrow>
          let isRequestToRefresh = qm_contains resultParameters SSOUI_KEY_REFRESH;
              m = qm_remove SSOUI_KEY_REFRESH resultParameters
          in (isRequestToRefresh, m,
              qm_contains m SSOUI_KEY_ERROR \<and> v_eq_int (qm_value m SSOUI_KEY_ERROR VInvalid) QUERY_ERROR_CANCELED)
      | None \<Rightarrow> (False, qm_insert SSOUI_KEY_ERROR (VInt QUERY_ERROR_NO_SIGNONUI) (rd_params rd), True))"

definition sc_queryUiSlot :: "nat \<Rightarrow> qvariant_map option \<Rightarrow> sessions \<Rightarrow> sessions" where
  "sc_queryUiSlot k reply s0 =
     (let s = sc_keepInUse k s0 in
      case sc_requests (core k s) of
        [] \<Rightarrow> crash s
      | rd # _ \<Rightarrow>
          let (isRequestToRefresh, params, gone) = ui_result rd reply;
              s = set_head_params k params s;
              s = (if gone then set_core k (\<lambda>c. c\<lparr>sc_queryCredsUiDisplayed := False\<rparr>) s else s);
              s = (if \<not> sc_canceled (core k s)
                   then
                     let send = (if isRequestToRefresh then pp_processRefresh (sw_codec s) params
                                 else pp_processUi (sw_codec s) params)
                     in set_core k (\<lambda>c. c\<lparr>sc_tmpUsername := v_toString (qm_value params SSO_KEY_USERNAME VInvalid),
                                        sc_tmpPassword := v_toString (qm_value params SSO_KEY_PASSWORD VInvalid),
                                        sc_plugin := snd (send (sc_plugin c))\<rparr>) s
                   else s)
          in delete_watcher k s)"

section \<open>Signals of the plugin\<close>

fun plugin_slot :: "nat \<Rightarrow> plugin_signal \<Rightarrow> sessions \<Rightarrow> sessions" where
  "plugin_slot k (ProcessResultReply m) s = processResultReply k m s"
| "plugin_slot k (ProcessStore m) s = processStore k m s"
| "plugin_slot k (ProcessUiRequest m) s = processUiRequest k m s"
| "plugin_slot k (ProcessRefreshRequest m) s = processRefreshRequest k m s"
| "plugin_slot k (ProcessError err msg) s = processError k err msg s"
| "plugin_slot k (StateChanged st msg) s = stateChangedSlot k st msg s"

text \<open>The proxy's slots emit their signals to the core one after the other; no slot of the core calls
  back into the proxy's reading.\<close>

definition plugin_emits ::
    "nat \<Rightarrow> (plugin_proxy \<Rightarrow> plugin_signal list \<times> plugin_proxy) \<Rightarrow> sessions \<Rightarrow> sessions" where
  "plugin_emits k f s =
     (let (sigs, plugin) = f (sc_plugin (core k s))
      in fold (plugin_slot k) sigs (set_core k (\<lambda>c. c\<lparr>sc_plugin := plugin\<rparr>) s))"

end
