(* ===== verification/Session_Daemon.thy ===== *)
theory Session_Daemon
  imports Session_Core
begin

text \<open>
  Authentication sessions as the clients see them: \<open>SignonAuthSession\<close>
  (src/signond/signonauthsession.cpp), its D-Bus adaptor with the checks of the caller
  (src/signond/signonauthsessionadaptor.cpp), the calls of \<open>SignonDaemon\<close> and
  \<open>SignonDaemonAdaptor\<close> that create them, and the events that drive the whole.
\<close>

section \<open>SignonAuthSession\<close>

definition createAuthSession :: "nat \<Rightarrow> qstring \<Rightarrow> nat \<Rightarrow> sessions \<Rightarrow> nat option \<times> sessions" where
  "createAuthSession n method ownerPid s0 =
     (let (k, s) = sessionCore n method s0 in
      case k of
        None \<Rightarrow> (None, s)
      | Some k \<Rightarrow>
          let s = (if map_of (sw_cores s) k = None then crash s else s);
              name = sw_incr s;
              s = s\<lparr>sw_incr := (name + 1) mod 4294967296,
                    sw_auth := sw_auth s @ [(name, \<lparr>as_core = k, as_ownerPid = ownerPid\<rparr>)]\<rparr>
          in (Some name, childEvent k True s))"

definition null_auth :: auth_session where
  "null_auth = \<lparr>as_core = 0, as_ownerPid = 0\<rparr>"

definition auth :: "nat \<Rightarrow> sessions \<Rightarrow> auth_session" where
  "auth a s = (case map_of (sw_auth s) a of None \<Rightarrow> null_auth | Some x \<Rightarrow> x)"

abbreviation parent :: "nat \<Rightarrow> sessions \<Rightarrow> nat" where
  "parent a s \<equiv> as_core (auth a s)"

definition as_id :: "nat \<Rightarrow> sessions \<Rightarrow> nat \<times> sessions" where
  "as_id a s = (sc_id (core (parent a s) s), sc_keepInUse (parent a s) s)"

definition as_method :: "nat \<Rightarrow> sessions \<Rightarrow> qstring \<times> sessions" where
  "as_method a s = (sc_method (core (parent a s) s), sc_keepInUse (parent a s) s)"

definition as_process :: "nat \<Rightarrow> dbus_call \<Rightarrow> qvariant_map \<Rightarrow> qstring \<Rightarrow> sessions \<Rightarrow> qvariant_map \<times> sessions" where
  "as_process a c sessionDataVa mechanism s =
     ([], sc_process (parent a s) c sessionDataVa mechanism a (s\<lparr>sw_delayed := True\<rparr>))"

definition as_cancel :: "nat \<Rightarrow> sessions \<Rightarrow> sessions" where
  "as_cancel a s = sc_cancel (parent a s) a s"

definition as_setId :: "nat \<Rightarrow> nat \<Rightarrow> sessions \<Rightarrow> sessions" where
  "as_setId a n s = sc_setId (parent a s) n s"

definition as_objectUnref :: "nat \<Rightarrow> sessions \<Rightarrow> sessions" where
  "as_objectUnref a s = (let s = as_cancel a s in s\<lparr>sw_doomed_auth := sw_doomed_auth s @ [a]\<rparr>)"

section \<open>SignonAuthSessionAdaptor\<close>

text \<open>This adaptor sends its error messages without asking QtDBus not to send a reply.\<close>

definition aa_errorReply :: "dbus_call \<Rightarrow> string \<Rightarrow> sessions \<Rightarrow> sessions" where
  "aa_errorReply c name s = say (SError c name QNull) s"

definition owned_by_peer :: "nat \<Rightarrow> dbus_call \<Rightarrow> sessions \<Rightarrow> bool" where
  "owned_by_peer a c s \<longleftrightarrow> pidOfPeer (sw_pids s) c = as_ownerPid (auth a s)"

definition aa_queryAvailableMechanisms ::
    "nat \<Rightarrow> dbus_call \<Rightarrow> qstring list \<Rightarrow> sessions \<Rightarrow> qvariant list \<times> sessions" where
  "aa_queryAvailableMechanisms a c wantedMechanisms s =
     (if \<not> owned_by_peer a c s then ([VStringList []], aa_errorReply c ERR_PERMISSION_DENIED s)
      else let (mechs, s) = sc_queryAvailableMechanisms (parent a s) wantedMechanisms s in ([VStringList mechs], s))"

text \<open>The methods and mechanisms an identity allows are checked before the caller is.\<close>

definition check_mechanism :: "nat \<Rightarrow> qstring \<Rightarrow> sessions \<Rightarrow> (bool \<times> qstring) \<times> sessions" where
  "check_mechanism a mechanism s0 =
     (let (n, s) = as_id a s0 in
      if n = 0 \<or> sw_db s = None then ((True, mechanism), s)
      else
        let (info, s) = with_db (cd_credentials n False) [] s; (method, s) = as_method a s
        in (checkMethodAndMechanism info method mechanism mechanism, s))"

definition aa_process ::
    "nat \<Rightarrow> dbus_call \<Rightarrow> qvariant_map \<Rightarrow> qstring \<Rightarrow> sessions \<Rightarrow> qvariant list \<times> sessions" where
  "aa_process a c sessionDataVa mechanism s0 =
     (let ((allowed, allowedMechanism), s) = check_mechanism a mechanism s0 in
      if \<not> allowed then ([VMap []], aa_errorReply c ''MethodOrMechanismNotAllowed'' s)
      else if \<not> owned_by_peer a c s then ([VMap []], aa_errorReply c ERR_PERMISSION_DENIED s)
      else let (m, s) = as_process a c sessionDataVa allowedMechanism s in ([VMap m], s))"

definition aa_cancel :: "nat \<Rightarrow> dbus_call \<Rightarrow> sessions \<Rightarrow> qvariant list \<times> sessions" where
  "aa_cancel a c s = ([], if \<not> owned_by_peer a c s then s else as_cancel a s)"

definition aa_setId :: "nat \<Rightarrow> dbus_call \<Rightarrow> nat \<Rightarrow> sessions \<Rightarrow> qvariant list \<times> sessions" where
  "aa_setId a c n s =
     (if \<not> owned_by_peer a c s then ([], s)
      else
        let (ok, db) = isPeerAllowedToUseIdentity (sw_ac s) c n (sw_db s); s = s\<lparr>sw_db := db\<rparr>
        in ([], if \<not> ok then s else as_setId a n s))"

definition aa_objectUnref :: "nat \<Rightarrow> dbus_call \<Rightarrow> sessions \<Rightarrow> qvariant list \<times> sessions" where
  "aa_objectUnref a c s = ([], if \<not> owned_by_peer a c s then s else as_objectUnref a s)"

section \<open>SignonDaemon and its adaptor\<close>

definition getAuthSession :: "dbus_call \<Rightarrow> nat \<Rightarrow> qstring \<Rightarrow> sessions \<Rightarrow> nat option \<times> sessions" where
  "getAuthSession c n type s =
     (let (a, s) = createAuthSession n type (pidOfPeer (sw_pids s) c) s in
      if a = None then (None, say (SError c ''MethodNotKnown'' QNull) (s\<lparr>sw_delayed := True\<rparr>)) else (a, s))"

definition da_getAuthSessionObjectPath ::
    "dbus_call \<Rightarrow> nat \<Rightarrow> qstring \<Rightarrow> sessions \<Rightarrow> qvariant list \<times> sessions" where
  "da_getAuthSessionObjectPath c n type s0 =
     (let s = sc_destroyUnused s0;
          (ok, s) = (if n \<noteq> 0
                     then let (ok, db) = isPeerAllowedToUseIdentity (sw_ac s) c n (sw_db s) in (ok, s\<lparr>sw_db := db\<rparr>)
                     else (True, s))
      in if \<not> ok
         then ([VString QNull],
               s\<lparr>sw_requests := sw_requests s @ [(sw_next s, \<lparr>sr_call = c, sr_identity = n, sr_method = type\<rparr>)],
                 sw_next := sw_next s + 1, sw_delayed := True\<rparr>)
         else case getAuthSession c n type s of
                (None, s) \<Rightarrow> ([VString QNull], s)
              | (Some a, s) \<Rightarrow> ([VUInt a], s))"

definition onAuthSessionAccessReplyFinished :: "session_request \<Rightarrow> bool \<Rightarrow> sessions \<Rightarrow> sessions" where
  "onAuthSessionAccessReplyFinished r isAccepted s0 =
     (let c = sr_call r; n = sr_identity r;
          (ok, s) = (if \<not> isAccepted then (False, s0)
                     else let (ok, db) = isPeerAllowedToUseIdentity (sw_ac s0) c n (sw_db s0)
                          in (ok, s0\<lparr>sw_db := db\<rparr>))
      in if \<not> ok then say (SError c ERR_PERMISSION_DENIED QNull) s
         else case getAuthSession c n (sr_method r) s of
                (None, s) \<Rightarrow> s
              | (Some a, s) \<Rightarrow> sc_destroyUnused (say (SReply c [VUInt a]) s))"

section \<open>Events\<close>

datatype session_call =
    GetAuthSessionObjectPath nat qstring
  | QueryAvailableMechanisms nat "qstring list"
  | Process nat qvariant_map qstring
  | Cancel nat
  | SetId nat nat
  | ObjectUnref nat

fun session_adaptor :: "dbus_call \<Rightarrow> session_call \<Rightarrow> sessions \<Rightarrow> qvariant list \<times> sessions" where
  "session_adaptor c (GetAuthSessionObjectPath n type) s = da_getAuthSessionObjectPath c n type s"
| "session_adaptor c (QueryAvailableMechanisms a wanted) s = aa_queryAvailableMechanisms a c wanted s"
| "session_adaptor c (Process a data mech) s = aa_process a c data mech s"
| "session_adaptor c (Cancel a) s = aa_cancel a c s"
| "session_adaptor c (SetId a n) s = aa_setId a c n s"
| "session_adaptor c (ObjectUnref a) s = aa_objectUnref a c s"

fun session_target :: "session_call \<Rightarrow> nat option" where
  "session_target (GetAuthSessionObjectPath _ _) = None"
| "session_target (QueryAvailableMechanisms a _) = Some a"
| "session_target (Process a _ _) = Some a"
| "session_target (Cancel a) = Some a"
| "session_target (SetId a _) = Some a"
| "session_target (ObjectUnref a) = Some a"

text \<open>Objects on which \<open>deleteLater\<close> has been called go when control returns to the event loop.\<close>

definition session_deletes :: "sessions \<Rightarrow> sessions" where
  "session_deletes s =
     (let s = fold (\<lambda>a s. childEvent (parent a s) False (s\<lparr>sw_auth := filter (\<lambda>p. fst p \<noteq> a) (sw_auth s)\<rparr>))
                (sw_doomed_auth s) s
      in s\<lparr>sw_cores := filter (\<lambda>p. fst p \<notin> set (sw_doomed s)) (sw_cores s), sw_doomed := [], sw_doomed_auth := []\<rparr>)"

definition session_client :: "dbus_call \<Rightarrow> session_call \<Rightarrow> sessions \<Rightarrow> sessions" where
  "session_client c m s =
     (if (case session_target m of None \<Rightarrow> False | Some a \<Rightarrow> map_of (sw_auth s) a = None)
      then say (SError c ''UnknownObject'' QNull) s
      else
        let (vals, s) = session_adaptor c m (s\<lparr>sw_delayed := False\<rparr>)
        in session_deletes (if sw_delayed s then s else say (SReply c vals) s))"

datatype session_happening =
    SessionCall dbus_call session_call
  | SessionAccessDecided nat bool
  | StartNewRequest nat
  | PluginWrites nat bytes
  | PluginExits nat bool
  | UiReturns nat "qvariant_map option"
  | UiSlotRuns nat
  | SystemReady
  | SessionTimeout
  | SessionClock "nat option"

definition on_core :: "nat \<Rightarrow> (sessions \<Rightarrow> sessions) \<Rightarrow> sessions \<Rightarrow> sessions" where
  "on_core k f s = (if map_of (sw_cores s) k = None then s else session_deletes (f s))"

fun session_happens :: "session_happening \<Rightarrow> sessions \<Rightarrow> sessions" where
  "session_happens (SessionCall c m) s = session_client c m s"
| "session_happens (SessionAccessDecided k b) s =
     (case map_of (sw_requests s) k of
        None \<Rightarrow> s
      | Some r \<Rightarrow> session_deletes (onAuthSessionAccessReplyFinished r b
                    (s\<lparr>sw_requests := filter (\<lambda>p. fst p \<noteq> k) (sw_requests s)\<rparr>)))"
| "session_happens (StartNewRequest k) s =
     (if sc_queued (core k s) = 0 then s
      else on_core k (\<lambda>s. startNewRequest k (set_core k (\<lambda>c. c\<lparr>sc_queued := sc_queued c - 1\<rparr>) s)) s)"
| "session_happens (PluginWrites k bs) s =
     (if \<not> pp_running (sc_plugin (core k s)) then s
      else on_core k (plugin_emits k (plugin_writes (sw_codec s) bs)) s)"
| "session_happens (PluginExits k crashed) s =
     (if \<not> pp_running (sc_plugin (core k s)) then s else on_core k (plugin_emits k (onExit crashed)) s)"
| "session_happens (UiReturns k reply) s =
     (if sc_watcher (core k s) = Waiting then on_core k (set_core k (\<lambda>c. c\<lparr>sc_watcher := Finished reply\<rparr>)) s else s)"
| "session_happens (UiSlotRuns k) s =
     (case sc_watcher (core k s) of Finished reply \<Rightarrow> on_core k (sc_queryUiSlot k reply) s | _ \<Rightarrow> s)"
| "session_happens SystemReady s =
     fold credentialsSystemReady (map fst (sw_cores s)) (s\<lparr>sw_ready := True\<rparr>)"
| "session_happens SessionTimeout s = session_deletes (sc_destroyUnused s)"
| "session_happens (SessionClock t) s = s\<lparr>sw_clock := t\<rparr>"

definition session_run :: "session_happening list \<Rightarrow> sessions \<Rightarrow> sessions" where
  "session_run hs s = fold session_happens hs s"

inductive session_reachable :: "sessions \<Rightarrow> sessions \<Rightarrow> bool" for s0 where
  start: "session_reachable s0 s0"
| happens: "session_reachable s0 s \<Longrightarrow> session_reachable s0 (session_happens h s)"

lemma reachable_iff_run: "session_reachable s0 s \<longleftrightarrow> (\<exists>hs. s = session_run hs s0)"
proof
  show "session_reachable s0 s \<Longrightarrow> \<exists>hs. s = session_run hs s0"
  proof (induction rule: session_reachable.induct)
    case start
    have "s0 = session_run [] s0" by (simp add: session_run_def)
    then show ?case by blast
  next
    case (happens s h)
    then obtain hs where "s = session_run hs s0" by blast
    then have "session_happens h s = session_run (hs @ [h]) s0" by (simp add: session_run_def)
    then show ?case by blast
  qed
  have "session_reachable s0 (session_run hs s0)" for hs
    unfolding session_run_def by (induction hs rule: rev_induct) (auto intro: session_reachable.intros)
  then show "\<exists>hs. s = session_run hs s0 \<Longrightarrow> session_reachable s0 s" by blast
qed

end
