(* ===== verification/Session_Frames.thy ===== *)
theory Session_Frames
  imports Session_Daemon
begin

text \<open>
  Facts the proofs about authentication sessions share: how cores are looked up and changed, and
  the steps that never answer a client, collected in a locale of laws such steps obey.
\<close>

section \<open>Cores\<close>

lemma set_core_keys [simp]: "map fst (sw_cores (set_core k f s)) = map fst (sw_cores s)"
  by (simp add: set_core_def case_prod_beta comp_def)

lemma map_of_set_core:
  "map_of (sw_cores (set_core k f s)) j = (if j = k then map_option f (map_of (sw_cores s) j) else map_of (sw_cores s) j)"
proof -
  have "map_of (map (\<lambda>(j, c). (j, if j = k then f c else c)) xs) j =
      (if j = k then map_option f (map_of xs j) else map_of xs j)" for xs
    by (induction xs) auto
  then show ?thesis by (simp add: set_core_def)
qed

lemma core_set_core:
  "core j (set_core k f s) = (if j = k \<and> map_of (sw_cores s) k \<noteq> None then f (core k s) else core j s)"
  by (auto simp: core_def map_of_set_core split: option.splits)

lemma set_core_fields [simp]:
  "sw_db (set_core k f s) = sw_db s" "sw_ready (set_core k f s) = sw_ready s" "sw_codec (set_core k f s) = sw_codec s"
  "sw_ac (set_core k f s) = sw_ac s" "sw_pids (set_core k f s) = sw_pids s" "sw_plugins (set_core k f s) = sw_plugins s"
  "sw_timeout (set_core k f s) = sw_timeout s" "sw_stored (set_core k f s) = sw_stored s"
  "sw_nonStored (set_core k f s) = sw_nonStored s" "sw_auth (set_core k f s) = sw_auth s" "sw_incr (set_core k f s) = sw_incr s"
  "sw_next (set_core k f s) = sw_next s" "sw_doomed (set_core k f s) = sw_doomed s"
  "sw_doomed_auth (set_core k f s) = sw_doomed_auth s" "sw_requests (set_core k f s) = sw_requests s"
  "sw_delayed (set_core k f s) = sw_delayed s" "sw_clock (set_core k f s) = sw_clock s"
  "sw_fault (set_core k f s) = sw_fault s" "sw_out (set_core k f s) = sw_out s"
  "sw_keysAvailable (set_core k f s) = sw_keysAvailable s"
  by (simp_all add: set_core_def)

lemma say_core [simp]: "core k (say e s) = core k s" "sw_cores (say e s) = sw_cores s" "sw_out (say e s) = sw_out s @ [e]"
    "sw_requests (say e s) = sw_requests s" "sw_next (say e s) = sw_next s" "sw_clock (say e s) = sw_clock s"
    "sw_timeout (say e s) = sw_timeout s" "sw_doomed (say e s) = sw_doomed s" "sw_stored (say e s) = sw_stored s"
    "sw_auth (say e s) = sw_auth s" "sw_delayed (say e s) = sw_delayed s" "sw_pids (say e s) = sw_pids s"
    "sw_nonStored (say e s) = sw_nonStored s" "sw_db (say e s) = sw_db s" "sw_fault (say e s) = sw_fault s"
    "sw_doomed_auth (say e s) = sw_doomed_auth s" "sw_ac (say e s) = sw_ac s" "sw_incr (say e s) = sw_incr s"
  by (simp_all add: say_def core_def)

lemma with_db_cases:
  obtains (absent) "sw_db s = None" "with_db f r s = (r, crash s)"
    | (present) db x db' where "sw_db s = Some db" "f db = (x, db')" "with_db f r s = (x, s\<lparr>sw_db := Some db'\<rparr>)"
  by (cases "sw_db s"; cases "f (the (sw_db s))") (auto simp: with_db_def)

section \<open>Laws of the steps that do not answer\<close>

text \<open>A change of a core that leaves alone what is asked of it and for whom.\<close>

definition quiet_core :: "(session_core \<Rightarrow> session_core) \<Rightarrow> bool" where
  "quiet_core f \<longleftrightarrow> (\<forall>c.
     map (\<lambda>r. (rd_call r, rd_cancelKey r)) (sc_requests (f c)) = map (\<lambda>r. (rd_call r, rd_cancelKey r)) (sc_requests c)
     \<and> sc_requestIsActive (f c) = sc_requestIsActive c \<and> sc_canceled (f c) = sc_canceled c
     \<and> sc_autoDestruct (f c) = sc_autoDestruct c \<and> sc_lastActivity (f c) = sc_lastActivity c
     \<and> sc_id (f c) = sc_id c \<and> sc_method (f c) = sc_method c)"

lemma quiet_cores [simp]:
  "quiet_core (\<lambda>c. c\<lparr>sc_watcher := x\<rparr>)" "quiet_core (\<lambda>c. c\<lparr>sc_queryCredsUiDisplayed := b\<rparr>)"
  "quiet_core (\<lambda>c. c\<lparr>sc_plugin := p\<rparr>)" "quiet_core (\<lambda>c. c\<lparr>sc_queued := f c\<rparr>)" "quiet_core (\<lambda>c. c\<lparr>sc_disposable := b\<rparr>)"
  "quiet_core (\<lambda>c. c\<lparr>sc_tmpUsername := u, sc_tmpPassword := w\<rparr>)"
  "quiet_core (\<lambda>c. c\<lparr>sc_tmpUsername := u, sc_tmpPassword := w, sc_plugin := g c\<rparr>)"
  "quiet_core (\<lambda>c. case sc_requests c of [] \<Rightarrow> c | rd # rds \<Rightarrow> c\<lparr>sc_requests := rd\<lparr>rd_params := params\<rparr> # rds\<rparr>)"
  by (auto simp: quiet_core_def split: list.splits)

fun answers_call :: "session_event \<Rightarrow> dbus_call option" where
  "answers_call (SReply c _) = Some c"
| "answers_call (SError c _ _) = Some c"
| "answers_call _ = None"

text \<open>The signals that end a request.\<close>

fun answering :: "plugin_signal \<Rightarrow> bool" where
  "answering (ProcessResultReply _) = True"
| "answering (ProcessError _ _) = True"
| "answering _ = False"

locale session_law =
  fixes L :: "sessions \<Rightarrow> sessions \<Rightarrow> bool"
  assumes refl: "L s s"
    and trans: "L s t \<Longrightarrow> L t u \<Longrightarrow> L s u"
    and quiet: "quiet_core f \<Longrightarrow> L s (set_core k f s)"
    and event: "answers_call e = None \<Longrightarrow> L s (say e s)"
    and load: "L s (snd (with_db (cd_credentials n q) [] s))"
    and load_data: "L s (snd (with_db (cd_loadData dec n m) [] s))"
    and store: "L s (snd (with_db (cd_updateCredentials i) 0 s))"
    and store_data: "L s (snd (with_db (cd_storeData enc n m (blob_to_store b)) False s))"
    and fault: "L s (crash s)"
    and active: "L s (sc_keepInUse k s)"
    and unused: "L s (sc_destroyUnused s)"
begin

text \<open>Rules that follow the structure of a definition: the state a step ends in is reached from \<open>s\<close>
  when every state on the way is.\<close>

lemma state_let: "L s e \<Longrightarrow> (\<And>x. L s x \<Longrightarrow> L s (g x)) \<Longrightarrow> L s (let x = e in g x)" for e :: sessions
  by (simp add: Let_def)

lemma value_let: "(\<And>x. L s (g x)) \<Longrightarrow> L s (let x = e in g x)"
  by (simp add: Let_def)

lemma pair_state: "L s (snd p) \<Longrightarrow> (\<And>a t. L s t \<Longrightarrow> L s (g a t)) \<Longrightarrow> L s (case p of (a, t) \<Rightarrow> g a t)" for p :: "'a \<times> sessions"
  by (simp add: case_prod_beta)

lemma pair_let: "L s (snd p) \<Longrightarrow> (\<And>a t. L s t \<Longrightarrow> L s (g a t)) \<Longrightarrow> L s (let (a, t) = p in g a t)" for p :: "'a \<times> sessions"
  by (simp add: case_prod_beta)

lemma pair_value: "(\<And>a b. L s (g a b)) \<Longrightarrow> L s (case p of (a, b) \<Rightarrow> g a b)"
  by (simp add: case_prod_beta)

lemma state_if: "L s a \<Longrightarrow> L s b \<Longrightarrow> L s (if c then a else b)"
  by simp

lemma state_list: "L s a \<Longrightarrow> (\<And>y ys. L s (g y ys)) \<Longrightarrow> L s (case xs of [] \<Rightarrow> a | y # ys \<Rightarrow> g y ys)"
  by (cases xs) simp_all

lemma snd_state:
  "L s (snd p) \<Longrightarrow> L s (snd q) \<Longrightarrow> L s (snd (if c then p else q))"
  "L s (snd r) \<Longrightarrow> (\<And>a t. L s t \<Longrightarrow> L s (snd (f a t))) \<Longrightarrow> L s (snd (let (a, t) = r in f a t))"
  "L s e \<Longrightarrow> (\<And>x. L s x \<Longrightarrow> L s (snd (h x))) \<Longrightarrow> L s (snd (let x = e in h x))"
  "(\<And>y. L s (snd (m y))) \<Longrightarrow> L s (snd (let y = v in m y))"
  "L s t \<Longrightarrow> L s (snd (a, t))"
  for r :: "'b \<times> sessions" and e :: sessions
  by (simp_all add: case_prod_beta Let_def)

lemmas shape_rules = state_let pair_let value_let pair_state pair_value state_if state_list snd_state

text \<open>The same facts for a step that follows others.\<close>

lemma then_quiet: "L s t \<Longrightarrow> quiet_core f \<Longrightarrow> L s (set_core k f t)"
  by (rule trans [OF _ quiet])

lemma then_event: "L s t \<Longrightarrow> answers_call e = None \<Longrightarrow> L s (say e t)"
  by (rule trans [OF _ event])

lemmas then_db = trans [OF _ load] trans [OF _ load_data] trans [OF _ store] trans [OF _ store_data]

lemma then_head: "L s t \<Longrightarrow> L s (set_head_params k m t)"
  unfolding set_head_params_def by (rule then_quiet) simp_all

lemmas then_basic = then_event then_db then_head then_quiet trans [OF _ active] trans [OF _ fault] trans [OF _ unused]

lemma then_new: "L s t \<Longrightarrow> L s (new_watcher k t)"
  by (simp add: new_watcher_def childEvent_def then_basic)

lemma then_delete: "L s t \<Longrightarrow> L s (delete_watcher k t)"
  by (simp add: delete_watcher_def childEvent_def then_basic)

lemma then_drop: "L s t \<Longrightarrow> L s (drop_watcher k r t)"
  by (simp add: drop_watcher_def then_basic then_delete)

lemma then_store:
  "L s t \<Longrightarrow> L s (processStoreOperation k (StoreCredentials i) t)"
  "L s t \<Longrightarrow> L s (processStoreOperation k (StoreBlob m (blob_to_store b)) t)"
  by (simp_all add: processStoreOperation_def then_db)

lemma then_storage: "L s t \<Longrightarrow> L s (storage_event k v t)"
  by (simp add: storage_event_def then_event)

lemmas then_more = then_basic then_new then_delete then_drop then_store then_storage

lemma then_close: "L s t \<Longrightarrow> L s (close_ui k rd t)"
  unfolding close_ui_def by (rule shape_rules then_more | assumption | simp)+

lemma then_entry: "L s t \<Longrightarrow> L s (update_entry k t)"
  unfolding update_entry_def by (rule shape_rules then_more | assumption | simp)+

lemma then_params: "L s t \<Longrightarrow> L s (snd (request_parameters k data t))"
  unfolding request_parameters_def by (rule shape_rules then_more | assumption | simp)+

lemma stateChangedSlot: "L s (stateChangedSlot k st msg s)"
  unfolding stateChangedSlot_def by (rule shape_rules then_more refl | assumption | simp)+

lemma processStore: "L s (processStore k data s)"
  unfolding processStore_def by (rule shape_rules then_more refl | assumption | simp)+

lemma processUiRequest: "L s (processUiRequest k data s)"
  unfolding processUiRequest_def by (rule shape_rules then_more refl | assumption | simp)+

lemma processRefreshRequest: "L s (processRefreshRequest k data s)"
  unfolding processRefreshRequest_def by (rule shape_rules then_more refl | assumption | simp)+

lemma queryUiSlot: "L s (sc_queryUiSlot k reply s)"
  unfolding sc_queryUiSlot_def by (rule shape_rules then_more refl | assumption | simp)+

lemma slot: "\<not> answering sig \<Longrightarrow> L s (plugin_slot k sig s)"
  by (cases sig) (simp_all add: processStore processUiRequest processRefreshRequest stateChangedSlot)

lemma slots: "list_all (\<lambda>x. \<not> answering x) sigs \<Longrightarrow> L s (fold (plugin_slot k) sigs s)"
  by (induction sigs arbitrary: s) (auto intro: refl trans [OF slot])

end

end
