(* ===== verification/Session_Accounting.thy ===== *)
theory Session_Accounting
  imports Session_Frames
begin

text \<open>
  How often authentication calls are answered. A call is answered by replies and errors that carry
  it, and it waits while it is in the queue of a core (the request at the head of a core that has
  been cancelled has been answered already) or while the access control manager has not decided.
  The sum of the two is what the proofs follow.
\<close>

section \<open>Answers and what waits\<close>

definition remaining :: "session_core \<Rightarrow> request_data list" where
  "remaining c = (if sc_canceled c \<and> sc_requestIsActive c then tl (sc_requests c) else sc_requests c)"

definition pending_in :: "dbus_call \<Rightarrow> session_core \<Rightarrow> nat" where
  "pending_in call c = count_list (map rd_call (remaining c)) call"

definition s_waiting :: "dbus_call \<Rightarrow> sessions \<Rightarrow> nat" where
  "s_waiting call s = sum_list (map (\<lambda>p. pending_in call (snd p)) (sw_cores s))
     + count_list (map (\<lambda>p. sr_call (snd p)) (sw_requests s)) call"

definition s_answered :: "dbus_call \<Rightarrow> sessions \<Rightarrow> nat" where
  "s_answered call s = count_list (map answers_call (sw_out s)) (Some call)"

definition s_due :: "dbus_call \<Rightarrow> sessions \<Rightarrow> nat" where
  "s_due call s = s_answered call s + s_waiting call s"

lemma due_fields:
  "s_due c (s\<lparr>sw_db := d\<rparr>) = s_due c s" "s_due c (s\<lparr>sw_fault := b\<rparr>) = s_due c s" "s_due c (s\<lparr>sw_delayed := b\<rparr>) = s_due c s"
  "s_due c (s\<lparr>sw_clock := t\<rparr>) = s_due c s" "s_due c (s\<lparr>sw_ready := b\<rparr>) = s_due c s"
  "s_due c (s\<lparr>sw_stored := st\<rparr>) = s_due c s" "s_due c (s\<lparr>sw_nonStored := ns\<rparr>) = s_due c s"
  "s_due c (s\<lparr>sw_stored := st, sw_nonStored := ns\<rparr>) = s_due c s"
  "s_due c (s\<lparr>sw_auth := a\<rparr>) = s_due c s" "s_due c (s\<lparr>sw_incr := n\<rparr>) = s_due c s" "s_due c (s\<lparr>sw_next := n\<rparr>) = s_due c s"
  "s_due c (s\<lparr>sw_doomed_auth := l\<rparr>) = s_due c s" "s_due c (s\<lparr>sw_doomed := l\<rparr>) = s_due c s"
  by (simp_all add: s_due_def s_answered_def s_waiting_def)

lemma due_say: "s_due c (say e s) = s_due c s + (if answers_call e = Some c then 1 else 0)"
  by (simp add: s_due_def s_answered_def s_waiting_def)

lemma sum_set_core:
  assumes "distinct (map fst xs)" and "map_of xs k = Some a"
  shows "sum_list (map (\<lambda>p. w (snd p)) (map (\<lambda>(j, c). (j, if j = k then f c else c)) xs)) + w a
       = sum_list (map (\<lambda>p. w (snd p)) xs) + (w (f a) :: nat)"
  using assms
proof (induction xs)
  case (Cons x xs)
  obtain j c where x: "x = (j, c)" by (cases x)
  show ?case
  proof (cases "j = k")
    case True
    then have "k \<notin> fst ` set xs" using Cons.prems(1) x by auto
    then have "map (\<lambda>(j, c). (j, if j = k then f c else c)) xs = xs"
      by (induction xs) auto
    with True Cons.prems(2) x show ?thesis by (simp del: map_map)
  qed (use Cons x in auto)
qed simp

definition keyed :: "sessions \<Rightarrow> bool" where
  "keyed s \<longleftrightarrow> distinct (map fst (sw_cores s)) \<and> (\<forall>k \<in> set (map fst (sw_cores s)). k < sw_next s)
     \<and> distinct (map fst (sw_requests s)) \<and> (\<forall>k \<in> set (map fst (sw_requests s)). k < sw_next s)"

lemma due_set_core:
  assumes "keyed s" and "map_of (sw_cores s) k = Some a"
  shows "s_due c (set_core k f s) + pending_in c a = s_due c s + pending_in c (f a)"
  using sum_set_core [OF _ assms(2), of "pending_in c" f] assms(1)
  by (simp add: keyed_def s_due_def s_answered_def s_waiting_def set_core_def)

lemma set_core_absent: "map_of (sw_cores s) k = None \<Longrightarrow> set_core k f s = s"
proof -
  assume "map_of (sw_cores s) k = None"
  then have "map (\<lambda>(j, c). (j, if j = k then f c else c)) (sw_cores s) = sw_cores s"
    by (intro map_idI) (force simp: map_of_eq_None_iff)
  then show ?thesis by (simp add: set_core_def)
qed

lemma due_set_core_same:
  "keyed s \<Longrightarrow> (\<And>a. pending_in c (f a) = pending_in c a) \<Longrightarrow> s_due c (set_core k f s) = s_due c s"
  using due_set_core [of s k _ c f] by (cases "map_of (sw_cores s) k") (auto simp: set_core_absent)

section \<open>The invariant\<close>

definition idle_core :: "nat option \<Rightarrow> nat \<Rightarrow> session_core \<Rightarrow> bool" where
  "idle_core clock timeout c \<longleftrightarrow> (case clock of None \<Rightarrow> False | Some sec \<Rightarrow>
     sc_autoDestruct c \<and> int sec - int (sc_lastActivity c) > int timeout)"

definition tended :: "nat option \<Rightarrow> nat \<Rightarrow> session_core \<Rightarrow> bool" where
  "tended clock timeout c \<longleftrightarrow> (sc_requestIsActive c \<longrightarrow> sc_requests c \<noteq> [])
     \<and> (sc_requests c \<noteq> [] \<longrightarrow> \<not> idle_core clock timeout c)"

text \<open>Cores have different numbers; an active core has a request; no core that has requests counts as
  unused; a core that is about to be deleted has none.\<close>

definition orderly_cores :: "sessions \<Rightarrow> bool" where
  "orderly_cores s \<longleftrightarrow> keyed s \<and> list_all (\<lambda>p. tended (sw_clock s) (sw_timeout s) (snd p)) (sw_cores s)
     \<and> list_all (\<lambda>k. sc_requests (core k s) = []) (sw_doomed s)"

lemma tended_core: "orderly_cores s \<Longrightarrow> tended (sw_clock s) (sw_timeout s) (core k s)"
proof -
  assume *: "orderly_cores s"
  have n: "tended t u null_core" for t u by (simp add: tended_def null_core_def)
  have "tended (sw_clock s) (sw_timeout s) c" if "map_of (sw_cores s) k = Some c" for c
    using * map_of_SomeD [OF that] by (auto simp: orderly_cores_def list_all_iff)
  then show ?thesis using n by (auto simp: core_def split: option.splits)
qed

lemma orderly_set_core:
  assumes "orderly_cores s" and "\<And>a. tended (sw_clock s) (sw_timeout s) a \<Longrightarrow> tended (sw_clock s) (sw_timeout s) (f a)"
    and "k \<in> set (sw_doomed s) \<Longrightarrow> sc_requests (core k s) = [] \<Longrightarrow> sc_requests (f (core k s)) = []"
  shows "orderly_cores (set_core k f s)"
proof -
  have "list_all (\<lambda>p. tended (sw_clock s) (sw_timeout s) (snd p)) (sw_cores (set_core k f s))"
    using assms(1,2) by (auto simp: orderly_cores_def set_core_def list_all_iff)
  moreover have "list_all (\<lambda>j. sc_requests (core j (set_core k f s)) = []) (sw_doomed s)"
    using assms(1,3) by (auto simp: orderly_cores_def list_all_iff core_set_core)
  ultimately show ?thesis using assms(1) by (simp add: orderly_cores_def keyed_def)
qed

lemma orderly_fields:
  "orderly_cores (s\<lparr>sw_db := d\<rparr>) = orderly_cores s" "orderly_cores (s\<lparr>sw_fault := b\<rparr>) = orderly_cores s"
  "orderly_cores (s\<lparr>sw_delayed := b\<rparr>) = orderly_cores s" "orderly_cores (s\<lparr>sw_ready := b\<rparr>) = orderly_cores s"
  "orderly_cores (s\<lparr>sw_stored := st\<rparr>) = orderly_cores s" "orderly_cores (s\<lparr>sw_nonStored := ns\<rparr>) = orderly_cores s"
  "orderly_cores (s\<lparr>sw_stored := st, sw_nonStored := ns\<rparr>) = orderly_cores s"
  "orderly_cores (s\<lparr>sw_auth := a\<rparr>) = orderly_cores s" "orderly_cores (s\<lparr>sw_incr := n\<rparr>) = orderly_cores s"
  "orderly_cores (s\<lparr>sw_doomed_auth := l\<rparr>) = orderly_cores s"
  "orderly_cores (say e s) = orderly_cores s"
  by (simp_all add: orderly_cores_def keyed_def core_def say_def)

section \<open>The law\<close>

definition tallies :: "sessions \<Rightarrow> sessions \<Rightarrow> bool" where
  "tallies s s' \<longleftrightarrow> (orderly_cores s \<longrightarrow> orderly_cores s' \<and> (\<forall>c. s_due c s' = s_due c s))"

lemma pending_quiet: "quiet_core f \<Longrightarrow> pending_in c (f a) = pending_in c a"
proof -
  assume q: "quiet_core f"
  have "map rd_call xs = map fst (map (\<lambda>r. (rd_call r, rd_cancelKey r)) xs)" for xs by simp
  with q have "map rd_call (sc_requests (f a)) = map rd_call (sc_requests a)"
    by (metis quiet_core_def)
  with q show ?thesis by (simp add: pending_in_def remaining_def quiet_core_def map_tl)
qed

lemma requests_quiet:
  assumes "quiet_core f"
  shows "sc_requests (f a) = [] \<longleftrightarrow> sc_requests a = []"
proof -
  have "map (\<lambda>r. (rd_call r, rd_cancelKey r)) (sc_requests (f a)) = map (\<lambda>r. (rd_call r, rd_cancelKey r)) (sc_requests a)"
    using assms by (simp add: quiet_core_def)
  from arg_cong [OF this, of length] show ?thesis by (metis length_0_conv length_map)
qed

lemma tended_quiet: "quiet_core f \<Longrightarrow> tended t u (f a) = tended t u a"
  using requests_quiet [of f a] by (simp add: quiet_core_def tended_def idle_core_def split: option.split)

lemma orderly_keyed: "orderly_cores s \<Longrightarrow> keyed s"
  by (simp add: orderly_cores_def)

lemma tallies_set_core:
  assumes "\<And>a. tended (sw_clock s) (sw_timeout s) a \<Longrightarrow> tended (sw_clock s) (sw_timeout s) (f a)"
    and "\<And>a. sc_requests a = [] \<Longrightarrow> sc_requests (f a) = []" and "\<And>c a. pending_in c (f a) = pending_in c a"
  shows "tallies s (set_core k f s)"
  unfolding tallies_def using assms
  by (intro impI conjI allI orderly_set_core due_set_core_same orderly_keyed) simp_all

lemma tallies_quiet: "quiet_core f \<Longrightarrow> tallies s (set_core k f s)"
  by (rule tallies_set_core) (simp_all add: tended_quiet requests_quiet pending_quiet)

lemma tallies_active: "tallies s (sc_keepInUse k s)"
proof (cases "sw_clock s")
  case None
  then show ?thesis by (simp add: sc_keepInUse_def tallies_def)
next
  case (Some sec)
  have "tallies s (set_core k (\<lambda>c. c\<lparr>sc_lastActivity := sec\<rparr>) s)"
    by (rule tallies_set_core) (auto simp: Some tended_def idle_core_def pending_in_def remaining_def)
  then show ?thesis by (simp add: sc_keepInUse_def Some)
qed

lemma tallies_trans: "tallies s t \<Longrightarrow> tallies t u \<Longrightarrow> tallies s u"
  by (simp add: tallies_def)

lemma tallies_refl: "tallies s s"
  by (simp add: tallies_def)

lemma tallies_destroy:
  assumes "sw_clock s = Some sec" and "core_unused (sw_timeout s) sec (core k s)"
  shows "tallies s (sc_destroy k s)"
proof (cases "sc_requestIsActive (core k s) \<or> sc_watcher (core k s) \<noteq> NoWatcher")
  case True
  then show ?thesis by (simp add: sc_destroy_def tallies_active)
next
  case False
  have "sc_requests (core k s) = []" if "orderly_cores s"
    using tended_core [OF that, of k] assms by (auto simp: tended_def idle_core_def core_unused_def)
  then show ?thesis
    using False
    by (auto simp: tallies_def sc_destroy_def Let_def orderly_cores_def keyed_def core_def s_due_def s_answered_def s_waiting_def)
qed

lemma destroy_clock [simp]:
  "sw_clock (sc_destroy k s) = sw_clock s" "sw_timeout (sc_destroy k s) = sw_timeout s"
  by (simp_all add: sc_destroy_def sc_keepInUse_def Let_def split: option.splits)

lemma tallies_unused: "tallies s (sc_destroyUnused s)"
proof (cases "sw_clock s")
  case None
  then show ?thesis by (simp add: sc_destroyUnused_def tallies_def)
next
  case (Some sec)
  let ?f = "\<lambda>k s. if core_unused (sw_timeout s) sec (core k s)
     then set_core k (\<lambda>c. c\<lparr>sc_disposable := False\<rparr>) (sc_destroy k s) else s"
  have "tallies t (fold ?f ks t)" if "sw_clock t = Some sec" for ks t
    using that
  proof (induction ks arbitrary: t)
    case (Cons k ks)
    have "tallies t (?f k t)"
      using tallies_trans [OF tallies_destroy [OF Cons.prems, of k] tallies_quiet [OF quiet_cores(5)]] tallies_refl
      by simp
    moreover have "sw_clock (?f k t) = Some sec" using Cons.prems by simp
    ultimately have "tallies (?f k t) (fold ?f ks (?f k t))" using Cons.IH by blast
    from tallies_trans [OF \<open>tallies t (?f k t)\<close> this] show ?case by simp
  qed (simp add: tallies_def)
  with Some show ?thesis by (simp add: sc_destroyUnused_def)
qed

lemma tallies_event: "answers_call e = None \<Longrightarrow> tallies s (say e s)"
  by (simp add: tallies_def orderly_fields due_say)

lemma tallies_fields: "tallies s (s\<lparr>sw_db := d\<rparr>)" "tallies s (crash s)"
  by (simp_all add: tallies_def orderly_fields due_fields crash_def)

lemma tallies_db: "tallies s (snd (with_db f r s))"
  by (rule with_db_cases [of s f r]) (simp_all add: tallies_fields)

interpretation tally: session_law tallies
  by (rule session_law.intro)
     (rule tallies_refl tallies_trans tallies_quiet tallies_event tallies_fields tallies_db tallies_active tallies_unused;
      assumption)+

text \<open>What a core is asked stays the same in the same steps.\<close>

definition asks :: "session_core \<Rightarrow> (dbus_call \<times> nat) list \<times> bool \<times> bool \<times> nat \<times> qstring" where
  "asks c = (map (\<lambda>r. (rd_call r, rd_cancelKey r)) (sc_requests c), sc_requestIsActive c, sc_canceled c, sc_id c, sc_method c)"

definition same_asks :: "sessions \<Rightarrow> sessions \<Rightarrow> bool" where
  "same_asks s s' \<longleftrightarrow> (\<forall>k. map_option asks (map_of (sw_cores s') k) = map_option asks (map_of (sw_cores s) k))"

lemma same_asks_set: "(\<And>c. asks (f c) = asks c) \<Longrightarrow> same_asks s (set_core k f s)"
  by (auto simp: same_asks_def map_of_set_core option.map_comp comp_def)

lemma same_asks_refl: "same_asks s s"
  by (simp add: same_asks_def)

lemma same_asks_trans: "same_asks s t \<Longrightarrow> same_asks t u \<Longrightarrow> same_asks s u"
  by (simp add: same_asks_def)

lemma same_asks_fields: "sw_cores t = sw_cores s \<Longrightarrow> same_asks s t"
  by (simp add: same_asks_def)

lemma same_asks_active: "same_asks s (sc_keepInUse k s)"
  by (cases "sw_clock s") (auto simp: sc_keepInUse_def asks_def intro!: same_asks_set same_asks_refl)

lemma same_asks_destroy: "same_asks s (sc_destroy k s)"
  by (auto simp: sc_destroy_def Let_def same_asks_active intro: same_asks_fields)

lemma same_asks_quiet: "quiet_core f \<Longrightarrow> same_asks s (set_core k f s)"
  by (rule same_asks_set) (simp add: quiet_core_def asks_def)

lemma same_asks_unused: "same_asks s (sc_destroyUnused s)"
proof -
  have "same_asks t (fold (\<lambda>k s. if core_unused (sw_timeout s) sec (core k s)
     then set_core k (\<lambda>c. c\<lparr>sc_disposable := False\<rparr>) (sc_destroy k s) else s) ks t)" for sec ks t
  proof (induction ks arbitrary: t)
    case (Cons k ks)
    have "same_asks t (if core_unused (sw_timeout t) sec (core k t)
       then set_core k (\<lambda>c. c\<lparr>sc_disposable := False\<rparr>) (sc_destroy k t) else t)"
      using same_asks_trans [OF same_asks_destroy same_asks_quiet [OF quiet_cores(5)]] same_asks_refl by simp
    from same_asks_trans [OF this Cons.IH] show ?case by simp
  qed (simp add: same_asks_refl)
  then show ?thesis by (simp add: sc_destroyUnused_def same_asks_refl split: option.splits)
qed

interpretation asked: session_law same_asks
  by (rule session_law.intro)
     (rule same_asks_refl same_asks_trans same_asks_quiet same_asks_active same_asks_unused; assumption
      | rule same_asks_fields, simp add: crash_def with_db_def Let_def split: option.split prod.split)+

lemma same_asks_core: "same_asks s s' \<Longrightarrow> asks (core k s') = asks (core k s)
    \<and> (map_of (sw_cores s') k = None \<longleftrightarrow> map_of (sw_cores s) k = None)"
proof -
  assume "same_asks s s'"
  then have "map_option asks (map_of (sw_cores s') k) = map_option asks (map_of (sw_cores s) k)"
    by (simp add: same_asks_def)
  then show ?thesis by (cases "map_of (sw_cores s) k"; cases "map_of (sw_cores s') k") (simp_all add: core_def)
qed


section \<open>Steps that answer\<close>

lemma pending_head:
  "sc_requests c = rd # rest \<Longrightarrow> \<not> (sc_canceled c \<and> sc_requestIsActive c) \<Longrightarrow>
     pending_in call c = (if rd_call rd = call then 1 else 0) + count_list (map rd_call rest) call"
  by (auto simp: pending_in_def remaining_def)

lemma pending_head_canceled:
  "sc_requests c = rd # rest \<Longrightarrow> sc_canceled c \<Longrightarrow> sc_requestIsActive c \<Longrightarrow>
     pending_in call c = count_list (map rd_call rest) call"
  by (simp add: pending_in_def remaining_def)

lemma core_present: "sc_requests (core k s) \<noteq> [] \<Longrightarrow> map_of (sw_cores s) k = Some (core k s)"
  by (auto simp: core_def null_core_def split: option.splits)

text \<open>\<open>requestDone\<close> takes the head of the queue away.\<close>

lemma requestDone_due:
  assumes "orderly_cores s" and "sc_requests (core k s) = rd # rest"
  shows "orderly_cores (requestDone k s)"
    and "s_due c (requestDone k s) +
        (if \<not> (sc_canceled (core k s) \<and> sc_requestIsActive (core k s)) \<and> rd_call rd = c then 1 else 0) = s_due c s"
proof -
  let ?f = "\<lambda>c. c\<lparr>sc_requests := tl (sc_requests c), sc_requestIsActive := False\<rparr>"
  let ?s = "set_core k ?f s"
  note p = core_present [of k s]
  have "orderly_cores ?s"
    using tended_core [OF assms(1)] assms(2)
    by (intro orderly_set_core assms(1)) (auto simp: tended_def idle_core_def split: option.splits)
  moreover have q: "tallies ?s (requestDone k s)"
    unfolding requestDone_def queue_startNewRequest_def by (rule tallies_quiet) simp
  ultimately show "orderly_cores (requestDone k s)" by (simp add: tallies_def)
  have "s_due c ?s + pending_in c (core k s) = s_due c s + pending_in c (?f (core k s))"
    using due_set_core [OF orderly_keyed [OF assms(1)], of k "core k s" c ?f] p assms(2) by simp
  moreover have "pending_in c (?f (core k s)) = count_list (map rd_call rest) c"
    using assms(2) by (simp add: pending_in_def remaining_def)
  moreover have "s_due c (requestDone k s) = s_due c ?s"
    using q \<open>orderly_cores ?s\<close> by (simp add: tallies_def)
  ultimately show "s_due c (requestDone k s) +
        (if \<not> (sc_canceled (core k s) \<and> sc_requestIsActive (core k s)) \<and> rd_call rd = c then 1 else 0) = s_due c s"
    using assms(2) pending_head [of "core k s" rd rest c] pending_head_canceled [of "core k s" rd rest c]
    by (cases "sc_canceled (core k s) \<and> sc_requestIsActive (core k s)") auto
qed

text \<open>Answering the head of the queue of a core that has not been cancelled, and what may surround it.\<close>

lemma answer_and_done:
  assumes "tallies s t" "same_asks s t" and "tallies (say e t) u" "same_asks (say e t) u"
    and "sc_requests (core k s) = rd # rest" and "\<not> sc_canceled (core k s)" and "answers_call e = Some (rd_call rd)"
  shows "tallies s (requestDone k u)"
proof -
  have a: "asks (core k u) = asks (core k s)"
    using same_asks_core [OF assms(2), of k] same_asks_core [OF assms(4), of k] by simp
  then obtain rd' rest' where u: "sc_requests (core k u) = rd' # rest'" "rd_call rd' = rd_call rd" "\<not> sc_canceled (core k u)"
    using assms(5,6) by (auto simp: asks_def)
  have "orderly_cores u \<and> (\<forall>c. s_due c u = s_due c s + (if rd_call rd = c then 1 else 0))" if "orderly_cores s"
    using that assms(1,3,7) by (auto simp: tallies_def orderly_fields due_say)
  then show ?thesis
    using requestDone_due [OF _ u(1)] u(2,3) by (fastforce simp: tallies_def)
qed

text \<open>Dropping the head of a core that has been cancelled while it was active.\<close>

lemma canceled_and_done:
  assumes "tallies s t" "same_asks s t" and "sc_requests (core k s) = rd # rest"
    and "sc_canceled (core k s)" "sc_requestIsActive (core k s)"
  shows "tallies s (requestDone k t)"
proof -
  have a: "asks (core k t) = asks (core k s)" using same_asks_core [OF assms(2), of k] by simp
  then obtain rd' rest' where t: "sc_requests (core k t) = rd' # rest'" "sc_canceled (core k t)" "sc_requestIsActive (core k t)"
    using assms(3-5) by (auto simp: asks_def)
  show ?thesis
    using requestDone_due [OF _ t(1)] t(2,3) assms(1) by (fastforce simp: tallies_def)
qed

definition answerable :: "nat \<Rightarrow> sessions \<Rightarrow> bool" where
  "answerable k s \<longleftrightarrow> \<not> sc_canceled (core k s) \<or> sc_requestIsActive (core k s)"

lemma asked_tmp: "same_asks s (set_core k (\<lambda>c. c\<lparr>sc_tmpUsername := u, sc_tmpPassword := w\<rparr>) s)"
  by (rule same_asks_quiet) simp

lemma tally_tmp: "tallies s (set_core k (\<lambda>c. c\<lparr>sc_tmpUsername := u, sc_tmpPassword := w\<rparr>) s)"
  by (rule tallies_quiet) simp

lemma head_after:
  assumes "same_asks s t" and "sc_requests (core k t) = rd # rest"
  obtains rd' rest' where "sc_requests (core k s) = rd' # rest'" "rd_call rd' = rd_call rd"
    "sc_canceled (core k s) = sc_canceled (core k t)" "sc_requestIsActive (core k s) = sc_requestIsActive (core k t)"
  using same_asks_core [OF assms(1), of k] assms(2) by (auto simp: asks_def)

lemma tallies_result: "answerable k s \<Longrightarrow> tallies s (processResultReply k data s)"
proof -
  assume ok: "answerable k s"
  let ?s = "sc_keepInUse k s"
  note ka = asked.active [of s k] and kt = tally.active [of s k]
  show ?thesis
  proof (cases "sc_requests (core k ?s)")
    case Nil
    then show ?thesis by (simp add: processResultReply_def kt)
  next
    case (Cons rd rest)
    show ?thesis
    proof (cases "sc_canceled (core k ?s)")
      case True
      have "sc_requestIsActive (core k ?s)"
        using ok True same_asks_core [OF ka, of k] by (simp add: answerable_def asks_def)
      then have "tallies ?s (requestDone k ?s)"
        using canceled_and_done [OF tally.refl asked.refl Cons True] by blast
      then show ?thesis
        using tally.trans [OF kt] True Cons by (simp add: processResultReply_def)
    next
      case False
      let ?t = "set_core k (\<lambda>c. c\<lparr>sc_tmpUsername := QNull, sc_tmpPassword := QNull\<rparr>) (update_entry k ?s)"
      let ?e = "SReply (rd_call rd) [VMap (result_data (core k ?t) data)]"
      have "tallies ?s (requestDone k (close_ui k rd (say ?e ?t)))"
        by (rule answer_and_done [OF tally.then_quiet [OF tally.then_entry [OF tally.refl]]
              asked.then_quiet [OF asked.then_entry [OF asked.refl]] tally.then_close [OF tally.refl]
              asked.then_close [OF asked.refl] Cons False]) simp_all
      then show ?thesis
        using tally.trans [OF kt] False Cons by (simp add: processResultReply_def Let_def)
    qed
  qed
qed

lemma tallies_error: "answerable k s \<Longrightarrow> tallies s (processError k err msg s)"
proof -
  assume ok: "answerable k s"
  let ?s = "set_core k (\<lambda>c. c\<lparr>sc_tmpUsername := QNull, sc_tmpPassword := QNull\<rparr>) (sc_keepInUse k s)"
  have ka: "same_asks s ?s" and kt: "tallies s ?s"
    by (simp_all add: asked.then_quiet asked.active tally.then_quiet tally.active)
  show ?thesis
  proof (cases "sc_requests (core k ?s)")
    case Nil
    then show ?thesis by (simp add: processError_def Let_def kt)
  next
    case (Cons rd rest)
    show ?thesis
    proof (cases "sc_canceled (core k ?s)")
      case True
      have "sc_requestIsActive (core k ?s)"
        using ok True same_asks_core [OF ka, of k] by (simp add: answerable_def asks_def)
      then have "tallies ?s (requestDone k ?s)"
        using canceled_and_done [OF tally.refl asked.refl Cons True] by blast
      then show ?thesis
        using tally.trans [OF kt] True Cons by (simp add: processError_def Let_def)
    next
      case False
      obtain n t where e: "replyError k (rd_call rd) err msg ?s = say (SError (rd_call rd) n t) (sc_keepInUse k ?s)"
        by (cases "error_reply err msg") (simp add: replyError_def Let_def)
      have "tallies ?s (requestDone k (close_ui k rd (say (SError (rd_call rd) n t) (sc_keepInUse k ?s))))"
        by (rule answer_and_done [OF tally.active asked.active tally.then_close [OF tally.refl]
              asked.then_close [OF asked.refl] Cons False]) simp
      then show ?thesis
        using tally.trans [OF kt] False Cons by (simp add: processError_def Let_def e)
    qed
  qed
qed

end
