(* ===== verification/Session_Answers.thy ===== *)
theory Session_Answers
  imports Session_Accounting
begin

text \<open>
  Every step of the daemon keeps the account of answers, except in the few situations that are
  named here; so an authentication call is answered once.
\<close>

section \<open>Signals of a plugin\<close>

lemma canceled_slot: "\<not> sc_canceled (core k s) \<Longrightarrow> \<not> sc_canceled (core k (plugin_slot k sig s))"
proof -
  assume a: "\<not> sc_canceled (core k s)"
  have kept: "\<not> sc_canceled (core k t)" if "same_asks s t" for t
    using that a same_asks_core [of s t k] by (simp add: asks_def)
  have popped: "\<not> sc_canceled (core k (requestDone k t))" if "\<not> sc_canceled (core k t)" for t
    using that by (simp add: requestDone_def queue_startNewRequest_def core_set_core)
  have close: "\<not> sc_canceled (core k (close_ui k rd (say e t)))" if "same_asks s t" for rd e t
    using kept [OF that] same_asks_core [OF asked.then_close [OF asked.refl, of "say e t" k rd], of k]
    by (simp add: asks_def)
  show ?thesis
  proof (cases sig)
    case (ProcessResultReply m)
    have "same_asks s (set_core k (\<lambda>c. c\<lparr>sc_tmpUsername := QNull, sc_tmpPassword := QNull\<rparr>)
        (update_entry k (sc_keepInUse k s)))"
      by (simp add: asked.then_quiet asked.then_entry asked.active)
    then show ?thesis
      using ProcessResultReply kept [OF asked.active] popped close
      by (auto simp: processResultReply_def Let_def split: list.splits)
  next
    case (ProcessError e t)
    have 1: "same_asks s (set_core k (\<lambda>c. c\<lparr>sc_tmpUsername := QNull, sc_tmpPassword := QNull\<rparr>) (sc_keepInUse k s))"
      by (simp add: asked.then_quiet asked.active)
    have "\<not> sc_canceled (core k (close_ui k rd (replyError k c e t
        (set_core k (\<lambda>c. c\<lparr>sc_tmpUsername := QNull, sc_tmpPassword := QNull\<rparr>) (sc_keepInUse k s)))))" for rd c
      using close [OF asked.trans [OF 1 asked.active]] by (cases "error_reply e t") (simp add: replyError_def Let_def)
    then show ?thesis
      using ProcessError kept [OF 1] popped
      by (auto simp: processError_def Let_def split: list.splits)
  qed (use kept asked.slot [of sig s k] in auto)
qed

text \<open>A batch of signals: while the active request is cancelled, at most one of them may end it.\<close>

definition one_end :: "nat \<Rightarrow> plugin_signal list \<Rightarrow> sessions \<Rightarrow> bool" where
  "one_end k sigs s \<longleftrightarrow> sc_canceled (core k s) \<longrightarrow>
     sc_requestIsActive (core k s) \<and> length (filter answering sigs) \<le> 1"

lemma tallies_slot: "answerable k s \<Longrightarrow> tallies s (plugin_slot k sig s)"
  using tally.slot [of sig s k] by (cases sig) (simp_all add: tallies_result tallies_error)

lemma tallies_slots: "one_end k sigs s \<Longrightarrow> tallies s (fold (plugin_slot k) sigs s)"
proof (induction sigs arbitrary: s)
  case (Cons sig sigs)
  have 1: "tallies s (plugin_slot k sig s)"
    using Cons.prems by (intro tallies_slot) (auto simp: one_end_def answerable_def)
  have 2: "tallies (plugin_slot k sig s) (fold (plugin_slot k) sigs (plugin_slot k sig s))"
  proof (cases "sc_canceled (core k s) \<and> answering sig")
    case True
    then have "list_all (\<lambda>x. \<not> answering x) sigs"
      using Cons.prems by (auto simp: one_end_def list_all_iff filter_empty_conv)
    then show ?thesis by (rule tally.slots)
  next
    case False
    have "one_end k sigs (plugin_slot k sig s)"
      using False Cons.prems canceled_slot [of k s sig] same_asks_core [OF asked.slot [of sig s k], of k]
      by (auto simp: one_end_def asks_def split: if_splits)
    then show ?thesis by (rule Cons.IH)
  qed
  show ?case using tallies_trans [OF 1 2] by simp
qed (simp add: tallies_refl)

lemma tallies_emits:
  assumes "one_end k (fst (f (sc_plugin (core k s)))) s"
  shows "tallies s (plugin_emits k f s)"
proof -
  obtain sigs p where f: "f (sc_plugin (core k s)) = (sigs, p)" by force
  let ?s = "set_core k (\<lambda>c. c\<lparr>sc_plugin := p\<rparr>) s"
  have 1: "tallies s ?s" and 2: "same_asks s ?s" by (simp_all add: tallies_quiet same_asks_quiet)
  have "one_end k sigs ?s"
    using assms same_asks_core [OF 2, of k] by (simp add: f one_end_def asks_def)
  from tallies_trans [OF 1 tallies_slots [OF this]] show ?thesis by (simp add: plugin_emits_def f)
qed

section \<open>Requests\<close>

definition due_plus :: "dbus_call \<Rightarrow> nat \<Rightarrow> sessions \<Rightarrow> sessions \<Rightarrow> bool" where
  "due_plus call n s s' \<longleftrightarrow> (orderly_cores s \<longrightarrow> orderly_cores s'
     \<and> (\<forall>c. s_due c s' = s_due c s + (if c = call then n else 0)))"

lemma due_plus_0 [simp]: "due_plus call 0 s s' = tallies s s'"
  by (simp add: due_plus_def tallies_def)

lemma due_plus_trans: "due_plus call m s t \<Longrightarrow> due_plus call n t u \<Longrightarrow> due_plus call (m + n) s u"
  by (simp add: due_plus_def)

lemma due_plus_say: "answers_call e = Some call \<Longrightarrow> due_plus call 1 s (say e s)"
  by (auto simp: due_plus_def orderly_fields due_say)

lemma idle_core_simps [simp]:
  "idle_core t u (a\<lparr>sc_requests := r\<rparr>) = idle_core t u a"
  "idle_core t u (a\<lparr>sc_requests := r, sc_requestIsActive := b\<rparr>) = idle_core t u a"
  "idle_core t u (a\<lparr>sc_canceled := b\<rparr>) = idle_core t u a"
  "idle_core t u (a\<lparr>sc_canceled := b, sc_plugin := p\<rparr>) = idle_core t u a"
  "idle_core t u (a\<lparr>sc_requestIsActive := b, sc_clientData := d\<rparr>) = idle_core t u a"
  by (simp_all add: idle_core_def split: option.split)

lemma orderly_set_core_at:
  assumes "orderly_cores s" and "map_of (sw_cores s) k = Some a"
    and "tended (sw_clock s) (sw_timeout s) a \<Longrightarrow> tended (sw_clock s) (sw_timeout s) (f a)"
    and "k \<in> set (sw_doomed s) \<Longrightarrow> sc_requests a = [] \<Longrightarrow> sc_requests (f a) = []"
  shows "orderly_cores (set_core k f s)"
proof -
  have d: "distinct (map fst (sw_cores s))" using assms(1) by (simp add: orderly_cores_def keyed_def)
  have "tended (sw_clock s) (sw_timeout s) (if j = k then f c else c)" if jc: "(j, c) \<in> set (sw_cores s)" for j c
  proof (cases "j = k")
    case True
    then have "map_of (sw_cores s) k = Some c" using jc d by simp
    then show ?thesis using True assms(2,3) tended_core [OF assms(1), of k] by (simp add: core_def)
  qed (use assms(1) jc in \<open>force simp: orderly_cores_def list_all_iff\<close>)
  then have "list_all (\<lambda>p. tended (sw_clock s) (sw_timeout s) (snd p)) (sw_cores (set_core k f s))"
    by (auto simp: set_core_def list_all_iff)
  then show ?thesis
    using assms(1,2,4) by (auto simp: orderly_cores_def keyed_def list_all_iff core_set_core) (auto simp: core_def)
qed

lemma due_plus_process:
  assumes "map_of (sw_cores s) k \<noteq> None" and "k \<notin> set (sw_doomed s)"
  shows "due_plus call 1 s (sc_process k call data mech key s)"
proof -
  obtain a where a: "map_of (sw_cores s) k = Some a" using assms(1) by blast
  let ?s = "sc_keepInUse k s"
  let ?r = "\<lparr>rd_call = call, rd_params = data, rd_mechanism = mech, rd_cancelKey = key\<rparr>"
  let ?f = "\<lambda>c. c\<lparr>sc_requests := sc_requests c @ [?r]\<rparr>"
  have f: "sw_clock ?s = sw_clock s" "sw_timeout ?s = sw_timeout s" "sw_doomed ?s = sw_doomed s"
    by (simp_all add: sc_keepInUse_def split: option.splits)
  obtain a' where a': "map_of (sw_cores ?s) k = Some a'" "\<not> idle_core (sw_clock s) (sw_timeout s) a'"
    using a by (cases "sw_clock s") (auto simp: sc_keepInUse_def map_of_set_core idle_core_def)
  have "due_plus call 1 ?s (set_core k ?f ?s)"
    unfolding due_plus_def
  proof (intro impI conjI allI)
    assume o: "orderly_cores ?s"
    show "orderly_cores (set_core k ?f ?s)"
      using assms(2) a'(2) f by (intro orderly_set_core_at [OF o a'(1)]) (auto simp: tended_def idle_core_def split: option.splits)
    show "s_due c (set_core k ?f ?s) = s_due c ?s + (if c = call then 1 else 0)" for c
    proof -
      have "sc_requestIsActive a' \<longrightarrow> sc_requests a' \<noteq> []"
        using tended_core [OF o, of k] a'(1) by (simp add: tended_def core_def)
      then have "pending_in c (?f a') = pending_in c a' + (if c = call then 1 else 0)"
        by (auto simp: pending_in_def remaining_def)
      then show ?thesis using due_set_core [OF orderly_keyed [OF o] a'(1), of c ?f] by simp
    qed
  qed
  moreover have "tallies (set_core k ?f ?s) (sc_process k call data mech key s)"
    by (auto simp: sc_process_def Let_def queue_startNewRequest_def tallies_refl intro: tallies_quiet)
  ultimately show ?thesis
    using due_plus_trans [of call 0 s ?s 1] due_plus_trans [of call 1 s _ 0] tallies_active [of s k] by fastforce
qed

text \<open>A second cancellation of the active request.\<close>

definition cancels_twice :: "nat \<Rightarrow> nat \<Rightarrow> sessions \<Rightarrow> bool" where
  "cancels_twice k key s \<longleftrightarrow> request_index key (sc_requests (core k s)) = 0 \<and> sc_requests (core k s) \<noteq> []
     \<and> sc_requestIsActive (core k s) \<and> sc_canceled (core k s)"

lemma count_list_nth_drop:
  "i < length xs \<Longrightarrow> count_list (map f xs) c =
     count_list (map f (take i xs @ drop (Suc i) xs)) c + (if f (xs ! i) = c then 1 else 0)"
proof -
  assume i: "i < length xs"
  then have "xs = take i xs @ xs ! i # drop (Suc i) xs" by (simp add: id_take_nth_drop)
  then have "count_list (map f xs) c = count_list (map f (take i xs @ xs ! i # drop (Suc i) xs)) c" by simp
  then show ?thesis by simp
qed

lemma take_drop_tl: "0 < i \<Longrightarrow> tl (take i xs @ drop (Suc i) xs) = take (i - 1) (tl xs) @ drop (Suc (i - 1)) (tl xs)"
  by (cases xs; cases i) simp_all

lemma tallies_remove_request:
  assumes "i < length (sc_requests (core k s))" and "\<not> (i = 0 \<and> sc_requestIsActive (core k s))"
    and "rd = sc_requests (core k s) ! i"
  shows "tallies s (say (SError (rd_call rd) n t)
    (set_core k (\<lambda>c. c\<lparr>sc_requests := take i (sc_requests c) @ drop (Suc i) (sc_requests c)\<rparr>) s))"
proof -
  let ?c = "core k s"
  let ?f = "\<lambda>c. c\<lparr>sc_requests := take i (sc_requests c) @ drop (Suc i) (sc_requests c)\<rparr>"
  have p: "map_of (sw_cores s) k = Some ?c" using assms(1) by (intro core_present) auto
  have n: "pending_in c ?c = pending_in c (?f ?c) + (if rd_call rd = c then 1 else 0)" for c
  proof (cases "sc_canceled ?c \<and> sc_requestIsActive ?c")
    case True
    then have i: "0 < i" "i - 1 < length (tl (sc_requests ?c))" "tl (sc_requests ?c) ! (i - 1) = rd"
      using assms by (auto simp: nth_tl)
    show ?thesis
      using True count_list_nth_drop [OF i(2), of rd_call c] i(3)
      by (simp add: pending_in_def remaining_def take_drop_tl [OF i(1)])
  next
    case False
    then show ?thesis
      using count_list_nth_drop [OF assms(1), of rd_call c] assms(3)
      by (auto simp: pending_in_def remaining_def)
  qed
  have o: "orderly_cores (set_core k ?f s)" if "orderly_cores s"
    using assms(1,2) by (intro orderly_set_core_at [OF that p]) (auto simp: tended_def take_Cons' drop_Cons')
  show ?thesis
    using o due_set_core [OF orderly_keyed p, of _ ?f] n
    by (fastforce simp: tallies_def orderly_fields due_say)
qed

lemma tallies_cancel:
  assumes "\<not> cancels_twice k key s"
  shows "tallies s (sc_cancel k key s)"
proof -
  let ?c = "core k s" and ?i = "request_index key (sc_requests (core k s))"
  show ?thesis
  proof (cases "?i < length (sc_requests ?c)")
    case False
    then show ?thesis by (simp add: sc_cancel_def Let_def tallies_refl)
  next
    case in_queue: True
    show ?thesis
    proof (cases "?i = 0 \<and> sc_requestIsActive ?c")
      case False
      then show ?thesis
        using tallies_remove_request [OF in_queue False refl] in_queue by (auto simp: sc_cancel_def Let_def)
    next
      case True
      then obtain rd rest where c: "sc_requests ?c = rd # rest" "\<not> sc_canceled ?c"
        using in_queue assms by (cases "sc_requests ?c") (auto simp: cancels_twice_def)
      let ?f = "\<lambda>c. c\<lparr>sc_canceled := True, sc_plugin := pp_cancel (sc_plugin c)\<rparr>"
      let ?e = "SError (rd_call rd) ''SessionCanceled'' (QStr ''Session processing was canceled.'')"
      have p: "map_of (sw_cores s) k = Some ?c" using c by (intro core_present) auto
      have o: "orderly_cores (set_core k ?f s)" if "orderly_cores s"
        by (intro orderly_set_core_at [OF that p]) (auto simp: tended_def)
      have n: "pending_in c ?c = pending_in c (?f ?c) + (if rd_call rd = c then 1 else 0)" for c
        using True c by (simp add: pending_in_def remaining_def)
      have 1: "tallies s (say ?e (set_core k ?f s))"
        using o due_set_core [OF orderly_keyed p, of _ ?f] n by (fastforce simp: tallies_def orderly_fields due_say)
      have 2: "tallies (set_core k ?f s) t \<Longrightarrow> tallies s (say ?e t)" for t
        using 1 by (simp add: tallies_def orderly_fields due_say)
      have "sc_cancel k key s = say ?e (if sc_watcher (core k (set_core k ?f s)) = Waiting
          then delete_watcher k (say (SCancelUiRequest key) (set_core k ?f s)) else set_core k ?f s)"
        using True c in_queue by (simp add: sc_cancel_def Let_def)
      then show ?thesis using 2 by (simp add: tallies_refl tally.then_delete tallies_event)
    qed
  qed
qed


section \<open>Starting requests\<close>

lemma tallies_at:
  assumes "map_of (sw_cores s) k = Some a" and "\<And>t u. tended t u a \<Longrightarrow> tended t u (f a)"
    and "sc_requests a = [] \<Longrightarrow> sc_requests (f a) = []" and "\<And>c. pending_in c (f a) = pending_in c a"
  shows "tallies s (set_core k f s)"
  unfolding tallies_def
  using assms due_set_core [OF orderly_keyed assms(1), of _ f]
  by (auto intro!: orderly_set_core_at [OF _ assms(1)])

lemma tallies_uncancel:
  assumes "\<not> (sc_canceled (core k s) \<and> sc_requestIsActive (core k s))"
  shows "tallies s (set_core k (\<lambda>c. c\<lparr>sc_canceled := False\<rparr>) s)"
proof (cases "map_of (sw_cores s) k")
  case None
  then show ?thesis by (simp add: set_core_absent tallies_refl)
next
  case (Some a)
  then have "\<not> (sc_canceled a \<and> sc_requestIsActive a)" using assms by (simp add: core_def)
  with Some show ?thesis
    by (intro tallies_at) (auto simp: tended_def pending_in_def remaining_def)
qed

lemma tallies_setAutoDestruct:
  assumes "v \<longrightarrow> sc_requests (core k s) = []"
  shows "tallies s (sc_setAutoDestruct k v s)"
proof (cases "map_of (sw_cores s) k")
  case None
  then show ?thesis by (simp add: sc_setAutoDestruct_def set_core_absent tallies_active)
next
  case (Some a)
  then have "tallies s (set_core k (\<lambda>c. c\<lparr>sc_autoDestruct := v\<rparr>) s)"
    using assms by (intro tallies_at) (auto simp: tended_def idle_core_def pending_in_def remaining_def core_def split: option.splits)
  then show ?thesis unfolding sc_setAutoDestruct_def by (rule tallies_trans) (rule tallies_active)
qed

lemma tallies_startProcess:
  assumes "\<not> sc_canceled (core k s)"
  shows "tallies s (startProcess k s)"
proof (cases "sc_requests (core k s)")
  case Nil
  then show ?thesis by (simp add: startProcess_def tally.fault)
next
  case (Cons rd rest)
  let ?s1 = "set_core k (\<lambda>c. c\<lparr>sc_requestIsActive := True, sc_clientData := rd_params rd\<rparr>) s"
  obtain m s2 where 2: "request_parameters k rd ?s1 = (m, s2)" by force
  have l: "tallies ?s1 s2" "same_asks ?s1 s2"
    using tally.then_params [OF tally.refl, of ?s1 k rd] asked.then_params [OF asked.refl, of ?s1 k rd] 2 by simp_all
  have p: "map_of (sw_cores s) k = Some (core k s)" using Cons by (intro core_present) simp
  have 1: "tallies s ?s1"
    using assms Cons by (intro tallies_at [OF p]) (auto simp: tended_def pending_in_def remaining_def)
  have h: "sc_requests (core k ?s1) = rd # rest" "\<not> sc_canceled (core k ?s1)"
    using Cons assms p by (simp_all add: core_set_core)
  let ?e = "SError (rd_call rd) ''Runtime'' (QStr ''Casting SessionData into subclass failed.'')"
  have err: "tallies ?s1 (requestDone k (say ?e t))" if "tallies ?s1 t" "same_asks ?s1 t" for t
    by (rule answer_and_done [OF that tally.refl asked.refl h]) simp
  let ?m = "qm_touch SSO_KEY_PASSWORD (qm_touch SSO_KEY_USERNAME
      (if qm_contains m SSOUI_KEY_UIPOLICY \<and> v_eq_int (qm_value m SSOUI_KEY_UIPOLICY VInvalid) RequestPasswordPolicy
       then qm_remove SSO_KEY_PASSWORD m else m))"
  let ?p = "pp_process (sw_codec s2) ?m (rd_mechanism rd) (sc_plugin (core k s2))"
  let ?t = "set_core k (\<lambda>c. c\<lparr>sc_tmpUsername := v_toString (qm_value ?m SSO_KEY_USERNAME VInvalid),
      sc_tmpPassword := v_toString (qm_value ?m SSO_KEY_PASSWORD VInvalid), sc_plugin := snd ?p\<rparr>) s2"
  have f: "startProcess k s =
      (if \<not> fst ?p then requestDone k (say ?e ?t)
       else stateChangedSlot k SessionStarted (QStr ''The request is started successfully'') ?t)"
    by (simp only: startProcess_def Cons list.case 2 Let_def prod.case case_prod_beta fst_conv snd_conv)
  have t: "tallies ?s1 ?t" "same_asks ?s1 ?t"
    using tally.then_quiet [OF l(1)] asked.then_quiet [OF l(2)] by simp_all
  have "tallies ?s1 (startProcess k s)"
    unfolding f using err [OF t] tallies_trans [OF t(1) tally.stateChangedSlot] by (simp only: if_splits) blast
  then show ?thesis by (rule tallies_trans [OF 1])
qed

lemma tallies_startNewRequest:
  assumes "\<not> (sc_canceled (core k s) \<and> sc_requestIsActive (core k s))"
  shows "tallies s (startNewRequest k s)"
proof -
  let ?keep = "sc_keepInUse k s"
  let ?s = "set_core k (\<lambda>c. c\<lparr>sc_canceled := False\<rparr>) ?keep"
  have "asks (core k ?keep) = asks (core k s)" using same_asks_core [OF asked.active] by blast
  then have "\<not> (sc_canceled (core k ?keep) \<and> sc_requestIsActive (core k ?keep))" using assms by (simp add: asks_def)
  from tallies_trans [OF tallies_active tallies_uncancel [OF this]] have 1: "tallies s ?s" .
  have c: "\<not> sc_canceled (core k ?s)"
    by (cases "map_of (sw_cores ?keep) k") (auto simp: map_of_set_core set_core_absent core_def null_core_def)
  have 2: "tallies ?s (sc_setAutoDestruct k False ?s)" by (rule tallies_setAutoDestruct) simp
  have "\<not> sc_canceled (core k (sc_setAutoDestruct k False ?s))"
    using c by (auto simp: sc_setAutoDestruct_def sc_keepInUse_def core_set_core split: option.splits)
  from tallies_trans [OF 2 tallies_startProcess [OF this]]
  have 3: "tallies ?s (startProcess k (sc_setAutoDestruct k False ?s))" .
  have 4: "tallies ?s (sc_setAutoDestruct k True ?s)" if "sc_requests (core k ?s) = []"
    using that by (intro tallies_setAutoDestruct) simp
  show ?thesis
    using 1 tallies_trans [OF 1 3] tallies_trans [OF 1 4] by (simp add: startNewRequest_def Let_def)
qed


section \<open>Sessions\<close>

lemma tallies_setId: "tallies s (sc_setId k n s)"
proof -
  have q: "tallies t (set_core k (\<lambda>c. c\<lparr>sc_id := m\<rparr>) t)" for t m
    by (rule tallies_set_core) (auto simp: tended_def idle_core_def pending_in_def remaining_def split: option.splits)
  have f: "tallies t (t\<lparr>sw_stored := a, sw_nonStored := b\<rparr>)" "tallies t (t\<lparr>sw_nonStored := b, sw_stored := a\<rparr>)" for t a b
    by (simp_all add: tallies_def orderly_cores_def keyed_def core_def s_due_def s_answered_def s_waiting_def)
  show ?thesis
    using tallies_trans [OF tallies_active tallies_trans [OF f(1) q]] tallies_trans [OF tallies_active tallies_trans [OF f(2) q]]
      tallies_active
    by (simp add: sc_setId_def Let_def)
qed

lemma tallies_sessionCore: "tallies s (snd (sessionCore n method s))"
proof -
  let ?s = "s\<lparr>sw_next := sw_next s + 1\<rparr>"
  have o: "orderly_cores ?s" if "orderly_cores s"
    using that by (auto simp: orderly_cores_def keyed_def core_def)
  have 1: "tallies s ?s" using o by (simp add: tallies_def due_fields)
  have 2: "tallies s (?s\<lparr>sw_cores := sw_cores ?s @ [(sw_next s, null_core\<lparr>sc_id := n, sc_method := method, sc_plugin := p\<rparr>)]\<rparr>)" for p
  proof -
    let ?c = "null_core\<lparr>sc_id := n, sc_method := method, sc_plugin := p\<rparr>"
    have "orderly_cores (?s\<lparr>sw_cores := sw_cores ?s @ [(sw_next s, ?c)]\<rparr>)" if a: "orderly_cores s"
    proof -
      have k: "sw_next s \<notin> set (map fst (sw_cores s))" using a by (auto simp: orderly_cores_def keyed_def)
      have "sc_requests (case map_of (sw_cores s @ [(sw_next s, ?c)]) j of None \<Rightarrow> null_core | Some c \<Rightarrow> c) = sc_requests (core j s)" for j
        by (auto simp: core_def map_add_def null_core_def split: option.splits)
      then show ?thesis
        using a k by (auto simp: orderly_cores_def keyed_def core_def list_all_iff tended_def null_core_def less_Suc_eq)
    qed
    moreover have "s_due c (?s\<lparr>sw_cores := sw_cores ?s @ [(sw_next s, ?c)]\<rparr>) = s_due c s" for c
      by (simp add: s_due_def s_answered_def s_waiting_def pending_in_def remaining_def null_core_def)
    ultimately show ?thesis by (simp add: tallies_def)
  qed
  have 3: "tallies t (t\<lparr>sw_stored := a\<rparr>)" "tallies t (t\<lparr>sw_nonStored := b\<rparr>)" for t a b
    by (simp_all add: tallies_def orderly_fields due_fields)
  show ?thesis
    using 1 tallies_trans [OF tallies_trans [OF 2 tallies_active] 3(1)] tallies_trans [OF tallies_trans [OF 2 tallies_active] 3(2)]
    by (auto simp: sessionCore_def Let_def tallies_refl split: option.splits)
qed

lemma tallies_createAuth: "tallies s (snd (createAuthSession n meth pid s))"
proof -
  have f: "tallies t (t\<lparr>sw_incr := i, sw_auth := a\<rparr>)" for t i a
    by (simp add: tallies_def orderly_fields due_fields)
  obtain k t where k: "sessionCore n meth s = (k, t)" by force
  have 1: "tallies s t" using tallies_sessionCore [of s n meth] k by simp
  have 2: "tallies t (if map_of (sw_cores t) j = None then crash t else t)" for j
    by (simp add: tally.fault tallies_refl)
  show ?thesis
    using 1 tallies_trans [OF 1 tallies_trans [OF 2 tallies_trans [OF f tallies_active]]]
    by (auto simp: createAuthSession_def k Let_def childEvent_def split: option.splits)
qed

lemma tallies_auth_fields:
  "tallies s (s\<lparr>sw_delayed := b\<rparr>)" "tallies s (s\<lparr>sw_doomed_auth := l\<rparr>)" "tallies s (s\<lparr>sw_auth := a\<rparr>)"
  by (simp_all add: tallies_def orderly_fields due_fields)

lemma due_getAuthSession:
  assumes "getAuthSession c n type s = (a, t)"
  shows "due_plus c (if a = None then 1 else 0) s t"
proof -
  obtain a' s1 where 1: "createAuthSession n type (pidOfPeer (sw_pids s) c) s = (a', s1)" by force
  have t: "tallies s s1" using tallies_createAuth [of s n type "pidOfPeer (sw_pids s) c"] 1 by simp
  show ?thesis
  proof (cases a')
    case None
    have "due_plus c 1 s (say (SError c ''MethodNotKnown'' QNull) (s1\<lparr>sw_delayed := True\<rparr>))"
      using due_plus_trans [of c 0 s "s1\<lparr>sw_delayed := True\<rparr>" 1] tallies_trans [OF t tallies_auth_fields(1)] due_plus_say
      by simp
    then show ?thesis using assms None by (auto simp: getAuthSession_def 1)
  qed (use assms t in \<open>auto simp: getAuthSession_def 1\<close>)
qed

text \<open>Deletion takes cores without requests only.\<close>

lemma tallies_deletes: "tallies s (session_deletes s)"
proof -
  have a: "tallies s (fold (\<lambda>a s. childEvent (parent a s) False (s\<lparr>sw_auth := filter (\<lambda>p. fst p \<noteq> a) (sw_auth s)\<rparr>)) as s)" for as s
  proof (induction as arbitrary: s)
    case (Cons a as)
    show ?case
      using tallies_trans [OF tallies_trans [OF tallies_auth_fields(3) tallies_unused] Cons.IH]
      by (simp add: childEvent_def)
  qed (simp add: tallies_refl)
  have d: "tallies t (t\<lparr>sw_cores := filter (\<lambda>p. fst p \<notin> set (sw_doomed t)) (sw_cores t), sw_doomed := [], sw_doomed_auth := []\<rparr>)" for t
  proof -
    have "pending_in c (snd p) = 0" if "orderly_cores t" "p \<in> set (sw_cores t)" "fst p \<in> set (sw_doomed t)" for c p
    proof -
      have "core (fst p) t = snd p"
        using that by (cases p) (auto simp: orderly_cores_def keyed_def core_def)
      then have "sc_requests (snd p) = []" using that by (auto simp: orderly_cores_def list_all_iff)
      then show ?thesis by (simp add: pending_in_def remaining_def)
    qed
    then have "sum_list (map (\<lambda>p. pending_in c (snd p)) (filter (\<lambda>p. fst p \<notin> set (sw_doomed t)) (sw_cores t)))
        = sum_list (map (\<lambda>p. pending_in c (snd p)) (sw_cores t))" if "orderly_cores t" for c
      using that by (intro sum_list_map_filter) auto
    then show ?thesis
      by (auto simp: tallies_def orderly_cores_def keyed_def list_all_iff s_due_def s_answered_def s_waiting_def
          intro: distinct_map_filter)
  qed
  show ?thesis unfolding session_deletes_def Let_def by (rule tallies_trans [OF a d])
qed


section \<open>Calls of clients\<close>

lemma delayed_keepInUse [simp]: "sw_delayed (sc_keepInUse k s) = sw_delayed s"
  by (simp add: sc_keepInUse_def split: option.split)

lemma delayed_destroyUnused [simp]: "sw_delayed (sc_destroyUnused s) = sw_delayed s"
proof -
  have d: "sw_delayed (sc_destroy k t) = sw_delayed t" for k t
    by (simp add: sc_destroy_def Let_def)
  have "sw_delayed (fold (\<lambda>k s. if core_unused (sw_timeout s) sec (core k s)
      then set_core k (\<lambda>c. c\<lparr>sc_disposable := False\<rparr>) (sc_destroy k s) else s) ks t) = sw_delayed t" for sec ks t
    by (induction ks arbitrary: t) (simp_all add: d)
  then show ?thesis by (simp add: sc_destroyUnused_def split: option.split)
qed

interpretation delay: session_law "\<lambda>s t. sw_delayed t = sw_delayed s"
  by (rule session_law.intro) (simp_all add: crash_def with_db_def Let_def case_prod_beta split: option.split)

lemma delayed_steps:
  "sw_delayed (snd (sessionCore n meth s)) = sw_delayed s"
  "sw_delayed (snd (createAuthSession n meth pid s)) = sw_delayed s"
  "sw_delayed (sc_cancel k key s) = sw_delayed s" "sw_delayed (sc_setId k n s) = sw_delayed s"
proof -
  show 1: "sw_delayed (snd (sessionCore n meth s)) = sw_delayed s" for n meth s
    by (simp add: sessionCore_def Let_def split: option.split)
  show "sw_delayed (snd (createAuthSession n meth pid s)) = sw_delayed s"
    using 1 [of n meth s] by (auto simp: createAuthSession_def Let_def childEvent_def crash_def split: prod.splits option.splits)
  show "sw_delayed (sc_cancel k key s) = sw_delayed s"
    by (simp add: sc_cancel_def Let_def delay.then_delete [OF refl])
qed (simp add: sc_setId_def Let_def)

lemma check_mechanism_frame:
  assumes "check_mechanism a mech s = (x, t)"
  shows "tallies s t" "sw_delayed t = sw_delayed s" "sw_doomed t = sw_doomed s" "sw_pids t = sw_pids s" "sw_auth t = sw_auth s"
    and "map_of (sw_cores t) j = None \<longleftrightarrow> map_of (sw_cores s) j = None"
proof -
  have k: "sw_doomed (sc_keepInUse i u) = sw_doomed u" "sw_pids (sc_keepInUse i u) = sw_pids u"
    "sw_auth (sc_keepInUse i u) = sw_auth u" "sw_db (sc_keepInUse i u) = sw_db u"
    "map_of (sw_cores (sc_keepInUse i u)) j = None \<longleftrightarrow> map_of (sw_cores u) j = None" for i u
    by (simp_all add: sc_keepInUse_def map_of_set_core split: option.split)
  have d: "tallies u (u\<lparr>sw_db := e\<rparr>)" for u e by (rule tallies_fields)
  note ds = assms check_mechanism_def as_id_def as_method_def with_db_def crash_def Let_def
  show "tallies s t"
    using assms tallies_trans [OF tallies_active tallies_trans [OF d tallies_active]] tallies_active
    by (auto simp: check_mechanism_def as_id_def as_method_def with_db_def Let_def k split: prod.splits if_splits option.splits)
  show "sw_delayed t = sw_delayed s" "sw_doomed t = sw_doomed s" "sw_pids t = sw_pids s" "sw_auth t = sw_auth s"
    "map_of (sw_cores t) j = None \<longleftrightarrow> map_of (sw_cores s) j = None"
    using assms by (auto simp: check_mechanism_def as_id_def as_method_def with_db_def Let_def k split: prod.splits if_splits option.splits)
qed

text \<open>The calls whose caller is told of an error and gets an empty reply as well.\<close>

definition refused :: "dbus_call \<Rightarrow> session_call \<Rightarrow> sessions \<Rightarrow> bool" where
  "refused c m s0 =
     (let s = s0\<lparr>sw_delayed := False\<rparr> in
      case m of
        QueryAvailableMechanisms a _ \<Rightarrow> \<not> owned_by_peer a c s
      | Process a _ mech \<Rightarrow> \<not> fst (fst (check_mechanism a mech s)) \<or> \<not> owned_by_peer a c s
      | _ \<Rightarrow> False)"

text \<open>What a client or the event loop must not do for the account to be kept: cancel a request a
  second time, start a new request while the plugin has not answered a cancelled one, let more
  than one signal end a cancelled request, let a core with requests idle for its time.\<close>

fun orderly :: "session_happening \<Rightarrow> sessions \<Rightarrow> bool" where
  "orderly (SessionCall c m) s =
     (case m of
        Cancel a \<Rightarrow> \<not> cancels_twice (parent a s) a s
      | ObjectUnref a \<Rightarrow> \<not> cancels_twice (parent a s) a s
      | Process a _ _ \<Rightarrow> map_of (sw_cores s) (parent a s) \<noteq> None
      | _ \<Rightarrow> True)"
| "orderly (StartNewRequest k) s = (\<not> (sc_canceled (core k s) \<and> sc_requestIsActive (core k s)))"
| "orderly (PluginWrites k bs) s = one_end k (fst (plugin_writes (sw_codec s) bs (sc_plugin (core k s)))) s"
| "orderly (PluginExits k crashed) s = one_end k (fst (onExit crashed (sc_plugin (core k s)))) s"
| "orderly (SessionClock t) s = list_all (\<lambda>p. tended t (sw_timeout s) (snd p)) (sw_cores s)"
| "orderly _ s = True"

definition replied :: "dbus_call \<Rightarrow> bool \<Rightarrow> sessions \<Rightarrow> sessions \<Rightarrow> bool" where
  "replied c extra s t \<longleftrightarrow> due_plus c (if sw_delayed t \<or> extra then 1 else 0) s t \<and> (extra \<longrightarrow> \<not> sw_delayed t)"

lemma replied_tallies: "tallies s t \<Longrightarrow> sw_delayed t = sw_delayed s \<Longrightarrow> \<not> sw_delayed s \<Longrightarrow> replied c False s t"
  by (simp add: replied_def)

lemma replied_refusal: "tallies s t \<Longrightarrow> sw_delayed t = sw_delayed s \<Longrightarrow> \<not> sw_delayed s \<Longrightarrow> replied c True s (aa_errorReply c n t)"
  using due_plus_trans [of c 0 s t 1 "say (SError c n QNull) t"] due_plus_say [of "SError c n QNull" c t]
  by (simp add: replied_def aa_errorReply_def)

lemma getAuthSessionObjectPath_due:
  assumes "da_getAuthSessionObjectPath c n type s = (vals, t)" and "\<not> sw_delayed s"
  shows "replied c False s t"
proof -
  let ?s = "sc_destroyUnused s"
  obtain ok db where 1: "(if n \<noteq> 0 then isPeerAllowedToUseIdentity (sw_ac ?s) c n (sw_db ?s) else (True, sw_db ?s)) = (ok, db)"
    by (cases "if n \<noteq> 0 then isPeerAllowedToUseIdentity (sw_ac ?s) c n (sw_db ?s) else (True, sw_db ?s)")
  let ?t = "?s\<lparr>sw_db := db\<rparr>"
  have t: "tallies s ?t" "sw_delayed ?t = sw_delayed s"
    using tallies_trans [OF tallies_unused tallies_fields(1)] by simp_all
  have e: "da_getAuthSessionObjectPath c n type s =
     (if \<not> ok
      then ([VString QNull],
            ?t\<lparr>sw_requests := sw_requests ?t @ [(sw_next ?t, \<lparr>sr_call = c, sr_identity = n, sr_method = type\<rparr>)],
              sw_next := sw_next ?t + 1, sw_delayed := True\<rparr>)
      else case getAuthSession c n type ?t of (None, s) \<Rightarrow> ([VString QNull], s) | (Some a, s) \<Rightarrow> ([VUInt a], s))"
    using 1 by (cases "n = 0") (auto simp: da_getAuthSessionObjectPath_def Let_def)
  have r: "due_plus c 1 ?t (?t\<lparr>sw_requests := sw_requests ?t @ [(sw_next ?t, \<lparr>sr_call = c, sr_identity = n, sr_method = type\<rparr>)],
              sw_next := sw_next ?t + 1, sw_delayed := True\<rparr>)"
    by (auto simp: due_plus_def orderly_cores_def keyed_def core_def s_due_def s_answered_def s_waiting_def)
  show ?thesis
  proof (cases ok)
    case False
    then show ?thesis using e assms(1) due_plus_trans [of c 0 s ?t 1] r t(1) by (auto simp: replied_def)
  next
    case True
    obtain a u where g: "getAuthSession c n type ?t = (a, u)" by force
    have "sw_delayed u = (a = None)"
      using g t(2) assms(2) delayed_steps(2) [of n type "pidOfPeer (sw_pids ?t) c" ?t]
      by (auto simp: getAuthSession_def Let_def split: prod.splits if_splits)
    moreover have "due_plus c (if a = None then 1 else 0) s u"
      using due_plus_trans [of c 0 s ?t] due_getAuthSession [OF g] t(1) by fastforce
    ultimately show ?thesis
      using e True g assms(1) by (cases a) (auto simp: replied_def)
  qed
qed

lemma aa_process_due:
  assumes "aa_process a c data mech s = (vals, t)" and "\<not> sw_delayed s" and "sw_doomed s = []"
    and "map_of (sw_cores s) (parent a s) \<noteq> None"
  shows "replied c (\<not> fst (fst (check_mechanism a mech s)) \<or> \<not> owned_by_peer a c s) s t"
proof -
  obtain allowed m u where 1: "check_mechanism a mech s = ((allowed, m), u)" by (metis prod.exhaust)
  note f = check_mechanism_frame [OF 1]
  have p: "parent a u = parent a s" "owned_by_peer a c u = owned_by_peer a c s"
    using f(4,5) by (simp_all add: auth_def owned_by_peer_def)
  show ?thesis
  proof (cases "allowed \<and> owned_by_peer a c s")
    case False
    then have "t = aa_errorReply c (if allowed then ERR_PERMISSION_DENIED else ''MethodOrMechanismNotAllowed'') u"
      using assms(1) 1 p by (auto simp: aa_process_def split: if_splits)
    then show ?thesis using replied_refusal [OF f(1,2) assms(2)] False 1 by auto
  next
    case True
    then have t: "t = sc_process (parent a u) c data m a (u\<lparr>sw_delayed := True\<rparr>)"
      using assms(1) 1 p by (auto simp: aa_process_def as_process_def)
    have "due_plus c 1 (u\<lparr>sw_delayed := True\<rparr>) t"
      unfolding t using f(3) f(6) [of "parent a s"] assms(3,4) p by (intro due_plus_process) simp_all
    moreover have "tallies s (u\<lparr>sw_delayed := True\<rparr>)" by (rule tallies_trans [OF f(1) tallies_auth_fields(1)])
    moreover have "sw_delayed t" by (simp add: t sc_process_def Let_def queue_startNewRequest_def)
    ultimately show ?thesis
      using due_plus_trans [of c 0 s "u\<lparr>sw_delayed := True\<rparr>" 1 t] True 1 by (simp add: replied_def)
  qed
qed

lemma adaptor_due:
  assumes "session_adaptor c m s = (vals, t)" and "\<not> sw_delayed s" and "sw_doomed s = []"
    and "orderly (SessionCall c m) s" and "s\<lparr>sw_delayed := False\<rparr> = s"
  shows "replied c (refused c m s) s t"
proof (cases m)
  case (GetAuthSessionObjectPath n type)
  then show ?thesis using getAuthSessionObjectPath_due assms(1,2) by (simp add: refused_def)
next
  case (QueryAvailableMechanisms a w)
  show ?thesis
  proof (cases "owned_by_peer a c s")
    case True
    then have "t = sc_keepInUse (parent a s) s"
      using assms(1) QueryAvailableMechanisms by (simp add: aa_queryAvailableMechanisms_def sc_queryAvailableMechanisms_def Let_def)
    then show ?thesis
      using True QueryAvailableMechanisms replied_tallies [OF tallies_active _ assms(2)] assms(5) by (simp add: refused_def)
  next
    case False
    then have "t = aa_errorReply c ERR_PERMISSION_DENIED s"
      using assms(1) QueryAvailableMechanisms by (simp add: aa_queryAvailableMechanisms_def)
    then show ?thesis
      using False QueryAvailableMechanisms replied_refusal [OF tallies_refl refl assms(2)] assms(5) by (simp add: refused_def)
  qed
next
  case (Process a data mech)
  then show ?thesis
    using aa_process_due [of a c data mech s vals t] assms(1-4) by (simp add: refused_def Let_def assms(5))
next
  case (Cancel a)
  then have "tallies s t \<and> sw_delayed t = sw_delayed s"
    using assms(1,4) tallies_cancel by (auto simp: aa_cancel_def as_cancel_def tallies_refl delayed_steps split: if_splits)
  then show ?thesis using replied_tallies assms(2) Cancel by (simp add: refused_def)
next
  case (SetId a n)
  obtain ok db where 1: "isPeerAllowedToUseIdentity (sw_ac s) c n (sw_db s) = (ok, db)" by force
  have "tallies s (s\<lparr>sw_db := db\<rparr>)" by (rule tallies_fields)
  then have "tallies s t \<and> sw_delayed t = sw_delayed s"
    using assms(1) SetId 1 tallies_trans [OF _ tallies_setId]
    by (auto simp: aa_setId_def as_setId_def tallies_refl delayed_steps Let_def split: if_splits)
  then show ?thesis using replied_tallies assms(2) SetId by (simp add: refused_def)
next
  case (ObjectUnref a)
  then have "tallies s t \<and> sw_delayed t = sw_delayed s"
    using assms(1,4) tallies_trans [OF tallies_cancel tallies_auth_fields(2)]
    by (auto simp: aa_objectUnref_def as_objectUnref_def as_cancel_def Let_def tallies_refl delayed_steps split: if_splits)
  then show ?thesis using replied_tallies assms(2) ObjectUnref by (simp add: refused_def)
qed

lemma client_due:
  assumes "sw_doomed s = []" and "orderly (SessionCall c m) s"
  shows "due_plus c (if refused c m s \<and> (case session_target m of None \<Rightarrow> True | Some a \<Rightarrow> map_of (sw_auth s) a \<noteq> None)
     then 2 else 1) s (session_client c m s)"
proof (cases "case session_target m of None \<Rightarrow> False | Some a \<Rightarrow> map_of (sw_auth s) a = None")
  case True
  then show ?thesis
    using due_plus_say [of "SError c ''UnknownObject'' QNull" c s] by (auto simp: session_client_def split: option.splits)
next
  case False
  let ?s = "s\<lparr>sw_delayed := False\<rparr>"
  obtain vals t where 1: "session_adaptor c m ?s = (vals, t)" by force
  have "orderly (SessionCall c m) ?s"
    using assms(2) by (simp add: auth_def cancels_twice_def core_def split: session_call.splits)
  with adaptor_due [OF 1] assms(1) have r: "replied c (refused c m s) ?s t" by (simp add: refused_def)
  have "due_plus c (if refused c m s then 2 else 1) ?s (if sw_delayed t then t else say (SReply c vals) t)"
    using r due_plus_trans [of c 1 ?s t 1 "say (SReply c vals) t"] due_plus_trans [of c 0 ?s t 1 "say (SReply c vals) t"]
      due_plus_say [of "SReply c vals" c t]
    by (auto simp: replied_def numeral_2_eq_2)
  then have "due_plus c (if refused c m s then 2 else 1) s (session_deletes (if sw_delayed t then t else say (SReply c vals) t))"
    using due_plus_trans [of c 0 s ?s] due_plus_trans [of c "if refused c m s then 2 else 1" s _ 0] tallies_auth_fields(1)
      tallies_deletes by fastforce
  moreover have "session_client c m s = session_deletes (if sw_delayed t then t else say (SReply c vals) t)"
    using False 1 by (simp add: session_client_def)
  ultimately show ?thesis using False by (auto split: option.splits if_splits)
qed

section \<open>Runs\<close>

fun calls_of :: "session_happening \<Rightarrow> dbus_call list" where
  "calls_of (SessionCall c _) = [c]"
| "calls_of _ = []"

definition settled_sessions :: "sessions \<Rightarrow> bool" where
  "settled_sessions s \<longleftrightarrow> orderly_cores s \<and> sw_doomed s = []"

fun orderly_run :: "session_happening list \<Rightarrow> sessions \<Rightarrow> bool" where
  "orderly_run [] s = True"
| "orderly_run (h # hs) s = (orderly h s \<and> orderly_run hs (session_happens h s))"

lemma deletes_doomed [simp]: "sw_doomed (session_deletes s) = []"
  by (simp add: session_deletes_def Let_def)

lemma happens_doomed: "sw_doomed s = [] \<Longrightarrow> sw_doomed (session_happens h s) = []"
proof -
  assume a: "sw_doomed s = []"
  have f: "sw_doomed (fold credentialsSystemReady ks t) = sw_doomed t" for ks t
    by (induction ks arbitrary: t) (simp_all add: credentialsSystemReady_def queue_startNewRequest_def)
  show ?thesis
    using a by (cases h) (auto simp: session_client_def on_core_def f Let_def split: option.splits prod.splits ui_watcher.splits)
qed

lemma tallies_on_core: "tallies s (f s) \<Longrightarrow> tallies s (on_core k f s)"
  using tallies_trans [OF _ tallies_deletes] by (simp add: on_core_def tallies_refl)

lemma tallies_ready: "tallies s (fold credentialsSystemReady ks (s\<lparr>sw_ready := b\<rparr>))"
proof -
  have "tallies t (fold credentialsSystemReady ks t)" for t
  proof (induction ks arbitrary: t)
    case (Cons k ks)
    have "tallies t (credentialsSystemReady k t)"
      unfolding credentialsSystemReady_def queue_startNewRequest_def by (rule tallies_quiet) simp
    from tallies_trans [OF this Cons.IH] show ?case by simp
  qed (simp add: tallies_refl)
  moreover have "tallies s (s\<lparr>sw_ready := b\<rparr>)" by (simp add: tallies_def orderly_fields due_fields)
  ultimately show ?thesis using tallies_trans by blast
qed

lemma due_access_decided:
  assumes "map_of (sw_requests s) k = Some r"
  shows "tallies s (onAuthSessionAccessReplyFinished r b (s\<lparr>sw_requests := filter (\<lambda>p. fst p \<noteq> k) (sw_requests s)\<rparr>))"
proof -
  let ?s = "s\<lparr>sw_requests := filter (\<lambda>p. fst p \<noteq> k) (sw_requests s)\<rparr>"
  let ?c = "sr_call r"
  have n: "count_list (map (\<lambda>p. sr_call (snd p)) xs) c =
      count_list (map (\<lambda>p. sr_call (snd p)) (filter (\<lambda>p. fst p \<noteq> k) xs)) c + (if ?c = c then 1 else 0)"
    if "map_of xs k = Some r" "distinct (map fst xs)" for xs c
    using that
  proof (induction xs)
    case (Cons x xs)
    show ?case
    proof (cases "fst x = k")
      case True
      then have "k \<notin> fst ` set xs" using Cons.prems(2) by auto
      then have "\<forall>p \<in> set xs. fst p \<noteq> k" by (metis imageI)
      then have "filter (\<lambda>p. fst p \<noteq> k) xs = xs" by (simp add: filter_id_conv)
      then show ?thesis using True Cons.prems(1) by (cases x) auto
    next
      case False
      then show ?thesis using Cons by (cases x) auto
    qed
  qed simp
  have 1: "orderly_cores s \<Longrightarrow> orderly_cores ?s"
    by (auto simp: orderly_cores_def keyed_def core_def intro: distinct_map_filter)
  have 2: "s_due c s = s_due c ?s + (if ?c = c then 1 else 0)" if "orderly_cores s" for c
    using n [OF assms(1)] that by (simp add: orderly_cores_def keyed_def s_due_def s_answered_def s_waiting_def)
  have goal: "tallies s t" if "due_plus ?c 1 ?s t" for t
    using that 1 2 by (simp add: due_plus_def tallies_def)
  obtain ok db where 3: "(if \<not> b then (False, sw_db ?s) else isPeerAllowedToUseIdentity (sw_ac ?s) ?c (sr_identity r) (sw_db ?s)) = (ok, db)"
    by (cases "if \<not> b then (False, sw_db ?s) else isPeerAllowedToUseIdentity (sw_ac ?s) ?c (sr_identity r) (sw_db ?s)")
  let ?t = "?s\<lparr>sw_db := db\<rparr>"
  have t: "tallies ?s ?t" by (rule tallies_fields)
  have e: "onAuthSessionAccessReplyFinished r b ?s =
     (if \<not> ok then say (SError ?c ERR_PERMISSION_DENIED QNull) ?t
      else case getAuthSession ?c (sr_identity r) (sr_method r) ?t of
             (None, s) \<Rightarrow> s | (Some a, s) \<Rightarrow> sc_destroyUnused (say (SReply ?c [VUInt a]) s))"
    using 3 by (cases b) (auto simp: onAuthSessionAccessReplyFinished_def Let_def)
  have "due_plus ?c 1 ?s (onAuthSessionAccessReplyFinished r b ?s)"
  proof (cases ok)
    case False
    then show ?thesis
      using e due_plus_trans [of ?c 0 ?s ?t 1] t due_plus_say [of "SError ?c ERR_PERMISSION_DENIED QNull" ?c ?t] by simp
  next
    case True
    obtain a u where g: "getAuthSession ?c (sr_identity r) (sr_method r) ?t = (a, u)" by force
    note d = due_plus_trans [of ?c 0 ?s ?t, OF _ due_getAuthSession [OF g]]
    show ?thesis
    proof (cases a)
      case None
      then show ?thesis using e True g d t by simp
    next
      case (Some x)
      have "due_plus ?c 1 u (sc_destroyUnused (say (SReply ?c [VUInt x]) u))"
        using due_plus_trans [of ?c 1 u "say (SReply ?c [VUInt x]) u" 0] due_plus_say [of "SReply ?c [VUInt x]" ?c u]
          tallies_unused by simp
      moreover have "tallies ?s u" using d t Some by simp
      ultimately show ?thesis
        using e True g Some due_plus_trans [of ?c 0 ?s u 1 "sc_destroyUnused (say (SReply ?c [VUInt x]) u)"] by simp
    qed
  qed
  then show ?thesis by (rule goal)
qed

lemma happens_due:
  assumes "sw_doomed s = []" and "orderly h s" and "c \<notin> set (calls_of h)" and "orderly_cores s"
  shows "orderly_cores (session_happens h s) \<and> s_due c (session_happens h s) = s_due c s"
proof (cases "\<exists>c' m. h = SessionCall c' m")
  case True
  then show ?thesis
    using client_due [OF assms(1)] assms(2-4) by (auto simp: due_plus_def)
next
  case False
  have "tallies s (session_happens h s)"
  proof (cases h)
    case (SessionAccessDecided k b)
    then show ?thesis
      using tallies_trans [OF due_access_decided tallies_deletes] by (auto simp: tallies_refl split: option.splits)
  next
    case (StartNewRequest k)
    let ?s = "set_core k (\<lambda>c. c\<lparr>sc_queued := sc_queued c - 1\<rparr>) s"
    have "\<not> (sc_canceled (core k ?s) \<and> sc_requestIsActive (core k ?s))"
      using assms(2) StartNewRequest by (auto simp: core_set_core)
    moreover have "tallies s ?s" by (rule tallies_quiet) simp
    ultimately have "tallies s (startNewRequest k ?s)"
      using tallies_trans tallies_startNewRequest by blast
    then show ?thesis using StartNewRequest tallies_on_core by (simp add: tallies_refl)
  next
    case (PluginWrites k bs)
    then show ?thesis
      using tallies_on_core [of s "plugin_emits k (plugin_writes (sw_codec s) bs)" k]
        tallies_emits [of k "plugin_writes (sw_codec s) bs" s] assms(2) by (simp add: tallies_refl)
  next
    case (PluginExits k crashed)
    then show ?thesis
      using tallies_on_core [of s "plugin_emits k (onExit crashed)" k] tallies_emits [of k "onExit crashed" s] assms(2) by (simp add: tallies_refl)
  next
    case (UiReturns k reply)
    let ?f = "set_core k (\<lambda>c. c\<lparr>sc_watcher := Finished reply\<rparr>)"
    have "tallies s (?f s)" by (rule tallies_quiet) simp
    then show ?thesis using UiReturns tallies_on_core [of s ?f k] by (simp add: tallies_refl)
  next
    case (UiSlotRuns k)
    have "tallies s (on_core k (sc_queryUiSlot k r) s)" for r
      using tallies_on_core [of s "sc_queryUiSlot k r" k] tally.queryUiSlot by blast
    then show ?thesis using UiSlotRuns by (simp add: tallies_refl split: ui_watcher.split)
  next
    case SystemReady
    then show ?thesis by (simp add: tallies_ready)
  next
    case SessionTimeout
    then show ?thesis using tallies_trans [OF tallies_unused tallies_deletes] by simp
  next
    case (SessionClock t)
    then show ?thesis
      using assms(2) by (auto simp: tallies_def orderly_cores_def keyed_def core_def due_fields)
  qed (use False in blast)
  then show ?thesis using assms(4) by (simp add: tallies_def)
qed

lemma session_run_due:
  assumes "settled_sessions s" and "orderly_run hs s" and "c \<notin> set (concat (map calls_of hs))"
  shows "settled_sessions (session_run hs s) \<and> s_due c (session_run hs s) = s_due c s"
  using assms
proof (induction hs arbitrary: s)
  case (Cons h hs)
  then have "settled_sessions (session_happens h s)" "s_due c (session_happens h s) = s_due c s"
    using happens_due [of s h c] happens_doomed [of s h] by (simp_all add: settled_sessions_def)
  with Cons show ?case by (simp add: session_run_def)
qed (simp add: session_run_def)

end
