(* ===== verification/Session_Properties.thy ===== *)
theory Session_Properties
  imports Session_Answers "HOL-Library.Code_Target_Nat" "HOL-Library.Code_Target_Int"
begin

text \<open>
  The properties of authentication sessions that rest on the account of answers, with the sample
  daemon their witnesses run.
\<close>

section \<open>A sample daemon\<close>

text \<open>Alice and Bob each have an identity with a password that only they, and the administrator, may
  use; every plugin offers the mechanism \<open>web\<close> and answers with a token.\<close>

definition session_codec :: codec where
  "session_codec = \<lparr>co_map = (\<lambda>_. [1, 2]), co_to_map = (\<lambda>_. [(''Token'', VInt 4)]),
     co_variant = (\<lambda>_. []), co_to_variant = (\<lambda>_. VInvalid)\<rparr>"

definition private_info :: "string \<Rightarrow> string \<Rightarrow> identity_info" where
  "private_info who secret = setAccessControlList [QStr who] (setStorePassword True (setPassword (QStr secret)
     (setUserName (QStr who) (setId 0 []))))"

definition two_identities :: credentials_db where
  "two_identities = snd (cd_updateCredentials (private_info ''bob'' ''b0b'')
     (snd (cd_updateCredentials (private_info ''alice'' ''al1ce'') (sample_cd True))))"

definition session_world :: sessions where
  "session_world = \<lparr>sw_db = Some two_identities, sw_ready = True, sw_keysAvailable = True, sw_codec = session_codec,
     sw_ac = default_ac_manager\<lparr>ac_isPeerAllowedToAccess := \<lambda>c t. dc_service c = t \<or> dc_service c = QStr ''admin''\<rparr>,
     sw_pids = \<lparr>ps_of_connection = (\<lambda>_. None), ps_of_service = (\<lambda>n. length (chars n))\<rparr>,
     sw_plugins = (\<lambda>_. ([], Some [QStr ''web''])), sw_timeout = 300, sw_cores = [], sw_stored = [], sw_nonStored = [],
     sw_auth = [], sw_incr = 0, sw_next = 0, sw_doomed = [], sw_doomed_auth = [], sw_requests = [], sw_delayed = False,
     sw_clock = Some 10, sw_fault = False, sw_out = []\<rparr>"

definition session_peer :: "string \<Rightarrow> nat \<Rightarrow> dbus_call" where
  "session_peer who n = \<lparr>dc_connection = 0, dc_service = QStr who, dc_serial = n\<rparr>"

text \<open>A result of a plugin, as it is written to the pipe.\<close>

definition plugin_result :: bytes where
  "plugin_result = put_u32 1 @ sendData (co_map session_codec) []"

section \<open>Properties\<close>

text \<open>C15: An authentication call is answered once. When the daemon has handled a call that it does not
  refuse, the call has been answered or waits, exactly one of the two and once; and in every
  orderly continuation it stays so, so that the call is never answered a second time, and has
  been answered once when it does not wait any more. The call may be any of those the session
  objects and the daemon offer; refused is one that comes from a foreign process or asks for a
  mechanism the identity does not allow.\<close>

theorem authentication_calls_are_answered_once:
  assumes "settled_sessions s" and "orderly_run (SessionCall c m # hs) s" and "\<not> refused c m s"
    and "s_due c s = 0" and "c \<notin> set (concat (map calls_of hs))"
  shows "s_answered c (session_run (SessionCall c m # hs) s) + s_waiting c (session_run (SessionCall c m # hs) s) = 1"
proof -
  let ?s = "session_happens (SessionCall c m) s"
  have "settled_sessions ?s \<and> s_due c ?s = 1"
    using client_due [of s c m] assms happens_doomed [of s "SessionCall c m"]
    by (simp add: settled_sessions_def due_plus_def)
  then have "s_due c (session_run hs ?s) = 1"
    using session_run_due [of ?s hs c] assms(2,5) by simp
  then show ?thesis by (simp add: s_due_def session_run_def)
qed

theorem authentication_calls_are_answered_once_witness:
  "let s = session_run [SessionCall (session_peer ''alice'' 0) (GetAuthSessionObjectPath 1 (QStr ''oauth''))] session_world;
       c = session_peer ''alice'' 1;
       hs = [SessionCall c (Process 0 [] (QStr ''web'')), StartNewRequest 0, PluginWrites 0 plugin_result]
   in s_answered c (session_run (take 2 hs) s) = 0 \<and> s_answered c (session_run hs s) + s_waiting c (session_run hs s) = 1
      \<and> s_answered c (session_run hs s) = 1"
proof -
  let ?s = "session_run [SessionCall (session_peer ''alice'' 0) (GetAuthSessionObjectPath 1 (QStr ''oauth''))] session_world"
  let ?c = "session_peer ''alice'' 1"
  let ?m = "Process 0 [] (QStr ''web'')" and ?hs = "[StartNewRequest 0, PluginWrites 0 plugin_result]"
  have "settled_sessions ?s" by code_simp
  moreover have "orderly_run (SessionCall ?c ?m # ?hs) ?s" by code_simp
  moreover have "\<not> refused ?c ?m ?s" by code_simp
  moreover have "s_due ?c ?s = 0" by code_simp
  moreover have "?c \<notin> set (concat (map calls_of ?hs))" by simp
  ultimately have "s_answered ?c (session_run (SessionCall ?c ?m # ?hs) ?s) + s_waiting ?c (session_run (SessionCall ?c ?m # ?hs) ?s) = 1"
    by (rule authentication_calls_are_answered_once)
  moreover have "s_answered ?c (session_run (SessionCall ?c ?m # ?hs) ?s) = 1" by code_simp
  moreover have "s_answered ?c (session_run (take 2 (SessionCall ?c ?m # ?hs)) ?s) = 0" by code_simp
  ultimately show ?thesis by (simp add: Let_def)
qed

text \<open>Clearing the mark of cancellation while the cancelled request is at the head makes it count again.\<close>

lemma due_uncancel:
  assumes "orderly_cores s" and "sc_requests (core k s) = r # rs" and "sc_canceled (core k s)" "sc_requestIsActive (core k s)"
  shows "orderly_cores (set_core k (\<lambda>c. c\<lparr>sc_canceled := False\<rparr>) s)"
    and "s_due (rd_call r) (set_core k (\<lambda>c. c\<lparr>sc_canceled := False\<rparr>) s) = s_due (rd_call r) s + 1"
proof -
  let ?f = "\<lambda>c. c\<lparr>sc_canceled := False\<rparr>"
  have p: "map_of (sw_cores s) k = Some (core k s)" using assms(2) by (intro core_present) simp
  show "orderly_cores (set_core k ?f s)" by (intro orderly_set_core_at [OF assms(1) p]) (simp_all add: tended_def)
  have "s_due (rd_call r) (set_core k ?f s) + pending_in (rd_call r) (core k s)
      = s_due (rd_call r) s + pending_in (rd_call r) (?f (core k s))"
    by (rule due_set_core [OF orderly_keyed [OF assms(1)] p])
  moreover have "pending_in (rd_call r) (?f (core k s)) = pending_in (rd_call r) (core k s) + 1"
    using assms(2-4) by (simp add: pending_in_def remaining_def)
  ultimately show "s_due (rd_call r) (set_core k ?f s) = s_due (rd_call r) s + 1" by simp
qed

lemma uncanceled_by_a_further_request:
  assumes "settled_sessions s" and "sc_requests (core k s) = r # rs" and "sc_canceled (core k s)" "sc_requestIsActive (core k s)"
    and "sc_queued (core k s) \<noteq> 0"
  shows "settled_sessions (session_happens (StartNewRequest k) s)
    \<and> s_due (rd_call r) (session_happens (StartNewRequest k) s) = s_due (rd_call r) s + 1"
proof -
  let ?s1 = "set_core k (\<lambda>c. c\<lparr>sc_queued := sc_queued c - 1\<rparr>) s"
  let ?s2 = "sc_keepInUse k ?s1"
  let ?s3 = "set_core k (\<lambda>c. c\<lparr>sc_canceled := False\<rparr>) ?s2"
  have p: "map_of (sw_cores s) k = Some (core k s)" using assms(2) by (intro core_present) simp
  have t: "tallies s ?s2" by (rule tallies_trans [OF tallies_quiet tallies_active]) simp
  have "same_asks s ?s2" by (rule same_asks_trans [OF same_asks_quiet same_asks_active]) simp
  from same_asks_core [OF this, of k] assms(2-4) obtain r' rs' where
    s2: "sc_requests (core k ?s2) = r' # rs'" "rd_call r' = rd_call r" "sc_canceled (core k ?s2)" "sc_requestIsActive (core k ?s2)"
    by (auto simp: asks_def)
  have o: "orderly_cores s" "sw_doomed s = []" using assms(1) by (simp_all add: settled_sessions_def)
  with t have o2: "orderly_cores ?s2" "s_due c ?s2 = s_due c s" for c by (simp_all add: tallies_def)
  note u = due_uncancel [OF o2(1) s2(1,3,4)]
  have "sc_requests (core k ?s3) \<noteq> []" "sc_requestIsActive (core k ?s3)"
    using s2 core_present [of k ?s2] by (simp_all add: core_set_core)
  then have "startNewRequest k ?s1 = ?s3" by (simp add: startNewRequest_def Let_def)
  then have e: "session_happens (StartNewRequest k) s = session_deletes ?s3"
    using assms(5) p by (simp add: on_core_def)
  have "tallies ?s3 (session_deletes ?s3)" by (rule tallies_deletes)
  with u o2(2) s2(2) show ?thesis unfolding e settled_sessions_def tallies_def by simp
qed

text \<open>C20: A request that has been cancelled is answered a second time. While the plugin has not reacted to the
  cancellation of the request it works on, and so the request, answered by the cancellation, is still at the head of
  the queue, the slot that a further request has queued runs: it clears \<open>m_canceled\<close>, and from then on the
  cancelled call is owed an answer again. In every orderly run that follows, the call has two answers, or one and
  waits for the second.\<close>

theorem cancelled_request_is_answered_twice:
  assumes "settled_sessions s" and "sc_requests (core k s) = r # rs" and "sc_requestIsActive (core k s)" and "sc_canceled (core k s)"
    and "s_answered (rd_call r) s = 1" and "s_waiting (rd_call r) s = 0" and "sc_queued (core k s) \<noteq> 0"
    and "orderly_run hs (session_happens (StartNewRequest k) s)" and "rd_call r \<notin> set (concat (map calls_of hs))"
  shows "s_answered (rd_call r) (session_run (StartNewRequest k # hs) s)
    + s_waiting (rd_call r) (session_run (StartNewRequest k # hs) s) = 2"
proof -
  let ?t = "session_happens (StartNewRequest k) s"
  have "settled_sessions ?t" "s_due (rd_call r) ?t = 2"
    using uncanceled_by_a_further_request [OF assms(1,2,4,3,7)] assms(5,6) by (simp_all add: s_due_def)
  then have "s_due (rd_call r) (session_run hs ?t) = 2"
    using session_run_due [of ?t hs "rd_call r"] assms(8,9) by simp
  then show ?thesis by (simp add: s_due_def session_run_def)
qed

theorem cancelled_request_is_answered_twice_witness:
  "let p = session_peer ''alice'';
       s = session_run [SessionCall (p 0) (GetAuthSessionObjectPath 1 (QStr ''oauth'')),
             SessionCall (p 1) (Process 0 [] (QStr ''web'')), StartNewRequest 0, SessionCall (p 2) (Cancel 0),
             SessionCall (p 3) (Process 0 [] (QStr ''web''))] session_world;
       t = session_run [StartNewRequest 0, PluginWrites 0 plugin_result] s
   in s_answered (p 1) s = 1 \<and> s_answered (p 1) t + s_waiting (p 1) t = 2 \<and> s_answered (p 1) t = 2 \<and> s_answered (p 3) t = 0"
proof -
  let ?c = "session_peer ''alice'' 1"
  let ?s = "session_run [SessionCall (session_peer ''alice'' 0) (GetAuthSessionObjectPath 1 (QStr ''oauth'')),
             SessionCall ?c (Process 0 [] (QStr ''web'')), StartNewRequest 0, SessionCall (session_peer ''alice'' 2) (Cancel 0),
             SessionCall (session_peer ''alice'' 3) (Process 0 [] (QStr ''web''))] session_world"
  let ?t = "session_run [StartNewRequest 0, PluginWrites 0 plugin_result] ?s"
  have r: "rd_call (hd (sc_requests (core 0 ?s))) = ?c" by code_simp
  have "sc_requests (core 0 ?s) \<noteq> []" by code_simp
  then have c: "sc_requests (core 0 ?s) = hd (sc_requests (core 0 ?s)) # tl (sc_requests (core 0 ?s))" by simp
  have s: "settled_sessions ?s" by code_simp
  have st: "sc_requestIsActive (core 0 ?s)" "sc_canceled (core 0 ?s)" by code_simp+
  have n: "s_answered ?c ?s = 1" "s_waiting ?c ?s = 0" by code_simp+
  have q: "sc_queued (core 0 ?s) \<noteq> 0" by code_simp
  have o: "orderly_run [PluginWrites 0 plugin_result] (session_happens (StartNewRequest 0) ?s)" by code_simp
  have "?c \<notin> set (concat (map calls_of [PluginWrites 0 plugin_result]))" by simp
  from cancelled_request_is_answered_twice [OF s c st, unfolded r, OF n q o this]
  have "s_answered ?c ?t + s_waiting ?c ?t = 2" .
  moreover have "s_answered ?c ?t = 2" "s_answered (session_peer ''alice'' 3) ?t = 0" by code_simp+
  ultimately show ?thesis using n(1) by (simp add: Let_def)
qed

end
