(* ===== verification/Session_Parameters.thy ===== *)
theory Session_Parameters
  imports Session_Properties
begin

text \<open>
  The parameters a session core passes to the plugin, against a declarative reference: which of the client, the
  stored data and the identity each of them comes from.
\<close>

definition reference_parameters ::
    "identity_info \<Rightarrow> qstring list \<Rightarrow> (string \<Rightarrow> qvariant option) \<Rightarrow> (string \<Rightarrow> qvariant option) \<Rightarrow> string \<Rightarrow> qvariant option" where
  "reference_parameters info tokens client stored key =
     (if info_id info \<noteq> 0 \<and> key = SSO_ACCESS_CONTROL_TOKENS \<and> tokens \<noteq> [] then Some (VStringList tokens)
      else if info_id info \<noteq> 0 \<and> key = SSO_KEY_USERNAME \<and> (validated info \<or> client key = None) then Some (VString (userName info))
      else if info_id info \<noteq> 0 \<and> key = SSO_KEY_PASSWORD \<and> client key = None then Some (VString (password info))
      else case client key of Some v \<Rightarrow> Some v | None \<Rightarrow> stored key)"

lemma stored_parameters_lookup:
  "map_of (stored_parameters ac call info parameters) key =
     (if info_id info = 0 then map_of parameters key
      else if key = SSO_ACCESS_CONTROL_TOKENS \<and> filter (isPeerAllowedToAccess ac call) (info_acl info) \<noteq> []
      then Some (VStringList (filter (isPeerAllowedToAccess ac call) (info_acl info)))
      else if key = SSO_KEY_USERNAME \<and> (validated info \<or> map_of parameters key = None) then Some (VString (userName info))
      else if key = SSO_KEY_PASSWORD \<and> map_of parameters key = None then Some (VString (password info))
      else map_of parameters key)"
  by (auto simp: stored_parameters_def Let_def qm_contains_def)

text \<open>What is asked of the plugin for a request: for a session of a stored identity the reference parameters, read
  from the database as it is; for other sessions what the client gives.\<close>

definition requested_parameters :: "nat \<Rightarrow> request_data \<Rightarrow> sessions \<Rightarrow> string \<Rightarrow> qvariant option" where
  "requested_parameters k data s =
     (let n = sc_id (core k s);
          (info, s1) = with_db (cd_credentials n True) [] s;
          (stored, s2) = with_db (cd_loadData (co_to_variant (sw_codec s1)) n (sc_method (core k s))) [] s1;
          tokens = filter (isPeerAllowedToAccess (sw_ac s1) (rd_call data)) (info_acl info)
      in if n = 0 then map_of (rd_params data)
         else reference_parameters info tokens (map_of (rd_params data)) (map_of stored))"

text \<open>No secret when the user is to be asked for it; and a user name and a secret in any case, if only invalid ones.\<close>

definition plugin_parameters :: "(string \<Rightarrow> qvariant option) \<Rightarrow> string \<Rightarrow> qvariant option" where
  "plugin_parameters asked key =
     (let ask_user = (case asked SSOUI_KEY_UIPOLICY of None \<Rightarrow> False | Some v \<Rightarrow> v_eq_int v RequestPasswordPolicy)
      in if key = SSO_KEY_PASSWORD \<and> (ask_user \<or> asked key = None) then Some VInvalid
         else if key = SSO_KEY_USERNAME \<and> asked key = None then Some VInvalid
         else asked key)"

lemma request_parameters_lookup: "map_of (fst (request_parameters k data s)) = requested_parameters k data s"
proof -
  have merge: "map_of (mergeVariantMaps stored (stored_parameters ac call info parameters)) =
      reference_parameters info (filter (isPeerAllowedToAccess ac call) (info_acl info)) (map_of parameters) (map_of stored)"
    for stored ac call info parameters
  proof (rule ext)
    fix key
    define tokens where "tokens = filter (isPeerAllowedToAccess ac call) (info_acl info)"
    have lookup: "map_of (mergeVariantMaps stored (stored_parameters ac call info parameters)) key =
        (case map_of (stored_parameters ac call info parameters) key of None \<Rightarrow> map_of stored key | Some v \<Rightarrow> Some v)"
      by (simp add: merge_lookup map_add_def)
    show "map_of (mergeVariantMaps stored (stored_parameters ac call info parameters)) key =
        reference_parameters info (filter (isPeerAllowedToAccess ac call) (info_acl info)) (map_of parameters) (map_of stored) key"
      unfolding lookup stored_parameters_lookup reference_parameters_def tokens_def [symmetric]
      by (cases "info_id info = 0"; cases "map_of parameters key"; cases "validated info";
          cases "key = SSO_ACCESS_CONTROL_TOKENS \<and> tokens \<noteq> []"; cases "key = SSO_KEY_USERNAME"; cases "key = SSO_KEY_PASSWORD")
        (simp_all only: if_True if_False option.case simp_thms option.distinct refl)
  qed
  show ?thesis
    unfolding request_parameters_def requested_parameters_def Let_def case_prod_beta
    by (cases "sc_id (core k s) = 0") (simp_all only: if_True if_False fst_conv merge simp_thms)
qed

lemma with_db_set_core:
  "fst (with_db f r (set_core k g s)) = fst (with_db f r s)" "snd (with_db f r (set_core k g s)) = set_core k g (snd (with_db f r s))"
  by (simp_all add: with_db_def crash_def set_core_def Let_def split: option.split prod.split)

lemma with_db_frame: "sw_cores (snd (with_db f r s)) = sw_cores s" "sw_codec (snd (with_db f r s)) = sw_codec s"
  by (simp_all add: with_db_def crash_def Let_def split: option.split prod.split)

lemma request_parameters_frame:
  "sw_cores (snd (request_parameters k data s)) = sw_cores s" "sw_codec (snd (request_parameters k data s)) = sw_codec s"
  by (simp_all add: request_parameters_def Let_def case_prod_beta with_db_frame)

lemma requested_set_core:
  assumes "\<And>c. sc_id (f c) = sc_id c" and "\<And>c. sc_method (f c) = sc_method c"
  shows "requested_parameters k data (set_core k f s) = requested_parameters k data s"
proof -
  have c: "sc_id (core k (set_core k f s)) = sc_id (core k s)" "sc_method (core k (set_core k f s)) = sc_method (core k s)"
    by (simp_all add: core_set_core assms)
  show ?thesis by (simp add: requested_parameters_def Let_def c case_prod_beta with_db_set_core)
qed

lemma touch_lookup: "map_of (qm_touch k m) j = (if j = k \<and> map_of m k = None then Some VInvalid else map_of m j)"
  by (simp add: qm_touch_def qm_contains_def)

lemma plugin_parameters_lookup:
  assumes "map_of m = asked"
  shows "map_of (qm_touch SSO_KEY_PASSWORD (qm_touch SSO_KEY_USERNAME
      (if qm_contains m SSOUI_KEY_UIPOLICY \<and> v_eq_int (qm_value m SSOUI_KEY_UIPOLICY VInvalid) RequestPasswordPolicy
       then qm_remove SSO_KEY_PASSWORD m else m))) = plugin_parameters asked"
proof (rule ext)
  fix key
  define ask where "ask = (case asked SSOUI_KEY_UIPOLICY of None \<Rightarrow> False | Some v \<Rightarrow> v_eq_int v RequestPasswordPolicy)"
  have ask: "(qm_contains m SSOUI_KEY_UIPOLICY \<and> v_eq_int (qm_value m SSOUI_KEY_UIPOLICY VInvalid) RequestPasswordPolicy) = ask"
    by (cases "asked SSOUI_KEY_UIPOLICY") (simp_all add: ask_def qm_contains_def qm_value_def assms)
  have ne: "SSO_KEY_USERNAME \<noteq> SSO_KEY_PASSWORD" by simp
  have look: "map_of (if ask then qm_remove SSO_KEY_PASSWORD m else m) j = (if ask \<and> j = SSO_KEY_PASSWORD then None else asked j)" for j
    by (simp add: assms)
  show "map_of (qm_touch SSO_KEY_PASSWORD (qm_touch SSO_KEY_USERNAME
      (if qm_contains m SSOUI_KEY_UIPOLICY \<and> v_eq_int (qm_value m SSOUI_KEY_UIPOLICY VInvalid) RequestPasswordPolicy
       then qm_remove SSO_KEY_PASSWORD m else m))) key = plugin_parameters asked key"
    unfolding ask touch_lookup look plugin_parameters_def ask_def [symmetric] Let_def
    using ne by (cases "key = SSO_KEY_PASSWORD"; cases "key = SSO_KEY_USERNAME"; cases ask) (simp_all only: simp_thms if_True if_False)
qed

lemma core_after_state: "sc_plugin (core k (stateChangedSlot k st msg s)) = sc_plugin (core k s)
    \<and> sc_tmpPassword (core k (stateChangedSlot k st msg s)) = sc_tmpPassword (core k s)
    \<and> sc_tmpUsername (core k (stateChangedSlot k st msg s)) = sc_tmpUsername (core k s)
    \<and> sc_requestIsActive (core k (stateChangedSlot k st msg s)) = sc_requestIsActive (core k s)
    \<and> sc_clientData (core k (stateChangedSlot k st msg s)) = sc_clientData (core k s)"
  by (simp add: stateChangedSlot_def sc_keepInUse_def core_set_core Let_def split: list.split option.split)

lemma restart_running: "restartIfRequired pp = (True, pp') \<Longrightarrow> pp_running pp'"
  by (auto simp: restartIfRequired_def start_process_def next_start_def Let_def split: if_splits prod.splits list.splits)

text \<open>C31: What the plugin is sent for a request meets the reference. \<open>startProcess\<close> writes one command into the
  pipe of the plugin, with the mechanism and the parameters. For a session of a stored identity, what the client
  gives overrides the data stored for the method, key by key; the password of the identity is added if
  the client gives none, its user name if the client gives none or the identity is validated; the access
  control tokens are those of the identity's access control list that the client holds. If it holds none, a
  list of tokens the client has put into the request itself is passed on as it is. Under the policy to ask the user
  for the password no secret is sent. The user name and the secret sent are those kept for the cache.\<close>

theorem plugin_gets_the_reference_parameters:
  assumes "map_of (sw_cores s) k = Some c" and "sc_requests c = data # rest"
    and "restartIfRequired (sc_plugin c) = (True, plugin)"
  shows "\<exists>params. map_of params = plugin_parameters (requested_parameters k data s)
    \<and> pp_stdin (sc_plugin (core k (startProcess k s))) =
        pp_stdin plugin @ put_u32 PLUGIN_OP_PROCESS @ put_qstring (rd_mechanism data) @ sendData (co_map (sw_codec s)) params
    \<and> sc_tmpUsername (core k (startProcess k s)) = v_toString (qm_value params SSO_KEY_USERNAME VInvalid)
    \<and> sc_tmpPassword (core k (startProcess k s)) = v_toString (qm_value params SSO_KEY_PASSWORD VInvalid)
    \<and> sc_clientData (core k (startProcess k s)) = rd_params data \<and> sc_requestIsActive (core k (startProcess k s))"
proof -
  let ?s = "set_core k (\<lambda>c. c\<lparr>sc_requestIsActive := True, sc_clientData := rd_params data\<rparr>) s"
  obtain asked s1 where r: "request_parameters k data ?s = (asked, s1)" by force
  define m where "m = qm_touch SSO_KEY_PASSWORD (qm_touch SSO_KEY_USERNAME
      (if qm_contains asked SSOUI_KEY_UIPOLICY \<and> v_eq_int (qm_value asked SSOUI_KEY_UIPOLICY VInvalid) RequestPasswordPolicy
       then qm_remove SSO_KEY_PASSWORD asked else asked))"
  have "map_of asked = requested_parameters k data s"
    using request_parameters_lookup [of k data ?s] requested_set_core [of "\<lambda>c. c\<lparr>sc_requestIsActive := True, sc_clientData := rd_params data\<rparr>" k data s]
    by (simp add: r)
  from plugin_parameters_lookup [OF this] have params: "map_of m = plugin_parameters (requested_parameters k data s)"
    by (simp only: m_def)
  have s1: "sw_cores s1 = sw_cores ?s" "sw_codec s1 = sw_codec s"
    using request_parameters_frame [of k data ?s] r by simp_all
  then have core1: "map_of (sw_cores s1) k = Some (c\<lparr>sc_requestIsActive := True, sc_clientData := rd_params data\<rparr>)"
    using assms(1) by (simp add: map_of_set_core)
  obtain p where p: "pp_process (sw_codec s) m (rd_mechanism data) (sc_plugin c) = (True, p)"
    "pp_stdin p = pp_stdin plugin @ put_u32 PLUGIN_OP_PROCESS @ put_qstring (rd_mechanism data) @ sendData (co_map (sw_codec s)) m"
    using assms(3) restart_running [OF assms(3)] by (simp add: pp_process_def write_stdin_def Let_def)
  have "sc_requests (core k s) = data # rest" using assms(1,2) by (simp add: core_def)
  then have st: "startProcess k s = stateChangedSlot k SessionStarted (QStr ''The request is started successfully'')
      (set_core k (\<lambda>c. c\<lparr>sc_tmpUsername := v_toString (qm_value m SSO_KEY_USERNAME VInvalid),
                  sc_tmpPassword := v_toString (qm_value m SSO_KEY_PASSWORD VInvalid), sc_plugin := p\<rparr>) s1)"
    using p(1) s1(2) core1 by (simp add: startProcess_def Let_def r m_def [symmetric] core_def [of k s1])
  show ?thesis
    by (intro exI [of _ m]) (simp add: st core_after_state core_set_core core1 params p(2) core_def [of k s1])
qed

theorem plugin_gets_the_reference_parameters_witness:
  "let s = session_run [SessionCall (session_peer ''alice'' 0) (GetAuthSessionObjectPath 1 (QStr ''oauth'')),
             SessionCall (session_peer ''alice'' 1) (Process 0 [] (QStr ''web''))] session_world
   in \<exists>params. map_of params = plugin_parameters (requested_parameters 0 (hd (sc_requests (core 0 s))) s)
      \<and> map_of params SSO_KEY_PASSWORD = Some (VString (QStr ''al1ce''))
      \<and> pp_stdin (sc_plugin (core 0 (startProcess 0 s))) =
          pp_stdin (sc_plugin (core 0 s)) @ put_u32 PLUGIN_OP_PROCESS @ put_qstring (QStr ''web'') @ sendData (co_map (sw_codec s)) params"
proof -
  let ?s = "session_run [SessionCall (session_peer ''alice'' 0) (GetAuthSessionObjectPath 1 (QStr ''oauth'')),
             SessionCall (session_peer ''alice'' 1) (Process 0 [] (QStr ''web''))] session_world"
  have "map_of (sw_cores ?s) 0 \<noteq> None" by code_simp
  then have 1: "map_of (sw_cores ?s) 0 = Some (core 0 ?s)" by (auto simp: core_def)
  have "sc_requests (core 0 ?s) \<noteq> []" by code_simp
  then have 2: "sc_requests (core 0 ?s) = hd (sc_requests (core 0 ?s)) # tl (sc_requests (core 0 ?s))" by simp
  have "pp_running (sc_plugin (core 0 ?s))" by code_simp
  then have 3: "restartIfRequired (sc_plugin (core 0 ?s)) = (True, sc_plugin (core 0 ?s))" by (simp only: restartIfRequired_def if_False simp_thms)
  have 4: "rd_mechanism (hd (sc_requests (core 0 ?s))) = QStr ''web''" by code_simp
  have 5: "plugin_parameters (requested_parameters 0 (hd (sc_requests (core 0 ?s))) ?s) SSO_KEY_PASSWORD = Some (VString (QStr ''al1ce''))"
    by code_simp
  from plugin_gets_the_reference_parameters [OF 1 2 3] obtain params where
    p: "map_of params = plugin_parameters (requested_parameters 0 (hd (sc_requests (core 0 ?s))) ?s)"
    "pp_stdin (sc_plugin (core 0 (startProcess 0 ?s))) = pp_stdin (sc_plugin (core 0 ?s)) @ put_u32 PLUGIN_OP_PROCESS
       @ put_qstring (rd_mechanism (hd (sc_requests (core 0 ?s)))) @ sendData (co_map (sw_codec ?s)) params"
    by blast
  show ?thesis
    unfolding Let_def using p(1) p(2) [unfolded 4] 5 by metis
qed

section \<open>The register of sessions\<close>

definition none_unused :: "sessions \<Rightarrow> bool" where
  "none_unused s \<longleftrightarrow> (case sw_clock s of None \<Rightarrow> True
     | Some sec \<Rightarrow> list_all (\<lambda>(j, c). \<not> core_unused (sw_timeout s) sec c) (sw_cores s))"

lemma none_unused_same: "none_unused s \<Longrightarrow> sc_destroyUnused s = s"
proof (cases "sw_clock s")
  case (Some sec)
  assume "none_unused s"
  with Some have all: "list_all (\<lambda>(j, c). \<not> core_unused (sw_timeout s) sec c) (sw_cores s)" by (simp add: none_unused_def)
  have one: "\<not> core_unused (sw_timeout s) sec (core j s)" if j: "j \<in> fst ` set (sw_cores s)" for j
  proof -
    obtain c where c: "map_of (sw_cores s) j = Some c" using j by (metis map_of_eq_None_iff option.exhaust)
    with all map_of_SomeD [OF c] show ?thesis by (auto simp: core_def list_all_iff)
  qed
  have "set ks \<subseteq> fst ` set (sw_cores s) \<Longrightarrow> fold (\<lambda>k s. if core_unused (sw_timeout s) sec (core k s)
      then set_core k (\<lambda>c. c\<lparr>sc_disposable := False\<rparr>) (sc_destroy k s) else s) ks s = s" for ks
    by (induction ks) (simp_all add: one)
  from this [of "map fst (sw_cores s)"] Some show ?thesis by (simp add: sc_destroyUnused_def)
qed (simp add: sc_destroyUnused_def)

lemma keepInUse_fields:
  "sw_stored (sc_keepInUse k s) = sw_stored s" "sw_auth (sc_keepInUse k s) = sw_auth s" "sw_incr (sc_keepInUse k s) = sw_incr s"
  "sw_pids (sc_keepInUse k s) = sw_pids s" "sc_id (core j (sc_keepInUse k s)) = sc_id (core j s)"
  "sc_method (core j (sc_keepInUse k s)) = sc_method (core j s)"
  "map_of (sw_cores (sc_keepInUse k s)) j = None \<longleftrightarrow> map_of (sw_cores s) j = None"
  by (auto simp: sc_keepInUse_def core_set_core map_of_set_core split: option.split)

lemma stale_entry:
  assumes "map_of (sw_stored s) (sessionName i m) = Some k" and "map_of (sw_cores s) k \<noteq> None" and "sc_method (core k s) = m"
    and "sc_id (core k s) \<noteq> n" "n \<noteq> 0" and "map_of (sw_stored s) (sessionName n m) = None"
  shows "map_of (sw_stored (sc_setId k n s)) (sessionName i m) = Some k \<and> sc_id (core k (sc_setId k n s)) = n
    \<and> map_of (sw_cores (sc_setId k n s)) k \<noteq> None
    \<and> sw_auth (sc_setId k n s) = sw_auth s \<and> sw_incr (sc_setId k n s) = sw_incr s \<and> sw_pids (sc_setId k n s) = sw_pids s"
proof -
  have "sessionName i m \<noteq> sessionName n m" using assms(1,6) by auto
  moreover define t where "t = (sc_keepInUse k s)\<lparr>sw_nonStored := remove_first (Some k) (sw_nonStored (sc_keepInUse k s)),
      sw_stored := qm_insert (sessionName n m) k (sw_stored (sc_keepInUse k s))\<rparr>"
  have set: "sc_setId k n s = set_core k (\<lambda>c. c\<lparr>sc_id := n\<rparr>) t"
    using assms by (simp add: sc_setId_def Let_def keepInUse_fields qm_contains_def t_def)
  have "map_of (sw_cores t) k \<noteq> None" "sw_auth t = sw_auth s" "sw_incr t = sw_incr s" "sw_pids t = sw_pids s"
    "sw_stored t = qm_insert (sessionName n m) k (sw_stored s)"
    using assms(2) keepInUse_fields(7) [of k s k] by (simp_all add: t_def keepInUse_fields)
  ultimately show ?thesis
    using assms(1) by (simp add: set core_set_core map_of_set_core)
qed

text \<open>C21: A session can reach the credentials of an identity its client may not use. When a client moves its session
  from one stored identity to another that has none for the method, which it needs the right to use only the other
  for, the entry of the old name stays in \<open>sessionsOfStoredCredentials\<close>. Any client that may use the old identity,
  and asks for a session of it, is then given one whose core is the moved one: it is checked for the old identity
  only and owns the session, and the parameters of its requests have the password of the other identity.\<close>

theorem session_reaches_a_foreign_identity:
  assumes "map_of (sw_stored s) (sessionName i m) = Some k" and "map_of (sw_cores s) k \<noteq> None" and "sc_method (core k s) = m"
    and "sc_id (core k s) \<noteq> n" and "i \<noteq> 0" "n \<noteq> 0" and "map_of (sw_stored s) (sessionName n m) = None"
    and "parent a s = k" and "owned_by_peer a p s" and "isPeerAllowedToUseIdentity (sw_ac s) p n (sw_db s) = (True, db)"
    and "t = snd (aa_setId a p n s)" and "none_unused t" and "map_of (sw_auth s) (sw_incr s) = None"
    and "isPeerAllowedToUseIdentity (sw_ac t) q i (sw_db t) = (True, db')"
    and "u = snd (da_getAuthSessionObjectPath q i m t)" and "info = fst (with_db (cd_credentials n True) [] u)"
    and "info_id info \<noteq> 0" and "map_of (rd_params data) SSO_KEY_PASSWORD = None"
  shows "fst (da_getAuthSessionObjectPath q i m t) = [VUInt (sw_incr s)] \<and> owned_by_peer (sw_incr s) q u
    \<and> parent (sw_incr s) u = k \<and> sc_id (core k u) = n
    \<and> map_of (fst (request_parameters k data u)) SSO_KEY_PASSWORD = Some (VString (password info))"
proof -
  let ?s = "s\<lparr>sw_db := db\<rparr>"
  have t: "t = sc_setId k n ?s"
    using assms(8-11) by (simp add: aa_setId_def as_setId_def Let_def auth_def)
  have moved: "map_of (sw_stored t) (sessionName i m) = Some k \<and> sc_id (core k t) = n \<and> map_of (sw_cores t) k \<noteq> None
      \<and> sw_auth t = sw_auth s \<and> sw_incr t = sw_incr s \<and> sw_pids t = sw_pids s"
    unfolding t using stale_entry [of ?s i m k n] assms(1-7) by (simp add: core_def)
  then obtain y where y: "map_of (sw_cores t) k = Some y" by blast
  define v where "v = t\<lparr>sw_db := db', sw_incr := (sw_incr s + 1) mod 4294967296,
      sw_auth := sw_auth s @ [(sw_incr s, \<lparr>as_core = k, as_ownerPid = pidOfPeer (sw_pids s) q\<rparr>)]\<rparr>"
  have g: "da_getAuthSessionObjectPath q i m t = ([VUInt (sw_incr s)], sc_keepInUse k v)"
    using moved y assms(5,12,14)
    by (simp add: da_getAuthSessionObjectPath_def none_unused_same getAuthSession_def createAuthSession_def sessionCore_def qm_contains_def
        Let_def childEvent_def v_def)
  then have u: "u = sc_keepInUse k v" using assms(15) by simp
  have f: "sw_auth u = sw_auth s @ [(sw_incr s, \<lparr>as_core = k, as_ownerPid = pidOfPeer (sw_pids s) q\<rparr>)]" "sw_pids u = sw_pids s"
    using moved by (simp_all add: u keepInUse_fields v_def)
  have n: "sc_id (core k u) = n" using moved by (simp add: u keepInUse_fields) (simp add: v_def core_def)
  have "auth (sw_incr s) u = \<lparr>as_core = k, as_ownerPid = pidOfPeer (sw_pids s) q\<rparr>"
    using assms(13) by (simp add: auth_def f map_add_def)
  moreover have "requested_parameters k data u SSO_KEY_PASSWORD = Some (VString (password info))"
    using assms(6,16-18) by (simp add: requested_parameters_def n Let_def case_prod_beta reference_parameters_def)
  ultimately show ?thesis
    using g n by (simp add: request_parameters_lookup owned_by_peer_def f(2))
qed

theorem session_reaches_a_foreign_identity_witness:
  "let s = session_run [SessionCall (session_peer ''admin'' 0) (GetAuthSessionObjectPath 1 (QStr ''oauth''))] session_world;
       t = snd (aa_setId 0 (session_peer ''admin'' 1) 2 s);
       u = snd (da_getAuthSessionObjectPath (session_peer ''alice'' 2) 1 (QStr ''oauth'') t);
       data = \<lparr>rd_call = session_peer ''alice'' 3, rd_params = [], rd_mechanism = QStr ''web'', rd_cancelKey = 1\<rparr>
   in \<not> allowed_by (sw_ac s) (session_peer ''alice'' 3) 2 (sq_data (cd_meta two_identities))
      \<and> owned_by_peer 1 (session_peer ''alice'' 2) u \<and> parent 1 u = 0
      \<and> map_of (fst (request_parameters 0 data u)) SSO_KEY_PASSWORD = Some (VString (QStr ''b0b''))"
proof -
  let ?s = "session_run [SessionCall (session_peer ''admin'' 0) (GetAuthSessionObjectPath 1 (QStr ''oauth''))] session_world"
  let ?p = "session_peer ''admin'' 1" and ?q = "session_peer ''alice'' 2"
  let ?t = "snd (aa_setId 0 ?p 2 ?s)"
  let ?u = "snd (da_getAuthSessionObjectPath ?q 1 (QStr ''oauth'') ?t)"
  let ?data = "\<lparr>rd_call = session_peer ''alice'' 3, rd_params = [], rd_mechanism = QStr ''web'', rd_cancelKey = 1\<rparr>"
  have 1: "map_of (sw_stored ?s) (sessionName 1 (QStr ''oauth'')) = Some 0" by code_simp
  have 2: "map_of (sw_cores ?s) 0 \<noteq> None" by code_simp
  have 3: "sc_method (core 0 ?s) = QStr ''oauth''" by code_simp
  have 4: "sc_id (core 0 ?s) \<noteq> 2" by code_simp
  have 5: "map_of (sw_stored ?s) (sessionName 2 (QStr ''oauth'')) = None" by code_simp
  have 6: "parent 0 ?s = 0" by code_simp
  have 7: "owned_by_peer 0 ?p ?s" by code_simp
  have "fst (isPeerAllowedToUseIdentity (sw_ac ?s) ?p 2 (sw_db ?s))" by code_simp
  then have 8: "isPeerAllowedToUseIdentity (sw_ac ?s) ?p 2 (sw_db ?s) = (True, snd (isPeerAllowedToUseIdentity (sw_ac ?s) ?p 2 (sw_db ?s)))"
    by (simp only: fst_pair)
  have 9: "none_unused ?t" by code_simp
  have 10: "map_of (sw_auth ?s) (sw_incr ?s) = None" by code_simp
  have "fst (isPeerAllowedToUseIdentity (sw_ac ?t) ?q 1 (sw_db ?t))" by code_simp
  then have 11: "isPeerAllowedToUseIdentity (sw_ac ?t) ?q 1 (sw_db ?t) = (True, snd (isPeerAllowedToUseIdentity (sw_ac ?t) ?q 1 (sw_db ?t)))"
    by (simp only: fst_pair)
  have 12: "info_id (fst (with_db (cd_credentials 2 True) [] ?u)) \<noteq> 0" by code_simp
  have 13: "map_of (rd_params ?data) SSO_KEY_PASSWORD = None" by simp
  have 14: "sw_incr ?s = 1" "password (fst (with_db (cd_credentials 2 True) [] ?u)) = QStr ''b0b''" by code_simp+
  have 15: "\<not> allowed_by (sw_ac ?s) (session_peer ''alice'' 3) 2 (sq_data (cd_meta two_identities))" by code_simp
  have "(1::nat) \<noteq> 0" "(2::nat) \<noteq> 0" by simp_all
  from session_reaches_a_foreign_identity [OF 1 2 3 4 this 5 6 7 8 refl 9 10 11 refl refl 12 13, unfolded 14] 15
  show ?thesis unfolding Let_def by blast
qed

end
