(* ===== verification/Crypto_Manager.thy ===== *)
theory Crypto_Manager
  imports Credentials_Properties
begin

text \<open>
  The encrypted storage: \<open>AbstractCryptoManager\<close> (lib/signond/SignOn/abstract-crypto-manager.cpp), the
  \<open>DefaultCryptoManager\<close> that encrypts nothing, and \<open>CryptoManager\<close>
  (src/extensions/cryptsetup/crypto-manager.cpp) with the handlers that call the system
  (crypto-handlers.cpp). libcryptsetup is a parameter, given by the functions the handlers call; the
  outcomes of the other calls of the system are taken from a list.
\<close>

section \<open>The machine\<close>

text \<open>libcryptsetup, on a device whose state is of type \<open>'d\<close>. A negative result is an error.\<close>

record 'd libcryptsetup =
  lc_init :: "'d \<Rightarrow> int"
  lc_format :: "'d \<Rightarrow> int \<times> 'd"
  lc_add_by_volume_key :: "bytes \<Rightarrow> 'd \<Rightarrow> int \<times> 'd"
  lc_load :: "'d \<Rightarrow> int"
  lc_activate_by_passphrase :: "bytes \<Rightarrow> 'd \<Rightarrow> int"
  lc_add_by_passphrase :: "bytes \<Rightarrow> bytes \<Rightarrow> 'd \<Rightarrow> int \<times> 'd"
  lc_keyslot_by_passphrase :: "bytes \<Rightarrow> 'd \<Rightarrow> int"
  lc_keyslot_destroy :: "int \<Rightarrow> 'd \<Rightarrow> int \<times> 'd"

text \<open>A call of the system or of a program fails; or a program runs without writing anything in time;
  or it is done.\<close>

datatype call_outcome = CallFails | CallSilent | CallDone

datatype crypto_kind = DefaultCrypto | Cryptsetup

datatype mount_state = Unmounted | LoopSet | LoopLuksFormatted | LoopLuksOpened | Mounted

fun mount_rank :: "mount_state \<Rightarrow> nat" where
  "mount_rank Unmounted = 0"
| "mount_rank LoopSet = 1"
| "mount_rank LoopLuksFormatted = 2"
| "mount_rank LoopLuksOpened = 3"
| "mount_rank Mounted = 4"

instantiation mount_state :: linorder
begin

definition less_eq_mount_state :: "mount_state \<Rightarrow> mount_state \<Rightarrow> bool" where
  "less_eq_mount_state a b \<longleftrightarrow> mount_rank a \<le> mount_rank b"

definition less_mount_state :: "mount_state \<Rightarrow> mount_state \<Rightarrow> bool" where
  "less_mount_state a b \<longleftrightarrow> mount_rank a < mount_rank b"

instance
proof
  show "a = b" if "a \<le> b" "b \<le> a" for a b :: mount_state
    using that by (cases a; cases b) (simp_all add: less_eq_mount_state_def)
qed (auto simp: less_eq_mount_state_def less_mount_state_def)

end

lemma mount_state_order [simp]:
  "(a \<le> Unmounted) = (a = Unmounted)" "LoopSet \<le> a \<longleftrightarrow> a \<noteq> Unmounted" "Mounted \<le> a \<longleftrightarrow> a = Mounted"
  "LoopLuksOpened \<le> a \<longleftrightarrow> a = LoopLuksOpened \<or> a = Mounted" "Unmounted < a \<longleftrightarrow> a \<noteq> Unmounted"
  by (cases a; simp add: less_eq_mount_state_def less_mount_state_def)+

datatype file_system_type = Ext2 | Ext3 | Ext4

section \<open>State\<close>

datatype cam_failure = CamNoError | NotInitialized | AlreadyInitialized | AccessCodeHandlerInitFailed | AccessCodeNotReady
  | FailedToFetchAccessCode | AccessCodeInvalid | EncryptionInUse | CredentialsDbSetupFailed | CredentialsDbMountFailed
  | CredentialsDbUnmountFailed | CredentialsDbDeletionFailed | CredentialsDbAlreadyDeployed | CredentialsDbAlreadyMounted
  | CredentialsDbNotMounted | CredentialsDbConnectionError | CredentialsDbSqlError | CamUnknownError

datatype auth_reason = SystemStarted | KeyInsertedReason | StorageNeeded

datatype auth_result = Denied | Approved | Exclusive

text \<open>An authorizer is asked about a key and for a reason, and may look whether there is an authorized
  key; it answers at once, or later by a signal of its own.\<close>

type_synonym authorizer = "bytes \<Rightarrow> auth_reason \<Rightarrow> bool \<Rightarrow> auth_result option"

datatype cam_event = CredentialsSystemReady | KeyAuthorized bytes | KeyAuthorizationRevoked bytes
  | SecureStorage nat bool

text \<open>
  The fields \<open>mc_\<close> are the machine: the partition file with its size, the device in it, whether the
  mapper has it open, whether the kernel has mounted it, the key list in the mount directory, and what the
  mount directory does not show now, because of the file system mounted there or because it is not mounted:
  the other key list and the other files. \<open>cm_\<close>, \<open>kh_\<close> and \<open>cam_\<close> are the members of the crypto manager, the
  key handler and the \<open>CredentialsAccessManager\<close>. \<open>kh_begin\<close> says which element of a \<open>QSet\<close> is its first;
  \<open>cam_setup\<close> which keys a key manager reports at once.
\<close>

record 'd storage =
  mc_lib :: "'d libcryptsetup"
  mc_device :: 'd
  mc_partition :: "nat option"
  mc_mapped :: bool
  mc_mounted :: bool
  mc_keychain :: "(string, bytes) qmap"
  mc_hidden_keychain :: "(string, bytes) qmap"
  mc_hidden_files :: "(string, secrets_data) qhash"
  mc_calls :: "call_outcome list"
  mc_home :: string
  cm_kind :: "crypto_kind option"
  cm_encryptionKey :: bytes
  cm_fileSystemIsSetup :: bool
  cm_fileSystemIsMounted :: bool
  cm_storagePath :: string
  cm_fileSystemPath :: string
  cm_fileSystemName :: string
  cm_fileSystemMapPath :: string
  cm_fileSystemMountPath :: string
  cm_loopDeviceName :: qstring
  cm_mountState :: mount_state
  cm_fileSystemType :: file_system_type
  cm_fileSystemSize :: nat
  kh_connected :: bool
  kh_keyManagers :: "nat list"
  kh_readyKeyManagers :: "nat list"
  kh_insertedKeys :: "bytes list"
  kh_authorizedKeys :: "bytes list"
  kh_begin :: "bytes list \<Rightarrow> nat"
  cam_settings :: qvariant_map
  cam_secretsDbName :: string
  cam_keyManagers :: "nat list"
  cam_setup :: "nat \<Rightarrow> bytes list"
  cam_authorizer :: "authorizer option"
  cam_isInitialized :: bool
  cam_systemOpened :: bool
  cam_error :: cam_failure
  cam_ser :: "qvariant \<Rightarrow> bytes"
  cam_db :: "credentials_db option"
  cam_metaFile :: meta_db
  cam_metaExists :: bool
  cam_storage :: secrets_storage
  cam_notifiers :: "nat list"
  cam_events :: "cam_event list"
  cam_fault :: bool

definition cam_crash :: "'d storage \<Rightarrow> 'd storage" where
  "cam_crash s = s\<lparr>cam_fault := True\<rparr>"

definition cam_emit :: "cam_event \<Rightarrow> 'd storage \<Rightarrow> 'd storage" where
  "cam_emit e s = s\<lparr>cam_events := cam_events s @ [e]\<rparr>"

text \<open>The secrets storage belongs to the \<open>CredentialsAccessManager\<close>; a \<open>CredentialsDB\<close> uses it.\<close>

definition on_storage :: "(secrets_storage \<Rightarrow> secrets_storage) \<Rightarrow> 'd storage \<Rightarrow> 'd storage" where
  "on_storage f s =
     (case cam_db s of
        None \<Rightarrow> s\<lparr>cam_storage := f (cam_storage s)\<rparr>
      | Some db \<Rightarrow> s\<lparr>cam_db := Some (db\<lparr>cd_secrets := f (cd_secrets db)\<rparr>)\<rparr>)"

definition the_storage :: "'d storage \<Rightarrow> secrets_storage" where
  "the_storage s = (case cam_db s of None \<Rightarrow> cam_storage s | Some db \<Rightarrow> cd_secrets db)"

section \<open>Calls of the system\<close>

definition next_call :: "'d storage \<Rightarrow> call_outcome \<times> 'd storage" where
  "next_call s = (case mc_calls s of [] \<Rightarrow> (CallDone, s) | c # cs \<Rightarrow> (c, s\<lparr>mc_calls := cs\<rparr>))"

text \<open>A call whose only effect is its result: \<open>SystemCommandLineCallHandler::makeCall\<close> looks at whether
  the program ran, not at its exit status.\<close>

definition makeCall :: "'d storage \<Rightarrow> bool \<times> 'd storage" where
  "makeCall s = (let (c, s) = next_call s in (c \<noteq> CallFails, s))"

text \<open>Mounting and unmounting exchange what the mount directory shows.\<close>

definition exchange :: "'d storage \<Rightarrow> 'd storage" where
  "exchange s =
     (on_storage (\<lambda>st. st\<lparr>ss_files := mc_hidden_files s\<rparr>) s)
       \<lparr>mc_keychain := mc_hidden_keychain s, mc_hidden_keychain := mc_keychain s,
        mc_hidden_files := ss_files (the_storage s)\<rparr>"

definition MountHandler_mount :: "'d storage \<Rightarrow> bool \<times> 'd storage" where
  "MountHandler_mount s0 =
     (let (c, s) = next_call s0; ok = (c \<noteq> CallFails \<and> mc_mapped s)
      in (ok, if ok \<and> \<not> mc_mounted s then (exchange s)\<lparr>mc_mounted := True\<rparr> else s))"

definition MountHandler_umount :: "'d storage \<Rightarrow> bool \<times> 'd storage" where
  "MountHandler_umount s0 =
     (let (c, s) = next_call s0
      in (True, if c \<noteq> CallFails \<and> mc_mounted s then (exchange s)\<lparr>mc_mounted := False\<rparr> else s))"

abbreviation "MEGA_BYTE_SIZE \<equiv> 1048576 :: nat"

text \<open>The product of the size and the number of bytes in a megabyte is taken in 32 bits.\<close>

definition createPartitionFile :: "nat \<Rightarrow> 'd storage \<Rightarrow> bool \<times> 'd storage" where
  "createPartitionFile fileSize s0 =
     (let (opened, s) = next_call s0 in
      if opened = CallFails then (False, s)
      else
        let s = (if mc_partition s = None then s\<lparr>mc_partition := Some 0\<rparr> else s);
            (truncated, s) = next_call s in
        if truncated = CallFails then (False, s)
        else (True, s\<lparr>mc_partition := Some ((fileSize * MEGA_BYTE_SIZE) mod 4294967296)\<rparr>))"

text \<open>A new file system is empty.\<close>

definition formatPartitionFile :: "'d storage \<Rightarrow> bool \<times> 'd storage" where
  "formatPartitionFile s0 =
     (let (ok, s) = makeCall s0
      in (ok, if ok \<and> mc_mapped s \<and> \<not> mc_mounted s then s\<lparr>mc_hidden_keychain := [], mc_hidden_files := []\<rparr> else s))"

definition findAvailableDevice :: "'d storage \<Rightarrow> qstring \<times> 'd storage" where
  "findAvailableDevice s0 =
     (let (c, s) = next_call s0
      in (if c = CallDone then QStr ''/dev/loop0'' else QNull, s))"

definition luksFormatBinary :: "'d libcryptsetup \<Rightarrow> bytes \<Rightarrow> 'd \<Rightarrow> int \<times> 'd" where
  "luksFormatBinary lc pwd d =
     (if lc_init lc d \<noteq> 0 then (-22, d)
      else
        let (r, d) = lc_format lc d in
        if r < 0 then (r, d)
        else let (r, d) = lc_add_by_volume_key lc pwd d in (if r < 0 then r else 0, d))"

definition luksOpenBinary :: "'d libcryptsetup \<Rightarrow> bytes \<Rightarrow> 'd \<Rightarrow> int" where
  "luksOpenBinary lc pwd d =
     (if lc_init lc d \<noteq> 0 then -22
      else if lc_load lc d \<noteq> 0 then lc_load lc d
      else let r = lc_activate_by_passphrase lc pwd d in if r < 0 then r else 0)"

definition luksAddKeyBinary :: "'d libcryptsetup \<Rightarrow> bytes \<Rightarrow> bytes \<Rightarrow> 'd \<Rightarrow> int \<times> 'd" where
  "luksAddKeyBinary lc pwd newPwd d =
     (if lc_init lc d \<noteq> 0 then (-22, d)
      else if lc_load lc d \<noteq> 0 then (lc_load lc d, d)
      else let (r, d) = lc_add_by_passphrase lc pwd newPwd d in (if r < 0 then r else 0, d))"

definition luksRemoveKeyBinary :: "'d libcryptsetup \<Rightarrow> bytes \<Rightarrow> 'd \<Rightarrow> int \<times> 'd" where
  "luksRemoveKeyBinary lc pwdToRemove d =
     (if lc_init lc d \<noteq> 0 then (-22, d)
      else if lc_load lc d \<noteq> 0 then (lc_load lc d, d)
      else
        let key_slot = lc_keyslot_by_passphrase lc pwdToRemove d in
        if key_slot < 0 then (-1, d)
        else let (r, d) = lc_keyslot_destroy lc key_slot d in (if r < 0 then r else 0, d))"

definition formatFile :: "bytes \<Rightarrow> 'd storage \<Rightarrow> bool \<times> 'd storage" where
  "formatFile key s = (let (r, d) = luksFormatBinary (mc_lib s) key (mc_device s) in (r = 0, s\<lparr>mc_device := d\<rparr>))"

definition openFile :: "bytes \<Rightarrow> 'd storage \<Rightarrow> bool \<times> 'd storage" where
  "openFile key s =
     (if luksOpenBinary (mc_lib s) key (mc_device s) = 0 then (True, s\<lparr>mc_mapped := True\<rparr>) else (False, s))"

definition closeFile :: "'d storage \<Rightarrow> bool \<times> 'd storage" where
  "closeFile s0 = (let (c, s) = next_call s0 in if c = CallFails then (False, s) else (True, s\<lparr>mc_mapped := False\<rparr>))"

definition addKeySlot :: "bytes \<Rightarrow> bytes \<Rightarrow> 'd storage \<Rightarrow> bool \<times> 'd storage" where
  "addKeySlot key existingKey s =
     (let (r, d) = luksAddKeyBinary (mc_lib s) existingKey key (mc_device s) in (r = 0, s\<lparr>mc_device := d\<rparr>))"

definition removeKeySlot :: "bytes \<Rightarrow> 'd storage \<Rightarrow> bool \<times> 'd storage" where
  "removeKeySlot key s =
     (let (r, d) = luksRemoveKeyBinary (mc_lib s) key (mc_device s) in (r = 0, s\<lparr>mc_device := d\<rparr>))"

section \<open>AbstractCryptoManager\<close>

definition fileSystemMountPath :: "'d storage \<Rightarrow> string" where
  "fileSystemMountPath s = (if cm_kind s = Some Cryptsetup then cm_fileSystemMountPath s else cm_storagePath s)"

text \<open>The slots of the \<open>CredentialsAccessManager\<close> that are connected to the signals of the crypto manager
  come first, since the signals are emitted directly.\<close>

definition cam_openSecretsDB :: "'d storage \<Rightarrow> bool \<times> 'd storage" where
  "cam_openSecretsDB s =
     (if \<not> cm_fileSystemIsMounted s then (False, s\<lparr>cam_error := CredentialsDbNotMounted\<rparr>)
      else
        case cam_db s of
          None \<Rightarrow> (False, cam_crash s)
        | Some db \<Rightarrow>
            let dbPath = fileSystemMountPath s @ CHR ''/'' # cam_secretsDbName s;
                (ok, db) = openSecretsDB (cam_ser s) dbPath db;
                s = s\<lparr>cam_db := Some db\<rparr>
            in if \<not> ok then (False, s) else (True, s\<lparr>cam_error := CamNoError\<rparr>))"

definition cam_isSecretsDBOpen :: "'d storage \<Rightarrow> bool \<times> 'd storage" where
  "cam_isSecretsDBOpen s = (case cam_db s of None \<Rightarrow> (False, cam_crash s) | Some db \<Rightarrow> (isSecretsDBOpen db, s))"

definition onEncryptedFSMounted :: "'d storage \<Rightarrow> 'd storage" where
  "onEncryptedFSMounted s =
     (if \<not> cam_systemOpened s then s
      else let (isOpen, s) = cam_isSecretsDBOpen s in if \<not> isOpen then snd (cam_openSecretsDB s) else s)"

definition db_closeSecrets :: "'d storage \<Rightarrow> 'd storage" where
  "db_closeSecrets s = (case cam_db s of None \<Rightarrow> cam_crash s | Some db \<Rightarrow> s\<lparr>cam_db := Some (closeSecretsDB db)\<rparr>)"

definition onEncryptedFSUnmounting :: "'d storage \<Rightarrow> 'd storage" where
  "onEncryptedFSUnmounting s =
     (if \<not> cam_systemOpened s then s
      else let (isOpen, s) = cam_isSecretsDBOpen s in if isOpen then db_closeSecrets s else s)"

definition setFileSystemMounted :: "bool \<Rightarrow> 'd storage \<Rightarrow> 'd storage" where
  "setFileSystemMounted isMounted s =
     (if isMounted = cm_fileSystemIsMounted s then s
      else
        let s = (if cm_fileSystemIsMounted s then onEncryptedFSUnmounting s else s);
            s = s\<lparr>cm_fileSystemIsMounted := isMounted\<rparr>
        in if isMounted then onEncryptedFSMounted s else s)"

definition setFileSystemSetup :: "bool \<Rightarrow> 'd storage \<Rightarrow> 'd storage" where
  "setFileSystemSetup isSetup s = s\<lparr>cm_fileSystemIsSetup := isSetup\<rparr>"

definition setEncryptionKey :: "bytes \<Rightarrow> 'd storage \<Rightarrow> 'd storage" where
  "setEncryptionKey key s = (if cm_fileSystemIsMounted s then s else s\<lparr>cm_encryptionKey := key\<rparr>)"

section \<open>CryptoManager\<close>

definition keychainContainsKey :: "bytes \<Rightarrow> 'd storage \<Rightarrow> bool" where
  "keychainContainsKey key s = list_ex (\<lambda>p. snd p = key) (mc_keychain s)"

definition addKeyToKeychain :: "bytes \<Rightarrow> 'd storage \<Rightarrow> 'd storage" where
  "addKeyToKeychain key s =
     (if keychainContainsKey key s then s
      else let keyCount = length (mc_keychain s)
           in s\<lparr>mc_keychain := qm_insert (nat_str (keyCount + 1)) key (mc_keychain s)\<rparr>)"

definition removeKeyFromKeychain :: "bytes \<Rightarrow> 'd storage \<Rightarrow> 'd storage" where
  "removeKeyFromKeychain key s =
     (case find (\<lambda>p. snd p = key) (mc_keychain s) of
        None \<Rightarrow> s
      | Some (keyIt, _) \<Rightarrow> s\<lparr>mc_keychain := qm_remove keyIt (mc_keychain s)\<rparr>)"

definition file_name :: "string \<Rightarrow> string" where
  "file_name path = rev (takeWhile (\<lambda>c. c \<noteq> CHR ''/'') (rev path))"

definition setFileSystemPath :: "string \<Rightarrow> 'd storage \<Rightarrow> 'd storage" where
  "setFileSystemPath path s =
     s\<lparr>cm_fileSystemPath := path, cm_fileSystemName := file_name path,
       cm_fileSystemMapPath := ''/dev/mapper/'' @ file_name path, cm_fileSystemMountPath := path @ ''-mnt''\<rparr>"

definition setFileSystemSize :: "nat \<Rightarrow> 'd storage \<Rightarrow> bool \<times> 'd storage" where
  "setFileSystemSize sz s = (if sz < 4 then (False, s) else (True, s\<lparr>cm_fileSystemSize := sz\<rparr>))"

definition setFileSystemType :: "qstring \<Rightarrow> 'd storage \<Rightarrow> bool \<times> 'd storage" where
  "setFileSystemType type s =
     (let cmpBase = lower (chars type) in
      if cmpBase = ''ext2'' then (True, s\<lparr>cm_fileSystemType := Ext2\<rparr>)
      else if cmpBase = ''ext3'' then (True, s\<lparr>cm_fileSystemType := Ext3\<rparr>)
      else if cmpBase = ''ext4'' then (True, s\<lparr>cm_fileSystemType := Ext4\<rparr>)
      else (False, s))"

definition checkFileSystemSetup :: "'d storage \<Rightarrow> 'd storage" where
  "checkFileSystemSetup s = setFileSystemSetup (mc_partition s \<noteq> None) s"

abbreviation "signonMinumumDbSize \<equiv> 8 :: nat"

definition expand_home :: "string \<Rightarrow> 'd storage \<Rightarrow> string" where
  "expand_home path s = (case path of CHR ''~'' # rest \<Rightarrow> mc_home s @ rest | _ \<Rightarrow> path)"

text \<open>A setting that is not a number reads as 0, which is below the minimum as well.\<close>

definition cs_initialize :: "qvariant_map \<Rightarrow> 'd storage \<Rightarrow> bool \<times> 'd storage" where
  "cs_initialize configuration s =
     (let storagePath = expand_home (chars (v_toString (qm_value configuration ''StoragePath'' VInvalid))) s;
          encryptedFSPath = storagePath @ ''/signonfs'';
          storageSize = v_toUInt (qm_value configuration ''Size'' VInvalid);
          storageSize = (if storageSize < signonMinumumDbSize then signonMinumumDbSize else storageSize);
          fileSystemType = v_toString (qm_value configuration ''FileSystemType'' VInvalid);
          s = setFileSystemPath encryptedFSPath s;
          s = snd (setFileSystemSize storageSize s);
          s = snd (setFileSystemType fileSystemType s)
      in (True, checkFileSystemSetup s))"

definition updateMountState :: "mount_state \<Rightarrow> 'd storage \<Rightarrow> 'd storage" where
  "updateMountState state s =
     (if state = cm_mountState s then s else setFileSystemMounted (state = Mounted) (s\<lparr>cm_mountState := state\<rparr>))"

text \<open>The directory exists or can be made, or not; whether the mount succeeded is not looked at.\<close>

definition mountMappedDevice :: "'d storage \<Rightarrow> bool \<times> 'd storage" where
  "mountMappedDevice s0 =
     (let (made, s) = next_call s0 in
      if made = CallFails then (False, s) else (True, snd (MountHandler_mount s)))"

definition unmountMappedDevice :: "'d storage \<Rightarrow> bool \<times> 'd storage" where
  "unmountMappedDevice s = MountHandler_umount s"

definition clearFileSystemResources :: "'d storage \<Rightarrow> 'd storage" where
  "clearFileSystemResources s0 =
     (let s = snd (unmountMappedDevice s0) in if mc_mapped s then snd (closeFile s) else s)"

definition if_reached :: "bool \<Rightarrow> ('d storage \<Rightarrow> bool \<times> 'd storage) \<Rightarrow> 'd storage \<Rightarrow> bool \<times> 'd storage" where
  "if_reached b f s = (if b then f s else (True, s))"

definition cs_unmountFileSystem :: "'d storage \<Rightarrow> bool \<times> 'd storage" where
  "cs_unmountFileSystem s0 =
     (if cm_mountState s0 = Unmounted then (True, s0)
      else
        let s = setFileSystemMounted False s0; state = cm_mountState s;
            (ok1, s) = if_reached (Mounted \<le> state) unmountMappedDevice s;
            (ok2, s) = if_reached (LoopLuksOpened \<le> state) closeFile s;
            (ok3, s) = if_reached (LoopSet \<le> state) makeCall s
        in (ok1 \<and> ok2 \<and> ok3, updateMountState Unmounted s))"

text \<open>A step of mounting that fails undoes what has been done.\<close>

definition or_unmount :: "bool \<times> 'd storage \<Rightarrow> ('d storage \<Rightarrow> bool \<times> 'd storage) \<Rightarrow> bool \<times> 'd storage" where
  "or_unmount r k = (if \<not> fst r then (False, snd (cs_unmountFileSystem (snd r))) else k (snd r))"

definition mounted_at_last :: "'d storage \<Rightarrow> bool \<times> 'd storage" where
  "mounted_at_last s = (True, updateMountState Mounted (addKeyToKeychain (cm_encryptionKey s) s))"

definition close_leftover :: "'d storage \<Rightarrow> 'd storage" where
  "close_leftover s = (if mc_mapped s then snd (closeFile s) else s)"

definition cs_setupFileSystem :: "'d storage \<Rightarrow> bool \<times> 'd storage" where
  "cs_setupFileSystem s0 =
     (if cm_mountState s0 = Mounted then (False, s0)
      else if cm_encryptionKey s0 = [] then (False, s0)
      else
        let (dm, s) = makeCall s0 in
        if \<not> dm then (False, s)
        else
          let (dev, s) = findAvailableDevice (clearFileSystemResources s); s = s\<lparr>cm_loopDeviceName := dev\<rparr> in
          if qisNull dev then (False, s)
          else
            or_unmount (createPartitionFile (cm_fileSystemSize s) s) (\<lambda>s.
            or_unmount (makeCall (checkFileSystemSetup s)) (\<lambda>s.
              let s = updateMountState LoopSet s in
            or_unmount (formatFile (cm_encryptionKey s) s) (\<lambda>s.
              let s = close_leftover (updateMountState LoopLuksFormatted s) in
            or_unmount (openFile (cm_encryptionKey s) s) (\<lambda>s.
              let s = updateMountState LoopLuksOpened s in
            or_unmount (formatPartitionFile s) (\<lambda>s.
            or_unmount (mountMappedDevice s) mounted_at_last))))))"

definition cs_mountFileSystem :: "'d storage \<Rightarrow> bool \<times> 'd storage" where
  "cs_mountFileSystem s0 =
     (if cm_mountState s0 = Mounted then (False, s0)
      else if cm_encryptionKey s0 = [] then (False, s0)
      else
        let (dm, s) = makeCall (clearFileSystemResources s0) in
        if \<not> dm then (False, s)
        else
          let (dev, s) = findAvailableDevice s; s = s\<lparr>cm_loopDeviceName := dev\<rparr> in
          if qisNull dev then (False, s)
          else
            or_unmount (makeCall s) (\<lambda>s.
              let s = close_leftover (updateMountState LoopSet s) in
            or_unmount (openFile (cm_encryptionKey s) s) (\<lambda>s.
              let s = updateMountState LoopLuksOpened s in
            or_unmount (mountMappedDevice s) mounted_at_last)))"

definition cs_deleteFileSystem :: "'d storage \<Rightarrow> bool \<times> 'd storage" where
  "cs_deleteFileSystem s = (False, if Unmounted < cm_mountState s then snd (cs_unmountFileSystem s) else s)"

definition cs_addEncryptionKey :: "bytes \<Rightarrow> bytes \<Rightarrow> 'd storage \<Rightarrow> bool \<times> 'd storage" where
  "cs_addEncryptionKey key existingKey s0 =
     (if LoopLuksOpened \<le> cm_mountState s0
      then let (ok, s) = addKeySlot key existingKey s0 in if ok then (True, addKeyToKeychain key s) else (False, s)
      else (False, s0))"

text \<open>The result does not depend on whether the slot could be removed.\<close>

definition cs_removeEncryptionKey :: "bytes \<Rightarrow> 'd storage \<Rightarrow> bool \<times> 'd storage" where
  "cs_removeEncryptionKey key s0 =
     (if LoopLuksOpened \<le> cm_mountState s0
      then let (ok, s) = removeKeySlot key s0 in (True, if ok then removeKeyFromKeychain key s else s)
      else (False, s0))"

definition cs_encryptionKeyInUse :: "bytes \<Rightarrow> 'd storage \<Rightarrow> bool \<times> 'd storage" where
  "cs_encryptionKeyInUse key s =
     (if cm_fileSystemIsMounted s \<and> cm_encryptionKey s = key then (True, s)
      else if \<not> cm_fileSystemIsMounted s then cs_mountFileSystem (setEncryptionKey key s)
      else (keychainContainsKey key s, s))"

section \<open>Virtual methods\<close>

definition cm_initialize :: "'d storage \<Rightarrow> 'd storage" where
  "cm_initialize s =
     (if cm_kind s = Some Cryptsetup then snd (cs_initialize (cam_settings s) s)
      else
        let s = s\<lparr>cm_storagePath := chars (v_toString (qm_value (cam_settings s) ''StoragePath'' VInvalid))\<rparr>
        in setFileSystemMounted True (setFileSystemSetup True s))"

definition setupFileSystem :: "'d storage \<Rightarrow> bool \<times> 'd storage" where
  "setupFileSystem s = (if cm_kind s = Some Cryptsetup then cs_setupFileSystem s else (True, setFileSystemSetup True s))"

definition mountFileSystem :: "'d storage \<Rightarrow> bool \<times> 'd storage" where
  "mountFileSystem s = (if cm_kind s = Some Cryptsetup then cs_mountFileSystem s else (True, setFileSystemMounted True s))"

definition unmountFileSystem :: "'d storage \<Rightarrow> bool \<times> 'd storage" where
  "unmountFileSystem s = (if cm_kind s = Some Cryptsetup then cs_unmountFileSystem s else (True, setFileSystemMounted False s))"

definition addEncryptionKey :: "bytes \<Rightarrow> bytes \<Rightarrow> 'd storage \<Rightarrow> bool \<times> 'd storage" where
  "addEncryptionKey key existingKey s =
     (if cm_kind s = Some Cryptsetup then cs_addEncryptionKey key existingKey s else (True, s))"

definition removeEncryptionKey :: "bytes \<Rightarrow> 'd storage \<Rightarrow> bool \<times> 'd storage" where
  "removeEncryptionKey key s = (if cm_kind s = Some Cryptsetup then cs_removeEncryptionKey key s else (True, s))"

definition encryptionKeyInUse :: "bytes \<Rightarrow> 'd storage \<Rightarrow> bool \<times> 'd storage" where
  "encryptionKeyInUse key s = (if cm_kind s = Some Cryptsetup then cs_encryptionKeyInUse key s else (True, s))"

end
