(* ===== verification/Credentials_Access.thy ===== *)
theory Credentials_Access
  imports Crypto_Manager
begin

text \<open>
  \<open>KeyHandler\<close> (lib/signond/SignOn/key-handler.cpp) and \<open>CredentialsAccessManager\<close>
  (src/signond/credentialsaccessmanager.cpp): which keys open the encrypted storage, and when the secrets
  database in it is open. The signals between the two and the crypto manager are direct calls.
\<close>

section \<open>KeyHandler\<close>

definition set_insert :: "bytes \<Rightarrow> bytes list \<Rightarrow> bytes list" where
  "set_insert k ks = (if k \<in> set ks then ks else ks @ [k])"

definition set_remove :: "bytes \<Rightarrow> bytes list \<Rightarrow> bytes list" where
  "set_remove k ks = filter (\<lambda>j. j \<noteq> k) ks"

definition isReady :: "'d storage \<Rightarrow> bool" where
  "isReady s \<longleftrightarrow> length (kh_readyKeyManagers s) = length (kh_keyManagers s)"

definition authorizedInsertedKeys :: "'d storage \<Rightarrow> bytes list" where
  "authorizedInsertedKeys s = filter (\<lambda>k. k \<in> set (kh_authorizedKeys s)) (kh_insertedKeys s)"

text \<open>The first element of the set, for a set that is not empty.\<close>

definition anyAuthorizedKey :: "'d storage \<Rightarrow> bytes" where
  "anyAuthorizedKey s = kh_authorizedKeys s ! (kh_begin s (kh_authorizedKeys s) mod length (kh_authorizedKeys s))"

definition keyIsAuthorized :: "bytes \<Rightarrow> 'd storage \<Rightarrow> bool" where
  "keyIsAuthorized key s \<longleftrightarrow> key \<in> set (kh_authorizedKeys s)"

definition canAddKeyAuthorization :: "'d storage \<Rightarrow> bool" where
  "canAddKeyAuthorization s \<longleftrightarrow> kh_authorizedKeys s \<noteq> []"

text \<open>With one of the authorized keys the storage is mounted, if it is not.\<close>

definition mount_with_authorized :: "'d storage \<Rightarrow> bool \<times> 'd storage" where
  "mount_with_authorized s =
     (if \<not> cm_fileSystemIsMounted s then mountFileSystem (setEncryptionKey (anyAuthorizedKey s) s) else (True, s))"

definition authorized :: "bytes \<Rightarrow> 'd storage \<Rightarrow> 'd storage" where
  "authorized key s = cam_emit (KeyAuthorized key) (s\<lparr>kh_authorizedKeys := set_insert key (kh_authorizedKeys s)\<rparr>)"

definition authorizeKey :: "bytes \<Rightarrow> bool \<Rightarrow> 'd storage \<Rightarrow> bool \<times> 'd storage" where
  "authorizeKey key formatStorage s0 =
     (if keyIsAuthorized key s0 then (True, s0)
      else if \<not> cm_fileSystemIsSetup s0 \<or> formatStorage
      then
        let (ok, s) = setupFileSystem (setEncryptionKey key (s0\<lparr>kh_authorizedKeys := []\<rparr>))
        in if \<not> ok then (False, s) else (True, authorized key s)
      else if kh_authorizedKeys s0 = [] then (False, s0)
      else
        let authorizedKey = anyAuthorizedKey s0; (ok, s) = mount_with_authorized s0 in
        if \<not> ok then (False, s)
        else
          let (ok, s) = addEncryptionKey key authorizedKey s
          in if \<not> ok then (False, s) else (True, authorized key s))"

definition revokeKeyAuthorization :: "bytes \<Rightarrow> 'd storage \<Rightarrow> bool \<times> 'd storage" where
  "revokeKeyAuthorization key s0 =
     (if \<not> cm_fileSystemIsSetup s0 then (False, s0)
      else if kh_authorizedKeys s0 = [] then (False, s0)
      else
        let (ok, s) = mount_with_authorized s0 in
        if \<not> ok then (False, s)
        else
          let (ok, s) = removeEncryptionKey key s in
          if \<not> ok then (False, s)
          else (True, cam_emit (KeyAuthorizationRevoked key) (s\<lparr>kh_authorizedKeys := set_remove key (kh_authorizedKeys s)\<rparr>)))"

section \<open>CredentialsAccessManager: keys\<close>

definition secrets_are_open :: "'d storage \<Rightarrow> bool" where
  "secrets_are_open s \<longleftrightarrow> (case cam_db s of None \<Rightarrow> False | Some db \<Rightarrow> isSecretsDBOpen db)"

definition replyToSecureStorageEventNotifiers :: "'d storage \<Rightarrow> 'd storage" where
  "replyToSecureStorageEventNotifiers s =
     (fold (\<lambda>object s. cam_emit (SecureStorage object (secrets_are_open s)) s) (cam_notifiers s) s)\<lparr>cam_notifiers := []\<rparr>"

definition onKeyAuthorizationQueried :: "bytes \<Rightarrow> auth_result \<Rightarrow> 'd storage \<Rightarrow> 'd storage" where
  "onKeyAuthorizationQueried key result s =
     replyToSecureStorageEventNotifiers
       (if result \<noteq> Denied then snd (authorizeKey key (result = Exclusive) s) else s)"

definition queryKeyAuthorization :: "bytes \<Rightarrow> auth_reason \<Rightarrow> 'd storage \<Rightarrow> 'd storage" where
  "queryKeyAuthorization key reason s =
     (case cam_authorizer s of
        None \<Rightarrow> cam_crash s
      | Some authorizer \<Rightarrow>
          case authorizer key reason (canAddKeyAuthorization s) of
            None \<Rightarrow> s
          | Some result \<Rightarrow> onKeyAuthorizationQueried key result s)"

definition AbstractKeyAuthorizer :: authorizer where
  "AbstractKeyAuthorizer key reason canAdd = Some Denied"

definition DefaultKeyAuthorizer :: authorizer where
  "DefaultKeyAuthorizer key reason canAdd = Some (if canAdd then Approved else Exclusive)"

definition cam_onKeyInserted :: "bytes \<Rightarrow> 'd storage \<Rightarrow> 'd storage" where
  "cam_onKeyInserted key s = (if \<not> keyIsAuthorized key s then queryKeyAuthorization key KeyInsertedReason s else s)"

definition cam_closeSecretsDB :: "'d storage \<Rightarrow> bool \<times> 'd storage" where
  "cam_closeSecretsDB s0 =
     (let (ok, s) = unmountFileSystem (db_closeSecrets s0)
      in if \<not> ok then (False, s\<lparr>cam_error := CredentialsDbUnmountFailed\<rparr>) else (True, s))"

definition onLastAuthorizedKeyRemoved :: "'d storage \<Rightarrow> 'd storage" where
  "onLastAuthorizedKeyRemoved s0 =
     (let (isOpen, s) = cam_isSecretsDBOpen s0
      in if isOpen \<or> cm_fileSystemIsMounted s then snd (cam_closeSecretsDB s) else s)"

definition cam_onKeyRemoved :: "bytes \<Rightarrow> 'd storage \<Rightarrow> 'd storage" where
  "cam_onKeyRemoved key s = (if keyIsAuthorized key s then snd (revokeKeyAuthorization key s) else s)"

section \<open>KeyHandler: slots\<close>

definition kh_ready :: "nat \<Rightarrow> 'd storage \<Rightarrow> 'd storage" where
  "kh_ready manager s =
     (if isReady s \<or> manager \<in> set (kh_readyKeyManagers s) then s
      else
        let s = s\<lparr>kh_readyKeyManagers := kh_readyKeyManagers s @ [manager]\<rparr>
        in if isReady s then cam_emit CredentialsSystemReady s else s)"

text \<open>A key that opens the storage is authorized.\<close>

definition adopt_key :: "bytes \<Rightarrow> 'd storage \<Rightarrow> 'd storage" where
  "adopt_key key s0 =
     (let (inUse, s) = encryptionKeyInUse key s0
      in if inUse then s\<lparr>kh_authorizedKeys := set_insert key (kh_authorizedKeys s)\<rparr> else s)"

definition kh_onKeyInserted :: "nat \<Rightarrow> bytes \<Rightarrow> 'd storage \<Rightarrow> 'd storage" where
  "kh_onKeyInserted manager key s0 =
     (let s = kh_ready manager s0 in
      if key = [] then s
      else
        let s = s\<lparr>kh_insertedKeys := set_insert key (kh_insertedKeys s)\<rparr>;
            s = (if cm_fileSystemIsSetup s then adopt_key key s else s)
        in cam_onKeyInserted key s)"

definition kh_onKeyDisabled :: "bytes \<Rightarrow> 'd storage \<Rightarrow> 'd storage" where
  "kh_onKeyDisabled key s0 =
     (let s = s0\<lparr>kh_insertedKeys := set_remove key (kh_insertedKeys s0)\<rparr>
      in if authorizedInsertedKeys s = [] \<and> keyIsAuthorized key s then onLastAuthorizedKeyRemoved s else s)"

definition kh_onKeyRemoved :: "bytes \<Rightarrow> 'd storage \<Rightarrow> 'd storage" where
  "kh_onKeyRemoved key s = cam_onKeyRemoved key (kh_onKeyDisabled key s)"

text \<open>\<open>setup\<close> of a key manager may report keys at once.\<close>

definition kh_initialize :: "'d storage \<Rightarrow> 'd storage" where
  "kh_initialize s =
     fold (\<lambda>manager s. fold (kh_onKeyInserted manager) (cam_setup s manager) s) (cam_keyManagers s)
       (s\<lparr>kh_keyManagers := cam_keyManagers s, kh_connected := True\<rparr>)"

section \<open>CredentialsAccessManager\<close>

text \<open>\<open>CAMConfiguration\<close>\<close>

definition cryptoManagerName :: "qvariant_map \<Rightarrow> qstring" where
  "cryptoManagerName m_settings = v_toString (qm_value m_settings ''CryptoManager'' VInvalid)"

definition useEncryption :: "qvariant_map \<Rightarrow> bool" where
  "useEncryption m_settings \<longleftrightarrow> chars (cryptoManagerName m_settings) \<noteq> ''default''"

definition setStoragePath :: "string \<Rightarrow> 'd storage \<Rightarrow> 'd storage" where
  "setStoragePath storagePath s =
     s\<lparr>cam_settings := qm_insert ''StoragePath'' (VString (QStr (expand_home storagePath s))) (cam_settings s)\<rparr>"

definition createStorageDir :: "'d storage \<Rightarrow> bool \<times> 'd storage" where
  "createStorageDir s0 =
     (if cam_metaExists s0 then (True, s0)
      else let (made, s) = next_call s0
        in if made = CallFails then (False, s\<lparr>cam_error := CredentialsDbSetupFailed\<rparr>) else (True, s))"

definition cam_init :: "'d storage \<Rightarrow> bool \<times> 'd storage" where
  "cam_init s0 =
     (if cam_isInitialized s0 then (False, s0\<lparr>cam_error := AlreadyInitialized\<rparr>)
      else
        let (ok, s) = createStorageDir s0 in
        if \<not> ok then (False, s)
        else
          let s = (if cm_kind s = None then s\<lparr>cm_kind := Some DefaultCrypto\<rparr> else s);
              s = cm_initialize s;
              s = (if useEncryption (cam_settings s)
                   then kh_initialize (if cam_authorizer s = None then s\<lparr>cam_authorizer := Some DefaultKeyAuthorizer\<rparr> else s)
                   else s)
          in (True, s\<lparr>cam_isInitialized := True, cam_error := CamNoError\<rparr>))"

text \<open>The metadata as the file has them: without a transaction that has not been committed.\<close>

definition closed_meta :: "meta_db \<Rightarrow> meta_db" where
  "closed_meta db = (let (_, db) = sql_commit db in db\<lparr>sq_data := durable db, sq_saved := None, sq_error := NoError\<rparr>)"

definition closeMetaDataDB :: "'d storage \<Rightarrow> 'd storage" where
  "closeMetaDataDB s =
     (case cam_db s of
        None \<Rightarrow> s
      | Some db \<Rightarrow> s\<lparr>cam_db := None, cam_metaFile := closed_meta (cd_meta db), cam_storage := cd_secrets db\<rparr>)"

text \<open>An object for databases that are open already is left to itself by the code and never deleted; here its connections
  are taken to be closed.\<close>

definition openMetaDataDB :: "'d storage \<Rightarrow> bool \<times> 'd storage" where
  "openMetaDataDB s0 =
     (let s = closeMetaDataDB s0;
          db = \<lparr>cd_meta = cam_metaFile s, cd_secrets = cam_storage s, cd_cache = [], cd_lastError = NoError, cd_updated = []\<rparr>;
          (ok, db) = cd_init db;
          s = s\<lparr>cam_db := Some db, cam_metaExists := True\<rparr>
      in if \<not> ok then (False, s\<lparr>cam_error := CredentialsDbConnectionError\<rparr>) else (True, s))"

definition openCredentialsSystem :: "'d storage \<Rightarrow> bool \<times> 'd storage" where
  "openCredentialsSystem s0 =
     (if \<not> cam_isInitialized s0 then (False, s0\<lparr>cam_error := NotInitialized\<rparr>)
      else
        let (ok, s) = openMetaDataDB s0 in
        if \<not> ok then (False, s)
        else
          let s = s\<lparr>cam_systemOpened := True\<rparr>
          in (True, snd (if cm_fileSystemIsMounted s then cam_openSecretsDB s else mountFileSystem s)))"

definition closeCredentialsSystem :: "'d storage \<Rightarrow> bool \<times> 'd storage" where
  "closeCredentialsSystem s0 =
     (if \<not> cam_isInitialized s0 then (False, s0\<lparr>cam_error := NotInitialized\<rparr>)
      else if \<not> cam_systemOpened s0 then (True, s0)
      else
        let (isOpen, s) = cam_isSecretsDBOpen s0;
            (allClosed, s) = (if isOpen then cam_closeSecretsDB s else (True, s));
            s = closeMetaDataDB s
        in (allClosed, s\<lparr>cam_error := CamNoError, cam_systemOpened := False\<rparr>))"

definition deleteCredentialsSystem :: "'d storage \<Rightarrow> bool \<times> 'd storage" where
  "deleteCredentialsSystem s =
     (if \<not> cam_isInitialized s then (False, s\<lparr>cam_error := NotInitialized\<rparr>)
      else (False, if cam_systemOpened s then snd (closeCredentialsSystem s) else s))"

definition cam_finalize :: "'d storage \<Rightarrow> 'd storage" where
  "cam_finalize s0 =
     (let s = (if cam_systemOpened s0 then snd (closeCredentialsSystem s0) else s0)
      in s\<lparr>kh_connected := False, cam_isInitialized := False, cam_error := CamNoError\<rparr>)"

definition credentialsDB :: "'d storage \<Rightarrow> credentials_db option" where
  "credentialsDB s = (if \<not> cam_isInitialized s then None else cam_db s)"

definition isCredentialsSystemReady :: "'d storage \<Rightarrow> bool" where
  "isCredentialsSystemReady s \<longleftrightarrow> isReady s"

definition keysAvailable :: "'d storage \<Rightarrow> bool" where
  "keysAvailable s \<longleftrightarrow> kh_insertedKeys s \<noteq> []"

text \<open>The event a session core posts when it has stored something in memory only; no key is named in
  the question to the authorizer.\<close>

definition cam_customEvent :: "nat \<Rightarrow> 'd storage \<Rightarrow> 'd storage" where
  "cam_customEvent sender s0 =
     (let s = s0\<lparr>cam_notifiers := cam_notifiers s0 @ [sender]\<rparr> in
      if cam_db s = None then replyToSecureStorageEventNotifiers s
      else if secrets_are_open s then replyToSecureStorageEventNotifiers s
      else queryKeyAuthorization [] StorageNeeded s)"

section \<open>Events\<close>

datatype storage_happening =
    CamInit
  | OpenSystem
  | CloseSystem
  | DeleteSystem
  | Finalize
  | ManagerInserts nat bytes
  | ManagerDisables bytes
  | ManagerRemoves bytes
  | AuthorizerReplies bytes auth_result
  | StorageIsNeeded nat

definition when_connected :: "('d storage \<Rightarrow> 'd storage) \<Rightarrow> 'd storage \<Rightarrow> 'd storage" where
  "when_connected f s = (if kh_connected s then f s else s)"

fun storage_happens :: "storage_happening \<Rightarrow> 'd storage \<Rightarrow> 'd storage" where
  "storage_happens CamInit s = snd (cam_init s)"
| "storage_happens OpenSystem s = snd (openCredentialsSystem s)"
| "storage_happens CloseSystem s = snd (closeCredentialsSystem s)"
| "storage_happens DeleteSystem s = snd (deleteCredentialsSystem s)"
| "storage_happens Finalize s = cam_finalize s"
| "storage_happens (ManagerInserts manager key) s = when_connected (kh_onKeyInserted manager key) s"
| "storage_happens (ManagerDisables key) s = when_connected (kh_onKeyDisabled key) s"
| "storage_happens (ManagerRemoves key) s = when_connected (kh_onKeyRemoved key) s"
| "storage_happens (AuthorizerReplies key result) s = onKeyAuthorizationQueried key result s"
| "storage_happens (StorageIsNeeded sender) s = cam_customEvent sender s"

definition storage_run :: "storage_happening list \<Rightarrow> 'd storage \<Rightarrow> 'd storage" where
  "storage_run hs s = fold storage_happens hs s"

inductive storage_reachable :: "'d storage \<Rightarrow> 'd storage \<Rightarrow> bool" for s0 where
  start: "storage_reachable s0 s0"
| happens: "storage_reachable s0 s \<Longrightarrow> storage_reachable s0 (storage_happens h s)"

end
