(* ===== verification/Storage_Frames.thy ===== *)
theory Storage_Frames
  imports Credentials_Access
begin

text \<open>
  What the operations on the encrypted storage leave alone, and the contract an invariant of the whole has
  to keep: the locale names the steps of the crypto manager and of the database it has to survive, and
  derives that every event of the key managers, the authorizer and the sessions keeps it.
\<close>

section \<open>Frames\<close>

text \<open>What the consistency of the storage is about.\<close>

definition mount_view :: "'d storage \<Rightarrow> crypto_kind option \<times> bool \<times> mount_state \<times> bool \<times> bool \<times> bool" where
  "mount_view s = (cm_kind s, cm_fileSystemIsMounted s, cm_mountState s, cam_systemOpened s, cam_db s = None, ss_isOpen (the_storage s))"

text \<open>What any of the invariants is about, apart from the work of the crypto manager.\<close>

definition core_view where
  "core_view s = (mc_lib s, mc_device s, mc_mapped s, mc_mounted s, mc_keychain s, mc_hidden_keychain s,
     mc_hidden_files s, mc_partition s, mc_calls s,
     mount_view s, cm_encryptionKey s, kh_authorizedKeys s, kh_begin s, cam_setup s, cam_authorizer s)"

named_theorems storage_frames \<open>operations that do not change a view\<close>

lemma the_storage_fields [simp]:
  "the_storage (s\<lparr>mc_calls := x0\<rparr>) = the_storage s" "the_storage (s\<lparr>mc_device := x1\<rparr>) = the_storage s"
  "the_storage (s\<lparr>mc_mapped := x2\<rparr>) = the_storage s" "the_storage (s\<lparr>mc_mounted := x3\<rparr>) = the_storage s"
  "the_storage (s\<lparr>mc_partition := x4\<rparr>) = the_storage s" "the_storage (s\<lparr>mc_keychain := x5\<rparr>) = the_storage s"
  "the_storage (s\<lparr>mc_hidden_keychain := x6\<rparr>) = the_storage s" "the_storage (s\<lparr>mc_hidden_files := x7\<rparr>) = the_storage s"
  "the_storage (s\<lparr>cm_loopDeviceName := x8\<rparr>) = the_storage s" "the_storage (s\<lparr>cm_fileSystemIsSetup := x9\<rparr>) = the_storage s"
  "the_storage (s\<lparr>cm_encryptionKey := x10\<rparr>) = the_storage s" "the_storage (s\<lparr>cm_mountState := x11\<rparr>) = the_storage s"
  "the_storage (s\<lparr>cm_fileSystemIsMounted := x12\<rparr>) = the_storage s" "the_storage (s\<lparr>cm_kind := x13\<rparr>) = the_storage s"
  "the_storage (s\<lparr>cm_fileSystemSize := x14\<rparr>) = the_storage s" "the_storage (s\<lparr>cm_fileSystemType := x15\<rparr>) = the_storage s"
  "the_storage (s\<lparr>cm_storagePath := x16\<rparr>) = the_storage s" "the_storage (s\<lparr>cm_fileSystemPath := x17\<rparr>) = the_storage s"
  "the_storage (s\<lparr>cm_fileSystemName := x18\<rparr>) = the_storage s" "the_storage (s\<lparr>cm_fileSystemMapPath := x19\<rparr>) = the_storage s"
  "the_storage (s\<lparr>cm_fileSystemMountPath := x20\<rparr>) = the_storage s" "the_storage (s\<lparr>kh_connected := x21\<rparr>) = the_storage s"
  "the_storage (s\<lparr>kh_keyManagers := x22\<rparr>) = the_storage s" "the_storage (s\<lparr>kh_readyKeyManagers := x23\<rparr>) = the_storage s"
  "the_storage (s\<lparr>kh_insertedKeys := x24\<rparr>) = the_storage s" "the_storage (s\<lparr>kh_authorizedKeys := x25\<rparr>) = the_storage s"
  "the_storage (s\<lparr>cam_error := x26\<rparr>) = the_storage s" "the_storage (s\<lparr>cam_events := x27\<rparr>) = the_storage s"
  "the_storage (s\<lparr>cam_fault := x28\<rparr>) = the_storage s" "the_storage (s\<lparr>cam_notifiers := x29\<rparr>) = the_storage s"
  "the_storage (s\<lparr>cam_isInitialized := x30\<rparr>) = the_storage s" "the_storage (s\<lparr>cam_systemOpened := x31\<rparr>) = the_storage s"
  "the_storage (s\<lparr>cam_authorizer := x32\<rparr>) = the_storage s"
  by (simp_all add: the_storage_def split: option.split)

lemma on_storage_fields [simp]:
  "cm_kind (on_storage f s) = cm_kind s" "cm_fileSystemIsMounted (on_storage f s) = cm_fileSystemIsMounted s"
  "cm_mountState (on_storage f s) = cm_mountState s" "cam_systemOpened (on_storage f s) = cam_systemOpened s"
  "cam_db (on_storage f s) = None \<longleftrightarrow> cam_db s = None" "the_storage (on_storage f s) = f (the_storage s)"
  "mc_lib (on_storage f s) = mc_lib s" "mc_device (on_storage f s) = mc_device s" "mc_mapped (on_storage f s) = mc_mapped s"
  "mc_mounted (on_storage f s) = mc_mounted s" "mc_calls (on_storage f s) = mc_calls s"
  "cm_encryptionKey (on_storage f s) = cm_encryptionKey s" "kh_authorizedKeys (on_storage f s) = kh_authorizedKeys s"
  "kh_begin (on_storage f s) = kh_begin s" "cam_setup (on_storage f s) = cam_setup s" "cam_authorizer (on_storage f s) = cam_authorizer s"
  by (simp_all add: on_storage_def the_storage_def split: option.split)

lemma storage_open: "secrets_are_open s \<longleftrightarrow> cam_db s \<noteq> None \<and> ss_isOpen (the_storage s)"
  by (simp add: secrets_are_open_def the_storage_def isSecretsDBOpen_def split: option.split)

lemma mount_view_calls [simp, storage_frames]:
  "mount_view (snd (next_call s)) = mount_view s" "mount_view (snd (makeCall s)) = mount_view s"
  by (simp_all add: next_call_def makeCall_def mount_view_def case_prod_beta split: list.split)

lemma mount_view_exchange [simp, storage_frames]: "mount_view ((exchange s)\<lparr>mc_mounted := b\<rparr>) = mount_view s"
  by (simp add: exchange_def mount_view_def)

lemma mount_view_fields [simp, storage_frames]:
  "mount_view (s\<lparr>mc_device := d\<rparr>) = mount_view s" "mount_view (s\<lparr>mc_mapped := b\<rparr>) = mount_view s"
  "mount_view (s\<lparr>mc_partition := p\<rparr>) = mount_view s" "mount_view (s\<lparr>mc_keychain := k\<rparr>) = mount_view s"
  "mount_view (s\<lparr>mc_hidden_keychain := k, mc_hidden_files := f\<rparr>) = mount_view s"
  "mount_view (s\<lparr>cm_loopDeviceName := q\<rparr>) = mount_view s" "mount_view (s\<lparr>cm_fileSystemIsSetup := b\<rparr>) = mount_view s"
  "mount_view (s\<lparr>cm_encryptionKey := e\<rparr>) = mount_view s" "mount_view (s\<lparr>kh_authorizedKeys := ks\<rparr>) = mount_view s"
  "mount_view (s\<lparr>cam_error := c\<rparr>) = mount_view s"
  by (simp_all add: mount_view_def)

lemma mount_view_machine [simp, storage_frames]:
  "mount_view (snd (MountHandler_mount s)) = mount_view s" "mount_view (snd (MountHandler_umount s)) = mount_view s"
  "mount_view (snd (createPartitionFile n s)) = mount_view s" "mount_view (snd (formatPartitionFile s)) = mount_view s"
  "mount_view (snd (findAvailableDevice s)) = mount_view s" "mount_view (snd (formatFile k s)) = mount_view s"
  "mount_view (snd (openFile k s)) = mount_view s" "mount_view (snd (closeFile s)) = mount_view s"
  "mount_view (snd (addKeySlot k e s)) = mount_view s" "mount_view (snd (removeKeySlot k s)) = mount_view s"
  by (simp_all add: MountHandler_mount_def MountHandler_umount_def createPartitionFile_def formatPartitionFile_def
      findAvailableDevice_def formatFile_def openFile_def closeFile_def addKeySlot_def removeKeySlot_def case_prod_beta Let_def)

lemma mount_view_manager [simp, storage_frames]:
  "mount_view (addKeyToKeychain k s) = mount_view s" "mount_view (removeKeyFromKeychain k s) = mount_view s"
  "mount_view (checkFileSystemSetup s) = mount_view s" "mount_view (setEncryptionKey k s) = mount_view s"
  "mount_view (snd (mountMappedDevice s)) = mount_view s" "mount_view (snd (unmountMappedDevice s)) = mount_view s"
  "mount_view (clearFileSystemResources s) = mount_view s" "mount_view (close_leftover s) = mount_view s"
  by (simp_all add: addKeyToKeychain_def removeKeyFromKeychain_def checkFileSystemSetup_def setFileSystemSetup_def
      setEncryptionKey_def mountMappedDevice_def unmountMappedDevice_def clearFileSystemResources_def close_leftover_def
      case_prod_beta Let_def split: option.split)

section \<open>The contract\<close>

locale storage_contract =
  fixes I :: "'d storage \<Rightarrow> bool" and P :: "bytes \<Rightarrow> bool" and Q :: "auth_result \<Rightarrow> bool"
  assumes quiet: "core_view t = core_view s \<Longrightarrow> I s \<Longrightarrow> I t"
    and call: "I s \<Longrightarrow> I (snd (next_call s))"
    and mount: "I s \<Longrightarrow> I (snd (mountFileSystem s))"
    and adopt: "I s \<Longrightarrow> P key \<Longrightarrow> I (adopt_key key s)"
    and asked: "I s \<Longrightarrow> I (queryKeyAuthorization key reason s)"
    and replied: "I s \<Longrightarrow> Q result \<Longrightarrow> I (onKeyAuthorizationQueried key result s)"
    and removed: "I s \<Longrightarrow> I (cam_onKeyRemoved key s)"
    and closed: "I s \<Longrightarrow> I (snd (cam_closeSecretsDB s))"
    and started: "I s \<Longrightarrow> I (cm_initialize (if cm_kind s = None then s\<lparr>cm_kind := Some DefaultCrypto\<rparr> else s))"
    and authorizer: "I s \<Longrightarrow> cam_authorizer s = None \<Longrightarrow> I (s\<lparr>cam_authorizer := Some DefaultKeyAuthorizer\<rparr>)"
    and reported: "I s \<Longrightarrow> list_all P (cam_setup s manager)"
    and opened: "I s \<Longrightarrow> I (snd (openMetaDataDB s))"
    and system: "I s \<Longrightarrow> cam_db s \<noteq> None \<Longrightarrow> I (s\<lparr>cam_systemOpened := True\<rparr>)"
    and secrets: "I s \<Longrightarrow> cam_systemOpened s \<Longrightarrow> I (snd (cam_openSecretsDB s))"
    and ended: "I s \<Longrightarrow> \<not> secrets_are_open s \<Longrightarrow>
      I ((closeMetaDataDB s)\<lparr>cam_error := CamNoError, cam_systemOpened := False\<rparr>)"
    and closed_closes: "I s \<Longrightarrow> \<not> secrets_are_open (snd (cam_closeSecretsDB s))"
begin

lemma ready: "I s \<Longrightarrow> I (kh_ready manager s)"
  by (rule quiet [of _ s]) (simp_all add: kh_ready_def cam_emit_def Let_def core_view_def mount_view_def)

lemma inserted:
  assumes "I s" and "P key"
  shows "I (kh_onKeyInserted manager key s)"
proof -
  have 1: "I ((kh_ready manager s)\<lparr>kh_insertedKeys := ks\<rparr>)" for ks
    by (rule quiet [OF _ ready [OF assms(1)]]) (simp add: core_view_def mount_view_def)
  have 2: "I (cam_onKeyInserted key t)" if "I t" for t
    using that by (simp add: cam_onKeyInserted_def asked)
  show ?thesis
    using ready [OF assms(1)] 1 2 adopt [OF 1 assms(2)] by (simp add: kh_onKeyInserted_def Let_def)
qed

lemma disabled: "I s \<Longrightarrow> I (kh_onKeyDisabled key s)"
proof -
  assume "I s"
  let ?s = "s\<lparr>kh_insertedKeys := set_remove key (kh_insertedKeys s)\<rparr>"
  have 1: "I ?s" by (rule quiet [OF _ \<open>I s\<close>]) (simp add: core_view_def mount_view_def)
  have 2: "I (snd (cam_isSecretsDBOpen ?s))"
    by (rule quiet [OF _ 1]) (simp add: cam_isSecretsDBOpen_def cam_crash_def core_view_def mount_view_def the_storage_def split: option.split)
  show ?thesis
    using 1 2 closed [OF 2] by (simp add: kh_onKeyDisabled_def onLastAuthorizedKeyRemoved_def Let_def case_prod_beta)
qed

lemma setups: "I s \<Longrightarrow> list_all P ks \<Longrightarrow> I (fold (kh_onKeyInserted manager) ks s)"
  by (induction ks arbitrary: s) (auto intro: inserted)

lemma initialized: "I s \<Longrightarrow> I (kh_initialize s)"
proof -
  have fold: "I (fold (\<lambda>manager s. fold (kh_onKeyInserted manager) (cam_setup s manager) s) ms t)" if "I t" for ms t
    using that by (induction ms arbitrary: t) (auto intro: setups reported)
  assume "I s"
  then have "I (s\<lparr>kh_keyManagers := cam_keyManagers s, kh_connected := True\<rparr>)"
    by (rule quiet [rotated]) (simp add: core_view_def mount_view_def)
  from fold [OF this] show ?thesis by (simp add: kh_initialize_def)
qed

lemma init: "I s \<Longrightarrow> I (snd (cam_init s))"
proof -
  assume "I s"
  have dir: "I (snd (createStorageDir s))"
  proof -
    have "I ((snd (next_call s))\<lparr>cam_error := e\<rparr>)" for e
      by (rule quiet [OF _ call [OF \<open>I s\<close>]]) (simp add: core_view_def)
    then show ?thesis using \<open>I s\<close> call [OF \<open>I s\<close>] by (simp add: createStorageDir_def case_prod_beta)
  qed
  define t where "t = cm_initialize (if cm_kind (snd (createStorageDir s)) = None
      then (snd (createStorageDir s))\<lparr>cm_kind := Some DefaultCrypto\<rparr> else snd (createStorageDir s))"
  have t: "I t" using started [OF dir] by (simp add: t_def)
  define u where "u = (if useEncryption (cam_settings t)
      then kh_initialize (if cam_authorizer t = None then t\<lparr>cam_authorizer := Some DefaultKeyAuthorizer\<rparr> else t) else t)"
  have "I u" using t initialized authorizer by (simp add: u_def)
  then have "I (u\<lparr>cam_isInitialized := True, cam_error := CamNoError\<rparr>)"
    by (rule quiet [rotated]) (simp add: core_view_def mount_view_def)
  moreover have "I (s\<lparr>cam_error := AlreadyInitialized\<rparr>)"
    by (rule quiet [OF _ \<open>I s\<close>]) (simp add: core_view_def)
  moreover have "cam_init s = (if cam_isInitialized s then (False, s\<lparr>cam_error := AlreadyInitialized\<rparr>)
      else if \<not> fst (createStorageDir s) then (False, snd (createStorageDir s))
      else (True, u\<lparr>cam_isInitialized := True, cam_error := CamNoError\<rparr>))"
    unfolding cam_init_def Let_def case_prod_beta u_def t_def by (rule refl)
  ultimately show ?thesis using dir by simp
qed

lemma err: "I s \<Longrightarrow> I (s\<lparr>cam_error := e\<rparr>)"
  by (rule quiet [of _ s]) (simp_all add: core_view_def)

lemma open_system: "I s \<Longrightarrow> I (snd (openCredentialsSystem s))"
proof -
  assume "I s"
  have db: "cam_db (snd (openMetaDataDB s)) \<noteq> None"
    by (simp add: openMetaDataDB_def Let_def case_prod_beta)
  note o = system [OF opened [OF \<open>I s\<close>] db]
  show ?thesis
    using opened [OF \<open>I s\<close>] secrets [OF o] mount [OF o] err [OF \<open>I s\<close>]
    by (simp add: openCredentialsSystem_def case_prod_beta Let_def)
qed

lemma close_system: "I s \<Longrightarrow> I (snd (closeCredentialsSystem s))"
proof -
  assume "I s"
  let ?s = "snd (cam_isSecretsDBOpen s)"
  have 1: "I ?s"
    by (rule quiet [OF _ \<open>I s\<close>]) (simp add: cam_isSecretsDBOpen_def cam_crash_def core_view_def mount_view_def the_storage_def split: option.split)
  have "\<not> secrets_are_open ?s" if "\<not> fst (cam_isSecretsDBOpen s)"
    using that by (auto simp: cam_isSecretsDBOpen_def secrets_are_open_def cam_crash_def split: option.splits)
  then show ?thesis
    using err [OF \<open>I s\<close>] \<open>I s\<close> ended [OF 1] ended [OF closed [OF 1] closed_closes [OF 1]]
    by (auto simp: closeCredentialsSystem_def Let_def case_prod_beta)
qed

lemma finalized: "I s \<Longrightarrow> I (cam_finalize s)"
proof -
  assume "I s"
  have "I (t\<lparr>kh_connected := False, cam_isInitialized := False, cam_error := CamNoError\<rparr>)" if "I t" for t
    by (rule quiet [OF _ that]) (simp add: core_view_def mount_view_def)
  then show ?thesis using \<open>I s\<close> close_system by (simp add: cam_finalize_def Let_def)
qed

lemma told: "I s \<Longrightarrow> I (replyToSecureStorageEventNotifiers s)"
proof -
  have "core_view (fold (\<lambda>object s. cam_emit (SecureStorage object (secrets_are_open s)) s) ns t) = core_view t" for ns and t :: "'d storage"
    by (induction ns arbitrary: t) (simp_all add: cam_emit_def core_view_def mount_view_def)
  then show "I s \<Longrightarrow> I (replyToSecureStorageEventNotifiers s)"
    by (intro quiet [of "replyToSecureStorageEventNotifiers s" s])
       (simp_all add: replyToSecureStorageEventNotifiers_def core_view_def mount_view_def)
qed

lemma needed: "I s \<Longrightarrow> I (cam_customEvent sender s)"
proof -
  assume "I s"
  have 1: "I (s\<lparr>cam_notifiers := cam_notifiers s @ [sender]\<rparr>)"
    by (rule quiet [OF _ \<open>I s\<close>]) (simp add: core_view_def mount_view_def)
  then show ?thesis using told asked by (simp add: cam_customEvent_def Let_def)
qed

text \<open>The events that respect the admissible keys and answers.\<close>

definition permits :: "storage_happening \<Rightarrow> bool" where
  "permits h = (case h of ManagerInserts _ key \<Rightarrow> P key | AuthorizerReplies _ result \<Rightarrow> Q result | _ \<Rightarrow> True)"

lemma happens: "I s \<Longrightarrow> permits h \<Longrightarrow> I (storage_happens h s)"
  by (cases h) (simp_all add: permits_def when_connected_def init open_system close_system finalized inserted disabled
      removed replied needed kh_onKeyRemoved_def deleteCredentialsSystem_def err)

lemma run: "I s \<Longrightarrow> list_all permits hs \<Longrightarrow> I (storage_run hs s)"
  unfolding storage_run_def by (induction hs arbitrary: s) (simp_all add: happens)

end

end
