(* ===== verification/Storage_Properties.thy ===== *)
theory Storage_Properties
  imports Storage_Frames
begin

text \<open>
  What holds of the encrypted storage in every run: the secrets database is open only while the file system
  counts as mounted, no half-mounted state stays, and without a key that fits nothing is opened.
\<close>

section \<open>Consistency\<close>

type_synonym mount_tuple = "crypto_kind option \<times> bool \<times> mount_state \<times> bool \<times> bool \<times> bool"

definition safe_view :: "mount_tuple \<Rightarrow> bool" where
  "safe_view v = (case v of (kind, flag, st, opened, nodb, isopen) \<Rightarrow> (isopen \<longrightarrow> flag \<and> opened) \<and> (opened \<longrightarrow> \<not> nodb))"

definition half_view :: "mount_tuple \<Rightarrow> bool" where
  "half_view v \<longleftrightarrow> safe_view v \<and> (case v of (kind, flag, st, _) \<Rightarrow> kind = Some Cryptsetup \<longrightarrow> flag = (st = Mounted))"

definition whole_view :: "mount_tuple \<Rightarrow> bool" where
  "whole_view v \<longleftrightarrow> half_view v \<and> (case v of (kind, flag, st, _) \<Rightarrow> kind = Some Cryptsetup \<longrightarrow> st = Unmounted \<or> st = Mounted)"

lemmas view_defs = safe_view_def half_view_def whole_view_def mount_view_def

lemma view_chain: "whole_view v \<Longrightarrow> half_view v" "half_view v \<Longrightarrow> safe_view v"
  by (simp_all add: whole_view_def half_view_def)

lemma closed_storage [simp]: "\<not> ss_isOpen (ss_close st)"
  by (simp add: ss_close_def split: option.split prod.split)

lemma unmounting_view:
  "safe_view (mount_view s) \<Longrightarrow> mount_view (onEncryptedFSUnmounting s) =
     (cm_kind s, cm_fileSystemIsMounted s, cm_mountState s, cam_systemOpened s, cam_db s = None, False)"
  by (cases "cam_db s")
     (auto simp: onEncryptedFSUnmounting_def cam_isSecretsDBOpen_def db_closeSecrets_def closeSecretsDB_def isSecretsDBOpen_def
       the_storage_def view_defs cam_crash_def)

lemma openSecrets_view:
  "\<exists>x. mount_view (snd (cam_openSecretsDB s)) =
     (cm_kind s, cm_fileSystemIsMounted s, cm_mountState s, cam_systemOpened s, cam_db s = None, x)
     \<and> (x \<longrightarrow> ss_isOpen (the_storage s) \<or> cm_fileSystemIsMounted s)"
  by (auto simp: cam_openSecretsDB_def mount_view_def cam_crash_def Let_def case_prod_beta split: option.split)

lemma mounted_view:
  assumes "safe_view (mount_view s)" and "cm_fileSystemIsMounted s"
  shows "\<exists>x. mount_view (onEncryptedFSMounted s) =
     (cm_kind s, True, cm_mountState s, cam_systemOpened s, cam_db s = None, x) \<and> (x \<longrightarrow> cam_systemOpened s)"
proof (cases "cam_systemOpened s")
  case False
  then show ?thesis using assms by (auto simp: onEncryptedFSMounted_def view_defs)
next
  case True
  then obtain db where db: "cam_db s = Some db" using assms(1) by (auto simp: view_defs)
  show ?thesis
    using openSecrets_view [of s] assms(2) True
    by (auto simp: onEncryptedFSMounted_def cam_isSecretsDBOpen_def db mount_view_def)
qed

lemma setMounted_view:
  assumes "safe_view (mount_view s)"
  shows "\<exists>x. mount_view (setFileSystemMounted b s) =
     (cm_kind s, b, cm_mountState s, cam_systemOpened s, cam_db s = None, x) \<and> (x \<longrightarrow> b \<and> cam_systemOpened s)"
proof (cases "b = cm_fileSystemIsMounted s")
  case True
  then show ?thesis using assms by (auto simp: setFileSystemMounted_def view_defs)
next
  case False
  show ?thesis
  proof (cases b)
    case True
    let ?s = "s\<lparr>cm_fileSystemIsMounted := True\<rparr>"
    have "safe_view (mount_view ?s)" using assms by (auto simp: view_defs)
    from mounted_view [OF this] show ?thesis using True False by (auto simp: setFileSystemMounted_def)
  next
    case no: False
    have "mount_view (t\<lparr>cm_fileSystemIsMounted := b'\<rparr>) = (cm_kind t, b', cm_mountState t, cam_systemOpened t, cam_db t = None, ss_isOpen (the_storage t))" for t :: "'a storage" and b'
      by (simp add: mount_view_def)
    then show ?thesis
      using no False unmounting_view [OF assms] by (auto simp: setFileSystemMounted_def mount_view_def)
  qed
qed

lemma setMounted_safe:
  assumes "safe_view (mount_view s)"
  shows "safe_view (mount_view (setFileSystemMounted b s))"
  using setMounted_view [OF assms, of b] assms by (auto simp: safe_view_def mount_view_def)

lemma updateMountState_half:
  assumes "half_view (mount_view s)"
  shows "half_view (mount_view (updateMountState st s)) \<and> cm_mountState (updateMountState st s) = st
    \<and> cm_kind (updateMountState st s) = cm_kind s"
proof (cases "st = cm_mountState s")
  case True
  then show ?thesis using assms by (simp add: updateMountState_def)
next
  case False
  let ?s = "s\<lparr>cm_mountState := st\<rparr>"
  have safe: "safe_view (mount_view ?s)" using assms by (auto simp: view_defs)
  from setMounted_view [OF this, of "st = Mounted"] obtain x where
    x: "mount_view (setFileSystemMounted (st = Mounted) ?s) = (cm_kind s, st = Mounted, st, cam_systemOpened s, cam_db s = None, x)"
      "x \<longrightarrow> st = Mounted \<and> cam_systemOpened s"
    by auto
  then have "cm_mountState (setFileSystemMounted (st = Mounted) ?s) = st \<and> cm_kind (setFileSystemMounted (st = Mounted) ?s) = cm_kind s"
    by (simp add: mount_view_def)
  then show ?thesis
    using x False safe by (auto simp: updateMountState_def half_view_def safe_view_def mount_view_def [of s] mount_view_def [of ?s])
qed

lemma whole_settled:
  "half_view (mount_view s) \<Longrightarrow> cm_mountState s = Unmounted \<or> cm_mountState s = Mounted \<Longrightarrow> whole_view (mount_view s)"
  by (auto simp: whole_view_def mount_view_def)

lemma if_reached_view: "(\<And>t. mount_view (snd (f t)) = mount_view t) \<Longrightarrow> mount_view (snd (if_reached b f s)) = mount_view s"
  by (simp add: if_reached_def)

lemma unmount_whole:
  assumes "half_view (mount_view s)"
  shows "whole_view (mount_view (snd (cs_unmountFileSystem s)))"
proof (cases "cm_mountState s = Unmounted")
  case True
  then show ?thesis using whole_settled [OF assms] by (simp add: cs_unmountFileSystem_def)
next
  case False
  let ?t = "setFileSystemMounted False s"
  define u where "u = snd (if_reached (LoopSet \<le> cm_mountState ?t) makeCall (snd (if_reached (LoopLuksOpened \<le> cm_mountState ?t) closeFile
      (snd (if_reached (Mounted \<le> cm_mountState ?t) unmountMappedDevice ?t)))))"
  have u: "mount_view u = mount_view ?t"
    by (simp add: u_def if_reached_view)
  obtain x where t: "mount_view ?t = (cm_kind s, False, cm_mountState s, cam_systemOpened s, cam_db s = None, x)" "\<not> x"
    using setMounted_view [of s False] view_chain(2) [OF assms] by auto
  have uv: "cm_mountState u = cm_mountState s" "\<not> cm_fileSystemIsMounted u" "\<not> ss_isOpen (the_storage u)"
      "cam_systemOpened u = cam_systemOpened s" "(cam_db u = None) = (cam_db s = None)"
    using u t by (simp_all add: mount_view_def)
  have "mount_view (updateMountState Unmounted u) =
      (cm_kind u, False, Unmounted, cam_systemOpened s, cam_db s = None, False)"
    using uv False by (simp add: updateMountState_def setFileSystemMounted_def mount_view_def)
  moreover have "snd (cs_unmountFileSystem s) = updateMountState Unmounted u"
    using False by (simp add: cs_unmountFileSystem_def Let_def case_prod_beta u_def)
  moreover have "cam_systemOpened s \<longrightarrow> cam_db s \<noteq> None"
    using assms by (simp add: half_view_def safe_view_def mount_view_def)
  ultimately show ?thesis by (simp add: whole_view_def half_view_def safe_view_def)
qed

lemma or_unmount_whole:
  assumes "half_view (mount_view (snd r))" and "\<And>t. half_view (mount_view t) \<Longrightarrow> whole_view (mount_view (snd (k t)))"
  shows "whole_view (mount_view (snd (or_unmount r k)))"
  using assms unmount_whole [of "snd r"] by (simp add: or_unmount_def)

lemma mounted_at_last_whole: "half_view (mount_view s) \<Longrightarrow> whole_view (mount_view (snd (mounted_at_last s)))"
  using updateMountState_half [of "addKeyToKeychain (cm_encryptionKey s) s" Mounted]
  by (auto simp: mounted_at_last_def intro: whole_settled)

lemma mount_whole:
  assumes "whole_view (mount_view s)"
  shows "whole_view (mount_view (snd (cs_mountFileSystem s)))"
proof -
  note half = view_chain(1) [OF assms]
  have "whole_view (mount_view (snd (or_unmount (makeCall t) (\<lambda>s.
      let s = close_leftover (updateMountState LoopSet s) in
      or_unmount (openFile (cm_encryptionKey s) s) (\<lambda>s.
        let s = updateMountState LoopLuksOpened s in or_unmount (mountMappedDevice s) mounted_at_last)))))"
    if "half_view (mount_view t)" for t :: "'a storage"
    using that unfolding Let_def
    by (intro or_unmount_whole mounted_at_last_whole) (simp_all add: updateMountState_half)
  then show ?thesis
    using assms half by (auto simp: cs_mountFileSystem_def Let_def case_prod_beta)
qed

lemma setup_whole:
  assumes "whole_view (mount_view s)"
  shows "whole_view (mount_view (snd (cs_setupFileSystem s)))"
proof -
  note half = view_chain(1) [OF assms]
  have "whole_view (mount_view (snd (or_unmount (createPartitionFile n t) (\<lambda>s.
            or_unmount (makeCall (checkFileSystemSetup s)) (\<lambda>s.
              let s = updateMountState LoopSet s in
            or_unmount (formatFile (cm_encryptionKey s) s) (\<lambda>s.
              let s = close_leftover (updateMountState LoopLuksFormatted s) in
            or_unmount (openFile (cm_encryptionKey s) s) (\<lambda>s.
              let s = updateMountState LoopLuksOpened s in
            or_unmount (formatPartitionFile s) (\<lambda>s.
            or_unmount (mountMappedDevice s) mounted_at_last))))))))"
    if "half_view (mount_view t)" for n and t :: "'a storage"
    using that unfolding Let_def
    by (intro or_unmount_whole mounted_at_last_whole) (simp_all add: updateMountState_half)
  then show ?thesis
    using assms half by (auto simp: cs_setupFileSystem_def Let_def case_prod_beta)
qed

lemma crypto_whole:
  assumes "whole_view (mount_view s)"
  shows "whole_view (mount_view (snd (mountFileSystem s)))" "whole_view (mount_view (snd (setupFileSystem s)))"
    "whole_view (mount_view (snd (unmountFileSystem s)))"
proof -
  have default: "whole_view (mount_view (setFileSystemMounted b s))" if "cm_kind s \<noteq> Some Cryptsetup" for b
    using setMounted_view [of s b] assms that by (auto simp: view_defs whole_view_def)
  show "whole_view (mount_view (snd (mountFileSystem s)))"
    using default mount_whole [OF assms] by (simp add: mountFileSystem_def)
  show "whole_view (mount_view (snd (setupFileSystem s)))"
    using assms setup_whole [OF assms] by (simp add: setupFileSystem_def setFileSystemSetup_def)
  show "whole_view (mount_view (snd (unmountFileSystem s)))"
    using default unmount_whole [OF view_chain(1) [OF assms]] by (simp add: unmountFileSystem_def)
qed

lemma key_slots_view [simp]:
  "mount_view (snd (addEncryptionKey k e s)) = mount_view s" "mount_view (snd (removeEncryptionKey k s)) = mount_view s"
  by (simp_all add: addEncryptionKey_def removeEncryptionKey_def cs_addEncryptionKey_def cs_removeEncryptionKey_def case_prod_beta)

lemma adopt_whole: "whole_view (mount_view s) \<Longrightarrow> whole_view (mount_view (adopt_key k s))"
  using mount_whole [of "setEncryptionKey k s"]
  by (simp add: adopt_key_def encryptionKeyInUse_def cs_encryptionKeyInUse_def case_prod_beta Let_def)

lemma quiet_view [simp]:
  "mount_view (cam_emit e s) = mount_view s" "mount_view (cam_crash s) = mount_view s"
  "mount_view (authorized k s) = mount_view s" "mount_view (s\<lparr>cam_notifiers := ns\<rparr>) = mount_view s"
  "mount_view (s\<lparr>cam_authorizer := a\<rparr>) = mount_view s"
  by (simp_all add: cam_emit_def cam_crash_def authorized_def mount_view_def)

lemma reply_view [simp]: "mount_view (replyToSecureStorageEventNotifiers s) = mount_view s"
proof -
  have "mount_view (fold (\<lambda>object s. cam_emit (SecureStorage object (secrets_are_open s)) s) ns t) = mount_view t" for ns and t :: "'a storage"
    by (induction ns arbitrary: t) simp_all
  then show ?thesis by (simp add: replyToSecureStorageEventNotifiers_def)
qed

lemma authorize_whole: "whole_view (mount_view s) \<Longrightarrow> whole_view (mount_view (snd (authorizeKey k b s)))"
  using crypto_whole(2) [of "setEncryptionKey k (s\<lparr>kh_authorizedKeys := []\<rparr>)"] crypto_whole(1) [of "setEncryptionKey (anyAuthorizedKey s) s"]
  by (simp add: authorizeKey_def mount_with_authorized_def case_prod_beta Let_def)

lemma revoke_whole: "whole_view (mount_view s) \<Longrightarrow> whole_view (mount_view (snd (revokeKeyAuthorization k s)))"
  using crypto_whole(1) [of "setEncryptionKey (anyAuthorizedKey s) s"]
  by (simp add: revokeKeyAuthorization_def mount_with_authorized_def case_prod_beta Let_def)

lemma replied_whole: "whole_view (mount_view s) \<Longrightarrow> whole_view (mount_view (onKeyAuthorizationQueried k r s))"
  by (simp add: onKeyAuthorizationQueried_def authorize_whole)

lemma asked_whole: "whole_view (mount_view s) \<Longrightarrow> whole_view (mount_view (queryKeyAuthorization k why s))"
  by (simp add: queryKeyAuthorization_def replied_whole split: option.split)

lemma db_close_view:
  "mount_view (db_closeSecrets s) = (cm_kind s, cm_fileSystemIsMounted s, cm_mountState s, cam_systemOpened s, cam_db s = None,
     cam_db s = None \<and> ss_isOpen (the_storage s))"
  by (simp add: db_closeSecrets_def cam_crash_def closeSecretsDB_def mount_view_def the_storage_def split: option.split)

lemma db_close_whole: "whole_view (mount_view s) \<Longrightarrow> whole_view (mount_view (db_closeSecrets s))"
  unfolding db_close_view by (auto simp: view_defs whole_view_def)

lemma close_whole: "whole_view (mount_view s) \<Longrightarrow> whole_view (mount_view (snd (cam_closeSecretsDB s)))"
  using crypto_whole(3) [OF db_close_whole, of s] by (simp add: cam_closeSecretsDB_def case_prod_beta)

lemma configuration_view [simp]:
  "mount_view (setFileSystemPath p s) = mount_view s" "mount_view (snd (setFileSystemSize n s)) = mount_view s"
  "mount_view (snd (setFileSystemType q s)) = mount_view s" "mount_view (setFileSystemSetup b s) = mount_view s"
  "mount_view (s\<lparr>cm_storagePath := p\<rparr>) = mount_view s"
  by (simp_all add: setFileSystemPath_def setFileSystemSize_def setFileSystemType_def setFileSystemSetup_def Let_def mount_view_def)

lemma initialize_whole:
  assumes "whole_view (mount_view s)"
  shows "whole_view (mount_view (cm_initialize (if cm_kind s = None then s\<lparr>cm_kind := Some DefaultCrypto\<rparr> else s)))"
proof -
  have "mount_view (snd (cs_initialize c t)) = mount_view t" for c and t :: "'a storage"
    by (simp add: cs_initialize_def Let_def)
  moreover have "whole_view (mount_view (setFileSystemMounted True (setFileSystemSetup True (t\<lparr>cm_storagePath := p\<rparr>))))"
    if "whole_view (mount_view t)" "cm_kind t \<noteq> Some Cryptsetup" for p and t :: "'a storage"
    using crypto_whole(1) [of "setFileSystemSetup True (t\<lparr>cm_storagePath := p\<rparr>)"] that
    by (simp add: mountFileSystem_def setFileSystemSetup_def [of _ "t\<lparr>cm_storagePath := p\<rparr>"])
  moreover have "whole_view (mount_view (s\<lparr>cm_kind := Some DefaultCrypto\<rparr>))" if "cm_kind s = None"
    using assms by (auto simp: view_defs whole_view_def)
  ultimately show ?thesis using assms by (auto simp: cm_initialize_def Let_def)
qed

lemma open_meta_view:
  "mount_view (snd (openMetaDataDB s)) = (cm_kind s, cm_fileSystemIsMounted s, cm_mountState s, cam_systemOpened s, False, ss_isOpen (the_storage s))"
  by (simp add: openMetaDataDB_def closeMetaDataDB_def mount_view_def the_storage_def cd_init_def on_meta_def case_prod_beta Let_def
      split: option.split)

lemma close_meta_view:
  "mount_view (closeMetaDataDB s) = (cm_kind s, cm_fileSystemIsMounted s, cm_mountState s, cam_systemOpened s, True, ss_isOpen (the_storage s))"
  by (simp add: closeMetaDataDB_def mount_view_def the_storage_def split: option.split)

lemma unmount_unmounts:
  "cm_mountState (snd (cs_unmountFileSystem s)) = Unmounted"
proof -
  have "cm_mountState (updateMountState Unmounted t) = Unmounted" for t :: "'a storage"
    by (simp add: updateMountState_def setFileSystemMounted_def onEncryptedFSUnmounting_def cam_isSecretsDBOpen_def db_closeSecrets_def
        cam_crash_def split: option.split)
  then show ?thesis by (simp add: cs_unmountFileSystem_def Let_def case_prod_beta)
qed

lemma unmount_kind: "cm_kind (snd (cs_unmountFileSystem s)) = cm_kind s"
proof -
  have 1: "cm_kind (setFileSystemMounted False t) = cm_kind t" for t :: "'a storage"
    by (simp add: setFileSystemMounted_def onEncryptedFSUnmounting_def cam_isSecretsDBOpen_def db_closeSecrets_def
        cam_crash_def split: option.split)
  have 2: "cm_kind (updateMountState Unmounted t) = cm_kind t" for t :: "'a storage"
    by (simp add: updateMountState_def 1)
  have 3: "cm_kind (snd (if_reached b f t)) = cm_kind t" if "\<And>t. mount_view (snd (f t)) = mount_view t" for b f and t :: "'a storage"
    using if_reached_view [of f b t] that by (simp add: mount_view_def)
  show ?thesis by (simp add: cs_unmountFileSystem_def Let_def case_prod_beta 1 2 3)
qed

lemma closed_closes_secrets:
  assumes "whole_view (mount_view s)"
  shows "\<not> secrets_are_open (snd (cam_closeSecretsDB s))"
proof -
  let ?t = "db_closeSecrets s"
  note t = db_close_whole [OF assms]
  have "\<not> ss_isOpen (the_storage (snd (unmountFileSystem ?t)))"
  proof (cases "cm_kind ?t = Some Cryptsetup")
    case True
    then show ?thesis
      using unmount_whole [OF view_chain(1) [OF t]] unmount_unmounts [of ?t] unmount_kind [of ?t]
      by (auto simp: unmountFileSystem_def whole_view_def half_view_def safe_view_def mount_view_def)
  next
    case False
    then show ?thesis
      using setMounted_view [OF view_chain(2) [OF view_chain(1) [OF t]], of False] by (auto simp: unmountFileSystem_def mount_view_def)
  qed
  then show ?thesis by (simp add: cam_closeSecretsDB_def case_prod_beta storage_open)
qed

interpretation consistent: storage_contract "\<lambda>s. whole_view (mount_view s)" "\<lambda>_. True" "\<lambda>_. True"
proof
  fix s t :: "'a storage"
  show "core_view t = core_view s \<Longrightarrow> whole_view (mount_view s) \<Longrightarrow> whole_view (mount_view t)"
    by (simp add: core_view_def)
next
  fix s :: "'a storage" assume s: "whole_view (mount_view s)"
  show "whole_view (mount_view (snd (next_call s)))" using s by simp
  show "whole_view (mount_view (snd (mountFileSystem s)))" by (rule crypto_whole [OF s])
  show "whole_view (mount_view (adopt_key key s))" for key by (rule adopt_whole [OF s])
  show "whole_view (mount_view (queryKeyAuthorization key reason s))" for key reason by (rule asked_whole [OF s])
  show "whole_view (mount_view (onKeyAuthorizationQueried key result s))" for key result by (rule replied_whole [OF s])
  show "whole_view (mount_view (cam_onKeyRemoved key s))" for key using s revoke_whole [OF s] by (simp add: cam_onKeyRemoved_def)
  show "whole_view (mount_view (snd (cam_closeSecretsDB s)))" by (rule close_whole [OF s])
  show "whole_view (mount_view (cm_initialize (if cm_kind s = None then s\<lparr>cm_kind := Some DefaultCrypto\<rparr> else s)))"
    by (rule initialize_whole [OF s])
  show "whole_view (mount_view (s\<lparr>cam_authorizer := Some DefaultKeyAuthorizer\<rparr>))" using s by simp
  show "list_all (\<lambda>_. True) (cam_setup s manager)" for manager by (simp add: list_all_iff)
  show "whole_view (mount_view (snd (openMetaDataDB s)))"
    unfolding open_meta_view using s by (auto simp: view_defs whole_view_def)
  show "whole_view (mount_view (s\<lparr>cam_systemOpened := True\<rparr>))" if "cam_db s \<noteq> None"
    using s that by (auto simp: view_defs whole_view_def)
  show "whole_view (mount_view (snd (cam_openSecretsDB s)))" if "cam_systemOpened s"
    using openSecrets_view [of s] s that by (auto simp: whole_view_def half_view_def safe_view_def mount_view_def [of s])
  show "whole_view (mount_view ((closeMetaDataDB s)\<lparr>cam_error := CamNoError, cam_systemOpened := False\<rparr>))"
    if "\<not> secrets_are_open s"
    using s that close_meta_view [of s] by (auto simp: whole_view_def half_view_def safe_view_def mount_view_def storage_open)
  show "\<not> secrets_are_open (snd (cam_closeSecretsDB s))" by (rule closed_closes_secrets [OF s])
qed

lemmas consistent_run = consistent.run [unfolded consistent.permits_def]

end
