(* ===== verification/Storage_Safety.thy ===== *)
theory Storage_Safety
  imports Storage_Properties
begin

text \<open>
  Without a key that fits, nothing is opened: while no key is authorized, the authorizer denies, and the keys
  that are inserted do not open the device, the storage stays unmounted and is not touched.
\<close>

section \<open>What a storage that stays shut keeps\<close>

definition shut_view where
  "shut_view s = (mc_lib s, mc_device s, mc_partition s, mc_mounted s, mc_hidden_keychain s, mc_hidden_files s, cm_kind s,
     cm_fileSystemIsMounted s, ss_isOpen (the_storage s), kh_authorizedKeys s, cam_setup s, cam_authorizer s)"

definition denies :: "authorizer \<Rightarrow> bool" where
  "denies a \<longleftrightarrow> (\<forall>key reason canAdd. a key reason canAdd = None \<or> a key reason canAdd = Some Denied)"

definition fits :: "'d libcryptsetup \<Rightarrow> 'd \<Rightarrow> bytes \<Rightarrow> bool" where
  "fits lc d key \<longleftrightarrow> key \<noteq> [] \<and> luksOpenBinary lc key d = 0"

definition stays_shut :: "'d storage \<Rightarrow> 'd storage \<Rightarrow> bool" where
  "stays_shut s0 s \<longleftrightarrow> shut_view s = shut_view s0 \<and> cm_mountState s = Unmounted \<and> \<not> fits (mc_lib s0) (mc_device s0) (cm_encryptionKey s)"

definition shut :: "'d storage \<Rightarrow> bool" where
  "shut s \<longleftrightarrow> cm_kind s = Some Cryptsetup \<and> \<not> mc_mounted s \<and> \<not> cm_fileSystemIsMounted s \<and> cm_mountState s = Unmounted
     \<and> \<not> ss_isOpen (the_storage s) \<and> kh_authorizedKeys s = [] \<and> \<not> fits (mc_lib s) (mc_device s) (cm_encryptionKey s)
     \<and> (\<exists>a. cam_authorizer s = Some a \<and> denies a)
     \<and> (\<forall>manager. list_all (\<lambda>key. \<not> fits (mc_lib s) (mc_device s) key) (cam_setup s manager))"

lemma shut_calls [simp]: "shut_view (snd (next_call s)) = shut_view s" "shut_view (snd (makeCall s)) = shut_view s"
    "shut_view (snd (closeFile s)) = shut_view s" "shut_view (snd (findAvailableDevice s)) = shut_view s"
    "shut_view (snd (openFile k s)) = shut_view s" "shut_view (close_leftover s) = shut_view s"
  by (simp_all add: next_call_def makeCall_def closeFile_def findAvailableDevice_def openFile_def close_leftover_def shut_view_def
      case_prod_beta Let_def split: list.split)

lemma key_calls [simp]: "cm_encryptionKey (snd (next_call s)) = cm_encryptionKey s" "cm_encryptionKey (snd (makeCall s)) = cm_encryptionKey s"
    "cm_encryptionKey (snd (closeFile s)) = cm_encryptionKey s" "cm_encryptionKey (snd (findAvailableDevice s)) = cm_encryptionKey s"
    "cm_encryptionKey (snd (openFile k s)) = cm_encryptionKey s" "cm_encryptionKey (close_leftover s) = cm_encryptionKey s"
    "cm_encryptionKey (exchange s) = cm_encryptionKey s"
    "cm_encryptionKey (snd (MountHandler_umount s)) = cm_encryptionKey s" "cm_encryptionKey (clearFileSystemResources s) = cm_encryptionKey s"
  by (simp_all add: next_call_def makeCall_def closeFile_def findAvailableDevice_def openFile_def close_leftover_def
      exchange_def MountHandler_umount_def clearFileSystemResources_def unmountMappedDevice_def case_prod_beta Let_def split: list.split)

lemma shut_quiet [simp]:
  "shut_view (s\<lparr>cm_loopDeviceName := x\<rparr>) = shut_view s" "shut_view (s\<lparr>cm_encryptionKey := e\<rparr>) = shut_view s"
  "shut_view (s\<lparr>cam_error := c\<rparr>) = shut_view s"
  by (simp_all add: shut_view_def)

lemma shut_umount: "\<not> mc_mounted s \<Longrightarrow> shut_view (snd (unmountMappedDevice s)) = shut_view s"
  using shut_calls(1) [of s] by (simp add: unmountMappedDevice_def MountHandler_umount_def case_prod_beta shut_view_def)

lemma shut_clear: "\<not> mc_mounted s \<Longrightarrow> shut_view (clearFileSystemResources s) = shut_view s"
  by (simp add: clearFileSystemResources_def Let_def shut_umount)

lemma state_clear [simp]: "cm_mountState (clearFileSystemResources s) = cm_mountState s" "cm_mountState (snd (makeCall s)) = cm_mountState s"
    "cm_mountState (snd (findAvailableDevice s)) = cm_mountState s"
  using mount_view_manager(7) [of s] mount_view_calls(2) [of s] mount_view_machine(5) [of s] by (simp_all add: mount_view_def)

lemma shut_state: "\<not> cm_fileSystemIsMounted s \<Longrightarrow> st \<noteq> Mounted \<Longrightarrow>
    shut_view (updateMountState st s) = shut_view s \<and> cm_encryptionKey (updateMountState st s) = cm_encryptionKey s"
  by (simp add: updateMountState_def setFileSystemMounted_def shut_view_def)

lemma shut_fields: "shut_view t = shut_view s \<Longrightarrow> mc_mounted t = mc_mounted s \<and> cm_fileSystemIsMounted t = cm_fileSystemIsMounted s
    \<and> mc_lib t = mc_lib s \<and> mc_device t = mc_device s \<and> cm_kind t = cm_kind s"
  by (simp add: shut_view_def)

lemma shut_if: "(\<And>t. shut_view t = shut_view s \<Longrightarrow> shut_view (snd (f t)) = shut_view t \<and> cm_encryptionKey (snd (f t)) = cm_encryptionKey t) \<Longrightarrow>
    shut_view t = shut_view s \<Longrightarrow> shut_view (snd (if_reached b f t)) = shut_view s \<and> cm_encryptionKey (snd (if_reached b f t)) = cm_encryptionKey t"
  by (simp add: if_reached_def)

lemma shut_unmount:
  assumes "\<not> mc_mounted s" and "\<not> cm_fileSystemIsMounted s"
  shows "shut_view (snd (cs_unmountFileSystem s)) = shut_view s \<and> cm_encryptionKey (snd (cs_unmountFileSystem s)) = cm_encryptionKey s"
proof -
  have 1: "setFileSystemMounted False s = s" using assms by (simp add: setFileSystemMounted_def)
  define u1 where "u1 = snd (if_reached (Mounted \<le> cm_mountState s) unmountMappedDevice s)"
  define u2 where "u2 = snd (if_reached (LoopLuksOpened \<le> cm_mountState s) closeFile u1)"
  define u3 where "u3 = snd (if_reached (LoopSet \<le> cm_mountState s) makeCall u2)"
  have u1: "shut_view u1 = shut_view s \<and> cm_encryptionKey u1 = cm_encryptionKey s"
    using shut_umount [OF assms(1)] by (simp add: u1_def if_reached_def unmountMappedDevice_def)
  have u3: "shut_view u3 = shut_view s \<and> cm_encryptionKey u3 = cm_encryptionKey s"
    using u1 by (simp add: u2_def u3_def if_reached_def)
  have "snd (cs_unmountFileSystem s) = (if cm_mountState s = Unmounted then s else updateMountState Unmounted u3)"
    unfolding cs_unmountFileSystem_def Let_def case_prod_beta u3_def u2_def u1_def 1 by (simp only: if_distrib [of snd] snd_conv)
  then show ?thesis
    using u3 shut_state [of u3 Unmounted] shut_fields [of u3 s] assms by simp
qed

lemma shut_mount:
  assumes "\<not> mc_mounted s" and "\<not> cm_fileSystemIsMounted s" and "cm_mountState s = Unmounted"
    and "\<not> fits (mc_lib s) (mc_device s) (cm_encryptionKey s)"
  shows "\<not> fst (cs_mountFileSystem s) \<and> shut_view (snd (cs_mountFileSystem s)) = shut_view s
    \<and> cm_encryptionKey (snd (cs_mountFileSystem s)) = cm_encryptionKey s \<and> cm_mountState (snd (cs_mountFileSystem s)) = Unmounted"
proof (cases "cm_encryptionKey s = []")
  case True
  then show ?thesis using assms by (simp add: cs_mountFileSystem_def)
next
  case False
  define same where "same t \<longleftrightarrow> shut_view t = shut_view s \<and> cm_encryptionKey t = cm_encryptionKey s" for t
  have unmount: "same (snd (cs_unmountFileSystem t))" if "same t" for t
    using shut_unmount [of t] shut_fields [of t s] that assms by (simp add: same_def)
  have state: "same (updateMountState LoopSet t)" if "same t" for t
    using shut_state [of t LoopSet] shut_fields [of t s] that assms by (simp add: same_def)
  have refuse: "or_unmount (openFile (cm_encryptionKey t) t) k = (False, snd (cs_unmountFileSystem t))" if "same t" for t k
    using that assms False shut_fields [of t s] by (simp add: same_def or_unmount_def openFile_def fits_def)
  let ?c = "clearFileSystemResources s"
  have clear: "same ?c" using shut_clear [OF assms(1)] by (simp add: same_def)
  define l where "l = (snd (findAvailableDevice (snd (makeCall ?c))))\<lparr>cm_loopDeviceName := fst (findAvailableDevice (snd (makeCall ?c)))\<rparr>"
  have l: "same l" "cm_mountState l = Unmounted"
    using clear assms(3) by (simp_all add: l_def same_def)
  let ?m = "close_leftover (updateMountState LoopSet (snd (makeCall l)))"
  have m: "same ?m" using state [of "snd (makeCall l)"] l by (simp add: same_def)
  have "cs_mountFileSystem s = (if \<not> fst (makeCall ?c) then (False, snd (makeCall ?c))
      else if qisNull (fst (findAvailableDevice (snd (makeCall ?c)))) then (False, l)
      else if \<not> fst (makeCall l) then (False, snd (cs_unmountFileSystem (snd (makeCall l))))
      else (False, snd (cs_unmountFileSystem ?m)))"
  proof -
    have "cm_mountState s \<noteq> Mounted" using assms(3) by simp
    then show ?thesis
      using False
      by (simp only: cs_mountFileSystem_def Let_def case_prod_beta l_def [symmetric] or_unmount_def [of "makeCall l"] refuse [OF m] if_False)
  qed
  then show ?thesis
    using clear l unmount [OF m] unmount [of "snd (makeCall l)"] assms(3) by (simp add: same_def unmount_unmounts)
qed

lemma stays_shut_change:
  assumes "stays_shut s0 s" and "shut_view t = shut_view s" and "cm_mountState t = cm_mountState s"
    and "cm_encryptionKey t = cm_encryptionKey s"
  shows "stays_shut s0 t"
  using assms by (simp add: stays_shut_def)

lemma stays_shut_facts:
  assumes "shut s0" and "stays_shut s0 s"
  shows "\<not> mc_mounted s" "\<not> cm_fileSystemIsMounted s" "cm_mountState s = Unmounted" "\<not> fits (mc_lib s) (mc_device s) (cm_encryptionKey s)"
    "cm_kind s = Some Cryptsetup" "\<not> ss_isOpen (the_storage s)" "kh_authorizedKeys s = []" "\<exists>a. cam_authorizer s = Some a \<and> denies a"
    "mc_lib s = mc_lib s0" "mc_device s = mc_device s0" "cam_setup s = cam_setup s0"
  using assms by (simp_all add: shut_def stays_shut_def shut_view_def)

lemma stays_shut_mount:
  assumes "shut s0" and "stays_shut s0 s"
  shows "\<not> fst (cs_mountFileSystem s) \<and> stays_shut s0 (snd (cs_mountFileSystem s))"
  using shut_mount [OF stays_shut_facts(1-4) [OF assms]] assms(2) by (simp add: stays_shut_def)

lemma stays_shut_adopt:
  assumes "shut s0" and "stays_shut s0 s" and "\<not> fits (mc_lib s0) (mc_device s0) key"
  shows "stays_shut s0 (adopt_key key s)"
proof -
  have "stays_shut s0 (setEncryptionKey key s)"
    using assms stays_shut_facts(2) [OF assms(1,2)] by (simp add: setEncryptionKey_def stays_shut_def)
  from stays_shut_mount [OF assms(1) this] show ?thesis
    using stays_shut_facts(2,5) [OF assms(1,2)]
    by (simp add: adopt_key_def encryptionKeyInUse_def cs_encryptionKeyInUse_def case_prod_beta Let_def)
qed

lemma stays_shut_reply: "stays_shut s0 s \<Longrightarrow> stays_shut s0 (replyToSecureStorageEventNotifiers s)"
proof -
  have 1: "shut_view (cam_emit e t) = shut_view t \<and> cm_mountState (cam_emit e t) = cm_mountState t \<and> cm_encryptionKey (cam_emit e t) = cm_encryptionKey t"
    for e and t :: "'a storage"
    by (simp add: cam_emit_def shut_view_def)
  have "stays_shut s0 (fold (\<lambda>object s. cam_emit (SecureStorage object (secrets_are_open s)) s) ns t)" if "stays_shut s0 t" for ns t
    using that by (induction ns arbitrary: t) (simp_all add: stays_shut_def 1)
  moreover have "stays_shut s0 (t\<lparr>cam_notifiers := []\<rparr>)" if "stays_shut s0 t" for t
    by (rule stays_shut_change [OF that]) (simp_all add: shut_view_def)
  ultimately show "stays_shut s0 s \<Longrightarrow> stays_shut s0 (replyToSecureStorageEventNotifiers s)"
    by (simp add: replyToSecureStorageEventNotifiers_def)
qed

lemma stays_shut_asked:
  assumes "shut s0" and "stays_shut s0 s"
  shows "stays_shut s0 (queryKeyAuthorization key reason s)"
proof -
  obtain a where a: "cam_authorizer s = Some a" "denies a" using stays_shut_facts(8) [OF assms] by blast
  then have "a key reason (canAddKeyAuthorization s) = None \<or> a key reason (canAddKeyAuthorization s) = Some Denied"
    by (simp add: denies_def)
  then show ?thesis
    using assms(2) stays_shut_reply [OF assms(2)] a(1)
    by (auto simp: queryKeyAuthorization_def onKeyAuthorizationQueried_def)
qed

lemma stays_shut_closed:
  assumes "shut s0" and "stays_shut s0 s"
  shows "stays_shut s0 (snd (cam_closeSecretsDB s))" "\<not> secrets_are_open (snd (cam_closeSecretsDB s))"
proof -
  let ?t = "db_closeSecrets s"
  have "shut_view ?t = shut_view s" "cm_encryptionKey ?t = cm_encryptionKey s" "cm_mountState ?t = cm_mountState s"
    using stays_shut_facts(6) [OF assms]
    by (simp_all add: db_closeSecrets_def cam_crash_def closeSecretsDB_def shut_view_def the_storage_def split: option.splits)
  then have t: "stays_shut s0 ?t" using assms(2) stays_shut_change by blast
  have "snd (unmountFileSystem ?t) = ?t"
    using stays_shut_facts(3,5) [OF assms(1) t] by (simp add: unmountFileSystem_def cs_unmountFileSystem_def)
  moreover have "stays_shut s0 (?t\<lparr>cam_error := e\<rparr>)" for e
    by (rule stays_shut_change [OF t]) simp_all
  ultimately show "stays_shut s0 (snd (cam_closeSecretsDB s))" "\<not> secrets_are_open (snd (cam_closeSecretsDB s))"
    using t stays_shut_facts(6) [OF assms(1) t] by (simp_all add: cam_closeSecretsDB_def case_prod_beta storage_open)
qed

lemma shut_configuration:
  "shut_view (snd (cs_initialize c s)) = shut_view s" "cm_mountState (snd (cs_initialize c s)) = cm_mountState s"
  "cm_encryptionKey (snd (cs_initialize c s)) = cm_encryptionKey s"
  by (simp_all add: cs_initialize_def setFileSystemPath_def setFileSystemSize_def setFileSystemType_def checkFileSystemSetup_def
      setFileSystemSetup_def Let_def shut_view_def)

lemma stays_shut_refl: "shut s \<Longrightarrow> stays_shut s s"
  by (simp add: shut_def stays_shut_def)

lemma stays_shut_core:
  assumes "core_view t = core_view s" and "stays_shut s0 s"
  shows "stays_shut s0 t"
  using assms by (simp add: core_view_def mount_view_def stays_shut_def shut_view_def)

interpretation locked: storage_contract "\<lambda>s. shut s0 \<and> stays_shut s0 s" "\<lambda>key. \<not> fits (mc_lib s0) (mc_device s0) key" "\<lambda>r. r = Denied"
  for s0 :: "'d storage"
proof
  fix s t :: "'d storage" assume core: "core_view t = core_view s" and s: "shut s0 \<and> stays_shut s0 s"
  then show "shut s0 \<and> stays_shut s0 t" using stays_shut_core [OF core] by blast
next
  fix s :: "'d storage" assume "shut s0 \<and> stays_shut s0 s"
  then have s0: "shut s0" and s: "stays_shut s0 s" by simp_all
  note facts = stays_shut_facts [OF s0 s]
  note change = stays_shut_change [OF s]
  show "shut s0 \<and> stays_shut s0 (snd (next_call s))"
    using s0 change [of "snd (next_call s)"] mount_view_calls(1) [of s] by (simp add: mount_view_def)
  show "shut s0 \<and> stays_shut s0 (snd (mountFileSystem s))"
    using s0 stays_shut_mount [OF s0 s] facts(5) by (simp add: mountFileSystem_def)
  show "shut s0 \<and> stays_shut s0 (adopt_key key s)" if "\<not> fits (mc_lib s0) (mc_device s0) key" for key
    using s0 stays_shut_adopt [OF s0 s that] by simp
  show "shut s0 \<and> stays_shut s0 (queryKeyAuthorization key reason s)" for key reason
    using s0 stays_shut_asked [OF s0 s] by simp
  show "shut s0 \<and> stays_shut s0 (onKeyAuthorizationQueried key result s)" if "result = Denied" for key result
    using s0 stays_shut_reply [OF s] that by (simp add: onKeyAuthorizationQueried_def)
  show "shut s0 \<and> stays_shut s0 (cam_onKeyRemoved key s)" for key
    using s0 s facts(7) by (simp add: cam_onKeyRemoved_def keyIsAuthorized_def)
  show "shut s0 \<and> stays_shut s0 (snd (cam_closeSecretsDB s))" "\<not> secrets_are_open (snd (cam_closeSecretsDB s))"
    using s0 stays_shut_closed [OF s0 s] by simp_all
  show "shut s0 \<and> stays_shut s0 (cm_initialize (if cm_kind s = None then s\<lparr>cm_kind := Some DefaultCrypto\<rparr> else s))"
    using s0 facts(5) change [of "snd (cs_initialize (cam_settings s) s)"] by (simp add: cm_initialize_def shut_configuration)
  show "shut s0 \<and> stays_shut s0 (s\<lparr>cam_authorizer := Some DefaultKeyAuthorizer\<rparr>)" if "cam_authorizer s = None"
    using facts(8) that by auto
  show "list_all (\<lambda>key. \<not> fits (mc_lib s0) (mc_device s0) key) (cam_setup s manager)" for manager
    using s0 facts(11) by (simp add: shut_def)
  show "shut s0 \<and> stays_shut s0 (snd (openMetaDataDB s))"
  proof -
    have "shut_view (snd (openMetaDataDB s)) = shut_view s" "cm_mountState (snd (openMetaDataDB s)) = cm_mountState s"
      "cm_encryptionKey (snd (openMetaDataDB s)) = cm_encryptionKey s"
      by (simp_all add: openMetaDataDB_def closeMetaDataDB_def shut_view_def the_storage_def cd_init_def on_meta_def case_prod_beta Let_def
          split: option.split)
    then show ?thesis using s0 change by blast
  qed
  show "shut s0 \<and> stays_shut s0 (s\<lparr>cam_systemOpened := True\<rparr>)"
    using s0 change [of "s\<lparr>cam_systemOpened := True\<rparr>"] by (simp add: shut_view_def)
  show "shut s0 \<and> stays_shut s0 (snd (cam_openSecretsDB s))"
    using s0 change [of "s\<lparr>cam_error := CredentialsDbNotMounted\<rparr>"] facts(2) by (simp add: cam_openSecretsDB_def)
  show "shut s0 \<and> stays_shut s0 ((closeMetaDataDB s)\<lparr>cam_error := CamNoError, cam_systemOpened := False\<rparr>)"
  proof -
    have "shut_view ((closeMetaDataDB s)\<lparr>cam_error := CamNoError, cam_systemOpened := False\<rparr>) = shut_view s"
      by (simp add: closeMetaDataDB_def shut_view_def the_storage_def split: option.split)
    moreover have "cm_mountState (closeMetaDataDB s) = cm_mountState s" "cm_encryptionKey (closeMetaDataDB s) = cm_encryptionKey s"
      by (simp_all add: closeMetaDataDB_def split: option.split)
    ultimately show ?thesis using s0 change by simp
  qed
qed

end
