(* ===== verification/Storage_Opening.thy ===== *)
theory Storage_Opening
  imports Storage_Safety
begin

text \<open>
  How the encrypted storage opens when the calls of the system do their work: with a key that fits, and,
  unlike what one expects, when the last key is removed and when no key is inserted at all.
\<close>

section \<open>Mounting that works\<close>

text \<open>The secrets database will be opened without an error of SQLite.\<close>

definition no_io_errors :: "secrets_storage \<Rightarrow> bool" where
  "no_io_errors st \<longleftrightarrow> ss_io st = [] \<and> (case ss_db st of None \<Rightarrow> True | Some (_, db) \<Rightarrow> sq_io db = [])"

definition work_view where
  "work_view s = (mc_lib s, mc_device s, mc_calls s, cm_kind s, cm_fileSystemIsMounted s, cam_systemOpened s, cam_db s = None,
     no_io_errors (the_storage s), ss_isOpen (the_storage s), (kh_authorizedKeys s, kh_begin s, kh_insertedKeys s, cm_encryptionKey s,
     cm_fileSystemIsSetup s, cam_authorizer s, cam_notifiers s))"

lemma sure_call: "mc_calls s = [] \<Longrightarrow> next_call s = (CallDone, s)" "mc_calls s = [] \<Longrightarrow> makeCall s = (True, s)"
    "mc_calls s = [] \<Longrightarrow> findAvailableDevice s = (QStr ''/dev/loop0'', s)" "mc_calls s = [] \<Longrightarrow> closeFile s = (True, s\<lparr>mc_mapped := False\<rparr>)"
  by (simp_all add: next_call_def makeCall_def findAvailableDevice_def closeFile_def)

lemma work_quiet [simp]:
  "work_view (s\<lparr>mc_mapped := b\<rparr>) = work_view s" "work_view (s\<lparr>mc_mounted := b\<rparr>) = work_view s"
  "work_view (s\<lparr>cm_loopDeviceName := q\<rparr>) = work_view s" "work_view (s\<lparr>cm_mountState := m\<rparr>) = work_view s"
  "work_view (s\<lparr>mc_keychain := k\<rparr>) = work_view s" "work_view (s\<lparr>cam_error := e\<rparr>) = work_view s"
  by (simp_all add: work_view_def)

lemma work_exchange [simp]: "work_view (exchange s) = work_view s" "mc_mapped (exchange s) = mc_mapped s"
    "cm_mountState (exchange s) = cm_mountState s"
  by (simp_all add: exchange_def work_view_def on_storage_def the_storage_def no_io_errors_def split: option.split)

lemma work_state: "\<not> cm_fileSystemIsMounted s \<Longrightarrow> st \<noteq> Mounted \<Longrightarrow> updateMountState st s = s\<lparr>cm_mountState := st\<rparr>"
  by (simp add: updateMountState_def setFileSystemMounted_def)

lemma work_fields: "work_view t = work_view s \<Longrightarrow> mc_lib t = mc_lib s \<and> mc_device t = mc_device s \<and> mc_calls t = mc_calls s
    \<and> cm_kind t = cm_kind s \<and> cm_fileSystemIsMounted t = cm_fileSystemIsMounted s \<and> cam_systemOpened t = cam_systemOpened s
    \<and> (cam_db t = None \<longleftrightarrow> cam_db s = None) \<and> no_io_errors (the_storage t) = no_io_errors (the_storage s)
    \<and> ss_isOpen (the_storage t) = ss_isOpen (the_storage s) \<and> kh_authorizedKeys t = kh_authorizedKeys s \<and> kh_begin t = kh_begin s
    \<and> kh_insertedKeys t = kh_insertedKeys s \<and> cm_encryptionKey t = cm_encryptionKey s \<and> cm_fileSystemIsSetup t = cm_fileSystemIsSetup s
    \<and> cam_authorizer t = cam_authorizer s \<and> cam_notifiers t = cam_notifiers s"
  by (simp add: work_view_def)

lemma work_umount: "mc_calls s = [] \<Longrightarrow> work_view (snd (unmountMappedDevice s)) = work_view s \<and> \<not> mc_mounted (snd (unmountMappedDevice s))
    \<and> cm_mountState (snd (unmountMappedDevice s)) = cm_mountState s \<and> fst (unmountMappedDevice s)"
  by (simp add: unmountMappedDevice_def MountHandler_umount_def sure_call)

lemma work_clear:
  assumes "mc_calls s = []"
  shows "work_view (clearFileSystemResources s) = work_view s \<and> \<not> mc_mounted (clearFileSystemResources s)
    \<and> cm_mountState (clearFileSystemResources s) = cm_mountState s"
  using work_umount [OF assms] work_fields [of "snd (unmountMappedDevice s)" s] assms
  by (simp add: clearFileSystemResources_def Let_def sure_call)

lemma work_leftover: "mc_calls s = [] \<Longrightarrow> close_leftover s = s\<lparr>mc_mapped := False\<rparr>"
  by (simp add: close_leftover_def sure_call)

lemma work_mount:
  assumes "mc_calls s = []" and "mc_mapped s" and "\<not> mc_mounted s"
  shows "mountMappedDevice s = (True, (exchange s)\<lparr>mc_mounted := True\<rparr>)"
  using assms by (simp add: mountMappedDevice_def MountHandler_mount_def sure_call)

lemma mount_works:
  assumes "mc_calls s = []" and "\<not> cm_fileSystemIsMounted s" and "cm_mountState s \<noteq> Mounted"
    and "fits (mc_lib s) (mc_device s) (cm_encryptionKey s)"
  obtains t where "cs_mountFileSystem s = mounted_at_last t" and "work_view t = work_view s" and "mc_mounted t"
    and "cm_mountState t = LoopLuksOpened"
proof -
  let ?c = "clearFileSystemResources s"
  note c = work_clear [OF assms(1)] work_fields [of ?c s]
  define l where "l = ?c\<lparr>cm_loopDeviceName := QStr ''/dev/loop0''\<rparr>"
  have l: "mc_calls l = []" "\<not> cm_fileSystemIsMounted l" "work_view l = work_view s" "\<not> mc_mounted l"
    using c assms by (simp_all add: l_def)
  let ?m = "l\<lparr>cm_mountState := LoopSet, mc_mapped := False\<rparr>"
  have m: "close_leftover (updateMountState LoopSet l) = ?m" "openFile (cm_encryptionKey ?m) ?m = (True, ?m\<lparr>mc_mapped := True\<rparr>)"
    using l assms(4) work_fields [OF l(3)] by (simp_all add: work_state work_leftover openFile_def fits_def)
  let ?o = "?m\<lparr>mc_mapped := True, cm_mountState := LoopLuksOpened\<rparr>"
  have o: "updateMountState LoopLuksOpened (?m\<lparr>mc_mapped := True\<rparr>) = ?o" "mountMappedDevice ?o = (True, (exchange ?o)\<lparr>mc_mounted := True\<rparr>)"
    using l by (simp_all add: work_state work_mount)
  have dev: "qisNull (QStr ''/dev/loop0'') = False" by (simp add: qisNull_def)
  have "cm_encryptionKey s \<noteq> []" using assms(4) by (simp add: fits_def)
  then have "cs_mountFileSystem s = mounted_at_last ((exchange ?o)\<lparr>mc_mounted := True\<rparr>)"
    using assms(1,3) c l
    by (simp only: dev cs_mountFileSystem_def Let_def sure_call prod.case or_unmount_def fst_conv snd_conv not_True_eq_False if_False
        l_def [symmetric] m o)
  then show thesis using that l(3) by simp
qed

section \<open>Opening the database\<close>

lemma close_no_io_errors: "no_io_errors st \<Longrightarrow> no_io_errors (ss_close st)"
  by (auto simp: no_io_errors_def ss_close_def sql_commit_def next_io_def split: option.splits prod.splits)

lemma exec_no_io: "sq_io db = [] \<Longrightarrow> sq_io (sql_exec st db) = []" "sq_io db = [] \<Longrightarrow> sq_io (snd (sql_commit db)) = []"
  by (auto simp: sql_exec_def sql_commit_def next_io_def undo_def split: option.splits outcome.splits statement_result.splits)

lemma create_loop_works:
  assumes "sq_io db = []" and "sd_objects (sq_data db) = []"
  shows "fst (secrets_create_loop secrets_createTableQuery db)"
  using assms
  by (simp add: secrets_createTableQuery_def ss_create_def sql_exec_def sql_commit_def next_io_def errorOccurred_def isValid_def
      Let_def split: option.split)

lemma initialize_works: "no_io_errors st \<Longrightarrow> fst (ss_initialize name st) \<and> ss_isOpen (snd (ss_initialize name st))"
proof -
  assume "no_io_errors st"
  then have io: "ss_io (if ss_isOpen st then ss_close st else st) = []"
    using close_no_io_errors by (auto simp: no_io_errors_def)
  have "fst (secrets_init db)" if "sq_io db = []" for db
    using that create_loop_works [OF that]
    by (auto simp: secrets_init_def sql_init_def sql_connect_def next_io_def base_updateDB_def Let_def split: prod.split)
  then show ?thesis using io by (simp add: ss_initialize_def Let_def case_prod_beta)
qed

lemma if_open_isOpen: "ss_isOpen (snd (if_open r f st)) = ss_isOpen st"
  by (simp add: if_open_def case_prod_beta split: option.split)

lemma fold_keeps: "(\<And>x s. v (f x s) = v s) \<Longrightarrow> v (fold f xs s) = v s"
  by (induction xs arbitrary: s) simp_all

lemma storeToDB_isOpen: "ss_isOpen (storeToDB ss_updateCredentials (ss_storeData ser) cache st) = ss_isOpen st"
  unfolding storeToDB_def case_prod_beta Let_def ss_updateCredentials_def ss_storeData_def
  by (intro fold_keeps) (simp add: fold_keeps [of ss_isOpen] if_open_isOpen)

lemma openSecretsDB_works:
  "no_io_errors (cd_secrets db) \<Longrightarrow> fst (openSecretsDB ser path db) \<and> isSecretsDBOpen (snd (openSecretsDB ser path db))"
  using initialize_works [of "cd_secrets db" path]
  by (simp add: openSecretsDB_def on_secrets_def case_prod_beta isSecretsDBOpen_def storeToDB_isOpen)

definition rest_view where
  "rest_view s = (mc_lib s, mc_device s, mc_calls s, mc_mounted s, cm_kind s, cam_systemOpened s, kh_authorizedKeys s, kh_begin s,
     kh_insertedKeys s, cm_encryptionKey s, cm_fileSystemIsSetup s, cam_authorizer s, cam_notifiers s)"

lemma openSecrets_works:
  assumes "cm_fileSystemIsMounted s" and "cam_db s \<noteq> None" and "no_io_errors (the_storage s)"
  shows "secrets_are_open (snd (cam_openSecretsDB s)) \<and> rest_view (snd (cam_openSecretsDB s)) = rest_view s
    \<and> cm_mountState (snd (cam_openSecretsDB s)) = cm_mountState s \<and> cm_fileSystemIsMounted (snd (cam_openSecretsDB s))"
proof -
  obtain db where db: "cam_db s = Some db" using assms(2) by blast
  then have "no_io_errors (cd_secrets db)" using assms(3) by (simp add: the_storage_def)
  from openSecretsDB_works [OF this] show ?thesis
    using assms(1) db by (simp add: cam_openSecretsDB_def case_prod_beta Let_def secrets_are_open_def rest_view_def)
qed

lemma add_to_keychain [simp]:
  "rest_view (addKeyToKeychain k s) = rest_view s" "the_storage (addKeyToKeychain k s) = the_storage s"
  "cam_db (addKeyToKeychain k s) = cam_db s" "cm_mountState (addKeyToKeychain k s) = cm_mountState s"
  "cam_systemOpened (addKeyToKeychain k s) = cam_systemOpened s" "cm_fileSystemIsMounted (addKeyToKeychain k s) = cm_fileSystemIsMounted s"
  by (simp_all add: addKeyToKeychain_def rest_view_def Let_def)

lemma mounted_at_last_works:
  assumes "\<not> cm_fileSystemIsMounted s" and "cm_mountState s \<noteq> Mounted" and "cam_systemOpened s" and "cam_db s \<noteq> None"
    and "no_io_errors (the_storage s)" and "\<not> ss_isOpen (the_storage s)"
  shows "fst (mounted_at_last s) \<and> secrets_are_open (snd (mounted_at_last s)) \<and> rest_view (snd (mounted_at_last s)) = rest_view s
    \<and> cm_mountState (snd (mounted_at_last s)) = Mounted \<and> cm_fileSystemIsMounted (snd (mounted_at_last s))"
proof -
  let ?s = "(addKeyToKeychain (cm_encryptionKey s) s)\<lparr>cm_mountState := Mounted, cm_fileSystemIsMounted := True\<rparr>"
  have "cam_isSecretsDBOpen ?s = (False, ?s)"
    using assms(4,6) by (auto simp: cam_isSecretsDBOpen_def isSecretsDBOpen_def the_storage_def)
  then have "snd (mounted_at_last s) = snd (cam_openSecretsDB ?s)"
    using assms(1,2,3) by (simp add: mounted_at_last_def updateMountState_def setFileSystemMounted_def onEncryptedFSMounted_def)
  moreover have "rest_view ?s = rest_view s"
    using add_to_keychain(1) [of "cm_encryptionKey s" s] by (simp add: rest_view_def)
  ultimately show ?thesis
    using openSecrets_works [of ?s] assms(4,5) by (simp add: mounted_at_last_def)
qed

lemma mount_opens:
  assumes "mc_calls s = []" and "\<not> cm_fileSystemIsMounted s" and "cm_mountState s \<noteq> Mounted"
    and "fits (mc_lib s) (mc_device s) (cm_encryptionKey s)" and "cam_systemOpened s" and "cam_db s \<noteq> None"
    and "no_io_errors (the_storage s)" and "\<not> ss_isOpen (the_storage s)"
  shows "fst (cs_mountFileSystem s) \<and> secrets_are_open (snd (cs_mountFileSystem s))
    \<and> rest_view (snd (cs_mountFileSystem s)) = rest_view (s\<lparr>mc_mounted := True\<rparr>)
    \<and> cm_mountState (snd (cs_mountFileSystem s)) = Mounted \<and> cm_fileSystemIsMounted (snd (cs_mountFileSystem s))"
proof -
  obtain t where t: "cs_mountFileSystem s = mounted_at_last t" "work_view t = work_view s" "mc_mounted t" "cm_mountState t = LoopLuksOpened"
    using mount_works [OF assms(1-4)] .
  note w = work_fields [OF t(2)]
  have "rest_view t = rest_view (s\<lparr>mc_mounted := True\<rparr>)"
    using w t(3) by (simp add: rest_view_def)
  then show ?thesis
    unfolding t(1) using mounted_at_last_works [of t] w t(4) assms by simp
qed

section \<open>Unmounting that works\<close>

lemma unmount_works:
  assumes "mc_calls s = []" and "cm_mountState s = Mounted" and "cm_fileSystemIsMounted s" and "\<not> ss_isOpen (the_storage s)"
    and "cam_db s \<noteq> None"
  shows "fst (cs_unmountFileSystem s) \<and> work_view (snd (cs_unmountFileSystem s)) = work_view (s\<lparr>cm_fileSystemIsMounted := False\<rparr>)
    \<and> cm_mountState (snd (cs_unmountFileSystem s)) = Unmounted"
proof -
  let ?s = "s\<lparr>cm_fileSystemIsMounted := False\<rparr>"
  have "cam_isSecretsDBOpen s = (False, s)"
    using assms(4,5) by (auto simp: cam_isSecretsDBOpen_def isSecretsDBOpen_def the_storage_def)
  then have 1: "setFileSystemMounted False s = ?s"
    using assms(3) by (simp add: setFileSystemMounted_def onEncryptedFSUnmounting_def)
  have calls: "mc_calls ?s = []" using assms(1) by simp
  define u where "u = snd (unmountMappedDevice ?s)"
  have u: "unmountMappedDevice ?s = (True, u)" "work_view u = work_view ?s" "mc_calls u = []"
    using work_umount [OF calls] work_fields [of u ?s] assms(1) by (simp_all add: u_def prod_eq_iff)
  have 2: "cs_unmountFileSystem s = (True, updateMountState Unmounted (u\<lparr>mc_mapped := False\<rparr>))"
    using assms(2) u sure_call(2) [of "u\<lparr>mc_mapped := False\<rparr>"]
    by (simp add: cs_unmountFileSystem_def 1 if_reached_def sure_call(4))
  have "\<not> cm_fileSystemIsMounted (u\<lparr>mc_mapped := False\<rparr>)" using work_fields [OF u(2)] by simp
  then show ?thesis unfolding 2 using u by (simp add: work_state)
qed

lemma close_works:
  assumes "mc_calls s = []" and "cm_kind s = Some Cryptsetup" and "cm_mountState s = Mounted" and "cm_fileSystemIsMounted s"
    and "cam_db s \<noteq> None" and "no_io_errors (the_storage s)"
  shows "let t = snd (cam_closeSecretsDB s) in \<not> cm_fileSystemIsMounted t \<and> cm_mountState t = Unmounted \<and> \<not> ss_isOpen (the_storage t)
    \<and> no_io_errors (the_storage t) \<and> cam_db t \<noteq> None \<and> rest_view (t\<lparr>mc_mounted := True\<rparr>) = rest_view (s\<lparr>mc_mounted := True\<rparr>)"
proof -
  obtain db where db: "cam_db s = Some db" using assms(5) by blast
  define c where "c = db_closeSecrets s"
  have c: "c = s\<lparr>cam_db := Some (closeSecretsDB db)\<rparr>" using db by (simp add: c_def db_closeSecrets_def)
  have st: "the_storage c = ss_close (the_storage s)" "cam_db c \<noteq> None"
    using db by (simp_all add: c the_storage_def closeSecretsDB_def)
  have u: "fst (cs_unmountFileSystem c)" "work_view (snd (cs_unmountFileSystem c)) = work_view (c\<lparr>cm_fileSystemIsMounted := False\<rparr>)"
    "cm_mountState (snd (cs_unmountFileSystem c)) = Unmounted"
    using unmount_works [of c] assms st by (simp_all add: c)
  have "snd (cam_closeSecretsDB s) = snd (cs_unmountFileSystem c)"
    using u(1) assms(2) by (simp add: cam_closeSecretsDB_def unmountFileSystem_def c case_prod_beta flip: c_def)
  then show ?thesis
    using work_fields [OF u(2)] u(3) st close_no_io_errors [OF assms(6)]
    by (simp add: rest_view_def Let_def) (simp add: c)
qed

section \<open>The events\<close>

text \<open>The storage is in use by the daemon, set up, and nothing fails; it is mounted, or not.\<close>

definition in_service :: "bool \<Rightarrow> 'd storage \<Rightarrow> bool" where
  "in_service mounted s \<longleftrightarrow> cm_kind s = Some Cryptsetup \<and> cm_fileSystemIsSetup s \<and> kh_connected s \<and> cam_systemOpened s \<and> cam_db s \<noteq> None
     \<and> mc_calls s = [] \<and> no_io_errors (the_storage s) \<and> cm_fileSystemIsMounted s = mounted
     \<and> cm_mountState s = (if mounted then Mounted else Unmounted) \<and> (\<not> mounted \<longrightarrow> \<not> ss_isOpen (the_storage s))"

lemma service_quiet:
  "in_service b (s\<lparr>cm_encryptionKey := k\<rparr>) = in_service b s" "in_service b (s\<lparr>kh_insertedKeys := ks\<rparr>) = in_service b s"
  "in_service b (s\<lparr>kh_readyKeyManagers := ms\<rparr>) = in_service b s" "in_service b (cam_emit e s) = in_service b s"
  "in_service b (s\<lparr>cam_notifiers := ns\<rparr>) = in_service b s"
  by (simp_all add: in_service_def cam_emit_def)

lemma service_mount:
  assumes "in_service False s" and "fits (mc_lib s) (mc_device s) key"
  shows "\<exists>t. mountFileSystem (setEncryptionKey key s) = (True, t) \<and> secrets_are_open t \<and> cm_fileSystemIsMounted t \<and> cm_mountState t = Mounted
    \<and> rest_view t = rest_view (s\<lparr>cm_encryptionKey := key, mc_mounted := True\<rparr>)"
  using mount_opens [of "s\<lparr>cm_encryptionKey := key\<rparr>"] assms
  by (cases "cs_mountFileSystem (s\<lparr>cm_encryptionKey := key\<rparr>)")
     (simp add: in_service_def mountFileSystem_def setEncryptionKey_def rest_view_def)

end
