(* ===== verification/Storage_Events.thy ===== *)
theory Storage_Events
  imports Storage_Opening
begin

text \<open>
  The events of the encrypted storage as a whole: what is true in every run, what a key that fits does, and
  two behaviours one does not expect. The sample library keeps the pass phrases of a device in numbered slots.
\<close>

section \<open>The keys\<close>

lemma ready_quiet:
  "in_service b (kh_ready manager s) = in_service b s" "mc_lib (kh_ready manager s) = mc_lib s" "mc_device (kh_ready manager s) = mc_device s"
  "cm_fileSystemIsSetup (kh_ready manager s) = cm_fileSystemIsSetup s"
proof -
  show "in_service b (kh_ready manager s) = in_service b s" by (simp add: kh_ready_def Let_def service_quiet)
qed (simp_all add: kh_ready_def Let_def cam_emit_def)

lemma inserted_opens:
  assumes "in_service False s" and "fits (mc_lib s) (mc_device s) key"
  shows "let t = storage_happens (ManagerInserts manager key) s in
    secrets_are_open t \<and> mc_mounted t \<and> cm_mountState t = Mounted \<and> key \<in> set (kh_authorizedKeys t) \<and> mc_device t = mc_device s"
proof -
  define u where "u = (kh_ready manager s)\<lparr>kh_insertedKeys := set_insert key (kh_insertedKeys (kh_ready manager s))\<rparr>"
  have u: "in_service False u" "mc_lib u = mc_lib s" "mc_device u = mc_device s"
    using assms(1) by (simp_all add: u_def service_quiet ready_quiet)
  from service_mount [OF u(1), of key] assms(2) u obtain t where
    t: "mountFileSystem (setEncryptionKey key u) = (True, t)" "secrets_are_open t" "cm_mountState t = Mounted"
      "rest_view t = rest_view (u\<lparr>cm_encryptionKey := key, mc_mounted := True\<rparr>)"
    by auto
  have kind: "cm_kind u = Some Cryptsetup" "cm_fileSystemIsSetup u" "\<not> cm_fileSystemIsMounted u"
    using u(1) by (simp_all add: in_service_def)
  have adopt: "adopt_key key u = t\<lparr>kh_authorizedKeys := set_insert key (kh_authorizedKeys t)\<rparr>"
    using t(1) kind by (simp add: adopt_key_def encryptionKeyInUse_def cs_encryptionKeyInUse_def mountFileSystem_def setEncryptionKey_def)
  have "key \<noteq> []" using assms(2) by (simp add: fits_def)
  then have "storage_happens (ManagerInserts manager key) s = cam_onKeyInserted key (adopt_key key u)"
    using assms(1) kind by (simp add: when_connected_def kh_onKeyInserted_def Let_def u_def [symmetric] in_service_def ready_quiet(4))
  then show ?thesis
    using t(2-4) u(3) unfolding Let_def
    by (simp add: adopt cam_onKeyInserted_def keyIsAuthorized_def set_insert_def rest_view_def secrets_are_open_def)
qed

lemma removed_reopens:
  assumes "in_service True s" and "kh_authorizedKeys s = [key]" and "fits (mc_lib s) (mc_device s) key"
  shows "let t = storage_happens (ManagerRemoves key) s in
    secrets_are_open t \<and> mc_mounted t \<and> cm_mountState t = Mounted \<and> kh_authorizedKeys t = []
    \<and> mc_device t = snd (luksRemoveKeyBinary (mc_lib s) key (mc_device s))"
proof -
  define u where "u = s\<lparr>kh_insertedKeys := set_remove key (kh_insertedKeys s)\<rparr>"
  define c where "c = snd (cam_closeSecretsDB u)"
  have conn: "kh_connected s" and db: "cam_db u \<noteq> None" using assms(1) by (simp_all add: in_service_def u_def)
  have "authorizedInsertedKeys u = []"
    using assms(2) by (auto simp: authorizedInsertedKeys_def u_def set_remove_def filter_empty_conv)
  then have disabled: "kh_onKeyDisabled key s = c"
    using assms(1,2) db
    by (auto simp: kh_onKeyDisabled_def Let_def u_def [symmetric] keyIsAuthorized_def onLastAuthorizedKeyRemoved_def
        cam_isSecretsDBOpen_def c_def)
       (auto simp: u_def in_service_def)
  have closed: "\<not> cm_fileSystemIsMounted c \<and> cm_mountState c = Unmounted \<and> \<not> ss_isOpen (the_storage c)
      \<and> no_io_errors (the_storage c) \<and> cam_db c \<noteq> None \<and> rest_view (c\<lparr>mc_mounted := True\<rparr>) = rest_view (u\<lparr>mc_mounted := True\<rparr>)"
    using close_works [of u] assms(1) by (simp add: in_service_def u_def c_def Let_def)
  then have fields: "cm_kind c = cm_kind u" "mc_lib c = mc_lib s" "mc_device c = mc_device s" "kh_authorizedKeys c = [key]"
      "cm_fileSystemIsSetup c" "mc_calls c = []" "cam_systemOpened c"
    using assms(1,2) by (simp_all add: rest_view_def u_def in_service_def)
  with closed have "\<exists>t. cs_mountFileSystem (setEncryptionKey key c) = (True, t) \<and> secrets_are_open t \<and> cm_mountState t = Mounted
      \<and> rest_view t = rest_view (c\<lparr>cm_encryptionKey := key, mc_mounted := True\<rparr>)"
    using mount_opens [of "c\<lparr>cm_encryptionKey := key\<rparr>"] assms(3)
    by (cases "cs_mountFileSystem (c\<lparr>cm_encryptionKey := key\<rparr>)") (simp add: setEncryptionKey_def rest_view_def)
  then obtain t where t: "cs_mountFileSystem (setEncryptionKey key c) = (True, t)" "secrets_are_open t" "cm_mountState t = Mounted"
      "rest_view t = rest_view (c\<lparr>cm_encryptionKey := key, mc_mounted := True\<rparr>)"
    by blast
  have any: "anyAuthorizedKey c = key" using fields(4) by (simp add: anyAuthorizedKey_def)
  have kind: "cm_kind c = Some Cryptsetup" "cm_kind t = Some Cryptsetup" "mc_lib t = mc_lib s" "mc_device t = mc_device s" "mc_mounted t"
      "kh_authorizedKeys t = [key]" "cm_kind (setEncryptionKey key c) = Some Cryptsetup"
    using t(4) fields assms(1) by (simp_all add: rest_view_def u_def in_service_def setEncryptionKey_def)
  have revoked: "snd (revokeKeyAuthorization key c) = cam_emit (KeyAuthorizationRevoked key)
      ((snd (cs_removeEncryptionKey key t))\<lparr>kh_authorizedKeys := set_remove key (kh_authorizedKeys (snd (cs_removeEncryptionKey key t)))\<rparr>)"
    using t(1,3) fields(4,5) kind(1,2,7) closed any
    by (simp add: revokeKeyAuthorization_def mount_with_authorized_def mountFileSystem_def removeEncryptionKey_def
        cs_removeEncryptionKey_def case_prod_beta)
  have "storage_happens (ManagerRemoves key) s = snd (revokeKeyAuthorization key c)"
    using conn fields(4) by (simp add: when_connected_def kh_onKeyRemoved_def disabled cam_onKeyRemoved_def keyIsAuthorized_def)
  then show ?thesis
    using t(2,3) kind unfolding revoked Let_def
    by (simp add: cs_removeEncryptionKey_def removeKeySlot_def removeKeyFromKeychain_def case_prod_beta cam_emit_def secrets_are_open_def
        set_remove_def split: option.splits)
qed

lemma reply_quiet:
  "rest_view (replyToSecureStorageEventNotifiers b) = rest_view (b\<lparr>cam_notifiers := []\<rparr>)
   \<and> secrets_are_open (replyToSecureStorageEventNotifiers b) = secrets_are_open b" for b :: "'a storage"
proof -
  have "rest_view ((fold (\<lambda>object s. cam_emit (SecureStorage object (secrets_are_open s)) s) ns b)\<lparr>cam_notifiers := []\<rparr>)
      = rest_view (b\<lparr>cam_notifiers := []\<rparr>) \<and>
    secrets_are_open (fold (\<lambda>object s. cam_emit (SecureStorage object (secrets_are_open s)) s) ns b) = secrets_are_open b" for ns
    by (induction ns arbitrary: b) (simp_all add: cam_emit_def rest_view_def secrets_are_open_def)
  then show ?thesis by (simp add: replyToSecureStorageEventNotifiers_def) (simp add: secrets_are_open_def)
qed

lemma needed_stays_shut:
  assumes "in_service False s" and "cam_authorizer s = Some DefaultKeyAuthorizer" and "kh_authorizedKeys s = []"
  shows "let t = storage_happens (StorageIsNeeded sender) s in
    \<not> secrets_are_open t \<and> mc_mounted t = mc_mounted s \<and> kh_authorizedKeys t = [] \<and> mc_device t = mc_device s"
proof -
  define u where "u = s\<lparr>cam_notifiers := cam_notifiers s @ [sender], kh_authorizedKeys := [], cm_encryptionKey := []\<rparr>"
  have shut: "\<not> secrets_are_open s" "cm_kind s = Some Cryptsetup" "\<not> cm_fileSystemIsMounted s"
    using assms(1) by (simp_all add: in_service_def storage_open)
  obtain db where db: "cam_db s = Some db" using assms(1) by (auto simp: in_service_def)
  have "setupFileSystem u = (False, u)" using shut(2) by (simp add: u_def setupFileSystem_def cs_setupFileSystem_def)
  then have "storage_happens (StorageIsNeeded sender) s = replyToSecureStorageEventNotifiers u"
    using shut db assms(2,3)
    by (simp add: cam_customEvent_def Let_def queryKeyAuthorization_def DefaultKeyAuthorizer_def canAddKeyAuthorization_def
        onKeyAuthorizationQueried_def authorizeKey_def keyIsAuthorized_def setEncryptionKey_def u_def secrets_are_open_def)
  with reply_quiet [of u] shut(1) show ?thesis
    by (simp add: Let_def rest_view_def u_def secrets_are_open_def)
qed

lemma needed_opens:
  assumes "in_service False s" and "cam_authorizer s = Some DefaultKeyAuthorizer" and "kh_authorizedKeys s \<noteq> []"
    and "[] \<notin> set (kh_authorizedKeys s)" and "fits (mc_lib s) (mc_device s) (anyAuthorizedKey s)"
    and "fst (luksAddKeyBinary (mc_lib s) (anyAuthorizedKey s) [] (mc_device s)) = 0"
  shows "let t = storage_happens (StorageIsNeeded sender) s in
    secrets_are_open t \<and> mc_mounted t \<and> [] \<in> set (kh_authorizedKeys t) \<and> kh_insertedKeys t = kh_insertedKeys s
    \<and> mc_device t = snd (luksAddKeyBinary (mc_lib s) (anyAuthorizedKey s) [] (mc_device s))"
proof -
  define u where "u = s\<lparr>cam_notifiers := cam_notifiers s @ [sender]\<rparr>"
  have u: "in_service False u" "anyAuthorizedKey u = anyAuthorizedKey s" "mc_lib u = mc_lib s" "mc_device u = mc_device s"
      "kh_authorizedKeys u = kh_authorizedKeys s" "cam_authorizer u = cam_authorizer s"
    using assms(1) by (simp_all add: u_def service_quiet anyAuthorizedKey_def)
  have rest: "cm_fileSystemIsSetup u" "\<not> cm_fileSystemIsMounted u" "\<not> secrets_are_open u" "cam_db u \<noteq> None" "cm_kind u = Some Cryptsetup"
    using u(1) by (simp_all add: in_service_def storage_open)
  obtain t where t: "mountFileSystem (setEncryptionKey (anyAuthorizedKey s) u) = (True, t)" "secrets_are_open t" "cm_mountState t = Mounted"
      "rest_view t = rest_view (u\<lparr>cm_encryptionKey := anyAuthorizedKey s, mc_mounted := True\<rparr>)"
    using service_mount [OF u(1), of "anyAuthorizedKey s"] assms(5) u by auto
  have kind: "cm_kind t = Some Cryptsetup" "mc_lib t = mc_lib s" "mc_device t = mc_device s" "mc_mounted t"
      "kh_insertedKeys t = kh_insertedKeys s"
    using t(4) u rest by (simp_all add: rest_view_def u_def)
  define a where "a = authorized [] (addKeyToKeychain [] (snd (addKeySlot [] (anyAuthorizedKey s) t)))"
  have "cs_addEncryptionKey [] (anyAuthorizedKey s) t = (True, addKeyToKeychain [] (snd (addKeySlot [] (anyAuthorizedKey s) t)))"
    using t(3) kind assms(6) by (simp add: cs_addEncryptionKey_def addKeySlot_def case_prod_beta)
  then have "authorizeKey [] False u = (True, a)"
    using rest u(2,5) assms(3,4) t(1) kind(1)
    by (simp add: authorizeKey_def keyIsAuthorized_def mount_with_authorized_def addEncryptionKey_def a_def)
  then have "storage_happens (StorageIsNeeded sender) s = replyToSecureStorageEventNotifiers a"
    using rest u(5,6) assms(2,3)
    by (auto simp: cam_customEvent_def Let_def u_def [symmetric] queryKeyAuthorization_def DefaultKeyAuthorizer_def
        canAddKeyAuthorization_def onKeyAuthorizationQueried_def)
  moreover have "secrets_are_open a \<and> mc_mounted a \<and> [] \<in> set (kh_authorizedKeys a) \<and> kh_insertedKeys a = kh_insertedKeys s
      \<and> mc_device a = snd (luksAddKeyBinary (mc_lib s) (anyAuthorizedKey s) [] (mc_device s))"
    using t(2) kind
    by (simp add: a_def authorized_def cam_emit_def addKeyToKeychain_def addKeySlot_def case_prod_beta set_insert_def secrets_are_open_def Let_def)
  moreover note reply_quiet [of a]
  ultimately show ?thesis by (simp add: Let_def rest_view_def)
qed

section \<open>A sample\<close>

type_synonym slots = "(int \<times> bytes) list"

definition slot_of :: "bytes \<Rightarrow> slots \<Rightarrow> int" where
  "slot_of key d = (case find (\<lambda>p. snd p = key) d of None \<Rightarrow> -1 | Some p \<Rightarrow> fst p)"

definition sample_lib :: "slots libcryptsetup" where
  "sample_lib = \<lparr>lc_init = (\<lambda>_. 0), lc_format = (\<lambda>_. (0, [])), lc_add_by_volume_key = (\<lambda>key d. (0, (0, key) # d)),
     lc_load = (\<lambda>_. 0), lc_activate_by_passphrase = slot_of,
     lc_add_by_passphrase = (\<lambda>old key d. if slot_of old d < 0 then (-1, d) else (0, (int (length d), key) # d)),
     lc_keyslot_by_passphrase = slot_of, lc_keyslot_destroy = (\<lambda>i d. (0, filter (\<lambda>p. fst p \<noteq> i) d))\<rparr>"

definition sample_machine :: "bool \<Rightarrow> slots \<Rightarrow> bytes list \<Rightarrow> slots storage" where
  "sample_machine mounted d keys = \<lparr>mc_lib = sample_lib, mc_device = d, mc_partition = Some 8388608, mc_mapped = mounted, mc_mounted = mounted,
     mc_keychain = [], mc_hidden_keychain = [], mc_hidden_files = [], mc_calls = [], mc_home = ''/home/user'',
     cm_kind = Some Cryptsetup, cm_encryptionKey = [], cm_fileSystemIsSetup = True, cm_fileSystemIsMounted = mounted,
     cm_storagePath = '''', cm_fileSystemPath = ''/s/signonfs'', cm_fileSystemName = ''signonfs'',
     cm_fileSystemMapPath = ''/dev/mapper/signonfs'', cm_fileSystemMountPath = ''/s/signonfs-mnt'',
     cm_loopDeviceName = QNull, cm_mountState = (if mounted then Mounted else Unmounted), cm_fileSystemType = Ext2, cm_fileSystemSize = 8,
     kh_connected = True, kh_keyManagers = [1], kh_readyKeyManagers = [1], kh_insertedKeys = [], kh_authorizedKeys = keys, kh_begin = (\<lambda>_. 0),
     cam_settings = [(''StoragePath'', VString (QStr ''/s''))], cam_secretsDbName = ''signon-secrets.db'', cam_keyManagers = [1],
     cam_setup = (\<lambda>_. []), cam_authorizer = Some DefaultKeyAuthorizer, cam_isInitialized = True, cam_systemOpened = True,
     cam_error = CamNoError, cam_ser = (\<lambda>_. []), cam_db = Some (sample_cd False), cam_metaFile = sample_db, cam_metaExists = True,
     cam_storage = cd_secrets (sample_cd False), cam_notifiers = [], cam_events = [], cam_fault = False\<rparr>"

lemma sample_in_service: "in_service mounted (sample_machine mounted d keys)"
  by (simp add: in_service_def sample_machine_def the_storage_def sample_cd_def no_io_errors_def)

lemma sample_fields [simp]:
  "mc_lib (sample_machine m d keys) = sample_lib" "mc_device (sample_machine m d keys) = d" "kh_authorizedKeys (sample_machine m d keys) = keys"
  "cam_authorizer (sample_machine m d keys) = Some DefaultKeyAuthorizer" "kh_begin (sample_machine m d keys) = (\<lambda>_. 0)"
  "kh_insertedKeys (sample_machine m d keys) = []"
  by (simp_all add: sample_machine_def)

lemma sample_key_fits: "fits sample_lib d key \<longleftrightarrow> key \<noteq> [] \<and> 0 \<le> slot_of key d"
  by (simp add: fits_def luksOpenBinary_def sample_lib_def Let_def)

lemma sample_slots:
  "luksRemoveKeyBinary sample_lib key d = (if slot_of key d < 0 then (-1, d) else (0, filter (\<lambda>p. fst p \<noteq> slot_of key d) d))"
  "luksAddKeyBinary sample_lib old key d = (if slot_of old d < 0 then (-1, d) else (0, (int (length d), key) # d))"
  by (simp_all add: luksRemoveKeyBinary_def luksAddKeyBinary_def sample_lib_def Let_def)

section \<open>Properties\<close>

text \<open>C23: In every run of the encrypted storage from a start at which it is closed, whatever the calls of the
  system and libcryptsetup answer and in whatever order the events come, the secrets database is open only
  while the crypto manager counts the file system as mounted and the credentials system is opened; and between
  two events a file system of cryptsetup is mounted or unmounted, not half-way, and counts as mounted exactly
  when it is.\<close>

theorem secrets_are_open_only_while_mounted:
  assumes "cam_db s0 = None" and "\<not> ss_isOpen (cam_storage s0)" and "\<not> cam_systemOpened s0"
    and "\<not> cm_fileSystemIsMounted s0" and "cm_mountState s0 = Unmounted"
    and "storage_reachable s0 s"
  shows "(secrets_are_open s \<longrightarrow> cm_fileSystemIsMounted s \<and> cam_systemOpened s)
    \<and> (cm_kind s = Some Cryptsetup \<longrightarrow> cm_mountState s \<in> {Unmounted, Mounted} \<and> cm_fileSystemIsMounted s = (cm_mountState s = Mounted))"
proof -
  have "whole_view (mount_view s0)"
    using assms(1-5) by (simp add: whole_view_def half_view_def safe_view_def mount_view_def the_storage_def)
  with assms(6) have "whole_view (mount_view s)"
    by induction (auto intro: consistent.happens simp: consistent.permits_def split: storage_happening.split)
  then show ?thesis
    by (auto simp: whole_view_def half_view_def safe_view_def mount_view_def storage_open)
qed

text \<open>The events that bring no key that fits, and no approval.\<close>

definition brings_no_key :: "'d storage \<Rightarrow> storage_happening \<Rightarrow> bool" where
  "brings_no_key s0 h = (case h of
       ManagerInserts _ key \<Rightarrow> \<not> fits (mc_lib s0) (mc_device s0) key
     | AuthorizerReplies _ result \<Rightarrow> result = Denied
     | _ \<Rightarrow> True)"

text \<open>C24: While no key is authorized and the authorizer denies every key, a storage of cryptsetup that is
  unmounted stays so in every run in which no inserted or reported key opens its device: it is not mounted,
  the secrets database is not opened, and neither the device nor the partition file nor what is in them
  changes.\<close>

theorem storage_stays_shut_without_a_key:
  assumes "shut s0" and "list_all (brings_no_key s0) hs"
  shows "let s = storage_run hs s0 in \<not> cm_fileSystemIsMounted s \<and> \<not> mc_mounted s \<and> \<not> secrets_are_open s \<and> kh_authorizedKeys s = []
    \<and> mc_device s = mc_device s0 \<and> mc_partition s = mc_partition s0 \<and> mc_hidden_files s = mc_hidden_files s0"
proof -
  have "storage_contract.permits (\<lambda>key. \<not> fits (mc_lib s0) (mc_device s0) key) (\<lambda>r. r = Denied) = brings_no_key s0"
    by (rule ext) (simp add: locked.permits_def brings_no_key_def)
  then have s: "stays_shut s0 (storage_run hs s0)"
    using locked.run [of s0 s0 hs] assms stays_shut_refl [OF assms(1)] by simp
  then have "mc_partition (storage_run hs s0) = mc_partition s0 \<and> mc_hidden_files (storage_run hs s0) = mc_hidden_files s0"
    by (simp add: stays_shut_def shut_view_def)
  then show ?thesis using stays_shut_facts [OF assms(1) s] by (simp add: storage_open)
qed

text \<open>C25: When the system and libcryptsetup do what they are asked, a key that opens the device and is
  inserted while the storage is unmounted mounts it, opens the secrets database, and is authorized; the
  device is not changed.\<close>

theorem fitting_key_opens_the_storage:
  assumes "in_service False s" and "fits (mc_lib s) (mc_device s) key"
  shows "let t = storage_happens (ManagerInserts manager key) s in
    secrets_are_open t \<and> mc_mounted t \<and> cm_mountState t = Mounted \<and> key \<in> set (kh_authorizedKeys t) \<and> mc_device t = mc_device s"
  by (rule inserted_opens [OF assms])

text \<open>C26: When the one authorized key is removed, the storage is unmounted and its secrets closed first; then
  the key is revoked, for which the storage is mounted with that very key: in the end the secrets database is
  open, no key is authorized, and the slot of the key in the device has been destroyed.\<close>

theorem removing_the_last_key_reopens_the_storage:
  assumes "in_service True s" and "kh_authorizedKeys s = [key]" and "fits (mc_lib s) (mc_device s) key"
  shows "let t = storage_happens (ManagerRemoves key) s in
    secrets_are_open t \<and> mc_mounted t \<and> cm_mountState t = Mounted \<and> kh_authorizedKeys t = []
    \<and> mc_device t = snd (luksRemoveKeyBinary (mc_lib s) key (mc_device s))"
  by (rule removed_reopens [OF assms])

text \<open>C27: When a session needs the storage while it is unmounted, a key has been authorized earlier and is the one chosen, it
  fits the device and libcryptsetup can add a slot, then the default authorizer opens the storage with that key,
  whether it is inserted or not, and the empty pass phrase, which is the key named
  in the question, gets a slot in the device and is authorized. Had no key been authorized, the storage would stay
  shut and the device as it is.\<close>

theorem needed_storage_opens_without_a_key:
  assumes "in_service False s" and "cam_authorizer s = Some DefaultKeyAuthorizer" and "kh_authorizedKeys s \<noteq> []"
    and "[] \<notin> set (kh_authorizedKeys s)" and "fits (mc_lib s) (mc_device s) (anyAuthorizedKey s)"
    and "fst (luksAddKeyBinary (mc_lib s) (anyAuthorizedKey s) [] (mc_device s)) = 0"
  shows "(let t = storage_happens (StorageIsNeeded sender) s in
      secrets_are_open t \<and> mc_mounted t \<and> [] \<in> set (kh_authorizedKeys t) \<and> kh_insertedKeys t = kh_insertedKeys s
      \<and> mc_device t = snd (luksAddKeyBinary (mc_lib s) (anyAuthorizedKey s) [] (mc_device s)))
    \<and> (let t = storage_happens (StorageIsNeeded sender) (s\<lparr>kh_authorizedKeys := []\<rparr>) in
      \<not> secrets_are_open t \<and> mc_mounted t = mc_mounted s \<and> kh_authorizedKeys t = [] \<and> mc_device t = mc_device s)"
proof -
  have "in_service False (s\<lparr>kh_authorizedKeys := []\<rparr>)" using assms(1) by (simp add: in_service_def)
  from needed_stays_shut [OF this, of sender] needed_opens [OF assms, of sender] assms(2) show ?thesis
    by (simp add: Let_def)
qed

section \<open>Witnesses\<close>

definition fresh_machine :: "slots storage" where
  "fresh_machine = (sample_machine False [(0, [7])] [])\<lparr>cam_isInitialized := False, cam_systemOpened := False, cam_db := None\<rparr>"

theorem secrets_are_open_only_while_mounted_witness:
  "cm_mountState (storage_happens (StorageIsNeeded 3) fresh_machine) \<in> {Unmounted, Mounted}"
proof -
  have "storage_reachable fresh_machine (storage_happens (StorageIsNeeded 3) fresh_machine)"
    by (intro storage_reachable.intros)
  moreover have "cm_kind (storage_happens (StorageIsNeeded 3) fresh_machine) = Some Cryptsetup"
    by (simp add: fresh_machine_def sample_machine_def cam_customEvent_def replyToSecureStorageEventNotifiers_def cam_emit_def Let_def)
  ultimately show ?thesis
    using secrets_are_open_only_while_mounted [of fresh_machine "storage_happens (StorageIsNeeded 3) fresh_machine"]
    by (simp add: fresh_machine_def sample_machine_def sample_cd_def)
qed

theorem storage_stays_shut_without_a_key_witness:
  "\<not> secrets_are_open (storage_run [OpenSystem, ManagerInserts 1 [9], StorageIsNeeded 2]
     ((sample_machine False [(0, [7])] [])\<lparr>cam_authorizer := Some AbstractKeyAuthorizer\<rparr>))"
proof -
  let ?s = "(sample_machine False [(0, [7])] [])\<lparr>cam_authorizer := Some AbstractKeyAuthorizer\<rparr>"
  have "shut ?s"
    by (simp add: shut_def sample_key_fits denies_def AbstractKeyAuthorizer_def)
       (simp add: sample_machine_def the_storage_def sample_cd_def)
  then show ?thesis
    using storage_stays_shut_without_a_key [of ?s "[OpenSystem, ManagerInserts 1 [9], StorageIsNeeded 2]"]
    by (simp add: brings_no_key_def sample_key_fits slot_of_def Let_def)
qed

theorem fitting_key_opens_the_storage_witness:
  "secrets_are_open (storage_happens (ManagerInserts 1 [7]) (sample_machine False [(0, [7])] []))"
  using fitting_key_opens_the_storage [OF sample_in_service, of "[(0, [7])]" "[]" "[7]" 1]
  by (simp add: sample_key_fits slot_of_def Let_def)

theorem removing_the_last_key_reopens_the_storage_witness:
  "secrets_are_open (storage_happens (ManagerRemoves [7]) (sample_machine True [(0, [7])] [[7]]))
   \<and> mc_device (storage_happens (ManagerRemoves [7]) (sample_machine True [(0, [7])] [[7]])) = []"
  using removing_the_last_key_reopens_the_storage [OF sample_in_service, of "[(0, [7])]" "[[7]]" "[7]"]
  by (simp add: sample_key_fits slot_of_def sample_slots Let_def)

theorem needed_storage_opens_without_a_key_witness:
  "secrets_are_open (storage_happens (StorageIsNeeded 3) (sample_machine False [(0, [7])] [[7]]))
   \<and> mc_device (storage_happens (StorageIsNeeded 3) (sample_machine False [(0, [7])] [[7]])) = [(1, []), (0, [7])]"
  using needed_storage_opens_without_a_key [OF sample_in_service, of "[(0, [7])]" "[[7]]" 3]
  by (simp add: sample_key_fits slot_of_def anyAuthorizedKey_def sample_slots Let_def)

section \<open>The size of the partition\<close>

lemma initialized_size:
  "cm_fileSystemSize (snd (cs_initialize configuration s)) = max 8 (v_toUInt (qm_value configuration ''Size'' VInvalid))"
  "mc_calls (snd (cs_initialize configuration s)) = mc_calls s"
proof -
  have frames: "cm_fileSystemSize (checkFileSystemSetup t) = cm_fileSystemSize t" "mc_calls (checkFileSystemSetup t) = mc_calls t"
    "cm_fileSystemSize (snd (setFileSystemType q t)) = cm_fileSystemSize t" "mc_calls (snd (setFileSystemType q t)) = mc_calls t"
    "mc_calls (snd (setFileSystemSize n t)) = mc_calls t" "mc_calls (setFileSystemPath p t) = mc_calls t" for t :: "'a storage" and q n p
    by (simp_all add: checkFileSystemSetup_def setFileSystemSetup_def setFileSystemType_def setFileSystemSize_def setFileSystemPath_def Let_def)
  show "cm_fileSystemSize (snd (cs_initialize configuration s)) = max 8 (v_toUInt (qm_value configuration ''Size'' VInvalid))"
    by (simp add: cs_initialize_def Let_def frames) (simp add: setFileSystemSize_def)
  show "mc_calls (snd (cs_initialize configuration s)) = mc_calls s"
    by (simp add: cs_initialize_def Let_def frames)
qed

text \<open>C28: The size of the file system is the configured number of megabytes, or 8 where that is less. The
  partition file made for it has a size below \<open>2 ^ 32\<close> bytes, and has the size of the file system only when
  that is less than 4096 megabytes.\<close>

theorem partition_size_is_bounded:
  assumes "mc_calls s = []"
  shows "let t = snd (cs_initialize configuration s); n = cm_fileSystemSize t in
    n = max 8 (v_toUInt (qm_value configuration ''Size'' VInvalid))
    \<and> (\<exists>b < 4294967296. mc_partition (snd (createPartitionFile n t)) = Some b \<and> (b = n * MEGA_BYTE_SIZE \<longleftrightarrow> n < 4096))"
proof -
  have "x * 1048576 mod 4294967296 = x * 1048576 \<longleftrightarrow> x < 4096" for x :: nat
  proof -
    have "y mod 4294967296 = y \<longleftrightarrow> y < 4294967296" for y :: nat by (metis mod_less mod_less_divisor zero_less_numeral)
    then show ?thesis by simp
  qed
  moreover have "mc_calls (snd (cs_initialize configuration s)) = []" using assms initialized_size(2) by metis
  ultimately show ?thesis
    by (simp add: initialized_size Let_def createPartitionFile_def next_call_def)
qed

theorem partition_size_is_bounded_witness:
  "mc_partition (snd (createPartitionFile 5000 (snd (cs_initialize [(''Size'', VUInt 5000)] fresh_machine))))
     \<noteq> Some (5000 * MEGA_BYTE_SIZE)"
  using partition_size_is_bounded [of fresh_machine "[(''Size'', VUInt 5000)]"]
  by (auto simp: fresh_machine_def sample_machine_def qm_value_def Let_def)

end
