(* ===== verification/Plugin_Properties.thy ===== *)
theory Plugin_Properties
  imports Plugin_Proxy
begin

text \<open>
  What the daemon can rely on whatever a plugin process writes: after its answer to a request a
  plugin has no further say, it cannot open dialogs a policy forbids; and what goes wrong with
  answers longer than a page.
\<close>

section \<open>Runs of a plugin process\<close>

fun plugin_run :: "codec \<Rightarrow> bytes list \<Rightarrow> plugin_proxy \<Rightarrow> plugin_signal list \<times> plugin_proxy" where
  "plugin_run co [] pp = ([], pp)"
| "plugin_run co (bs # bss) pp =
     (let (sigs, pp) = plugin_writes co bs pp; (more, pp) = plugin_run co bss pp in (sigs @ more, pp))"

text \<open>A relation that every response keeps is kept by a run. It relates the proxy before, the
  signals and the proxy after; it has to hold of nothing happening and to compose.\<close>

locale response_law =
  fixes co :: codec and law :: "plugin_proxy \<Rightarrow> plugin_signal list \<Rightarrow> plugin_proxy \<Rightarrow> bool"
  assumes law_none: "law pp [] pp"
    and law_seq: "law pp s pp1 \<Longrightarrow> law pp1 t pp2 \<Longrightarrow> law pp (s @ t) pp2"
    and law_listen: "law pp [] (pp\<lparr>pp_listening := b\<rparr>)"
    and law_stdout: "law pp [] (pp\<lparr>pp_stdout := bs\<rparr>)"
    and law_response: "read_response co pp = (stop, s, pp') \<Longrightarrow> law pp s pp'"
begin

lemma law_read: "onReadStandardOutput co pp = (s, pp') \<Longrightarrow> law pp s pp'"
proof (induction "length (pp_stdout pp)" arbitrary: pp s pp' rule: less_induct)
  case less
  obtain stop s1 pp1 where r: "read_response co pp = (stop, s1, pp1)" by (rule prod_cases3)
  let ?pp = "pp1\<lparr>pp_listening := True\<rparr>"
  have 1: "law pp s1 ?pp" using law_seq [OF law_response [OF r] law_listen] by simp
  show ?case
  proof (cases "stop \<or> pp_stdout ?pp = []")
    case True
    with less.prems 1 law_response [OF r] show ?thesis
      by (subst (asm) onReadStandardOutput.simps) (auto simp: r Let_def split: if_splits)
  next
    case False
    obtain more pp2 where m: "onReadStandardOutput co ?pp = (more, pp2)" by force
    have "s = s1 @ more" "pp' = pp2"
      using less.prems False m by (subst (asm) onReadStandardOutput.simps, simp add: r Let_def)+
    moreover have "length (pp_stdout ?pp) < length (pp_stdout pp)"
      using read_response_stdout [of co pp s1 pp1] r False by simp
    ultimately show ?thesis using law_seq [OF 1 less.hyps [OF _ m]] by simp
  qed
qed

lemma law_writes: "plugin_writes co bs pp = (s, pp') \<Longrightarrow> law pp s pp'"
  using law_seq [OF law_stdout law_read] law_stdout
  by (fastforce simp: plugin_writes_def Let_def split: if_splits)

lemma law_run: "plugin_run co bss pp = (s, pp') \<Longrightarrow> law pp s pp'"
  by (induction bss arbitrary: pp s)
     (auto simp: law_none Let_def split: prod.splits intro!: law_seq dest: law_writes)

end

section \<open>After the answer\<close>

text \<open>The two failures of the pipe that the proxy itself reports: no bytes to read, and \<open>blobIOError\<close>. Every other
  error is one the plugin has reported.\<close>

definition pipe_error :: "plugin_signal \<Rightarrow> bool" where
  "pipe_error s \<longleftrightarrow> s = ProcessError Error_InternalServer QNull
     \<or> s = ProcessError Error_InternalServer (QStr ''Failed to I/O session data to/from the authentication plugin.'')"

fun answer :: "plugin_signal \<Rightarrow> bool" where
  "answer (ProcessResultReply _) = True"
| "answer (ProcessError e t) = (\<not> pipe_error (ProcessError e t))"
| "answer _ = False"

fun answered_once :: "plugin_signal list \<Rightarrow> bool" where
  "answered_once [] = True"
| "answered_once (s # ss) = (if answer s then list_all pipe_error ss else answered_once ss)"

lemma pipe_errors [simp]:
  "pipe_error (ProcessError Error_InternalServer QNull)"
  "pipe_error (ProcessError Error_InternalServer (QStr ''Failed to I/O session data to/from the authentication plugin.''))"
  by (simp_all add: pipe_error_def)

lemma pipe_error_no_answer: "pipe_error s \<Longrightarrow> \<not> answer s"
  by (cases s) (auto simp: pipe_error_def)

lemma answered_once_append:
  "answered_once (xs @ ys) \<longleftrightarrow> answered_once xs \<and>
     (if list_ex answer xs then list_all pipe_error ys else answered_once ys)"
  by (induction xs) (auto simp: list_ex_iff)

lemma pipe_errors_answered: "list_all pipe_error xs \<Longrightarrow> answered_once xs \<and> filter answer xs = []"
  by (induction xs) (auto dest: pipe_error_no_answer)

lemma answers_counted: "answered_once xs \<Longrightarrow> length (filter answer xs) \<le> 1"
  by (induction xs) (auto dest: pipe_errors_answered)

text \<open>The law: an answer leaves the flag set, and with the flag set only failures of the pipe are signalled.\<close>

definition say_law :: "plugin_proxy \<Rightarrow> plugin_signal list \<Rightarrow> plugin_proxy \<Rightarrow> bool" where
  "say_law pp s pp' \<longleftrightarrow>
     (pp_isResultObtained pp \<longrightarrow> pp_isResultObtained pp' \<and> list_all pipe_error s)
     \<and> (list_ex answer s \<longrightarrow> pp_isResultObtained pp') \<and> answered_once s"

lemma restart_flags:
  "restartIfRequired pp = (ok, pp') \<Longrightarrow>
     pp_isResultObtained pp' = pp_isResultObtained pp \<and> pp_uiPolicy pp' = pp_uiPolicy pp
     \<and> pp_isProcessing pp' = pp_isProcessing pp \<and> pp_listening pp' = pp_listening pp"
  by (auto simp: restartIfRequired_def start_process_def next_start_def Let_def
      split: if_splits prod.splits list.splits)

lemma write_stdin_flags [simp]:
  "pp_isResultObtained (write_stdin bs pp) = pp_isResultObtained pp" "pp_uiPolicy (write_stdin bs pp) = pp_uiPolicy pp"
  "pp_isProcessing (write_stdin bs pp) = pp_isProcessing pp" "pp_listening (write_stdin bs pp) = pp_listening pp"
  "pp_running (write_stdin bs pp) = pp_running pp"
  by (simp_all add: write_stdin_def)

lemmas proxy_defs = read_response_def read_blob_response_def handlePluginResponse_def handle_ui_def
  pp_processUi_def blobIOError_def pp_stop_def Let_def
lemmas proxy_splits = if_splits prod.splits blob_signal.splits

lemma response_say: "read_response co pp = (stop, s, pp') \<Longrightarrow> say_law pp s pp'"
  by (auto simp: proxy_defs say_law_def split: proxy_splits dest!: restart_flags)

interpretation say: response_law co say_law for co
proof (rule response_law.intro)
  fix pp s pp1 t pp2
  assume "say_law pp s pp1" "say_law pp1 t pp2"
  then show "say_law pp (s @ t) pp2"
    by (auto simp: say_law_def answered_once_append)
qed (auto simp: say_law_def dest: response_say [unfolded say_law_def])

section \<open>Dialogs\<close>

fun permitted_by :: "int \<Rightarrow> plugin_signal \<Rightarrow> bool" where
  "permitted_by policy (ProcessUiRequest m) = ui_allowed policy m"
| "permitted_by policy _ = True"

definition ui_law :: "plugin_proxy \<Rightarrow> plugin_signal list \<Rightarrow> plugin_proxy \<Rightarrow> bool" where
  "ui_law pp s pp' \<longleftrightarrow> pp_uiPolicy pp' = pp_uiPolicy pp \<and> list_all (permitted_by (pp_uiPolicy pp)) s"

lemma response_ui: "read_response co pp = (stop, s, pp') \<Longrightarrow> ui_law pp s pp'"
  by (auto simp: proxy_defs ui_law_def split: proxy_splits dest!: restart_flags)

interpretation ui: response_law co ui_law for co
  by (rule response_law.intro) (auto simp: ui_law_def dest: response_ui [unfolded ui_law_def])

section \<open>Long answers\<close>

lemma long_answer_read:
  assumes "pp_stdout pp = put_u32 1 @ sendData ser m @ rest"
    and "SIGNON_IPC_BUFFER_PAGE_SIZE < length (variantMapToByteArray ser m)"
    and "length (variantMapToByteArray ser m) < 2147483648"
  shows "\<exists>pp'. onReadStandardOutput co pp = ([], pp') \<and> pp_listening pp' = False
    \<and> pp_isProcessing pp' = pp_isProcessing pp \<and> pp_isResultObtained pp' = pp_isResultObtained pp"
proof -
  let ?ba = "variantMapToByteArray ser m"
  let ?N = SIGNON_IPC_BUFFER_PAGE_SIZE
  have ne: "?ba \<noteq> []" "\<not> length ?ba \<le> ?N" using assms(2) by auto
  have 1: "get_i32 (pp_stdout pp) = (1, sendData ser m @ rest)"
    using assms(1) get_put_i32 [of 1 "sendData ser m @ rest"] by simp
  have 2: "get_i32 (sendData ser m @ rest) =
      (int (length ?ba), concat (map put_ba (pageByteArray ?ba)) @ rest)"
    using assms(3) by (simp add: sendData_def Let_def)
  have "\<exists>io bs. receiveData f (int (length ?ba)) io0 (concat (map put_ba (pageByteArray ?ba)) @ rest) =
      (NoSignal, io, bs)" for f io0
    using assms(2) ne readBlob_page [OF ne(1), of "setReadNotificationEnabled True (io0\<lparr>bi_buffer := [], bi_size := int (length ?ba)\<rparr>)" ?ba f rest]
    by (simp add: receiveData_def setReadNotificationEnabled_def)
  then obtain io bs where 3: "receiveData (co_to_map co) (int (length ?ba)) (pp_blobIOHandler pp)
      (concat (map put_ba (pageByteArray ?ba)) @ rest) = (NoSignal, io, bs)" by blast
  have "pp_stdout pp \<noteq> []" using assms(1) by (simp add: put_u32_def)
  then have "\<exists>pp'. read_response co pp = (True, [], pp') \<and> pp_listening pp' = False
      \<and> pp_isProcessing pp' = pp_isProcessing pp \<and> pp_isResultObtained pp' = pp_isResultObtained pp"
    by (simp add: read_response_def read_blob_response_def isResultOperationCodeValid_def 1 2 3)
  then show ?thesis by (subst onReadStandardOutput.simps) auto
qed

lemma deaf_run: "\<not> pp_listening pp \<Longrightarrow> fst (plugin_run co bss pp) = []
    \<and> pp_isProcessing (snd (plugin_run co bss pp)) = pp_isProcessing pp"
  by (induction bss arbitrary: pp) (auto simp: plugin_writes_def Let_def split: prod.splits)

section \<open>Properties\<close>

text \<open>C16: A plugin process answers a request at most once. Whatever bytes it writes and however they arrive, the
  proxy signals at most one result or error of the plugin, and after it nothing any more but failures of the
  pipe, in the two forms in which the proxy reports them itself: no second answer, no data to store, no dialog.
  It is the response that counts: after a result or an error report of the plugin, whatever its code and text, only
  such failures follow. They are not counted, and may come any number of times before the answer and after it.\<close>

theorem plugin_answers_once:
  "answered_once (fst (plugin_run co bss pp)) \<and> length (filter answer (fst (plugin_run co bss pp))) \<le> 1
   \<and> list_all pipe_error (fst (plugin_run co bss (snd (handlePluginResponse co PLUGIN_RESPONSE_RESULT m pp))))
   \<and> list_all pipe_error (fst (plugin_run co bss (snd (handlePluginResponse co PLUGIN_RESPONSE_ERROR m pp))))"
proof -
  have law: "say_law p (fst (plugin_run co bss p)) (snd (plugin_run co bss p))" for p
    by (rule say.law_run) simp
  have "pp_isResultObtained (snd (handlePluginResponse co PLUGIN_RESPONSE_RESULT m pp))"
    "pp_isResultObtained (snd (handlePluginResponse co PLUGIN_RESPONSE_ERROR m pp))"
    by (simp_all add: handlePluginResponse_def Let_def split: prod.split)
  with law answers_counted show ?thesis unfolding say_law_def by blast
qed

text \<open>C17: The user interaction policy of a request keeps the plugin from asking questions. After \<open>process\<close> with the
  policy that forbids interaction no bytes of the plugin make the proxy signal a request for a dialog, and such a
  request is answered with the error for forbidden dialogs at once. The policy does not bind a refresh: a plugin
  that asks to refresh a dialog it never opened still has the request signalled.\<close>

theorem forbidden_dialogs_stay_closed:
  assumes "pp_process co d mech pp = (True, pp1)"
    and "v_toInt (qm_value d SSOUI_KEY_UIPOLICY VInvalid) = NoUserInteractionPolicy"
  shows "ProcessUiRequest m \<notin> set (fst (plugin_run co bss pp1))
    \<and> handle_ui co m pp1 = ([], pp1\<lparr>pp_stdin := pp_stdin pp1 @ put_u32 PLUGIN_OP_PROCESS_UI
          @ sendData (co_map co) (qm_insert ''QueryErrorCode'' (VInt QUERY_ERROR_FORBIDDEN) m)\<rparr>)
    \<and> handlePluginResponse co PLUGIN_RESPONSE_REFRESHED m pp1 = ([ProcessRefreshRequest m], pp1)"
proof -
  have p: "pp_uiPolicy pp1 = NoUserInteractionPolicy" "pp_running pp1" "pp_isProcessing pp1" "\<not> pp_isResultObtained pp1"
    using assms by (auto simp: pp_process_def restartIfRequired_def start_process_def next_start_def Let_def
        split: if_splits prod.splits list.splits)
  then have "list_all (permitted_by NoUserInteractionPolicy) (fst (plugin_run co bss pp1))"
    using ui.law_run [of co bss pp1] by (cases "plugin_run co bss pp1") (simp add: ui_law_def)
  then have "ProcessUiRequest m \<notin> set (fst (plugin_run co bss pp1))"
    by (auto simp: list_all_iff ui_allowed_def)
  then show ?thesis
    using p by (simp add: handle_ui_def ui_allowed_def pp_processUi_def restartIfRequired_def write_stdin_def
        handlePluginResponse_def)
qed

text \<open>C22: An answer longer than a page is never delivered. The proxy reads its first page and waits for
  the next ones on a notifier that is disabled; whatever the plugin writes from then on, nothing
  is signalled and the request stays in process.\<close>

theorem long_answer_is_lost:
  assumes "SIGNON_IPC_BUFFER_PAGE_SIZE < length (variantMapToByteArray ser m)"
    and "length (variantMapToByteArray ser m) < 2147483648"
    and "pp_listening pp" and "pp_stdout pp = []"
  shows "fst (plugin_run co ((put_u32 1 @ sendData ser m) # bss) pp) = []
    \<and> pp_isProcessing (snd (plugin_run co ((put_u32 1 @ sendData ser m) # bss) pp)) = pp_isProcessing pp"
proof -
  let ?bs = "put_u32 1 @ sendData ser m"
  obtain pp' where "plugin_writes co ?bs pp = ([], pp')" "\<not> pp_listening pp'" "pp_isProcessing pp' = pp_isProcessing pp"
    using long_answer_read [of "pp\<lparr>pp_stdout := ?bs\<rparr>" ser m "[]" co] assms by (auto simp: plugin_writes_def)
  then show ?thesis
    using deaf_run [of pp' co bss] by (simp add: Let_def split: prod.splits)
qed

section \<open>Witnesses\<close>

definition sample_codec :: codec where
  "sample_codec = \<lparr>co_map = plain_ser, co_to_map = \<lambda>_. [], co_variant = \<lambda>_. [], co_to_variant = \<lambda>_. VInvalid\<rparr>"

definition sample_proxy :: plugin_proxy where
  "sample_proxy = (PluginProxy (QStr ''password'') [])\<lparr>pp_listening := True, pp_running := True\<rparr>"

theorem forbidden_dialogs_stay_closed_witness:
  "ProcessUiRequest [] \<notin> set (fst (plugin_run sample_codec [put_u32 5 @ sendData plain_ser []]
     (snd (pp_process sample_codec [(SSOUI_KEY_UIPOLICY, VInt 2)] QNull sample_proxy))))"
  using forbidden_dialogs_stay_closed [of sample_codec "[(SSOUI_KEY_UIPOLICY, VInt 2)]" QNull sample_proxy
      "snd (pp_process sample_codec [(SSOUI_KEY_UIPOLICY, VInt 2)] QNull sample_proxy)" "[]" "[put_u32 5 @ sendData plain_ser []]"]
  by (simp add: pp_process_def restartIfRequired_def sample_proxy_def qm_value_def)

theorem long_answer_is_lost_witness:
  "fst (plugin_run sample_codec [put_u32 1 @ sendData (\<lambda>_. replicate 16385 0) []] sample_proxy) = []"
  using long_answer_is_lost [of "\<lambda>_. replicate 16385 0" "[]" sample_proxy sample_codec "[]"]
  by (simp add: variantMapToByteArray_def SIGNON_IPC_BUFFER_PAGE_SIZE_def sample_proxy_def PluginProxy_def)

end
