(* ===== verification/Remote_Plugin.thy ===== *)
theory Remote_Plugin
  imports Plugin_Properties
begin

text \<open>
  \<open>RemotePluginProcess\<close> (src/remotepluginprocess/remotepluginprocess.cpp): the process that runs one plugin,
  the other end of the pipes of a \<open>PluginProxy\<close>; and \<open>PasswordPlugin\<close> (src/plugins/password), a plugin. Which
  library file gives which plugin is a parameter. What is called on the plugin and what the plugin
  emits are an output and an input of the process. The pipe does not block.
\<close>

section \<open>Session data\<close>

definition propertyNames :: "qvariant_map \<Rightarrow> string list" where
  "propertyNames m_data = map fst m_data"

definition getProperty :: "qvariant_map \<Rightarrow> string \<Rightarrow> qvariant" where
  "getProperty m_data propertyName = qm_value m_data propertyName VInvalid"

text \<open>The accessors a property declares.\<close>

definition sd_UserName :: "qvariant_map \<Rightarrow> qstring" where
  "sd_UserName m_data = v_toString (qm_value m_data ''UserName'' VInvalid)"

definition sd_Secret :: "qvariant_map \<Rightarrow> qstring" where
  "sd_Secret m_data = v_toString (qm_value m_data ''Secret'' VInvalid)"

definition sd_QueryErrorCode :: "qvariant_map \<Rightarrow> int" where
  "sd_QueryErrorCode m_data = v_toInt (qm_value m_data ''QueryErrorCode'' VInvalid)"

definition sd_set :: "string \<Rightarrow> qvariant \<Rightarrow> qvariant_map \<Rightarrow> qvariant_map" where
  "sd_set name v m_data = qm_insert name v m_data"

section \<open>State\<close>

datatype plugin_call = PluginProcess qvariant_map qstring | PluginUserActionFinished qvariant_map | PluginRefresh qvariant_map
  | PluginCancel | PluginAbort

datatype plugin_emission = EmitResult qvariant_map | EmitStore qvariant_map | EmitError int qstring | EmitUserActionRequired qvariant_map
  | EmitRefreshed qvariant_map | EmitStatusChanged int qstring

record remote_plugin =
  rp_type :: qstring
  rp_mechanisms :: "qstring list"
  rp_inFile :: bytes
  rp_outFile :: bytes
  rp_blobIOHandler :: blob_io
  rp_currentOperation :: nat
  rp_currentMechanism :: qstring
  rp_calls :: "plugin_call list"
  rp_stopped :: bool
  rp_flushes :: "bool list"

definition rp_write :: "bytes \<Rightarrow> remote_plugin \<Rightarrow> remote_plugin" where
  "rp_write bs rp = rp\<lparr>rp_outFile := rp_outFile rp @ bs\<rparr>"

definition rp_call :: "plugin_call \<Rightarrow> remote_plugin \<Rightarrow> remote_plugin" where
  "rp_call c rp = rp\<lparr>rp_calls := rp_calls rp @ [c]\<rparr>"

definition rp_flush :: "remote_plugin \<Rightarrow> bool \<times> remote_plugin" where
  "rp_flush rp = (case rp_flushes rp of [] \<Rightarrow> (True, rp) | b # bs \<Rightarrow> (b, rp\<lparr>rp_flushes := bs\<rparr>))"

section \<open>Start\<close>

definition getPluginName :: "string \<Rightarrow> qstring \<Rightarrow> string" where
  "getPluginName env type =
     (let dirName = (if env = [] then ''/usr/lib/signon'' else env)
      in dirName @ ''/'' @ ''lib'' @ chars type @ ''plugin.so'')"

definition RemotePluginProcess :: "qstring \<Rightarrow> qstring list \<Rightarrow> remote_plugin" where
  "RemotePluginProcess ptype mechs =
     \<lparr>rp_type = ptype, rp_mechanisms = mechs, rp_inFile = [], rp_outFile = [], rp_blobIOHandler = new_blob_io,
      rp_currentOperation = PLUGIN_OP_STOP, rp_currentMechanism = QNull, rp_calls = [], rp_stopped = False, rp_flushes = []\<rparr>"

text \<open>A library is loaded and resolved and gives a plugin with its type and its mechanisms, or not.\<close>

definition createRemotePluginProcess ::
    "(string \<Rightarrow> (qstring \<times> qstring list) option) \<Rightarrow> string \<Rightarrow> qstring \<Rightarrow> remote_plugin option" where
  "createRemotePluginProcess load env type =
     (case load (getPluginName env type) of
        None \<Rightarrow> None
      | Some (ptype, mechs) \<Rightarrow> if \<not> qeq ptype type then None else Some (RemotePluginProcess ptype mechs))"

section \<open>What the plugin emits\<close>

definition data_map :: "qvariant_map \<Rightarrow> qvariant_map" where
  "data_map data = fold (\<lambda>key m. qm_insert key (getProperty data key) m) (propertyNames data) []"

definition rp_error :: "int \<Rightarrow> qstring \<Rightarrow> remote_plugin \<Rightarrow> remote_plugin" where
  "rp_error type message = rp_write (put_u32 (nat PLUGIN_RESPONSE_ERROR) @ put_u32 (to_uint type) @ put_qstring message)"

definition rp_result :: "codec \<Rightarrow> qvariant_map \<Rightarrow> remote_plugin \<Rightarrow> remote_plugin" where
  "rp_result co data = rp_write (put_u32 (nat PLUGIN_RESPONSE_RESULT) @ sendData (co_map co) (data_map data))"

definition rp_store :: "codec \<Rightarrow> qvariant_map \<Rightarrow> remote_plugin \<Rightarrow> remote_plugin" where
  "rp_store co data = rp_write (put_u32 (nat PLUGIN_RESPONSE_STORE) @ sendData (co_map co) (data_map data))"

definition rp_userActionRequired :: "codec \<Rightarrow> qvariant_map \<Rightarrow> remote_plugin \<Rightarrow> remote_plugin" where
  "rp_userActionRequired co data = rp_write (put_u32 (nat PLUGIN_RESPONSE_UI) @ sendData (co_map co) (data_map data))"

definition rp_refreshed :: "codec \<Rightarrow> qvariant_map \<Rightarrow> remote_plugin \<Rightarrow> remote_plugin" where
  "rp_refreshed co data = rp_write (put_u32 (nat PLUGIN_RESPONSE_REFRESHED) @ sendData (co_map co) (data_map data))"

definition rp_statusChanged :: "int \<Rightarrow> qstring \<Rightarrow> remote_plugin \<Rightarrow> remote_plugin" where
  "rp_statusChanged state message =
     rp_write (put_u32 (nat PLUGIN_RESPONSE_SIGNAL) @ put_u32 (to_uint state) @ put_qstring message)"

fun rp_emits :: "codec \<Rightarrow> plugin_emission \<Rightarrow> remote_plugin \<Rightarrow> remote_plugin" where
  "rp_emits co (EmitResult data) = rp_result co data"
| "rp_emits co (EmitStore data) = rp_store co data"
| "rp_emits co (EmitError type message) = rp_error type message"
| "rp_emits co (EmitUserActionRequired data) = rp_userActionRequired co data"
| "rp_emits co (EmitRefreshed data) = rp_refreshed co data"
| "rp_emits co (EmitStatusChanged state message) = rp_statusChanged state message"

section \<open>What the daemon asks\<close>

definition rp_blobIOError :: "remote_plugin \<Rightarrow> remote_plugin" where
  "rp_blobIOError = rp_error Error_InternalServer (QStr ''Failed to I/O session data to/from the signon daemon.'')"

definition sessionDataReceived :: "qvariant_map \<Rightarrow> remote_plugin \<Rightarrow> remote_plugin" where
  "sessionDataReceived sessionDataMap rp0 =
     (let rp =
        (if rp_currentOperation rp0 = PLUGIN_OP_PROCESS
         then (rp_call (PluginProcess sessionDataMap (rp_currentMechanism rp0)) rp0)\<lparr>rp_currentMechanism := QNull\<rparr>
         else if rp_currentOperation rp0 = PLUGIN_OP_PROCESS_UI then rp_call (PluginUserActionFinished sessionDataMap) rp0
         else if rp_currentOperation rp0 = PLUGIN_OP_REFRESH then rp_call (PluginRefresh sessionDataMap) rp0
         else rp_error Error_InternalServer (QStr ''Plugin process - invalid operation code.'') rp0)
      in rp\<lparr>rp_currentOperation := PLUGIN_OP_STOP\<rparr>)"

text \<open>The slots that are connected to the signals of the blob handler.\<close>

definition rp_received :: "blob_signal \<times> blob_io \<times> bytes \<Rightarrow> remote_plugin \<Rightarrow> remote_plugin" where
  "rp_received r rp0 =
     (let (s, io, bs) = r; rp = rp0\<lparr>rp_blobIOHandler := io, rp_inFile := bs\<rparr> in
      case s of NoSignal \<Rightarrow> rp | DataReceived m \<Rightarrow> sessionDataReceived m rp | BlobError \<Rightarrow> rp_blobIOError rp)"

definition rp_receiveData :: "codec \<Rightarrow> nat \<Rightarrow> remote_plugin \<Rightarrow> remote_plugin" where
  "rp_receiveData co operation rp0 =
     (let (processBlobSize, bs) = get_i32 (rp_inFile rp0);
          rp = rp0\<lparr>rp_inFile := bs, rp_currentOperation := operation\<rparr>
      in rp_received (receiveData (co_to_map co) processBlobSize (rp_blobIOHandler rp) bs) rp)"

definition rp_process :: "codec \<Rightarrow> remote_plugin \<Rightarrow> remote_plugin" where
  "rp_process co rp0 =
     (let (mechanism, bs) = get_qstring (rp_inFile rp0)
      in rp_receiveData co PLUGIN_OP_PROCESS (rp0\<lparr>rp_inFile := bs, rp_currentMechanism := mechanism\<rparr>))"

definition rp_userActionFinished :: "codec \<Rightarrow> remote_plugin \<Rightarrow> remote_plugin" where
  "rp_userActionFinished co = rp_receiveData co PLUGIN_OP_PROCESS_UI"

definition rp_refresh :: "codec \<Rightarrow> remote_plugin \<Rightarrow> remote_plugin" where
  "rp_refresh co = rp_receiveData co PLUGIN_OP_REFRESH"

definition rp_typeQuery :: "remote_plugin \<Rightarrow> remote_plugin" where
  "rp_typeQuery rp = rp_write (put_qstring (rp_type rp)) rp"

definition rp_mechanismsQuery :: "codec \<Rightarrow> remote_plugin \<Rightarrow> remote_plugin" where
  "rp_mechanismsQuery co rp = rp_write (co_variant co (VStringList (rp_mechanisms rp))) rp"

definition rp_abort :: "remote_plugin \<Rightarrow> remote_plugin" where
  "rp_abort rp = (rp_call PluginAbort rp)\<lparr>rp_stopped := True\<rparr>"

definition startTask :: "codec \<Rightarrow> remote_plugin \<Rightarrow> remote_plugin" where
  "startTask co rp0 =
     (if bi_isReading (rp_blobIOHandler rp0) then rp0
      else
        let (opcode, bs) = get_u32 (rp_inFile rp0); rp = rp0\<lparr>rp_inFile := bs\<rparr> in
        if rp_currentOperation rp \<noteq> PLUGIN_OP_STOP \<and> opcode \<noteq> PLUGIN_OP_CANCEL then rp_abort rp
        else
          let (is_stopped, rp) =
            (if opcode = PLUGIN_OP_CANCEL then (False, rp_call PluginCancel rp)
             else if opcode = PLUGIN_OP_TYPE then (False, rp_typeQuery rp)
             else if opcode = PLUGIN_OP_MECHANISMS then (False, rp_mechanismsQuery co rp)
             else if opcode = PLUGIN_OP_PROCESS then (False, rp_process co rp)
             else if opcode = PLUGIN_OP_PROCESS_UI then (False, rp_userActionFinished co rp)
             else if opcode = PLUGIN_OP_REFRESH then (False, rp_refresh co rp)
             else (True, rp));
            (is_stopped, rp) =
            (if \<not> is_stopped then let (flushed, rp) = rp_flush rp in (\<not> flushed, rp) else (is_stopped, rp))
          in if is_stopped then rp_abort rp else rp)"

text \<open>The notifier for the pipe is connected to \<open>startTask\<close>, and while a blob is read also to \<open>readBlob\<close>.\<close>

definition rp_activated :: "codec \<Rightarrow> remote_plugin \<Rightarrow> remote_plugin" where
  "rp_activated co rp =
     (if bi_isReading (rp_blobIOHandler rp)
      then rp_received (readBlob (co_to_map co) (rp_blobIOHandler rp) (rp_inFile rp)) rp
      else startTask co rp)"

section \<open>The password plugin\<close>

abbreviation "Error_SessionCanceled \<equiv> 311 :: int"
abbreviation "Error_UserInteraction \<equiv> 313 :: int"
abbreviation "QUERY_ERROR_NONE \<equiv> 0 :: int"
abbreviation "QUERY_ERROR_CANCELED \<equiv> 4 :: int"

definition pw_type :: qstring where
  "pw_type = QStr ''password''"

definition pw_mechanisms :: "qstring list" where
  "pw_mechanisms = [QStr ''password'']"

definition pw_cancel :: "plugin_emission list" where
  "pw_cancel = [EmitError Error_SessionCanceled QNull]"

definition pw_process :: "qvariant_map \<Rightarrow> qstring \<Rightarrow> plugin_emission list" where
  "pw_process inData mechanism =
     (let response = (if \<not> qisEmpty (sd_UserName inData) then sd_set ''UserName'' (VString (sd_UserName inData)) [] else []) in
      if \<not> qisEmpty (sd_Secret inData)
      then [EmitResult (sd_set ''Secret'' (VString (sd_Secret inData)) response)]
      else
        let data = (if qisEmpty (sd_UserName inData) then sd_set ''QueryUserName'' (VBool True) []
                    else sd_set ''UserName'' (VString (sd_UserName inData)) [])
        in [EmitUserActionRequired (sd_set ''QueryPassword'' (VBool True) data)])"

definition pw_userActionFinished :: "qvariant_map \<Rightarrow> plugin_emission list" where
  "pw_userActionFinished data =
     (if sd_QueryErrorCode data = QUERY_ERROR_NONE
      then [EmitResult (sd_set ''Secret'' (VString (sd_Secret data)) (sd_set ''UserName'' (VString (sd_UserName data)) []))]
      else if sd_QueryErrorCode data = QUERY_ERROR_CANCELED then [EmitError Error_SessionCanceled QNull]
      else [EmitError Error_UserInteraction (QStr (''userActionFinished error: '' @ int_str (sd_QueryErrorCode data)))])"

text \<open>\<open>abort\<close> and \<open>refresh\<close> are those of \<open>AuthPluginInterface\<close>.\<close>

fun pw_called :: "plugin_call \<Rightarrow> plugin_emission list" where
  "pw_called (PluginProcess inData mechanism) = pw_process inData mechanism"
| "pw_called (PluginUserActionFinished data) = pw_userActionFinished data"
| "pw_called (PluginRefresh data) = [EmitRefreshed data]"
| "pw_called PluginCancel = pw_cancel"
| "pw_called PluginAbort = []"

section \<open>A request arrives\<close>

lemma received_pages:
  assumes "ba \<noteq> []" and "bi_buffer (rp_blobIOHandler rp) @ ba = all" and "bi_size (rp_blobIOHandler rp) = int (length all)"
    and "bi_isReading (rp_blobIOHandler rp)" and "length all > SIGNON_IPC_BUFFER_PAGE_SIZE"
    and "rp_inFile rp = concat (map put_ba (pageByteArray ba)) @ rest"
  shows "(rp_activated co ^^ length (pageByteArray ba)) rp = sessionDataReceived (co_to_map co all)
    (rp\<lparr>rp_blobIOHandler := setReadNotificationEnabled False (rp_blobIOHandler rp\<lparr>bi_buffer := all\<rparr>), rp_inFile := rest\<rparr>)"
  using assms
proof (induction "length (pageByteArray ba)" arbitrary: ba rp)
  case 0
  then show ?case by (simp add: pageByteArray_step)
next
  case (Suc n)
  let ?N = SIGNON_IPC_BUFFER_PAGE_SIZE
  let ?io = "rp_blobIOHandler rp"
  note page = readBlob_page [OF Suc.prems(1-3), of "co_to_map co" rest, folded Suc.prems(6)]
  have n: "n = length (pageByteArray (drop ?N ba))" using Suc.hyps(2) Suc.prems(1) by (simp add: pageByteArray_step)
  show ?case
  proof (cases "drop ?N ba = []")
    case True
    then have "n = 0" using n by (simp add: pageByteArray.simps)
    then show ?thesis
      using True Suc.prems(3-5) page
      by (simp add: Suc.hyps(2) [symmetric] rp_activated_def rp_received_def)
  next
    case False
    let ?rp = "rp\<lparr>rp_blobIOHandler := ?io\<lparr>bi_buffer := bi_buffer ?io @ take ?N ba\<rparr>,
      rp_inFile := concat (map put_ba (pageByteArray (drop ?N ba))) @ rest\<rparr>"
    have 1: "rp_activated co rp = ?rp"
      using False Suc.prems(4) page by (simp add: rp_activated_def rp_received_def)
    have "(bi_buffer ?io @ take ?N ba) @ drop ?N ba = all" using Suc.prems(2) by simp
    then have "(rp_activated co ^^ n) ?rp = sessionDataReceived (co_to_map co all)
        (?rp\<lparr>rp_blobIOHandler := setReadNotificationEnabled False (rp_blobIOHandler ?rp\<lparr>bi_buffer := all\<rparr>), rp_inFile := rest\<rparr>)"
      using Suc.hyps(1) [OF n, of ?rp] False Suc.prems(3-5) n by (simp del: append_assoc drop_eq_Nil)
    then show ?thesis
      by (simp only: Suc.hyps(2) [symmetric] funpow_Suc_right comp_def 1) (simp add: setReadNotificationEnabled_def)
  qed
qed

definition rp_idle :: "remote_plugin \<Rightarrow> bool" where
  "rp_idle rp \<longleftrightarrow> \<not> bi_isReading (rp_blobIOHandler rp) \<and> rp_currentOperation rp = PLUGIN_OP_STOP \<and> rp_flushes rp = [] \<and> \<not> rp_stopped rp"

lemma start_process:
  assumes "rp_idle rp" and "length (chars mechanism) < 2147483647" and "rp_inFile rp = put_u32 PLUGIN_OP_PROCESS @ put_qstring mechanism @ bs"
  shows "startTask co rp = rp_receiveData co PLUGIN_OP_PROCESS (rp\<lparr>rp_inFile := bs, rp_currentMechanism := mechanism\<rparr>)"
proof -
  have flush: "rp_flushes (rp_received r t) = rp_flushes t" for r t
    by (cases r) (simp add: rp_received_def sessionDataReceived_def rp_call_def rp_error_def rp_write_def rp_blobIOError_def Let_def split: blob_signal.split)
  let ?t = "rp_receiveData co PLUGIN_OP_PROCESS (rp\<lparr>rp_inFile := bs, rp_currentMechanism := mechanism\<rparr>)"
  have "rp_flushes ?t = []"
    using assms(1) by (simp add: rp_receiveData_def Let_def case_prod_beta flush rp_idle_def)
  moreover have "startTask co rp = (let (flushed, rp) = rp_flush ?t in if \<not> flushed then rp_abort rp else rp)"
    using assms by (simp add: startTask_def rp_idle_def rp_process_def case_prod_beta Let_def)
  ultimately show ?thesis by (simp add: rp_flush_def)
qed

lemma request_arrives:
  assumes "rp_idle rp" and "length (chars mechanism) < 2147483647" and "ba \<noteq> []" and "length ba < 2147483648"
    and "rp_inFile rp = put_u32 PLUGIN_OP_PROCESS @ put_qstring mechanism @ put_u32 (length ba) @ concat (map put_ba (pageByteArray ba)) @ rest"
  shows "\<exists>io. \<not> bi_isReading io \<and> (rp_activated co ^^ length (pageByteArray ba)) rp =
    rp\<lparr>rp_inFile := rest, rp_blobIOHandler := io, rp_currentOperation := PLUGIN_OP_STOP, rp_currentMechanism := QNull,
       rp_calls := rp_calls rp @ [PluginProcess (co_to_map co ba) mechanism]\<rparr>"
proof -
  let ?N = SIGNON_IPC_BUFFER_PAGE_SIZE
  let ?pages = "concat (map put_ba (pageByteArray ba)) @ rest"
  let ?io = "(if length ba > ?N then setReadNotificationEnabled True else id) (rp_blobIOHandler rp\<lparr>bi_buffer := [], bi_size := int (length ba)\<rparr>)"
  let ?rp = "rp\<lparr>rp_currentMechanism := mechanism, rp_inFile := ?pages, rp_currentOperation := PLUGIN_OP_PROCESS\<rparr>"
  have io: "bi_buffer ?io @ ba = ba" "bi_size ?io = int (length ba)" by (simp_all add: setReadNotificationEnabled_def)
  note page = readBlob_page [OF assms(3) io, of "co_to_map co" rest]
  have reading: "bi_isReading ?io = (length ba > ?N)"
    using assms(1) by (simp add: setReadNotificationEnabled_def rp_idle_def)
  have first: "rp_activated co rp = rp_received (readBlob (co_to_map co) ?io ?pages) ?rp"
    using assms(1) start_process [OF assms(1,2) assms(5)] assms(4)
    by (simp add: rp_activated_def rp_idle_def rp_receiveData_def receiveData_def Let_def)
  have pages: "length (pageByteArray ba) = Suc (length (pageByteArray (drop ?N ba)))"
    using assms(3) by (simp add: pageByteArray_step)
  show ?thesis
  proof (cases "drop ?N ba = []")
    case True
    then have "length (pageByteArray ba) = 1" "\<not> length ba > ?N" using pages by (simp_all add: pageByteArray.simps)
    then show ?thesis
      using first page True reading
      by (intro exI [of _ "?io\<lparr>bi_buffer := ba\<rparr>"])
         (simp add: rp_received_def sessionDataReceived_def rp_call_def Let_def)
  next
    case False
    then have long: "length ba > ?N" by simp
    let ?r = "?rp\<lparr>rp_blobIOHandler := ?io\<lparr>bi_buffer := take ?N ba\<rparr>, rp_inFile := concat (map put_ba (pageByteArray (drop ?N ba))) @ rest\<rparr>"
    have "rp_activated co rp = ?r"
      using first page False long by (simp add: rp_received_def setReadNotificationEnabled_def)
    then have "(rp_activated co ^^ length (pageByteArray ba)) rp = (rp_activated co ^^ length (pageByteArray (drop ?N ba))) ?r"
      by (simp only: pages funpow_Suc_right comp_def)
    also have "\<dots> = sessionDataReceived (co_to_map co ba)
        (?r\<lparr>rp_blobIOHandler := setReadNotificationEnabled False (rp_blobIOHandler ?r\<lparr>bi_buffer := ba\<rparr>), rp_inFile := rest\<rparr>)"
      by (rule received_pages) (use False long in \<open>simp_all add: setReadNotificationEnabled_def\<close>)
    finally show ?thesis
      using long
      by (intro exI [of _ "setReadNotificationEnabled False (rp_blobIOHandler ?r\<lparr>bi_buffer := ba\<rparr>)"])
         (simp add: sessionDataReceived_def rp_call_def setReadNotificationEnabled_def Let_def)
  qed
qed

end
