(* ===== verification/Plugin_Link.thy ===== *)
theory Plugin_Link
  imports Remote_Plugin
begin

text \<open>
  The two ends of the pipes together: a request the proxy writes reaches the plugin in its process, whatever
  its size, and what the password plugin answers reaches the session core as the reply.
\<close>

section \<open>The answer\<close>

lemma short_answer_read:
  assumes "pp_stdout pp = put_u32 1 @ sendData (co_map co) m" and "\<not> pp_isResultObtained pp"
    and "co_map co (filterOutComplexTypes m) \<noteq> []" and "length (co_map co (filterOutComplexTypes m)) \<le> SIGNON_IPC_BUFFER_PAGE_SIZE"
  shows "\<exists>pp'. onReadStandardOutput co pp = ([ProcessResultReply (co_to_map co (co_map co (filterOutComplexTypes m)))], pp')
    \<and> pp_stdout pp' = [] \<and> \<not> pp_isProcessing pp'"
proof -
  let ?ba = "co_map co (filterOutComplexTypes m)"
  have 1: "get_i32 (pp_stdout pp) = (1, sendData (co_map co) m)"
    using assms(1) get_put_i32 [of 1 "sendData (co_map co) m"] by simp
  have small: "length ?ba < 2147483648" using assms(4) by (simp add: SIGNON_IPC_BUFFER_PAGE_SIZE_def)
  have 2: "get_i32 (sendData (co_map co) m) = (int (length ?ba), concat (map put_ba (pageByteArray ?ba)))"
    using get_put_i32 [OF small] by (simp add: sendData_def variantMapToByteArray_def Let_def)
  obtain io where 3: "receiveData (co_to_map co) (int (length ?ba)) (pp_blobIOHandler pp) (concat (map put_ba (pageByteArray ?ba))) =
      (DataReceived (co_to_map co ?ba), io, [])"
    using readBlob_page [OF assms(3), of "pp_blobIOHandler pp\<lparr>bi_buffer := [], bi_size := int (length ?ba)\<rparr>" ?ba "co_to_map co" "[]"] assms(4)
    by (simp add: receiveData_def)
  have ne: "pp_stdout pp \<noteq> []" using assms(1) by (simp add: put_u32_def)
  have "\<exists>pp'. read_response co pp = (False, [ProcessResultReply (co_to_map co ?ba)], pp') \<and> pp_stdout pp' = [] \<and> \<not> pp_isProcessing pp'"
    using ne assms(2)
    by (simp add: read_response_def read_blob_response_def isResultOperationCodeValid_def handlePluginResponse_def 1 2 3)
  then show ?thesis by (subst onReadStandardOutput.simps) auto
qed

section \<open>The password plugin\<close>

text \<open>The process is activated \<open>n\<close> times; what the plugin emits for what is called on it is written.\<close>

definition pw_run :: "codec \<Rightarrow> nat \<Rightarrow> remote_plugin \<Rightarrow> remote_plugin" where
  "pw_run co n rp0 =
     (let rp = (rp_activated co ^^ n) rp0
      in fold (rp_emits co) (concat (map pw_called (drop (length (rp_calls rp0)) (rp_calls rp)))) rp)"

definition password_response :: "qvariant_map \<Rightarrow> qvariant_map" where
  "password_response inData =
     (''Secret'', VString (sd_Secret inData)) #
     (if qisEmpty (sd_UserName inData) then [] else [(''UserName'', VString (sd_UserName inData))])"

lemma pw_process_secret:
  assumes "\<not> qisEmpty (sd_Secret inData)"
  shows "pw_process inData mechanism = [EmitResult (password_response inData)]"
  using assms by (simp add: pw_process_def password_response_def sd_set_def Let_def)

lemma response_plain: "data_map (password_response inData) = password_response inData"
    "filterOutComplexTypes (password_response inData) = password_response inData"
  by (simp_all add: password_response_def data_map_def propertyNames_def getProperty_def filterOutComplexTypes_def qm_value_def)

text \<open>What the codec does with a map.\<close>

definition carries :: "codec \<Rightarrow> qvariant_map \<Rightarrow> bool" where
  "carries co m \<longleftrightarrow> co_to_map co (co_map co m) = m \<and> co_map co m \<noteq> [] \<and> length (co_map co m) < 2147483648"

lemma request_written:
  assumes "pp_running pp" and "pp_stdin pp = []"
  shows "\<exists>pp1. pp_process co inData mechanism pp = (True, pp1) \<and> \<not> pp_isResultObtained pp1
    \<and> pp_stdin pp1 = put_u32 PLUGIN_OP_PROCESS @ put_qstring mechanism @ sendData (co_map co) inData
    \<and> pp_listening pp1 = pp_listening pp \<and> pp_stdout pp1 = pp_stdout pp"
  using assms by (simp add: pp_process_def restartIfRequired_def write_stdin_def)

lemma password_answered:
  assumes "pp_running pp" and "pp_listening pp" and "pp_stdin pp = []" and "pp_stdout pp = []"
    and "rp_idle rp" and "rp_outFile rp = []"
    and "length (chars mechanism) < 2147483647" and "carries co (filterOutComplexTypes inData)"
    and "\<not> qisEmpty (sd_Secret (filterOutComplexTypes inData))"
    and "carries co (password_response (filterOutComplexTypes inData))"
    and "length (co_map co (password_response (filterOutComplexTypes inData))) \<le> SIGNON_IPC_BUFFER_PAGE_SIZE"
  shows "let pp1 = snd (pp_process co inData mechanism pp);
      rp1 = pw_run co (length (pageByteArray (co_map co (filterOutComplexTypes inData)))) (rp\<lparr>rp_inFile := pp_stdin pp1\<rparr>)
    in rp_calls rp1 = rp_calls rp @ [PluginProcess (filterOutComplexTypes inData) mechanism] \<and> rp_idle rp1 \<and> rp_inFile rp1 = []
      \<and> fst (plugin_writes co (rp_outFile rp1) pp1) = [ProcessResultReply (password_response (filterOutComplexTypes inData))]"
proof -
  let ?in = "filterOutComplexTypes inData" and ?out = "password_response (filterOutComplexTypes inData)"
  obtain pp1 where pp1: "pp_process co inData mechanism pp = (True, pp1)" "\<not> pp_isResultObtained pp1" "pp_listening pp1" "pp_stdout pp1 = []"
      "pp_stdin pp1 = put_u32 PLUGIN_OP_PROCESS @ put_qstring mechanism @ sendData (co_map co) inData"
    using request_written [OF assms(1,3)] assms(2,4) by metis
  let ?rp = "rp\<lparr>rp_inFile := pp_stdin pp1\<rparr>"
  have idle: "rp_idle ?rp" using assms(5) by (simp add: rp_idle_def)
  have inFile: "rp_inFile ?rp = put_u32 PLUGIN_OP_PROCESS @ put_qstring mechanism @ put_u32 (length (co_map co ?in))
      @ concat (map put_ba (pageByteArray (co_map co ?in))) @ []"
    by (simp add: pp1(5) sendData_def variantMapToByteArray_def Let_def)
  obtain io where io: "\<not> bi_isReading io" "(rp_activated co ^^ length (pageByteArray (co_map co ?in))) ?rp =
      ?rp\<lparr>rp_inFile := [], rp_blobIOHandler := io, rp_currentOperation := PLUGIN_OP_STOP, rp_currentMechanism := QNull,
        rp_calls := rp_calls rp @ [PluginProcess ?in mechanism]\<rparr>"
    using request_arrives [OF idle assms(7) _ _ inFile, of co] assms(8) by (auto simp: carries_def)
  define rp1 where "rp1 = pw_run co (length (pageByteArray (co_map co ?in))) ?rp"
  have rp1: "rp1 = ?rp\<lparr>rp_inFile := [], rp_outFile := put_u32 1 @ sendData (co_map co) ?out, rp_blobIOHandler := io,
      rp_currentOperation := PLUGIN_OP_STOP, rp_currentMechanism := QNull, rp_calls := rp_calls rp @ [PluginProcess ?in mechanism]\<rparr>"
    using assms(6) by (simp add: rp1_def pw_run_def Let_def io(2) pw_process_secret [OF assms(9)] rp_result_def response_plain rp_write_def)
  let ?pp = "pp1\<lparr>pp_stdout := put_u32 1 @ sendData (co_map co) ?out\<rparr>"
  obtain pp' where "onReadStandardOutput co ?pp = ([ProcessResultReply ?out], pp')"
    using short_answer_read [of ?pp co ?out] assms(10,11) pp1(2) by (auto simp: response_plain carries_def)
  then have "fst (plugin_writes co (rp_outFile rp1) pp1) = [ProcessResultReply ?out]"
    using pp1(3,4) by (simp add: plugin_writes_def rp1)
  then show ?thesis
    using io(1) idle by (simp add: pp1(1) Let_def rp1_def [symmetric]) (simp add: rp1 rp_idle_def)
qed

section \<open>Properties\<close>

text \<open>C29: A request for a password goes round. When the proxy is asked to process session data with a secret,
  what it writes, however many pages it has, is read by the process in as many activations as the blob has pages,
  and is passed to the plugin once, without the values that cannot be serialised and with the mechanism;
  the process is idle again. What the password plugin answers is read by the proxy, if it fits one page of 16384 bytes, and
  signalled as the one result: the secret, and the user name if there is one.\<close>

theorem password_request_is_answered:
  assumes "pp_running pp" and "pp_listening pp" and "pp_stdin pp = []" and "pp_stdout pp = []"
    and "rp_idle rp" and "rp_outFile rp = []"
    and "length (chars mechanism) < 2147483647" and "carries co (filterOutComplexTypes inData)"
    and "\<not> qisEmpty (sd_Secret (filterOutComplexTypes inData))"
    and "carries co (password_response (filterOutComplexTypes inData))"
    and "length (co_map co (password_response (filterOutComplexTypes inData))) \<le> SIGNON_IPC_BUFFER_PAGE_SIZE"
  shows "let pp1 = snd (pp_process co inData mechanism pp);
      rp1 = pw_run co (length (pageByteArray (co_map co (filterOutComplexTypes inData)))) (rp\<lparr>rp_inFile := pp_stdin pp1\<rparr>)
    in rp_calls rp1 = rp_calls rp @ [PluginProcess (filterOutComplexTypes inData) mechanism] \<and> rp_idle rp1 \<and> rp_inFile rp1 = []
      \<and> fst (plugin_writes co (rp_outFile rp1) pp1) = [ProcessResultReply (password_response (filterOutComplexTypes inData))]"
  by (rule password_answered [OF assms])

section \<open>Witnesses\<close>

definition secret_data :: qvariant_map where
  "secret_data = [(''Secret'', VString (QStr ''pw''))]"

definition secret_codec :: codec where
  "secret_codec = \<lparr>co_map = \<lambda>_. replicate 10 1, co_to_map = \<lambda>_. secret_data, co_variant = \<lambda>_. [], co_to_variant = \<lambda>_. VInvalid\<rparr>"

theorem password_request_is_answered_witness:
  "fst (plugin_writes secret_codec
      (rp_outFile (pw_run secret_codec 1
        ((RemotePluginProcess pw_type pw_mechanisms)\<lparr>rp_inFile := pp_stdin (snd (pp_process secret_codec secret_data QNull sample_proxy))\<rparr>)))
      (snd (pp_process secret_codec secret_data QNull sample_proxy))) = [ProcessResultReply secret_data]"
proof -
  have f: "filterOutComplexTypes secret_data = secret_data" "password_response secret_data = secret_data"
      "sd_Secret secret_data = QStr ''pw''"
    by (simp_all add: secret_data_def filterOutComplexTypes_def password_response_def sd_Secret_def sd_UserName_def qm_value_def)
  have pages: "length (pageByteArray (replicate 10 1)) = 1"
    by (simp add: pageByteArray_step SIGNON_IPC_BUFFER_PAGE_SIZE_def)
  show ?thesis
    using password_request_is_answered [of sample_proxy "RemotePluginProcess pw_type pw_mechanisms" QNull secret_codec secret_data] pages
    by (simp add: f carries_def sample_proxy_def PluginProxy_def RemotePluginProcess_def rp_idle_def new_blob_io_def secret_codec_def
        SIGNON_IPC_BUFFER_PAGE_SIZE_def Let_def)
qed

end
