(* ===== verification/Async_Proxy.thy ===== *)
theory Async_Proxy
  imports Variants "HOL-Library.Multiset"
begin

text \<open>
  \<open>AsyncDBusProxy\<close> and \<open>PendingCall\<close> (lib/SignOn/async-dbus-proxy.cpp), through which the client library calls the
  daemon: calls made before there is a connection and an object path are queued, calls whose interface is
  destroyed under them are queued again. Calls and interfaces have numbers. The slots of the client that a call or
  the proxy is connected to are a parameter, \<open>proxy_slots\<close>, and act on the state of the client, which contains
  that of the proxy; the locale \<open>polite_slots\<close> is for clients whose slots leave the proxy alone. Following
  the pointer to an interface that is \<open>NULL\<close> sets the fault flag.
\<close>

section \<open>State\<close>

datatype proxy_status = Incomplete | Ready | Invalid

datatype dbus_error_type = NoDBusError | Other | Disconnected | UnknownObject | StandardError string

record dbus_error =
  err_type :: dbus_error_type
  err_name :: string
  err_message :: qstring

text \<open>The slots of a call are the names of the methods of the client it is connected to, if any.\<close>

record async_call =
  pc_meth :: string
  pc_args :: "qvariant list"
  pc_replySlot :: "string option"
  pc_errorSlot :: "string option"
  pc_watcher :: bool
  pc_interface :: nat
  pc_interfaceWasDestroyed :: bool

datatype proxy_output =
    CallSent nat nat
  | SignalConnected nat string
  | ErrorTo nat dbus_error
  | SuccessTo nat "qvariant list"
  | FinishedTo nat "(dbus_error + qvariant list) option"
  | ConnectionNeeded
  | ObjectPathNeeded

datatype posted = PostedFail nat dbus_error | PostedDelete nat

text \<open>\<open>ap_connection\<close> says whether the connection is connected, or is \<open>NULL\<close>. \<open>ap_inFlight\<close> are the calls whose
  watcher has not finished, \<open>ap_finished\<close> those that have emitted \<open>finished\<close>.\<close>

record dbus_proxy =
  ap_path :: string
  ap_connection :: "bool option"
  ap_connectionError :: dbus_error
  ap_operationsQueue :: "nat list"
  ap_connectionsQueue :: "string list"
  ap_interface :: "nat option"
  ap_status :: proxy_status
  ap_lastError :: dbus_error
  ap_calls :: "(nat, async_call) qhash"
  ap_nextCall :: nat
  ap_nextInterface :: nat
  ap_posted :: "posted list"
  ap_inFlight :: "nat list"
  ap_finished :: "nat list"
  ap_fault :: bool
  ap_outputs :: "proxy_output list"

record 's proxy_slots =
  on_error :: "nat \<Rightarrow> string \<Rightarrow> dbus_error \<Rightarrow> 's \<Rightarrow> 's"
  on_success :: "nat \<Rightarrow> string \<Rightarrow> qvariant list \<Rightarrow> 's \<Rightarrow> 's"
  on_finished :: "nat \<Rightarrow> string \<Rightarrow> (dbus_error + qvariant list) option \<Rightarrow> 's \<Rightarrow> 's"
  on_connectionNeeded :: "'s \<Rightarrow> 's"
  on_objectPathNeeded :: "'s \<Rightarrow> 's"

definition no_error :: dbus_error where
  "no_error = \<lparr>err_type = NoDBusError, err_name = [], err_message = QNull\<rparr>"

definition AsyncDBusProxy :: dbus_proxy where
  "AsyncDBusProxy = \<lparr>ap_path = [], ap_connection = None, ap_connectionError = no_error, ap_operationsQueue = [],
     ap_connectionsQueue = [], ap_interface = None, ap_status = Incomplete, ap_lastError = no_error, ap_calls = [], ap_nextCall = 0,
     ap_nextInterface = 0, ap_posted = [], ap_inFlight = [], ap_finished = [], ap_fault = False, ap_outputs = []\<rparr>"

definition ap_emit :: "proxy_output \<Rightarrow> 'a dbus_proxy_scheme \<Rightarrow> 'a dbus_proxy_scheme" where
  "ap_emit e s = s\<lparr>ap_outputs := ap_outputs s @ [e]\<rparr>"

definition ap_post :: "posted \<Rightarrow> 'a dbus_proxy_scheme \<Rightarrow> 'a dbus_proxy_scheme" where
  "ap_post e s = s\<lparr>ap_posted := ap_posted s @ [e]\<rparr>"

definition null_call :: async_call where
  "null_call = \<lparr>pc_meth = [], pc_args = [], pc_replySlot = None, pc_errorSlot = None, pc_watcher = False, pc_interface = 0,
     pc_interfaceWasDestroyed = False\<rparr>"

definition the_call :: "nat \<Rightarrow> 'a dbus_proxy_scheme \<Rightarrow> async_call" where
  "the_call n s = qh_value (ap_calls s) n null_call"

definition set_call :: "nat \<Rightarrow> async_call \<Rightarrow> 'a dbus_proxy_scheme \<Rightarrow> 'a dbus_proxy_scheme" where
  "set_call n c s = s\<lparr>ap_calls := qh_insert n c (ap_calls s)\<rparr>"

section \<open>PendingCall\<close>

text \<open>\<open>onCallFinished\<close> of the proxy, then the slot of the client, if it is connected to \<open>finished\<close>.\<close>

definition onCallFinished :: "nat \<Rightarrow> 'a dbus_proxy_scheme \<Rightarrow> 'a dbus_proxy_scheme" where
  "onCallFinished n s = ap_post (PostedDelete n) (s\<lparr>ap_operationsQueue := remove1 n (ap_operationsQueue s)\<rparr>)"

definition emit_finished ::
    "'a dbus_proxy_scheme proxy_slots \<Rightarrow> nat \<Rightarrow> (dbus_error + qvariant list) option \<Rightarrow> 'a dbus_proxy_scheme \<Rightarrow> 'a dbus_proxy_scheme" where
  "emit_finished slots n watcher s0 =
     (let s = onCallFinished n (s0\<lparr>ap_finished := ap_finished s0 @ [n]\<rparr>)
      in case (pc_errorSlot (the_call n s), pc_replySlot (the_call n s)) of
           (None, Some slot) \<Rightarrow> on_finished slots n slot watcher s
         | _ \<Rightarrow> s)"

definition emit_error ::
    "'a dbus_proxy_scheme proxy_slots \<Rightarrow> nat \<Rightarrow> dbus_error \<Rightarrow> 'a dbus_proxy_scheme \<Rightarrow> 'a dbus_proxy_scheme" where
  "emit_error slots n err s =
     (case pc_errorSlot (the_call n s) of None \<Rightarrow> s | Some slot \<Rightarrow> on_error slots n slot err s)"

definition emit_success ::
    "'a dbus_proxy_scheme proxy_slots \<Rightarrow> nat \<Rightarrow> qvariant list \<Rightarrow> 'a dbus_proxy_scheme \<Rightarrow> 'a dbus_proxy_scheme" where
  "emit_success slots n reply s =
     (case (pc_errorSlot (the_call n s), pc_replySlot (the_call n s)) of
        (Some _, Some slot) \<Rightarrow> on_success slots n slot reply s
      | _ \<Rightarrow> s)"

definition pc_cancel :: "'a dbus_proxy_scheme proxy_slots \<Rightarrow> nat \<Rightarrow> 'a dbus_proxy_scheme \<Rightarrow> bool \<times> 'a dbus_proxy_scheme" where
  "pc_cancel slots n s = (if pc_watcher (the_call n s) then (False, s) else (True, emit_finished slots n None s))"

definition doCall :: "nat \<Rightarrow> nat \<Rightarrow> 'a dbus_proxy_scheme \<Rightarrow> 'a dbus_proxy_scheme" where
  "doCall interface n s0 =
     (let s = set_call n ((the_call n s0)\<lparr>pc_watcher := True, pc_interface := interface, pc_interfaceWasDestroyed := False\<rparr>) s0
      in ap_emit (CallSent interface n) (s\<lparr>ap_inFlight := ap_inFlight s @ [n]\<rparr>))"

definition pc_fail :: "'a dbus_proxy_scheme proxy_slots \<Rightarrow> nat \<Rightarrow> dbus_error \<Rightarrow> 'a dbus_proxy_scheme \<Rightarrow> 'a dbus_proxy_scheme" where
  "pc_fail slots n err s = emit_finished slots n None (emit_error slots n err s)"

definition enqueue :: "'a dbus_proxy_scheme proxy_slots \<Rightarrow> nat \<Rightarrow> 'a dbus_proxy_scheme \<Rightarrow> 'a dbus_proxy_scheme" where
  "enqueue slots n s0 =
     (let s = s0\<lparr>ap_operationsQueue := ap_operationsQueue s0 @ [n]\<rparr>;
          s = (if ap_connection s = None then on_connectionNeeded slots s else s)
      in if ap_path s = [] then on_objectPathNeeded slots s else s)"

definition onRequeueRequested :: "'a dbus_proxy_scheme proxy_slots \<Rightarrow> nat \<Rightarrow> 'a dbus_proxy_scheme \<Rightarrow> 'a dbus_proxy_scheme" where
  "onRequeueRequested slots n s = enqueue slots n s"

definition pc_onFinished ::
    "'a dbus_proxy_scheme proxy_slots \<Rightarrow> nat \<Rightarrow> dbus_error + qvariant list \<Rightarrow> 'a dbus_proxy_scheme \<Rightarrow> 'a dbus_proxy_scheme" where
  "pc_onFinished slots n watcher s0 =
     (let s = s0\<lparr>ap_inFlight := remove1 n (ap_inFlight s0)\<rparr> in
      case watcher of
        Inl err \<Rightarrow>
          if pc_interfaceWasDestroyed (the_call n s) \<and> (err_type err = Disconnected \<or> err_type err = UnknownObject)
          then onRequeueRequested slots n s
          else emit_finished slots n (Some watcher) (emit_error slots n err s)
      | Inr reply \<Rightarrow> emit_finished slots n (Some watcher) (emit_success slots n reply s))"

definition onInterfaceDestroyed :: "nat \<Rightarrow> 'a dbus_proxy_scheme \<Rightarrow> 'a dbus_proxy_scheme" where
  "onInterfaceDestroyed interface s =
     s\<lparr>ap_calls := map (\<lambda>(n, c). (n, if pc_watcher c \<and> pc_interface c = interface then c\<lparr>pc_interfaceWasDestroyed := True\<rparr> else c)) (ap_calls s)\<rparr>"

section \<open>AsyncDBusProxy\<close>

definition setStatus :: "'a dbus_proxy_scheme proxy_slots \<Rightarrow> proxy_status \<Rightarrow> 'a dbus_proxy_scheme \<Rightarrow> 'a dbus_proxy_scheme" where
  "setStatus slots status s0 =
     (let s = s0\<lparr>ap_status := status\<rparr> in
      if status = Ready then
        (case ap_interface s of
           None \<Rightarrow> s\<lparr>ap_fault := True\<rparr>
         | Some interface \<Rightarrow>
             let s = fold (\<lambda>connection. ap_emit (SignalConnected interface connection)) (ap_connectionsQueue s) s;
                 s = fold (doCall interface) (ap_operationsQueue s) s
             in s\<lparr>ap_operationsQueue := []\<rparr>)
      else if status = Invalid then
        (fold (\<lambda>n s. pc_fail slots n (ap_lastError s) s) (ap_operationsQueue s) s)\<lparr>ap_operationsQueue := []\<rparr>
      else s)"

definition ap_setError :: "'a dbus_proxy_scheme proxy_slots \<Rightarrow> dbus_error \<Rightarrow> 'a dbus_proxy_scheme \<Rightarrow> 'a dbus_proxy_scheme" where
  "ap_setError slots err s = setStatus slots Invalid (s\<lparr>ap_lastError := err\<rparr>)"

definition ap_update :: "'a dbus_proxy_scheme proxy_slots \<Rightarrow> 'a dbus_proxy_scheme \<Rightarrow> 'a dbus_proxy_scheme" where
  "ap_update slots s0 =
     (let s = (case ap_interface s0 of None \<Rightarrow> s0 | Some interface \<Rightarrow> (onInterfaceDestroyed interface s0)\<lparr>ap_interface := None\<rparr>) in
      if ap_connection s = None \<or> ap_path s = [] then setStatus slots Incomplete s
      else if ap_connection s = Some False then ap_setError slots (ap_connectionError s) s
      else setStatus slots Ready (s\<lparr>ap_interface := Some (ap_nextInterface s), ap_nextInterface := ap_nextInterface s + 1\<rparr>))"

definition setConnection :: "'a dbus_proxy_scheme proxy_slots \<Rightarrow> bool \<Rightarrow> dbus_error \<Rightarrow> 'a dbus_proxy_scheme \<Rightarrow> 'a dbus_proxy_scheme" where
  "setConnection slots isConnected lastError s = ap_update slots (s\<lparr>ap_connection := Some isConnected, ap_connectionError := lastError\<rparr>)"

definition setDisconnected :: "'a dbus_proxy_scheme proxy_slots \<Rightarrow> 'a dbus_proxy_scheme \<Rightarrow> 'a dbus_proxy_scheme" where
  "setDisconnected slots s = ap_update slots (s\<lparr>ap_connection := None, ap_path := []\<rparr>)"

definition setObjectPath :: "'a dbus_proxy_scheme proxy_slots \<Rightarrow> string \<Rightarrow> 'a dbus_proxy_scheme \<Rightarrow> 'a dbus_proxy_scheme" where
  "setObjectPath slots path s = ap_update slots (s\<lparr>ap_path := path\<rparr>)"

definition queueCall ::
    "'a dbus_proxy_scheme proxy_slots \<Rightarrow> string \<Rightarrow> qvariant list \<Rightarrow> string option \<Rightarrow> string option \<Rightarrow> 'a dbus_proxy_scheme \<Rightarrow> nat \<times> 'a dbus_proxy_scheme" where
  "queueCall slots meth args replySlot errorSlot s0 =
     (let n = ap_nextCall s0;
          s = set_call n \<lparr>pc_meth = meth, pc_args = args, pc_replySlot = replySlot, pc_errorSlot = errorSlot, pc_watcher = False,
                pc_interface = 0, pc_interfaceWasDestroyed = False\<rparr> (s0\<lparr>ap_nextCall := n + 1\<rparr>)
      in (n, case ap_status s of
           Ready \<Rightarrow> (case ap_interface s of None \<Rightarrow> s\<lparr>ap_fault := True\<rparr> | Some interface \<Rightarrow> doCall interface n s)
         | Incomplete \<Rightarrow> enqueue slots n s
         | Invalid \<Rightarrow> ap_post (PostedFail n (ap_lastError s)) s))"

definition ap_connect :: "string \<Rightarrow> 'a dbus_proxy_scheme \<Rightarrow> 'a dbus_proxy_scheme" where
  "ap_connect name s0 =
     (let s = s0\<lparr>ap_connectionsQueue := ap_connectionsQueue s0 @ [name]\<rparr>
      in if ap_status s = Ready
         then case ap_interface s of None \<Rightarrow> s\<lparr>ap_fault := True\<rparr> | Some interface \<Rightarrow> ap_emit (SignalConnected interface name) s
         else s)"

text \<open>What the event loop does next for the proxy.\<close>

definition event_loop :: "'a dbus_proxy_scheme proxy_slots \<Rightarrow> 'a dbus_proxy_scheme \<Rightarrow> 'a dbus_proxy_scheme" where
  "event_loop slots s =
     (case ap_posted s of
        [] \<Rightarrow> s
      | PostedFail n err # es \<Rightarrow> pc_fail slots n err (s\<lparr>ap_posted := es\<rparr>)
      | PostedDelete n # es \<Rightarrow> s\<lparr>ap_posted := es, ap_calls := qh_remove n (ap_calls s)\<rparr>)"

section \<open>Events\<close>

datatype proxy_event =
    ConnectionArrives bool dbus_error
  | ConnectionLost
  | PathArrives string
  | BusDrops dbus_error
  | ErrorArrives dbus_error
  | ClientCalls string "qvariant list" "string option" "string option"
  | ClientConnects string
  | ClientCancels nat
  | ReplyArrives nat "dbus_error + qvariant list"
  | EventLoop

fun proxy_step :: "'a dbus_proxy_scheme proxy_slots \<Rightarrow> proxy_event \<Rightarrow> 'a dbus_proxy_scheme \<Rightarrow> 'a dbus_proxy_scheme" where
  "proxy_step slots (ConnectionArrives isConnected err) s = setConnection slots isConnected err s"
| "proxy_step slots ConnectionLost s = setDisconnected slots s"
| "proxy_step slots (PathArrives path) s = setObjectPath slots path s"
| "proxy_step slots (BusDrops err) s = s\<lparr>ap_connection := map_option (\<lambda>_. False) (ap_connection s), ap_connectionError := err\<rparr>"
| "proxy_step slots (ErrorArrives err) s = ap_setError slots err s"
| "proxy_step slots (ClientCalls meth args replySlot errorSlot) s = snd (queueCall slots meth args replySlot errorSlot s)"
| "proxy_step slots (ClientConnects name) s = ap_connect name s"
| "proxy_step slots (ClientCancels n) s = snd (pc_cancel slots n s)"
| "proxy_step slots (ReplyArrives n watcher) s = (if n \<in> set (ap_inFlight s) then pc_onFinished slots n watcher s else s)"
| "proxy_step slots EventLoop s = event_loop slots s"

text \<open>A client cancels a call that is waiting or under way.\<close>

definition orderly_call :: "proxy_event \<Rightarrow> 'a dbus_proxy_scheme \<Rightarrow> bool" where
  "orderly_call e s = (case e of ClientCancels n \<Rightarrow> n \<in> set (ap_operationsQueue s) \<union> set (ap_inFlight s) | _ \<Rightarrow> True)"

text \<open>A client that only takes note of what its slots are called with.\<close>

definition note_slots :: "dbus_proxy proxy_slots" where
  "note_slots = \<lparr>on_error = \<lambda>n slot err. ap_emit (ErrorTo n err), on_success = \<lambda>n slot reply. ap_emit (SuccessTo n reply),
     on_finished = \<lambda>n slot watcher. ap_emit (FinishedTo n watcher), on_connectionNeeded = ap_emit ConnectionNeeded,
     on_objectPathNeeded = ap_emit ObjectPathNeeded\<rparr>"

inductive proxy_reachable :: "dbus_proxy \<Rightarrow> bool" where
  start: "proxy_reachable AsyncDBusProxy"
| step: "proxy_reachable s \<Longrightarrow> orderly_call e s \<Longrightarrow> proxy_reachable (proxy_step note_slots e s)"

section \<open>Where the calls are\<close>

fun failing :: "posted list \<Rightarrow> nat list" where
  "failing [] = []"
| "failing (PostedFail n _ # es) = n # failing es"
| "failing (PostedDelete _ # es) = failing es"

lemma failing_append [simp]: "failing (xs @ ys) = failing xs @ failing ys"
  by (induction xs rule: failing.induct) simp_all

definition places :: "'a dbus_proxy_scheme \<Rightarrow> nat multiset" where
  "places s = mset (ap_operationsQueue s) + mset (ap_inFlight s) + mset (failing (ap_posted s)) + mset (ap_finished s)"

text \<open>The calls of \<open>X\<close> are nowhere; between the events of the proxy there are none.\<close>

definition lacks :: "nat multiset \<Rightarrow> 'a dbus_proxy_scheme \<Rightarrow> bool" where
  "lacks X s \<longleftrightarrow> places s + X = mset_set {0..<ap_nextCall s} \<and> (ap_status s = Ready \<longrightarrow> ap_interface s \<noteq> None) \<and> \<not> ap_fault s
     \<and> (\<forall>n. PostedDelete n \<in> set (ap_posted s) \<longrightarrow> n \<in> set (ap_finished s) \<or> n \<in># X)
     \<and> (\<forall>n \<in> set (ap_inFlight s). pc_watcher (the_call n s))"

abbreviation all_placed :: "'a dbus_proxy_scheme \<Rightarrow> bool" where
  "all_placed \<equiv> lacks {#}"

lemma the_call_set: "the_call m (set_call n c s) = (if m = n then c else the_call m s)"
  by (simp add: the_call_def set_call_def qh_value_def)

lemma the_call_cong: "ap_calls t = ap_calls s \<Longrightarrow> the_call n t = the_call n s"
  by (simp add: the_call_def)

lemma destroyed_watcher: "pc_watcher (the_call n (onInterfaceDestroyed i s)) = pc_watcher (the_call n s)"
proof -
  have "map_of (map (\<lambda>(n, c). (n, f c)) xs) n = map_option f (map_of xs n)" for f :: "async_call \<Rightarrow> async_call" and xs :: "(nat \<times> async_call) list"
    by (induction xs) auto
  then show ?thesis
    by (simp add: the_call_def onInterfaceDestroyed_def qh_value_def split: option.split)
qed

text \<open>Two states of a client that agree on the proxy, but for what it has sent.\<close>

definition same_proxy :: "'a dbus_proxy_scheme \<Rightarrow> 'a dbus_proxy_scheme \<Rightarrow> bool" where
  "same_proxy t s \<longleftrightarrow> ap_path t = ap_path s \<and> ap_connection t = ap_connection s \<and> ap_connectionError t = ap_connectionError s
     \<and> ap_operationsQueue t = ap_operationsQueue s \<and> ap_connectionsQueue t = ap_connectionsQueue s \<and> ap_interface t = ap_interface s
     \<and> ap_status t = ap_status s \<and> ap_lastError t = ap_lastError s \<and> ap_calls t = ap_calls s \<and> ap_nextCall t = ap_nextCall s
     \<and> ap_nextInterface t = ap_nextInterface s \<and> ap_posted t = ap_posted s \<and> ap_inFlight t = ap_inFlight s
     \<and> ap_finished t = ap_finished s \<and> ap_fault t = ap_fault s"

lemma same_fields:
  assumes "same_proxy t s"
  shows "ap_path t = ap_path s" "ap_connection t = ap_connection s" "ap_connectionError t = ap_connectionError s"
    "ap_operationsQueue t = ap_operationsQueue s" "ap_connectionsQueue t = ap_connectionsQueue s" "ap_interface t = ap_interface s"
    "ap_status t = ap_status s" "ap_lastError t = ap_lastError s" "ap_calls t = ap_calls s" "ap_nextCall t = ap_nextCall s"
    "ap_nextInterface t = ap_nextInterface s" "ap_posted t = ap_posted s" "ap_inFlight t = ap_inFlight s"
    "ap_finished t = ap_finished s" "ap_fault t = ap_fault s"
    "lacks X t = lacks X s" "places t = places s" "the_call n t = the_call n s"
  using assms by (simp_all add: same_proxy_def lacks_def places_def the_call_def)

lemma same_emit: "same_proxy (ap_emit e s) s"
  by (simp add: same_proxy_def ap_emit_def)

lemmas emit_fields [simp] = same_fields [OF same_emit]

lemma count_places: "lacks X s \<Longrightarrow> count (places s) n + count X n \<le> 1"
proof -
  assume "lacks X s"
  then have "count (places s + X) n = count (mset_set {0..<ap_nextCall s}) n" by (simp add: lacks_def)
  then show ?thesis by (simp add: count_mset_set')
qed

lemma places_lists:
  "n \<in># places s \<longleftrightarrow> n \<in> set (ap_operationsQueue s) \<union> set (ap_inFlight s) \<union> set (failing (ap_posted s)) \<union> set (ap_finished s)"
  by (auto simp: places_def)

lemma not_waiting: "lacks (add_mset n X) s \<Longrightarrow> n \<notin> set (ap_operationsQueue s)"
  using count_places [of "add_mset n X" s n] places_lists [of n s] by (auto simp: count_eq_zero_iff)

lemma take_waiting:
  assumes "lacks X s" and "n \<in> set (ap_operationsQueue s)"
  shows "lacks (add_mset n X) (s\<lparr>ap_operationsQueue := remove1 n (ap_operationsQueue s)\<rparr>)"
proof -
  have "mset (ap_operationsQueue s) = add_mset n (mset (remove1 n (ap_operationsQueue s)))"
    using assms(2) by simp
  then have "places s + X = places (s\<lparr>ap_operationsQueue := remove1 n (ap_operationsQueue s)\<rparr>) + add_mset n X"
    unfolding places_def by (simp add: ac_simps del: mset_remove1)
  then show ?thesis using assms(1) by (auto simp: lacks_def the_call_def)
qed

lemma do_all:
  "let t = fold (doCall i) ns s in ap_operationsQueue t = ap_operationsQueue s \<and> ap_inFlight t = ap_inFlight s @ ns
     \<and> ap_posted t = ap_posted s \<and> ap_finished t = ap_finished s \<and> ap_nextCall t = ap_nextCall s \<and> ap_status t = ap_status s
     \<and> ap_interface t = ap_interface s \<and> ap_fault t = ap_fault s
     \<and> (\<forall>n. pc_watcher (the_call n s) \<or> n \<in> set ns \<longrightarrow> pc_watcher (the_call n t))"
proof (induction ns arbitrary: s)
  case (Cons n ns)
  have "pc_watcher (the_call m (doCall i n s)) \<longleftrightarrow> m = n \<or> pc_watcher (the_call m s)" for m
    by (simp add: doCall_def Let_def the_call_def set_call_def qh_value_def ap_emit_def)
  moreover have "ap_operationsQueue (doCall i n s) = ap_operationsQueue s \<and> ap_inFlight (doCall i n s) = ap_inFlight s @ [n]
     \<and> ap_posted (doCall i n s) = ap_posted s \<and> ap_finished (doCall i n s) = ap_finished s \<and> ap_nextCall (doCall i n s) = ap_nextCall s
     \<and> ap_status (doCall i n s) = ap_status s \<and> ap_interface (doCall i n s) = ap_interface s \<and> ap_fault (doCall i n s) = ap_fault s"
    by (simp add: doCall_def set_call_def ap_emit_def Let_def)
  ultimately show ?case using Cons.IH [of "doCall i n s"] by (auto simp: Let_def)
qed simp

lemma sound_status: "lacks X s \<Longrightarrow> st \<noteq> Ready \<Longrightarrow> lacks X (s\<lparr>ap_status := st\<rparr>)"
  by (simp add: lacks_def places_def the_call_def)

lemma connect_all:
  "\<exists>es. fold (\<lambda>c. ap_emit (SignalConnected i c)) cs s = s\<lparr>ap_outputs := es\<rparr>"
proof (induction cs arbitrary: s)
  case Nil
  have "s = s\<lparr>ap_outputs := ap_outputs s\<rparr>" by simp
  then show ?case by (simp only: fold.simps id_apply) blast
next
  case (Cons c cs)
  then obtain es where "fold (\<lambda>c. ap_emit (SignalConnected i c)) cs (ap_emit (SignalConnected i c) s) = (ap_emit (SignalConnected i c) s)\<lparr>ap_outputs := es\<rparr>"
    by blast
  moreover have "(ap_emit (SignalConnected i c) s)\<lparr>ap_outputs := es\<rparr> = s\<lparr>ap_outputs := es\<rparr>" for es by (simp add: ap_emit_def)
  ultimately show ?case by auto
qed

lemma ready_sound:
  assumes "lacks X s" and "ap_interface s = Some i"
  shows "lacks X (setStatus slots Ready s) \<and> ap_operationsQueue (setStatus slots Ready s) = []
    \<and> ap_inFlight (setStatus slots Ready s) = ap_inFlight s @ ap_operationsQueue s"
proof -
  obtain es where es: "fold (\<lambda>c. ap_emit (SignalConnected i c)) (ap_connectionsQueue s) (s\<lparr>ap_status := Ready\<rparr>) = s\<lparr>ap_status := Ready, ap_outputs := es\<rparr>"
    using connect_all [of i "ap_connectionsQueue s" "s\<lparr>ap_status := Ready\<rparr>"] by auto
  let ?u = "s\<lparr>ap_status := Ready, ap_outputs := es\<rparr>"
  define t where "t = fold (doCall i) (ap_operationsQueue s) ?u"
  have t: "setStatus slots Ready s = t\<lparr>ap_operationsQueue := []\<rparr>"
    using assms(2) by (simp add: setStatus_def es t_def)
  have d: "ap_operationsQueue t = ap_operationsQueue s" "ap_inFlight t = ap_inFlight s @ ap_operationsQueue s" "ap_posted t = ap_posted s"
      "ap_finished t = ap_finished s" "ap_nextCall t = ap_nextCall s" "ap_status t = Ready" "ap_interface t = Some i" "ap_fault t = ap_fault s"
      "\<forall>n. pc_watcher (the_call n ?u) \<or> n \<in> set (ap_operationsQueue s) \<longrightarrow> pc_watcher (the_call n t)"
    using do_all [of i "ap_operationsQueue s" ?u] assms(2) unfolding t_def [symmetric] Let_def by simp_all
  have "the_call n ?u = the_call n s" for n by (simp add: the_call_def)
  then have "\<forall>n \<in> set (ap_inFlight t). pc_watcher (the_call n (t\<lparr>ap_operationsQueue := []\<rparr>))"
    using d(2,9) assms(1) by (auto simp: lacks_def the_call_cong [of "t\<lparr>ap_operationsQueue := []\<rparr>" t])
  moreover have "places (t\<lparr>ap_operationsQueue := []\<rparr>) = places s"
    using d by (simp add: places_def)
  ultimately show ?thesis
    using assms(1) d unfolding t by (simp add: lacks_def)
qed

lemma placed: "all_placed s \<Longrightarrow> n \<in># places s \<longleftrightarrow> n < ap_nextCall s"
  by (simp add: lacks_def)

lemma in_flight_once:
  assumes "lacks X s" and "n \<in> set (ap_inFlight s)"
  shows "n \<notin> set (ap_finished s) \<and> n \<notin># X"
proof -
  have "0 < count (mset (ap_inFlight s)) n" using assms(2) by (simp add: count_greater_zero_iff)
  then have "count (mset (ap_finished s)) n = 0" "count X n = 0"
    using count_places [OF assms(1), of n] unfolding places_def count_union by linarith+
  then show ?thesis by (simp add: count_eq_zero_iff)
qed

lemma take_in_flight:
  assumes "lacks X s" and "n \<in> set (ap_inFlight s)"
  shows "lacks (add_mset n X) (s\<lparr>ap_inFlight := remove1 n (ap_inFlight s)\<rparr>) \<and> PostedDelete n \<notin> set (ap_posted s)"
proof -
  have "mset (ap_inFlight s) = add_mset n (mset (remove1 n (ap_inFlight s)))" using assms(2) by simp
  then have "places s + X = places (s\<lparr>ap_inFlight := remove1 n (ap_inFlight s)\<rparr>) + add_mset n X"
    unfolding places_def by (simp add: ac_simps del: mset_remove1)
  moreover have "set (remove1 n (ap_inFlight s)) \<subseteq> set (ap_inFlight s)" by (rule set_remove1_subset)
  ultimately have "lacks (add_mset n X) (s\<lparr>ap_inFlight := remove1 n (ap_inFlight s)\<rparr>)"
    using assms(1) by (auto simp: lacks_def the_call_def)
  then show ?thesis using in_flight_once [OF assms] assms(1) by (auto simp: lacks_def)
qed

lemma new_call:
  assumes "lacks X s" and "n = ap_nextCall s"
  shows "lacks (add_mset n X) (set_call n c (s\<lparr>ap_nextCall := n + 1\<rparr>)) \<and> n \<notin> set (ap_finished s) \<and> n \<notin># X"
proof -
  let ?t = "set_call n c (s\<lparr>ap_nextCall := n + 1\<rparr>)"
  have all: "places s + X = mset_set {0..<n}" using assms by (simp add: lacks_def)
  have small: "m < n" if "m \<in># places s + X" for m using that unfolding all by simp
  have "m \<noteq> n" if "m \<in> set (ap_inFlight s) \<union> set (ap_finished s)" for m
    using small [of m] that by (auto simp: places_lists)
  moreover have "n \<notin># X" using small [of n] by auto
  moreover have "places ?t + add_mset n X = add_mset n (places s + X)"
    by (simp add: places_def set_call_def)
  ultimately show ?thesis
    using assms by (auto simp: lacks_def set_call_def the_call_def qh_value_def atLeast0_lessThan_Suc)
qed

lemma mset_set_list:
  assumes "mset xs = mset_set A" and "finite A"
  shows "distinct xs \<and> set xs = A"
proof -
  have "set xs = A" using assms by (metis finite_set_mset_mset_set set_mset_mset)
  moreover have "count (mset xs) a = (if a \<in> set xs then 1 else 0)" for a
    using assms \<open>set xs = A\<close> by (simp add: count_mset_set')
  ultimately show ?thesis using distinct_count_atmost_1 by blast
qed

section \<open>Clients whose slots leave the proxy alone\<close>

locale polite_slots =
  fixes slots :: "'a dbus_proxy_scheme proxy_slots"
  assumes polite_error: "same_proxy (on_error slots n slot err s) s"
    and polite_success: "same_proxy (on_success slots n slot reply s) s"
    and polite_finished: "same_proxy (on_finished slots n slot watcher s) s"
    and polite_connection: "same_proxy (on_connectionNeeded slots s) s"
    and polite_path: "same_proxy (on_objectPathNeeded slots s) s"
begin

lemmas error_fields [simp] = same_fields [OF polite_error]
lemmas success_fields [simp] = same_fields [OF polite_success]
lemmas finished_fields [simp] = same_fields [OF polite_finished]
lemmas connection_fields [simp] = same_fields [OF polite_connection]
lemmas path_fields [simp] = same_fields [OF polite_path]

lemma emit_slots [simp]:
  "lacks X (emit_success slots n reply s) = lacks X s" "lacks X (emit_error slots n err s) = lacks X s" "ap_lastError (emit_error slots n err s) = ap_lastError s"
  "ap_operationsQueue (emit_error slots n err s) = ap_operationsQueue s" "ap_operationsQueue (emit_success slots n reply s) = ap_operationsQueue s"
  by (simp_all add: emit_error_def emit_success_def split: option.split)

lemma finished_sound:
  assumes "lacks (add_mset n X) s"
  shows "lacks X (emit_finished slots n w s) \<and> ap_operationsQueue (emit_finished slots n w s) = ap_operationsQueue s"
proof -
  have "remove1 n (ap_operationsQueue s) = ap_operationsQueue s" using not_waiting [OF assms] by (rule remove1_idem)
  then have "lacks X (onCallFinished n (s\<lparr>ap_finished := ap_finished s @ [n]\<rparr>))
      \<and> ap_operationsQueue (onCallFinished n (s\<lparr>ap_finished := ap_finished s @ [n]\<rparr>)) = ap_operationsQueue s"
    using assms by (auto simp: onCallFinished_def ap_post_def lacks_def places_def the_call_def)
  then show ?thesis
    by (simp add: emit_finished_def Let_def split: option.split)
qed

lemma finished_waiting:
  assumes "lacks X s" and "n \<in> set (ap_operationsQueue s)"
  shows "lacks X (emit_finished slots n w s) \<and> ap_operationsQueue (emit_finished slots n w s) = remove1 n (ap_operationsQueue s)"
proof -
  let ?t = "s\<lparr>ap_operationsQueue := remove1 n (ap_operationsQueue s)\<rparr>"
  have but: "lacks (add_mset n X) ?t" by (rule take_waiting [OF assms])
  then have "remove1 n (remove1 n (ap_operationsQueue s)) = remove1 n (ap_operationsQueue s)"
    using not_waiting [OF but] by (simp add: remove1_idem)
  then have "emit_finished slots n w s = emit_finished slots n w ?t"
    by (simp add: emit_finished_def onCallFinished_def ap_post_def Let_def the_call_def ap_emit_def)
  then show ?thesis using finished_sound [OF but] by simp
qed

lemma fail_all:
  assumes "lacks X s" and "ap_operationsQueue s = ns"
  shows "lacks X (fold (\<lambda>n s. pc_fail slots n (ap_lastError s) s) ns s)
    \<and> ap_operationsQueue (fold (\<lambda>n s. pc_fail slots n (ap_lastError s) s) ns s) = []"
  using assms
proof (induction ns arbitrary: s)
  case (Cons n ns)
  have "lacks X (pc_fail slots n (ap_lastError s) s) \<and> ap_operationsQueue (pc_fail slots n (ap_lastError s) s) = ns"
    using finished_waiting [of X "emit_error slots n (ap_lastError s) s" n None] Cons.prems by (simp add: pc_fail_def)
  then show ?case using Cons.IH [of "pc_fail slots n (ap_lastError s) s"] by simp
qed simp

lemma invalid_sound:
  assumes "lacks X s"
  shows "lacks X (setStatus slots Invalid s) \<and> ap_operationsQueue (setStatus slots Invalid s) = []"
proof -
  have "lacks X (s\<lparr>ap_status := Invalid\<rparr>)" using sound_status [OF assms, of Invalid] by simp
  note all = fail_all [OF this, of "ap_operationsQueue s", simplified]
  have "t\<lparr>ap_operationsQueue := []\<rparr> = t" if "ap_operationsQueue t = []" for t :: "'a dbus_proxy_scheme" using that by (cases t) simp
  then have "setStatus slots Invalid s = fold (\<lambda>n s. pc_fail slots n (ap_lastError s) s) (ap_operationsQueue s) (s\<lparr>ap_status := Invalid\<rparr>)"
    using all by (simp add: setStatus_def)
  then show ?thesis using all by simp
qed

lemma update_sound:
  assumes "lacks X (s\<lparr>ap_status := Incomplete\<rparr>)"
  shows "lacks X (ap_update slots s)"
proof -
  define t where "t = (case ap_interface s of None \<Rightarrow> s | Some i \<Rightarrow> (onInterfaceDestroyed i s)\<lparr>ap_interface := None\<rparr>)"
  have watch: "pc_watcher (the_call n t) = pc_watcher (the_call n s)" for n
    using destroyed_watcher [of n _ s] by (simp add: t_def the_call_cong [of "ap_interface_update _ _"] split: option.split)
  have fields: "places t = places s" "ap_nextCall t = ap_nextCall s" "ap_fault t = ap_fault s" "ap_posted t = ap_posted s"
      "ap_finished t = ap_finished s" "ap_inFlight t = ap_inFlight s"
    by (simp_all add: t_def onInterfaceDestroyed_def places_def split: option.split)
  have base: "lacks X (t\<lparr>ap_status := st\<rparr>)" if "st \<noteq> Ready" for st
    using assms fields watch that
    by (simp add: lacks_def places_def the_call_cong [of "ap_status_update _ _"])
  have inc: "lacks X (setStatus slots Incomplete t)" using base [of Incomplete] by (simp add: setStatus_def)
  have err: "lacks X (ap_setError slots (ap_connectionError t) t)"
  proof -
    have "lacks X ((t\<lparr>ap_status := Incomplete\<rparr>)\<lparr>ap_lastError := e\<rparr>)" for e
      using base [of Incomplete] by (simp add: lacks_def places_def the_call_def)
    from invalid_sound [OF this] show ?thesis by (simp add: ap_setError_def setStatus_def)
  qed
  have ok: "lacks X (setStatus slots Ready (t\<lparr>ap_interface := Some i, ap_nextInterface := j\<rparr>))" for i j
  proof -
    have "lacks X (t\<lparr>ap_status := Incomplete, ap_interface := Some i, ap_nextInterface := j\<rparr>)"
      using base [of Incomplete] by (simp add: lacks_def places_def the_call_def)
    from ready_sound [OF this] show ?thesis by (simp add: setStatus_def)
  qed
  show ?thesis
    unfolding ap_update_def Let_def t_def [symmetric] using inc err ok by simp
qed

lemma enqueue_sound:
  assumes "lacks (add_mset n X) s" and "PostedDelete n \<notin> set (ap_posted s)"
  shows "lacks X (enqueue slots n s)"
proof -
  have "lacks X (s\<lparr>ap_operationsQueue := ap_operationsQueue s @ [n]\<rparr>)"
    using assms by (auto simp: lacks_def places_def the_call_def)
  then show ?thesis by (simp add: enqueue_def Let_def)
qed

lemma reply_sound:
  assumes "lacks X s" and "n \<in> set (ap_inFlight s)"
  shows "lacks X (pc_onFinished slots n w s)"
proof -
  let ?s = "s\<lparr>ap_inFlight := remove1 n (ap_inFlight s)\<rparr>"
  have but: "lacks (add_mset n X) ?s" "PostedDelete n \<notin> set (ap_posted ?s)" using take_in_flight [OF assms] by simp_all
  show ?thesis
    using finished_sound [of n X "emit_error slots n err ?s" for err] finished_sound [of n X "emit_success slots n reply ?s" for reply]
      enqueue_sound [OF but] but(1)
    by (simp add: pc_onFinished_def onRequeueRequested_def Let_def split: sum.split)
qed

lemma call_sound: "lacks X s \<Longrightarrow> lacks X (snd (queueCall slots meth args r e s))"
proof -
  assume s: "lacks X s"
  define c where "c = \<lparr>pc_meth = meth, pc_args = args, pc_replySlot = r, pc_errorSlot = e, pc_watcher = False, pc_interface = 0,
    pc_interfaceWasDestroyed = False\<rparr>"
  define n where "n = ap_nextCall s"
  define t where "t = set_call n c (s\<lparr>ap_nextCall := n + 1\<rparr>)"
  have t: "lacks (add_mset n X) t" "PostedDelete n \<notin> set (ap_posted t)" "ap_status t = ap_status s" "ap_interface t = ap_interface s"
    using new_call [OF s n_def, of c] s by (auto simp: t_def set_call_def lacks_def)
  have "lacks X (doCall i n t)" for i
    using t(1,2) by (simp add: doCall_def Let_def) (auto simp: lacks_def places_def set_call_def the_call_def qh_value_def)
  moreover have "lacks X (ap_post (PostedFail n (ap_lastError t)) t)"
    using t(1,2) by (auto simp: ap_post_def lacks_def places_def the_call_def)
  moreover have "ap_status s = Ready \<Longrightarrow> ap_interface s \<noteq> None" using s by (simp add: lacks_def)
  moreover have "snd (queueCall slots meth args r e s) = (case ap_status t of
        Ready \<Rightarrow> (case ap_interface t of None \<Rightarrow> t\<lparr>ap_fault := True\<rparr> | Some interface \<Rightarrow> doCall interface n t)
      | Incomplete \<Rightarrow> enqueue slots n t | Invalid \<Rightarrow> ap_post (PostedFail n (ap_lastError t)) t)"
    unfolding queueCall_def Let_def t_def c_def n_def snd_conv by (rule refl)
  ultimately show ?thesis
    using enqueue_sound [OF t(1,2)] t(3,4) by (auto split: proxy_status.split option.split)
qed

lemma loop_sound: "lacks X s \<Longrightarrow> lacks X (event_loop slots s)"
proof (cases "ap_posted s")
  case (Cons e es)
  assume s: "lacks X s"
  show ?thesis
  proof (cases e)
    case (PostedFail n err)
    have "lacks (add_mset n X) (s\<lparr>ap_posted := es\<rparr>)"
      using s Cons PostedFail by (auto simp: lacks_def places_def the_call_def)
    then show ?thesis using finished_sound by (simp add: event_loop_def Cons PostedFail pc_fail_def)
  next
    case (PostedDelete n)
    have "n \<in> set (ap_finished s) \<or> n \<in># X" using s Cons PostedDelete by (simp add: lacks_def)
    then have "m \<noteq> n" if "m \<in> set (ap_inFlight s)" for m using in_flight_once [OF s that] by auto
    then show ?thesis
      using s by (auto simp: event_loop_def Cons PostedDelete lacks_def places_def the_call_def qh_value_def)
  qed
qed (simp add: event_loop_def)

lemma updates_sound:
  assumes "lacks X s"
  shows "lacks X (setConnection slots b err s)" "lacks X (setDisconnected slots s)" "lacks X (setObjectPath slots path s)"
proof -
  have "lacks X (s\<lparr>ap_connection := x, ap_connectionError := y, ap_status := Incomplete\<rparr>)"
    "lacks X (s\<lparr>ap_connection := x, ap_path := p, ap_status := Incomplete\<rparr>)" "lacks X (s\<lparr>ap_path := p, ap_status := Incomplete\<rparr>)" for x y p
    using assms by (simp_all add: lacks_def places_def the_call_def)
  then show "lacks X (setConnection slots b err s)" "lacks X (setDisconnected slots s)" "lacks X (setObjectPath slots path s)"
    by (simp_all add: setConnection_def setDisconnected_def setObjectPath_def update_sound)
qed

lemma step_sound:
  assumes "lacks X s" and "orderly_call e s"
  shows "lacks X (proxy_step slots e s)"
proof (cases e)
  case (ClientCancels n)
  then have "n \<in> set (ap_operationsQueue s) \<or> pc_watcher (the_call n s)" using assms by (auto simp: orderly_call_def lacks_def)
  then show ?thesis using assms(1) finished_waiting [of X s n None] by (auto simp: ClientCancels pc_cancel_def)
next
  case (ReplyArrives n w)
  then show ?thesis using assms(1) reply_sound by simp
next
  case (ErrorArrives err)
  have "lacks X (s\<lparr>ap_lastError := err\<rparr>)" using assms(1) by (simp add: lacks_def places_def the_call_def)
  then show ?thesis using invalid_sound by (simp add: ErrorArrives ap_setError_def)
next
  case (ClientConnects name)
  have "lacks X (s\<lparr>ap_connectionsQueue := xs\<rparr>)" for xs using assms(1) by (simp add: lacks_def places_def the_call_def)
  moreover have "ap_status s = Ready \<Longrightarrow> ap_interface s \<noteq> None" using assms(1) by (simp add: lacks_def)
  ultimately show ?thesis by (auto simp: ClientConnects ap_connect_def Let_def)
next
  case (BusDrops err)
  show ?thesis using assms(1) by (simp add: BusDrops lacks_def places_def the_call_def)
qed (use assms(1) in \<open>simp_all add: call_sound loop_sound updates_sound\<close>)

lemma update_ready:
  assumes "lacks X s" and "ap_connection s = Some True" and "ap_path s \<noteq> []"
  shows "ap_status (ap_update slots s) = Ready \<and> ap_operationsQueue (ap_update slots s) = [] \<and> ap_inFlight (ap_update slots s) = ap_inFlight s @ ap_operationsQueue s"
proof -
  define t where "t = (case ap_interface s of None \<Rightarrow> s | Some i \<Rightarrow> (onInterfaceDestroyed i s)\<lparr>ap_interface := None\<rparr>)"
  define u where "u = t\<lparr>ap_interface := Some (ap_nextInterface t), ap_nextInterface := ap_nextInterface t + 1\<rparr>"
  have t: "ap_connection t = Some True" "ap_path t \<noteq> []" "ap_inFlight t = ap_inFlight s" "ap_operationsQueue t = ap_operationsQueue s"
    using assms(2,3) by (simp_all add: t_def onInterfaceDestroyed_def split: option.split)
  have "ap_update slots s = setStatus slots Ready u"
    unfolding ap_update_def Let_def t_def [symmetric] u_def using t by simp
  moreover have "ap_status (setStatus slots Ready u) = Ready"
  proof -
    obtain es where es: "fold (\<lambda>c. ap_emit (SignalConnected (ap_nextInterface t) c)) (ap_connectionsQueue u) (u\<lparr>ap_status := Ready\<rparr>)
        = u\<lparr>ap_status := Ready, ap_outputs := es\<rparr>"
      using connect_all [of "ap_nextInterface t" "ap_connectionsQueue u" "u\<lparr>ap_status := Ready\<rparr>"] by auto
    then have "setStatus slots Ready u = (fold (doCall (ap_nextInterface t)) (ap_operationsQueue u) (u\<lparr>ap_status := Ready, ap_outputs := es\<rparr>))\<lparr>ap_operationsQueue := []\<rparr>"
      by (simp add: setStatus_def u_def)
    then show ?thesis
      using do_all [of "ap_nextInterface t" "ap_operationsQueue u" "u\<lparr>ap_status := Ready, ap_outputs := es\<rparr>"] by (simp add: Let_def)
  qed
  moreover have "lacks X (u\<lparr>ap_status := Incomplete\<rparr>)"
  proof -
    have "pc_watcher (the_call n u) = pc_watcher (the_call n s)" for n
      using destroyed_watcher [of n _ s]
      by (simp add: u_def t_def the_call_cong [of "ap_interface_update _ _"] the_call_cong [of "ap_nextInterface_update _ _"] split: option.split)
    moreover have "places u = places s" "ap_nextCall u = ap_nextCall s" "ap_fault u = ap_fault s" "ap_posted u = ap_posted s"
        "ap_finished u = ap_finished s" "ap_inFlight u = ap_inFlight s"
      by (simp_all add: u_def t_def onInterfaceDestroyed_def places_def split: option.split)
    ultimately show ?thesis
      using assms(1) by (simp add: lacks_def places_def the_call_cong [of "ap_status_update _ _"])
  qed
  then have "ap_operationsQueue (setStatus slots Ready u) = [] \<and> ap_inFlight (setStatus slots Ready u) = ap_inFlight s @ ap_operationsQueue s"
    using ready_sound [of X "u\<lparr>ap_status := Incomplete\<rparr>" "ap_nextInterface t"] t(3,4) by (simp add: u_def setStatus_def)
  ultimately show ?thesis by simp
qed

end

section \<open>What the client adds to the state of the proxy\<close>

text \<open>A property of the client's own fields that its slots keep is kept by every operation of the proxy.\<close>

locale slot_invariant =
  fixes slots :: "'a dbus_proxy_scheme proxy_slots" and P :: "'a \<Rightarrow> bool"
  assumes inv_error: "P (dbus_proxy.more s) \<Longrightarrow> P (dbus_proxy.more (on_error slots n slot err s))"
    and inv_success: "P (dbus_proxy.more s) \<Longrightarrow> P (dbus_proxy.more (on_success slots n slot reply s))"
    and inv_finished: "P (dbus_proxy.more s) \<Longrightarrow> P (dbus_proxy.more (on_finished slots n slot watcher s))"
    and inv_connection: "P (dbus_proxy.more s) \<Longrightarrow> P (dbus_proxy.more (on_connectionNeeded slots s))"
    and inv_path: "P (dbus_proxy.more s) \<Longrightarrow> P (dbus_proxy.more (on_objectPathNeeded slots s))"
begin

lemma inv_calls:
  assumes "P (dbus_proxy.more s)"
  shows "P (dbus_proxy.more (emit_finished slots n w s))" "P (dbus_proxy.more (emit_error slots n err s))"
    "P (dbus_proxy.more (emit_success slots n reply s))" "P (dbus_proxy.more (pc_fail slots n err s))" "P (dbus_proxy.more (enqueue slots n s))"
proof -
  have fin: "P (dbus_proxy.more (emit_finished slots n w s))" if "P (dbus_proxy.more s)" for s
    using that by (simp add: emit_finished_def onCallFinished_def ap_post_def Let_def inv_finished split: option.split)
  have err: "P (dbus_proxy.more (emit_error slots n err s))" if "P (dbus_proxy.more s)" for s
    using that by (simp add: emit_error_def inv_error split: option.split)
  show "P (dbus_proxy.more (emit_finished slots n w s))" "P (dbus_proxy.more (emit_error slots n err s))" "P (dbus_proxy.more (pc_fail slots n err s))"
    using assms fin [of s] err [of s]
    by (simp_all add: pc_fail_def) (simp add: emit_finished_def onCallFinished_def ap_post_def Let_def inv_finished split: option.split)
  show "P (dbus_proxy.more (emit_success slots n reply s))"
    using assms by (simp add: emit_success_def inv_success split: option.split)
  show "P (dbus_proxy.more (enqueue slots n s))"
    using assms by (simp add: enqueue_def Let_def inv_connection inv_path)
qed

lemma inv_folds:
  assumes "P (dbus_proxy.more s)"
  shows "P (dbus_proxy.more (fold (doCall i) ns s))" "P (dbus_proxy.more (fold (\<lambda>c. ap_emit (SignalConnected i c)) cs s))"
    "P (dbus_proxy.more (fold (\<lambda>n s. pc_fail slots n (ap_lastError s) s) ns s))"
proof -
  have "P (dbus_proxy.more (doCall i n s)) = P (dbus_proxy.more s)" for n s by (simp add: doCall_def set_call_def ap_emit_def Let_def)
  then show "P (dbus_proxy.more (fold (doCall i) ns s))" using assms by (induction ns arbitrary: s) simp_all
  show "P (dbus_proxy.more (fold (\<lambda>c. ap_emit (SignalConnected i c)) cs s))"
    using assms by (induction cs arbitrary: s) (simp_all add: ap_emit_def)
  show "P (dbus_proxy.more (fold (\<lambda>n s. pc_fail slots n (ap_lastError s) s) ns s))"
    using assms by (induction ns arbitrary: s) (simp_all add: inv_calls)
qed

lemma inv_status: "P (dbus_proxy.more s) \<Longrightarrow> P (dbus_proxy.more (setStatus slots st s))"
  by (simp add: setStatus_def Let_def inv_folds split: option.split)

lemma inv_update: "P (dbus_proxy.more s) \<Longrightarrow> P (dbus_proxy.more (ap_update slots s))"
  by (simp add: ap_update_def ap_setError_def onInterfaceDestroyed_def Let_def inv_status split: option.split)

lemma inv_settings:
  assumes "P (dbus_proxy.more s)"
  shows "P (dbus_proxy.more (setConnection slots b err s))" "P (dbus_proxy.more (setDisconnected slots s))"
    "P (dbus_proxy.more (setObjectPath slots path s))"
  using assms by (simp_all add: setConnection_def setDisconnected_def setObjectPath_def inv_update)

lemma inv_queueCall: "P (dbus_proxy.more s) \<Longrightarrow> P (dbus_proxy.more (snd (queueCall slots meth args r e s)))"
  by (simp add: queueCall_def Let_def set_call_def inv_calls ap_post_def doCall_def ap_emit_def split: proxy_status.split option.split)

lemma inv_events:
  assumes "P (dbus_proxy.more s)"
  shows "P (dbus_proxy.more (pc_onFinished slots n w s))" "P (dbus_proxy.more (event_loop slots s))"
  using assms
  by (simp_all add: pc_onFinished_def onRequeueRequested_def event_loop_def Let_def inv_calls split: sum.split list.split posted.split)

end

section \<open>Properties\<close>

lemma note_polite: "same_proxy (on_error note_slots n slot err s) s" "same_proxy (on_success note_slots n slot reply s) s"
  "same_proxy (on_finished note_slots n slot watcher s) s" "same_proxy (on_connectionNeeded note_slots s) s"
  "same_proxy (on_objectPathNeeded note_slots s) s"
  by (simp_all add: note_slots_def same_emit)

interpretation noted: polite_slots note_slots
  by unfold_locales (rule note_polite)+

lemma start_sound: "all_placed AsyncDBusProxy"
  by (simp add: lacks_def AsyncDBusProxy_def places_def)

lemma reachable_sound: "proxy_reachable s \<Longrightarrow> all_placed s"
  by (induction rule: proxy_reachable.induct) (simp_all add: start_sound noted.step_sound)

text \<open>C30: No call of the client library is lost or finished twice. In every run in which the client cancels only
  calls that are waiting or under way, each call made so far is in one place: queued, sent and not answered,
  posted to fail, or finished, and this once; and no interface that is \<open>NULL\<close> is used. When the connection
  and the object path are there, an update sends all queued calls in the order of the queue.\<close>

theorem calls_are_accounted_for:
  assumes "proxy_reachable s"
  shows "distinct (ap_operationsQueue s @ ap_inFlight s @ failing (ap_posted s) @ ap_finished s)
    \<and> set (ap_operationsQueue s @ ap_inFlight s @ failing (ap_posted s) @ ap_finished s) = {0..<ap_nextCall s} \<and> \<not> ap_fault s
    \<and> (ap_connection s = Some True \<and> ap_path s \<noteq> [] \<longrightarrow>
        ap_operationsQueue (ap_update note_slots s) = [] \<and> ap_inFlight (ap_update note_slots s) = ap_inFlight s @ ap_operationsQueue s)"
proof -
  note s = reachable_sound [OF assms]
  have "mset (ap_operationsQueue s @ ap_inFlight s @ failing (ap_posted s) @ ap_finished s) = mset_set {0..<ap_nextCall s}"
    using s by (simp add: lacks_def places_def ac_simps)
  from mset_set_list [OF this] show ?thesis
    using s noted.update_ready [OF s] by (simp add: lacks_def)
qed

lemma run_reachable:
  assumes "proxy_reachable s" and "list_all (\<lambda>e. \<forall>s :: dbus_proxy. orderly_call e s) es"
  shows "proxy_reachable (fold (proxy_step note_slots) es s)"
  using assms by (induction es arbitrary: s) (auto intro: proxy_reachable.step)

definition sample_events :: "proxy_event list" where
  "sample_events = [ClientCalls ''getInfo'' [] (Some ''getInfoReply'') (Some ''errorReply''), ConnectionArrives True no_error,
     PathArrives ''/id'', ReplyArrives 0 (Inr [])]"

theorem calls_are_accounted_for_witness:
  "ap_finished (fold (proxy_step note_slots) sample_events AsyncDBusProxy) = [0]"
proof -
  have "proxy_reachable (fold (proxy_step note_slots) sample_events AsyncDBusProxy)"
    by (rule run_reachable [OF proxy_reachable.start]) (simp add: sample_events_def orderly_call_def)
  from calls_are_accounted_for [OF this] show ?thesis
    by (simp add: sample_events_def AsyncDBusProxy_def queueCall_def enqueue_def setConnection_def setObjectPath_def ap_update_def
        setStatus_def doCall_def pc_onFinished_def emit_finished_def emit_success_def onCallFinished_def ap_post_def ap_emit_def
        set_call_def the_call_def qh_value_def null_call_def note_slots_def)
qed

end
