(* ===== verification/Client_Session.thy ===== *)
theory Client_Session
  imports Async_Proxy
begin

text \<open>
  \<open>AuthSessionImpl\<close> of the client library (lib/SignOn/authsessionimpl.cpp): an authentication session as the client
  has it, on top of its proxy. The proxy that is created to register the session makes one call, which is
  answered once; it appears here as the list of registrations that are under way. What the client is told
  is a list of signals.
\<close>

section \<open>State\<close>

datatype session_signal =
    SessionError int qstring
  | SessionResponse qvariant_map
  | MechanismsAvailable "qstring list"
  | SessionStateChanged int qstring

record client_session = dbus_proxy +
  ca_id :: nat
  ca_methodName :: string
  ca_isAuthInProcessing :: bool
  ca_processCall :: "nat option"
  ca_registrations :: "(nat \<times> string) list"
  ca_signals :: "session_signal list"

definition ca_tell :: "session_signal \<Rightarrow> client_session \<Rightarrow> client_session" where
  "ca_tell e s = s\<lparr>ca_signals := ca_signals s @ [e]\<rparr>"

section \<open>Errors\<close>

definition ERR_PREFIX :: string where
  "ERR_PREFIX = ''com.google.code.AccountsSSO.SingleSignOn.Error.''"

text \<open>The names the slot compares with, without the prefix, in the order of the comparisons.\<close>

definition client_errors :: "(string \<times> int) list" where
  "client_errors =
     [(''SessionCanceled'', 311), (''TimedOut'', 312), (''InvalidCredentials'', 303), (''NotAuthorized'', 304),
      (''OperationNotSupported'', 306), (''PermissionDenied'', 4), (''MethodOrMechanismNotAllowed'', 318), (''WrongState'', 305),
      (''MechanismNotAvailable'', 301), (''MethodNotKnown'', 201), (''MissingData'', 302), (''Runtime'', 310), (''NoConnection'', 307),
      (''Network'', 308), (''Ssl'', 309), (''UserInteraction'', 313), (''OperationFailed'', 314), (''EncryptionFailed'', 5),
      (''TOSNotAccepted'', 316), (''ForgotPassword'', 317), (''IncorrectDate'', 319)]"

text \<open>\<open>QString::section\<close> with a single character as separator and one field.\<close>

fun split_at :: "char \<Rightarrow> string \<Rightarrow> string list" where
  "split_at sep [] = [[]]"
| "split_at sep (c # cs) =
     (if c = sep then [] # split_at sep cs
      else case split_at sep cs of [] \<Rightarrow> [[c]] | f # fs \<Rightarrow> (c # f) # fs)"

definition section_of :: "char \<Rightarrow> nat \<Rightarrow> string \<Rightarrow> string" where
  "section_of sep i s = (let fs = split_at sep s in if i < length fs then fs ! i else [])"

text \<open>The code and the message of an error; an empty message stands for that of the reply.\<close>

definition user_error :: "string \<Rightarrow> int \<times> string" where
  "user_error msg =
     (case str_int (section_of (CHR '':'') 0 msg) of
        Some i \<Rightarrow> (if to_int i = i then i else 1, section_of (CHR '':'') 1 msg)
      | None \<Rightarrow> (1, section_of (CHR '':'') 1 msg))"

definition error_code :: "dbus_error \<Rightarrow> int \<times> string" where
  "error_code err =
     (if err_type err \<noteq> Other then (1, [])
      else case map_of (map (\<lambda>(name, code). (ERR_PREFIX @ name, code)) client_errors) (err_name err) of
             Some code \<Rightarrow> (code, [])
           | None \<Rightarrow> if err_name err = ERR_PREFIX @ ''User'' then user_error (chars (err_message err)) else (1, []))"

text \<open>The last part of \<open>errorSlot\<close>: the error goes to the client.\<close>

definition tell_error :: "dbus_error \<Rightarrow> client_session \<Rightarrow> client_session" where
  "tell_error err s =
     (let (errCode, errMessage) = error_code err
      in ca_tell (SessionError errCode (if errMessage = [] then err_message err else QStr errMessage)) (s\<lparr>ca_processCall := None\<rparr>))"

section \<open>Slots\<close>

definition initInterface :: "client_session \<Rightarrow> client_session" where
  "initInterface s =
     (if ca_isAuthInProcessing s then s
      else s\<lparr>ca_isAuthInProcessing := True, ca_registrations := ca_registrations s @ [(ca_id s, ca_methodName s)]\<rparr>)"

definition mechanismsAvailableSlot :: "qvariant list \<Rightarrow> client_session \<Rightarrow> client_session" where
  "mechanismsAvailableSlot reply s = ca_tell (MechanismsAvailable (case reply of v # _ \<Rightarrow> v_toStringList v | [] \<Rightarrow> [])) s"

fun variant_map_of :: "qvariant list \<Rightarrow> qvariant_map" where
  "variant_map_of (VMap m # _) = m"
| "variant_map_of _ = []"

definition responseSlot :: "qvariant list \<Rightarrow> client_session \<Rightarrow> client_session" where
  "responseSlot reply s = ca_tell (SessionResponse (variant_map_of reply)) (s\<lparr>ca_processCall := None\<rparr>)"

definition ca_on_success :: "nat \<Rightarrow> string \<Rightarrow> qvariant list \<Rightarrow> client_session \<Rightarrow> client_session" where
  "ca_on_success n slot reply s =
     (if slot = ''mechanismsAvailableSlot'' then mechanismsAvailableSlot reply s
      else if slot = ''responseSlot'' then responseSlot reply s else s)"

text \<open>The calls that \<open>errorSlot\<close> makes fail come back to \<open>errorSlot\<close>, with no registration under way any more; these
  are the slots as they are then.\<close>

definition settled_slots :: "client_session proxy_slots" where
  "settled_slots = \<lparr>on_error = \<lambda>n slot err. tell_error err, on_success = ca_on_success, on_finished = \<lambda>n slot watcher s. s,
     on_connectionNeeded = ap_emit ConnectionNeeded, on_objectPathNeeded = initInterface\<rparr>"

definition errorSlot :: "dbus_error \<Rightarrow> client_session \<Rightarrow> client_session" where
  "errorSlot err s0 =
     (let s = s0\<lparr>ca_processCall := None\<rparr> in
      if ca_isAuthInProcessing s
      then setObjectPath settled_slots [] (ap_setError settled_slots err (s\<lparr>ca_isAuthInProcessing := False\<rparr>))
      else tell_error err s)"

definition session_slots :: "client_session proxy_slots" where
  "session_slots = settled_slots\<lparr>on_error := \<lambda>n slot err. errorSlot err\<rparr>"

definition authenticationSlot :: "string \<Rightarrow> client_session \<Rightarrow> client_session" where
  "authenticationSlot path s = (setObjectPath session_slots path s)\<lparr>ca_isAuthInProcessing := False\<rparr>"

definition stateSlot :: "int \<Rightarrow> qstring \<Rightarrow> client_session \<Rightarrow> client_session" where
  "stateSlot state msg s = ca_tell (SessionStateChanged state msg) s"

definition unregisteredSlot :: "client_session \<Rightarrow> client_session" where
  "unregisteredSlot s = setObjectPath session_slots [] s"

section \<open>Operations\<close>

definition AuthSessionImpl :: "nat \<Rightarrow> string \<Rightarrow> bool \<Rightarrow> client_session" where
  "AuthSessionImpl n methodName hasConnection =
     (let s = dbus_proxy.extend AsyncDBusProxy (client_session.fields n methodName False None [] []);
          s = (if hasConnection then setConnection session_slots True no_error s else s)
      in initInterface (ap_connect ''unregistered'' (ap_connect ''stateChanged'' s)))"

definition send2interface :: "string \<Rightarrow> string option \<Rightarrow> qvariant list \<Rightarrow> client_session \<Rightarrow> nat \<times> client_session" where
  "send2interface operation slot arguments s = queueCall session_slots operation arguments slot (Some ''errorSlot'') s"

definition ca_setId :: "nat \<Rightarrow> client_session \<Rightarrow> client_session" where
  "ca_setId n s = snd (send2interface ''setId'' None [VUInt n] (s\<lparr>ca_id := n\<rparr>))"

definition ca_queryAvailableMechanisms :: "qstring list \<Rightarrow> client_session \<Rightarrow> client_session" where
  "ca_queryAvailableMechanisms wantedMechanisms s =
     snd (send2interface ''queryAvailableMechanisms'' (Some ''mechanismsAvailableSlot'') [VStringList wantedMechanisms] s)"

definition sessionData2VariantMap :: "qvariant_map \<Rightarrow> qvariant_map" where
  "sessionData2VariantMap data =
     fold (\<lambda>key result. let v = qm_value data key VInvalid in if \<not> v_isNull v \<and> v_isValid v then qm_insert key v result else result)
       (qm_keys data) []"

text \<open>The states of a session are those of the enumeration, \<open>ProcessPending\<close> is 7.\<close>

definition ca_process :: "qvariant_map \<Rightarrow> string \<Rightarrow> client_session \<Rightarrow> client_session" where
  "ca_process sessionData mechanism s0 =
     (case ca_processCall s0 of
        Some _ \<Rightarrow> ca_tell (SessionError 305 (QStr (''AuthSession('' @ ca_methodName s0 @ '') is busy''))) s0
      | None \<Rightarrow>
          let (n, s) = send2interface ''process'' (Some ''responseSlot'') [VMap (sessionData2VariantMap sessionData), VString (QStr mechanism)] s0
          in ca_tell (SessionStateChanged 7 (QStr ''The request is added to queue.'')) (s\<lparr>ca_processCall := Some n\<rparr>))"

definition ca_cancel :: "client_session \<Rightarrow> client_session" where
  "ca_cancel s0 =
     (let (canceled, s) = (case ca_processCall s0 of None \<Rightarrow> (False, s0) | Some n \<Rightarrow> pc_cancel session_slots n s0);
          s = (if canceled then ca_tell (SessionError 311 (QStr ''Process is canceled.'')) s
               else snd (send2interface ''cancel'' None [] s))
      in s\<lparr>ca_processCall := None\<rparr>)"

section \<open>Events\<close>

datatype client_session_event =
    BusArrives bool dbus_error
  | BusLost
  | BusFails dbus_error
  | AnswerArrives nat "dbus_error + qvariant list"
  | LoopRuns
  | SessionRegistered string
  | RegistrationFails dbus_error
  | RemoteState int qstring
  | RemoteUnregistered
  | AppSetId nat
  | AppMechanisms "qstring list"
  | AppProcess qvariant_map string
  | AppCancel

text \<open>A pointer to a call that is deleted becomes null.\<close>

definition ca_event_loop :: "client_session \<Rightarrow> client_session" where
  "ca_event_loop s =
     (let t = event_loop session_slots s in
      case ap_posted s of
        PostedDelete n # _ \<Rightarrow> if ca_processCall t = Some n then t\<lparr>ca_processCall := None\<rparr> else t
      | _ \<Rightarrow> t)"

definition registration_answered :: "(client_session \<Rightarrow> client_session) \<Rightarrow> client_session \<Rightarrow> client_session" where
  "registration_answered slot s = (case ca_registrations s of [] \<Rightarrow> s | _ # rs \<Rightarrow> slot (s\<lparr>ca_registrations := rs\<rparr>))"

fun ca_step :: "client_session_event \<Rightarrow> client_session \<Rightarrow> client_session" where
  "ca_step (BusArrives isConnected err) s = setConnection session_slots isConnected err s"
| "ca_step BusLost s = setDisconnected session_slots s"
| "ca_step (BusFails err) s = s\<lparr>ap_connection := map_option (\<lambda>_. False) (ap_connection s), ap_connectionError := err\<rparr>"
| "ca_step (AnswerArrives n watcher) s = (if n \<in> set (ap_inFlight s) then pc_onFinished session_slots n watcher s else s)"
| "ca_step LoopRuns s = ca_event_loop s"
| "ca_step (SessionRegistered path) s = registration_answered (authenticationSlot path) s"
| "ca_step (RegistrationFails err) s = registration_answered (errorSlot err) s"
| "ca_step (RemoteState state msg) s = stateSlot state msg s"
| "ca_step RemoteUnregistered s = unregisteredSlot s"
| "ca_step (AppSetId n) s = ca_setId n s"
| "ca_step (AppMechanisms wanted) s = ca_queryAvailableMechanisms wanted s"
| "ca_step (AppProcess sessionData mechanism) s = ca_process sessionData mechanism s"
| "ca_step AppCancel s = ca_cancel s"

text \<open>A registration is answered over a connection that is up, and the client does not cancel a request that has
  been made over a connection that is down and is about to fail.\<close>

definition orderly_session :: "client_session_event \<Rightarrow> client_session \<Rightarrow> bool" where
  "orderly_session e s =
     (case e of
        SessionRegistered _ \<Rightarrow> ap_connection s \<noteq> Some False
      | AppCancel \<Rightarrow> (case ca_processCall s of None \<Rightarrow> True | Some n \<Rightarrow> \<forall>err. PostedFail n err \<notin> set (ap_posted s))
      | _ \<Rightarrow> True)"

inductive client_session_reachable :: "client_session \<Rightarrow> bool" where
  start: "client_session_reachable (AuthSessionImpl n methodName hasConnection)"
| step: "client_session_reachable s \<Longrightarrow> orderly_session e s \<Longrightarrow> client_session_reachable (ca_step e s)"

end
