(* ===== verification/Client_Session_Run.thy ===== *)
theory Client_Session_Run
  imports Client_Session
begin

text \<open>
  What holds in every run of a client's session: the account of its calls, and what its being busy means.
\<close>

section \<open>The slots when no registration is under way\<close>

lemma tell_error_same: "same_proxy (tell_error err s) s"
  by (simp add: tell_error_def ca_tell_def same_proxy_def split: prod.split)

lemma settled_polite:
  "same_proxy (on_error settled_slots n slot err s) s" "same_proxy (on_success settled_slots n slot reply s) s"
  "same_proxy (on_finished settled_slots n slot w s) s" "same_proxy (on_connectionNeeded settled_slots s) s"
  "same_proxy (on_objectPathNeeded settled_slots s) s"
  by (simp_all add: settled_slots_def tell_error_same same_emit)
    (simp_all add: same_proxy_def ca_on_success_def mechanismsAvailableSlot_def responseSlot_def ca_tell_def initInterface_def)

interpretation settled: polite_slots settled_slots
  by unfold_locales (rule settled_polite)+

text \<open>The calls that are still to be answered, and the slots of a call.\<close>

definition unanswered :: "'a dbus_proxy_scheme \<Rightarrow> nat set" where
  "unanswered s = set (ap_operationsQueue s) \<union> set (ap_inFlight s) \<union> set (failing (ap_posted s))"

definition slots_of :: "nat \<Rightarrow> 'a dbus_proxy_scheme \<Rightarrow> string option \<times> string option" where
  "slots_of n s = (pc_errorSlot (the_call n s), pc_replySlot (the_call n s))"

text \<open>A change that answers calls only by telling the client so.\<close>

definition keeps :: "client_session \<Rightarrow> client_session \<Rightarrow> bool" where
  "keeps t s \<longleftrightarrow> (\<forall>n. slots_of n t = slots_of n s) \<and> unanswered t \<subseteq> unanswered s \<and> ap_nextCall t = ap_nextCall s
     \<and> (ca_processCall t = None \<or> ca_processCall t = ca_processCall s \<and> unanswered t = unanswered s)"

lemma keeps_refl: "keeps s s"
  by (simp add: keeps_def)

lemma keeps_trans: "keeps u t \<Longrightarrow> keeps t s \<Longrightarrow> keeps u s"
  by (auto simp: keeps_def)

definition wired :: "client_session \<Rightarrow> bool" where
  "wired s \<longleftrightarrow> (\<forall>n \<in> unanswered s. fst (slots_of n s) = Some ''errorSlot'')
     \<and> (\<forall>n. ca_processCall s = Some n \<longrightarrow> n \<in> unanswered s \<and> snd (slots_of n s) = Some ''responseSlot'')"

lemma keeps_wired: "keeps t s \<Longrightarrow> wired s \<Longrightarrow> wired t"
  by (auto simp: keeps_def wired_def)

lemma slots_of_cong: "ap_calls t = ap_calls s \<Longrightarrow> slots_of n t = slots_of n s"
  by (simp add: slots_of_def the_call_def)

lemma fail_eq:
  assumes "fst (slots_of n s) = Some slot"
  shows "pc_fail settled_slots n err s = (tell_error err s)\<lparr>ap_operationsQueue := remove1 n (ap_operationsQueue s),
    ap_posted := ap_posted s @ [PostedDelete n], ap_finished := ap_finished s @ [n]\<rparr>"
proof -
  have e: "emit_error settled_slots n err s = tell_error err s"
    using assms by (simp add: emit_error_def slots_of_def settled_slots_def)
  have c: "the_call m (tell_error err s) = the_call m s" for m by (rule same_fields(18) [OF tell_error_same])
  have "pc_errorSlot (the_call n (onCallFinished n (u\<lparr>ap_finished := xs\<rparr>))) = Some slot"
    if "u = tell_error err s" for u xs
    using assms that c [of n] by (simp add: onCallFinished_def ap_post_def slots_of_def the_call_def)
  then show ?thesis
    unfolding pc_fail_def e emit_finished_def Let_def
    by (simp add: onCallFinished_def ap_post_def same_fields [OF tell_error_same])
qed

text \<open>What the client is told of an error.\<close>

definition error_signal :: "dbus_error \<Rightarrow> session_signal" where
  "error_signal err =
     SessionError (fst (error_code err)) (if snd (error_code err) = [] then err_message err else QStr (snd (error_code err)))"

lemma tell_error_eq: "tell_error err s = s\<lparr>ca_processCall := None, ca_signals := ca_signals s @ [error_signal err]\<rparr>"
  by (simp add: tell_error_def ca_tell_def error_signal_def split: prod.split)

lemma fail_loop:
  assumes "\<forall>n \<in> set ns. \<exists>slot. fst (slots_of n s) = Some slot"
  shows "let t = fold (\<lambda>n s. pc_fail settled_slots n (ap_lastError s) s) ns s in
    ap_calls t = ap_calls s \<and> ap_inFlight t = ap_inFlight s \<and> failing (ap_posted t) = failing (ap_posted s) \<and> ap_path t = ap_path s
    \<and> ap_connection t = ap_connection s \<and> ap_nextCall t = ap_nextCall s \<and> ap_lastError t = ap_lastError s \<and> ap_status t = ap_status s
    \<and> ca_isAuthInProcessing t = ca_isAuthInProcessing s \<and> ca_processCall t = (if ns = [] then ca_processCall s else None)
    \<and> ca_signals t = ca_signals s @ map (\<lambda>n. error_signal (ap_lastError s)) ns"
  using assms
proof (induction ns arbitrary: s)
  case (Cons n ns)
  obtain slot where slot: "fst (slots_of n s) = Some slot" using Cons.prems by auto
  let ?u = "pc_fail settled_slots n (ap_lastError s) s"
  note u = fail_eq [OF slot, of "ap_lastError s", unfolded tell_error_eq]
  have "slots_of m ?u = slots_of m s" for m by (rule slots_of_cong) (simp add: u)
  then show ?case using Cons.IH [of ?u] Cons.prems by (simp add: u Let_def split: if_splits)
qed simp

lemma unanswered_fields: "ap_operationsQueue t = ap_operationsQueue s \<Longrightarrow> ap_inFlight t = ap_inFlight s \<Longrightarrow>
    failing (ap_posted t) = failing (ap_posted s) \<Longrightarrow> unanswered t = unanswered s"
  by (simp add: unanswered_def)

lemma invalid_keeps:
  assumes "wired s"
  shows "let t = setStatus settled_slots Invalid s in keeps t s \<and> ap_path t = ap_path s \<and> ca_isAuthInProcessing t = ca_isAuthInProcessing s
    \<and> ap_connection t = ap_connection s \<and> ap_operationsQueue t = [] \<and> ap_inFlight t = ap_inFlight s \<and> ap_status t = Invalid
    \<and> ca_signals t = ca_signals s @ map (\<lambda>n. error_signal (ap_lastError s)) (ap_operationsQueue s)"
proof -
  let ?s = "s\<lparr>ap_status := Invalid\<rparr>"
  have "\<forall>n \<in> set (ap_operationsQueue s). \<exists>slot. fst (slots_of n ?s) = Some slot"
    using assms slots_of_cong [of ?s s] by (auto simp: wired_def unanswered_def)
  note loop = fail_loop [OF this, unfolded Let_def]
  let ?t = "fold (\<lambda>n s. pc_fail settled_slots n (ap_lastError s) s) (ap_operationsQueue s) ?s"
  have t: "setStatus settled_slots Invalid s = ?t\<lparr>ap_operationsQueue := []\<rparr>" by (simp add: setStatus_def)
  have "slots_of n (?t\<lparr>ap_operationsQueue := []\<rparr>) = slots_of n s" for n by (rule slots_of_cong) (use loop in simp)
  moreover have "unanswered (?t\<lparr>ap_operationsQueue := []\<rparr>) = set (ap_inFlight s) \<union> set (failing (ap_posted s))"
    using loop by (simp add: unanswered_def)
  ultimately show ?thesis
    unfolding Let_def t keeps_def using loop by (auto simp: unanswered_def)
qed

lemma do_session:
  "let t = fold (doCall i) ns s in (\<forall>m. slots_of m t = slots_of m s) \<and> ca_processCall t = ca_processCall s
     \<and> ca_isAuthInProcessing t = ca_isAuthInProcessing s \<and> ap_path t = ap_path s \<and> ap_connection t = ap_connection s
     \<and> ca_signals t = ca_signals s"
proof (induction ns arbitrary: s)
  case (Cons n ns)
  have "slots_of m (doCall i n s) = slots_of m s" for m
    by (simp add: slots_of_def doCall_def Let_def the_call_def set_call_def qh_value_def ap_emit_def)
  moreover have "ca_processCall (doCall i n s) = ca_processCall s \<and> ca_isAuthInProcessing (doCall i n s) = ca_isAuthInProcessing s
     \<and> ap_path (doCall i n s) = ap_path s \<and> ap_connection (doCall i n s) = ap_connection s \<and> ca_signals (doCall i n s) = ca_signals s"
    by (simp add: doCall_def set_call_def ap_emit_def Let_def)
  ultimately show ?case using Cons.IH [of "doCall i n s"] by (simp add: Let_def)
qed simp

lemma ready_keeps:
  assumes "ap_interface s = Some i"
  shows "let t = setStatus slots Ready s in keeps t s \<and> ap_path t = ap_path s \<and> ca_isAuthInProcessing t = ca_isAuthInProcessing s
    \<and> ap_connection t = ap_connection s \<and> ca_signals t = ca_signals s"
proof -
  obtain es where es: "fold (\<lambda>c. ap_emit (SignalConnected i c)) (ap_connectionsQueue s) (s\<lparr>ap_status := Ready\<rparr>) = s\<lparr>ap_status := Ready, ap_outputs := es\<rparr>"
    using connect_all [of i "ap_connectionsQueue s" "s\<lparr>ap_status := Ready\<rparr>"] by auto
  let ?u = "s\<lparr>ap_status := Ready, ap_outputs := es\<rparr>"
  define t where "t = fold (doCall i) (ap_operationsQueue s) ?u"
  have t: "setStatus slots Ready s = t\<lparr>ap_operationsQueue := []\<rparr>" using assms by (simp add: setStatus_def es t_def)
  have a: "\<forall>m. slots_of m t = slots_of m ?u" "ca_processCall t = ca_processCall s" "ca_isAuthInProcessing t = ca_isAuthInProcessing s"
      "ap_path t = ap_path s" "ap_connection t = ap_connection s" "ca_signals t = ca_signals s"
    using do_session [of i "ap_operationsQueue s" ?u] unfolding t_def [symmetric] Let_def by simp_all
  have b: "ap_inFlight t = ap_inFlight s @ ap_operationsQueue s" "ap_posted t = ap_posted s" "ap_nextCall t = ap_nextCall s"
    using do_all [of i "ap_operationsQueue s" ?u] unfolding t_def [symmetric] Let_def by simp_all
  have "slots_of m (t\<lparr>ap_operationsQueue := []\<rparr>) = slots_of m s" for m
    using a(1) slots_of_cong [of ?u s m] slots_of_cong [of "t\<lparr>ap_operationsQueue := []\<rparr>" t m] by simp
  then show ?thesis
    unfolding Let_def t keeps_def using a b by (auto simp: unanswered_def)
qed

lemma slots_of_destroyed: "slots_of n (onInterfaceDestroyed i s) = slots_of n s"
proof -
  have "map_of (map (\<lambda>(n, c). (n, f c)) xs) n = map_option f (map_of xs n)" for f :: "async_call \<Rightarrow> async_call" and xs :: "(nat \<times> async_call) list"
    by (induction xs) auto
  then show ?thesis
    by (simp add: slots_of_def the_call_def onInterfaceDestroyed_def qh_value_def split: option.split)
qed

lemma update_keeps:
  assumes "wired s"
  shows "let t = ap_update settled_slots s in keeps t s \<and> ap_path t = ap_path s \<and> ca_isAuthInProcessing t = ca_isAuthInProcessing s
    \<and> ap_connection t = ap_connection s"
proof -
  define t where "t = (case ap_interface s of None \<Rightarrow> s | Some i \<Rightarrow> (onInterfaceDestroyed i s)\<lparr>ap_interface := None\<rparr>)"
  have slots: "slots_of n t = slots_of n s" for n
    using slots_of_destroyed [of n _ s] slots_of_cong [of "(onInterfaceDestroyed i s)\<lparr>ap_interface := None\<rparr>" "onInterfaceDestroyed i s" n for i]
    by (simp add: t_def split: option.split)
  have same: "unanswered t = unanswered s" "ap_nextCall t = ap_nextCall s" "ca_processCall t = ca_processCall s" "ap_path t = ap_path s"
      "ca_isAuthInProcessing t = ca_isAuthInProcessing s" "ap_connection t = ap_connection s"
    by (simp_all add: t_def unanswered_def onInterfaceDestroyed_def split: option.split)
  have step: "keeps u s \<and> ap_path u = ap_path s \<and> ca_isAuthInProcessing u = ca_isAuthInProcessing s \<and> ap_connection u = ap_connection s"
    if "keeps u w \<and> ap_path u = ap_path w \<and> ca_isAuthInProcessing u = ca_isAuthInProcessing w \<and> ap_connection u = ap_connection w"
      "ap_calls w = ap_calls t" "unanswered w = unanswered t" "ap_nextCall w = ap_nextCall t" "ca_processCall w = ca_processCall t" "ap_path w = ap_path t"
      "ca_isAuthInProcessing w = ca_isAuthInProcessing t" "ap_connection w = ap_connection t" for u w
    using that slots same slots_of_cong [OF that(2)] by (simp add: keeps_def)
  have wired: "wired (t\<lparr>ap_lastError := e\<rparr>)" for e
    using assms slots same slots_of_cong [of "t\<lparr>ap_lastError := e\<rparr>" t] unfolding wired_def unanswered_def by simp
  let ?r = "t\<lparr>ap_interface := Some (ap_nextInterface t), ap_nextInterface := ap_nextInterface t + 1\<rparr>"
  let ?e = "t\<lparr>ap_lastError := ap_connectionError t\<rparr>"
  let ?i = "t\<lparr>ap_status := Incomplete\<rparr>"
  have u: "unanswered ?i = unanswered t" "unanswered ?e = unanswered t" "unanswered ?r = unanswered t"
    by (simp_all add: unanswered_def)
  have B: "keeps (setStatus settled_slots Invalid ?e) s \<and> ap_path (setStatus settled_slots Invalid ?e) = ap_path s
      \<and> ca_isAuthInProcessing (setStatus settled_slots Invalid ?e) = ca_isAuthInProcessing s \<and> ap_connection (setStatus settled_slots Invalid ?e) = ap_connection s"
    using invalid_keeps [OF wired [of "ap_connectionError t"]] by (intro step [of _ ?e]) (simp_all add: Let_def u)
  have C: "keeps (setStatus settled_slots Ready ?r) s \<and> ap_path (setStatus settled_slots Ready ?r) = ap_path s
      \<and> ca_isAuthInProcessing (setStatus settled_slots Ready ?r) = ca_isAuthInProcessing s \<and> ap_connection (setStatus settled_slots Ready ?r) = ap_connection s"
    using ready_keeps [of ?r "ap_nextInterface t" settled_slots] by (intro step [of _ ?r]) (simp_all add: Let_def unanswered_def)
  have A: "keeps ?i s \<and> ap_path ?i = ap_path s \<and> ca_isAuthInProcessing ?i = ca_isAuthInProcessing s \<and> ap_connection ?i = ap_connection s"
    by (rule step [of _ ?i]) (simp_all add: u keeps_refl)
  have "ap_update settled_slots s =
      (if ap_connection t = None \<or> ap_path t = [] then ?i
       else if ap_connection t = Some False then setStatus settled_slots Invalid ?e else setStatus settled_slots Ready ?r)"
    unfolding ap_update_def Let_def t_def [symmetric] ap_setError_def
    by (simp only: setStatus_def [of _ Incomplete] Let_def proxy_status.distinct if_False)
  then show ?thesis
    unfolding Let_def using A B C by (simp only: split: if_split) simp
qed

section \<open>A registration under way\<close>

lemma errorSlot_settled: "\<not> ca_isAuthInProcessing s \<Longrightarrow> errorSlot err s = tell_error err s"
  by (simp add: errorSlot_def tell_error_eq)

lemma session_slots_simps:
  "on_error session_slots n slot err = errorSlot err" "on_success session_slots = on_success settled_slots"
  "on_finished session_slots = on_finished settled_slots" "on_connectionNeeded session_slots = on_connectionNeeded settled_slots"
  "on_objectPathNeeded session_slots = on_objectPathNeeded settled_slots" "on_error settled_slots n slot err = tell_error err"
  by (simp_all add: session_slots_def settled_slots_def)

lemma finished_slots: "emit_finished session_slots n w s = emit_finished settled_slots n w s"
  by (simp add: emit_finished_def Let_def session_slots_simps split: option.split)

lemma fail_settled: "\<not> ca_isAuthInProcessing s \<Longrightarrow> pc_fail session_slots n err s = pc_fail settled_slots n err s"
  by (simp add: pc_fail_def emit_error_def session_slots_simps errorSlot_settled finished_slots split: option.split)

lemma fail_no_registration: "ca_isAuthInProcessing (pc_fail settled_slots n err s) = ca_isAuthInProcessing s"
  by (simp add: pc_fail_def emit_error_def emit_finished_def onCallFinished_def ap_post_def settled_slots_def tell_error_eq Let_def
      split: option.split)

lemma fold_settled:
  "\<not> ca_isAuthInProcessing s \<Longrightarrow>
     fold (\<lambda>n s. pc_fail session_slots n (ap_lastError s) s) ns s = fold (\<lambda>n s. pc_fail settled_slots n (ap_lastError s) s) ns s"
  by (induction ns arbitrary: s) (simp_all add: fail_settled fail_no_registration)

lemma status_settled: "\<not> ca_isAuthInProcessing s \<or> st \<noteq> Invalid \<Longrightarrow> setStatus session_slots st s = setStatus settled_slots st s"
  using fold_settled [of "s\<lparr>ap_status := Invalid\<rparr>" "ap_operationsQueue s"] by (cases st) (simp_all add: setStatus_def)

lemma update_settled:
  assumes "\<not> ca_isAuthInProcessing s \<or> ap_path s = [] \<or> ap_connection s \<noteq> Some False"
  shows "ap_update session_slots s = ap_update settled_slots s"
proof -
  define t where "t = (case ap_interface s of None \<Rightarrow> s | Some i \<Rightarrow> (onInterfaceDestroyed i s)\<lparr>ap_interface := None\<rparr>)"
  have "ap_path t = ap_path s" "ca_isAuthInProcessing t = ca_isAuthInProcessing s" "ap_connection t = ap_connection s"
    by (simp_all add: t_def onInterfaceDestroyed_def split: option.split)
  then show ?thesis
    unfolding ap_update_def Let_def t_def [symmetric] ap_setError_def using assms
    by (cases "ap_connection s = Some False"; cases "ap_path s = []") (simp_all add: status_settled)
qed

section \<open>Every step keeps the invariant\<close>

text \<open>The invariant while the calls of \<open>X\<close> are between two places.\<close>

definition ok :: "nat multiset \<Rightarrow> client_session \<Rightarrow> bool" where
  "ok X s \<longleftrightarrow> lacks X s \<and> wired s \<and> (ca_isAuthInProcessing s \<longrightarrow> ap_path s = [])"

lemma keeps_ok: "lacks X t \<Longrightarrow> keeps t s \<Longrightarrow> wired s \<Longrightarrow> (ca_isAuthInProcessing t \<Longrightarrow> ap_path t = []) \<Longrightarrow> ok X t"
  by (simp add: ok_def keeps_wired)

lemma wired_cong: "ap_calls t = ap_calls s \<Longrightarrow> unanswered t = unanswered s \<Longrightarrow> ca_processCall t = ca_processCall s \<Longrightarrow> wired t = wired s"
  using slots_of_cong [of t s] by (simp add: wired_def)

lemma ok_update:
  assumes "lacks X (s\<lparr>ap_status := Incomplete\<rparr>)" and "wired s" and "ca_isAuthInProcessing s \<Longrightarrow> ap_path s = []"
  shows "ok X (ap_update settled_slots s)" "ok X (ap_update session_slots s)"
proof -
  show a: "ok X (ap_update settled_slots s)"
    using settled.update_sound [OF assms(1)] update_keeps [OF assms(2)] assms(2,3) by (intro keeps_ok) (simp_all add: Let_def)
  show "ok X (ap_update session_slots s)"
    using a update_settled [of s] assms(3) by (cases "ca_isAuthInProcessing s") simp_all
qed

definition error_wired :: "client_session \<Rightarrow> bool" where
  "error_wired s \<longleftrightarrow> (\<forall>n \<in> unanswered s. fst (slots_of n s) = Some ''errorSlot'')"

lemma tell_error_ok:
  assumes "lacks X s" and "error_wired s" and "ca_isAuthInProcessing s \<Longrightarrow> ap_path s = []"
  shows "ok X (tell_error err s)"
  unfolding ok_def same_fields(16) [OF tell_error_same]
  using assms slots_of_cong [of "tell_error err s" s] by (simp add: wired_def error_wired_def unanswered_def tell_error_eq)

lemma errorSlot_ok:
  assumes "lacks X s" and "error_wired s" and "ca_isAuthInProcessing s \<Longrightarrow> ap_path s = []"
  shows "ok X (errorSlot err s) \<and> ca_processCall (errorSlot err s) = None \<and> (\<forall>m. slots_of m (errorSlot err s) = slots_of m s)"
proof (cases "ca_isAuthInProcessing s")
  case False
  have "slots_of m (tell_error err s) = slots_of m s" for m by (rule slots_of_cong) (simp add: tell_error_eq)
  then show ?thesis using tell_error_ok [OF assms] False by (simp add: errorSlot_settled) (simp add: tell_error_eq)
next
  case True
  let ?s = "s\<lparr>ca_processCall := None, ca_isAuthInProcessing := False, ap_lastError := err\<rparr>"
  let ?t = "setStatus settled_slots Invalid ?s"
  have eq: "errorSlot err s = ap_update settled_slots (?t\<lparr>ap_path := []\<rparr>)"
    using True by (simp add: errorSlot_def setObjectPath_def ap_setError_def)
  have s: "lacks X ?s" using assms(1) by (simp add: lacks_def places_def the_call_def)
  have sl: "slots_of m ?s = slots_of m s" for m by (rule slots_of_cong) simp
  have w: "wired ?s" using assms(2) sl by (simp add: wired_def error_wired_def unanswered_def)
  have t: "keeps ?t ?s" "ca_isAuthInProcessing ?t = False" using invalid_keeps [OF w] by (simp_all add: Let_def)
  have t': "keeps (?t\<lparr>ap_path := []\<rparr>) ?s"
    using t(1) slots_of_cong [of "?t\<lparr>ap_path := []\<rparr>" ?t] by (simp add: keeps_def unanswered_def)
  have "lacks X ?t" using settled.invalid_sound [OF s] by simp
  then have l: "lacks X (?t\<lparr>ap_path := [], ap_status := Incomplete\<rparr>)" by (simp add: lacks_def places_def the_call_def)
  have w': "wired (?t\<lparr>ap_path := []\<rparr>)" by (rule keeps_wired [OF t' w])
  have "ok X (errorSlot err s)"
    unfolding eq by (rule ok_update(1)) (use l w' in \<open>simp_all\<close>)
  moreover have k: "keeps (errorSlot err s) ?s"
    unfolding eq using update_keeps [OF w'] t' by (auto simp: Let_def intro: keeps_trans)
  ultimately show ?thesis using sl by (auto simp: keeps_def)
qed

lemma finished_ok:
  assumes "ok (add_mset n X) s" and "fst (slots_of n s) = Some slot"
  shows "ok X (emit_finished session_slots n w s)"
proof -
  have l: "lacks (add_mset n X) s" using assms(1) by (simp add: ok_def)
  have "remove1 n (ap_operationsQueue s) = ap_operationsQueue s" using not_waiting [OF l] by (rule remove1_idem)
  then have eq: "emit_finished session_slots n w s = s\<lparr>ap_posted := ap_posted s @ [PostedDelete n], ap_finished := ap_finished s @ [n]\<rparr>"
    using assms(2) by (simp add: emit_finished_def onCallFinished_def ap_post_def slots_of_def the_call_def)
  have "lacks X (emit_finished session_slots n w s)"
    using settled.finished_sound [OF l] by (simp add: finished_slots)
  moreover have "wired (emit_finished session_slots n w s)"
    unfolding eq using assms(1) wired_cong [of "s\<lparr>ap_posted := ap_posted s @ [PostedDelete n], ap_finished := ap_finished s @ [n]\<rparr>" s]
    by (simp add: ok_def unanswered_def)
  ultimately show ?thesis using assms(1) by (simp add: ok_def eq)
qed

lemma error_ok:
  assumes "lacks (add_mset n X) s" and "error_wired s" and "ca_isAuthInProcessing s \<Longrightarrow> ap_path s = []" and "fst (slots_of n s) = Some slot"
  shows "ok X (emit_finished session_slots n w (emit_error session_slots n err s))"
proof -
  have "emit_error session_slots n err s = errorSlot err s"
    using assms(4) by (simp add: emit_error_def slots_of_def session_slots_simps)
  then show ?thesis
    using errorSlot_ok [OF assms(1-3), of err] finished_ok [of n X "errorSlot err s" slot w] assms(4) by simp
qed

lemma in_flight_unanswered: "n \<in> set (ap_inFlight s) \<Longrightarrow> n \<in> unanswered s"
  by (simp add: unanswered_def)

lemma enqueue_settled: "enqueue session_slots n s = enqueue settled_slots n s"
  by (simp only: enqueue_def session_slots_simps)

lemma enqueue_fields:
  "let t = enqueue settled_slots n s in
     ap_operationsQueue t = ap_operationsQueue s @ [n] \<and> ap_inFlight t = ap_inFlight s \<and> ap_posted t = ap_posted s \<and> ap_calls t = ap_calls s
     \<and> ap_path t = ap_path s \<and> ca_processCall t = ca_processCall s \<and> ca_signals t = ca_signals s
     \<and> (ca_isAuthInProcessing t \<longrightarrow> ca_isAuthInProcessing s \<or> ap_path s = [])"
  by (simp add: enqueue_def Let_def settled_slots_def ap_emit_def initInterface_def)

lemma enqueue_ok:
  assumes "lacks (add_mset n X) s" and "PostedDelete n \<notin> set (ap_posted s)" and "wired (s\<lparr>ap_operationsQueue := ap_operationsQueue s @ [n]\<rparr>)"
    and "ca_isAuthInProcessing s \<Longrightarrow> ap_path s = []"
  shows "ok X (enqueue session_slots n s)"
proof -
  note e = enqueue_fields [of n s, unfolded Let_def, folded enqueue_settled]
  have "lacks X (enqueue session_slots n s)" unfolding enqueue_settled by (rule settled.enqueue_sound [OF assms(1,2)])
  moreover have "wired (enqueue session_slots n s)"
    using assms(3) wired_cong [of "enqueue session_slots n s" "s\<lparr>ap_operationsQueue := ap_operationsQueue s @ [n]\<rparr>"] e
    by (simp add: unanswered_def)
  ultimately show ?thesis using assms(4) e by (auto simp: ok_def)
qed

lemma answer_fields:
  assumes "fst (slots_of n s) = Some slot"
  shows "let t = emit_success session_slots n reply s in
    same_proxy t s \<and> ca_isAuthInProcessing t = ca_isAuthInProcessing s \<and> (ca_processCall t = None \<or> ca_processCall t = ca_processCall s)
    \<and> (snd (slots_of n s) = Some ''responseSlot'' \<longrightarrow> ca_processCall t = None)"
proof (cases "snd (slots_of n s)")
  case None
  then have "emit_success session_slots n reply s = s" using assms by (simp add: emit_success_def slots_of_def)
  then show ?thesis using None by (simp add: same_proxy_def)
next
  case (Some sl)
  then have "emit_success session_slots n reply s = on_success settled_slots n sl reply s"
    using assms by (simp add: emit_success_def slots_of_def session_slots_simps)
  then show ?thesis
    using settled_polite(2) [of n sl reply s] Some
    by (simp add: Let_def) (simp add: settled_slots_def ca_on_success_def mechanismsAvailableSlot_def responseSlot_def ca_tell_def)
qed

lemma reply_ok:
  assumes "ok {#} s" and "n \<in> set (ap_inFlight s)"
  shows "ok {#} (pc_onFinished session_slots n w s)"
proof -
  let ?s = "s\<lparr>ap_inFlight := remove1 n (ap_inFlight s)\<rparr>"
  have s: "all_placed s" "wired s" "ca_isAuthInProcessing s \<Longrightarrow> ap_path s = []" using assms(1) by (simp_all add: ok_def)
  have but: "lacks {#n#} ?s" "PostedDelete n \<notin> set (ap_posted ?s)" using take_in_flight [OF s(1) assms(2)] by simp_all
  have sl: "slots_of m ?s = slots_of m s" for m by (rule slots_of_cong) simp
  have slot: "fst (slots_of n ?s) = Some ''errorSlot''" using s(2) in_flight_unanswered [OF assms(2)] by (simp add: wired_def sl)
  have u: "unanswered s = insert n (unanswered ?s)" "set (remove1 n (ap_inFlight s)) \<subseteq> set (ap_inFlight s)"
    using assms(2) notin_set_remove1 [of _ "ap_inFlight s" n] in_set_remove1 [of _ n "ap_inFlight s"] set_remove1_subset [of n "ap_inFlight s"]
    by (auto simp: unanswered_def)
  have ew: "error_wired ?s" using s(2) u by (simp add: error_wired_def wired_def sl)
  show ?thesis
  proof (cases w)
    case (Inl err)
    have "wired (?s\<lparr>ap_operationsQueue := ap_operationsQueue ?s @ [n]\<rparr>)"
    proof -
      have "unanswered (?s\<lparr>ap_operationsQueue := ap_operationsQueue ?s @ [n]\<rparr>) = unanswered s" unfolding u(1) by (auto simp: unanswered_def)
      then show ?thesis using wired_cong [of "?s\<lparr>ap_operationsQueue := ap_operationsQueue ?s @ [n]\<rparr>" s] s(2) by simp
    qed
    from enqueue_ok [OF but this] error_ok [OF but(1) ew _ slot, of "Some w" err] s(3) show ?thesis
      by (simp add: pc_onFinished_def onRequeueRequested_def Let_def Inl)
  next
    case (Inr reply)
    let ?t = "emit_success session_slots n reply ?s"
    have e: "same_proxy ?t ?s" "ca_isAuthInProcessing ?t = ca_isAuthInProcessing s" "ca_processCall ?t = None \<or> ca_processCall ?t = ca_processCall s"
        "snd (slots_of n ?s) = Some ''responseSlot'' \<longrightarrow> ca_processCall ?t = None"
      using answer_fields [OF slot, of reply] by (simp_all add: Let_def)
    have slt: "slots_of m ?t = slots_of m s" for m
      using slots_of_cong [OF same_fields(9) [OF e(1)]] sl by simp
    have "ca_processCall ?t = None \<or> (\<exists>m. ca_processCall ?t = Some m \<and> m \<noteq> n \<and> m \<in> unanswered s \<and> snd (slots_of m s) = Some ''responseSlot'')"
    proof (cases "ca_processCall ?t")
      case (Some m)
      then have p: "ca_processCall s = Some m" using e(3) by auto
      then have "m \<in> unanswered s" "snd (slots_of m s) = Some ''responseSlot''" using s(2) by (simp_all add: wired_def)
      moreover have "m \<noteq> n" using e(4) Some calculation(2) sl by auto
      ultimately show ?thesis using Some by simp
    qed simp
    moreover have "unanswered ?t = unanswered ?s" by (simp add: unanswered_def same_fields [OF e(1)])
    ultimately have "wired ?t" using ew u(1) slt sl by (auto simp: wired_def error_wired_def)
    moreover have "lacks {#n#} ?t" using but(1) same_fields(16) [OF e(1)] by simp
    ultimately have "ok {#n#} ?t" using s(3) e(2) same_fields(1) [OF e(1)] by (simp add: ok_def)
    from finished_ok [OF this, of "''errorSlot''" "Some w"] slot slt sl show ?thesis
      by (simp add: pc_onFinished_def Let_def Inr)
  qed
qed

lemma finished_answered: "lacks X s \<Longrightarrow> n \<in> set (ap_finished s) \<Longrightarrow> n \<notin> unanswered s"
proof -
  assume l: "lacks X s" and "n \<in> set (ap_finished s)"
  then have "0 < count (mset (ap_finished s)) n" by (simp add: count_greater_zero_iff)
  then have "count (mset (ap_operationsQueue s)) n = 0" "count (mset (ap_inFlight s)) n = 0" "count (mset (failing (ap_posted s))) n = 0"
    using count_places [OF l, of n] unfolding places_def count_union by linarith+
  then show ?thesis by (simp add: unanswered_def count_eq_zero_iff)
qed

lemma fail_ok:
  assumes "ok {#} (s\<lparr>ap_posted := PostedFail n err # es\<rparr>)"
  shows "ok {#} (pc_fail session_slots n err (s\<lparr>ap_posted := es\<rparr>))"
proof -
  let ?p = "s\<lparr>ap_posted := PostedFail n err # es\<rparr>" and ?s = "s\<lparr>ap_posted := es\<rparr>"
  have p: "all_placed ?p" "wired ?p" "ca_isAuthInProcessing s \<Longrightarrow> ap_path s = []" using assms by (simp_all add: ok_def)
  have sl: "slots_of m ?s = slots_of m ?p" for m by (rule slots_of_cong) simp
  have u: "unanswered ?p = insert n (unanswered ?s)" by (auto simp: unanswered_def)
  have "lacks {#n#} ?s" using p(1) by (auto simp: lacks_def places_def the_call_def)
  moreover have "error_wired ?s" "fst (slots_of n ?s) = Some ''errorSlot''"
    using p(2) u sl by (simp_all add: error_wired_def wired_def)
  ultimately show ?thesis using error_ok [of n "{#}" ?s "''errorSlot''" None err] p(3) by (simp add: pc_fail_def)
qed

lemma loop_ok:
  assumes "ok {#} s"
  shows "ok {#} (ca_event_loop s)"
proof (cases "ap_posted s")
  case Nil
  then show ?thesis using assms by (simp add: ca_event_loop_def event_loop_def)
next
  case (Cons e es)
  have s: "s\<lparr>ap_posted := e # es\<rparr> = s" using Cons by (cases s) simp
  show ?thesis
  proof (cases e)
    case (PostedFail n err)
    have "ok {#} (pc_fail session_slots n err (s\<lparr>ap_posted := es\<rparr>))"
      by (rule fail_ok) (simp only: PostedFail [symmetric] s assms)
    then show ?thesis by (simp add: ca_event_loop_def event_loop_def Cons PostedFail)
  next
    case (PostedDelete n)
    let ?t = "event_loop session_slots s"
    have t: "?t = s\<lparr>ap_posted := es, ap_calls := qh_remove n (ap_calls s)\<rparr>" by (simp add: event_loop_def Cons PostedDelete)
    have "all_placed ?t" using settled.loop_sound [of "{#}" s] assms by (simp add: ok_def event_loop_def Cons PostedDelete)
    have "n \<in> set (ap_finished s)" using assms Cons PostedDelete by (simp add: ok_def lacks_def)
    have n: "n \<notin> unanswered s" using assms \<open>n \<in> set (ap_finished s)\<close> by (auto simp: ok_def dest: finished_answered)
    have "unanswered ?t = unanswered s" by (simp add: t unanswered_def Cons PostedDelete)
    moreover have "slots_of m ?t = slots_of m s" if "m \<noteq> n" for m
      using that by (simp add: t slots_of_def the_call_def qh_value_def)
    moreover have "ca_processCall ?t = ca_processCall s" by (simp add: t)
    ultimately have w: "wired ?t" using assms n unfolding ok_def wired_def by metis
    then have "ok {#} ?t" using \<open>all_placed ?t\<close> assms by (simp add: ok_def) (simp add: t)
    moreover have "ok {#} (?t\<lparr>ca_processCall := None\<rparr>)"
      using calculation slots_of_cong [of "?t\<lparr>ca_processCall := None\<rparr>" ?t] by (simp add: ok_def lacks_def places_def the_call_def wired_def unanswered_def)
    ultimately show ?thesis by (simp add: ca_event_loop_def Let_def Cons PostedDelete)
  qed
qed

text \<open>Connections and paths.\<close>

lemma setting_ok:
  assumes "ok {#} s"
  shows "ok {#} (setConnection session_slots b err s)" "ok {#} (setDisconnected session_slots s)" "ok {#} (unregisteredSlot s)"
    "ok {#} (s\<lparr>ap_connection := c, ap_connectionError := err\<rparr>)"
    "ap_connection s \<noteq> Some False \<Longrightarrow> ok {#} (authenticationSlot path s)"
proof -
  have i: "all_placed (s\<lparr>ap_connection := c, ap_connectionError := e, ap_path := p, ap_status := Incomplete\<rparr>)" for c e p
    using assms by (simp add: ok_def lacks_def places_def the_call_def)
  have w: "wired (s\<lparr>ap_connection := c, ap_connectionError := e, ap_path := p\<rparr>)" for c e p
    using assms wired_cong [of "s\<lparr>ap_connection := c, ap_connectionError := e, ap_path := p\<rparr>" s] by (simp add: ok_def unanswered_def)
  have upd: "ok {#} (ap_update session_slots (s\<lparr>ap_connection := c, ap_connectionError := e, ap_path := p\<rparr>))"
    if "ca_isAuthInProcessing s \<Longrightarrow> p = []" for c e p
    by (rule ok_update(2)) (simp_all add: i w that)
  have a: "ca_isAuthInProcessing s \<Longrightarrow> ap_path s = []" using assms by (simp add: ok_def)
  show "ok {#} (setConnection session_slots b err s)" using upd [where p = "ap_path s" and c = "Some b" and e = err] a by (simp add: setConnection_def)
  show "ok {#} (setDisconnected session_slots s)" using upd [where p = "[]" and c = None and e = "ap_connectionError s"] by (simp add: setDisconnected_def)
  show "ok {#} (unregisteredSlot s)" using upd [where p = "[]" and c = "ap_connection s" and e = "ap_connectionError s"] by (simp add: unregisteredSlot_def setObjectPath_def)
  show "ok {#} (s\<lparr>ap_connection := c, ap_connectionError := err\<rparr>)"
    using assms wired_cong [of "s\<lparr>ap_connection := c, ap_connectionError := err\<rparr>" s] by (simp add: ok_def unanswered_def lacks_def places_def the_call_def)
  show "ok {#} (authenticationSlot path s)" if live: "ap_connection s \<noteq> Some False"
  proof -
    let ?s = "s\<lparr>ap_path := path\<rparr>"
    have ws: "wired ?s" using w [where c = "ap_connection s" and e = "ap_connectionError s" and p = path] by simp
    have "all_placed (ap_update settled_slots ?s)"
      using settled.update_sound [of "{#}" ?s] i [where c = "ap_connection s" and e = "ap_connectionError s" and p = path] by simp
    moreover have "wired (ap_update settled_slots ?s)" using update_keeps [OF ws] keeps_wired [OF _ ws] by (simp add: Let_def)
    moreover have "authenticationSlot path s = (ap_update settled_slots ?s)\<lparr>ca_isAuthInProcessing := False\<rparr>"
      using update_settled [of ?s] live by (simp add: authenticationSlot_def setObjectPath_def)
    ultimately show ?thesis
      using wired_cong [of "authenticationSlot path s" "ap_update settled_slots ?s"] by (simp add: ok_def unanswered_def lacks_def places_def the_call_def)
  qed
qed

text \<open>Calls of the application.\<close>

lemma queue_ok:
  assumes "ok {#} s"
  shows "let (n, t) = send2interface operation slot args s in
    ok {#} t \<and> n \<in> unanswered t \<and> snd (slots_of n t) = slot \<and> ca_processCall t = ca_processCall s"
proof -
  define n where "n = ap_nextCall s"
  define c where "c = \<lparr>pc_meth = operation, pc_args = args, pc_replySlot = slot, pc_errorSlot = Some ''errorSlot'', pc_watcher = False, pc_interface = 0,
    pc_interfaceWasDestroyed = False\<rparr>"
  define u where "u = set_call n c (s\<lparr>ap_nextCall := n + 1\<rparr>)"
  have s: "all_placed s" "wired s" "ca_isAuthInProcessing s \<Longrightarrow> ap_path s = []" using assms by (simp_all add: ok_def)
  have u: "ap_operationsQueue u = ap_operationsQueue s" "ap_inFlight u = ap_inFlight s" "ap_posted u = ap_posted s" "ca_processCall u = ca_processCall s"
      "ap_path u = ap_path s" "ca_isAuthInProcessing u = ca_isAuthInProcessing s" "ap_status u = ap_status s" "ap_interface u = ap_interface s"
    by (simp_all add: u_def set_call_def)
  have cu: "slots_of m u = (if m = n then (Some ''errorSlot'', slot) else slots_of m s)" for m
    by (simp add: u_def c_def slots_of_def the_call_set) (simp add: the_call_def)
  have new: "lacks {#n#} u" "PostedDelete n \<notin> set (ap_posted u)"
    using new_call [OF s(1) n_def, of c] s(1) by (auto simp: u_def set_call_def lacks_def)
  have fresh: "n \<notin> unanswered s" using placed [OF s(1), of n] by (auto simp: n_def places_lists unanswered_def)
  have goal: "ok {#} t \<and> n \<in> unanswered t \<and> snd (slots_of n t) = slot \<and> ca_processCall t = ca_processCall s"
    if "all_placed t" "\<forall>m. slots_of m t = slots_of m u" "unanswered t = insert n (unanswered s)" "ca_processCall t = ca_processCall s"
      "ca_isAuthInProcessing t \<Longrightarrow> ap_path t = []" for t
    using that s(2) cu fresh by (auto simp: ok_def wired_def)
  have t: "send2interface operation slot args s = (n, case ap_status u of
        Ready \<Rightarrow> (case ap_interface u of None \<Rightarrow> u\<lparr>ap_fault := True\<rparr> | Some interface \<Rightarrow> doCall interface n u)
      | Incomplete \<Rightarrow> enqueue session_slots n u | Invalid \<Rightarrow> ap_post (PostedFail n (ap_lastError u)) u)"
    unfolding send2interface_def queueCall_def Let_def u_def c_def n_def by (rule refl)
  have snd: "all_placed (snd (send2interface operation slot args s))"
  proof -
    have "queueCall session_slots operation args slot (Some ''errorSlot'') s = queueCall settled_slots operation args slot (Some ''errorSlot'') s"
      by (simp only: queueCall_def enqueue_settled)
    then show ?thesis using settled.call_sound [OF s(1)] by (simp add: send2interface_def)
  qed
  have un: "unanswered u = unanswered s" using u by (simp add: unanswered_def)
  show ?thesis
  proof (cases "ap_status u")
    case Incomplete
    let ?t = "enqueue session_slots n u"
    note e = enqueue_fields [of n u, unfolded Let_def, folded enqueue_settled]
    have "ok {#} ?t \<and> n \<in> unanswered ?t \<and> snd (slots_of n ?t) = slot \<and> ca_processCall ?t = ca_processCall s"
    proof (rule goal)
      show "all_placed ?t" using snd t Incomplete by simp
      show "\<forall>m. slots_of m ?t = slots_of m u" using e slots_of_cong [of ?t u] by simp
      show "unanswered ?t = insert n (unanswered s)" using e un by (auto simp: unanswered_def)
    qed (use e u s(3) in auto)
    then show ?thesis using t Incomplete by simp
  next
    case Ready
    then obtain i where i: "ap_interface u = Some i" using s(1) u by (auto simp: lacks_def)
    let ?t = "doCall i n u"
    have "ok {#} ?t \<and> n \<in> unanswered ?t \<and> snd (slots_of n ?t) = slot \<and> ca_processCall ?t = ca_processCall s"
    proof (rule goal)
      show "all_placed ?t" using snd t Ready i by simp
      show "\<forall>m. slots_of m ?t = slots_of m u" using do_session [of i "[n]" u] by (simp add: Let_def)
      show "unanswered ?t = insert n (unanswered s)"
        using do_all [of i "[n]" u] un by (auto simp: unanswered_def Let_def)
    qed (use do_session [of i "[n]" u] u s(3) in \<open>auto simp: Let_def\<close>)
    then show ?thesis using t Ready i by simp
  next
    case Invalid
    let ?t = "ap_post (PostedFail n (ap_lastError u)) u"
    have "ok {#} ?t \<and> n \<in> unanswered ?t \<and> snd (slots_of n ?t) = slot \<and> ca_processCall ?t = ca_processCall s"
    proof (rule goal)
      show "all_placed ?t" using snd t Invalid by simp
      show "\<forall>m. slots_of m ?t = slots_of m u" using slots_of_cong [of ?t u] by (simp add: ap_post_def)
      show "unanswered ?t = insert n (unanswered s)" using un by (auto simp: unanswered_def ap_post_def)
    qed (use u s(3) in \<open>auto simp: ap_post_def\<close>)
    then show ?thesis using t Invalid by simp
  qed
qed

lemma ok_tell: "ok {#} (ca_tell e s) = ok {#} s"
  using slots_of_cong [of "ca_tell e s" s] by (simp add: ok_def ca_tell_def lacks_def places_def the_call_def wired_def unanswered_def)

lemma ok_free: "ok {#} s \<Longrightarrow> ok {#} (s\<lparr>ca_processCall := None\<rparr>)"
  using slots_of_cong [of "s\<lparr>ca_processCall := None\<rparr>" s] by (simp add: ok_def lacks_def places_def the_call_def wired_def unanswered_def)

lemma ok_id: "ok {#} (s\<lparr>ca_id := m\<rparr>) = ok {#} s"
  using slots_of_cong [of "s\<lparr>ca_id := m\<rparr>" s] by (simp add: ok_def lacks_def places_def the_call_def wired_def unanswered_def)

lemma process_ok:
  assumes "ok {#} s"
  shows "ok {#} (ca_process d m s)"
proof (cases "ca_processCall s")
  case (Some n)
  then show ?thesis using assms by (simp add: ca_process_def ok_tell)
next
  case None
  obtain n t where q: "send2interface ''process'' (Some ''responseSlot'') [VMap (sessionData2VariantMap d), VString (QStr m)] s = (n, t)"
    by (cases "send2interface ''process'' (Some ''responseSlot'') [VMap (sessionData2VariantMap d), VString (QStr m)] s") auto
  then have t: "ok {#} t" "n \<in> unanswered t" "snd (slots_of n t) = Some ''responseSlot''"
    using queue_ok [OF assms, of "''process''" "Some ''responseSlot''" "[VMap (sessionData2VariantMap d), VString (QStr m)]"] by (simp_all add: q)
  have "ok {#} (t\<lparr>ca_processCall := Some n\<rparr>)"
    using t slots_of_cong [of "t\<lparr>ca_processCall := Some n\<rparr>" t] by (simp add: ok_def lacks_def places_def the_call_def wired_def unanswered_def)
  then show ?thesis by (simp add: ca_process_def None q ok_tell)
qed

lemma send_ok: "ok {#} s \<Longrightarrow> ok {#} (snd (send2interface operation slot args s))"
  using queue_ok [of s operation slot args] by (simp add: case_prod_beta Let_def)

lemma failing_posted: "n \<in> set (failing es) \<longleftrightarrow> (\<exists>err. PostedFail n err \<in> set es)"
  by (induction es rule: failing.induct) auto

lemma cancel_ok:
  assumes "ok {#} s" and "orderly_session AppCancel s"
  shows "ok {#} (ca_cancel s)"
proof -
  have *: "ok {#} ((snd (send2interface ''cancel'' None [] s))\<lparr>ca_processCall := None\<rparr>)" by (rule ok_free [OF send_ok [OF assms(1)]])
  show ?thesis
  proof (cases "ca_processCall s")
    case None
    then show ?thesis using * by (simp add: ca_cancel_def)
  next
    case (Some n)
    show ?thesis
    proof (cases "pc_watcher (the_call n s)")
      case True
      then show ?thesis using * Some by (simp add: ca_cancel_def pc_cancel_def)
    next
      case False
      have s: "all_placed s" "wired s" using assms(1) by (simp_all add: ok_def)
      have un: "n \<in> unanswered s" and rs: "fst (slots_of n s) = Some ''errorSlot''" using s(2) Some by (simp_all add: wired_def)
      have q: "n \<in> set (ap_operationsQueue s)"
        using un s(1) False assms(2) Some by (auto simp: unanswered_def lacks_def orderly_session_def failing_posted)
      let ?t = "s\<lparr>ap_operationsQueue := remove1 n (ap_operationsQueue s), ap_posted := ap_posted s @ [PostedDelete n], ap_finished := ap_finished s @ [n]\<rparr>"
      have e: "emit_finished session_slots n None s = ?t"
        using rs by (simp add: emit_finished_def onCallFinished_def ap_post_def slots_of_def the_call_def)
      have "all_placed ?t" using settled.finished_waiting [OF s(1) q, of None] by (simp add: finished_slots [symmetric] e)
      moreover have "error_wired ?t"
        using s(2) slots_of_cong [of ?t s] set_remove1_subset [of n "ap_operationsQueue s"] by (auto simp: error_wired_def wired_def unanswered_def)
      ultimately have "ok {#} (?t\<lparr>ca_processCall := None\<rparr>)"
        using assms(1) slots_of_cong [of "?t\<lparr>ca_processCall := None\<rparr>" ?t]
        by (simp add: ok_def lacks_def places_def the_call_def wired_def error_wired_def unanswered_def)
      moreover have "(ca_tell x ?t)\<lparr>ca_processCall := None\<rparr> = ca_tell x (?t\<lparr>ca_processCall := None\<rparr>)" for x by (simp add: ca_tell_def)
      ultimately show ?thesis using Some False by (simp add: ca_cancel_def pc_cancel_def e ok_tell)
    qed
  qed
qed

lemma registration_ok: "ok {#} (s\<lparr>ca_registrations := rs\<rparr>) = ok {#} s"
  using slots_of_cong [of "s\<lparr>ca_registrations := rs\<rparr>" s] by (simp add: ok_def lacks_def places_def the_call_def wired_def unanswered_def)

lemma errorSlot_step: "ok {#} s \<Longrightarrow> ok {#} (errorSlot err s)"
proof -
  assume s: "ok {#} s"
  then have "error_wired s" by (simp add: ok_def error_wired_def wired_def)
  from errorSlot_ok [of "{#}" s err, OF _ this] s show ?thesis by (simp add: ok_def)
qed

lemma session_step_ok:
  assumes "ok {#} s" and "orderly_session e s"
  shows "ok {#} (ca_step e s)"
proof (cases e)
  case (SessionRegistered path)
  have "ok {#} (authenticationSlot path (s\<lparr>ca_registrations := rs\<rparr>))" for rs
    using setting_ok(5) [of "s\<lparr>ca_registrations := rs\<rparr>" path] assms by (simp add: registration_ok SessionRegistered orderly_session_def)
  then show ?thesis using assms(1) by (simp add: SessionRegistered registration_answered_def split: list.split)
next
  case (RegistrationFails err)
  have "ok {#} (errorSlot err (s\<lparr>ca_registrations := rs\<rparr>))" for rs
    using assms(1) by (simp add: errorSlot_step registration_ok)
  then show ?thesis using assms(1) by (simp add: RegistrationFails registration_answered_def split: list.split)
next
  case (RemoteState state msg)
  then show ?thesis using assms(1) by (simp add: stateSlot_def ok_tell)
next
  case (AppSetId n)
  then show ?thesis using assms(1) by (simp add: ca_setId_def send_ok ok_id)
next
  case (AppMechanisms wanted)
  then show ?thesis using assms(1) by (simp add: ca_queryAvailableMechanisms_def send_ok)
next
  case AppCancel
  then show ?thesis using cancel_ok assms by simp
qed (use assms(1) in \<open>simp_all add: setting_ok reply_ok loop_ok process_ok\<close>)

lemma start_ok: "ok {#} (AuthSessionImpl n methodName hasConnection)"
proof -
  have "ok {#} (initInterface s)" if "ok {#} s" "ap_path s = []" for s
    using that slots_of_cong [of "initInterface s" s]
    by (simp add: ok_def initInterface_def lacks_def places_def the_call_def wired_def unanswered_def)
  moreover have "ok {#} (ap_connect x s) \<and> ap_path (ap_connect x s) = []" if "ok {#} s" "ap_path s = []" for x s
  proof -
    have "ap_status s = Ready \<Longrightarrow> ap_interface s \<noteq> None" using that(1) by (simp add: ok_def lacks_def)
    moreover have "ok {#} (s\<lparr>ap_connectionsQueue := xs\<rparr>)" "ok {#} (ap_emit y (s\<lparr>ap_connectionsQueue := xs\<rparr>))" for xs y
      using that(1) slots_of_cong [of "s\<lparr>ap_connectionsQueue := xs\<rparr>" s] slots_of_cong [of "ap_emit y (s\<lparr>ap_connectionsQueue := xs\<rparr>)" s]
      by (simp_all add: ok_def ap_emit_def lacks_def places_def the_call_def wired_def unanswered_def)
    ultimately show ?thesis using that(2) by (auto simp: ap_connect_def Let_def ap_emit_def split: option.split)
  qed
  moreover have b: "ok {#} (dbus_proxy.extend AsyncDBusProxy (client_session.fields n methodName False None [] []))"
    by (simp add: ok_def lacks_def places_def wired_def unanswered_def AsyncDBusProxy_def dbus_proxy.defs client_session.defs)
  moreover have "ap_path (dbus_proxy.extend AsyncDBusProxy (client_session.fields n methodName False None [] [])) = []"
    "ap_path (setConnection session_slots True no_error (dbus_proxy.extend AsyncDBusProxy (client_session.fields n methodName False None [] []))) = []"
    by (simp_all add: AsyncDBusProxy_def dbus_proxy.defs client_session.defs setConnection_def ap_update_def setStatus_def)
  ultimately show ?thesis
    using setting_ok(1) [OF b, of True no_error] by (simp add: AuthSessionImpl_def Let_def)
qed

lemma session_reachable_ok: "client_session_reachable s \<Longrightarrow> ok {#} s"
  by (induction rule: client_session_reachable.induct) (simp_all add: start_ok session_step_ok)

section \<open>Properties\<close>

lemma reply_tells_error:
  assumes "ok {#} s" and "n \<in> set (ap_inFlight s)"
    and "\<not> (pc_interfaceWasDestroyed (the_call n s) \<and> (err_type err = Disconnected \<or> err_type err = UnknownObject))"
  shows "ca_signals (pc_onFinished session_slots n (Inl err) s)
      = ca_signals s @ (if ca_isAuthInProcessing s then map (\<lambda>_. error_signal err) (ap_operationsQueue s) else [error_signal err])
    \<and> (ca_isAuthInProcessing s \<longrightarrow> ap_operationsQueue (pc_onFinished session_slots n (Inl err) s) = [])
    \<and> ca_processCall (pc_onFinished session_slots n (Inl err) s) = None"
proof -
  let ?s = "s\<lparr>ap_inFlight := remove1 n (ap_inFlight s)\<rparr>"
  have s: "wired s" using assms(1) by (simp add: ok_def)
  have sl: "slots_of m ?s = slots_of m s" for m by (rule slots_of_cong) simp
  have slot: "fst (slots_of n s) = Some ''errorSlot''" using s in_flight_unanswered [OF assms(2)] by (simp add: wired_def)
  have cl: "the_call n ?s = the_call n s" by (simp add: the_call_def)
  have e: "emit_error session_slots n err ?s = errorSlot err ?s"
    using slot by (simp add: emit_error_def slots_of_def cl session_slots_simps)
  have u: "unanswered ?s \<subseteq> unanswered s" using set_remove1_subset [of n "ap_inFlight s"] by (auto simp: unanswered_def)
  have ew: "error_wired ?s" using s u sl by (auto simp: error_wired_def wired_def)
  have fs: "fst (slots_of n (errorSlot err ?s)) = Some ''errorSlot''"
    using errorSlot_ok [of "{#n#}" ?s err] take_in_flight [of "{#}" s n] assms(1,2) ew slot sl by (simp add: ok_def)
  have fin: "ca_signals (emit_finished session_slots n (Some w) v) = ca_signals v" "ca_processCall (emit_finished session_slots n (Some w) v) = ca_processCall v"
    "ap_operationsQueue (emit_finished session_slots n (Some w) v) = remove1 n (ap_operationsQueue v)" if "fst (slots_of n v) = Some ''errorSlot''" for v w
    using that by (simp_all add: emit_finished_def onCallFinished_def ap_post_def slots_of_def the_call_def)
  have eq: "pc_onFinished session_slots n (Inl err) s = emit_finished session_slots n (Some (Inl err)) (errorSlot err ?s)"
    using assms(3) e by (auto simp: pc_onFinished_def Let_def cl)
  have none: "ca_processCall (errorSlot err ?s) = None"
    using errorSlot_ok [of "{#n#}" ?s err] take_in_flight [of "{#}" s n] assms(1,2) ew by (simp add: ok_def)
  show ?thesis
  proof (cases "ca_isAuthInProcessing s")
    case False
    then have "errorSlot err ?s = tell_error err ?s" by (simp add: errorSlot_settled)
    then show ?thesis using False fin [OF fs] none by (simp add: eq) (simp add: tell_error_eq)
  next
    case True
    let ?r = "?s\<lparr>ca_processCall := None, ca_isAuthInProcessing := False, ap_lastError := err\<rparr>"
    have "slots_of m ?r = slots_of m ?s" for m by (rule slots_of_cong) simp
    then have w: "wired ?r" using ew by (simp add: wired_def error_wired_def unanswered_def)
    let ?t = "setStatus settled_slots Invalid ?r"
    have t: "ca_signals ?t = ca_signals s @ map (\<lambda>_. error_signal err) (ap_operationsQueue s)" "ap_operationsQueue ?t = []"
      using invalid_keeps [OF w] by (simp_all add: Let_def)
    have "errorSlot err ?s = ap_update settled_slots (?t\<lparr>ap_path := []\<rparr>)"
      using True by (simp add: errorSlot_def setObjectPath_def ap_setError_def)
    moreover have "ca_signals (ap_update settled_slots (?t\<lparr>ap_path := []\<rparr>)) = ca_signals ?t
        \<and> ap_operationsQueue (ap_update settled_slots (?t\<lparr>ap_path := []\<rparr>)) = ap_operationsQueue ?t"
      by (simp add: ap_update_def setStatus_def onInterfaceDestroyed_def Let_def split: option.split)
    ultimately show ?thesis using True fin [OF fs] none t by (simp add: eq)
  qed
qed

lemma answer_frees:
  assumes "ok {#} s" and "ca_processCall s = Some n" and "n \<in> set (ap_inFlight s)"
  shows "ca_processCall (pc_onFinished session_slots n w s) = None \<or> n \<in> set (ap_operationsQueue (pc_onFinished session_slots n w s))"
proof (cases w)
  case (Inl err)
  show ?thesis
  proof (cases "pc_interfaceWasDestroyed (the_call n s) \<and> (err_type err = Disconnected \<or> err_type err = UnknownObject)")
    case True
    have "the_call n (s\<lparr>ap_inFlight := xs\<rparr>) = the_call n s" for xs by (simp add: the_call_def)
    then show ?thesis
      using True enqueue_fields [of n "s\<lparr>ap_inFlight := remove1 n (ap_inFlight s)\<rparr>"]
      by (simp add: Inl pc_onFinished_def onRequeueRequested_def enqueue_settled Let_def)
  next
    case False
    then show ?thesis using reply_tells_error [OF assms(1,3) False] by (simp add: Inl)
  qed
next
  case (Inr reply)
  let ?s = "s\<lparr>ap_inFlight := remove1 n (ap_inFlight s)\<rparr>"
  have sl: "slots_of m ?s = slots_of m s" for m by (rule slots_of_cong) simp
  have slots: "fst (slots_of n ?s) = Some ''errorSlot''" "snd (slots_of n ?s) = Some ''responseSlot''"
    using assms in_flight_unanswered [OF assms(3)] sl by (simp_all add: ok_def wired_def)
  have "ca_processCall (emit_success session_slots n reply ?s) = None" using answer_fields [OF slots(1), of reply] slots(2) by (simp add: Let_def)
  moreover have "ca_processCall (emit_finished session_slots n x v) = ca_processCall v" for x v
    by (simp add: emit_finished_def onCallFinished_def ap_post_def Let_def session_slots_simps split: option.split) (simp add: settled_slots_def)
  ultimately show ?thesis by (simp add: Inr pc_onFinished_def Let_def)
qed

text \<open>C32: A session of the client library that is busy has a request under way. In every run in which registrations are answered
  over a connection that is up and no request that is about to fail is cancelled: the request a session is busy
  with waits to be sent, is sent and not answered, or is about to fail, and its answer goes to the slot that
  makes the session free; every answer to it makes the session free, or the request is queued again. Each
  call of the session made so far, with the slots changing the proxy under them, is in exactly one place: queued,
  sent and not answered, posted to fail, or finished.\<close>

theorem busy_session_awaits_an_answer:
  assumes "client_session_reachable s"
  shows "distinct (ap_operationsQueue s @ ap_inFlight s @ failing (ap_posted s) @ ap_finished s)
    \<and> set (ap_operationsQueue s @ ap_inFlight s @ failing (ap_posted s) @ ap_finished s) = {0..<ap_nextCall s} \<and> \<not> ap_fault s
    \<and> (\<forall>n. ca_processCall s = Some n \<longrightarrow>
          n \<in> set (ap_operationsQueue s @ ap_inFlight s @ failing (ap_posted s)) \<and> pc_replySlot (the_call n s) = Some ''responseSlot''
          \<and> (n \<in> set (ap_inFlight s) \<longrightarrow>
               (\<forall>w. ca_processCall (ca_step (AnswerArrives n w) s) = None \<or> n \<in> set (ap_operationsQueue (ca_step (AnswerArrives n w) s)))))"
proof -
  note s = session_reachable_ok [OF assms]
  have "mset (ap_operationsQueue s @ ap_inFlight s @ failing (ap_posted s) @ ap_finished s) = mset_set {0..<ap_nextCall s}"
    using s by (simp add: ok_def lacks_def places_def ac_simps)
  note distinct = mset_set_list [OF this]
  have "ca_processCall t = None \<or> n \<in> set (ap_operationsQueue t)"
    if n: "ca_processCall s = Some n" "n \<in> set (ap_inFlight s)" and t: "t = ca_step (AnswerArrives n w) s" for n w t
  proof -
    have "ok {#} t" using reply_ok [OF s n(2)] n(2) t by simp
    then have "ca_processCall t = Some n \<Longrightarrow> n \<in> unanswered t" by (simp add: ok_def wired_def)
    show ?thesis using answer_frees [OF s n] n(2) t by simp
  qed
  moreover have "ca_processCall s = Some n \<Longrightarrow> n \<in> unanswered s \<and> snd (slots_of n s) = Some ''responseSlot''" for n
    using s by (simp add: ok_def wired_def)
  ultimately show ?thesis
    using s distinct by (intro conjI allI impI) (simp_all add: ok_def lacks_def unanswered_def slots_of_def)
qed

text \<open>C33: An error that answers a request while the session is being registered again is taken for an error of the
  registration: the application is not told that its request has failed, and every call that waits for the
  registration, which goes on, is reported to have failed with that error. Without a registration under way
  the application is told the error of its request once.\<close>

theorem error_is_taken_for_the_registration:
  assumes "client_session_reachable s" and "n \<in> set (ap_inFlight s)"
    and "\<not> (pc_interfaceWasDestroyed (the_call n s) \<and> (err_type err = Disconnected \<or> err_type err = UnknownObject))"
  shows "ca_signals (ca_step (AnswerArrives n (Inl err)) s)
      = ca_signals s @ (if ca_isAuthInProcessing s then map (\<lambda>_. error_signal err) (ap_operationsQueue s) else [error_signal err])
    \<and> (ca_isAuthInProcessing s \<longrightarrow> ap_operationsQueue (ca_step (AnswerArrives n (Inl err)) s) = [])
    \<and> ca_processCall (ca_step (AnswerArrives n (Inl err)) s) = None"
  using reply_tells_error [OF session_reachable_ok [OF assms(1)] assms(2,3)] assms(2) by simp


lemma client_session_run:
  assumes "client_session_reachable s" and "list_all (\<lambda>e. \<forall>s. orderly_session e s) es"
  shows "client_session_reachable (fold ca_step es s)"
  using assms by (induction es arbitrary: s) (auto intro: client_session_reachable.step)

text \<open>A session that is registered, processes a request, and has lost its remote object when it is asked for mechanisms.\<close>

definition sample_session :: client_session where
  "sample_session = ca_step (AppMechanisms []) (ca_step RemoteUnregistered (ca_step (AppProcess [] ''m'')
     (ca_step (SessionRegistered ''/s'') (AuthSessionImpl 7 ''p'' True))))"

definition sample_failure :: dbus_error where
  "sample_failure = \<lparr>err_type = Other, err_name = ERR_PREFIX @ ''TimedOut'', err_message = QStr ''late''\<rparr>"

lemmas session_evaluation = AuthSessionImpl_def AsyncDBusProxy_def dbus_proxy.defs client_session.defs setConnection_def ap_update_def setStatus_def
  ap_connect_def initInterface_def registration_answered_def authenticationSlot_def setObjectPath_def ca_process_def sessionData2VariantMap_def
  qm_keys_def send2interface_def queueCall_def doCall_def ap_emit_def set_call_def the_call_def qh_value_def null_call_def
  ca_tell_def unregisteredSlot_def onInterfaceDestroyed_def ca_queryAvailableMechanisms_def enqueue_def
  session_slots_def settled_slots_def

lemma sample_start: "client_session_reachable (AuthSessionImpl 7 ''p'' True) \<and> ap_connection (AuthSessionImpl 7 ''p'' True) = Some True"
  by (simp add: client_session_reachable.start) (simp add: session_evaluation)

lemma sample_reachable: "client_session_reachable sample_session"
  unfolding sample_session_def
  by (intro client_session_reachable.step conjunct1 [OF sample_start]) (simp_all add: orderly_session_def sample_start)

lemma sample_session_fields:
  "ap_inFlight sample_session = [0] \<and> ap_operationsQueue sample_session = [1] \<and> ca_isAuthInProcessing sample_session
   \<and> ca_processCall sample_session = Some 0
   \<and> ca_signals sample_session = [SessionStateChanged 7 (QStr ''The request is added to queue.'')]"
  by (simp add: sample_session_def session_evaluation)

lemma sample_failure_signal: "error_signal sample_failure = SessionError 312 (QStr ''late'')"
  by (simp add: error_signal_def error_code_def sample_failure_def client_errors_def)

theorem busy_session_awaits_an_answer_witness:
  "0 \<in> set (ap_operationsQueue sample_session @ ap_inFlight sample_session) \<and> pc_replySlot (the_call 0 sample_session) = Some ''responseSlot''"
  using busy_session_awaits_an_answer [OF sample_reachable] sample_session_fields by simp

theorem error_is_taken_for_the_registration_witness:
  "ca_signals (ca_step (AnswerArrives 0 (Inl sample_failure)) sample_session)
    = [SessionStateChanged 7 (QStr ''The request is added to queue.''), SessionError 312 (QStr ''late'')]
   \<and> ca_processCall (ca_step (AnswerArrives 0 (Inl sample_failure)) sample_session) = None"
proof -
  have "0 \<in> set (ap_inFlight sample_session)" using sample_session_fields by simp
  from error_is_taken_for_the_registration [OF sample_reachable this, of sample_failure] show ?thesis
    using sample_session_fields by (simp add: sample_failure_signal) (simp add: sample_failure_def)
qed

end
