(* ===== verification/Client_Errors.thy ===== *)
theory Client_Errors
  imports Session_Core Client_Session_Run
begin

text \<open>
  The way of an error of a plugin: \<open>replyError\<close> of the session core gives it a name on D-Bus, \<open>errorSlot\<close> of the
  client library turns the name back into a number.
\<close>

text \<open>The reply of the daemon as the client receives it. D-Bus has no null strings.\<close>

definition received :: "int \<Rightarrow> qstring \<Rightarrow> dbus_error" where
  "received err message =
     \<lparr>err_type = Other, err_name = ERR_PREFIX @ fst (error_reply err message), err_message = QStr (chars (snd (error_reply err message)))\<rparr>"

lemma split_before: "c \<notin> set xs \<Longrightarrow> split_at c (xs @ c # ys) = xs # split_at c ys"
  by (induction xs) auto

lemma sections: "c \<notin> set xs \<Longrightarrow> section_of c 0 (xs @ c # ys) = xs"
  by (simp add: section_of_def split_before)

lemma digit_not_special:
  assumes "is_digit c"
  shows "\<not> is_space c" "c \<noteq> CHR '':''" "c \<noteq> CHR ''-''" "c \<noteq> CHR ''+''"
  using assms by (auto simp: is_digit_def is_space_def)

lemma trim_digits: "list_all is_digit s \<Longrightarrow> trim s = s"
proof -
  assume d: "list_all is_digit s"
  have "dropWhile is_space t = t" if "list_all is_digit t" for t using that by (cases t) (simp_all add: digit_not_special)
  from this [OF d] this [of "rev s"] d show ?thesis by (simp add: trim_def list_all_iff)
qed

lemma str_int_nat: "str_int (nat_str n) = Some (int n)"
proof -
  have d: "list_all is_digit (nat_str n)" by (simp add: list_all_iff nat_str_digits)
  obtain c cs where c: "nat_str n = c # cs" by (cases "nat_str n") auto
  then have "c \<noteq> CHR ''-''" "c \<noteq> CHR ''+''" using d digit_not_special by auto
  then show ?thesis using d trim_digits [OF d] digits_val_nat_str [of n] by (simp add: str_int_def c)
qed

lemma user_error_number:
  assumes "0 \<le> err" and "err < 2147483648"
  shows "fst (user_error (int_str err @ CHR '':'' # msg)) = err"
proof -
  have "CHR '':'' \<notin> set (int_str err)" using assms(1) nat_str_digits digit_not_special(2) by (auto simp: int_str_def)
  moreover have "str_int (int_str err) = Some err" using assms(1) str_int_nat [of "nat err"] by (simp add: int_str_def)
  ultimately show ?thesis using assms by (simp add: user_error_def sections to_int_small)
qed

text \<open>A message that does not begin with a number has no code.\<close>

lemma user_error_text:
  assumes "\<not> is_digit c" and "\<not> is_space c" and "c \<noteq> CHR ''-''" and "c \<noteq> CHR ''+''"
  shows "fst (user_error (c # cs)) = 1"
proof -
  have "str_int (section_of (CHR '':'') 0 (c # cs)) = None"
  proof (cases "c = CHR '':''")
    case True
    then show ?thesis by (simp add: section_of_def Let_def str_int_def trim_def)
  next
    case False
    then obtain f where f: "section_of (CHR '':'') 0 (c # cs) = c # f"
      by (cases "split_at (CHR '':'') cs") (simp_all add: section_of_def Let_def)
    have "\<exists>g. dropWhile is_space (rev f @ [c]) = g @ [c]"
      using assms(2) by (cases "list_all is_space f") (auto simp: dropWhile_append list_all_iff)
    then obtain g where "trim (c # f) = c # rev g" using assms(2) by (auto simp: trim_def)
    then show ?thesis using assms by (simp add: str_int_def f)
  qed
  then show ?thesis by (simp add: user_error_def)
qed

lemma name_code: "map_of (map (\<lambda>(name, code). (ERR_PREFIX @ name, code)) xs) (ERR_PREFIX @ name) = map_of xs name"
  by (induction xs) auto

lemma received_code:
  "error_code (received err msg) =
     (case map_of client_errors (fst (error_reply err msg)) of
        Some code \<Rightarrow> (code, [])
      | None \<Rightarrow> if fst (error_reply err msg) = ''User'' then user_error (chars (snd (error_reply err msg))) else (1, []))"
  by (simp add: error_code_def received_def name_code split: option.split)

lemma unknown_code: "fst (error_reply err msg) = ''Unknown'' \<Longrightarrow> error_code (received err msg) = (1, [])"
  by (simp add: received_code client_errors_def)

lemma session_range:
  assumes "300 < err" and "err < 400"
  shows "fst (error_reply err msg) = (case map_of session_errors err of Some (name, tx) \<Rightarrow> name | None \<Rightarrow> ''Unknown'')"
  using assms by (simp add: error_reply_def Let_def unknown_error_def split: option.split prod.split)

lemma in_tables:
  assumes "map_of session_errors err = Some (name, tx)" and "300 < err"
  shows "map_of client_errors name = Some err"
proof -
  have "\<forall>(e, n, tx) \<in> set session_errors. 300 < e \<longrightarrow> map_of client_errors n = Some e"
    by (simp add: session_errors_def client_errors_def)
  then show ?thesis using map_of_SomeD [OF assms(1)] assms(2) by auto
qed

lemma table_range:
  assumes "300 < err"
  shows "map_of session_errors err = None \<longleftrightarrow> err = 315 \<or> err = 318 \<or> 319 < err"
proof -
  have "err \<in> fst ` set session_errors \<longleftrightarrow> err = 5 \<or> 301 \<le> err \<and> err \<le> 314 \<or> err = 316 \<or> err = 317 \<or> err = 319"
    by (simp add: session_errors_def) presburger
  then show ?thesis using assms by (simp add: map_of_eq_None_iff) presburger
qed

text \<open>C34: What the application is told of the error of a plugin. The errors of sessions that the daemon has a
  name for keep their number; \<open>EncryptionFailed\<close>, \<open>MethodOrMechanismNotAllowed\<close>, the numbers the enumeration does
  not have and all numbers below 300 become \<open>Unknown\<close>. An error of a plugin's own, above 400, keeps its number if
  it has no message; if it has one, the number is not sent, and what comes before the first colon of the
  message is read in its place: it becomes \<open>Unknown\<close> unless the message begins with a number.\<close>

theorem session_error_codes:
  assumes "err \<noteq> 300" and "err \<noteq> 400" and "err < 2147483648"
  shows "fst (error_code (received err msg)) =
      (if err < 300 then 1
       else if err < 400 then if err = 315 \<or> err = 318 \<or> 319 < err then 1 else err
       else if qisEmpty msg then err else fst (user_error (chars msg)))
    \<and> (400 < err \<and> chars msg = c # cs \<and> \<not> is_digit c \<and> \<not> is_space c \<and> c \<noteq> CHR ''-'' \<and> c \<noteq> CHR ''+'' \<longrightarrow>
        fst (error_code (received err msg)) = 1)"
proof -
  have low: "fst (error_code (received err msg)) = 1" if "err < 300"
    using that unknown_code [of err msg] by (simp add: error_reply_def Let_def unknown_error_def)
  have mid: "fst (error_code (received err msg)) = (if err = 315 \<or> err = 318 \<or> 319 < err then 1 else err)" if r: "300 < err" "err < 400"
  proof (cases "map_of session_errors err")
    case None
    then show ?thesis using unknown_code [of err msg] session_range [OF r, of msg] table_range [OF r(1)] by simp
  next
    case (Some p)
    then obtain name tx where p: "map_of session_errors err = Some (name, tx)" by (cases p) auto
    then have "error_code (received err msg) = (err, [])"
      using session_range [OF r, of msg] in_tables [OF p r(1)] by (simp add: received_code)
    then show ?thesis using p table_range [OF r(1)] by auto
  qed
  have high: "fst (error_code (received err msg)) = (if qisEmpty msg then err else fst (user_error (chars msg)))" if "400 < err"
  proof -
    have e: "error_reply err msg = (''User'', if qisEmpty msg then QStr (int_str err @ CHR '':'' # chars msg) else msg)"
      using that by (simp add: error_reply_def Let_def)
    have "map_of client_errors ''User'' = None" by (simp add: client_errors_def)
    then show ?thesis using that assms(3) user_error_number [of err "chars msg"] by (simp add: received_code e)
  qed
  have "err < 300 \<or> 300 < err \<and> err < 400 \<or> 400 < err" using assms(1,2) by linarith
  moreover have "chars msg = c # cs \<Longrightarrow> \<not> qisEmpty msg" by (simp add: qisEmpty_def)
  ultimately show ?thesis
    using low mid high user_error_text [of c cs] by (auto simp: qisEmpty_def)
qed

theorem session_error_codes_witness:
  "fst (error_code (received 317 QNull)) = 317 \<and> fst (error_code (received 450 QNull)) = 450
   \<and> fst (error_code (received 450 (QStr ''quota''))) = 1"
  using session_error_codes [of 317 QNull] session_error_codes [of 450 QNull]
    session_error_codes [of 450 "QStr ''quota''" "CHR ''q''" "''uota''"]
  by (simp add: is_digit_def is_space_def)

end
