(* ===== verification/Client_Identity.thy ===== *)
theory Client_Identity
  imports Client_Session Identity_Info
begin

text \<open>
  \<open>IdentityImpl\<close> of the client library (lib/SignOn/identityimpl.cpp) with the parts of \<open>IdentityInfoImpl\<close> it uses
  (lib/SignOn/identityinfoimpl.cpp, .h): an identity as the client has it, on top of its proxy. A registration is
  the one call of a proxy created for it; the registrations under way are a list. The sessions of the identity
  are objects with numbers.
\<close>

section \<open>IdentityInfoImpl\<close>

definition ii_setId :: "nat \<Rightarrow> qvariant_map \<Rightarrow> qvariant_map" where
  "ii_setId n info = qm_insert KEY_ID (VUInt n) info"

definition ii_id :: "qvariant_map \<Rightarrow> nat" where
  "ii_id info = v_toUInt (qm_value info KEY_ID (VInt 0))"

definition ii_setMethods :: "method_map \<Rightarrow> qvariant_map \<Rightarrow> qvariant_map" where
  "ii_setMethods m info = qm_insert KEY_AUTHMETHODS (VMethodMap m) info"

definition ii_methods :: "qvariant_map \<Rightarrow> method_map" where
  "ii_methods info = v_methodMap (qm_value info KEY_AUTHMETHODS VInvalid)"

definition updateMethod :: "string \<Rightarrow> qstring list \<Rightarrow> qvariant_map \<Rightarrow> qvariant_map" where
  "updateMethod meth mechanismsList info = ii_setMethods (qm_insert meth mechanismsList (ii_methods info)) info"

definition removeMethod :: "string \<Rightarrow> qvariant_map \<Rightarrow> qvariant_map" where
  "removeMethod meth info =
     (let methodMap = ii_methods info in if qm_contains methodMap meth then ii_setMethods (qm_remove meth methodMap) info else info)"

definition hasMethod :: "string \<Rightarrow> qvariant_map \<Rightarrow> bool" where
  "hasMethod meth info = qm_contains (ii_methods info) meth"

definition updateFromMap :: "qvariant_map \<Rightarrow> qvariant_map" where
  "updateFromMap m =
     fold (\<lambda>(k, v) this.
        case v of
          VDBus container \<Rightarrow> if k = KEY_AUTHMETHODS then ii_setMethods (qdbus_cast_methods container) this else this
        | _ \<Rightarrow> qm_insert k v this) m []"

section \<open>State\<close>

datatype identity_state = PendingRegistration | NeedsRegistration | NeedsUpdate | PendingUpdate | Removed | ReadyState

datatype identity_signal =
    IdentityError int qstring
  | MethodsAvailable "string list"
  | InfoSignal qvariant_map
  | CredentialsStored nat
  | IdentityRemoved
  | ReferenceAdded
  | ReferenceRemoved
  | UserVerified bool
  | SecretVerified bool
  | SignedOut

text \<open>\<open>ci_cancelReplies\<close> are the sessions whose errors go to \<open>authSessionCancelReply\<close>, \<open>ci_timers\<close> those a timer will
  delete.\<close>

record client_identity = dbus_proxy +
  ci_info :: qvariant_map
  ci_tmpInfo :: "qvariant_map option"
  ci_state :: identity_state
  ci_authSessions :: "nat list"
  ci_infoQueried :: bool
  ci_methodsQueried :: bool
  ci_signOutRequested :: bool
  ci_sessions :: "(nat, client_session) qhash"
  ci_nextSession :: nat
  ci_cancelReplies :: "nat list"
  ci_timers :: "nat list"
  ci_deleteLater :: "nat list"
  ci_registrations :: "(string \<times> qvariant list) list"
  ci_signals :: "identity_signal list"

definition ci_tell :: "identity_signal \<Rightarrow> client_identity \<Rightarrow> client_identity" where
  "ci_tell e s = s\<lparr>ci_signals := ci_signals s @ [e]\<rparr>"

definition null_session :: client_session where
  "null_session = dbus_proxy.extend AsyncDBusProxy (client_session.fields 0 [] False None [] [])"

definition the_session :: "nat \<Rightarrow> client_identity \<Rightarrow> client_session" where
  "the_session k s = qh_value (ci_sessions s) k null_session"

definition on_session :: "nat \<Rightarrow> (client_session \<Rightarrow> client_session) \<Rightarrow> client_identity \<Rightarrow> client_identity" where
  "on_session k f s = s\<lparr>ci_sessions := qh_insert k (f (the_session k s)) (ci_sessions s)\<rparr>"

definition ci_id :: "client_identity \<Rightarrow> nat" where
  "ci_id s = ii_id (ci_info s)"

section \<open>Registration and errors\<close>

definition sendRegisterRequest :: "client_identity \<Rightarrow> client_identity" where
  "sendRegisterRequest s =
     (if ci_state s = PendingRegistration then s
      else
        let request = (if ci_id s \<noteq> 0 then (''getIdentity'', [VUInt (ci_id s)]) else (''registerNewIdentity'', []))
        in s\<lparr>ci_registrations := ci_registrations s @ [request], ci_state := PendingRegistration\<rparr>)"

text \<open>The names \<open>ci_errorReply\<close> compares with, without the prefix.\<close>

definition identity_errors :: "(string \<times> int) list" where
  "identity_errors =
     [(''Unknown'', 1), (''InternalServer'', 2), (''PermissionDenied'', 4), (''EncryptionFailed'', 5), (''MethodNotAvailable'', 201),
      (''IdentityNotFound'', 202), (''StoreFailed'', 203), (''RemoveFailed'', 204), (''SignOutFailed'', 205),
      (''IdentityOperationCanceled'', 206), (''CredentialsNotAvailable'', 207), (''ReferenceNotFound'', 208), (''ForgotPassword'', 317)]"

definition signon_error :: "dbus_error \<Rightarrow> int option" where
  "signon_error err = map_of (map (\<lambda>(name, code). (ERR_PREFIX @ name, code)) identity_errors) (err_name err)"

definition ci_errorReply :: "dbus_error \<Rightarrow> client_identity \<Rightarrow> client_identity" where
  "ci_errorReply err s0 =
     (case signon_error err of
        Some code \<Rightarrow>
          let s = ci_tell (IdentityError code (err_message err)) s0
          in if code = 203 then s\<lparr>ci_tmpInfo := None\<rparr> else s
      | None \<Rightarrow>
          let s = (if ci_state s0 = PendingRegistration then s0\<lparr>ci_state := NeedsRegistration\<rparr> else s0)
          in ci_tell (IdentityError (if err_type err \<noteq> NoDBusError then 3 else 1) (err_message err)) s)"

section \<open>Replies\<close>

fun uint_argument :: "qvariant list \<Rightarrow> nat" where
  "uint_argument (v # _) = v_toUInt v"
| "uint_argument [] = 0"

fun bool_argument :: "qvariant list \<Rightarrow> bool" where
  "bool_argument (v # _) = v_toBool v"
| "bool_argument [] = False"

definition storeCredentialsReply :: "qvariant list \<Rightarrow> client_identity \<Rightarrow> client_identity" where
  "storeCredentialsReply reply s0 =
     (let n = uint_argument reply;
          s = (case ci_tmpInfo s0 of None \<Rightarrow> s0 | Some info \<Rightarrow> s0\<lparr>ci_info := info, ci_tmpInfo := None\<rparr>);
          s = (if n \<noteq> ci_id s
               then fold (\<lambda>k. on_session k (ca_setId n)) (ci_authSessions s) (s\<lparr>ci_info := ii_setId n (ci_info s)\<rparr>)
               else s)
      in ci_tell (CredentialsStored n) s)"

definition removeReply :: "client_identity \<Rightarrow> client_identity" where
  "removeReply s = ci_tell IdentityRemoved (s\<lparr>ci_info := [], ci_state := Removed\<rparr>)"

definition updateCachedData :: "qvariant_map \<Rightarrow> client_identity \<Rightarrow> client_identity" where
  "updateCachedData infoData s = s\<lparr>ci_info := updateFromMap infoData\<rparr>"

definition getInfoReply :: "qvariant list \<Rightarrow> client_identity \<Rightarrow> client_identity" where
  "getInfoReply reply s0 =
     (let s = (updateCachedData (variant_map_of reply) s0)\<lparr>ci_state := ReadyState\<rparr>;
          s = (if ci_infoQueried s then (ci_tell (InfoSignal (ci_info s)) s)\<lparr>ci_infoQueried := False\<rparr> else s)
      in if ci_methodsQueried s
         then (ci_tell (MethodsAvailable (qm_keys (ii_methods (ci_info s)))) s)\<lparr>ci_methodsQueried := False\<rparr> else s)"

definition addReferenceReply :: "client_identity \<Rightarrow> client_identity" where
  "addReferenceReply s = ci_tell ReferenceAdded s"

definition removeReferenceReply :: "client_identity \<Rightarrow> client_identity" where
  "removeReferenceReply s = ci_tell ReferenceRemoved s"

definition verifyUserReply :: "qvariant list \<Rightarrow> client_identity \<Rightarrow> client_identity" where
  "verifyUserReply reply s = ci_tell (UserVerified (bool_argument reply)) s"

definition verifySecretReply :: "qvariant list \<Rightarrow> client_identity \<Rightarrow> client_identity" where
  "verifySecretReply reply s = ci_tell (SecretVerified (bool_argument reply)) s"

definition signOutReply :: "client_identity \<Rightarrow> client_identity" where
  "signOutReply s = ci_tell SignedOut s"

lemmas reply_defs = addReferenceReply_def removeReferenceReply_def verifyUserReply_def verifySecretReply_def signOutReply_def

definition ci_on_success :: "nat \<Rightarrow> string \<Rightarrow> qvariant list \<Rightarrow> client_identity \<Rightarrow> client_identity" where
  "ci_on_success n slot reply s =
     (if slot = ''storeCredentialsReply'' then storeCredentialsReply reply s
      else if slot = ''removeReply'' then removeReply s
      else if slot = ''addReferenceReply'' then addReferenceReply s
      else if slot = ''removeReferenceReply'' then removeReferenceReply s
      else if slot = ''getInfoReply'' then getInfoReply reply s
      else if slot = ''verifyUserReply'' then verifyUserReply reply s
      else if slot = ''verifySecretReply'' then verifySecretReply reply s
      else if slot = ''signOutReply'' then signOutReply s
      else s)"

definition identity_slots :: "client_identity proxy_slots" where
  "identity_slots = \<lparr>on_error = \<lambda>n slot err. ci_errorReply err, on_success = ci_on_success, on_finished = \<lambda>n slot watcher s. s,
     on_connectionNeeded = ap_emit ConnectionNeeded, on_objectPathNeeded = sendRegisterRequest\<rparr>"

definition call :: "string \<Rightarrow> qvariant list \<Rightarrow> string \<Rightarrow> client_identity \<Rightarrow> client_identity" where
  "call operation args replySlot s = snd (queueCall identity_slots operation args (Some replySlot) (Some ''errorReply'') s)"

section \<open>Operations\<close>

definition updateContents :: "client_identity \<Rightarrow> client_identity" where
  "updateContents s = (call ''getInfo'' [] ''getInfoReply'' s)\<lparr>ci_state := PendingUpdate\<rparr>"

definition updateState :: "identity_state \<Rightarrow> client_identity \<Rightarrow> client_identity" where
  "updateState state s0 = (let s = s0\<lparr>ci_state := state\<rparr> in if state = NeedsUpdate then updateContents s else s)"

definition IdentityImpl :: "nat \<Rightarrow> bool \<Rightarrow> client_identity" where
  "IdentityImpl n hasConnection =
     (let s = dbus_proxy.extend AsyncDBusProxy (client_identity.fields [] None NeedsRegistration [] True False False [] 0 [] [] [] [] []);
          s = (if hasConnection then setConnection identity_slots True no_error s else s);
          s = ap_connect ''unregistered'' (ap_connect ''infoUpdated'' s)
      in sendRegisterRequest (s\<lparr>ci_info := ii_setId n (ci_info s)\<rparr>))"

definition copyInfo :: "qvariant_map \<Rightarrow> client_identity \<Rightarrow> client_identity" where
  "copyInfo info s = s\<lparr>ci_info := info\<rparr>"

definition checkRemoved :: "client_identity \<Rightarrow> bool \<times> client_identity" where
  "checkRemoved s =
     (if ci_state s = Removed then (False, ci_tell (IdentityError 202 (QStr ''Removed from database.'')) s) else (True, s))"

definition unless_removed :: "(client_identity \<Rightarrow> client_identity) \<Rightarrow> client_identity \<Rightarrow> client_identity" where
  "unless_removed f s = (let (ok, s) = checkRemoved s in if ok then f s else s)"

definition ci_queryAvailableMethods :: "client_identity \<Rightarrow> client_identity" where
  "ci_queryAvailableMethods =
     unless_removed (\<lambda>s. if ci_state s = ReadyState then ci_tell (MethodsAvailable (qm_keys (ii_methods (ci_info s)))) s
                         else updateContents (s\<lparr>ci_methodsQueried := True\<rparr>))"

definition ci_queryInfo :: "client_identity \<Rightarrow> client_identity" where
  "ci_queryInfo =
     unless_removed (\<lambda>s. if ci_state s = ReadyState then ci_tell (InfoSignal (ci_info s)) s
                         else updateContents (s\<lparr>ci_infoQueried := True\<rparr>))"

definition ci_requestCredentialsUpdate :: "qstring \<Rightarrow> client_identity \<Rightarrow> client_identity" where
  "ci_requestCredentialsUpdate message = unless_removed (call ''requestCredentialsUpdate'' [VString message] ''storeCredentialsReply'')"

definition ci_addReference :: "qstring \<Rightarrow> client_identity \<Rightarrow> client_identity" where
  "ci_addReference ref = unless_removed (call ''addReference'' [VString ref] ''addReferenceReply'')"

definition ci_removeReference :: "qstring \<Rightarrow> client_identity \<Rightarrow> client_identity" where
  "ci_removeReference ref = unless_removed (call ''removeReference'' [VString ref] ''removeReferenceReply'')"

definition ci_verifyUser :: "qvariant_map \<Rightarrow> client_identity \<Rightarrow> client_identity" where
  "ci_verifyUser params = unless_removed (call ''verifyUser'' [VMap params] ''verifyUserReply'')"

definition ci_verifyUser_message :: "qstring \<Rightarrow> client_identity \<Rightarrow> client_identity" where
  "ci_verifyUser_message message = ci_verifyUser (qm_insert ''QueryMessage'' (VString message) [])"

definition ci_verifySecret :: "qstring \<Rightarrow> client_identity \<Rightarrow> client_identity" where
  "ci_verifySecret secret = unless_removed (call ''verifySecret'' [VString secret] ''verifySecretReply'')"

definition ci_storeCredentials :: "qvariant_map \<Rightarrow> client_identity \<Rightarrow> client_identity" where
  "ci_storeCredentials info s0 =
     (let s = (if ci_state s0 = Removed then updateState NeedsRegistration s0 else s0);
          localInfo = (if info = [] then ci_info s else info)
      in if localInfo = [] then ci_tell (IdentityError 203 (QStr ''Invalid Identity data.'')) s
         else call ''store'' [VMap (qm_insert KEY_ID (VUInt (ci_id s)) localInfo)] ''storeCredentialsReply'' s)"

definition ci_remove :: "client_identity \<Rightarrow> client_identity" where
  "ci_remove s =
     (if ci_id s \<noteq> 0 then call ''remove'' [] ''removeReply'' s
      else ci_tell (IdentityError 202 (QStr ''Remove request failed. The identity is not stored'')) s)"

section \<open>Sessions\<close>

definition createSession :: "string \<Rightarrow> bool \<Rightarrow> client_identity \<Rightarrow> nat option \<times> client_identity" where
  "createSession methodName hasConnection s =
     (if \<exists>k \<in> set (ci_authSessions s). ca_methodName (the_session k s) = methodName then (None, s)
      else
        let k = ci_nextSession s
        in (Some k, s\<lparr>ci_sessions := qh_insert k (AuthSessionImpl (ci_id s) methodName hasConnection) (ci_sessions s), ci_nextSession := k + 1,
              ci_authSessions := ci_authSessions s @ [k]\<rparr>))"

definition destroySession :: "nat \<Rightarrow> client_identity \<Rightarrow> client_identity" where
  "destroySession k s = s\<lparr>ci_authSessions := remove1 k (ci_authSessions s), ci_deleteLater := ci_deleteLater s @ [k]\<rparr>"

text \<open>The error numbers are those of \<open>SessionCanceled\<close> and \<open>WrongState\<close>.\<close>

definition authSessionCancelReply :: "nat \<Rightarrow> int \<Rightarrow> client_identity \<Rightarrow> client_identity" where
  "authSessionCancelReply sender err s = (if err = 311 \<or> err = 305 then s\<lparr>ci_deleteLater := ci_deleteLater s @ [sender]\<rparr> else s)"

fun error_of :: "session_signal \<Rightarrow> int option" where
  "error_of (SessionError err _) = Some err"
| "error_of _ = None"

text \<open>Something happens to a session: the errors it reports go to \<open>authSessionCancelReply\<close> if it is connected.\<close>

definition session_does :: "nat \<Rightarrow> (client_session \<Rightarrow> client_session) \<Rightarrow> client_identity \<Rightarrow> client_identity" where
  "session_does k f s0 =
     (let old = the_session k s0;
          s = on_session k f s0;
          news = drop (length (ca_signals old)) (ca_signals (the_session k s))
      in if k \<in> set (ci_cancelReplies s)
         then fold (\<lambda>e s. case error_of e of None \<Rightarrow> s | Some err \<Rightarrow> authSessionCancelReply k err s) news s else s)"

definition clear_session :: "nat \<Rightarrow> client_identity \<Rightarrow> client_identity" where
  "clear_session k s0 =
     (let s = session_does k ca_cancel (s0\<lparr>ci_authSessions := tl (ci_authSessions s0), ci_cancelReplies := ci_cancelReplies s0 @ [k]\<rparr>)
      in s\<lparr>ci_timers := ci_timers s @ [k]\<rparr>)"

definition clearAuthSessionsCache :: "client_identity \<Rightarrow> client_identity" where
  "clearAuthSessionsCache s = fold clear_session (ci_authSessions s) s"

definition ci_signOut :: "client_identity \<Rightarrow> client_identity" where
  "ci_signOut =
     unless_removed (\<lambda>s. clearAuthSessionsCache
       (if ci_id s \<noteq> 0 then (call ''signOut'' [] ''signOutReply'' s)\<lparr>ci_signOutRequested := True\<rparr> else s))"

section \<open>Signals of the daemon and registration\<close>

text \<open>The states of the daemon's signal are 0 (updated), 1 (removed) and 2 (signed out).\<close>

definition infoUpdated :: "int \<Rightarrow> client_identity \<Rightarrow> client_identity" where
  "infoUpdated state s =
     (if state = 0 then updateState NeedsUpdate s
      else if state = 1 then updateState Removed s
      else if state = 2 then if \<not> ci_signOutRequested s then ci_tell SignedOut (clearAuthSessionsCache s) else s
      else s)"

definition registerReply :: "string \<Rightarrow> qvariant_map option \<Rightarrow> client_identity \<Rightarrow> client_identity" where
  "registerReply path info s0 =
     (let s = (case info of None \<Rightarrow> s0 | Some m \<Rightarrow> updateCachedData m s0)
      in updateState ReadyState (setObjectPath identity_slots path s))"

definition remoteObjectDestroyed :: "client_identity \<Rightarrow> client_identity" where
  "remoteObjectDestroyed s = updateState NeedsRegistration (setObjectPath identity_slots [] s)"

section \<open>Events\<close>

datatype identity_event =
    IdentityBus bool dbus_error
  | IdentityBusLost
  | IdentityBusFails dbus_error
  | IdentityAnswer nat "dbus_error + qvariant list"
  | IdentityLoop
  | IdentityRegistered string "qvariant_map option"
  | IdentityRefused dbus_error
  | InfoUpdated int
  | RemoteDestroyed
  | SessionDoes nat client_session_event
  | SessionTimer
  | SessionDeleted
  | AskMethods
  | AskInfo
  | AskUpdate qstring
  | AskStore qvariant_map
  | AskRemove
  | AskAddReference qstring
  | AskRemoveReference qstring
  | AskVerifyUser qvariant_map
  | AskVerifySecret qstring
  | AskSignOut
  | AskSession string bool
  | DropSession nat

definition identity_registration :: "(client_identity \<Rightarrow> client_identity) \<Rightarrow> client_identity \<Rightarrow> client_identity" where
  "identity_registration slot s = (case ci_registrations s of [] \<Rightarrow> s | _ # rs \<Rightarrow> slot (s\<lparr>ci_registrations := rs\<rparr>))"

fun ci_step :: "identity_event \<Rightarrow> client_identity \<Rightarrow> client_identity" where
  "ci_step (IdentityBus isConnected err) s = setConnection identity_slots isConnected err s"
| "ci_step IdentityBusLost s = setDisconnected identity_slots s"
| "ci_step (IdentityBusFails err) s = s\<lparr>ap_connection := map_option (\<lambda>_. False) (ap_connection s), ap_connectionError := err\<rparr>"
| "ci_step (IdentityAnswer n watcher) s = (if n \<in> set (ap_inFlight s) then pc_onFinished identity_slots n watcher s else s)"
| "ci_step IdentityLoop s = event_loop identity_slots s"
| "ci_step (IdentityRegistered path info) s = identity_registration (registerReply path info) s"
| "ci_step (IdentityRefused err) s = identity_registration (ci_errorReply err) s"
| "ci_step (InfoUpdated state) s = infoUpdated state s"
| "ci_step RemoteDestroyed s = remoteObjectDestroyed s"
| "ci_step (SessionDoes k e) s = (if k \<in> fst ` set (ci_sessions s) then session_does k (ca_step e) s else s)"
| "ci_step SessionTimer s = s\<lparr>ci_deleteLater := ci_deleteLater s @ take 1 (ci_timers s), ci_timers := drop 1 (ci_timers s)\<rparr>"
| "ci_step SessionDeleted s =
     s\<lparr>ci_sessions := fold qh_remove (take 1 (ci_deleteLater s)) (ci_sessions s), ci_deleteLater := drop 1 (ci_deleteLater s)\<rparr>"
| "ci_step AskMethods s = ci_queryAvailableMethods s"
| "ci_step AskInfo s = ci_queryInfo s"
| "ci_step (AskUpdate message) s = ci_requestCredentialsUpdate message s"
| "ci_step (AskStore info) s = ci_storeCredentials info s"
| "ci_step AskRemove s = ci_remove s"
| "ci_step (AskAddReference ref) s = ci_addReference ref s"
| "ci_step (AskRemoveReference ref) s = ci_removeReference ref s"
| "ci_step (AskVerifyUser params) s = ci_verifyUser params s"
| "ci_step (AskVerifySecret secret) s = ci_verifySecret secret s"
| "ci_step AskSignOut s = ci_signOut s"
| "ci_step (AskSession methodName hasConnection) s = snd (createSession methodName hasConnection s)"
| "ci_step (DropSession k) s = destroySession k s"

end
