(* ===== verification/Client_Identity_Run.thy ===== *)
theory Client_Identity_Run
  imports Client_Identity
begin

text \<open>
  What runs of a client's identity show: its slots leave the proxy alone, so its calls are accounted for; a refused
  registration; signing out.
\<close>

section \<open>The slots leave the proxy alone\<close>

lemma fold_same: "(\<And>k s. same_proxy (f k s) s) \<Longrightarrow> same_proxy (fold f ks s) s"
  by (induction ks arbitrary: s) (auto simp: same_proxy_def)

lemma on_session_same: "same_proxy (on_session k f s) s"
  by (simp add: on_session_def same_proxy_def)

lemma errorReply_same: "same_proxy (ci_errorReply err s) s"
  by (simp add: ci_errorReply_def ci_tell_def Let_def same_proxy_def split: option.split)

lemma storeReply_same: "same_proxy (storeCredentialsReply reply s) s"
proof -
  have "same_proxy (ci_tell e (fold (\<lambda>k. on_session k (ca_setId n)) ks (s\<lparr>ci_tmpInfo := t, ci_info := i\<rparr>))) s"
    "same_proxy (ci_tell e (fold (\<lambda>k. on_session k (ca_setId n)) ks (s\<lparr>ci_info := i\<rparr>))) s" for e n ks i t
    using fold_same [of "\<lambda>k. on_session k (ca_setId n)" ks "s\<lparr>ci_tmpInfo := t, ci_info := i\<rparr>", OF on_session_same]
      fold_same [of "\<lambda>k. on_session k (ca_setId n)" ks "s\<lparr>ci_info := i\<rparr>", OF on_session_same]
    by (simp_all add: same_proxy_def ci_tell_def)
  moreover have "same_proxy (ci_tell e s) s" "same_proxy (ci_tell e (s\<lparr>ci_info := i, ci_tmpInfo := t\<rparr>)) s" for e i t
    by (simp_all add: same_proxy_def ci_tell_def)
  ultimately show ?thesis by (simp add: storeCredentialsReply_def Let_def split: option.split)
qed

lemma success_same: "same_proxy (ci_on_success n slot reply s) s"
  using storeReply_same [of reply s]
  by (simp add: ci_on_success_def) (simp add: same_proxy_def removeReply_def getInfoReply_def updateCachedData_def ci_tell_def reply_defs Let_def)

lemma identity_polite:
  "same_proxy (on_error identity_slots n slot err s) s" "same_proxy (on_success identity_slots n slot reply s) s"
  "same_proxy (on_finished identity_slots n slot w s) s" "same_proxy (on_connectionNeeded identity_slots s) s"
  "same_proxy (on_objectPathNeeded identity_slots s) s"
  by (simp_all add: identity_slots_def errorReply_same success_same same_emit)
    (simp_all add: same_proxy_def sendRegisterRequest_def Let_def)

interpretation identity: polite_slots identity_slots
  by unfold_locales (rule identity_polite)+

section \<open>An identity that waits for its registration\<close>

text \<open>The events that can happen while no registration is answered and there is no remote object, but for the two
  queries of cached data.\<close>

definition waits :: "identity_event \<Rightarrow> bool" where
  "waits e = (case e of
     IdentityRegistered _ _ \<Rightarrow> False | IdentityRefused _ \<Rightarrow> False | InfoUpdated _ \<Rightarrow> False | RemoteDestroyed \<Rightarrow> False
   | AskMethods \<Rightarrow> False | AskInfo \<Rightarrow> False | _ \<Rightarrow> True)"

definition asks_daemon :: "identity_event \<Rightarrow> bool" where
  "asks_daemon e = (case e of AskUpdate _ \<Rightarrow> True | AskStore _ \<Rightarrow> True | AskRemove \<Rightarrow> True | AskAddReference _ \<Rightarrow> True
     | AskRemoveReference _ \<Rightarrow> True | AskVerifyUser _ \<Rightarrow> True | AskVerifySecret _ \<Rightarrow> True | AskSignOut \<Rightarrow> True | _ \<Rightarrow> False)"

text \<open>Nothing is sent, \<open>q\<close> calls are queued, the registrations \<open>rs\<close> are under way and the application has been told \<open>es\<close>.\<close>

definition awaiting :: "nat \<Rightarrow> (string \<times> qvariant list) list \<Rightarrow> nat \<Rightarrow> identity_signal list \<Rightarrow> client_identity \<Rightarrow> bool" where
  "awaiting n rs q es s \<longleftrightarrow> ci_state s = PendingRegistration \<and> ap_path s = [] \<and> ap_status s = Incomplete \<and> ap_interface s = None
     \<and> ap_inFlight s = [] \<and> failing (ap_posted s) = [] \<and> length (ap_operationsQueue s) = q \<and> ci_registrations s = rs
     \<and> ci_id s = n \<and> ci_signals s = es"

lemma waiting_call:
  assumes "awaiting n rs q es s"
  shows "awaiting n rs (Suc q) es (call operation args slot s)"
proof -
  define u where "u = set_call (ap_nextCall s) \<lparr>pc_meth = operation, pc_args = args, pc_replySlot = Some slot, pc_errorSlot = Some ''errorReply'',
    pc_watcher = False, pc_interface = 0, pc_interfaceWasDestroyed = False\<rparr> (s\<lparr>ap_nextCall := ap_nextCall s + 1\<rparr>)"
  have u: "ci_state u = PendingRegistration" "ap_path u = []" "ap_status u = Incomplete" "ap_interface u = None" "ap_inFlight u = []"
      "failing (ap_posted u) = []" "length (ap_operationsQueue u) = q" "ci_registrations u = rs" "ci_id u = n" "ci_signals u = es"
    using assms by (simp_all add: awaiting_def u_def set_call_def ci_id_def)
  have "call operation args slot s = enqueue identity_slots (ap_nextCall s) u"
    using u(3) by (simp add: call_def queueCall_def Let_def u_def)
  then show ?thesis
    using u by (simp add: enqueue_def Let_def identity_slots_def ap_emit_def sendRegisterRequest_def awaiting_def ci_id_def)
qed

lemma waiting_cong:
  "awaiting n rs q es (s\<lparr>ci_sessions := a, ci_nextSession := b, ci_authSessions := c, ci_cancelReplies := d, ci_timers := e, ci_deleteLater := f\<rparr>)
     = awaiting n rs q es s"
  "awaiting n rs q es (s\<lparr>ci_sessions := a\<rparr>) = awaiting n rs q es s"
  "awaiting n rs q es (s\<lparr>ci_deleteLater := f\<rparr>) = awaiting n rs q es s"
  "awaiting n rs q es (s\<lparr>ci_timers := e\<rparr>) = awaiting n rs q es s"
  "awaiting n rs q es (s\<lparr>ci_authSessions := c\<rparr>) = awaiting n rs q es s"
  "awaiting n rs q es (s\<lparr>ci_cancelReplies := d\<rparr>) = awaiting n rs q es s"
  "awaiting n rs q es (s\<lparr>ci_nextSession := b\<rparr>) = awaiting n rs q es s"
  "awaiting n rs q es (s\<lparr>ci_signOutRequested := g\<rparr>) = awaiting n rs q es s"
  by (simp_all add: awaiting_def ci_id_def)

lemma waiting_session: "awaiting n rs q es (session_does k f s) = awaiting n rs q es s"
proof -
  have "awaiting n rs q es (fold (\<lambda>e s. case error_of e of None \<Rightarrow> s | Some err \<Rightarrow> authSessionCancelReply k err s) xs t) = awaiting n rs q es t" for xs t
    by (induction xs arbitrary: t) (simp_all add: authSessionCancelReply_def waiting_cong split: option.split)
  then show ?thesis by (simp add: session_does_def Let_def on_session_def waiting_cong)
qed

lemma waiting_clear: "awaiting n rs q es (clearAuthSessionsCache s) = awaiting n rs q es s"
proof -
  have "awaiting n rs q es (clear_session k t) = awaiting n rs q es t" for k t
    by (simp add: clear_session_def Let_def waiting_cong waiting_session)
  then have "awaiting n rs q es (fold clear_session ks t) = awaiting n rs q es t" for ks t
    by (induction ks arbitrary: t) simp_all
  then show ?thesis by (simp add: clearAuthSessionsCache_def)
qed

lemma awaiting_update:
  assumes "awaiting n rs q es s"
  shows "awaiting n rs q es (ap_update identity_slots (s\<lparr>ap_connection := c, ap_connectionError := e\<rparr>))"
    "awaiting n rs q es (ap_update identity_slots (s\<lparr>ap_connection := c, ap_path := []\<rparr>))"
  using assms by (simp_all add: awaiting_def ap_update_def setStatus_def Let_def ci_id_def)

lemma waiting_step:
  assumes "awaiting n rs q es s" and "n \<noteq> 0" and "waits e"
  shows "awaiting n rs (q + (if asks_daemon e then 1 else 0)) es (ci_step e s)"
proof -
  have nr: "unless_removed f s = f s" for f
    using assms(1) by (simp add: unless_removed_def checkRemoved_def awaiting_def)
  note upd = awaiting_update [OF assms(1)]
  show ?thesis
  proof (cases e)
    case (IdentityBus b err)
    then show ?thesis using upd(1) [where c = "Some b" and e = err] by (simp add: setConnection_def asks_daemon_def)
  next
    case IdentityBusLost
    then show ?thesis using upd(2) [where c = None] by (simp add: setDisconnected_def asks_daemon_def)
  next
    case (IdentityBusFails err)
    then show ?thesis using assms(1) by (simp add: asks_daemon_def awaiting_def ci_id_def)
  next
    case (IdentityAnswer k w)
    then show ?thesis using assms(1) by (simp add: asks_daemon_def awaiting_def)
  next
    case IdentityLoop
    then show ?thesis using assms(1)
      by (cases "ap_posted s" rule: failing.cases) (simp_all add: asks_daemon_def event_loop_def awaiting_def ci_id_def)
  next
    case (SessionDoes k x)
    then show ?thesis using assms(1) by (simp add: asks_daemon_def waiting_session)
  next
    case (AskStore info)
    have "ci_info s \<noteq> []" using assms(1,2) by (auto simp: awaiting_def ci_id_def ii_id_def qm_value_def)
    then show ?thesis
      using assms(1) waiting_call [OF assms(1)] by (simp add: AskStore asks_daemon_def ci_storeCredentials_def Let_def awaiting_def [of _ _ _ _ s])
  next
    case AskRemove
    then show ?thesis using assms waiting_call [OF assms(1)] by (simp add: asks_daemon_def ci_remove_def awaiting_def [of _ _ _ _ s])
  next
    case AskSignOut
    then show ?thesis using assms waiting_call [OF assms(1)]
      by (simp add: asks_daemon_def ci_signOut_def nr waiting_clear waiting_cong) (simp add: awaiting_def)
  next
    case (AskSession m c)
    have "awaiting n rs q es (s\<lparr>ci_sessions := x, ci_nextSession := y, ci_authSessions := z\<rparr>)" for x y z
      using assms(1) by (simp add: awaiting_def ci_id_def)
    then show ?thesis using assms(1) by (simp add: AskSession asks_daemon_def createSession_def Let_def)
  next
    case SessionTimer
    have "awaiting n rs q es (s\<lparr>ci_deleteLater := x, ci_timers := y\<rparr>)" for x y
      using assms(1) by (simp add: awaiting_def ci_id_def)
    then show ?thesis by (simp add: SessionTimer asks_daemon_def)
  next
    case SessionDeleted
    have "awaiting n rs q es (s\<lparr>ci_sessions := x, ci_deleteLater := y\<rparr>)" for x y
      using assms(1) by (simp add: awaiting_def ci_id_def)
    then show ?thesis by (simp add: SessionDeleted asks_daemon_def)
  next
    case (DropSession k)
    have "awaiting n rs q es (s\<lparr>ci_authSessions := x, ci_deleteLater := y\<rparr>)" for x y
      using assms(1) by (simp add: awaiting_def ci_id_def)
    then show ?thesis by (simp add: DropSession asks_daemon_def destroySession_def)
  qed (use assms(3) waiting_call [OF assms(1)] in \<open>simp_all add: waits_def asks_daemon_def nr ci_requestCredentialsUpdate_def ci_addReference_def
      ci_removeReference_def ci_verifyUser_def ci_verifySecret_def\<close>)
qed

lemma waiting_run:
  assumes "awaiting n rs q es s" and "n \<noteq> 0" and "list_all waits xs"
  shows "awaiting n rs (q + length (filter asks_daemon xs)) es (fold ci_step xs s)"
  using assms(1,3)
proof (induction xs arbitrary: s q)
  case (Cons x xs)
  from waiting_step [OF Cons.prems(1) assms(2), of x] Cons.prems(2) have "awaiting n rs (q + (if asks_daemon x then 1 else 0)) es (ci_step x s)" by simp
  from Cons.IH [OF this] Cons.prems(2) show ?case by (simp split: if_splits)
qed simp

lemma waiting_start:
  assumes "n \<noteq> 0"
  shows "awaiting n [(''getIdentity'', [VUInt n])] 0 [] (IdentityImpl n c)"
  using assms
  by (simp add: IdentityImpl_def AsyncDBusProxy_def dbus_proxy.defs client_identity.defs setConnection_def ap_update_def setStatus_def Let_def
      ap_connect_def sendRegisterRequest_def awaiting_def ci_id_def ii_id_def ii_setId_def qm_value_def)

section \<open>Properties\<close>

lemma query_registers_again:
  assumes "awaiting n [] q es t" and "n \<noteq> 0" and "e = AskInfo \<or> e = AskMethods"
  shows "ci_registrations (ci_step (AskVerifyUser params) (ci_step e t)) = [(''getIdentity'', [VUInt n])]"
proof -
  define r where "r = (if e = AskInfo then t\<lparr>ci_infoQueried := True\<rparr> else t\<lparr>ci_methodsQueried := True\<rparr>)"
  define u where "u = call ''getInfo'' [] ''getInfoReply'' r"
  have "awaiting n [] q es r" using assms(1) by (simp add: r_def awaiting_def ci_id_def)
  then have u: "awaiting n [] (Suc q) es u" unfolding u_def by (rule waiting_call)
  have "ci_step e t = u\<lparr>ci_state := PendingUpdate\<rparr>"
    using assms(1,3) by (auto simp: u_def r_def awaiting_def ci_queryInfo_def ci_queryAvailableMethods_def unless_removed_def
        checkRemoved_def updateContents_def)
  then show ?thesis
    using u assms(2) by (simp add: awaiting_def ci_id_def ci_verifyUser_def unless_removed_def checkRemoved_def call_def queueCall_def
        set_call_def enqueue_def identity_slots_def ap_emit_def sendRegisterRequest_def Let_def)
qed

text \<open>C35: A registration that the daemon refuses with an error of its own blocks the object. In every run of a client's
  identity in which no registration is answered but by one such error, and the application asks neither for the
  information nor for the methods: the application is told that one error, and every call it has made before or makes
  after it, however many, stays in the queue; no call is sent and no registration is asked for again. What ends
  this is a query of the information or the methods: the call after it asks for a registration. After any other error
  the next call does so at once.\<close>

theorem refused_registration_blocks_the_object:
  assumes "n \<noteq> 0" and "list_all waits before" and "list_all waits after" and "signon_error err = Some code" and "signon_error err' = None"
  shows "let s = fold ci_step before (IdentityImpl n hasConnection); t = fold ci_step after (ci_step (IdentityRefused err) s) in
      ci_signals t = [IdentityError code (err_message err)] \<and> ap_inFlight t = [] \<and> ci_registrations t = []
      \<and> length (ap_operationsQueue t) = length (filter asks_daemon (before @ after))
      \<and> ci_registrations (ci_step (AskVerifyUser params) (ci_step AskInfo t)) = [(''getIdentity'', [VUInt n])]
      \<and> ci_registrations (ci_step (AskVerifyUser params) (ci_step AskMethods t)) = [(''getIdentity'', [VUInt n])]
      \<and> ci_registrations (ci_step (AskVerifyUser params) (ci_step (IdentityRefused err') s)) = [(''getIdentity'', [VUInt n])]"
proof -
  define s where "s = fold ci_step before (IdentityImpl n hasConnection)"
  let ?r = "(''getIdentity'', [VUInt n])" and ?q = "length (filter asks_daemon before)"
  have s: "awaiting n [?r] ?q [] s"
    using waiting_run [OF waiting_start [OF assms(1)] assms(1,2)] by (simp add: s_def)
  have "awaiting n [] ?q [IdentityError code (err_message err)] (ci_step (IdentityRefused err) s)"
    using s assms(4) by (simp add: identity_registration_def awaiting_def ci_errorReply_def ci_tell_def Let_def ci_id_def)
  note t = waiting_run [OF this assms(1,3)]
  have "ci_registrations (ci_step (AskVerifyUser params) (ci_step (IdentityRefused err') s)) = [?r]"
    using s assms(1,5)
    by (simp add: identity_registration_def awaiting_def ci_errorReply_def ci_tell_def Let_def ci_id_def ci_verifyUser_def unless_removed_def
        checkRemoved_def call_def queueCall_def set_call_def enqueue_def identity_slots_def ap_emit_def sendRegisterRequest_def)
  then show ?thesis
    unfolding s_def [symmetric] Let_def
    using t query_registers_again [OF t assms(1), of AskInfo] query_registers_again [OF t assms(1), of AskMethods]
    by (simp add: awaiting_def)
qed

theorem refused_registration_blocks_the_object_witness:
  "let err = \<lparr>err_type = Other, err_name = ERR_PREFIX @ ''PermissionDenied'', err_message = QNull\<rparr>;
       t = fold ci_step [AskVerifyUser [], AskSignOut] (ci_step (IdentityRefused err) (fold ci_step [AskVerifySecret QNull] (IdentityImpl 7 True)))
   in ci_signals t = [IdentityError 4 QNull] \<and> ap_inFlight t = [] \<and> length (ap_operationsQueue t) = 3"
proof -
  have "signon_error \<lparr>err_type = Other, err_name = ERR_PREFIX @ ''PermissionDenied'', err_message = QNull\<rparr> = Some 4"
    "signon_error no_error = None"
    by (simp_all add: signon_error_def identity_errors_def no_error_def ERR_PREFIX_def)
  from refused_registration_blocks_the_object [of 7 "[AskVerifySecret QNull]" "[AskVerifyUser [], AskSignOut]", OF _ _ _ this]
  show ?thesis by (simp add: waits_def asks_daemon_def Let_def)
qed

section \<open>Signing out\<close>

text \<open>The mark of an identity whose application has signed out, as a property of what the client adds to the proxy.\<close>

definition marked :: "'a client_identity_ext \<Rightarrow> bool" where
  "marked m \<longleftrightarrow> ci_signOutRequested (dbus_proxy.extend AsyncDBusProxy m)"

lemma marked_more: "marked (dbus_proxy.more s) = ci_signOutRequested s"
  by (cases s) (simp add: marked_def dbus_proxy.defs AsyncDBusProxy_def)

lemma requested_fold:
  "(\<And>k s. ci_signOutRequested (f k s) = ci_signOutRequested s) \<Longrightarrow> ci_signOutRequested (fold f ks s) = ci_signOutRequested s"
  by (induction ks arbitrary: s) simp_all

lemma requested_slots:
  "ci_signOutRequested (ci_errorReply err s) = ci_signOutRequested s" "ci_signOutRequested (ci_on_success n slot reply s) = ci_signOutRequested s"
  "ci_signOutRequested (sendRegisterRequest s) = ci_signOutRequested s" "ci_signOutRequested (ci_tell e s) = ci_signOutRequested s"
proof -
  have [simp]: "ci_signOutRequested (ci_tell e s) = ci_signOutRequested s" for e s by (simp add: ci_tell_def)
  show "ci_signOutRequested (ci_errorReply err s) = ci_signOutRequested s" by (simp add: ci_errorReply_def Let_def split: option.split)
  have "ci_signOutRequested (fold (\<lambda>k. on_session k f) ks s) = ci_signOutRequested s" for f ks s
    by (rule requested_fold) (simp add: on_session_def)
  then show "ci_signOutRequested (ci_on_success n slot reply s) = ci_signOutRequested s"
    by (simp add: ci_on_success_def reply_defs storeCredentialsReply_def removeReply_def getInfoReply_def updateCachedData_def Let_def split: option.split)
qed (simp_all add: sendRegisterRequest_def ci_tell_def Let_def)

interpretation marked: slot_invariant identity_slots marked
  by unfold_locales (simp_all add: marked_more identity_slots_def requested_slots ap_emit_def)

lemmas marked_facts = marked.inv_settings marked.inv_queueCall marked.inv_events

lemmas requested_proxy = marked_facts [unfolded marked_more]

lemma requested_call: "ci_signOutRequested s \<Longrightarrow> ci_signOutRequested (call operation args slot s)"
  by (simp add: call_def requested_proxy)

lemma requested_clear: "ci_signOutRequested (clearAuthSessionsCache s) = ci_signOutRequested s"
proof -
  have "ci_signOutRequested (session_does k f s) = ci_signOutRequested s" for k f s
    by (simp add: session_does_def Let_def on_session_def requested_fold authSessionCancelReply_def split: option.split)
  then show ?thesis by (simp add: clearAuthSessionsCache_def clear_session_def Let_def requested_fold)
qed

lemma requested_step:
  assumes "ci_signOutRequested s"
  shows "ci_signOutRequested (ci_step e s)"
proof -
  have state: "ci_signOutRequested (updateState st t)" if "ci_signOutRequested t" for st t
    using that by (simp add: updateState_def updateContents_def Let_def requested_call)
  have unless: "ci_signOutRequested (unless_removed f s)" if "ci_signOutRequested (f s)" for f
    using that assms by (simp add: unless_removed_def checkRemoved_def requested_slots)
  have does: "ci_signOutRequested (session_does k f s)" for k f
    using assms by (simp add: session_does_def Let_def on_session_def requested_fold authSessionCancelReply_def split: option.split)
  show ?thesis
    by (cases e) (simp_all add: assms requested_proxy requested_call requested_clear requested_slots state unless does identity_registration_def
        registerReply_def updateCachedData_def infoUpdated_def remoteObjectDestroyed_def ci_queryAvailableMethods_def ci_queryInfo_def
        updateContents_def ci_requestCredentialsUpdate_def ci_storeCredentials_def ci_remove_def ci_addReference_def ci_removeReference_def
        ci_verifyUser_def ci_verifySecret_def ci_signOut_def createSession_def destroySession_def Let_def split: list.split option.split)
qed

lemma requested_run: "ci_signOutRequested s \<Longrightarrow> ci_signOutRequested (fold ci_step es s)"
  by (induction es arbitrary: s) (simp_all add: requested_step)

text \<open>An object through which the application has once signed out a stored identity never again follows the
  identity's being signed out elsewhere: whatever happens after that, the signal of the daemon changes nothing,
  the sessions of the object are not cancelled and the application is not told. An object that has not signed out
  cancels its sessions and tells the application.\<close>

theorem own_sign_out_makes_deaf:
  assumes "ci_id s \<noteq> 0" and "ci_state s \<noteq> Removed"
  shows "(let t = fold ci_step es (ci_step AskSignOut s) in ci_step (InfoUpdated 2) t = t)
    \<and> (\<not> ci_signOutRequested s \<longrightarrow> ci_step (InfoUpdated 2) s = ci_tell SignedOut (clearAuthSessionsCache s))"
proof -
  have "ci_signOutRequested (ci_step AskSignOut s)"
    using assms by (simp add: ci_signOut_def unless_removed_def checkRemoved_def requested_clear)
  then have "ci_signOutRequested (fold ci_step es (ci_step AskSignOut s))" by (rule requested_run)
  then show ?thesis by (simp add: Let_def infoUpdated_def)
qed

theorem own_sign_out_makes_deaf_witness:
  "ci_signals (ci_step (InfoUpdated 2) (ci_step AskSignOut (IdentityImpl 7 True))) = ci_signals (ci_step AskSignOut (IdentityImpl 7 True))"
proof -
  have "ci_id (IdentityImpl 7 True) \<noteq> 0" "ci_state (IdentityImpl 7 True) \<noteq> Removed"
    using waiting_start [of 7 True] by (simp_all add: awaiting_def)
  from own_sign_out_makes_deaf [OF this, of "[]"] show ?thesis by (simp add: Let_def)
qed

end
