(* ===== verification/Client_Service.thy ===== *)
theory Client_Service
  imports Client_Identity
begin

text \<open>
  \<open>AuthServiceImpl\<close> (lib/SignOn/authserviceimpl.cpp) and \<open>ConnectionManager\<close> (lib/SignOn/connection-manager.cpp) of the client
  library: the queries of the daemon itself, and how the library comes to its connection.
\<close>

section \<open>AuthServiceImpl\<close>

datatype service_signal =
    ServiceMethods "qstring list"
  | ServiceMechanisms string "qstring list"
  | ServiceIdentities "qvariant_map list"
  | ServiceCleared
  | ServiceError int qstring

record auth_service = dbus_proxy +
  cv_methodsQueried :: "string list"
  cv_signals :: "service_signal list"

definition cv_tell :: "service_signal \<Rightarrow> auth_service \<Rightarrow> auth_service" where
  "cv_tell e s = s\<lparr>cv_signals := cv_signals s @ [e]\<rparr>"

definition service_errors :: "(string \<times> int) list" where
  "service_errors = [(''Unknown'', 1), (''InternalServer'', 2), (''MethodNotKnown'', 101), (''InvalidQuery'', 103), (''PermissionDenied'', 4)]"

definition cv_errorReply :: "dbus_error \<Rightarrow> auth_service \<Rightarrow> auth_service" where
  "cv_errorReply err s =
     (case map_of (map (\<lambda>(name, code). (ERR_PREFIX @ name, code)) service_errors) (err_name err) of
        Some code \<Rightarrow> cv_tell (ServiceError code (err_message err)) s
      | None \<Rightarrow> cv_tell (ServiceError (if err_type err \<noteq> NoDBusError then 3 else 1) (err_message err)) s)"

fun list_argument :: "qvariant list \<Rightarrow> qstring list" where
  "list_argument (v # _) = v_toStringList v"
| "list_argument [] = []"

definition queryMethodsReply :: "qvariant list \<Rightarrow> auth_service \<Rightarrow> auth_service" where
  "queryMethodsReply reply s = cv_tell (ServiceMethods (list_argument reply)) s"

definition queryMechanismsReply :: "qvariant list \<Rightarrow> auth_service \<Rightarrow> auth_service" where
  "queryMechanismsReply reply s =
     (case cv_methodsQueried s of
        [] \<Rightarrow> cv_tell (ServiceMechanisms [] (list_argument reply)) s
      | m # ms \<Rightarrow> cv_tell (ServiceMechanisms m (list_argument reply)) (s\<lparr>cv_methodsQueried := ms\<rparr>))"

definition queryMechanismsError :: "dbus_error \<Rightarrow> auth_service \<Rightarrow> auth_service" where
  "queryMechanismsError err s = cv_errorReply err (s\<lparr>cv_methodsQueried := tl (cv_methodsQueried s)\<rparr>)"

text \<open>The argument is a list of maps; each map is an argument here.\<close>

definition queryIdentitiesReply :: "qvariant list \<Rightarrow> auth_service \<Rightarrow> auth_service" where
  "queryIdentitiesReply reply s =
     (if reply = [] then s else cv_tell (ServiceIdentities (map (\<lambda>v. updateFromMap (variant_map_of [v])) reply)) s)"

definition service_slots :: "auth_service proxy_slots" where
  "service_slots =
     \<lparr>on_error = \<lambda>n slot err. if slot = ''queryMechanismsError'' then queryMechanismsError err else cv_errorReply err,
      on_success = \<lambda>n slot reply s.
        if slot = ''queryMethodsReply'' then queryMethodsReply reply s
        else if slot = ''queryMechanismsReply'' then queryMechanismsReply reply s
        else if slot = ''queryIdentitiesReply'' then queryIdentitiesReply reply s
        else if slot = ''clearReply'' then cv_tell ServiceCleared s else s,
      on_finished = \<lambda>n slot watcher s. s, on_connectionNeeded = ap_emit ConnectionNeeded, on_objectPathNeeded = ap_emit ObjectPathNeeded\<rparr>"

definition AuthServiceImpl :: "bool \<Rightarrow> auth_service" where
  "AuthServiceImpl hasConnection =
     (let s = dbus_proxy.extend AsyncDBusProxy (auth_service.fields [] []);
          s = (if hasConnection then setConnection service_slots True no_error s else s)
      in setObjectPath service_slots ''/com/google/code/AccountsSSO/SingleSignOn'' s)"

definition sendRequest :: "string \<Rightarrow> string \<Rightarrow> qvariant list \<Rightarrow> auth_service \<Rightarrow> auth_service" where
  "sendRequest operation replySlot args s = snd (queueCall service_slots operation args (Some replySlot) (Some ''errorReply'') s)"

definition cv_queryMethods :: "auth_service \<Rightarrow> auth_service" where
  "cv_queryMethods s = sendRequest ''queryMethods'' ''queryMethodsReply'' [] s"

definition cv_queryMechanisms :: "string \<Rightarrow> auth_service \<Rightarrow> auth_service" where
  "cv_queryMechanisms m s0 =
     (let s = snd (queueCall service_slots ''queryMechanisms'' [VString (QStr m)] (Some ''queryMechanismsReply'') (Some ''queryMechanismsError'') s0)
      in s\<lparr>cv_methodsQueried := cv_methodsQueried s @ [m]\<rparr>)"

datatype filter_criteria = AuthMethod | Username | Realm | Caption

fun criteria_name :: "filter_criteria \<Rightarrow> string" where
  "criteria_name AuthMethod = ''AuthMethod''"
| "criteria_name Username = ''Username''"
| "criteria_name Realm = ''Realm''"
| "criteria_name Caption = ''Caption''"

text \<open>A pattern is never valid.\<close>

definition regexp_isValid :: "string \<Rightarrow> bool" where
  "regexp_isValid pattern = False"

definition filter_map :: "(filter_criteria \<times> string) list \<Rightarrow> qvariant_map" where
  "filter_map flt = fold (\<lambda>(c, pattern) m. if regexp_isValid pattern then qm_insert (criteria_name c) (VString (QStr pattern)) m else m) flt []"

definition cv_queryIdentities :: "(filter_criteria \<times> string) list \<Rightarrow> auth_service \<Rightarrow> auth_service" where
  "cv_queryIdentities flt s = sendRequest ''queryIdentities'' ''queryIdentitiesReply'' [VMap (filter_map flt)] s"

definition cv_clear :: "auth_service \<Rightarrow> auth_service" where
  "cv_clear s = sendRequest ''clear'' ''clearReply'' [] s"

lemma service_polite:
  "same_proxy (on_error service_slots n slot err s) s" "same_proxy (on_success service_slots n slot reply s) s"
  "same_proxy (on_finished service_slots n slot w s) s" "same_proxy (on_connectionNeeded service_slots s) s"
  "same_proxy (on_objectPathNeeded service_slots s) s"
  by (simp_all add: service_slots_def same_emit)
    (simp_all add: same_proxy_def queryMechanismsError_def cv_errorReply_def queryMethodsReply_def queryMechanismsReply_def queryIdentitiesReply_def
      cv_tell_def split: option.split list.split)

interpretation service: polite_slots service_slots
  by unfold_locales (rule service_polite)+

text \<open>Whatever filter the application gives, all identities are asked for.\<close>

lemma filter_is_ignored: "cv_queryIdentities flt s = cv_queryIdentities [] s"
proof -
  have "fold (\<lambda>(c, pattern) m. if regexp_isValid pattern then qm_insert (criteria_name c) (VString (QStr pattern)) m else m) flt m = m" for m
    by (induction flt arbitrary: m) (auto simp: regexp_isValid_def)
  then show ?thesis by (simp add: cv_queryIdentities_def filter_map_def)
qed

section \<open>ConnectionManager\<close>

datatype socket_status = SocketConnectionUnavailable | SocketConnectionOk | SocketConnectionNoService

datatype service_status = ServiceStatusUnknown | ServiceActivating | ServiceActivated

datatype bus = InvalidBus | PeerBus nat | SessionBus

text \<open>The environment and what connecting gives are arguments: whether the peer bus is wanted, whether there is a
  runtime directory, and for each attempt the name of the error, if any; likewise whether the session bus is
  there. \<open>co_activations\<close> are the calls that start the service and are not answered.\<close>

record connection_environment =
  ce_usePeerBus :: "string option"
  ce_runtimeDir :: string
  ce_sessionBus :: bool

record connection_manager =
  co_connection :: bus
  co_connected :: bool
  co_serviceStatus :: service_status
  co_count :: nat
  co_activations :: nat
  co_attempts :: "string option list"
  co_signals :: "bool list"

definition setupSocketConnection :: "connection_environment \<Rightarrow> connection_manager \<Rightarrow> socket_status \<times> connection_manager" where
  "setupSocketConnection env s0 =
     (if (case ce_usePeerBus env of None \<Rightarrow> ''1'' | Some v \<Rightarrow> v) \<noteq> ''1'' then (SocketConnectionUnavailable, s0)
      else if ce_runtimeDir env = [] then (SocketConnectionUnavailable, s0)
      else
        let n = co_count s0;
            attempt = (case co_attempts s0 of [] \<Rightarrow> None | a # _ \<Rightarrow> a);
            s = s0\<lparr>co_count := n + 1, co_attempts := tl (co_attempts s0)\<rparr>
        in case attempt of
             Some name \<Rightarrow>
               (if name = ''org.freedesktop.DBus.Error.FileNotFound'' \<and> co_serviceStatus s \<noteq> ServiceActivated
                then SocketConnectionNoService else SocketConnectionUnavailable, s)
           | None \<Rightarrow> (SocketConnectionOk, s\<lparr>co_connection := PeerBus n, co_connected := True\<rparr>))"

text \<open>The signals are \<open>connected\<close> and \<open>disconnected\<close>.\<close>

definition co_init :: "connection_environment \<Rightarrow> connection_manager \<Rightarrow> connection_manager" where
  "co_init env s0 =
     (if co_serviceStatus s0 = ServiceActivating then s0
      else
        let (status, s) = setupSocketConnection env s0;
            s = (case status of
                   SocketConnectionNoService \<Rightarrow> s\<lparr>co_activations := co_activations s + 1, co_serviceStatus := ServiceActivating\<rparr>
                 | SocketConnectionUnavailable \<Rightarrow> s\<lparr>co_connection := SessionBus, co_connected := ce_sessionBus env\<rparr>
                 | SocketConnectionOk \<Rightarrow> s)
        in if co_connected s then s\<lparr>co_signals := co_signals s @ [True]\<rparr> else s)"

definition co_connect :: "connection_environment \<Rightarrow> connection_manager \<Rightarrow> connection_manager" where
  "co_connect env s = (if co_connected s then s\<lparr>co_signals := co_signals s @ [True]\<rparr> else co_init env s)"

definition onActivationDone :: "connection_environment \<Rightarrow> bool \<Rightarrow> connection_manager \<Rightarrow> connection_manager" where
  "onActivationDone env isError s =
     (if \<not> isError then co_init env (s\<lparr>co_serviceStatus := ServiceActivated\<rparr>) else s)"

definition onDisconnected :: "connection_manager \<Rightarrow> connection_manager" where
  "onDisconnected s = s\<lparr>co_serviceStatus := ServiceStatusUnknown, co_signals := co_signals s @ [False]\<rparr>"

text \<open>The activation call is answered; the application asks_daemon for the connection; the peer connection is lost.\<close>

datatype connection_event = AskConnection | ActivationAnswered bool | PeerLost

fun co_step :: "connection_environment \<Rightarrow> connection_event \<Rightarrow> connection_manager \<Rightarrow> connection_manager" where
  "co_step env AskConnection s = co_connect env s"
| "co_step env (ActivationAnswered isError) s =
     (if co_activations s = 0 then s else onActivationDone env isError (s\<lparr>co_activations := co_activations s - 1\<rparr>))"
| "co_step env PeerLost s = (case co_connection s of PeerBus _ \<Rightarrow> if co_connected s then onDisconnected (s\<lparr>co_connected := False\<rparr>) else s | _ \<Rightarrow> s)"

definition ConnectionManager :: "connection_environment \<Rightarrow> string option list \<Rightarrow> connection_manager" where
  "ConnectionManager env attempts =
     co_init env \<lparr>co_connection = InvalidBus, co_connected = False, co_serviceStatus = ServiceStatusUnknown, co_count = 0,
       co_activations = 0, co_attempts = attempts, co_signals = []\<rparr>"

text \<open>At most one activation is under way, and exactly while the manager says so or after one has failed.\<close>

inductive manager_reachable :: "connection_environment \<Rightarrow> connection_manager \<Rightarrow> bool" for env where
  start: "manager_reachable env (ConnectionManager env attempts)"
| step: "manager_reachable env s \<Longrightarrow> manager_reachable env (co_step env e s)"

definition manager_ok :: "connection_manager \<Rightarrow> bool" where
  "manager_ok s \<longleftrightarrow> co_activations s \<le> 1 \<and> (co_activations s = 1 \<longrightarrow> co_serviceStatus s = ServiceActivating \<and> \<not> co_connected s)
     \<and> (co_serviceStatus s = ServiceActivating \<longrightarrow> \<not> co_connected s)"

lemma init_ok: "manager_ok s \<Longrightarrow> \<not> co_connected s \<Longrightarrow> (co_serviceStatus s \<noteq> ServiceActivating \<Longrightarrow> co_activations s = 0) \<Longrightarrow> manager_ok (co_init env s)"
  by (auto simp: co_init_def setupSocketConnection_def manager_ok_def Let_def split: option.split list.split)

lemma manager_step_ok:
  assumes "manager_ok s"
  shows "manager_ok (co_step env e s)"
proof (cases e)
  case AskConnection
  show ?thesis
  proof (cases "co_connected s")
    case True
    then show ?thesis using assms by (simp add: AskConnection co_connect_def manager_ok_def)
  next
    case False
    then show ?thesis using assms init_ok [of s env] by (auto simp: AskConnection co_connect_def manager_ok_def)
  qed
next
  case (ActivationAnswered isError)
  show ?thesis
  proof (cases "co_activations s = 0")
    case False
    let ?s = "s\<lparr>co_activations := co_activations s - 1\<rparr>"
    have a: "manager_ok ?s" "co_activations ?s = 0" "\<not> co_connected ?s" using assms False by (simp_all add: manager_ok_def)
    then have "manager_ok (?s\<lparr>co_serviceStatus := ServiceActivated\<rparr>)" by (simp add: manager_ok_def)
    from init_ok [OF this, of env] a show ?thesis using False by (simp add: ActivationAnswered onActivationDone_def)
  qed (use assms in \<open>simp add: ActivationAnswered\<close>)
next
  case PeerLost
  then show ?thesis using assms by (auto simp: onDisconnected_def manager_ok_def split: bus.split)
qed

lemma manager_reachable_ok: "manager_reachable env s \<Longrightarrow> manager_ok s"
proof (induction rule: manager_reachable.induct)
  case (start attempts)
  show ?case unfolding ConnectionManager_def by (rule init_ok) (simp_all add: manager_ok_def)
qed (rule manager_step_ok)

text \<open>An activation that fails leaves the manager awaiting for it: no later request makes it try again.\<close>

lemma failed_activation_blocks:
  assumes "manager_reachable env s" and "co_activations s = 1"
  shows "fold (co_step env) es (co_step env (ActivationAnswered True) s) = co_step env (ActivationAnswered True) s"
proof -
  let ?t = "co_step env (ActivationAnswered True) s"
  have t: "co_serviceStatus ?t = ServiceActivating" "\<not> co_connected ?t" "co_activations ?t = 0"
    using manager_reachable_ok [OF assms(1)] assms(2) by (simp_all add: manager_ok_def onActivationDone_def)
  have "co_step env e ?t = ?t" for e
    using t by (cases e) (auto simp: co_connect_def co_init_def split: bus.split)
  then show ?thesis by (induction es) simp_all
qed

end
