(* ===== verification/Client_Info.thy ===== *)
theory Client_Info
  imports Client_Identity Signon_Identity
begin

text \<open>
  \<open>IdentityInfo\<close>, what an application says of an identity and is told of it (lib/SignOn/identityinfo.cpp), with
  the accessors of \<open>IdentityInfoImpl\<close> (lib/SignOn/identityinfoimpl.h) that \<open>Client_Identity\<close> has not, and the
  public \<open>Identity\<close> where it does more than hand a call on (lib/SignOn/identity.cpp). The information goes over
  D-Bus to the daemon and back: the theorems say that every value in it has the type of its key all the way
  round, and that the daemon reads what the application has set.
\<close>

section \<open>IdentityInfoImpl\<close>

definition ii_setUserName :: "qstring \<Rightarrow> qvariant_map \<Rightarrow> qvariant_map" where
  "ii_setUserName s info = qm_insert KEY_USERNAME (VString s) info"

definition ii_userName :: "qvariant_map \<Rightarrow> qstring" where
  "ii_userName info = v_toString (qm_value info KEY_USERNAME VInvalid)"

definition ii_setCaption :: "qstring \<Rightarrow> qvariant_map \<Rightarrow> qvariant_map" where
  "ii_setCaption s info = qm_insert KEY_CAPTION (VString s) info"

definition ii_caption :: "qvariant_map \<Rightarrow> qstring" where
  "ii_caption info = v_toString (qm_value info KEY_CAPTION VInvalid)"

definition ii_setRealms :: "qstring list \<Rightarrow> qvariant_map \<Rightarrow> qvariant_map" where
  "ii_setRealms xs info = qm_insert KEY_REALMS (VStringList xs) info"

definition ii_realms :: "qvariant_map \<Rightarrow> qstring list" where
  "ii_realms info = v_toStringList (qm_value info KEY_REALMS VInvalid)"

definition ii_setOwners :: "qstring list \<Rightarrow> qvariant_map \<Rightarrow> qvariant_map" where
  "ii_setOwners xs info = qm_insert KEY_OWNER (VStringList xs) info"

definition ii_owners :: "qvariant_map \<Rightarrow> qstring list" where
  "ii_owners info = v_toStringList (qm_value info KEY_OWNER VInvalid)"

definition ii_setAccessControlList :: "qstring list \<Rightarrow> qvariant_map \<Rightarrow> qvariant_map" where
  "ii_setAccessControlList xs info = qm_insert KEY_ACL (VStringList xs) info"

definition ii_accessControlList :: "qvariant_map \<Rightarrow> qstring list" where
  "ii_accessControlList info = v_toStringList (qm_value info KEY_ACL VInvalid)"

definition ii_setSecret :: "qstring \<Rightarrow> qvariant_map \<Rightarrow> qvariant_map" where
  "ii_setSecret s info = qm_insert KEY_SECRET (VString s) info"

definition ii_secret :: "qvariant_map \<Rightarrow> qstring" where
  "ii_secret info = v_toString (qm_value info KEY_SECRET VInvalid)"

definition ii_setStoreSecret :: "bool \<Rightarrow> qvariant_map \<Rightarrow> qvariant_map" where
  "ii_setStoreSecret b info = qm_insert KEY_STORESECRET (VBool b) info"

definition ii_storeSecret :: "qvariant_map \<Rightarrow> bool" where
  "ii_storeSecret info = v_toBool (qm_value info KEY_STORESECRET VInvalid)"

text \<open>\<open>setType\<close> inserts the number of the enumerator.\<close>

datatype credentials_type = OtherType | ApplicationType | WebType | NetworkType

fun type_number :: "credentials_type \<Rightarrow> int" where
  "type_number OtherType = 0"
| "type_number ApplicationType = 1"
| "type_number WebType = 2"
| "type_number NetworkType = 4"

definition ii_setType :: "credentials_type \<Rightarrow> qvariant_map \<Rightarrow> qvariant_map" where
  "ii_setType t info = qm_insert KEY_TYPE (VInt (type_number t)) info"

definition ii_type :: "qvariant_map \<Rightarrow> int" where
  "ii_type info = v_toInt (qm_value info KEY_TYPE VInvalid)"

definition ii_refCount :: "qvariant_map \<Rightarrow> int" where
  "ii_refCount info = v_toInt (qm_value info KEY_REFCOUNT VInvalid)"

section \<open>IdentityInfo\<close>

text \<open>The other accessors of the class hand the call on.\<close>

definition IdentityInfo_new :: qvariant_map where
  "IdentityInfo_new = []"

definition IdentityInfo_with :: "qstring \<Rightarrow> qstring \<Rightarrow> method_map \<Rightarrow> qvariant_map" where
  "IdentityInfo_with captionText name methods =
     ii_setMethods methods (ii_setUserName name (ii_setCaption captionText IdentityInfo_new))"

definition inf_setOwner :: "qstring \<Rightarrow> qvariant_map \<Rightarrow> qvariant_map" where
  "inf_setOwner ownerToken = ii_setOwners [ownerToken]"

definition inf_owner :: "qvariant_map \<Rightarrow> qstring" where
  "inf_owner info = (case ii_owners info of [] \<Rightarrow> QNull | x # _ \<Rightarrow> x)"

definition inf_setSecret :: "qstring \<Rightarrow> bool \<Rightarrow> qvariant_map \<Rightarrow> qvariant_map" where
  "inf_setSecret secret storeSecret info = ii_setStoreSecret storeSecret (ii_setSecret secret info)"

definition inf_methods :: "qvariant_map \<Rightarrow> string list" where
  "inf_methods info = qm_keys (ii_methods info)"

definition inf_mechanisms :: "string \<Rightarrow> qvariant_map \<Rightarrow> qstring list" where
  "inf_mechanisms m info = qm_value (ii_methods info) m []"

definition inf_setRefCount :: "int \<Rightarrow> qvariant_map \<Rightarrow> qvariant_map" where
  "inf_setRefCount refCount info = info"

text \<open>What an application can call to change one.\<close>

datatype info_call =
    SetId nat
  | SetUserName qstring
  | SetCaption qstring
  | SetRealms "qstring list"
  | SetOwner qstring
  | SetAccessControlList "qstring list"
  | SetSecret qstring bool
  | SetStoreSecret bool
  | SetMethod string "qstring list"
  | RemoveMethod string
  | SetType credentials_type
  | SetRefCount int

fun set_info :: "info_call \<Rightarrow> qvariant_map \<Rightarrow> qvariant_map" where
  "set_info (SetId n) = ii_setId n"
| "set_info (SetUserName s) = ii_setUserName s"
| "set_info (SetCaption s) = ii_setCaption s"
| "set_info (SetRealms xs) = ii_setRealms xs"
| "set_info (SetOwner s) = inf_setOwner s"
| "set_info (SetAccessControlList xs) = ii_setAccessControlList xs"
| "set_info (SetSecret s b) = inf_setSecret s b"
| "set_info (SetStoreSecret b) = ii_setStoreSecret b"
| "set_info (SetMethod m xs) = updateMethod m xs"
| "set_info (RemoveMethod m) = removeMethod m"
| "set_info (SetType t) = ii_setType t"
| "set_info (SetRefCount n) = inf_setRefCount n"

section \<open>Identity\<close>

definition newIdentity :: "qvariant_map \<Rightarrow> bool \<Rightarrow> client_identity" where
  "newIdentity info hasConnection = copyInfo info (IdentityImpl 0 hasConnection)"

definition existingIdentity :: "nat \<Rightarrow> bool \<Rightarrow> client_identity option" where
  "existingIdentity n hasConnection = (if n = 0 then None else Some (IdentityImpl n hasConnection))"

definition Identity_createSession :: "string \<Rightarrow> bool \<Rightarrow> client_identity \<Rightarrow> nat option \<times> client_identity" where
  "Identity_createSession methodName hasConnection s = (if methodName = [] then (None, s) else createSession methodName hasConnection s)"

definition Identity_destroySession :: "nat option \<Rightarrow> client_identity \<Rightarrow> client_identity" where
  "Identity_destroySession session s = (case session of None \<Rightarrow> s | Some k \<Rightarrow> destroySession k s)"

section \<open>Over D-Bus\<close>

text \<open>D-Bus has no null strings, and a method map arrives as a \<open>QDBusArgument\<close>.\<close>

definition dbus_string :: "qstring \<Rightarrow> qstring" where
  "dbus_string s = QStr (chars s)"

definition dbus_methods :: "method_map \<Rightarrow> method_map" where
  "dbus_methods = map (\<lambda>(m, xs). (m, map dbus_string xs))"

fun over_dbus_value :: "qvariant \<Rightarrow> qvariant" where
  "over_dbus_value (VString s) = VString (dbus_string s)"
| "over_dbus_value (VStringList xs) = VStringList (map dbus_string xs)"
| "over_dbus_value (VMethodMap ms) = VDBus (DMethodMap (dbus_methods ms))"
| "over_dbus_value v = v"

definition over_dbus :: "qvariant_map \<Rightarrow> qvariant_map" where
  "over_dbus = map (\<lambda>(k, v). (k, over_dbus_value v))"

section \<open>Types\<close>

text \<open>The keys of the information, and the type of the value under each.\<close>

definition typed_entry :: "string \<times> qvariant \<Rightarrow> bool" where
  "typed_entry e =
     (case snd e of
        VUInt _ \<Rightarrow> fst e = KEY_ID
      | VString _ \<Rightarrow> fst e \<in> {KEY_USERNAME, KEY_SECRET, KEY_CAPTION}
      | VStringList _ \<Rightarrow> fst e \<in> {KEY_REALMS, KEY_OWNER, KEY_ACL}
      | VMethodMap _ \<Rightarrow> fst e = KEY_AUTHMETHODS
      | VInt _ \<Rightarrow> fst e \<in> {KEY_TYPE, KEY_REFCOUNT}
      | VBool _ \<Rightarrow> fst e \<in> {KEY_STORESECRET, KEY_VALIDATED, KEY_USERNAME_IS_SECRET}
      | _ \<Rightarrow> False)"

definition typed_info :: "qvariant_map \<Rightarrow> bool" where
  "typed_info info \<longleftrightarrow> list_all typed_entry info"

lemma typed_Nil [simp]: "typed_info []"
  by (simp add: typed_info_def)

lemma typed_insert: "typed_info info \<Longrightarrow> typed_entry (k, v) \<Longrightarrow> typed_info (qm_insert k v info)"
  unfolding typed_info_def by (induction info) auto

lemma typed_remove: "typed_info info \<Longrightarrow> typed_info (qm_remove k info)"
  by (auto simp: typed_info_def qm_remove_def list_all_iff)

lemma typed_value: "typed_info info \<Longrightarrow> map_of info k = Some v \<Longrightarrow> typed_entry (k, v)"
  by (auto simp: typed_info_def list_all_iff dest: map_of_SomeD)

lemma typed_set_info: "typed_info info \<Longrightarrow> typed_info (set_info c info)"
  by (cases c) (simp_all add: ii_setId_def ii_setUserName_def ii_setCaption_def ii_setRealms_def inf_setOwner_def ii_setOwners_def
    ii_setAccessControlList_def inf_setSecret_def ii_setSecret_def ii_setStoreSecret_def updateMethod_def removeMethod_def
    ii_setMethods_def ii_setType_def inf_setRefCount_def Let_def typed_insert typed_entry_def)

lemma typed_set_infos: "typed_info info \<Longrightarrow> typed_info (fold set_info cs info)"
  by (induction cs arbitrary: info) (simp_all add: typed_set_info)

text \<open>The daemon expands what comes over D-Bus as the client does.\<close>

lemma updateFromMap_same: "updateFromMap m = SignonIdentityInfo m"
proof -
  have "ii_setMethods = setMethods" by (intro ext) (simp add: ii_setMethods_def setMethods_def)
  then show ?thesis by (simp only: updateFromMap_def SignonIdentityInfo_def)
qed

lemma typed_arrived:
  assumes "typed_info info"
  shows "typed_info (SignonIdentityInfo (over_dbus info))"
proof -
  have "typed_info this \<Longrightarrow> list_all typed_entry info \<Longrightarrow> typed_info (fold (\<lambda>(k, v) this.
        case v of
          VDBus container \<Rightarrow>
            if k = KEY_AUTHMETHODS then setMethods (qdbus_cast_methods container) this else this
        | _ \<Rightarrow> qm_insert k v this) (over_dbus info) this)" for this
  proof (induction info arbitrary: this)
    case (Cons e info)
    obtain k v where e: "e = (k, v)" by fastforce
    have v: "typed_entry (k, v)" using Cons.prems(2) by (simp add: e)
    show ?case
      using Cons.IH [OF typed_insert [OF Cons.prems(1)]] Cons.prems v
      by (cases v) (simp_all add: e over_dbus_def typed_entry_def setMethods_def)
  qed (simp add: over_dbus_def)
  then show ?thesis using assms by (simp add: SignonIdentityInfo_def typed_info_def)
qed

lemma typed_to_store:
  assumes "typed_info info" and "\<And>i. p = Some i \<Longrightarrow> typed_info i"
  shows "typed_info (info_to_store (over_dbus info) appId p)"
proof (cases p)
  case None
  then show ?thesis
    by (simp add: info_to_store_def Let_def setMethods_def setOwnerList_def typed_insert typed_entry_def typed_arrived [OF assms(1)])
next
  case (Some i)
  have "typed_info this \<Longrightarrow> list_all typed_entry new \<Longrightarrow>
      typed_info (fold (\<lambda>(k, v) this. if k = KEY_ID then this else qm_insert k v this) new this)" for this new
  proof (induction new arbitrary: this)
    case (Cons e new)
    obtain k v where e: "e = (k, v)" by fastforce
    then show ?case using Cons.IH Cons.prems by (simp add: typed_insert)
  qed simp
  then show ?thesis
    using typed_arrived [OF assms(1)] assms(2) Some by (simp add: info_to_store_def info_update_def typed_info_def)
qed

lemma typed_meta_identity: "typed_info (fst (meta_identity n db))"
  by (auto simp: meta_identity_def setId_def setUserName_def setStorePassword_def setCaption_def setMethods_def setRealms_def
    setAccessControlList_def setOwnerList_def setType_def setRefCount_def setValidated_def setUserNameSecret_def Let_def
    intro!: typed_insert split: option.split prod.split simp: typed_entry_def typed_info_def)

lemma typed_credentials: "typed_info (fst (cd_credentials n queryPassword db))"
proof -
  have "typed_info (fst (on_meta (meta_identity n) (init_error db)))"
    by (simp add: on_meta_def case_prod_beta typed_meta_identity)
  then show ?thesis
    by (auto simp: cd_credentials_def monitored_def case_prod_beta Let_def setPassword_def setUserName_def typed_entry_def
      intro!: typed_insert split: prod.split)
qed

lemma typed_without_secrets: "typed_info info \<Longrightarrow> typed_info (removeSecrets info)"
  by (simp add: removeSecrets_def Let_def typed_remove)

text \<open>C7: The information on an identity is well typed all the way round: what \<open>CredentialsDB::credentials\<close> reads,
  whatever is in the databases and whatever the SQL driver does; what the client library has of it after
  \<open>getInfo\<close> over D-Bus and any calls of the application; and what \<open>SignonIdentity::store\<close> makes of it, for a new
  identity and for one it has loaded. Every key is one of the daemon's, with a value of its type, so no
  accessor on either side ever falls back on a default because of a type.\<close>

theorem info_is_typed:
  "let info = fst (cd_credentials n queryPassword db);
       app = fold set_info calls (updateFromMap (over_dbus (removeSecrets info)))
   in typed_info info \<and> typed_info app \<and> typed_info (info_to_store (over_dbus app) appId None)
      \<and> typed_info (info_to_store (over_dbus app) appId (Some info))"
  unfolding Let_def updateFromMap_same
  by (intro conjI typed_credentials typed_to_store typed_set_infos typed_arrived typed_without_secrets) (auto simp: typed_credentials)

section \<open>What arrives\<close>

definition arrived :: "qvariant \<Rightarrow> qvariant" where
  "arrived v = (case over_dbus_value v of VDBus container \<Rightarrow> VMethodMap (qdbus_cast_methods container) | w \<Rightarrow> w)"

lemma arrived_fold:
  "list_all typed_entry info \<Longrightarrow> fold (\<lambda>(k, v) this.
        case v of
          VDBus container \<Rightarrow>
            if k = KEY_AUTHMETHODS then setMethods (qdbus_cast_methods container) this else this
        | _ \<Rightarrow> qm_insert k v this) (over_dbus info) acc
     = fold (\<lambda>(k, v). qm_insert k v) (map (\<lambda>(k, v). (k, arrived v)) info) acc"
proof (induction info arbitrary: acc)
  case (Cons e info)
  obtain k v where e: "e = (k, v)" by fastforce
  have v: "typed_entry (k, v)" using Cons.prems by (simp add: e)
  show ?case
    using Cons.IH Cons.prems v by (cases v) (simp_all add: e over_dbus_def typed_entry_def setMethods_def arrived_def)
qed (simp add: over_dbus_def)

lemma arrived_lookup:
  assumes "typed_info info" and "qm_wf info"
  shows "map_of (SignonIdentityInfo (over_dbus info)) k = map_option arrived (map_of info k)"
proof -
  let ?xs = "map (\<lambda>(k, v). (k, arrived v)) info"
  have keys: "map fst ?xs = map fst info" by (induction info) auto
  have d: "distinct (map fst ?xs)" unfolding keys using assms(2) by (simp add: qm_wf_def strict_sorted_iff)
  have "SignonIdentityInfo (over_dbus info) = fold (\<lambda>(k, v). qm_insert k v) ?xs []"
    using arrived_fold assms(1) by (simp add: SignonIdentityInfo_def typed_info_def)
  also have "map_of \<dots> = map_of [] ++ map_of (rev ?xs)" by (rule qmap.lookup_fold_ins)
  also have "map_of (rev ?xs) = map_of ?xs"
    using d by (intro map_of_inject_set [THEN iffD2]) (simp_all add: rev_map [symmetric])
  finally show ?thesis by (simp add: map_of_map)
qed

lemma wf_set_info: "qm_wf info \<Longrightarrow> qm_wf (set_info c info)"
  by (cases c) (simp_all add: ii_setId_def ii_setUserName_def ii_setCaption_def ii_setRealms_def inf_setOwner_def ii_setOwners_def
    ii_setAccessControlList_def inf_setSecret_def ii_setSecret_def ii_setStoreSecret_def updateMethod_def removeMethod_def
    ii_setMethods_def ii_setType_def inf_setRefCount_def Let_def)

lemma wf_set_infos: "qm_wf info \<Longrightarrow> qm_wf (fold set_info cs info)"
  by (induction cs arbitrary: info) (simp_all add: wf_set_info)

lemma stored_lookup:
  assumes "typed_info info" and "qm_wf info"
  shows "map_of (info_to_store (over_dbus info) appId None) k =
     (if k = KEY_OWNER then Some (VStringList (map dbus_string (ii_owners info) @ (if qisNull appId then [] else [appId])))
      else if k = KEY_AUTHMETHODS then Some (VMethodMap (dbus_methods (ii_methods info)))
      else map_option arrived (map_of info k))"
proof -
  have raw: "map_of (over_dbus info) j = map_option over_dbus_value (map_of info j)" for j by (simp add: over_dbus_def map_of_map)
  have owners: "v_toStringList (qm_value (over_dbus info) KEY_OWNER VInvalid) = map dbus_string (ii_owners info)"
  proof (cases "map_of info KEY_OWNER")
    case (Some v)
    then show ?thesis
      using typed_value [OF assms(1) Some] by (cases v) (simp_all add: typed_entry_def qm_value_def ii_owners_def raw)
  qed (simp add: qm_value_def ii_owners_def raw)
  have methods: "store_methods (qm_value (over_dbus info) KEY_AUTHMETHODS VInvalid) = dbus_methods (ii_methods info)"
  proof (cases "map_of info KEY_AUTHMETHODS")
    case (Some v)
    then show ?thesis
      using typed_value [OF assms(1) Some] by (cases v) (simp_all add: typed_entry_def qm_value_def ii_methods_def raw)
  qed (simp add: qm_value_def ii_methods_def raw dbus_methods_def)
  show ?thesis
    by (simp add: info_to_store_def Let_def owners methods setOwnerList_def setMethods_def arrived_lookup [OF assms])
qed

lemma string_arrives:
  assumes "typed_info info" and "k \<in> {KEY_USERNAME, KEY_SECRET, KEY_CAPTION}" and "map_of d k = map_option arrived (map_of info k)"
  shows "chars (v_toString (qm_value d k VInvalid)) = chars (v_toString (qm_value info k VInvalid))"
proof (cases "map_of info k")
  case (Some v)
  then show ?thesis
    using typed_value [OF assms(1) Some] assms(2,3)
    by (cases v) (auto simp: typed_entry_def qm_value_def arrived_def dbus_string_def)
qed (use assms(3) in \<open>simp add: qm_value_def\<close>)

lemma list_arrives:
  assumes "typed_info info" and "k \<in> {KEY_REALMS, KEY_OWNER, KEY_ACL}" and "map_of d k = map_option arrived (map_of info k)"
  shows "v_toStringList (qm_value d k VInvalid) = map dbus_string (v_toStringList (qm_value info k VInvalid))"
proof (cases "map_of info k")
  case (Some v)
  then show ?thesis
    using typed_value [OF assms(1) Some] assms(2,3) by (cases v) (auto simp: typed_entry_def qm_value_def arrived_def)
qed (use assms(3) in \<open>simp add: qm_value_def\<close>)

lemma others_arrive:
  assumes "typed_info info" and "k \<in> {KEY_ID, KEY_TYPE, KEY_STORESECRET}" and "map_of d k = map_option arrived (map_of info k)"
  shows "qm_value d k x = qm_value info k x"
proof (cases "map_of info k")
  case (Some v)
  then show ?thesis
    using typed_value [OF assms(1) Some] assms(2,3) by (cases v) (auto simp: typed_entry_def qm_value_def arrived_def)
qed (use assms(3) in \<open>simp add: qm_value_def\<close>)

lemma stored_information_arrives:
  assumes t: "typed_info info" and wf: "qm_wf info" and d: "d = info_to_store (over_dbus info) appId None"
  shows "info_id d = ii_id info \<and> chars (userName d) = chars (ii_userName info) \<and> chars (password d) = chars (ii_secret info)
    \<and> chars (caption d) = chars (ii_caption info) \<and> realms d = map dbus_string (ii_realms info)
    \<and> info_methods d = dbus_methods (ii_methods info) \<and> info_acl d = map dbus_string (ii_accessControlList info)
    \<and> info_type d = ii_type info \<and> storePassword d = ii_storeSecret info
    \<and> info_owners d = map dbus_string (ii_owners info) @ (if qisNull appId then [] else [appId])"
proof -
  note look = stored_lookup [OF t wf, of appId, folded d]
  show ?thesis
  proof (intro conjI)
    show "info_id d = ii_id info" unfolding info_id_def ii_id_def by (subst others_arrive [OF t]) (simp_all add: look)
    show "chars (userName d) = chars (ii_userName info)"
      unfolding userName_def ii_userName_def by (rule string_arrives [OF t]) (simp_all add: look)
    show "chars (password d) = chars (ii_secret info)"
      unfolding password_def ii_secret_def by (rule string_arrives [OF t]) (simp_all add: look)
    show "chars (caption d) = chars (ii_caption info)"
      unfolding caption_def ii_caption_def by (rule string_arrives [OF t]) (simp_all add: look)
    show "realms d = map dbus_string (ii_realms info)"
      unfolding realms_def ii_realms_def by (rule list_arrives [OF t]) (simp_all add: look)
    show "info_acl d = map dbus_string (ii_accessControlList info)"
      unfolding info_acl_def ii_accessControlList_def by (rule list_arrives [OF t]) (simp_all add: look)
    show "info_type d = ii_type info" unfolding info_type_def ii_type_def by (subst others_arrive [OF t]) (simp_all add: look)
    show "storePassword d = ii_storeSecret info"
      unfolding storePassword_def ii_storeSecret_def by (subst others_arrive [OF t]) (simp_all add: look)
    show "info_methods d = dbus_methods (ii_methods info)" by (simp add: info_methods_def qm_value_def look)
    show "info_owners d = map dbus_string (ii_owners info) @ (if qisNull appId then [] else [appId])"
      by (simp add: info_owners_def qm_value_def look)
  qed
qed

lemma called:
  "ap_nextCall (call operation args slot s) = ap_nextCall s + 1
   \<and> pc_meth (the_call (ap_nextCall s) (call operation args slot s)) = operation
   \<and> pc_args (the_call (ap_nextCall s) (call operation args slot s)) = args"
  by (simp add: call_def queueCall_def Let_def doCall_def enqueue_def identity_slots_def sendRegisterRequest_def ap_emit_def ap_post_def
    the_call_def set_call_def qh_value_def split: proxy_status.split option.split)

lemma of_id_inserted:
  "ii_userName (qm_insert KEY_ID v info) = ii_userName info" "ii_secret (qm_insert KEY_ID v info) = ii_secret info"
  "ii_caption (qm_insert KEY_ID v info) = ii_caption info" "ii_realms (qm_insert KEY_ID v info) = ii_realms info"
  "ii_methods (qm_insert KEY_ID v info) = ii_methods info"
  "ii_accessControlList (qm_insert KEY_ID v info) = ii_accessControlList info"
  "ii_type (qm_insert KEY_ID v info) = ii_type info" "ii_storeSecret (qm_insert KEY_ID v info) = ii_storeSecret info"
  "ii_owners (qm_insert KEY_ID v info) = ii_owners info" "ii_id (qm_insert KEY_ID (VUInt n) info) = n"
  by (simp_all add: ii_userName_def ii_secret_def ii_caption_def ii_realms_def ii_methods_def ii_accessControlList_def ii_type_def
    ii_storeSecret_def ii_owners_def ii_id_def qm_value_def)

text \<open>C6: Whatever the application has set of an identity that is new to the daemon, \<open>storeCredentials\<close> makes one call of
  \<open>store\<close>, and the daemon reads from its argument what the application set: the same user name, secret, caption,
  realms, methods with their mechanisms, access control list, type and choice to store the secret, but for null
  strings, which arrive empty; the owners the application has named followed by the application itself; and, whatever
  id the application set, the id of the object the call is made on.\<close>

theorem application_info_arrives:
  assumes "fold set_info calls IdentityInfo_new \<noteq> []"
  shows "let app = fold set_info calls IdentityInfo_new; t = ci_storeCredentials app s;
      sent = qm_insert KEY_ID (VUInt (ci_id s)) app; d = info_to_store (over_dbus sent) appId None
    in ap_nextCall t = ap_nextCall s + 1 \<and> pc_meth (the_call (ap_nextCall s) t) = ''store''
      \<and> pc_args (the_call (ap_nextCall s) t) = [VMap sent]
      \<and> info_id d = ci_id s \<and> chars (userName d) = chars (ii_userName app) \<and> chars (password d) = chars (ii_secret app)
      \<and> chars (caption d) = chars (ii_caption app) \<and> realms d = map dbus_string (ii_realms app)
      \<and> info_methods d = dbus_methods (ii_methods app) \<and> info_acl d = map dbus_string (ii_accessControlList app)
      \<and> info_type d = ii_type app \<and> storePassword d = ii_storeSecret app
      \<and> info_owners d = map dbus_string (ii_owners app) @ (if qisNull appId then [] else [appId])"
proof -
  define app where "app = fold set_info calls IdentityInfo_new"
  define sent where "sent = qm_insert KEY_ID (VUInt (ci_id s)) app"
  have t: "typed_info sent" unfolding sent_def app_def
    by (rule typed_insert, rule typed_set_infos) (simp_all add: IdentityInfo_new_def typed_entry_def)
  have wf: "qm_wf sent" unfolding sent_def app_def
    by (rule qm_wf_insert, rule wf_set_infos) (simp add: IdentityInfo_new_def qm_wf_def)
  let ?s = "if ci_state s = Removed then updateState NeedsRegistration s else s"
  have u: "ap_nextCall ?s = ap_nextCall s" "ci_id ?s = ci_id s" by (simp_all add: updateState_def ci_id_def)
  have "ci_storeCredentials app s = call ''store'' [VMap sent] ''storeCredentialsReply'' ?s"
    using assms u by (simp add: ci_storeCredentials_def Let_def app_def [symmetric] sent_def)
  with called [of "''store''" "[VMap sent]" "''storeCredentialsReply''" ?s] u(1)
    stored_information_arrives [OF t wf refl, of appId]
  show ?thesis
    unfolding Let_def app_def [symmetric] sent_def [symmetric]
    by (simp add: sent_def of_id_inserted)
qed

theorem application_info_arrives_witness:
  "let app = fold set_info [SetId 7, SetUserName (QStr ''me'')] IdentityInfo_new; s = IdentityImpl 0 True;
      sent = qm_insert KEY_ID (VUInt 0) app; d = info_to_store (over_dbus sent) (QStr ''app'') None
    in ii_id app = 7 \<and> pc_args (the_call 0 (ci_storeCredentials app s)) = [VMap sent] \<and> info_id d = 0 \<and> chars (userName d) = ''me''"
proof -
  have "fold set_info [SetId 7, SetUserName (QStr ''me'')] IdentityInfo_new \<noteq> []" by code_simp
  moreover have "ii_id (fold set_info [SetId 7, SetUserName (QStr ''me'')] IdentityInfo_new) = 7" by code_simp
  moreover have "ci_id (IdentityImpl 0 True) = 0" "ap_nextCall (IdentityImpl 0 True) = 0" by code_simp+
  moreover have "chars (ii_userName (fold set_info [SetId 7, SetUserName (QStr ''me'')] IdentityInfo_new)) = ''me''" by code_simp
  ultimately show ?thesis
    using application_info_arrives [of "[SetId 7, SetUserName (QStr ''me'')]" "IdentityImpl 0 True" "QStr ''app''"]
    unfolding Let_def by simp
qed

end
