(* ===== verification/Backup_Files.thy ===== *)
theory Backup_Files
  imports Storage_Events
begin

text \<open>
  The files that \<open>Backup\<close> (src/signond/backup.cpp) works on, in the storage directory and in the directory
  \<open>backup\<close> below it, and the four procedures that move them: \<open>eraseBackupDir\<close>, \<open>copyToBackupDir\<close>,
  \<open>copyFromBackupDir\<close> and \<open>createStorageFileTree\<close>. A path is the list of its names, read off a string as the
  kernel does: several slashes count as one. Which calls of the system fail is part of the disk. Owners and
  permissions of files are not modelled.
\<close>

section \<open>Paths\<close>

fun path_components :: "string \<Rightarrow> string list" where
  "path_components [] = [[]]"
| "path_components (c # cs) =
     (if c = CHR ''/'' then [] # path_components cs
      else (c # hd (path_components cs)) # tl (path_components cs))"

type_synonym path = "string list"

definition path_of :: "string \<Rightarrow> path" where
  "path_of s = filter (\<lambda>w. w \<noteq> []) (path_components s)"

definition isAbsolutePath :: "string \<Rightarrow> bool" where
  "isAbsolutePath s \<longleftrightarrow> s \<noteq> [] \<and> hd s = CHR ''/''"

text \<open>\<open>QDir::filePath\<close>: an absolute name is not below the directory. The code joins most of its paths by
  hand.\<close>

definition join_path :: "string \<Rightarrow> string \<Rightarrow> string" where
  "join_path dir name = dir @ CHR ''/'' # name"

definition filePath :: "string \<Rightarrow> string \<Rightarrow> string" where
  "filePath dir name = (if isAbsolutePath name then name else join_path dir name)"

lemma path_components_not_Nil [simp]: "path_components s \<noteq> []"
  by (cases s) auto

lemma path_components_slash [simp]: "path_components (a @ CHR ''/'' # b) = path_components a @ path_components b"
  by (induction a) auto

lemma path_components_word: "CHR ''/'' \<notin> set w \<Longrightarrow> path_components w = [w]"
  by (induction w) auto

lemma path_of_join [simp]: "path_of (join_path a b) = path_of a @ path_of b"
  by (simp add: path_of_def join_path_def)

text \<open>A name as one expects it: of a file in the directory.\<close>

definition plain_name :: "string \<Rightarrow> bool" where
  "plain_name w \<longleftrightarrow> w \<noteq> [] \<and> CHR ''/'' \<notin> set w"

lemma path_of_plain: "plain_name w \<Longrightarrow> path_of w = [w]"
  by (simp add: plain_name_def path_of_def path_components_word)

lemma plain_relative: "plain_name w \<Longrightarrow> filePath dir w = join_path dir w"
  by (cases w) (auto simp: plain_name_def filePath_def isAbsolutePath_def)

lemma absolute_filePath: "isAbsolutePath w \<Longrightarrow> filePath dir w = w"
  by (simp add: filePath_def)

section \<open>The disk\<close>

text \<open>What the files hold: the metadata database, or the encrypted partition with its size, the state of the
  device in it, and its key list and files.\<close>

datatype 'd contents =
    EmptyFile
  | Metadata meta_data
  | Partition nat 'd "(string, bytes) qmap" "(string, secrets_data) qhash"

datatype file_call = Copy | Rename | Remove | Create | MakeDir | RemoveDir

record 'd disk =
  dk_files :: "(path, 'd contents) qhash"
  dk_dirs :: "path list"
  dk_fails :: "file_call \<Rightarrow> path \<Rightarrow> bool"

definition f_lookup :: "path \<Rightarrow> 'd disk \<Rightarrow> 'd contents option" where
  "f_lookup p d = map_of (dk_files d) p"

definition dir_exists :: "path \<Rightarrow> 'd disk \<Rightarrow> bool" where
  "dir_exists p d \<longleftrightarrow> p \<in> set (dk_dirs d)"

text \<open>\<open>QFile::exists\<close> and \<open>QDir::exists\<close> of a name: of a file or of a directory.\<close>

definition path_exists :: "path \<Rightarrow> 'd disk \<Rightarrow> bool" where
  "path_exists p d \<longleftrightarrow> f_lookup p d \<noteq> None \<or> dir_exists p d"

definition f_remove :: "path \<Rightarrow> 'd disk \<Rightarrow> bool \<times> 'd disk" where
  "f_remove p d =
     (if f_lookup p d = None \<or> dk_fails d Remove p then (False, d)
      else (True, d\<lparr>dk_files := qh_remove p (dk_files d)\<rparr>))"

text \<open>\<open>QFile::rename\<close> and \<open>QFile::copy\<close> never overwrite.\<close>

definition f_rename :: "path \<Rightarrow> path \<Rightarrow> 'd disk \<Rightarrow> bool \<times> 'd disk" where
  "f_rename p q d =
     (case f_lookup p d of
        None \<Rightarrow> (False, d)
      | Some c \<Rightarrow>
          if path_exists q d \<or> dk_fails d Rename p then (False, d)
          else (True, d\<lparr>dk_files := qh_insert q c (qh_remove p (dk_files d))\<rparr>))"

definition f_copy :: "path \<Rightarrow> path \<Rightarrow> 'd disk \<Rightarrow> bool \<times> 'd disk" where
  "f_copy p q d =
     (case f_lookup p d of
        None \<Rightarrow> (False, d)
      | Some c \<Rightarrow>
          if path_exists q d \<or> \<not> dir_exists (butlast q) d \<or> dk_fails d Copy p then (False, d)
          else (True, d\<lparr>dk_files := qh_insert q c (dk_files d)\<rparr>))"

text \<open>\<open>QFile::open\<close> for writing.\<close>

definition f_create :: "path \<Rightarrow> 'd disk \<Rightarrow> bool \<times> 'd disk" where
  "f_create p d =
     (if dir_exists p d \<or> \<not> dir_exists (butlast p) d \<or> dk_fails d Create p then (False, d)
      else (True, d\<lparr>dk_files := qh_insert p EmptyFile (dk_files d)\<rparr>))"

text \<open>\<open>mkpath\<close> makes the directories above as well.\<close>

definition f_mkpath :: "path \<Rightarrow> 'd disk \<Rightarrow> bool \<times> 'd disk" where
  "f_mkpath p d =
     (if dk_fails d MakeDir p then (False, d)
      else (True, d\<lparr>dk_dirs := dk_dirs d @ filter (\<lambda>q. \<not> dir_exists q d) (map (\<lambda>n. take n p) [0..<Suc (length p)])\<rparr>))"

text \<open>\<open>QDir::Files\<close> leaves out hidden files.\<close>

definition dir_files :: "path \<Rightarrow> 'd disk \<Rightarrow> path list" where
  "dir_files dir d =
     filter (\<lambda>p. p \<noteq> [] \<and> butlast p = dir \<and> (last p = [] \<or> hd (last p) \<noteq> CHR ''.'')) (map fst (dk_files d))"

definition dir_is_empty :: "path \<Rightarrow> 'd disk \<Rightarrow> bool" where
  "dir_is_empty dir d \<longleftrightarrow>
     list_all (\<lambda>p. p = [] \<or> butlast p \<noteq> dir) (map fst (dk_files d)) \<and> list_all (\<lambda>p. p = [] \<or> butlast p \<noteq> dir) (dk_dirs d)"

definition f_rmdir :: "path \<Rightarrow> 'd disk \<Rightarrow> bool \<times> 'd disk" where
  "f_rmdir dir d =
     (if \<not> dir_exists dir d \<or> \<not> dir_is_empty dir d \<or> dk_fails d RemoveDir dir then (False, d)
      else (True, d\<lparr>dk_dirs := filter (\<lambda>q. q \<noteq> dir) (dk_dirs d)\<rparr>))"

section \<open>The procedures\<close>

definition backupRoot :: "string \<Rightarrow> string" where
  "backupRoot storagePath = join_path storagePath ''backup''"

definition eraseBackupDir :: "string \<Rightarrow> 'd disk \<Rightarrow> 'd disk" where
  "eraseBackupDir storagePath d =
     (let target = path_of (backupRoot storagePath) in
      if \<not> dir_exists target d then d
      else snd (f_rmdir target (fold (\<lambda>entry d. snd (f_remove entry d)) (dir_files target d) d)))"

text \<open>The loop of \<open>copyToBackupDir\<close>: the first failure ends it.\<close>

fun copy_to_loop :: "string \<Rightarrow> string list \<Rightarrow> 'd disk \<Rightarrow> bool \<times> 'd disk" where
  "copy_to_loop storagePath [] d = (True, d)"
| "copy_to_loop storagePath (fileName # fileNames) d =
     (let inTarget = path_of (filePath (backupRoot storagePath) fileName);
          d = (if path_exists inTarget d then snd (f_remove inTarget d) else d);
          source = path_of (join_path storagePath fileName)
      in if \<not> path_exists source d then copy_to_loop storagePath fileNames d
         else
           let (ok, d) = f_copy source (path_of (join_path (backupRoot storagePath) fileName)) d
           in if ok then copy_to_loop storagePath fileNames d else (False, d))"

definition copyToBackupDir :: "string \<Rightarrow> string list \<Rightarrow> 'd disk \<Rightarrow> bool \<times> 'd disk" where
  "copyToBackupDir storagePath fileNames d =
     (let target = path_of (backupRoot storagePath);
          (made, d) = (if dir_exists target d then (True, d) else f_mkpath target d)
      in if \<not> made then (False, d) else copy_to_loop storagePath fileNames d)"

text \<open>The loop of \<open>copyFromBackupDir\<close>, with the two lists it fills: what has been moved out of the way and
  what has been copied.\<close>

fun copy_from_loop ::
    "string \<Rightarrow> string list \<Rightarrow> string list \<Rightarrow> string list \<Rightarrow> 'd disk \<Rightarrow> bool \<times> string list \<times> string list \<times> 'd disk" where
  "copy_from_loop storagePath [] movedFiles copiedFiles d = (True, movedFiles, copiedFiles, d)"
| "copy_from_loop storagePath (fileName # fileNames) movedFiles copiedFiles d =
     (let current = path_of (filePath storagePath fileName);
          bak = path_of (filePath storagePath (fileName @ ''.bak''));
          (moved, d) = (if path_exists current d then f_rename current bak d else (False, d));
          movedFiles = (if moved then movedFiles @ [fileName] else movedFiles);
          source = path_of (join_path (backupRoot storagePath) fileName)
      in if \<not> path_exists source d then copy_from_loop storagePath fileNames movedFiles copiedFiles d
         else
           let (ok, d) = f_copy source (path_of (join_path storagePath fileName)) d
           in if ok then copy_from_loop storagePath fileNames movedFiles (copiedFiles @ [fileName]) d
              else (False, movedFiles, copiedFiles, d))"

definition remove_each :: "string \<Rightarrow> string list \<Rightarrow> 'd disk \<Rightarrow> 'd disk" where
  "remove_each storagePath fileNames d =
     fold (\<lambda>fileName d. snd (f_remove (path_of (filePath storagePath fileName)) d)) fileNames d"

definition move_back :: "string \<Rightarrow> string list \<Rightarrow> 'd disk \<Rightarrow> 'd disk" where
  "move_back storagePath fileNames d =
     fold (\<lambda>fileName d. snd (f_rename (path_of (filePath storagePath (fileName @ ''.bak'')))
                                       (path_of (filePath storagePath fileName)) d)) fileNames d"

definition copyFromBackupDir :: "string \<Rightarrow> string list \<Rightarrow> 'd disk \<Rightarrow> bool \<times> 'd disk" where
  "copyFromBackupDir storagePath fileNames d =
     (let (ok, movedFiles, copiedFiles, d) = copy_from_loop storagePath fileNames [] [] d
      in if \<not> ok then (False, move_back storagePath movedFiles (remove_each storagePath copiedFiles d))
         else (True, remove_each storagePath (map (\<lambda>fileName. fileName @ ''.bak'') movedFiles) d))"

fun create_loop_files :: "string \<Rightarrow> string list \<Rightarrow> 'd disk \<Rightarrow> bool \<times> 'd disk" where
  "create_loop_files storagePath [] d = (True, d)"
| "create_loop_files storagePath (fileName # fileNames) d =
     (if path_exists (path_of (filePath storagePath fileName)) d then create_loop_files storagePath fileNames d
      else
        let (opened, d) = f_create (path_of (join_path storagePath fileName)) d
        in if opened then create_loop_files storagePath fileNames d else (False, d))"

definition createStorageFileTree :: "string \<Rightarrow> string list \<Rightarrow> 'd disk \<Rightarrow> bool \<times> 'd disk" where
  "createStorageFileTree storagePath backupFiles d =
     (let (made, d) = (if dir_exists (path_of storagePath) d then (True, d) else f_mkpath (path_of storagePath) d)
      in if \<not> made then (False, d) else create_loop_files storagePath backupFiles d)"

section \<open>What the calls do\<close>

lemma f_lookup_insert [simp]: "f_lookup p (d\<lparr>dk_files := qh_insert q c (dk_files d)\<rparr>) = (if p = q then Some c else f_lookup p d)"
  by (simp add: f_lookup_def)

lemma f_lookup_remove [simp]: "f_lookup p (d\<lparr>dk_files := qh_remove q (dk_files d)\<rparr>) = (if p = q then None else f_lookup p d)"
  by (simp add: f_lookup_def)

lemma f_lookup_move [simp]:
  "f_lookup p (d\<lparr>dk_files := qh_insert q c (qh_remove r (dk_files d))\<rparr>) = (if p = q then Some c else if p = r then None else f_lookup p d)"
  by (simp add: f_lookup_def)

lemma f_lookup_dirs [simp]: "f_lookup p (d\<lparr>dk_dirs := ds\<rparr>) = f_lookup p d"
  by (simp add: f_lookup_def)

text \<open>What stays the same: the directories, and which calls fail.\<close>

definition same_dirs :: "'d disk \<Rightarrow> 'd disk \<Rightarrow> bool" where
  "same_dirs d d' \<longleftrightarrow> dk_dirs d' = dk_dirs d \<and> dk_fails d' = dk_fails d"

lemma same_dirs_refl [simp]: "same_dirs d d"
  by (simp add: same_dirs_def)

lemma same_dirs_trans: "same_dirs d e \<Longrightarrow> same_dirs e g \<Longrightarrow> same_dirs d g"
  by (simp add: same_dirs_def)

lemma same_dirs_calls [simp]:
  "same_dirs d (snd (f_remove p d))" "same_dirs d (snd (f_rename p q d))" "same_dirs d (snd (f_copy p q d))" "same_dirs d (snd (f_create p d))"
  by (simp_all add: same_dirs_def f_remove_def f_rename_def f_copy_def f_create_def split: option.split)

lemma same_dirs_exists: "same_dirs d d' \<Longrightarrow> dir_exists p d' = dir_exists p d" "same_dirs d d' \<Longrightarrow> dk_fails d' = dk_fails d"
  by (simp_all add: same_dirs_def dir_exists_def)

lemma remove_lookup: "\<not> dk_fails d Remove p \<Longrightarrow> f_lookup q (snd (f_remove p d)) = (if q = p then None else f_lookup q d)"
  by (simp add: f_remove_def)

lemma copy_lookup: "f_lookup r (snd (f_copy p q d)) = (if fst (f_copy p q d) \<and> r = q then f_lookup p d else f_lookup r d)"
  by (simp add: f_copy_def split: option.split)

lemma rename_lookup:
  "f_lookup r (snd (f_rename p q d)) = (if fst (f_rename p q d) then if r = q then f_lookup p d else if r = p then None else f_lookup r d
     else f_lookup r d)"
  by (simp add: f_rename_def split: option.split)

lemma copy_done: "fst (f_copy p q d) \<longleftrightarrow> f_lookup p d \<noteq> None \<and> \<not> path_exists q d \<and> dir_exists (butlast q) d \<and> \<not> dk_fails d Copy p"
  by (simp add: f_copy_def split: option.split)

lemma rename_done: "fst (f_rename p q d) \<longleftrightarrow> f_lookup p d \<noteq> None \<and> \<not> path_exists q d \<and> \<not> dk_fails d Rename p"
  by (simp add: f_rename_def split: option.split)

section \<open>Restoring\<close>

text \<open>The paths of a plain name.\<close>

definition cur_path :: "string \<Rightarrow> string \<Rightarrow> path" where
  "cur_path st f = path_of st @ [f]"

definition bak_path :: "string \<Rightarrow> string \<Rightarrow> path" where
  "bak_path st f = path_of st @ [f @ ''.bak'']"

definition saved_path :: "string \<Rightarrow> string \<Rightarrow> path" where
  "saved_path st f = path_of st @ [''backup'', f]"

lemma paths_apart [simp]:
  "cur_path st f = cur_path st g \<longleftrightarrow> f = g" "bak_path st f = bak_path st g \<longleftrightarrow> f = g" "saved_path st f \<noteq> cur_path st g"
  "saved_path st f \<noteq> bak_path st g" "cur_path st f = bak_path st g \<longleftrightarrow> f = g @ ''.bak''" "bak_path st f = cur_path st g \<longleftrightarrow> g = f @ ''.bak''"
  "saved_path st f = saved_path st g \<longleftrightarrow> f = g" "cur_path st f \<noteq> saved_path st g" "bak_path st f \<noteq> saved_path st g"
  by (auto simp: cur_path_def bak_path_def saved_path_def)

lemma plain_bak: "plain_name f \<Longrightarrow> plain_name (f @ ''.bak'')"
  by (simp add: plain_name_def)

lemma path_of_backup: "path_of ''backup'' = [''backup'']"
  by (simp add: path_of_def)

lemma cur_of_backup [simp]: "cur_path (backupRoot st) f = saved_path st f"
  by (simp add: cur_path_def saved_path_def backupRoot_def path_of_backup)

lemma plain_paths:
  assumes "plain_name f"
  shows "path_of (filePath st f) = cur_path st f" "path_of (filePath st (f @ ''.bak'')) = bak_path st f"
    "path_of (join_path st f) = cur_path st f" "path_of (join_path (backupRoot st) f) = saved_path st f"
    "path_of (filePath (backupRoot st) f) = saved_path st f"
  using assms plain_bak [OF assms]
  by (simp_all add: plain_relative path_of_plain path_of_backup cur_path_def bak_path_def saved_path_def backupRoot_def)

text \<open>The files can be restored, apart from the copying: their names are plain and differ from each other and
  from those they are put aside under, nothing is there under these, and what is to be renamed or removed can be.\<close>

definition restorable :: "string \<Rightarrow> string list \<Rightarrow> 'd disk \<Rightarrow> bool" where
  "restorable st names d \<longleftrightarrow>
     distinct names \<and> list_all plain_name names \<and> list_all (\<lambda>f. f @ ''.bak'' \<notin> set names) names
     \<and> list_all (\<lambda>f. \<not> path_exists (bak_path st f) d \<and> \<not> dir_exists (cur_path st f) d) names
     \<and> list_all (\<lambda>f. \<not> dk_fails d Rename (cur_path st f) \<and> \<not> dk_fails d Rename (bak_path st f)
          \<and> \<not> dk_fails d Remove (cur_path st f) \<and> \<not> dk_fails d Remove (bak_path st f)) names"

text \<open>Where the files are after the loop: those in \<open>mv\<close> have been put aside, those in \<open>cp\<close> come from the backup.\<close>

definition exchanged :: "string \<Rightarrow> string list \<Rightarrow> string list \<Rightarrow> 'd disk \<Rightarrow> 'd disk \<Rightarrow> bool" where
  "exchanged st mv cp d d' \<longleftrightarrow>
     same_dirs d d' \<and> distinct mv
     \<and> (\<forall>f \<in> set mv. f_lookup (cur_path st f) d \<noteq> None)
     \<and> (\<forall>f \<in> set cp. f_lookup (cur_path st f) d \<noteq> None \<longrightarrow> f \<in> set mv)
     \<and> (\<forall>f \<in> set cp. f_lookup (cur_path st f) d' = f_lookup (saved_path st f) d)
     \<and> (\<forall>f \<in> set mv - set cp. f_lookup (cur_path st f) d' = None)
     \<and> (\<forall>f \<in> set mv. f_lookup (bak_path st f) d' = f_lookup (cur_path st f) d)
     \<and> (\<forall>p. p \<notin> cur_path st ` (set mv \<union> set cp) \<union> bak_path st ` set mv \<longrightarrow> f_lookup p d' = f_lookup p d)"

lemma exchangedD:
  assumes "exchanged st mv cp d d'"
  shows "distinct mv" "\<forall>f \<in> set mv. f_lookup (cur_path st f) d \<noteq> None"
    "\<forall>f \<in> set cp. f_lookup (cur_path st f) d \<noteq> None \<longrightarrow> f \<in> set mv"
    "\<forall>f \<in> set cp. f_lookup (cur_path st f) d' = f_lookup (saved_path st f) d"
    "\<forall>f \<in> set mv - set cp. f_lookup (cur_path st f) d' = None"
    "\<forall>f \<in> set mv. f_lookup (bak_path st f) d' = f_lookup (cur_path st f) d"
    "p \<notin> cur_path st ` (set mv \<union> set cp) \<union> bak_path st ` set mv \<Longrightarrow> f_lookup p d' = f_lookup p d"
  using assms by (simp_all add: exchanged_def)

lemma exchanged_elsewhere:
  assumes "exchanged st mv cp d e" and "set mv \<union> set cp \<subseteq> {f}" and "p \<noteq> cur_path st f" and "p \<noteq> bak_path st f"
  shows "f_lookup p e = f_lookup p d"
  by (rule exchangedD(7) [OF assms(1)]) (use assms in auto)

lemma put_aside:
  assumes "restorable st (f # names) d"
  defines "r \<equiv> (if path_exists (cur_path st f) d then f_rename (cur_path st f) (bak_path st f) d else (False, d))"
  shows "exchanged st (if fst r then [f] else []) [] d (snd r)" and "fst r \<longleftrightarrow> f_lookup (cur_path st f) d \<noteq> None"
    and "f_lookup (cur_path st f) (snd r) = None"
  using assms(1) by (auto simp: r_def restorable_def path_exists_def exchanged_def rename_done rename_lookup)

lemma restorable_rest:
  assumes "restorable st (f # names) d" and "exchanged st mv cp d d'" and "set mv \<union> set cp \<subseteq> {f}"
  shows "restorable st names d'"
proof -
  have "f_lookup (bak_path st g) d' = f_lookup (bak_path st g) d" if "g \<in> set names" for g
  proof -
    have "g \<noteq> f" "g @ ''.bak'' \<noteq> f" using that assms(1) by (auto simp: restorable_def list_all_iff)
    then show ?thesis using exchanged_elsewhere [OF assms(2,3)] by auto
  qed
  moreover have "same_dirs d d'" using assms(2) by (simp add: exchanged_def)
  ultimately show ?thesis
    using assms(1) by (auto simp: restorable_def list_all_iff path_exists_def same_dirs_exists)
qed

lemma exchanged_more:
  assumes "restorable st (f # names) d" and "exchanged st mv cp d e" and "set mv \<union> set cp \<subseteq> {f}"
    and "exchanged st mv' cp' e d'" and "set mv' \<union> set cp' \<subseteq> set names"
  shows "exchanged st (mv @ mv') (cp @ cp') d d'"
proof -
  have names: "f \<notin> set names" "\<And>g. g \<in> set names \<Longrightarrow> g \<noteq> f \<and> g @ ''.bak'' \<noteq> f \<and> f @ ''.bak'' \<noteq> g"
    using assms(1) by (auto simp: restorable_def list_all_iff)
  note E1 = assms(2) [unfolded exchanged_def, THEN conjunct1] exchangedD [OF assms(2)]
    and E2 = assms(4) [unfolded exchanged_def, THEN conjunct1] exchangedD [OF assms(4)]
  have old: "f_lookup p e = f_lookup p d" if "p \<noteq> cur_path st f" "p \<noteq> bak_path st f" for p
    using exchanged_elsewhere [OF assms(2,3) that] .
  have new: "f_lookup p d' = f_lookup p e" if "p = cur_path st f \<or> p = bak_path st f" for p
  proof -
    have "p \<notin> cur_path st ` (set mv' \<union> set cp') \<union> bak_path st ` set mv'"
      using that assms(5) names by (fastforce simp: subset_iff)
    then show ?thesis using assms(4) by (simp add: exchanged_def)
  qed
  have rest: "f_lookup (cur_path st g) e = f_lookup (cur_path st g) d" "f_lookup (saved_path st g) e = f_lookup (saved_path st g) d"
    if "g \<in> set names" for g
    using names(2) [OF that] by (auto intro!: old)
  have "f_lookup p d' = f_lookup p d"
    if p: "p \<notin> cur_path st ` (set (mv @ mv') \<union> set (cp @ cp')) \<union> bak_path st ` set (mv @ mv')" for p
  proof -
    have "f_lookup p d' = f_lookup p e" using p assms(4) by (auto simp: exchanged_def)
    also have "\<dots> = f_lookup p d" using p assms(2) by (auto simp: exchanged_def)
    finally show ?thesis .
  qed
  moreover have names': "g = f" if "g \<in> set mv \<or> g \<in> set cp" for g using that assms(3) by auto
  moreover have "\<forall>g \<in> set (mv @ mv'). f_lookup (cur_path st g) d \<noteq> None" "distinct (mv @ mv')"
    using E1(2,3) E2(2,3) rest(1) assms(3,5) names(1) by (auto simp: subset_iff)
  moreover have "\<forall>g \<in> set (cp @ cp'). f_lookup (cur_path st g) d \<noteq> None \<longrightarrow> g \<in> set (mv @ mv')"
    using E1(4) E2(4) rest(1) assms(5) by (simp add: subset_iff ball_Un)
  moreover have "\<forall>g \<in> set (cp @ cp'). f_lookup (cur_path st g) d' = f_lookup (saved_path st g) d"
    using E1(5) E2(5) rest(2) new names' assms(5) by (simp add: subset_iff ball_Un)
  moreover have "\<forall>g \<in> set (mv @ mv') - set (cp @ cp'). f_lookup (cur_path st g) d' = None"
    using E1(6) E2(6) new names' assms(5) by (simp add: subset_iff ball_Un Un_Diff)
  moreover have "\<forall>g \<in> set (mv @ mv'). f_lookup (bak_path st g) d' = f_lookup (cur_path st g) d"
    using E1(7) E2(7) rest(1) new names' assms(5) by (simp add: subset_iff ball_Un)
  ultimately show ?thesis
    unfolding exchanged_def using same_dirs_trans [OF E1(1) E2(1)] by (intro conjI allI impI) assumption+
qed

lemma exchanged_copy:
  assumes "restorable st (f # names) d" and "exchanged st mv [] d e" and "mv = [] \<or> mv = [f]" and "f_lookup (cur_path st f) e = None"
    and "f_lookup (cur_path st f) d \<noteq> None \<Longrightarrow> mv = [f]"
  defines "r \<equiv> f_copy (saved_path st f) (cur_path st f) e"
  shows "fst r \<Longrightarrow> exchanged st mv [f] d (snd r)" and "\<not> fst r \<Longrightarrow> exchanged st mv [] d (snd r)"
proof -
  have "f @ ''.bak'' \<noteq> f" by simp
  have src: "f_lookup (saved_path st f) e = f_lookup (saved_path st f) d" using assms(2,3) by (auto simp: exchanged_def)
  have dirs: "same_dirs d (snd r)"
    using assms(2) by (auto simp: r_def exchanged_def intro: same_dirs_trans)
  show "exchanged st mv [f] d (snd r)" if "fst r"
    using assms(2,3,5) that dirs src by (auto simp: exchanged_def r_def copy_lookup)
  show "exchanged st mv [] d (snd r)" if "\<not> fst r"
    using assms(2) that dirs by (auto simp: exchanged_def r_def copy_lookup)
qed

lemma copy_from_exchanges:
  assumes "restorable st names d"
  obtains ok mv cp e where "copy_from_loop st names M C d = (ok, M @ mv, C @ cp, e)" "exchanged st mv cp d e"
    "set mv \<union> set cp \<subseteq> set names"
    "ok \<Longrightarrow> \<forall>f \<in> set names. (f_lookup (cur_path st f) d \<noteq> None \<longrightarrow> f \<in> set mv) \<and> (f_lookup (saved_path st f) d \<noteq> None \<longrightarrow> f \<in> set cp)"
  using assms
proof (induction names arbitrary: M C d thesis)
  case Nil
  have "exchanged st [] [] d d" by (simp add: exchanged_def)
  then show ?case using Nil(1) by simp
next
  case (Cons f names)
  have plain: "plain_name f" using Cons.prems(2) by (simp add: restorable_def)
  define r where "r = (if path_exists (cur_path st f) d then f_rename (cur_path st f) (bak_path st f) d else (False, d))"
  define mv where "mv = (if fst r then [f] else [])"
  note aside = put_aside [OF Cons.prems(2), folded r_def, folded mv_def]
  define source where "source = path_exists (saved_path st f) (snd r)"
  define q where "q = f_copy (saved_path st f) (cur_path st f) (snd r)"
  have unfold: "copy_from_loop st (f # names) M C d =
      (if \<not> source then copy_from_loop st names (M @ mv) C (snd r)
       else if fst q then copy_from_loop st names (M @ mv) (C @ [f]) (snd q) else (False, M @ mv, C, snd q))"
    by (simp add: plain_paths [OF plain] Let_def case_prod_beta r_def [symmetric] source_def q_def mv_def del: path_of_join)
  have mv: "mv = [] \<or> mv = [f]" "f_lookup (cur_path st f) d \<noteq> None \<Longrightarrow> mv = [f]"
    using aside(2) by (auto simp: mv_def)
  note copy = exchanged_copy [OF Cons.prems(2) aside(1) mv(1) aside(3) mv(2), folded q_def]
  show ?case
  proof (cases "source \<and> \<not> fst q")
    case True
    then show ?thesis using unfold copy(2) mv(1) by (intro Cons.prems(1) [of False mv "[]" "snd q"]) auto
  next
    case False
    define cp e where "cp = (if source then [f] else [])" and "e = (if source then snd q else snd r)"
    have e: "exchanged st mv cp d e" using False aside(1) copy(1) by (auto simp: cp_def e_def)
    have sub: "set mv \<union> set cp \<subseteq> {f}" using mv(1) by (auto simp: cp_def)
    have saved: "f_lookup (saved_path st f) d \<noteq> None \<Longrightarrow> f \<in> set cp"
      using aside(1) mv(1) by (auto simp: cp_def source_def path_exists_def exchanged_def)
    obtain ok mv' cp' e' where rec: "copy_from_loop st names (M @ mv) (C @ cp) e = (ok, (M @ mv) @ mv', (C @ cp) @ cp', e')"
        "exchanged st mv' cp' e e'" "set mv' \<union> set cp' \<subseteq> set names"
        "ok \<Longrightarrow> \<forall>g \<in> set names. (f_lookup (cur_path st g) e \<noteq> None \<longrightarrow> g \<in> set mv') \<and> (f_lookup (saved_path st g) e \<noteq> None \<longrightarrow> g \<in> set cp')"
      using Cons.IH [OF _ restorable_rest [OF Cons.prems(2) e sub]] by blast
    have keep: "f_lookup (cur_path st g) e = f_lookup (cur_path st g) d \<and> f_lookup (saved_path st g) e = f_lookup (saved_path st g) d"
      if "g \<in> set names" for g
    proof -
      have "g \<noteq> f" "f @ ''.bak'' \<noteq> g" using that Cons.prems(2) by (auto simp: restorable_def)
      then show ?thesis using exchanged_elsewhere [OF e sub] by simp
    qed
    have "copy_from_loop st (f # names) M C d = (ok, M @ mv @ mv', C @ cp @ cp', e')"
      using unfold False rec(1) by (auto simp: cp_def e_def)
    moreover have "exchanged st (mv @ mv') (cp @ cp') d e'"
      by (rule exchanged_more [OF Cons.prems(2) e sub rec(2,3)])
    ultimately show ?thesis
      using rec(3,4) sub saved mv(2) keep by (intro Cons.prems(1) [of ok "mv @ mv'" "cp @ cp'" e']) auto
  qed
qed

lemma remove_each_lookup:
  assumes "list_all plain_name fs" and "list_all (\<lambda>f. \<not> dk_fails d Remove (cur_path st f)) fs"
  shows "f_lookup p (remove_each st fs d) = (if p \<in> cur_path st ` set fs then None else f_lookup p d)"
    and "same_dirs d (remove_each st fs d)"
proof -
  have "f_lookup p (remove_each st fs d) = (if p \<in> cur_path st ` set fs then None else f_lookup p d) \<and> same_dirs d (remove_each st fs d)"
    using assms
  proof (induction fs arbitrary: d)
    case (Cons f fs)
    define e where "e = snd (f_remove (cur_path st f) d)"
    have e: "same_dirs d e" by (simp add: e_def)
    have "remove_each st (f # fs) d = remove_each st fs e"
      using Cons.prems(1) by (simp add: remove_each_def plain_paths e_def del: path_of_join)
    then show ?case
      using Cons.IH [of e] Cons.prems same_dirs_exists(2) [OF e] same_dirs_trans [OF e]
      by (auto simp: e_def remove_lookup)
  qed (simp add: remove_each_def)
  then show "f_lookup p (remove_each st fs d) = (if p \<in> cur_path st ` set fs then None else f_lookup p d)"
    "same_dirs d (remove_each st fs d)" by auto
qed

lemma move_back_lookup:
  assumes "distinct fs" and "list_all plain_name fs" and "list_all (\<lambda>f. f @ ''.bak'' \<notin> set fs) fs"
    and "list_all (\<lambda>f. \<not> dk_fails d Rename (bak_path st f) \<and> \<not> dir_exists (cur_path st f) d) fs"
    and "\<forall>f \<in> set fs. f_lookup (cur_path st f) d = None \<and> f_lookup (bak_path st f) d \<noteq> None"
  shows "f_lookup p (move_back st fs d) =
      (if p \<in> bak_path st ` set fs then None
       else if p \<in> cur_path st ` set fs then f_lookup (butlast p @ [last p @ ''.bak'']) d else f_lookup p d)
    \<and> same_dirs d (move_back st fs d)"
  using assms
proof (induction fs arbitrary: d)
  case (Cons f fs)
  define e where "e = snd (f_rename (bak_path st f) (cur_path st f) d)"
  have e: "same_dirs d e" by (simp add: e_def)
  have "move_back st (f # fs) d = move_back st fs e"
    using Cons.prems(2) by (simp add: move_back_def plain_paths e_def del: path_of_join)
  moreover have bak: "butlast (cur_path st g) @ [last (cur_path st g) @ ''.bak''] = bak_path st g" for g
    by (simp add: cur_path_def bak_path_def)
  moreover have "fst (f_rename (bak_path st f) (cur_path st f) d)"
    using Cons.prems(4,5) by (simp add: rename_done path_exists_def)
  then have look: "f_lookup q e = (if q = cur_path st f then f_lookup (bak_path st f) d else if q = bak_path st f then None else f_lookup q d)" for q
    by (simp add: e_def rename_lookup)
  have apart: "f \<noteq> g @ ''.bak''" "g \<noteq> f @ ''.bak''" "g \<noteq> f" if "g \<in> set fs" for g
    using that Cons.prems(1,3) by (auto simp: list_all_iff)
  have "f_lookup p (move_back st fs e) =
      (if p \<in> bak_path st ` set fs then None
       else if p \<in> cur_path st ` set fs then f_lookup (butlast p @ [last p @ ''.bak'']) e else f_lookup p e)
      \<and> same_dirs e (move_back st fs e)"
    using Cons.prems same_dirs_exists [OF e] apart by (intro Cons.IH) (auto simp: look list_all_iff)
  moreover have keep: "f_lookup (bak_path st g) e = f_lookup (bak_path st g) d" if "g \<in> set fs" for g
    using apart [OF that] by (simp add: look)
  moreover have "p \<notin> bak_path st ` set fs \<and> p \<notin> cur_path st ` set fs" if "p = cur_path st f \<or> p = bak_path st f"
    using that apart Cons.prems(1) by auto
  moreover have "f_lookup (butlast p @ [last p @ ''.bak'']) e = f_lookup (butlast p @ [last p @ ''.bak'']) d" if "p \<in> cur_path st ` set fs"
    using that bak keep by auto
  moreover have "p \<in> bak_path st ` set (f # fs) \<longleftrightarrow> p = bak_path st f \<or> p \<in> bak_path st ` set fs"
    "p \<in> cur_path st ` set (f # fs) \<longleftrightarrow> p = cur_path st f \<or> p \<in> cur_path st ` set fs" by auto
  ultimately show ?case
    using same_dirs_trans [OF e] by (cases "p = cur_path st f \<or> p = bak_path st f") (auto simp: look)
qed (simp add: move_back_def)

text \<open>After a copy that fails everything is put back.\<close>

lemma exchanged_undone:
  assumes "restorable st names d" and "exchanged st mv cp d e" and "set mv \<union> set cp \<subseteq> set names"
  shows "f_lookup p (move_back st mv (remove_each st cp e)) = f_lookup p d"
proof -
  have names: "plain_name f" "f @ ''.bak'' \<notin> set names" "\<not> dk_fails d Rename (bak_path st f)" "\<not> dk_fails d Remove (cur_path st f)"
      "\<not> dir_exists (cur_path st f) d" "f_lookup (bak_path st f) d = None" if "f \<in> set names" for f
    using assms(1) that by (auto simp: restorable_def list_all_iff path_exists_def)
  note E = exchangedD [OF assms(2)]
  have dirs: "same_dirs d e" using assms(2) by (simp add: exchanged_def)
  define r where "r = remove_each st cp e"
  have r: "f_lookup q r = (if q \<in> cur_path st ` set cp then None else f_lookup q e)" "same_dirs e r" for q
  proof -
    have "list_all plain_name cp" "list_all (\<lambda>f. \<not> dk_fails e Remove (cur_path st f)) cp"
      using names assms(3) same_dirs_exists(2) [OF dirs] by (auto simp: list_all_iff)
    from remove_each_lookup [OF this] show "f_lookup q r = (if q \<in> cur_path st ` set cp then None else f_lookup q e)" "same_dirs e r"
      by (simp_all add: r_def)
  qed
  have same: "same_dirs d r" using dirs r(2) by (rule same_dirs_trans)
  have no_bak: "f @ ''.bak'' \<noteq> g" if "f \<in> set names" "g \<in> set names" for f g
    using that names(2) by auto
  have put: "f_lookup (cur_path st f) r = None" "f_lookup (bak_path st f) r = f_lookup (cur_path st f) d" if "f \<in> set mv" for f
  proof -
    have "f @ ''.bak'' \<notin> set cp" using that no_bak assms(3) by blast
    then show "f_lookup (cur_path st f) r = None" "f_lookup (bak_path st f) r = f_lookup (cur_path st f) d"
      using that E(5,6) by (auto simp: r)
  qed
  have "f_lookup p (move_back st mv r) =
      (if p \<in> bak_path st ` set mv then None
       else if p \<in> cur_path st ` set mv then f_lookup (butlast p @ [last p @ ''.bak'']) r else f_lookup p r)"
  proof (rule move_back_lookup [THEN conjunct1])
    show "list_all (\<lambda>f. f @ ''.bak'' \<notin> set mv) mv" using no_bak assms(3) unfolding list_all_iff by blast
  qed (use E(1,2) put names assms(3) same_dirs_exists [OF same] in \<open>auto simp: list_all_iff subset_iff\<close>)
  moreover have "f_lookup (bak_path st f) d = None" "f @ ''.bak'' \<notin> set mv" if "f \<in> set mv" for f
    using that assms(3) names(6) no_bak by blast+
  moreover have "f_lookup (butlast (cur_path st f) @ [last (cur_path st f) @ ''.bak'']) r = f_lookup (cur_path st f) d" if "f \<in> set mv" for f
    using put(2) [OF that] by (simp add: cur_path_def bak_path_def)
  moreover have "f_lookup p r = f_lookup p d" if "p \<notin> bak_path st ` set mv" "p \<notin> cur_path st ` set mv"
  proof (cases "p \<in> cur_path st ` set cp")
    case True
    then show ?thesis using that E(3) by (auto simp: r)
  next
    case False
    then have "f_lookup p r = f_lookup p e" by (simp add: r)
    also have "\<dots> = f_lookup p d" using that False by (intro E(7)) auto
    finally show ?thesis .
  qed
  ultimately show ?thesis unfolding r_def [symmetric] by auto
qed

lemma exchanged_kept:
  assumes "restorable st names d" and "exchanged st mv cp d e" and "set mv \<union> set cp \<subseteq> set names"
    and "\<forall>f \<in> set names. (f_lookup (cur_path st f) d \<noteq> None \<longrightarrow> f \<in> set mv) \<and> (f_lookup (saved_path st f) d \<noteq> None \<longrightarrow> f \<in> set cp)"
  shows "f_lookup p (remove_each st (map (\<lambda>f. f @ ''.bak'') mv) e) =
    (if p \<in> cur_path st ` set names then f_lookup (saved_path st (last p)) d else f_lookup p d)"
proof -
  have names: "plain_name f" "f @ ''.bak'' \<notin> set names" "\<not> dk_fails d Remove (bak_path st f)"  "f_lookup (bak_path st f) d = None"
    if "f \<in> set names" for f
    using assms(1) that by (auto simp: restorable_def list_all_iff path_exists_def)
  note E = exchangedD [OF assms(2)]
  have dirs: "same_dirs d e" using assms(2) by (simp add: exchanged_def)
  have cur_bak: "cur_path st (f @ ''.bak'') = bak_path st f" for f by (simp add: cur_path_def bak_path_def)
  then have image: "cur_path st ` set (map (\<lambda>f. f @ ''.bak'') mv) = bak_path st ` set mv" by (simp add: image_image cur_bak)
  have "f_lookup p (remove_each st (map (\<lambda>f. f @ ''.bak'') mv) e) = (if p \<in> bak_path st ` set mv then None else f_lookup p e)"
    unfolding image [symmetric]
    by (rule remove_each_lookup(1)) (use names assms(3) same_dirs_exists(2) [OF dirs] in \<open>auto simp: list_all_iff plain_bak cur_bak subset_iff\<close>)
  moreover have "f_lookup p d = None" "p \<notin> cur_path st ` set names" if "p \<in> bak_path st ` set mv"
    using that assms(3) names(2,4) by auto
  moreover have "f_lookup (cur_path st f) e = f_lookup (saved_path st f) d" if "f \<in> set names" for f
  proof (cases "f \<in> set cp")
    case True
    then show ?thesis using E(4) by simp
  next
    case False
    then have saved: "f_lookup (saved_path st f) d = None" using assms(4) that by auto
    show ?thesis
    proof (cases "f \<in> set mv")
      case True
      then show ?thesis using False E(5) saved by simp
    next
      case no: False
      have "f_lookup (cur_path st f) e = f_lookup (cur_path st f) d"
      proof (rule E(7))
        have "\<not> (\<exists>g \<in> set mv. f = g @ ''.bak'')" using that assms(3) names(2) by auto
        then show "cur_path st f \<notin> cur_path st ` (set mv \<union> set cp) \<union> bak_path st ` set mv" using no False by auto
      qed
      then show ?thesis using no assms(4) that saved by auto
    qed
  qed
  moreover have "f_lookup p e = f_lookup p d" if "p \<notin> bak_path st ` set mv" "p \<notin> cur_path st ` set names"
    using that assms(3) by (intro E(7)) auto
  moreover have "last (cur_path st f) = f" for f by (simp add: cur_path_def)
  ultimately show ?thesis by auto
qed

lemma copy_from_result:
  assumes "restorable st names d" and "copyFromBackupDir st names d = (ok, d')"
  shows "f_lookup p d' = (if ok \<and> p \<in> cur_path st ` set names then f_lookup (saved_path st (last p)) d else f_lookup p d)"
proof -
  obtain ok' mv cp e where "copy_from_loop st names [] [] d = (ok', [] @ mv, [] @ cp, e)" "exchanged st mv cp d e"
      "set mv \<union> set cp \<subseteq> set names"
      "ok' \<Longrightarrow> \<forall>f \<in> set names. (f_lookup (cur_path st f) d \<noteq> None \<longrightarrow> f \<in> set mv) \<and> (f_lookup (saved_path st f) d \<noteq> None \<longrightarrow> f \<in> set cp)"
    using copy_from_exchanges [OF assms(1)] by blast
  then show ?thesis
    using exchanged_undone [OF assms(1)] exchanged_kept [OF assms(1)] assms(2) by (cases ok') (auto simp: copyFromBackupDir_def)
qed

text \<open>What is there after all for the loops that put back and remove: no directory comes or goes.\<close>

lemma folds_keep_dirs:
  "same_dirs d (remove_each st fs d)" "same_dirs d (move_back st fs d)"
proof -
  have "same_dirs d (fold (\<lambda>f d. snd (g f d)) fs d)" if "\<And>f d. same_dirs d (snd (g f d))" for g :: "string \<Rightarrow> 'a disk \<Rightarrow> bool \<times> 'a disk"
    by (induction fs arbitrary: d) (auto intro: same_dirs_trans that)
  then show "same_dirs d (remove_each st fs d)" "same_dirs d (move_back st fs d)"
    by (simp_all add: remove_each_def move_back_def)
qed

lemma copy_from_loop_dirs:
  "copy_from_loop st names M C d = (ok, mv, cp, e) \<Longrightarrow> same_dirs d e"
proof (induction names arbitrary: M C d)
  case (Cons f names)
  define r where "r = (if path_exists (path_of (filePath st f)) d then f_rename (path_of (filePath st f)) (path_of (filePath st (f @ ''.bak''))) d else (False, d))"
  have r: "same_dirs d (snd r)" by (simp add: r_def)
  have q: "same_dirs d (snd (f_copy x y (snd r)))" for x y using r by (auto intro: same_dirs_trans)
  from Cons.prems show ?case
    using q
    by (auto simp: Let_def case_prod_beta r_def [symmetric] split: if_splits dest!: Cons.IH
        intro: same_dirs_trans [OF r] same_dirs_trans [OF q])
qed simp

lemma copy_from_dirs:
  assumes "copyFromBackupDir st names d = (ok, d')"
  shows "same_dirs d d'"
proof -
  obtain ok' mv cp e where loop: "copy_from_loop st names [] [] d = (ok', mv, cp, e)" by (metis prod_cases4)
  then have e: "same_dirs d e" by (rule copy_from_loop_dirs)
  have "same_dirs d (move_back st mv (remove_each st cp e))"
    by (rule same_dirs_trans [OF e same_dirs_trans [OF folds_keep_dirs(1) folds_keep_dirs(2)]])
  moreover have "same_dirs d (remove_each st fs e)" for fs
    by (rule same_dirs_trans [OF e folds_keep_dirs(1)])
  ultimately show ?thesis using assms loop by (auto simp: copyFromBackupDir_def split: if_splits)
qed

section \<open>Backing up\<close>

lemma removed_all:
  assumes "list_all (\<lambda>p. \<not> dk_fails d Remove p) ps"
  shows "f_lookup p (fold (\<lambda>entry d. snd (f_remove entry d)) ps d) = (if p \<in> set ps then None else f_lookup p d)
    \<and> same_dirs d (fold (\<lambda>entry d. snd (f_remove entry d)) ps d)"
  using assms
proof (induction ps arbitrary: d)
  case (Cons q ps)
  have e: "same_dirs d (snd (f_remove q d))" by simp
  show ?case
    using Cons.IH [of "snd (f_remove q d)"] Cons.prems same_dirs_trans [OF e] same_dirs_exists(2) [OF e]
    by (auto simp: remove_lookup)
qed simp

text \<open>What is outside of the backup directory is not touched, and in it the files are gone that can be removed.\<close>

lemma erase_lookup:
  assumes "\<And>p. \<not> dk_fails d Remove p"
  shows "f_lookup p (eraseBackupDir st d) =
      (if dir_exists (path_of (backupRoot st)) d \<and> p \<in> set (dir_files (path_of (backupRoot st)) d) then None else f_lookup p d)"
    and "dk_fails (eraseBackupDir st d) = dk_fails d"
    and "dir_exists q (eraseBackupDir st d) \<Longrightarrow> dir_exists q d"
    and "q \<noteq> path_of (backupRoot st) \<Longrightarrow> dir_exists q (eraseBackupDir st d) = dir_exists q d"
  using removed_all [of d "dir_files (path_of (backupRoot st)) d"] assms
  by (auto simp: eraseBackupDir_def Let_def f_rmdir_def list_all_iff same_dirs_def dir_exists_def split: if_splits)

lemma erased_saved:
  assumes "\<And>p. \<not> dk_fails d Remove p" and "dir_exists (path_of (backupRoot st)) d" and "f \<noteq> []" and "hd f \<noteq> CHR ''.''"
  shows "f_lookup (saved_path st f) (eraseBackupDir st d) = None"
proof (cases "f_lookup (saved_path st f) d")
  case None
  then show ?thesis using erase_lookup(1) [OF assms(1)] by simp
next
  case (Some c)
  then have "saved_path st f \<in> set (map fst (dk_files d))" by (force simp: f_lookup_def dest: map_of_SomeD)
  then have "saved_path st f \<in> set (dir_files (path_of (backupRoot st)) d)"
    using assms(3,4) by (simp add: dir_files_def saved_path_def backupRoot_def path_of_backup butlast_append)
  then show ?thesis using erase_lookup(1) [OF assms(1)] assms(2) by simp
qed

lemma copy_to_copies:
  assumes "distinct names" and "list_all plain_name names" and "\<And>p. \<not> dk_fails d Copy p" and "dir_exists (path_of (backupRoot st)) d"
    and "\<forall>f \<in> set names. f_lookup (saved_path st f) d = None \<and> \<not> dir_exists (saved_path st f) d \<and> \<not> dir_exists (cur_path st f) d"
  shows "fst (copy_to_loop st names d) \<and> same_dirs d (snd (copy_to_loop st names d))
    \<and> f_lookup p (snd (copy_to_loop st names d)) = (if p \<in> saved_path st ` set names then f_lookup (cur_path st (last p)) d else f_lookup p d)"
  using assms
proof (induction names arbitrary: d)
  case (Cons f names)
  have plain: "plain_name f" using Cons.prems(2) by simp
  have last: "last (saved_path st g) = g" "butlast (saved_path st g) = path_of (backupRoot st)" for g
    by (simp_all add: saved_path_def backupRoot_def path_of_backup butlast_append)
  define e where "e = (if path_exists (cur_path st f) d then snd (f_copy (cur_path st f) (saved_path st f) d) else d)"
  have copied: "path_exists (cur_path st f) d \<Longrightarrow> fst (f_copy (cur_path st f) (saved_path st f) d)"
    using Cons.prems(3-5) by (simp add: copy_done path_exists_def last)
  have rest: "copy_to_loop st (f # names) d = copy_to_loop st names e"
    using copied Cons.prems(5) by (simp add: plain_paths [OF plain] Let_def case_prod_beta e_def path_exists_def del: path_of_join)
  have look: "f_lookup q e = (if q = saved_path st f then f_lookup (cur_path st f) d else f_lookup q d)" for q
    using copied Cons.prems(5) by (auto simp: e_def copy_lookup path_exists_def)
  have e: "same_dirs d e" by (simp add: e_def)
  have "fst (copy_to_loop st names e) \<and> same_dirs e (snd (copy_to_loop st names e))
      \<and> f_lookup p (snd (copy_to_loop st names e)) = (if p \<in> saved_path st ` set names then f_lookup (cur_path st (last p)) e else f_lookup p e)"
    using Cons.prems look same_dirs_exists [OF e] by (intro Cons.IH) auto
  then show ?case
    using same_dirs_trans [OF e] Cons.prems(1) by (auto simp: look last rest simp del: copy_to_loop.simps)
qed simp

section \<open>Properties\<close>

text \<open>C36: Restoring is all or nothing when only the copying can fail. If \<open>copyFromBackupDir\<close> fails, every file
  of the disk is what it was. If it succeeds, each of the files to be restored is what the backup has of it,
  and every other file is what it was; a file that the backup does not have is gone.\<close>

theorem restore_all_or_nothing:
  assumes "restorable st names d"
  shows "let (ok, d') = copyFromBackupDir st names d
     in \<forall>p. f_lookup p d' = (if ok \<and> p \<in> cur_path st ` set names then f_lookup (saved_path st (last p)) d else f_lookup p d)"
  using copy_from_result [OF assms] by (simp add: case_prod_beta)

definition sample_disk :: "unit disk" where
  "sample_disk = \<lparr>dk_files = [([''s'', ''a''], EmptyFile), ([''s'', ''b''], Metadata empty_meta), ([''s'', ''backup'', ''a''], Metadata empty_meta)],
     dk_dirs = [[''s''], [''s'', ''backup'']], dk_fails = (\<lambda>_ _. False)\<rparr>"

lemma path_of_s: "path_of ''/s'' = [''s'']"
  by (simp add: path_of_def)

theorem restore_all_or_nothing_witness:
  "f_lookup [''s'', ''b''] (snd (copyFromBackupDir ''/s'' [''a'', ''b''] sample_disk)) = None"
proof -
  have "restorable ''/s'' [''a'', ''b''] sample_disk"
    by (simp add: restorable_def plain_name_def path_exists_def f_lookup_def dir_exists_def sample_disk_def cur_path_def bak_path_def path_of_s)
  moreover have "fst (copyFromBackupDir ''/s'' [''a'', ''b''] sample_disk)"
    by code_simp
  ultimately show ?thesis
    using restore_all_or_nothing [of "''/s''" "[''a'', ''b'']" sample_disk]
    by (auto simp: case_prod_beta cur_path_def saved_path_def path_of_s sample_disk_def f_lookup_def image_iff)
qed

end
