(* ===== verification/Backup.thy ===== *)
theory Backup
  imports Backup_Files
begin

text \<open>
  \<open>Backup\<close> (src/signond/backup.cpp), the object on the session bus that copies the databases of the daemon
  to a directory and back, on top of the \<open>CredentialsAccessManager\<close> it closes and opens, and the
  \<open>backupFiles\<close> of the crypto managers. A daemon that is started with \<open>-backup\<close> has this object only: its
  \<open>CredentialsAccessManager\<close> is made but never initialized.
\<close>

section \<open>State\<close>

text \<open>\<open>bk_blank\<close> is the state of a device that is no encrypted volume.\<close>

record 'd backup =
  bk_cam :: "'d storage"
  bk_backup :: bool
  bk_storagePath :: string
  bk_dbName :: string
  bk_blank :: 'd
  bk_disk :: "'d disk"
  bk_quit :: bool

text \<open>The two files that the storage state of the daemon describes, as the file system has them: of a database
  what has been committed, of the partition what is in it whether it is mounted or not.\<close>

definition durable_meta :: "'d storage \<Rightarrow> meta_data" where
  "durable_meta s = (case cam_db s of None \<Rightarrow> durable (cam_metaFile s) | Some db \<Rightarrow> durable (cd_meta db))"

definition meta_on_file :: "'d storage \<Rightarrow> 'd contents option" where
  "meta_on_file s = (if cam_metaExists s then Some (Metadata (durable_meta s)) else None)"

definition partition_on_file :: "'d storage \<Rightarrow> 'd contents option" where
  "partition_on_file s =
     (case mc_partition s of
        None \<Rightarrow> None
      | Some n \<Rightarrow>
          Some (if mc_mounted s then Partition n (mc_device s) (mc_keychain s) (ss_files (the_storage s))
                else Partition n (mc_device s) (mc_hidden_keychain s) (mc_hidden_files s)))"

definition put_contents :: "path \<Rightarrow> 'd contents option \<Rightarrow> 'd disk \<Rightarrow> 'd disk" where
  "put_contents p c d =
     d\<lparr>dk_files := (case c of None \<Rightarrow> qh_remove p (dk_files d) | Some x \<Rightarrow> qh_insert p x (dk_files d))\<rparr>"

definition metadataDBPath :: "'d backup \<Rightarrow> string" where
  "metadataDBPath b = join_path (bk_storagePath b) (bk_dbName b)"

definition cam_to_disk :: "'d backup \<Rightarrow> 'd disk" where
  "cam_to_disk b =
     put_contents (path_of (metadataDBPath b)) (meta_on_file (bk_cam b))
       (if cm_kind (bk_cam b) = Some Cryptsetup
        then put_contents (path_of (cm_fileSystemPath (bk_cam b))) (partition_on_file (bk_cam b)) (bk_disk b)
        else bk_disk b)"

text \<open>And back. A file of no bytes is a database without tables. The kernel goes on using a partition that is
  mapped; what is in the file now counts when it is opened the next time.\<close>

definition meta_in :: "'d contents option \<Rightarrow> meta_data" where
  "meta_in c = (case c of Some (Metadata m) \<Rightarrow> m | _ \<Rightarrow> empty_meta)"

definition take_meta :: "'d contents option \<Rightarrow> 'd storage \<Rightarrow> 'd storage" where
  "take_meta c s =
     s\<lparr>cam_metaExists := (c \<noteq> None),
       cam_metaFile := (cam_metaFile s)\<lparr>sq_data := meta_in c, sq_saved := None\<rparr>,
       cam_db := map_option (\<lambda>db. db\<lparr>cd_meta := (cd_meta db)\<lparr>sq_data := meta_in c, sq_saved := None\<rparr>\<rparr>) (cam_db s)\<rparr>"

definition take_partition :: "'d \<Rightarrow> 'd contents option \<Rightarrow> 'd storage \<Rightarrow> 'd storage" where
  "take_partition blank c s =
     (case c of
        Some (Partition n dev keys files) \<Rightarrow>
          if mc_mapped s then s\<lparr>mc_partition := Some n\<rparr>
          else s\<lparr>mc_partition := Some n, mc_device := dev, mc_hidden_keychain := keys, mc_hidden_files := files\<rparr>
      | _ \<Rightarrow>
          if mc_mapped s then s\<lparr>mc_partition := map_option (\<lambda>_. 0) c\<rparr>
          else s\<lparr>mc_partition := map_option (\<lambda>_. 0) c, mc_device := blank, mc_hidden_keychain := [], mc_hidden_files := []\<rparr>)"

definition cam_from_disk :: "'d disk \<Rightarrow> 'd backup \<Rightarrow> 'd storage" where
  "cam_from_disk d b =
     take_meta (f_lookup (path_of (metadataDBPath b)) d)
       (if cm_kind (bk_cam b) = Some Cryptsetup
        then take_partition (bk_blank b) (f_lookup (path_of (cm_fileSystemPath (bk_cam b))) d) (bk_cam b)
        else bk_cam b)"

definition with_files :: "('d disk \<Rightarrow> 'r \<times> 'd disk) \<Rightarrow> 'd backup \<Rightarrow> 'r \<times> 'd backup" where
  "with_files f b = (let (r, d) = f (cam_to_disk b) in (r, b\<lparr>bk_disk := d, bk_cam := cam_from_disk d b\<rparr>))"

section \<open>Operations\<close>

text \<open>\<open>CredentialsAccessManager::backupFiles\<close> asks the crypto manager, which \<open>init\<close> creates; \<open>None\<close> is the
  null pointer. \<open>AbstractCryptoManager\<close> has no files; \<open>CryptoManager\<close> names its one by the full path.\<close>

definition backupFiles :: "'d storage \<Rightarrow> string list option" where
  "backupFiles s =
     (case cm_kind s of
        None \<Rightarrow> None
      | Some DefaultCrypto \<Rightarrow> Some []
      | Some Cryptsetup \<Rightarrow> Some [cm_fileSystemPath s])"

definition close_cam :: "'d backup \<Rightarrow> bool \<times> 'd backup" where
  "close_cam b = (let (ok, s) = closeCredentialsSystem (bk_cam b) in (ok, b\<lparr>bk_cam := s\<rparr>))"

definition open_cam :: "'d backup \<Rightarrow> bool \<times> 'd backup" where
  "open_cam b = (let (ok, s) = openCredentialsSystem (bk_cam b) in (ok, b\<lparr>bk_cam := s\<rparr>))"

definition crash_backup :: "'d backup \<Rightarrow> 'd backup" where
  "crash_backup b = b\<lparr>bk_cam := cam_crash (bk_cam b)\<rparr>"

text \<open>The files are made if they are not there, the last backup is erased, the files are copied.\<close>

datatype backup_result = TreeFailed | CopyFailed | Copied

definition copy_files :: "string \<Rightarrow> string list \<Rightarrow> 'd disk \<Rightarrow> backup_result \<times> 'd disk" where
  "copy_files storagePath fileNames d =
     (let (created, d) = createStorageFileTree storagePath fileNames d in
      if \<not> created then (TreeFailed, d)
      else
        let (copied, d) = copyToBackupDir storagePath fileNames (eraseBackupDir storagePath d)
        in (if copied then Copied else CopyFailed, d))"

text \<open>The reply of a call; there is none, \<open>None\<close>, when the daemon has crashed.\<close>

definition backupStarts :: "'d backup \<Rightarrow> nat option \<times> 'd backup" where
  "backupStarts b0 =
     (let b = (if \<not> bk_backup b0 \<and> cam_systemOpened (bk_cam b0) then snd (close_cam b0) else b0) in
      if \<not> bk_backup b0 \<and> cam_systemOpened (bk_cam b0) \<and> cam_systemOpened (bk_cam b) then (Some 2, b)
      else
        case backupFiles (bk_cam b) of
          None \<Rightarrow> (None, crash_backup b)
        | Some files \<Rightarrow>
            let (r, b) = with_files (copy_files (bk_storagePath b) (bk_dbName b # files)) b in
            case r of
              TreeFailed \<Rightarrow> (Some 2, b)
            | CopyFailed \<Rightarrow> (Some 2, if \<not> bk_backup b then snd (open_cam b) else b)
            | Copied \<Rightarrow> (Some 0, if \<not> bk_backup b then snd (open_cam b) else b))"

definition erase_backup :: "'d backup \<Rightarrow> 'd backup" where
  "erase_backup b = snd (with_files (\<lambda>d. ((), eraseBackupDir (bk_storagePath b) d)) b)"

definition backupFinished :: "'d backup \<Rightarrow> nat option \<times> 'd backup" where
  "backupFinished b0 = (let b = erase_backup b0 in (Some 0, if bk_backup b then b\<lparr>bk_quit := True\<rparr> else b))"

definition restoreStarts :: "'d backup \<Rightarrow> nat option \<times> 'd backup" where
  "restoreStarts b = (Some 0, b)"

definition restoreFinished :: "'d backup \<Rightarrow> nat option \<times> 'd backup" where
  "restoreFinished b0 =
     (let (closed, b) = (if cam_systemOpened (bk_cam b0) then close_cam b0 else (True, b0)) in
      if \<not> closed then (Some 2, b)
      else
        case backupFiles (bk_cam b) of
          None \<Rightarrow> (None, crash_backup b)
        | Some files \<Rightarrow>
            let (ok, b) = with_files (copyFromBackupDir (bk_storagePath b) (bk_dbName b # files)) b in
            if \<not> ok then (Some 2, snd (open_cam b))
            else
              let b = erase_backup b in
              if \<not> bk_backup b
              then let (opened, b) = open_cam b in (Some (if opened then 0 else 2), b)
              else (Some 0, b))"

section \<open>What the storage does to the metadata\<close>

text \<open>What opening and closing the secrets leaves alone.\<close>

definition meta_view where
  "meta_view s = (cm_kind s, cam_isInitialized s, cam_systemOpened s, cam_metaExists s, cam_metaFile s, map_option cd_meta (cam_db s),
     mc_partition s, cm_fileSystemPath s)"

lemma meta_view_fields [simp]:
  "meta_view (s\<lparr>cam_error := e\<rparr>) = meta_view s" "meta_view (s\<lparr>cam_fault := b\<rparr>) = meta_view s" "meta_view (s\<lparr>mc_mounted := b\<rparr>) = meta_view s"
  "meta_view (s\<lparr>mc_mapped := b\<rparr>) = meta_view s" "meta_view (s\<lparr>cm_fileSystemIsMounted := b\<rparr>) = meta_view s"
  "meta_view (s\<lparr>cm_mountState := m\<rparr>) = meta_view s" "meta_view (s\<lparr>mc_calls := c\<rparr>) = meta_view s"
  by (simp_all add: meta_view_def)

lemma meta_view_secrets [simp]:
  "meta_view (cam_crash s) = meta_view s" "meta_view (snd (cam_isSecretsDBOpen s)) = meta_view s" "meta_view (db_closeSecrets s) = meta_view s"
  "meta_view (snd (cam_openSecretsDB s)) = meta_view s" "meta_view (on_storage f s) = meta_view s"
  by (simp_all add: meta_view_def cam_crash_def cam_isSecretsDBOpen_def db_closeSecrets_def cam_openSecretsDB_def on_storage_def closeSecretsDB_def
      openSecretsDB_def on_secrets_def Let_def case_prod_beta split: option.split)

lemma meta_view_mounted [simp]:
  "meta_view (onEncryptedFSMounted s) = meta_view s" "meta_view (onEncryptedFSUnmounting s) = meta_view s"
  "meta_view (setFileSystemMounted b s) = meta_view s" "meta_view (updateMountState m s) = meta_view s"
  by (simp_all add: onEncryptedFSMounted_def onEncryptedFSUnmounting_def setFileSystemMounted_def updateMountState_def Let_def case_prod_beta)

lemma meta_view_calls [simp]:
  "meta_view (snd (next_call s)) = meta_view s" "meta_view (snd (makeCall s)) = meta_view s" "meta_view (snd (closeFile s)) = meta_view s"
  by (simp_all add: next_call_def makeCall_def closeFile_def Let_def case_prod_beta split: list.split)

lemma meta_view_exchange [simp]: "meta_view (exchange s) = meta_view s"
proof -
  have "meta_view ((on_storage f s)\<lparr>mc_keychain := k, mc_hidden_keychain := h, mc_hidden_files := g\<rparr>) = meta_view (on_storage f s)" for f k h g
    by (simp add: meta_view_def)
  then show ?thesis by (simp add: exchange_def)
qed

lemma meta_view_unmount [simp]:
  "meta_view (snd (unmountMappedDevice s)) = meta_view s" "meta_view (snd (cs_unmountFileSystem s)) = meta_view s"
  "meta_view (snd (unmountFileSystem s)) = meta_view s" "meta_view (snd (cam_closeSecretsDB s)) = meta_view s"
proof -
  show umount: "meta_view (snd (unmountMappedDevice s)) = meta_view s" for s :: "'a storage"
    by (simp add: unmountMappedDevice_def MountHandler_umount_def case_prod_beta Let_def)
  have reached: "meta_view (snd (if_reached b f s)) = meta_view s" if "meta_view (snd (f s)) = meta_view s" for b f and s :: "'a storage"
    using that by (simp add: if_reached_def)
  show cs: "meta_view (snd (cs_unmountFileSystem s)) = meta_view s" for s :: "'a storage"
    by (simp add: cs_unmountFileSystem_def Let_def case_prod_beta reached umount)
  show unmount: "meta_view (snd (unmountFileSystem s)) = meta_view s" for s :: "'a storage"
    by (simp add: unmountFileSystem_def cs)
  show "meta_view (snd (cam_closeSecretsDB s)) = meta_view s"
    by (simp add: cam_closeSecretsDB_def Let_def case_prod_beta unmount)
qed

text \<open>The credentials system when it is open and no transaction is pending.\<close>

definition at_rest :: "'d storage \<Rightarrow> bool" where
  "at_rest s \<longleftrightarrow> cam_isInitialized s \<and> cam_systemOpened s \<and> cam_metaExists s
     \<and> (case cam_db s of None \<Rightarrow> False | Some db \<Rightarrow> sq_io (cd_meta db) = [] \<and> sq_saved (cd_meta db) = None)"

lemma close_at_rest:
  assumes "at_rest s"
  obtains t where "snd (closeCredentialsSystem s) = t" "cam_db t = None" "\<not> cam_systemOpened t" "cam_isInitialized t" "cam_metaExists t"
    "cm_kind t = cm_kind s" "durable_meta t = durable_meta s" "sq_io (cam_metaFile t) = []" "sq_saved (cam_metaFile t) = None"
    "sq_error (cam_metaFile t) = NoError" "mc_partition t = mc_partition s" "cm_fileSystemPath t = cm_fileSystemPath s"
proof -
  obtain db where db: "cam_db s = Some db" "sq_io (cd_meta db) = []" "sq_saved (cd_meta db) = None"
    using assms by (auto simp: at_rest_def split: option.splits)
  define u where "u = (if fst (cam_isSecretsDBOpen s) then snd (cam_closeSecretsDB (snd (cam_isSecretsDBOpen s))) else snd (cam_isSecretsDBOpen s))"
  have u: "meta_view u = meta_view s" by (simp add: u_def)
  have t: "snd (closeCredentialsSystem s) = (closeMetaDataDB u)\<lparr>cam_error := CamNoError, cam_systemOpened := False\<rparr>"
    using assms by (simp add: closeCredentialsSystem_def at_rest_def u_def Let_def case_prod_beta)
  from u db obtain db' where "cam_db u = Some db'" "cd_meta db' = cd_meta db"
    by (auto simp: meta_view_def)
  then show ?thesis
    using t u db assms
    by (intro that [OF refl])
       (simp_all add: closeMetaDataDB_def closed_meta_def durable_meta_def meta_view_def at_rest_def sql_commit_def next_io_def durable_def)
qed

text \<open>Opening it again, with a crypto manager that encrypts nothing.\<close>

lemma default_mount: "cm_kind s \<noteq> Some Cryptsetup \<Longrightarrow> meta_view (snd (mountFileSystem s)) = meta_view s"
  by (simp add: mountFileSystem_def)

lemma open_default:
  assumes "cam_isInitialized t" and "cam_db t = None" and "cm_kind t \<noteq> Some Cryptsetup"
    and "meta_init (cam_metaFile t) = (True, db)" and "sq_io db = []" and "sq_saved db = None"
  obtains u where "openCredentialsSystem t = (True, u)" "at_rest u" "durable_meta u = sq_data db" "cm_kind u = cm_kind t"
proof -
  define v where "v = t\<lparr>cam_db := Some \<lparr>cd_meta = db, cd_secrets = cam_storage t, cd_cache = [], cd_lastError = NoError, cd_updated = []\<rparr>,
     cam_metaExists := True, cam_systemOpened := True\<rparr>"
  define u where "u = snd (if cm_fileSystemIsMounted v then cam_openSecretsDB v else mountFileSystem v)"
  have opened: "openCredentialsSystem t = (True, u)"
    using assms(1,2,4)
    by (simp add: openCredentialsSystem_def openMetaDataDB_def closeMetaDataDB_def cd_init_def on_meta_def Let_def u_def v_def)
  have "cm_kind v \<noteq> Some Cryptsetup" using assms(3) by (simp add: v_def)
  then have view: "meta_view u = meta_view v" using default_mount [of v] by (auto simp: u_def)
  then have fields: "cm_kind u = cm_kind t" "cam_isInitialized u" "cam_systemOpened u" "cam_metaExists u" "map_option cd_meta (cam_db u) = Some db"
    using assms(1) by (simp_all add: meta_view_def v_def)
  then obtain cdb where "cam_db u = Some cdb" "cd_meta cdb = db" by auto
  then show ?thesis
    using opened fields assms(5,6) by (intro that [of u]) (simp_all add: at_rest_def durable_meta_def durable_def)
qed

text \<open>The database is of the version of the code, or there is none.\<close>

definition current_meta :: "meta_data \<Rightarrow> bool" where
  "current_meta m \<longleftrightarrow> meta_hasTables m \<and> META_VERSION \<le> md_version m"

definition new_meta :: meta_data where
  "new_meta = empty_meta\<lparr>md_objects := createTableQuery, md_version := META_VERSION\<rparr>"

lemma init_current:
  assumes "sq_io db = []" and "current_meta (sq_data db)"
  shows "meta_init db = (True, db\<lparr>sq_error := NoError\<rparr>)"
  using assms by (simp add: meta_init_def sql_init_def sql_connect_def next_io_def sql_query_def current_meta_def)

lemma init_empty:
  assumes "sq_io db = []" and "sq_saved db = None" and "sq_error db = NoError" and "sq_data db = empty_meta"
  shows "meta_init db = (True, db\<lparr>sq_data := new_meta\<rparr>)"
proof -
  have "create_loop createTableQuery db = (True, db\<lparr>sq_data := empty_meta\<lparr>md_objects := createTableQuery\<rparr>\<rparr>)"
    using create_loop_good [OF assms(1-3), of createTableQuery] creatable_code(1) assms(4) by (simp add: empty_meta_def)
  then show ?thesis
    using assms
    by (simp add: meta_init_def sql_init_def sql_connect_def next_io_def meta_hasTables_def meta_createTables_def base_updateDB_def
        st_set_version_def sql_exec_def new_meta_def empty_meta_def)
qed

section \<open>One file\<close>

text \<open>The storage directory is as one expects it, and every call of the file system works.\<close>

definition ready_disk :: "string \<Rightarrow> string \<Rightarrow> 'd disk \<Rightarrow> bool" where
  "ready_disk st name d \<longleftrightarrow>
     (\<forall>call p. \<not> dk_fails d call p) \<and> dir_exists (path_of st) d \<and> plain_name name \<and> hd name \<noteq> CHR ''.'' \<and> name \<noteq> ''backup''
     \<and> \<not> path_exists (bak_path st name) d \<and> \<not> dir_exists (cur_path st name) d \<and> \<not> dir_exists (saved_path st name) d
     \<and> (f_lookup (saved_path st name) d = None \<or> dir_exists (path_of (backupRoot st)) d)"

lemma ready_restorable: "ready_disk st name d \<Longrightarrow> restorable st [name] d"
  by (simp add: ready_disk_def restorable_def)

lemma ready_same:
  assumes "same_dirs d d'" and "f_lookup (bak_path st name) d' = f_lookup (bak_path st name) d"
    and "f_lookup (saved_path st name) d' = f_lookup (saved_path st name) d \<or> dir_exists (path_of (backupRoot st)) d"
  shows "ready_disk st name d' = ready_disk st name d"
  using assms(2,3) same_dirs_exists [OF assms(1)] by (auto simp: ready_disk_def path_exists_def)

lemma backup_dir: "cur_path st ''backup'' = path_of (backupRoot st)"
  by (simp add: cur_path_def backupRoot_def path_of_backup)

lemma ready_mkpath:
  assumes "ready_disk st name d"
  obtains e where "f_mkpath (path_of (backupRoot st)) d = (True, e)" "ready_disk st name e" "\<And>p. f_lookup p e = f_lookup p d"
    "dir_exists (path_of (backupRoot st)) e" "\<And>q. dir_exists q e \<Longrightarrow> dir_exists q d \<or> (\<exists>n. q = take n (path_of (backupRoot st)))"
proof -
  let ?root = "path_of (backupRoot st)"
  define e where "e = snd (f_mkpath ?root d)"
  have e: "f_mkpath ?root d = (True, e)" using assms by (simp add: ready_disk_def e_def f_mkpath_def)
  have new: "dir_exists q d \<or> (\<exists>n. q = take n ?root)" if "dir_exists q e" for q
    using that by (auto simp: e_def f_mkpath_def dir_exists_def split: if_splits) (metis order_refl take_all)+
  have old: "dir_exists q e" if "dir_exists q d" for q
    using that by (simp add: e_def f_mkpath_def dir_exists_def)
  have root: "dir_exists ?root e"
    using assms by (auto simp: e_def f_mkpath_def dir_exists_def ready_disk_def)
  have "length (cur_path st f) = length ?root" "length (bak_path st f) = length ?root" "length ?root < length (saved_path st f)" for f
    by (simp_all add: cur_path_def bak_path_def saved_path_def backupRoot_def path_of_backup)
  moreover have "cur_path st name \<noteq> ?root" "bak_path st name \<noteq> ?root"
    using assms by (auto simp: backup_dir [symmetric] ready_disk_def)
  ultimately have apart: "q \<noteq> take n ?root" if "q \<in> {cur_path st name, bak_path st name, saved_path st name}" for q n
    using that by (metis insertE length_take min.cobounded1 min_def not_less singletonD take_all)
  have none: "\<not> dir_exists q e" if "q \<in> {cur_path st name, bak_path st name, saved_path st name}" "\<not> dir_exists q d" for q
    using new [of q] apart [OF that(1)] that(2) by blast
  have files: "dk_files e = dk_files d" "dk_fails e = dk_fails d" by (simp_all add: e_def f_mkpath_def)
  show ?thesis
    using assms none files old root new by (intro that [OF e]) (simp_all add: ready_disk_def f_lookup_def path_exists_def)
qed

text \<open>The backup directory is there, and empty of what is to be copied.\<close>

lemma target_prepared:
  assumes "ready_disk st name d"
  obtains g where "\<And>names. copyToBackupDir st names (eraseBackupDir st d) = copy_to_loop st names g" "ready_disk st name g"
    "dir_exists (path_of (backupRoot st)) g" "f_lookup (saved_path st name) g = None"
    "\<And>p. butlast p \<noteq> path_of (backupRoot st) \<Longrightarrow> f_lookup p g = f_lookup p d" "\<And>p. f_lookup p d = None \<Longrightarrow> f_lookup p g = None"
    "\<And>q. dir_exists q g \<Longrightarrow> dir_exists q d \<or> (\<exists>n. q = take n (path_of (backupRoot st)))"
proof -
  let ?root = "path_of (backupRoot st)"
  have plain: "plain_name name" using assms by (simp add: ready_disk_def)
  define e where "e = eraseBackupDir st d"
  have rm: "\<not> dk_fails d Remove p" for p using assms by (simp add: ready_disk_def)
  have root: "?root = path_of st @ [''backup'']" by (simp add: backupRoot_def path_of_backup)
  have kept: "f_lookup p e = f_lookup p d" if "butlast p \<noteq> ?root" for p
    using erase_lookup(1) [OF rm] that by (simp add: e_def dir_files_def)
  have gone: "f_lookup (saved_path st name) e = None"
  proof (cases "dir_exists ?root d")
    case True
    have "name \<noteq> []" using plain by (simp add: plain_name_def)
    then show ?thesis using erased_saved [OF rm True] assms by (simp add: e_def ready_disk_def)
  next
    case False
    then show ?thesis using assms erase_lookup(1) [OF rm] by (simp add: ready_disk_def e_def)
  qed
  have "path_of st \<noteq> ?root" "butlast (bak_path st name) \<noteq> ?root" by (simp_all add: root bak_path_def)
  then have e: "ready_disk st name e"
    using assms gone kept [of "bak_path st name"] erase_lookup(2-4) [where d = d and st = st, OF rm]
    by (auto simp: ready_disk_def path_exists_def e_def)
  have dirs: "dir_exists q d" if "dir_exists q e" for q using erase_lookup(3) [OF rm] that by (simp add: e_def)
  have none: "f_lookup p e = None" if "f_lookup p d = None" for p using erase_lookup(1) [OF rm] that by (simp add: e_def)
  define r where "r = (if dir_exists ?root e then (True, e) else f_mkpath ?root e)"
  obtain g where g: "r = (True, g)" "ready_disk st name g" "\<And>p. f_lookup p g = f_lookup p e" "dir_exists ?root g"
    "\<And>q. dir_exists q g \<Longrightarrow> dir_exists q e \<or> (\<exists>n. q = take n ?root)"
  proof (cases "dir_exists ?root e")
    case True
    then show ?thesis using e by (intro that [of e]) (simp_all add: r_def)
  next
    case False
    obtain g where "f_mkpath ?root e = (True, g)" "ready_disk st name g" "\<And>p. f_lookup p g = f_lookup p e" "dir_exists ?root g"
        "\<And>q. dir_exists q g \<Longrightarrow> dir_exists q e \<or> (\<exists>n. q = take n ?root)"
      using ready_mkpath [OF e] by blast
    then show ?thesis using False by (intro that [of g]) (simp_all add: r_def)
  qed
  have "copyToBackupDir st names (eraseBackupDir st d) = copy_to_loop st names g" for names
    unfolding copyToBackupDir_def Let_def e_def [symmetric] r_def [symmetric] g(1) by simp
  moreover have "dir_exists q d \<or> (\<exists>n. q = take n ?root)" if "dir_exists q g" for q
    using g(5) [OF that] dirs by blast
  ultimately show ?thesis
    using g(2-4) gone kept none by (intro that [of g]) simp_all
qed

lemma loop_copies_one:
  assumes "ready_disk st name g" and "dir_exists (path_of (backupRoot st)) g" and "f_lookup (saved_path st name) g = None"
  obtains d' where "copy_to_loop st [name] g = (True, d')" "same_dirs g d'" "ready_disk st name d'"
    "\<And>p. f_lookup p d' = (if p = saved_path st name then f_lookup (cur_path st name) g else f_lookup p g)"
proof -
  have "\<forall>f \<in> set [name]. f_lookup (saved_path st f) g = None \<and> \<not> dir_exists (saved_path st f) g \<and> \<not> dir_exists (cur_path st f) g"
    using assms by (simp add: ready_disk_def)
  then have copied: "fst (copy_to_loop st [name] g) \<and> same_dirs g (snd (copy_to_loop st [name] g))
      \<and> f_lookup p (snd (copy_to_loop st [name] g)) = (if p \<in> saved_path st ` set [name] then f_lookup (cur_path st (last p)) g else f_lookup p g)" for p
    using assms by (intro copy_to_copies) (simp_all add: ready_disk_def)
  define d' where "d' = snd (copy_to_loop st [name] g)"
  have "last (saved_path st name) = name" by (simp add: saved_path_def)
  moreover have "copy_to_loop st [name] g = (True, d')"
    using copied by (simp add: prod_eq_iff d'_def del: copy_to_loop.simps)
  ultimately show ?thesis
    using copied [folded d'_def] assms(1,2) ready_same [of g d' st name] by (intro that [of d']) auto
qed

lemma copy_one:
  assumes "ready_disk st name d" and "f_lookup (cur_path st name) d \<noteq> None"
  obtains d' where "copy_files st [name] d = (Copied, d')" "f_lookup (saved_path st name) d' = f_lookup (cur_path st name) d"
    "f_lookup (cur_path st name) d' = f_lookup (cur_path st name) d" "ready_disk st name d'"
proof -
  have plain: "plain_name name" using assms(1) by (simp add: ready_disk_def)
  have created: "createStorageFileTree st [name] d = (True, d)"
    using assms by (simp add: createStorageFileTree_def ready_disk_def plain_paths [OF plain] path_exists_def)
  obtain g where g: "\<And>names. copyToBackupDir st names (eraseBackupDir st d) = copy_to_loop st names g" "ready_disk st name g"
    "dir_exists (path_of (backupRoot st)) g" "f_lookup (saved_path st name) g = None"
    "\<And>p. butlast p \<noteq> path_of (backupRoot st) \<Longrightarrow> f_lookup p g = f_lookup p d" "\<And>p. f_lookup p d = None \<Longrightarrow> f_lookup p g = None"
    "\<And>q. dir_exists q g \<Longrightarrow> dir_exists q d \<or> (\<exists>n. q = take n (path_of (backupRoot st)))"
    by (rule target_prepared [OF assms(1)], rule that, assumption+)
  obtain d' where "copy_to_loop st [name] g = (True, d')" "same_dirs g d'" "ready_disk st name d'"
    "\<And>p. f_lookup p d' = (if p = saved_path st name then f_lookup (cur_path st name) g else f_lookup p g)"
    by (rule loop_copies_one [OF g(2-4)], rule that, assumption+)
  moreover have "butlast (cur_path st name) \<noteq> path_of (backupRoot st)" by (simp add: cur_path_def backupRoot_def path_of_backup)
  ultimately show ?thesis
    using g(5) by (intro that [of d']) (simp_all add: copy_files_def created g(1) del: copy_to_loop.simps)
qed

text \<open>Restoring one file: it is what the backup has, and it is gone if the backup has nothing.\<close>

lemma restore_one:
  assumes "ready_disk st name d"
  obtains d' where "copyFromBackupDir st [name] d = (True, d')"
    "f_lookup (cur_path st name) d' = f_lookup (saved_path st name) d" "ready_disk st name d'"
proof -
  have plain: "plain_name name" using assms by (simp add: ready_disk_def)
  note restorable = ready_restorable [OF assms]
  define r where "r = (if path_exists (cur_path st name) d then f_rename (cur_path st name) (bak_path st name) d else (False, d))"
  note aside = put_aside [OF restorable, folded r_def]
  have "butlast (cur_path st name) = path_of st" by (simp add: cur_path_def)
  moreover have same: "same_dirs d (snd r)" using aside(1) by (simp add: exchanged_def)
  moreover have "f_lookup (saved_path st name) (snd r) = f_lookup (saved_path st name) d"
    by (rule exchanged_elsewhere [OF aside(1), of name]) auto
  ultimately have "path_exists (saved_path st name) (snd r) \<Longrightarrow> fst (f_copy (saved_path st name) (cur_path st name) (snd r))"
    using assms aside(3) same_dirs_exists [OF same] by (simp add: copy_done path_exists_def ready_disk_def)
  then have "fst (copy_from_loop st [name] [] [] d)"
    by (simp add: plain_paths [OF plain] Let_def case_prod_beta r_def [symmetric] del: path_of_join)
  then obtain d' where d': "copyFromBackupDir st [name] d = (True, d')"
    by (cases "copy_from_loop st [name] [] [] d") (auto simp: copyFromBackupDir_def)
  have "f_lookup p d' = (if p = cur_path st name then f_lookup (saved_path st name) d else f_lookup p d)" for p
    using copy_from_result [OF restorable d', of p] by (auto simp: cur_path_def)
  then show ?thesis
    using ready_same [OF copy_from_dirs [OF d'], of st name] assms by (intro that [OF d']) (simp_all add: cur_path_def bak_path_def saved_path_def)
qed

lemma erase_one:
  assumes "ready_disk st name d"
  shows "f_lookup (cur_path st name) (eraseBackupDir st d) = f_lookup (cur_path st name) d"
proof -
  have "\<not> dk_fails d Remove p" for p using assms by (simp add: ready_disk_def)
  moreover have "cur_path st name \<notin> set (dir_files (path_of (backupRoot st)) d)"
    by (simp add: dir_files_def cur_path_def backupRoot_def path_of_backup)
  ultimately show ?thesis using erase_lookup(1) [of d "cur_path st name" st] by simp
qed

section \<open>The calls of a daemon that encrypts nothing\<close>

text \<open>The daemon is running, with the metadata database open, and the storage directory is ready.\<close>

definition backup_ready :: "'d backup \<Rightarrow> bool" where
  "backup_ready b \<longleftrightarrow> \<not> bk_backup b \<and> cm_kind (bk_cam b) = Some DefaultCrypto \<and> at_rest (bk_cam b)
     \<and> ready_disk (bk_storagePath b) (bk_dbName b) (bk_disk b)"

lemma put_ready:
  assumes "ready_disk st name d"
  shows "ready_disk st name (put_contents (cur_path st name) c d)"
proof -
  have "same_dirs d (put_contents (cur_path st name) c d)" by (simp add: same_dirs_def put_contents_def)
  moreover have "f_lookup p (put_contents (cur_path st name) c d) = (if p = cur_path st name then c else f_lookup p d)" for p
    by (cases c) (simp_all add: put_contents_def)
  moreover have "bak_path st name \<noteq> cur_path st name" by (simp add: bak_path_def cur_path_def)
  ultimately show ?thesis using ready_same [of d _ st name] assms by simp
qed

lemma put_lookup: "f_lookup p (put_contents q c d) = (if p = q then c else f_lookup p d)"
  by (cases c) (simp_all add: put_contents_def)

lemma metadata_path: "plain_name (bk_dbName b) \<Longrightarrow> path_of (metadataDBPath b) = cur_path (bk_storagePath b) (bk_dbName b)"
  by (simp add: metadataDBPath_def plain_paths del: path_of_join)

lemma closed_backup:
  assumes "backup_ready b"
  obtains t where "snd (close_cam b) = b\<lparr>bk_cam := t\<rparr>" "cam_db t = None" "\<not> cam_systemOpened t" "cam_isInitialized t" "cam_metaExists t"
    "cm_kind t = Some DefaultCrypto" "durable_meta t = durable_meta (bk_cam b)" "sq_io (cam_metaFile t) = []" "sq_saved (cam_metaFile t) = None"
    "sq_error (cam_metaFile t) = NoError"
proof -
  have "at_rest (bk_cam b)" "cm_kind (bk_cam b) = Some DefaultCrypto" using assms by (simp_all add: backup_ready_def)
  from close_at_rest [OF this(1)] this(2) show ?thesis
    by (metis (mono_tags, lifting) case_prod_beta close_cam_def snd_conv that)
qed

text \<open>The \<open>CredentialsAccessManager\<close> while its database is closed, without encryption.\<close>

definition closed_cam :: "'d storage \<Rightarrow> bool" where
  "closed_cam t \<longleftrightarrow> cam_db t = None \<and> \<not> cam_systemOpened t \<and> cam_isInitialized t \<and> cm_kind t = Some DefaultCrypto
     \<and> sq_io (cam_metaFile t) = [] \<and> sq_saved (cam_metaFile t) = None \<and> sq_error (cam_metaFile t) = NoError"

lemma take_closed:
  assumes "closed_cam t"
  shows "closed_cam (take_meta c t)" "take_meta c (take_meta c' t) = take_meta c t" "durable_meta (take_meta c t) = meta_in c"
    "meta_on_file (take_meta c t) = map_option (\<lambda>_. Metadata (meta_in c)) c"
  using assms by (auto simp: closed_cam_def take_meta_def durable_meta_def durable_def meta_on_file_def split: option.split)

lemma with_files_closed:
  assumes "closed_cam (bk_cam b)" and "plain_name (bk_dbName b)"
    and "f (put_contents (cur_path (bk_storagePath b) (bk_dbName b)) (meta_on_file (bk_cam b)) (bk_disk b)) = (r, d)"
  shows "with_files f b = (r, b\<lparr>bk_disk := d, bk_cam := take_meta (f_lookup (cur_path (bk_storagePath b) (bk_dbName b)) d) (bk_cam b)\<rparr>)"
  using assms by (simp add: with_files_def cam_to_disk_def cam_from_disk_def metadata_path closed_cam_def)

lemma reopened:
  assumes "closed_cam t" and "bk_cam b = take_meta c t" and "c = None \<or> current_meta (meta_in c)"
  obtains u where "open_cam b = (True, b\<lparr>bk_cam := u\<rparr>)" "at_rest u" "cm_kind u = Some DefaultCrypto"
    "durable_meta u = (if c = None then new_meta else meta_in c)"
proof -
  define m where "m = (if c = None then new_meta else meta_in c)"
  define x where "x = cam_metaFile (bk_cam b)"
  have x: "sq_io x = []" "sq_saved x = None" "sq_error x = NoError" "sq_data x = meta_in c"
    using assms(1,2) by (simp_all add: x_def take_meta_def closed_cam_def)
  have "meta_init x = (True, x\<lparr>sq_data := m\<rparr>)"
  proof (cases "c = None")
    case True
    then have "sq_data x = empty_meta" using x by (simp add: meta_in_def)
    from init_empty [OF x(1-3) this] show ?thesis using True by (simp add: m_def)
  next
    case False
    then have "current_meta (sq_data x)" using assms(3) x(4) by auto
    from init_current [OF x(1) this] x False show ?thesis by (cases x) (auto simp: m_def)
  qed
  moreover have "closed_cam (bk_cam b)" using take_closed(1) [OF assms(1)] assms(2) by simp
  ultimately obtain u where "openCredentialsSystem (bk_cam b) = (True, u)" "at_rest u" "durable_meta u = m" "cm_kind u = cm_kind (bk_cam b)"
    using open_default [of "bk_cam b" "x\<lparr>sq_data := m\<rparr>"] x by (force simp: closed_cam_def x_def)
  then show ?thesis
    using \<open>closed_cam (bk_cam b)\<close> by (intro that [of u]) (simp_all add: open_cam_def closed_cam_def m_def)
qed

lemma closed_backup_cam:
  assumes "backup_ready b"
  obtains t where "snd (close_cam b) = b\<lparr>bk_cam := t\<rparr>" "closed_cam t" "meta_on_file t = Some (Metadata (durable_meta (bk_cam b)))"
    "take_meta (Some (Metadata (durable_meta (bk_cam b)))) t = t"
proof -
  obtain t where t: "snd (close_cam b) = b\<lparr>bk_cam := t\<rparr>" "cam_db t = None" "\<not> cam_systemOpened t" "cam_isInitialized t" "cam_metaExists t"
    "cm_kind t = Some DefaultCrypto" "durable_meta t = durable_meta (bk_cam b)" "sq_io (cam_metaFile t) = []" "sq_saved (cam_metaFile t) = None"
    "sq_error (cam_metaFile t) = NoError"
    using closed_backup [OF assms] by blast
  then have data: "sq_data (cam_metaFile t) = durable_meta (bk_cam b)" by (simp add: durable_meta_def durable_def)
  have "take_meta (Some (Metadata (durable_meta (bk_cam b)))) t = t"
    using t(2,5,9) data by (cases t) (auto simp: take_meta_def meta_in_def)
  then show ?thesis
    using t by (intro that [of t]) (simp_all add: closed_cam_def meta_on_file_def)
qed

text \<open>\<open>close_cam\<close> may report that the secrets could not be unmounted; without encryption they always can.\<close>

lemma close_succeeds:
  assumes "at_rest s" and "cm_kind s = Some DefaultCrypto"
  shows "fst (closeCredentialsSystem s)"
proof -
  have "cm_kind (snd (cam_isSecretsDBOpen s)) = Some DefaultCrypto" "cm_kind (db_closeSecrets (snd (cam_isSecretsDBOpen s))) = Some DefaultCrypto"
    using assms(2) meta_view_secrets(2) [of s] meta_view_secrets(3) [of "snd (cam_isSecretsDBOpen s)"] by (simp_all add: meta_view_def)
  then show ?thesis
    using assms(1) by (simp add: closeCredentialsSystem_def at_rest_def Let_def case_prod_beta cam_closeSecretsDB_def unmountFileSystem_def)
qed

lemma backup_saves:
  assumes "backup_ready b" and "current_meta (durable_meta (bk_cam b))"
  obtains c where "backupStarts b = (Some 0, c)" "backup_ready c" "durable_meta (bk_cam c) = durable_meta (bk_cam b)"
    "f_lookup (saved_path (bk_storagePath b) (bk_dbName b)) (bk_disk c) = Some (Metadata (durable_meta (bk_cam b)))"
proof -
  let ?st = "bk_storagePath b" and ?name = "bk_dbName b" and ?m = "Metadata (durable_meta (bk_cam b))"
  have b: "\<not> bk_backup b" "cam_systemOpened (bk_cam b)" "ready_disk ?st ?name (bk_disk b)" "plain_name ?name"
    using assms(1) by (auto simp: backup_ready_def at_rest_def ready_disk_def)
  obtain t where t: "snd (close_cam b) = b\<lparr>bk_cam := t\<rparr>" "closed_cam t" "meta_on_file t = Some ?m" "take_meta (Some ?m) t = t"
    using closed_backup_cam [OF assms(1)] by blast
  define d where "d = put_contents (cur_path ?st ?name) (Some ?m) (bk_disk b)"
  have d: "ready_disk ?st ?name d" "f_lookup (cur_path ?st ?name) d = Some ?m"
    using put_ready [OF b(3)] by (simp_all add: d_def put_lookup)
  obtain e where e: "copy_files ?st [?name] d = (Copied, e)" "f_lookup (saved_path ?st ?name) e = Some ?m"
    "f_lookup (cur_path ?st ?name) e = Some ?m" "ready_disk ?st ?name e"
    using copy_one [OF d(1)] d(2) by auto
  define b' where "b' = b\<lparr>bk_disk := e, bk_cam := take_meta (Some ?m) t\<rparr>"
  have files: "with_files (copy_files ?st [?name]) (b\<lparr>bk_cam := t\<rparr>) = (Copied, b')"
    using with_files_closed [of "b\<lparr>bk_cam := t\<rparr>" "copy_files ?st [?name]"] t(2,3) b(4) e by (simp add: d_def b'_def)
  obtain u where u: "open_cam b' = (True, b'\<lparr>bk_cam := u\<rparr>)" "at_rest u" "cm_kind u = Some DefaultCrypto" "durable_meta u = durable_meta (bk_cam b)"
    using reopened [OF t(2), of b' "Some ?m"] assms(2) by (auto simp: b'_def meta_in_def)
  have "backupStarts b = (Some 0, b'\<lparr>bk_cam := u\<rparr>)"
    using b(1,2) t(1,2) files u(1) by (simp add: backupStarts_def Let_def closed_cam_def backupFiles_def) (simp add: b'_def)
  then show ?thesis
    using u e b(1) by (intro that [of "b'\<lparr>bk_cam := u\<rparr>"]) (simp_all add: backup_ready_def b'_def)
qed

lemma erase_fields:
  "bk_backup (erase_backup b) = bk_backup b" "cam_systemOpened (bk_cam (erase_backup b)) = cam_systemOpened (bk_cam b)"
  "cm_kind (bk_cam (erase_backup b)) = cm_kind (bk_cam b)" "cam_fault (bk_cam (erase_backup b)) = cam_fault (bk_cam b)"
  by (simp_all add: erase_backup_def with_files_def Let_def cam_from_disk_def take_meta_def take_partition_def split: option.split contents.split)

lemma starts_fields:
  "bk_storagePath (snd (backupStarts b)) = bk_storagePath b" "bk_dbName (snd (backupStarts b)) = bk_dbName b"
  by (simp_all add: backupStarts_def Let_def case_prod_beta close_cam_def open_cam_def crash_backup_def with_files_def
      split: option.split backup_result.split)

lemma restore_gives:
  assumes "backup_ready b" and "f_lookup (saved_path (bk_storagePath b) (bk_dbName b)) (bk_disk b) = c"
    and "c = None \<or> (\<exists>m. c = Some (Metadata m) \<and> current_meta m)"
  obtains e where "restoreFinished b = (Some 0, e)" "at_rest (bk_cam e)" "durable_meta (bk_cam e) = (if c = None then new_meta else meta_in c)"
proof -
  let ?st = "bk_storagePath b" and ?name = "bk_dbName b"
  have b: "\<not> bk_backup b" "cam_systemOpened (bk_cam b)" "ready_disk ?st ?name (bk_disk b)" "plain_name ?name"
    using assms(1) by (auto simp: backup_ready_def at_rest_def ready_disk_def)
  have closed: "fst (close_cam b)"
    using assms(1) close_succeeds [of "bk_cam b"] by (simp add: backup_ready_def close_cam_def case_prod_beta)
  obtain t where t: "snd (close_cam b) = b\<lparr>bk_cam := t\<rparr>" "closed_cam t"
    using closed_backup_cam [OF assms(1)] by blast
  define d where "d = put_contents (cur_path ?st ?name) (meta_on_file t) (bk_disk b)"
  have "saved_path ?st ?name \<noteq> cur_path ?st ?name" by simp
  then have d: "ready_disk ?st ?name d" "f_lookup (saved_path ?st ?name) d = c"
    using put_ready [OF b(3)] assms(2) by (simp_all add: d_def put_lookup)
  obtain e where e: "copyFromBackupDir ?st [?name] d = (True, e)" "f_lookup (cur_path ?st ?name) e = c" "ready_disk ?st ?name e"
    using restore_one [OF d(1)] d(2) by auto
  define b1 where "b1 = b\<lparr>bk_disk := e, bk_cam := take_meta c t\<rparr>"
  have 1: "with_files (copyFromBackupDir ?st [?name]) (b\<lparr>bk_cam := t\<rparr>) = (True, b1)"
    using with_files_closed [of "b\<lparr>bk_cam := t\<rparr>" "copyFromBackupDir ?st [?name]"] t(2) b(4) e by (simp add: d_def b1_def)
  define g where "g = put_contents (cur_path ?st ?name) c e"
  have g: "ready_disk ?st ?name g" "f_lookup (cur_path ?st ?name) g = c"
    using put_ready [OF e(3)] by (simp_all add: g_def put_lookup)
  have "meta_on_file (bk_cam b1) = c"
    using take_closed(4) [OF t(2), of c] assms(3) by (auto simp: b1_def meta_in_def)
  then have 2: "erase_backup b1 = b1\<lparr>bk_disk := eraseBackupDir ?st g\<rparr>"
    using with_files_closed [of b1 "\<lambda>d. ((), eraseBackupDir ?st d)"] take_closed(1,2) [OF t(2)] b(4) erase_one [OF g(1)] g(2)
    by (simp add: erase_backup_def b1_def g_def)
  have "bk_cam (erase_backup b1) = take_meta c t" "c = None \<or> current_meta (meta_in c)"
    using assms(3) by (simp_all add: 2) (auto simp: b1_def meta_in_def)
  from reopened [OF t(2) this]
  obtain u where u: "open_cam (erase_backup b1) = (True, (erase_backup b1)\<lparr>bk_cam := u\<rparr>)" "at_rest u"
      "durable_meta u = (if c = None then new_meta else meta_in c)"
    by blast
  have "restoreFinished b = (Some 0, (erase_backup b1)\<lparr>bk_cam := u\<rparr>)"
    using b(1,2) t 1 u(1) closed
    by (cases "close_cam b") (simp add: restoreFinished_def closed_cam_def backupFiles_def Let_def erase_fields b1_def)
  then show ?thesis using u by (intro that [of "(erase_backup b1)\<lparr>bk_cam := u\<rparr>"]) simp_all
qed

section \<open>A daemon in backup mode\<close>

datatype backup_request = BackupStarts | BackupFinished | RestoreStarts | RestoreFinished

fun backup_call :: "backup_request \<Rightarrow> 'd backup \<Rightarrow> nat option \<times> 'd backup" where
  "backup_call BackupStarts b = backupStarts b"
| "backup_call BackupFinished b = backupFinished b"
| "backup_call RestoreStarts b = restoreStarts b"
| "backup_call RestoreFinished b = restoreFinished b"

text \<open>\<open>SignonDaemon::init\<close> with \<open>-backup\<close>: the \<open>CredentialsAccessManager\<close> has been constructed, no more.\<close>

definition backup_mode :: "'d backup \<Rightarrow> bool" where
  "backup_mode b \<longleftrightarrow> bk_backup b \<and> \<not> cam_systemOpened (bk_cam b) \<and> cm_kind (bk_cam b) = None"

lemma backup_mode_call:
  assumes "backup_mode b"
  shows "backup_mode (snd (backup_call call b))"
    and "fst (backup_call call b) = (if call \<in> {BackupStarts, RestoreFinished} then None else Some 0)"
    and "cam_fault (bk_cam (snd (backup_call call b))) \<longleftrightarrow> cam_fault (bk_cam b) \<or> call \<in> {BackupStarts, RestoreFinished}"
  using assms erase_fields [of b]
  by (cases call; simp add: backup_mode_def backupStarts_def restoreFinished_def backupFinished_def restoreStarts_def backupFiles_def crash_backup_def
      cam_crash_def Let_def)+

section \<open>The calls of a daemon that encrypts the secrets\<close>

lemma copy_to_append:
  "copy_to_loop st (xs @ ys) d = (let (ok, d) = copy_to_loop st xs d in if ok then copy_to_loop st ys d else (False, d))"
  by (induction xs arbitrary: d) (simp_all add: Let_def case_prod_beta)

text \<open>\<open>copy_files\<close> for a database and a partition that is named by its full path: the partition is looked for
  in the backup directory and found where it is; the copy of it is looked for where there is nothing.\<close>

lemma absolute_join: "isAbsolutePath st \<Longrightarrow> isAbsolutePath (join_path st f)"
  by (cases st) (simp_all add: isAbsolutePath_def join_path_def)

lemma full_path_copied:
  assumes "ready_disk st name d" and "f_lookup (cur_path st name) d \<noteq> None" and "isAbsolutePath st" and "path_of st \<noteq> []"
    and "plain_name part" and "part \<noteq> name" and "\<not> dir_exists (cur_path st part) d"
    and "\<not> dir_exists (path_of st @ path_of st) d" "\<not> path_exists (path_of st @ cur_path st part) d" and "f_lookup (saved_path st part) d = None"
  shows "f_lookup (cur_path st part) d = None \<Longrightarrow> copy_files st [name, join_path st part] d = (TreeFailed, d)"
    and "f_lookup (cur_path st part) d \<noteq> None \<Longrightarrow> \<exists>e. copy_files st [name, join_path st part] d = (Copied, e)
      \<and> f_lookup (cur_path st part) e = None \<and> f_lookup (saved_path st part) e = None"
proof -
  let ?full = "join_path st part"
  have plain: "plain_name name" using assms(1) by (simp add: ready_disk_def)
  have paths: "path_of (filePath x ?full) = cur_path st part" "path_of (join_path st ?full) = path_of st @ cur_path st part"
    "path_of (join_path (backupRoot st) ?full) = path_of (backupRoot st) @ cur_path st part" for x
    using assms(3,5) by (simp_all add: absolute_filePath absolute_join cur_path_def path_of_plain)
  have beside: "butlast (path_of st @ cur_path st part) = path_of st @ path_of st" by (simp add: cur_path_def butlast_append)
  have tree: "createStorageFileTree st [name, ?full] d =
      (if path_exists (cur_path st part) d then (True, d) else (False, d))"
    using assms(1,2,8,9)
    by (simp add: createStorageFileTree_def ready_disk_def plain_paths [OF plain] paths path_exists_def f_create_def beside del: path_of_join)
  show "copy_files st [name, ?full] d = (TreeFailed, d)" if "f_lookup (cur_path st part) d = None"
    using tree that assms(7) by (simp add: copy_files_def path_exists_def)
  assume there: "f_lookup (cur_path st part) d \<noteq> None"
  let ?root = "path_of (backupRoot st)"
  have root: "?root = path_of st @ [''backup'']" by (simp add: backupRoot_def path_of_backup)
  obtain g where g: "\<And>names. copyToBackupDir st names (eraseBackupDir st d) = copy_to_loop st names g" "ready_disk st name g"
    "dir_exists ?root g" "f_lookup (saved_path st name) g = None"
    "\<And>p. butlast p \<noteq> ?root \<Longrightarrow> f_lookup p g = f_lookup p d" "\<And>p. f_lookup p d = None \<Longrightarrow> f_lookup p g = None"
    "\<And>q. dir_exists q g \<Longrightarrow> dir_exists q d \<or> (\<exists>n. q = take n ?root)"
    by (rule target_prepared [OF assms(1)], rule that, assumption+)
  obtain h where h: "copy_to_loop st [name] g = (True, h)" "same_dirs g h" "ready_disk st name h"
    "\<And>p. f_lookup p h = (if p = saved_path st name then f_lookup (cur_path st name) g else f_lookup p g)"
    by (rule loop_copies_one [OF g(2-4)], rule that, assumption+)
  define e where "e = snd (f_remove (cur_path st part) h)"
  have rm: "\<not> dk_fails h Remove p" for p using h(3) by (simp add: ready_disk_def)
  have e: "f_lookup p e = (if p = cur_path st part then None else f_lookup p h)" "same_dirs h e" for p
    using rm by (simp_all add: e_def remove_lookup)
  have "butlast (cur_path st part) \<noteq> ?root" by (simp add: root cur_path_def)
  then have "f_lookup (cur_path st part) h = f_lookup (cur_path st part) d" using h(4) g(5) by simp
  then have exists: "path_exists (cur_path st part) h" using there by (simp add: path_exists_def)
  have long: "length (path_of st @ cur_path st part) > length ?root"
    using assms(4) by (cases "path_of st") (simp_all add: root cur_path_def)
  have absent: "\<not> path_exists (path_of st @ cur_path st part) e"
  proof -
    have "path_of st @ cur_path st part \<noteq> take n ?root" for n
    proof
      assume "path_of st @ cur_path st part = take n ?root"
      then have "length (path_of st @ cur_path st part) = length (take n ?root)" by simp
      with long show False by simp
    qed
    then have "\<not> dir_exists (path_of st @ cur_path st part) g"
      using g(7) [of "path_of st @ cur_path st part"] assms(9) by (auto simp: path_exists_def)
    moreover have "f_lookup (path_of st @ cur_path st part) g = None" using g(6) assms(9) by (simp add: path_exists_def)
    moreover have "path_of st @ cur_path st part \<noteq> saved_path st name"
      using assms(4,6) by (auto simp: cur_path_def saved_path_def append_eq_append_conv2 Cons_eq_append_conv)
    ultimately show ?thesis using same_dirs_exists(1) [OF h(2)] same_dirs_exists(1) [OF e(2)] e(1) h(4) by (simp add: path_exists_def)
  qed
  have "copy_to_loop st [?full] h = (True, e)"
    using exists by (simp add: Let_def e_def [symmetric] paths del: path_of_join) (use absent in blast)
  then have "copy_to_loop st [name, ?full] g = (True, e)"
    using copy_to_append [of st "[name]" "[?full]" g] h(1) by (simp del: copy_to_loop.simps)
  then have "copy_files st [name, ?full] d = (Copied, e)"
    using tree there by (simp add: copy_files_def path_exists_def g(1) del: copy_to_loop.simps)
  moreover have "f_lookup (saved_path st part) e = None"
    using e(1) h(4) g(6) assms(6,10) by simp
  ultimately show "\<exists>e. copy_files st [name, ?full] d = (Copied, e) \<and> f_lookup (cur_path st part) e = None \<and> f_lookup (saved_path st part) e = None"
    using e(1) by auto
qed

section \<open>A sample\<close>

definition sample_backup :: "crypto_kind option \<Rightarrow> bool \<Rightarrow> slots backup" where
  "sample_backup kind backup =
     \<lparr>bk_cam = (sample_machine False [] [])\<lparr>cm_kind := kind, cam_systemOpened := \<not> backup\<rparr>, bk_backup = backup,
      bk_storagePath = ''/s'', bk_dbName = ''signon.db'', bk_blank = [],
      bk_disk = \<lparr>dk_files = [], dk_dirs = [[''s'']], dk_fails = (\<lambda>_ _. False)\<rparr>, bk_quit = False\<rparr>"

lemma sample_backup_fields [simp]:
  "bk_storagePath (sample_backup k m) = ''/s''" "bk_dbName (sample_backup k m) = ''signon.db''" "bk_backup (sample_backup k m) = m"
  "cm_kind (bk_cam (sample_backup k m)) = k" "cm_fileSystemPath (bk_cam (sample_backup k m)) = ''/s/signonfs''"
  "f_lookup p (bk_disk (sample_backup k m)) = None" "dir_exists p (bk_disk (sample_backup k m)) \<longleftrightarrow> p = [''s'']"
  "mc_partition (bk_cam (sample_backup k m)) = Some 8388608" "cam_systemOpened (bk_cam (sample_backup k m)) = (\<not> m)"
  "\<not> cam_fault (bk_cam (sample_backup k m))"
  by (simp_all add: sample_backup_def sample_machine_def f_lookup_def dir_exists_def)

lemma sample_disk_ready: "ready_disk ''/s'' ''signon.db'' (bk_disk (sample_backup k m))"
  by (simp add: ready_disk_def path_of_s plain_name_def path_exists_def cur_path_def bak_path_def saved_path_def)
     (simp add: sample_backup_def)

lemma sample_at_rest: "at_rest (bk_cam (sample_backup k False))" "current_meta (durable_meta (bk_cam (sample_backup k False)))"
  by (simp_all add: at_rest_def sample_backup_def sample_machine_def sample_cd_def sample_db_def durable_meta_def durable_def current_meta_def
      meta_hasTables_def schema_defs)

lemma sample_backup_ready: "backup_ready (sample_backup (Some DefaultCrypto) False)"
  using sample_disk_ready sample_at_rest by (simp add: backup_ready_def)

section \<open>Properties\<close>

text \<open>C37: A backup can be restored. In a running daemon without encryption, whose storage directory is in order
  and whose calls of the file system work, \<open>backupStarts\<close> replies 0 and leaves the daemon running with the
  metadata it had; and whenever \<open>restoreFinished\<close> is called later, whatever has been done with the daemon in
  between, with that file in the backup directory again, it replies 0 and the metadata are what they were at
  the backup. The secrets are not part of it.\<close>

theorem backup_round_trip:
  assumes "backup_ready b" and "current_meta (durable_meta (bk_cam b))" and "backupStarts b = (r, c)"
    and "backup_ready d" and "bk_storagePath d = bk_storagePath b" and "bk_dbName d = bk_dbName b"
    and "f_lookup (saved_path (bk_storagePath b) (bk_dbName b)) (bk_disk d) = f_lookup (saved_path (bk_storagePath b) (bk_dbName b)) (bk_disk c)"
    and "restoreFinished d = (q, e)"
  shows "r = Some 0 \<and> backup_ready c \<and> durable_meta (bk_cam c) = durable_meta (bk_cam b)
    \<and> q = Some 0 \<and> at_rest (bk_cam e) \<and> durable_meta (bk_cam e) = durable_meta (bk_cam b)"
proof -
  obtain c' where c: "backupStarts b = (Some 0, c')" "backup_ready c'" "durable_meta (bk_cam c') = durable_meta (bk_cam b)"
    "f_lookup (saved_path (bk_storagePath b) (bk_dbName b)) (bk_disk c') = Some (Metadata (durable_meta (bk_cam b)))"
    using backup_saves [OF assms(1,2)] by blast
  have "f_lookup (saved_path (bk_storagePath d) (bk_dbName d)) (bk_disk d) = Some (Metadata (durable_meta (bk_cam b)))"
    using assms(3,5-7) c(1,4) by simp
  from restore_gives [OF assms(4) this] assms(2)
  obtain e' where "restoreFinished d = (Some 0, e')" "at_rest (bk_cam e')" "durable_meta (bk_cam e') = durable_meta (bk_cam b)"
    by (auto simp: meta_in_def)
  then show ?thesis using c assms(3,8) by simp
qed

theorem backup_round_trip_witness:
  "fst (backupStarts (sample_backup (Some DefaultCrypto) False)) = Some 0
    \<and> fst (restoreFinished (snd (backupStarts (sample_backup (Some DefaultCrypto) False)))) = Some 0"
proof -
  let ?b = "sample_backup (Some DefaultCrypto) False"
  obtain c where c: "backupStarts ?b = (Some 0, c)" "backup_ready c"
    using backup_saves [OF sample_backup_ready sample_at_rest(2)] by blast
  have "bk_storagePath c = bk_storagePath ?b \<and> bk_dbName c = bk_dbName ?b"
    using starts_fields [of ?b] c(1) by simp
  then show ?thesis
    using backup_round_trip [OF sample_backup_ready sample_at_rest(2) c(1,2) _ _ refl, of "fst (restoreFinished c)" "snd (restoreFinished c)"] c(1)
    by simp
qed

text \<open>\<open>restoreFinished\<close> does not ask whether there is anything to restore. In a running daemon without
  encryption, and with no backup of the database in the backup directory, or with no backup directory at all,
  it replies 0, which is success, and every identity is gone: the database is a new one.\<close>

theorem restoring_nothing_wipes:
  assumes "backup_ready b" and "f_lookup (saved_path (bk_storagePath b) (bk_dbName b)) (bk_disk b) = None"
  shows "fst (restoreFinished b) = Some 0 \<and> durable_meta (bk_cam (snd (restoreFinished b))) = new_meta
    \<and> md_credentials new_meta = []"
proof -
  obtain e where "restoreFinished b = (Some 0, e)" "durable_meta (bk_cam e) = new_meta"
    using restore_gives [OF assms] by auto
  then show ?thesis by (simp add: new_meta_def empty_meta_def)
qed

theorem restoring_nothing_wipes_witness: "fst (restoreFinished (sample_backup (Some DefaultCrypto) False)) = Some 0"
  using restoring_nothing_wipes [OF sample_backup_ready] by simp

text \<open>A daemon started with \<open>-backup\<close> can neither back up nor restore: whatever calls it gets, at the first
  \<open>backupStarts\<close> or \<open>restoreFinished\<close> it crashes, since \<open>backupFiles\<close> asks a crypto manager that only \<open>init\<close>
  creates; before that it does not.\<close>

theorem backup_mode_crashes:
  assumes "backup_mode b" and "\<not> cam_fault (bk_cam b)"
  shows "cam_fault (bk_cam (fold (\<lambda>call b. snd (backup_call call b)) calls b)) \<longleftrightarrow> BackupStarts \<in> set calls \<or> RestoreFinished \<in> set calls"
proof -
  have "cam_fault (bk_cam (fold (\<lambda>call b. snd (backup_call call b)) calls b))
      \<longleftrightarrow> cam_fault (bk_cam b) \<or> BackupStarts \<in> set calls \<or> RestoreFinished \<in> set calls"
    using assms(1)
  proof (induction calls arbitrary: b)
    case (Cons call calls)
    show ?case
      using Cons.IH [OF backup_mode_call(1) [OF Cons.prems, of call]] backup_mode_call(3) [OF Cons.prems, of call] by auto
  qed simp
  then show ?thesis using assms(2) by simp
qed

theorem backup_mode_crashes_witness:
  "cam_fault (bk_cam (snd (backup_call BackupStarts (sample_backup None True))))"
  using backup_mode_crashes [of "sample_backup None True" "[BackupStarts]"] by (simp add: backup_mode_def)

text \<open>The disk under a closed credentials system with cryptsetup: the partition lies beside the database, and
  nothing lies where its full path points when it is taken as one below the storage directory.\<close>

lemma encrypted_on_disk:
  assumes "cm_kind (bk_cam b) = Some Cryptsetup" and "cam_metaExists (bk_cam b)"
    and "cm_fileSystemPath (bk_cam b) = join_path (bk_storagePath b) ''signonfs''" and "path_of (bk_storagePath b) \<noteq> []"
    and "bk_dbName b = ''signon.db''" and "ready_disk (bk_storagePath b) ''signon.db'' (bk_disk b)"
    and "\<not> path_exists (path_of (bk_storagePath b) @ cur_path (bk_storagePath b) ''signonfs'') (bk_disk b)"
    and "f_lookup (saved_path (bk_storagePath b) ''signonfs'') (bk_disk b) = None"
  shows "path_of (cm_fileSystemPath (bk_cam b)) = cur_path (bk_storagePath b) ''signonfs''"
    and "ready_disk (bk_storagePath b) ''signon.db'' (cam_to_disk b)"
    and "f_lookup (cur_path (bk_storagePath b) ''signon.db'') (cam_to_disk b) \<noteq> None"
    and "f_lookup (cur_path (bk_storagePath b) ''signonfs'') (cam_to_disk b) = partition_on_file (bk_cam b)"
    and "\<not> path_exists (path_of (bk_storagePath b) @ cur_path (bk_storagePath b) ''signonfs'') (cam_to_disk b)"
    and "f_lookup (saved_path (bk_storagePath b) ''signonfs'') (cam_to_disk b) = None"
    and "same_dirs (bk_disk b) (cam_to_disk b)"
proof -
  let ?st = "bk_storagePath b"
  have names: "plain_name ''signonfs''" "plain_name ''signon.db''" by (simp_all add: plain_name_def)
  have "cur_path ?st ''signonfs'' = path_of (join_path ?st ''signonfs'')" by (simp add: plain_paths [OF names(1)] del: path_of_join)
  then show part: "path_of (cm_fileSystemPath (bk_cam b)) = cur_path ?st ''signonfs''" using assms(3) by simp
  have d: "cam_to_disk b = put_contents (cur_path ?st ''signon.db'') (meta_on_file (bk_cam b))
      (put_contents (cur_path ?st ''signonfs'') (partition_on_file (bk_cam b)) (bk_disk b))"
    using assms(1,5) part metadata_path [of b] names(2) by (simp add: cam_to_disk_def)
  define mid where "mid = put_contents (cur_path ?st ''signonfs'') (partition_on_file (bk_cam b)) (bk_disk b)"
  have same: "same_dirs (bk_disk b) mid" "same_dirs (bk_disk b) (cam_to_disk b)"
    by (simp_all add: d mid_def same_dirs_def put_contents_def)
  have "ready_disk ?st ''signon.db'' mid"
    using ready_same [OF same(1), of ?st "''signon.db''"] assms(6) by (simp add: mid_def put_lookup)
  then show "ready_disk ?st ''signon.db'' (cam_to_disk b)" unfolding d mid_def [symmetric] by (rule put_ready)
  have "length (path_of ?st @ cur_path ?st ''signonfs'') \<noteq> length (cur_path ?st f)" for f
    using assms(4) by (simp add: cur_path_def)
  then have "path_of ?st @ cur_path ?st ''signonfs'' \<noteq> cur_path ?st f" for f by metis
  then show "\<not> path_exists (path_of ?st @ cur_path ?st ''signonfs'') (cam_to_disk b)" "f_lookup (saved_path ?st ''signonfs'') (cam_to_disk b) = None"
    using assms(4,7,8) same_dirs_exists(1) [OF same(2)] by (simp_all add: path_exists_def d put_lookup)
  show "f_lookup (cur_path ?st ''signon.db'') (cam_to_disk b) \<noteq> None" using assms(2) by (simp add: d put_lookup meta_on_file_def)
  show "f_lookup (cur_path ?st ''signonfs'') (cam_to_disk b) = partition_on_file (bk_cam b)" by (simp add: d put_lookup)
  show "same_dirs (bk_disk b) (cam_to_disk b)" by (rule same(2))
qed

text \<open>C38: With cryptsetup, \<open>backupStarts\<close> never makes a backup of the secrets. If the encrypted partition is
  there it replies 0 and the partition has been removed, without a copy of it; if the partition has not been
  made yet it replies 2 and the credentials system stays closed. The crypto manager names its file by the full
  path, the removal takes the path as it is and the copying takes it as one below the storage directory.\<close>

theorem backup_removes_the_secrets:
  assumes "at_rest (bk_cam b)" and "\<not> bk_backup b" and "cm_kind (bk_cam b) = Some Cryptsetup"
    and "cm_fileSystemPath (bk_cam b) = join_path (bk_storagePath b) ''signonfs''"
    and "isAbsolutePath (bk_storagePath b)" and "path_of (bk_storagePath b) \<noteq> []" and "bk_dbName b = ''signon.db''"
    and "ready_disk (bk_storagePath b) ''signon.db'' (bk_disk b)"
    and "\<not> dir_exists (cur_path (bk_storagePath b) ''signonfs'') (bk_disk b)"
    and "\<not> dir_exists (path_of (bk_storagePath b) @ path_of (bk_storagePath b)) (bk_disk b)"
    and "\<not> path_exists (path_of (bk_storagePath b) @ cur_path (bk_storagePath b) ''signonfs'') (bk_disk b)"
    and "f_lookup (saved_path (bk_storagePath b) ''signonfs'') (bk_disk b) = None"
    and "backupStarts b = (r, c)"
  shows "if mc_partition (bk_cam b) = None then r = Some 2 \<and> \<not> cam_systemOpened (bk_cam c)
    else r = Some 0 \<and> f_lookup (path_of (cm_fileSystemPath (bk_cam b))) (bk_disk c) = None
      \<and> f_lookup (saved_path (bk_storagePath b) ''signonfs'') (bk_disk c) = None"
proof -
  let ?st = "bk_storagePath b"
  have names: "plain_name ''signonfs''" by (simp add: plain_name_def)
  obtain t where t: "snd (closeCredentialsSystem (bk_cam b)) = t" "\<not> cam_systemOpened t" "cam_metaExists t"
    "cm_kind t = Some Cryptsetup" "mc_partition t = mc_partition (bk_cam b)" "cm_fileSystemPath t = join_path ?st ''signonfs''"
    using close_at_rest [OF assms(1)] assms(3,4) by metis
  define b1 where "b1 = b\<lparr>bk_cam := t\<rparr>"
  have closed: "snd (close_cam b) = b1" using t(1) by (simp add: close_cam_def b1_def case_prod_beta)
  define d where "d = cam_to_disk b1"
  have part: "path_of (cm_fileSystemPath t) = cur_path ?st ''signonfs''" and ready: "ready_disk ?st ''signon.db'' d"
    and there: "f_lookup (cur_path ?st ''signon.db'') d \<noteq> None" and look: "f_lookup (cur_path ?st ''signonfs'') d = partition_on_file t"
    and rest: "\<not> path_exists (path_of ?st @ cur_path ?st ''signonfs'') d" "f_lookup (saved_path ?st ''signonfs'') d = None"
    and same: "same_dirs (bk_disk b) d"
    using encrypted_on_disk [of b1] t(3,4,6) assms(6-8,11,12) by (simp_all add: b1_def d_def)
  note copied = full_path_copied [OF ready there assms(5,6) names _ _ _ rest]
  have starts: "backupStarts b = (let (r, b) = with_files (copy_files ?st [''signon.db'', join_path ?st ''signonfs'']) b1 in
            case r of
              TreeFailed \<Rightarrow> (Some 2, b)
            | CopyFailed \<Rightarrow> (Some 2, if \<not> bk_backup b then snd (open_cam b) else b)
            | Copied \<Rightarrow> (Some 0, if \<not> bk_backup b then snd (open_cam b) else b))"
    using assms(1,2,7) t(2,4,6) closed by (simp add: backupStarts_def at_rest_def backupFiles_def b1_def)
  have open_disk: "bk_disk (snd (open_cam x)) = bk_disk x" for x :: "'a backup" by (simp add: open_cam_def case_prod_beta)
  have opened: "cam_systemOpened (cam_from_disk x b1) = cam_systemOpened t" for x
    by (simp add: cam_from_disk_def take_meta_def take_partition_def b1_def split: option.split contents.split)
  show ?thesis
  proof (cases "mc_partition (bk_cam b)")
    case None
    then have "copy_files ?st [''signon.db'', join_path ?st ''signonfs''] d = (TreeFailed, d)"
      using copied(1) look t(5) assms(9,10) same_dirs_exists(1) [OF same] by (simp add: partition_on_file_def)
    then show ?thesis
      using starts assms(13) None opened t(2) by (auto simp: with_files_def d_def [symmetric])
  next
    case (Some n)
    then obtain e where "copy_files ?st [''signon.db'', join_path ?st ''signonfs''] d = (Copied, e)"
      "f_lookup (cur_path ?st ''signonfs'') e = None" "f_lookup (saved_path ?st ''signonfs'') e = None"
      using copied(2) look t(5) assms(9,10) same_dirs_exists(1) [OF same] by (auto simp: partition_on_file_def)
    then show ?thesis
      using starts assms(2,13) Some open_disk part t(6) assms(4) by (auto simp: with_files_def d_def [symmetric] split: if_splits)
  qed
qed

theorem backup_removes_the_secrets_witness:
  "fst (backupStarts (sample_backup (Some Cryptsetup) False)) = Some 0
    \<and> f_lookup [''s'', ''signonfs''] (bk_disk (snd (backupStarts (sample_backup (Some Cryptsetup) False)))) = None"
  using backup_removes_the_secrets [OF sample_at_rest(1) _ _ _ _ _ _ _ _ _ _ _ prod.collapse [symmetric], of "Some Cryptsetup"]
    sample_disk_ready [of "Some Cryptsetup" False] path_of_join [of "''/s''" "''signonfs''"]
  by (simp add: isAbsolutePath_def path_of_s cur_path_def path_exists_def join_path_def path_of_def)

end
