(* ===== verification/Daemon_Config.thy ===== *)
theory Daemon_Config
  imports Backup
begin

text \<open>
  What the daemon is told at its start: \<open>CAMConfiguration\<close>
  (src/signond/credentialsaccessmanager.cpp and .h) and \<open>SignonDaemonConfiguration\<close>
  (src/signond/signondaemon.cpp), which reads the configuration file and the environment. The file is a map
  from \<open>group/key\<close> to the value \<open>QSettings\<close> gives, keys of the group \<open>General\<close> having no group.
\<close>

section \<open>CAMConfiguration\<close>

record cam_configuration =
  cc_storagePath :: string
  cc_dbName :: string
  cc_secretsDbName :: string
  cc_encryptionPassphrase :: bytes
  cc_settings :: qvariant_map

definition addSetting :: "string \<Rightarrow> qvariant \<Rightarrow> cam_configuration \<Rightarrow> cam_configuration" where
  "addSetting key val c = c\<lparr>cc_settings := qm_insert key val (cc_settings c)\<rparr>"

definition home_expanded :: "string \<Rightarrow> string \<Rightarrow> string" where
  "home_expanded home path = (case path of CHR ''~'' # rest \<Rightarrow> home @ rest | _ \<Rightarrow> path)"

definition cc_setStoragePath :: "string \<Rightarrow> string \<Rightarrow> cam_configuration \<Rightarrow> cam_configuration" where
  "cc_setStoragePath home storagePath c =
     (let path = home_expanded home storagePath
      in addSetting ''StoragePath'' (VString (QStr path)) (c\<lparr>cc_storagePath := path\<rparr>))"

abbreviation "signonDefaultDbName \<equiv> ''signon.db''"
abbreviation "signonDefaultSecretsDbName \<equiv> ''signon-secrets.db''"
abbreviation "signonDefaultStoragePath \<equiv> ''~/.config/signond''"

definition new_cam_configuration :: "string \<Rightarrow> cam_configuration" where
  "new_cam_configuration home =
     cc_setStoragePath home signonDefaultStoragePath
       \<lparr>cc_storagePath = [], cc_dbName = signonDefaultDbName, cc_secretsDbName = signonDefaultSecretsDbName,
        cc_encryptionPassphrase = [], cc_settings = []\<rparr>"

definition cc_metadataDBPath :: "cam_configuration \<Rightarrow> string" where
  "cc_metadataDBPath c = join_path (cc_storagePath c) (cc_dbName c)"

definition accessControlManagerName :: "cam_configuration \<Rightarrow> string" where
  "accessControlManagerName c = chars (v_toString (qm_value (cc_settings c) ''AccessControlManager'' VInvalid))"

definition secretsStorageName :: "cam_configuration \<Rightarrow> string" where
  "secretsStorageName c = chars (v_toString (qm_value (cc_settings c) ''SecretsStorage'' VInvalid))"

text \<open>\<open>serialize\<close>, to a device that is there or not and can be opened or not.\<close>

definition cc_serialize :: "bool option \<Rightarrow> cam_configuration \<Rightarrow> string" where
  "cc_serialize device c =
     (case device of
        Some True \<Rightarrow>
          [CHR 0x0A, CHR 0x0A] @ ''====== Credentials Access Manager Configuration ======'' @ [CHR 0x0A, CHR 0x0A]
          @ ''Using encryption: '' @ (if useEncryption (cc_settings c) then ''true'' else ''false'') @ [CHR 0x0A]
          @ ''Metadata DB path: '' @ cc_metadataDBPath c @ [CHR 0x0A]
          @ ''Cryptomanager name: '' @ chars (cryptoManagerName (cc_settings c)) @ [CHR 0x0A]
          @ ''ACL manager name: '' @ accessControlManagerName c @ [CHR 0x0A]
          @ ''Secrets storage name: '' @ secretsStorageName c @ [CHR 0x0A]
          @ ''======================================================'' @ [CHR 0x0A, CHR 0x0A]
      | _ \<Rightarrow> [])"

section \<open>SignonDaemonConfiguration\<close>

record daemon_configuration =
  dc_pluginsDir :: string
  dc_extensionsDir :: string
  dc_busAddress :: qstring
  dc_cam :: cam_configuration
  dc_daemonTimeout :: "32 word"
  dc_identityTimeout :: "32 word"
  dc_authSessionTimeout :: "32 word"
  dc_loggingLevel :: int

text \<open>What is around the daemon: the environment, the file, the home and the runtime directory, whether the
  directory of the socket is there or can be made, and the directories set when it was built.\<close>

record start_environment =
  se_environment :: "(string, string) qmap"
  se_settings :: qvariant_map
  se_homePath :: string
  se_runtimeDir :: string
  se_socketDirExists :: bool
  se_socketDirMade :: bool
  se_pluginsDir :: string
  se_extensionsDir :: string

definition new_configuration :: "start_environment \<Rightarrow> daemon_configuration" where
  "new_configuration se =
     \<lparr>dc_pluginsDir = se_pluginsDir se, dc_extensionsDir = se_extensionsDir se, dc_busAddress = QNull,
      dc_cam = new_cam_configuration (se_homePath se), dc_daemonTimeout = 0, dc_identityTimeout = 300,
      dc_authSessionTimeout = 300, dc_loggingLevel = 1\<rparr>"

text \<open>\<open>toUInt\<close> and \<open>toInt\<close> with their success; \<open>None\<close> is a failure.\<close>

definition uint_of_string :: "string \<Rightarrow> 32 word option" where
  "uint_of_string s = (case str_int s of None \<Rightarrow> None | Some i \<Rightarrow> if int (to_uint i) = i then Some (word_of_int i) else None)"

definition int_of_string :: "string \<Rightarrow> int option" where
  "int_of_string s = (case str_int s of None \<Rightarrow> None | Some i \<Rightarrow> if to_int i = i then Some i else None)"

fun toUInt_ok :: "qvariant \<Rightarrow> 32 word option" where
  "toUInt_ok (VUInt n) = Some (word_of_nat n)"
| "toUInt_ok (VInt i) = Some (word_of_int i)"
| "toUInt_ok (VBool b) = Some (if b then 1 else 0)"
| "toUInt_ok (VString s) = uint_of_string (chars s)"
| "toUInt_ok _ = None"

text \<open>\<open>QDir(p).path()\<close>: without a slash at the end.\<close>

definition dir_path :: "string \<Rightarrow> string" where
  "dir_path p = (if length p > 1 \<and> last p = CHR ''/'' then butlast p else p)"

definition in_group :: "string \<Rightarrow> string \<Rightarrow> string" where
  "in_group grp key = join_path grp key"

definition childKeys :: "string \<Rightarrow> qvariant_map \<Rightarrow> string list" where
  "childKeys grp settings =
     map (drop (length grp + 1))
       (filter (\<lambda>k. take (length grp + 1) k = grp @ ''/'' \<and> CHR ''/'' \<notin> set (drop (length grp + 1) k)) (qm_keys settings))"

definition setting :: "start_environment \<Rightarrow> string \<Rightarrow> qvariant" where
  "setting se key = qm_value (se_settings se) key VInvalid"

section \<open>load\<close>

definition load_storagePath :: "start_environment \<Rightarrow> cam_configuration \<Rightarrow> cam_configuration" where
  "load_storagePath se c =
     (let cfgStoragePath = chars (v_toString (setting se ''StoragePath'')) in
      if cfgStoragePath \<noteq> [] then cc_setStoragePath (se_homePath se) (dir_path cfgStoragePath) c
      else
        let xdgConfigHome = qm_value (se_environment se) ''XDG_CONFIG_HOME'' [];
            xdgConfigHome = (if xdgConfigHome = [] then se_homePath se @ ''/.config'' else xdgConfigHome)
        in cc_setStoragePath (se_homePath se) (xdgConfigHome @ ''/signond'') c)"

definition load_secureStorage :: "start_environment \<Rightarrow> cam_configuration \<Rightarrow> cam_configuration" where
  "load_secureStorage se c =
     (let useSecureStorage = chars (v_toString (setting se ''UseSecureStorage''));
          c = (if useSecureStorage = ''yes'' \<or> useSecureStorage = ''true''
               then addSetting ''CryptoManager'' (VString (QStr ''cryptsetup'')) c else c)
      in fold (\<lambda>key. addSetting key (setting se (in_group ''SecureStorage'' key))) (childKeys ''SecureStorage'' (se_settings se)) c)"

text \<open>A timeout of the file, and one of the environment, which counts only above 0.\<close>

definition file_timeout :: "start_environment \<Rightarrow> string \<Rightarrow> 32 word \<Rightarrow> 32 word" where
  "file_timeout se key t = (case toUInt_ok (setting se (in_group ''ObjectTimeouts'' key)) of None \<Rightarrow> t | Some aux \<Rightarrow> aux)"

definition environment_timeout :: "start_environment \<Rightarrow> string \<Rightarrow> 32 word \<Rightarrow> 32 word" where
  "environment_timeout se name t =
     (case map_of (se_environment se) name of
        None \<Rightarrow> t
      | Some s \<Rightarrow> (case int_of_string s of None \<Rightarrow> t | Some val \<Rightarrow> if val > 0 then word_of_int val else t))"

definition load_timeouts :: "start_environment \<Rightarrow> daemon_configuration \<Rightarrow> daemon_configuration" where
  "load_timeouts se dc =
     (let dc = dc\<lparr>dc_identityTimeout := file_timeout se ''IdentityTimeout'' (dc_identityTimeout dc)\<rparr>;
          dc = dc\<lparr>dc_authSessionTimeout := file_timeout se ''AuthSessionTimeout'' (dc_authSessionTimeout dc)\<rparr>;
          dc = dc\<lparr>dc_daemonTimeout := file_timeout se ''DaemonTimeout'' (dc_daemonTimeout dc)\<rparr>;
          dc = dc\<lparr>dc_daemonTimeout := environment_timeout se ''SSO_DAEMON_TIMEOUT'' (dc_daemonTimeout dc)\<rparr>;
          dc = dc\<lparr>dc_identityTimeout := environment_timeout se ''SSO_IDENTITY_TIMEOUT'' (dc_identityTimeout dc)\<rparr>
      in dc\<lparr>dc_authSessionTimeout := environment_timeout se ''SSO_AUTHSESSION_TIMEOUT'' (dc_authSessionTimeout dc)\<rparr>)"

definition load_loggingLevel :: "start_environment \<Rightarrow> daemon_configuration \<Rightarrow> daemon_configuration" where
  "load_loggingLevel se dc =
     (case map_of (se_environment se) ''SSO_LOGGING_LEVEL'' of
        None \<Rightarrow> dc
      | Some s \<Rightarrow> (case int_of_string s of None \<Rightarrow> dc | Some val \<Rightarrow> dc\<lparr>dc_loggingLevel := val\<rparr>))"

definition load_paths :: "start_environment \<Rightarrow> daemon_configuration \<Rightarrow> daemon_configuration" where
  "load_paths se dc =
     (let env = map_of (se_environment se);
          dc = (case env ''SSO_STORAGE_PATH'' of None \<Rightarrow> dc | Some p \<Rightarrow> dc\<lparr>dc_cam := cc_setStoragePath (se_homePath se) p (dc_cam dc)\<rparr>);
          dc = (case env ''SSO_PLUGINS_DIR'' of None \<Rightarrow> dc | Some p \<Rightarrow> dc\<lparr>dc_pluginsDir := p\<rparr>)
      in (case env ''SSO_EXTENSIONS_DIR'' of None \<Rightarrow> dc | Some p \<Rightarrow> dc\<lparr>dc_extensionsDir := p\<rparr>))"

definition load_busAddress :: "start_environment \<Rightarrow> daemon_configuration \<Rightarrow> daemon_configuration" where
  "load_busAddress se dc =
     (if se_runtimeDir se \<noteq> [] \<and> (se_socketDirExists se \<or> se_socketDirMade se)
      then dc\<lparr>dc_busAddress := QStr (''unix:path='' @ join_path (se_runtimeDir se) ''signond/socket'')\<rparr>
      else dc)"

definition load_configuration :: "start_environment \<Rightarrow> daemon_configuration \<Rightarrow> daemon_configuration" where
  "load_configuration se dc =
     (let loggingLevel = v_toInt (qm_value (se_settings se) ''LoggingLevel'' (VInt 1));
          dc = dc\<lparr>dc_loggingLevel := loggingLevel\<rparr>;
          dc = dc\<lparr>dc_cam := load_secureStorage se (load_storagePath se (dc_cam dc))\<rparr>
      in load_busAddress se (load_paths se (load_loggingLevel se (load_timeouts se dc))))"

text \<open>The timeouts are handed on as signed integers.\<close>

definition identityTimeout :: "daemon_configuration option \<Rightarrow> int" where
  "identityTimeout configuration = (case configuration of None \<Rightarrow> 300 | Some dc \<Rightarrow> sint (dc_identityTimeout dc))"

definition authSessionTimeout :: "daemon_configuration option \<Rightarrow> int" where
  "authSessionTimeout configuration = (case configuration of None \<Rightarrow> 300 | Some dc \<Rightarrow> sint (dc_authSessionTimeout dc))"

section \<open>What counts\<close>

text \<open>For the timeouts the environment comes before the file and the file before the default.\<close>

definition positive_in_environment :: "start_environment \<Rightarrow> string \<Rightarrow> 32 word option" where
  "positive_in_environment se name =
     (case Option.bind (map_of (se_environment se) name) int_of_string of
        None \<Rightarrow> None | Some val \<Rightarrow> if val > 0 then Some (word_of_int val) else None)"

definition first_of :: "'a option \<Rightarrow> 'a option \<Rightarrow> 'a \<Rightarrow> 'a" where
  "first_of a b d = (case a of Some x \<Rightarrow> x | None \<Rightarrow> (case b of Some x \<Rightarrow> x | None \<Rightarrow> d))"

lemma timeout_sources:
  "environment_timeout se name (file_timeout se key d) =
     first_of (positive_in_environment se name) (toUInt_ok (setting se (in_group ''ObjectTimeouts'' key))) d"
  by (auto simp: environment_timeout_def file_timeout_def first_of_def positive_in_environment_def split: option.splits)

lemma load_frames:
  "dc_identityTimeout (load_busAddress se (load_paths se (load_loggingLevel se dc))) = dc_identityTimeout dc"
  "dc_authSessionTimeout (load_busAddress se (load_paths se (load_loggingLevel se dc))) = dc_authSessionTimeout dc"
  "dc_daemonTimeout (load_busAddress se (load_paths se (load_loggingLevel se dc))) = dc_daemonTimeout dc"
  by (simp_all add: load_busAddress_def load_paths_def load_loggingLevel_def Let_def split: option.split)

theorem configured_timeouts:
  "let dc = load_configuration se (new_configuration se); file = (\<lambda>key. toUInt_ok (setting se (in_group ''ObjectTimeouts'' key)))
   in dc_identityTimeout dc = first_of (positive_in_environment se ''SSO_IDENTITY_TIMEOUT'') (file ''IdentityTimeout'') 300
    \<and> dc_authSessionTimeout dc = first_of (positive_in_environment se ''SSO_AUTHSESSION_TIMEOUT'') (file ''AuthSessionTimeout'') 300
    \<and> dc_daemonTimeout dc = first_of (positive_in_environment se ''SSO_DAEMON_TIMEOUT'') (file ''DaemonTimeout'') 0"
  by (simp add: load_configuration_def load_frames load_timeouts_def timeout_sources new_configuration_def Let_def)

text \<open>The storage path: of the environment, of the file, or below the directory for configuration. The
  extensions are told the same one, unless the file has a path of its own for them.\<close>

definition chosen_path :: "start_environment \<Rightarrow> string" where
  "chosen_path se =
     (case map_of (se_environment se) ''SSO_STORAGE_PATH'' of
        Some p \<Rightarrow> p
      | None \<Rightarrow>
          let p = chars (v_toString (setting se ''StoragePath'')); x = qm_value (se_environment se) ''XDG_CONFIG_HOME'' [] in
          if p \<noteq> [] then dir_path p else (if x = [] then se_homePath se @ ''/.config'' else x) @ ''/signond'')"

lemma settings_added:
  "cc_storagePath (fold (\<lambda>key. addSetting key (f key)) ks c) = cc_storagePath c"
  "qm_value (cc_settings (fold (\<lambda>key. addSetting key (f key)) ks c)) k VInvalid = (if k \<in> set ks then f k else qm_value (cc_settings c) k VInvalid)"
  by (induction ks arbitrary: c) (auto simp: addSetting_def)

lemma path_set:
  "cc_storagePath (cc_setStoragePath home p c) = home_expanded home p"
  "qm_value (cc_settings (cc_setStoragePath home p c)) ''StoragePath'' VInvalid = VString (QStr (home_expanded home p))"
  by (simp_all add: cc_setStoragePath_def addSetting_def Let_def)

lemma secure_storage_path:
  "cc_storagePath (load_secureStorage se c) = cc_storagePath c"
  "qm_value (cc_settings (load_secureStorage se c)) ''StoragePath'' VInvalid =
     (if ''StoragePath'' \<in> set (childKeys ''SecureStorage'' (se_settings se)) then setting se ''SecureStorage/StoragePath''
      else qm_value (cc_settings c) ''StoragePath'' VInvalid)"
  by (simp_all add: load_secureStorage_def Let_def settings_added in_group_def join_path_def) (simp_all add: addSetting_def)

lemma loaded_path:
  "cc_storagePath (load_storagePath se c) = home_expanded (se_homePath se)
     (let p = chars (v_toString (setting se ''StoragePath'')); x = qm_value (se_environment se) ''XDG_CONFIG_HOME'' [] in
      if p \<noteq> [] then dir_path p else (if x = [] then se_homePath se @ ''/.config'' else x) @ ''/signond'')"
  "qm_value (cc_settings (load_storagePath se c)) ''StoragePath'' VInvalid = VString (QStr (cc_storagePath (load_storagePath se c)))"
  by (simp_all add: load_storagePath_def path_set Let_def)

theorem configured_storage_path:
  "let c = dc_cam (load_configuration se (new_configuration se))
   in cc_storagePath c = home_expanded (se_homePath se) (chosen_path se)
    \<and> qm_value (cc_settings c) ''StoragePath'' VInvalid =
        (if map_of (se_environment se) ''SSO_STORAGE_PATH'' = None \<and> ''StoragePath'' \<in> set (childKeys ''SecureStorage'' (se_settings se))
         then setting se ''SecureStorage/StoragePath'' else VString (QStr (cc_storagePath c)))"
proof -
  have bus: "dc_cam (load_busAddress se dc) = dc_cam dc" for dc by (simp add: load_busAddress_def)
  have paths: "dc_cam (load_paths se dc) =
      (case map_of (se_environment se) ''SSO_STORAGE_PATH'' of None \<Rightarrow> dc_cam dc | Some p \<Rightarrow> cc_setStoragePath (se_homePath se) p (dc_cam dc))" for dc
    by (simp add: load_paths_def Let_def split: option.split)
  have rest: "dc_cam (load_loggingLevel se (load_timeouts se dc)) = dc_cam dc" for dc
    by (simp add: load_loggingLevel_def load_timeouts_def Let_def split: option.split)
  show ?thesis
    by (simp add: load_configuration_def Let_def bus paths rest path_set chosen_path_def secure_storage_path loaded_path split: option.split)
qed

end
