(* ===== verification/Daemon_Start.thy ===== *)
theory Daemon_Start
  imports Daemon_Config Remote_Plugin
begin

text \<open>
  The start and the end of the daemon: the extensions \<open>SignonDaemon\<close> (src/signond/signondaemon.cpp) loads and
  the \<open>CredentialsAccessManager\<close> takes objects from, \<open>initStorage\<close>, \<open>init\<close>, the signals of the system, and
  the methods that are found among the files of the plugins.
\<close>

section \<open>Extensions\<close>

text \<open>A plugin that has been loaded: its name, the newest interface it implements, and which objects it
  makes when it is asked to.\<close>

datatype interface_level = NoExtension | ExtensionInterface | ExtensionInterface2 | ExtensionInterface3

record extension =
  ex_objectName :: string
  ex_interface :: interface_level
  ex_keyManager :: bool
  ex_keyAuthorizer :: bool
  ex_cryptoManager :: bool
  ex_secretsStorage :: bool
  ex_acManager :: bool

text \<open>Which plugins the objects of the \<open>CredentialsAccessManager\<close> come from, by their number.\<close>

record held =
  hd_keyManagers :: "nat list"
  hd_keyAuthorizer :: "nat option"
  hd_cryptoManager :: "nat option"
  hd_secretsStorage :: "nat option"
  hd_acManager :: "nat option"

definition nothing_held :: held where
  "nothing_held = \<lparr>hd_keyManagers = [], hd_keyAuthorizer = None, hd_cryptoManager = None, hd_secretsStorage = None, hd_acManager = None\<rparr>"

definition addKeyManager :: "nat \<Rightarrow> held \<Rightarrow> held" where
  "addKeyManager i h = h\<lparr>hd_keyManagers := hd_keyManagers h @ [i]\<rparr>"

text \<open>Only the plugin that has been asked for is asked for a manager.\<close>

definition wanted :: "string \<Rightarrow> extension \<Rightarrow> bool" where
  "wanted name ex \<longleftrightarrow> name = [] \<or> ex_objectName ex = name"

text \<open>One object of the extension after the other. An object that is there already is not replaced; the new
  one is deleted.\<close>

definition take_keyManager :: "nat \<Rightarrow> extension \<Rightarrow> bool \<times> held \<Rightarrow> bool \<times> held" where
  "take_keyManager i ex uh = (if ex_keyManager ex then (True, addKeyManager i (snd uh)) else uh)"

definition take_keyAuthorizer :: "nat \<Rightarrow> extension \<Rightarrow> bool \<times> held \<Rightarrow> bool \<times> held" where
  "take_keyAuthorizer i ex uh =
     (if ex_keyAuthorizer ex \<and> hd_keyAuthorizer (snd uh) = None then (True, (snd uh)\<lparr>hd_keyAuthorizer := Some i\<rparr>) else uh)"

definition take_cryptoManager :: "cam_configuration \<Rightarrow> nat \<Rightarrow> extension \<Rightarrow> bool \<times> held \<Rightarrow> bool \<times> held" where
  "take_cryptoManager c i ex uh =
     (if wanted (chars (cryptoManagerName (cc_settings c))) ex \<and> ex_cryptoManager ex \<and> hd_cryptoManager (snd uh) = None
      then (True, (snd uh)\<lparr>hd_cryptoManager := Some i\<rparr>) else uh)"

definition take_secretsStorage :: "cam_configuration \<Rightarrow> nat \<Rightarrow> extension \<Rightarrow> bool \<times> held \<Rightarrow> bool \<times> held" where
  "take_secretsStorage c i ex uh =
     (if wanted (secretsStorageName c) ex \<and> ex_secretsStorage ex \<and> hd_secretsStorage (snd uh) = None
      then (True, (snd uh)\<lparr>hd_secretsStorage := Some i\<rparr>) else uh)"

definition take_acManager :: "cam_configuration \<Rightarrow> nat \<Rightarrow> extension \<Rightarrow> bool \<times> held \<Rightarrow> bool \<times> held" where
  "take_acManager c i ex uh =
     (if wanted (accessControlManagerName c) ex \<and> ex_acManager ex \<and> hd_acManager (snd uh) = None
      then (True, (snd uh)\<lparr>hd_acManager := Some i\<rparr>) else uh)"

text \<open>A newer interface has the objects of the older ones.\<close>

definition cam_initExtension :: "cam_configuration \<Rightarrow> nat \<Rightarrow> extension \<Rightarrow> held \<Rightarrow> bool \<times> held" where
  "cam_initExtension c i ex h =
     (case ex_interface ex of
        NoExtension \<Rightarrow> (False, h)
      | ExtensionInterface \<Rightarrow> take_keyManager i ex (False, h)
      | ExtensionInterface2 \<Rightarrow> take_keyAuthorizer i ex (take_keyManager i ex (False, h))
      | ExtensionInterface3 \<Rightarrow>
          take_acManager c i ex (take_secretsStorage c i ex (take_cryptoManager c i ex
            (take_keyAuthorizer i ex (take_keyManager i ex (False, h))))))"

text \<open>The plugins that stay loaded, and what is held. A file may fail to load, \<open>None\<close>; a plugin nothing is
  taken from is unloaded.\<close>

definition daemon_initExtension :: "cam_configuration \<Rightarrow> nat \<times> extension option \<Rightarrow> nat list \<times> held \<Rightarrow> nat list \<times> held" where
  "daemon_initExtension c p lh =
     (case snd p of
        None \<Rightarrow> lh
      | Some plugin \<Rightarrow>
          let (inUse, h) = cam_initExtension c (fst p) plugin (snd lh)
          in (if inUse then fst lh @ [fst p] else fst lh, h))"

text \<open>The files that match \<open>lib*.so\<close>, in the order of the directory.\<close>

definition is_extension_file :: "string \<Rightarrow> bool" where
  "is_extension_file name \<longleftrightarrow>
     length name \<ge> 6 \<and> take 3 (lower name) = ''lib'' \<and> drop (length name - 3) (lower name) = ''.so''"

definition initExtensions :: "cam_configuration \<Rightarrow> (string \<times> extension option) list \<Rightarrow> nat list \<times> held" where
  "initExtensions c files =
     fold (daemon_initExtension c) (enumerate 0 (map snd (filter (\<lambda>f. is_extension_file (fst f)) files))) ([], nothing_held)"

section \<open>Storage\<close>

definition initStorage :: "'d storage \<Rightarrow> bool \<times> 'd storage" where
  "initStorage s0 =
     (if \<not> cam_systemOpened s0
      then
        let (ok, s) = cam_init (cam_finalize s0) in
        if \<not> ok then (False, s)
        else let (ok, s) = openCredentialsSystem s in if \<not> ok then (False, s) else (True, s)
      else (False, s0))"

text \<open>The objects of the extensions as the storage uses them: the key managers, the authorizer, and the
  crypto manager of the repository. \<open>auths\<close> says what the authorizer of a plugin does.\<close>

definition with_extensions :: "(nat \<Rightarrow> authorizer) \<Rightarrow> held \<Rightarrow> 'd storage \<Rightarrow> 'd storage" where
  "with_extensions auths h s =
     s\<lparr>cam_keyManagers := cam_keyManagers s @ hd_keyManagers h,
       cam_authorizer := map_option auths (hd_keyAuthorizer h),
       cm_kind := map_option (\<lambda>_. Cryptsetup) (hd_cryptoManager h)\<rparr>"

section \<open>init\<close>

text \<open>What the bus answers to the registrations of \<open>init\<close>.\<close>

record bus_answers =
  ba_backupObject :: bool
  ba_backupService :: bool
  ba_connected :: bool
  ba_object :: bool
  ba_service :: bool

text \<open>Of a daemon that has started: whether its storage is open, and whether it ends when it has been idle.\<close>

datatype start_result = FatalError | BackupMode | Started bool bool

text \<open>A new \<open>CredentialsAccessManager\<close> on the storage of the machine.\<close>

definition new_cam :: "cam_configuration \<Rightarrow> 'd storage \<Rightarrow> 'd storage" where
  "new_cam c s =
     s\<lparr>cm_kind := None, cm_encryptionKey := [], cm_fileSystemIsSetup := False, cm_fileSystemIsMounted := False, cm_mountState := Unmounted,
       kh_connected := False, kh_keyManagers := [], kh_readyKeyManagers := [], kh_insertedKeys := [], kh_authorizedKeys := [],
       cam_settings := cc_settings c, cam_secretsDbName := cc_secretsDbName c, cam_keyManagers := [], cam_authorizer := None,
       cam_isInitialized := False, cam_systemOpened := False, cam_error := CamNoError, cam_db := None, cam_notifiers := [],
       cam_fault := False\<rparr>"

definition daemon_init ::
    "start_environment \<Rightarrow> string list \<Rightarrow> bus_answers \<Rightarrow> (string \<times> extension option) list \<Rightarrow> (nat \<Rightarrow> authorizer) \<Rightarrow> 'd storage
       \<Rightarrow> start_result \<times> daemon_configuration \<times> 'd storage" where
  "daemon_init se arguments bus files auths s0 =
     (let dc = load_configuration se (new_configuration se);
          s = new_cam (dc_cam dc) s0
      in if \<not> ba_backupObject bus \<or> \<not> ba_backupService bus then (FatalError, dc, s)
         else if ''-backup'' \<in> set arguments then (BackupMode, dc, s)
         else if \<not> ba_connected bus \<or> \<not> ba_object bus \<or> \<not> ba_service bus then (FatalError, dc, s)
         else
           let (loaded, h) = initExtensions (dc_cam dc) files;
               (ok, s) = initStorage (with_extensions auths h s)
           in (Started ok (0 < dc_daemonTimeout dc), dc, s))"

section \<open>Methods\<close>

text \<open>\<open>indexOf\<close>, -1 when there is none, and \<open>mid\<close>, to the end when the length is negative.\<close>

fun q_indexOf :: "string \<Rightarrow> string \<Rightarrow> int" where
  "q_indexOf pat [] = (if pat = [] then 0 else -1)"
| "q_indexOf pat (c # cs) =
     (if take (length pat) (c # cs) = pat then 0
      else let i = q_indexOf pat cs in if i < 0 then -1 else i + 1)"

definition q_mid :: "nat \<Rightarrow> int \<Rightarrow> string \<Rightarrow> string" where
  "q_mid position n s =
     (if position > length s then []
      else if n < 0 \<or> n > int (length s - position) then drop position s
      else take (nat n) (drop position s))"

definition method_of_file :: "string \<Rightarrow> string" where
  "method_of_file fileName = q_mid 3 (q_indexOf ''plugin'' fileName - 3) fileName"

definition queryMethods :: "string list \<Rightarrow> string list" where
  "queryMethods files =
     fold (\<lambda>fileName ret.
         if take 3 fileName = ''lib''
         then let m = method_of_file fileName in if length m > 0 \<and> m \<notin> set ret then ret @ [m] else ret
         else ret)
       (filter (\<lambda>f. 0 \<le> q_indexOf ''.so'' (lower f)) files) []"

abbreviation "ERR_METHOD_NOT_KNOWN \<equiv> ''com.google.code.AccountsSSO.SingleSignOn.Error.MethodNotKnown''"

text \<open>The last error, and the mechanisms of the plugin that is started for it.\<close>

definition daemon_queryMechanisms ::
    "qstring \<Rightarrow> start_outcome list \<times> qstring list option \<Rightarrow> string option \<times> qstring list" where
  "daemon_queryMechanisms method env =
     (case createNewPluginProxy method env of
        None \<Rightarrow> (Some ERR_METHOD_NOT_KNOWN, [])
      | Some plugin \<Rightarrow> (None, pp_mechanisms plugin))"

section \<open>Signals, and the end of the daemon\<close>

text \<open>The daemon objects of the process, by number, and the events the loop has to deliver. The destructor of
  a daemon posts the event that ends the loop.\<close>

datatype loop_event = DeleteDaemon nat | InitDaemon nat | QuitLoop

record process =
  pr_instance :: "nat option"
  pr_living :: "nat list"
  pr_initialized :: "nat list"
  pr_queue :: "loop_event list"
  pr_running :: bool
  pr_next :: nat

definition post_event :: "loop_event \<Rightarrow> process \<Rightarrow> process" where
  "post_event e p = p\<lparr>pr_queue := pr_queue p @ [e]\<rparr>"

text \<open>\<open>SignonDaemon::instance\<close> constructs the object the first time.\<close>

definition daemon_instance :: "process \<Rightarrow> nat \<times> process" where
  "daemon_instance p =
     (case pr_instance p of
        Some i \<Rightarrow> (i, p)
      | None \<Rightarrow> (pr_next p, p\<lparr>pr_instance := Some (pr_next p), pr_living := pr_living p @ [pr_next p], pr_next := pr_next p + 1\<rparr>))"

text \<open>\<open>main\<close>\<close>

definition daemon_main :: process where
  "daemon_main =
     (let (i, p) = daemon_instance \<lparr>pr_instance = None, pr_living = [], pr_initialized = [], pr_queue = [], pr_running = True, pr_next = 0\<rparr>
      in post_event (InitDaemon i) p)"

datatype unix_signal = SIGHUP | SIGTERM | SIGINT | OtherSignal

definition handleUnixSignal :: "nat \<Rightarrow> unix_signal \<Rightarrow> process \<Rightarrow> process" where
  "handleUnixSignal i signal p0 =
     (case signal of
        SIGHUP \<Rightarrow>
          let p = (post_event (DeleteDaemon i) p0)\<lparr>pr_instance := None\<rparr>; (j, p) = daemon_instance p
          in post_event (InitDaemon j) p
      | SIGTERM \<Rightarrow> post_event QuitLoop (post_event (DeleteDaemon i) p0)
      | SIGINT \<Rightarrow> post_event QuitLoop (post_event (DeleteDaemon i) p0)
      | OtherSignal \<Rightarrow> p0)"

definition daemon_onDisconnected :: "nat \<Rightarrow> process \<Rightarrow> process" where
  "daemon_onDisconnected i p = post_event QuitLoop (post_event (DeleteDaemon i) p)"

text \<open>\<open>~SignonDaemon\<close>; the loop drops the other events for an object that has been deleted.\<close>

definition delete_daemon :: "nat \<Rightarrow> process \<Rightarrow> process" where
  "delete_daemon i p =
     post_event QuitLoop
       (p\<lparr>pr_living := filter (\<lambda>j. j \<noteq> i) (pr_living p), pr_queue := filter (\<lambda>e. e \<noteq> DeleteDaemon i \<and> e \<noteq> InitDaemon i) (pr_queue p)\<rparr>)"

definition deliver_event :: "process \<Rightarrow> process" where
  "deliver_event p =
     (case pr_queue p of
        [] \<Rightarrow> p
      | e # es \<Rightarrow>
          let p = p\<lparr>pr_queue := es\<rparr> in
          case e of
            DeleteDaemon i \<Rightarrow> if i \<in> set (pr_living p) then delete_daemon i p else p
          | InitDaemon i \<Rightarrow> if i \<in> set (pr_living p) then p\<lparr>pr_initialized := pr_initialized p @ [i]\<rparr> else p
          | QuitLoop \<Rightarrow> p\<lparr>pr_running := False\<rparr>)"

text \<open>What can happen: the loop turns, a signal arrives, the bus goes away, or the daemon has been idle for its
  timeout. Only a living daemon that has been initialized notices.\<close>

datatype process_happening = Turn | Signal nat unix_signal | BusLost nat | IdleTimeout nat

inductive process_step :: "process \<Rightarrow> process_happening \<Rightarrow> process \<Rightarrow> bool" where
  turn: "pr_running p \<Longrightarrow> pr_queue p \<noteq> [] \<Longrightarrow> process_step p Turn (deliver_event p)"
| signal: "pr_running p \<Longrightarrow> i \<in> set (pr_living p) \<Longrightarrow> i \<in> set (pr_initialized p) \<Longrightarrow> process_step p (Signal i sig) (handleUnixSignal i sig p)"
| bus: "pr_running p \<Longrightarrow> i \<in> set (pr_living p) \<Longrightarrow> i \<in> set (pr_initialized p) \<Longrightarrow> process_step p (BusLost i) (daemon_onDisconnected i p)"
| idle: "pr_running p \<Longrightarrow> i \<in> set (pr_living p) \<Longrightarrow> i \<in> set (pr_initialized p) \<Longrightarrow> process_step p (IdleTimeout i) (post_event (DeleteDaemon i) p)"

inductive_cases process_stepE: "process_step p h q"

inductive process_run :: "process \<Rightarrow> process_happening list \<Rightarrow> process \<Rightarrow> bool" for p0 where
  start: "process_run p0 [] p0"
| step: "process_run p0 hs p \<Longrightarrow> process_step p h q \<Longrightarrow> process_run p0 (hs @ [h]) q"

text \<open>What dooms the process: any of these but a turn of the loop, or a signal without a handler.\<close>

definition dooms :: "process_happening \<Rightarrow> bool" where
  "dooms h \<longleftrightarrow> h \<noteq> Turn \<and> (\<forall>i. h \<noteq> Signal i OtherSignal)"

definition doomed :: "process \<Rightarrow> bool" where
  "doomed p \<longleftrightarrow> \<not> pr_running p \<or> QuitLoop \<in> set (pr_queue p) \<or> (\<exists>i \<in> set (pr_living p). DeleteDaemon i \<in> set (pr_queue p))"

lemma doomed_step:
  assumes "process_step p h q" and "doomed p \<or> dooms h"
  shows "doomed q"
  using assms
proof (cases rule: process_step.cases)
  case turn
  have d: "doomed p" using assms(2) turn(1) by (simp add: dooms_def)
  obtain e es where q: "pr_queue p = e # es" using turn(4) by (cases "pr_queue p") auto
  show ?thesis
  proof (cases e)
    case (DeleteDaemon i)
    then show ?thesis
      using d turn(2,3) q by (auto simp: deliver_event_def doomed_def delete_daemon_def post_event_def Let_def)
  qed (use d turn(2,3) q in \<open>auto simp: deliver_event_def doomed_def Let_def\<close>)
next
  case (signal i sig)
  then show ?thesis
    using assms(2)
    by (cases sig) (auto simp: handleUnixSignal_def doomed_def dooms_def post_event_def daemon_instance_def Let_def split: option.splits)
qed (use assms(2) in \<open>auto simp: daemon_onDisconnected_def doomed_def post_event_def\<close>)

lemma doomed_run:
  assumes "process_run p hs q" and "doomed p \<or> list_ex dooms hs"
  shows "doomed q"
  using assms by (induction rule: process_run.induct) (auto dest: doomed_step)

definition events_left :: "process \<Rightarrow> nat" where
  "events_left p = length (pr_queue p) + length (pr_living p)"

lemma delivered_less: "pr_queue p \<noteq> [] \<Longrightarrow> events_left (deliver_event p) < events_left p"
proof -
  assume "pr_queue p \<noteq> []"
  then obtain e es where q: "pr_queue p = e # es" by (cases "pr_queue p") auto
  have "length (filter (\<lambda>j. j \<noteq> i) xs) < length xs" if "i \<in> set xs" for i :: nat and xs
    using that by (simp add: length_filter_less)
  moreover have "length (filter P es) \<le> length es" for P by simp
  ultimately show ?thesis
    by (auto simp: deliver_event_def q events_left_def delete_daemon_def post_event_def Let_def le_less_trans add_le_less_mono
        split: loop_event.split)
qed

lemma doomed_ends: "doomed p \<Longrightarrow> \<exists>n \<le> events_left p. \<not> pr_running ((deliver_event ^^ n) p)"
proof (induction "events_left p" arbitrary: p rule: less_induct)
  case less
  show ?case
  proof (cases "pr_running p")
    case True
    then have q: "pr_queue p \<noteq> []" using less.prems by (auto simp: doomed_def)
    have "doomed (deliver_event p)" using doomed_step [OF process_step.turn [OF True q]] less.prems by blast
    from less.hyps [OF delivered_less [OF q] this]
    obtain n where "n \<le> events_left (deliver_event p)" "\<not> pr_running ((deliver_event ^^ n) (deliver_event p))" by blast
    then have "Suc n \<le> events_left p" "\<not> pr_running ((deliver_event ^^ Suc n) p)"
      using delivered_less [OF q] by (simp_all add: funpow_swap1 del: funpow.simps) (simp add: funpow_swap1)
    then show ?thesis by blast
  next
    case False
    then show ?thesis by (intro exI [of _ 0]) simp
  qed
qed

section \<open>What is held\<close>

definition holds :: "nat \<Rightarrow> held \<Rightarrow> bool" where
  "holds i h \<longleftrightarrow> i \<in> set (hd_keyManagers h) \<or> hd_keyAuthorizer h = Some i \<or> hd_cryptoManager h = Some i \<or> hd_secretsStorage h = Some i
     \<or> hd_acManager h = Some i"

text \<open>The first plugin, in the order of the directory, that has the newest interface and makes the object.\<close>

definition offers :: "(extension \<Rightarrow> bool) \<Rightarrow> nat \<times> extension option \<Rightarrow> bool" where
  "offers makes p \<longleftrightarrow> (case snd p of None \<Rightarrow> False | Some ex \<Rightarrow> ex_interface ex = ExtensionInterface3 \<and> makes ex)"

definition first_offer :: "(extension \<Rightarrow> bool) \<Rightarrow> (nat \<times> extension option) list \<Rightarrow> nat option" where
  "first_offer makes ps = map_option fst (find (offers makes) ps)"

lemma first_offer_Nil [simp]: "first_offer makes [] = None"
  by (simp add: first_offer_def)

lemma first_offer_Cons: "first_offer makes (p # ps) = (if offers makes p then Some (fst p) else first_offer makes ps)"
  by (simp add: first_offer_def)

abbreviation or_else :: "'a option \<Rightarrow> 'a option \<Rightarrow> 'a option" where
  "or_else x y \<equiv> (case x of None \<Rightarrow> y | Some v \<Rightarrow> Some v)"

lemmas take_defs = take_keyManager_def take_keyAuthorizer_def take_cryptoManager_def take_secretsStorage_def take_acManager_def

text \<open>What a step keeps: that the plugin is in use exactly when something of it has been taken.\<close>

definition taken :: "nat \<Rightarrow> held \<Rightarrow> bool \<times> held \<Rightarrow> bool" where
  "taken i h uh \<longleftrightarrow> (\<forall>j. holds j (snd uh) \<longleftrightarrow> holds j h \<or> (fst uh \<and> j = i))"

lemma taken_start: "taken i h (False, h)"
  by (simp add: taken_def)

lemma taken_step:
  assumes "taken i h uh"
  shows "taken i h (take_keyManager i ex uh)" and "taken i h (take_keyAuthorizer i ex uh)"
    and "taken i h (take_cryptoManager c i ex uh)" and "taken i h (take_secretsStorage c i ex uh)" and "taken i h (take_acManager c i ex uh)"
proof -
  have more: "taken i h (True, h')" if "\<And>j. holds j h' \<longleftrightarrow> holds j (snd uh) \<or> j = i" for h'
    using assms that by (auto simp: taken_def)
  show "taken i h (take_keyManager i ex uh)"
    using assms by (auto simp: take_keyManager_def addKeyManager_def holds_def intro!: more)
  show "taken i h (take_keyAuthorizer i ex uh)"
    using assms by (auto simp: take_keyAuthorizer_def holds_def intro!: more)
  show "taken i h (take_cryptoManager c i ex uh)"
    using assms by (auto simp: take_cryptoManager_def holds_def intro!: more)
  show "taken i h (take_secretsStorage c i ex uh)"
    using assms by (auto simp: take_secretsStorage_def holds_def intro!: more)
  show "taken i h (take_acManager c i ex uh)"
    using assms by (auto simp: take_acManager_def holds_def intro!: more)
qed

lemma cam_initExtension_holds:
  assumes "cam_initExtension c i ex h = (inUse, h')"
  shows "holds j h' \<longleftrightarrow> holds j h \<or> (inUse \<and> j = i)"
proof -
  have "taken i h (cam_initExtension c i ex h)"
    by (cases "ex_interface ex") (simp_all add: cam_initExtension_def taken_start taken_step)
  then show ?thesis by (simp add: assms taken_def)
qed

lemma take_others [simp]:
  "hd_cryptoManager (snd (take_keyManager i ex uh)) = hd_cryptoManager (snd uh)"
  "hd_secretsStorage (snd (take_keyManager i ex uh)) = hd_secretsStorage (snd uh)"
  "hd_acManager (snd (take_keyManager i ex uh)) = hd_acManager (snd uh)"
  "hd_cryptoManager (snd (take_keyAuthorizer i ex uh)) = hd_cryptoManager (snd uh)"
  "hd_secretsStorage (snd (take_keyAuthorizer i ex uh)) = hd_secretsStorage (snd uh)"
  "hd_acManager (snd (take_keyAuthorizer i ex uh)) = hd_acManager (snd uh)"
  "hd_secretsStorage (snd (take_cryptoManager c i ex uh)) = hd_secretsStorage (snd uh)"
  "hd_acManager (snd (take_cryptoManager c i ex uh)) = hd_acManager (snd uh)"
  "hd_cryptoManager (snd (take_secretsStorage c i ex uh)) = hd_cryptoManager (snd uh)"
  "hd_acManager (snd (take_secretsStorage c i ex uh)) = hd_acManager (snd uh)"
  "hd_cryptoManager (snd (take_acManager c i ex uh)) = hd_cryptoManager (snd uh)"
  "hd_secretsStorage (snd (take_acManager c i ex uh)) = hd_secretsStorage (snd uh)"
  by (simp_all add: take_defs addKeyManager_def)

lemma cam_initExtension_managers:
  assumes "cam_initExtension c i ex h = (inUse, h')"
  shows "hd_cryptoManager h' = (if hd_cryptoManager h = None \<and> ex_interface ex = ExtensionInterface3 \<and> ex_cryptoManager ex
        \<and> wanted (chars (cryptoManagerName (cc_settings c))) ex then Some i else hd_cryptoManager h)"
    and "hd_secretsStorage h' = (if hd_secretsStorage h = None \<and> ex_interface ex = ExtensionInterface3 \<and> ex_secretsStorage ex
        \<and> wanted (secretsStorageName c) ex then Some i else hd_secretsStorage h)"
    and "hd_acManager h' = (if hd_acManager h = None \<and> ex_interface ex = ExtensionInterface3 \<and> ex_acManager ex
        \<and> wanted (accessControlManagerName c) ex then Some i else hd_acManager h)"
proof -
  have h': "h' = snd (cam_initExtension c i ex h)" by (simp add: assms)
  have crypto: "hd_cryptoManager (snd (take_cryptoManager c i ex uh)) = (if wanted (chars (cryptoManagerName (cc_settings c))) ex
      \<and> ex_cryptoManager ex \<and> hd_cryptoManager (snd uh) = None then Some i else hd_cryptoManager (snd uh))" for uh
    by (simp add: take_cryptoManager_def)
  have secrets: "hd_secretsStorage (snd (take_secretsStorage c i ex uh)) = (if wanted (secretsStorageName c) ex
      \<and> ex_secretsStorage ex \<and> hd_secretsStorage (snd uh) = None then Some i else hd_secretsStorage (snd uh))" for uh
    by (simp add: take_secretsStorage_def)
  have ac: "hd_acManager (snd (take_acManager c i ex uh)) = (if wanted (accessControlManagerName c) ex
      \<and> ex_acManager ex \<and> hd_acManager (snd uh) = None then Some i else hd_acManager (snd uh))" for uh
    by (simp add: take_acManager_def)
  show "hd_cryptoManager h' = (if hd_cryptoManager h = None \<and> ex_interface ex = ExtensionInterface3 \<and> ex_cryptoManager ex
      \<and> wanted (chars (cryptoManagerName (cc_settings c))) ex then Some i else hd_cryptoManager h)"
    by (cases "ex_interface ex") (simp_all add: h' cam_initExtension_def crypto)
  show "hd_secretsStorage h' = (if hd_secretsStorage h = None \<and> ex_interface ex = ExtensionInterface3 \<and> ex_secretsStorage ex
      \<and> wanted (secretsStorageName c) ex then Some i else hd_secretsStorage h)"
    by (cases "ex_interface ex") (simp_all add: h' cam_initExtension_def secrets)
  show "hd_acManager h' = (if hd_acManager h = None \<and> ex_interface ex = ExtensionInterface3 \<and> ex_acManager ex
      \<and> wanted (accessControlManagerName c) ex then Some i else hd_acManager h)"
    by (cases "ex_interface ex") (simp_all add: h' cam_initExtension_def ac)
qed

lemma loading_holds:
  assumes "fold (daemon_initExtension c) ps (loaded, h) = (loaded', h')" and "\<And>i. i \<in> set loaded \<longleftrightarrow> holds i h"
  shows "i \<in> set loaded' \<longleftrightarrow> holds i h'"
  using assms
proof (induction ps arbitrary: loaded h)
  case (Cons p ps)
  obtain l1 h1 where 1: "daemon_initExtension c p (loaded, h) = (l1, h1)" by fastforce
  have "i \<in> set l1 \<longleftrightarrow> holds i h1" for i
  proof (cases "snd p")
    case None
    then show ?thesis using 1 Cons.prems(2) by (simp add: daemon_initExtension_def)
  next
    case (Some ex)
    obtain inUse h2 where 2: "cam_initExtension c (fst p) ex h = (inUse, h2)" by fastforce
    then have l1: "l1 = (if inUse then loaded @ [fst p] else loaded)" and h1: "h1 = h2"
      using 1 Some by (auto simp: daemon_initExtension_def)
    show ?thesis
      unfolding h1 cam_initExtension_holds [OF 2] l1 Cons.prems(2) [symmetric] by (cases inUse) auto
  qed
  then show ?case using Cons.IH [of l1 h1] Cons.prems(1) 1 by simp
qed simp

lemma daemon_initExtension_managers:
  assumes "daemon_initExtension c p (l, h) = (l', h')"
  shows "hd_cryptoManager h' = or_else (hd_cryptoManager h)
      (first_offer (\<lambda>ex. ex_cryptoManager ex \<and> wanted (chars (cryptoManagerName (cc_settings c))) ex) [p])"
    and "hd_secretsStorage h' = or_else (hd_secretsStorage h) (first_offer (\<lambda>ex. ex_secretsStorage ex \<and> wanted (secretsStorageName c) ex) [p])"
    and "hd_acManager h' = or_else (hd_acManager h) (first_offer (\<lambda>ex. ex_acManager ex \<and> wanted (accessControlManagerName c) ex) [p])"
proof -
  obtain i plugin where p: "p = (i, plugin)" by fastforce
  have h': "h' = (case plugin of None \<Rightarrow> h | Some ex \<Rightarrow> snd (cam_initExtension c i ex h))"
    using assms by (auto simp: daemon_initExtension_def p split: option.splits prod.splits)
  note parts = cam_initExtension_managers [OF prod.collapse [symmetric]]
  show "hd_cryptoManager h' = or_else (hd_cryptoManager h)
      (first_offer (\<lambda>ex. ex_cryptoManager ex \<and> wanted (chars (cryptoManagerName (cc_settings c))) ex) [p])"
    by (cases plugin; cases "hd_cryptoManager h") (simp_all add: h' p first_offer_Cons offers_def parts)
  show "hd_secretsStorage h' = or_else (hd_secretsStorage h) (first_offer (\<lambda>ex. ex_secretsStorage ex \<and> wanted (secretsStorageName c) ex) [p])"
    by (cases plugin; cases "hd_secretsStorage h") (simp_all add: h' p first_offer_Cons offers_def parts)
  show "hd_acManager h' = or_else (hd_acManager h) (first_offer (\<lambda>ex. ex_acManager ex \<and> wanted (accessControlManagerName c) ex) [p])"
    by (cases plugin; cases "hd_acManager h") (simp_all add: h' p first_offer_Cons offers_def parts)
qed

lemma or_else_first: "or_else (or_else x (first_offer makes [p])) (first_offer makes ps) = or_else x (first_offer makes (p # ps))"
  by (cases x) (simp_all add: first_offer_Cons)

lemma loading_managers:
  assumes "fold (daemon_initExtension c) ps (l, h) = (l', h')"
  shows "hd_cryptoManager h' = or_else (hd_cryptoManager h)
      (first_offer (\<lambda>ex. ex_cryptoManager ex \<and> wanted (chars (cryptoManagerName (cc_settings c))) ex) ps)
    \<and> hd_secretsStorage h' = or_else (hd_secretsStorage h) (first_offer (\<lambda>ex. ex_secretsStorage ex \<and> wanted (secretsStorageName c) ex) ps)
    \<and> hd_acManager h' = or_else (hd_acManager h) (first_offer (\<lambda>ex. ex_acManager ex \<and> wanted (accessControlManagerName c) ex) ps)"
  using assms
proof (induction ps arbitrary: l h)
  case Nil
  then show ?case by (auto split: option.split)
next
  case (Cons p ps)
  obtain l1 h1 where 1: "daemon_initExtension c p (l, h) = (l1, h1)" by fastforce
  show ?case
    using Cons.IH [of l1 h1] Cons.prems 1 unfolding daemon_initExtension_managers [OF 1] or_else_first by simp
qed

definition extension_plugins :: "(string \<times> extension option) list \<Rightarrow> (nat \<times> extension option) list" where
  "extension_plugins files = enumerate 0 (map snd (filter (\<lambda>f. is_extension_file (fst f)) files))"

text \<open>C39: The extensions that stay loaded are exactly those something is held of: a key manager, the key
  authorizer, or one of the three managers, so that no object outlives its plugin and no plugin stays for
  nothing. Each manager comes from the first plugin of the directory that implements the newest interface,
  makes that manager, and has the name the configuration asks for (any name when it asks for none).\<close>

theorem extensions_in_use:
  "(i \<in> set (fst (initExtensions c files)) \<longleftrightarrow> holds i (snd (initExtensions c files)))
   \<and> hd_cryptoManager (snd (initExtensions c files))
       = first_offer (\<lambda>ex. ex_cryptoManager ex \<and> wanted (chars (cryptoManagerName (cc_settings c))) ex) (extension_plugins files)
   \<and> hd_secretsStorage (snd (initExtensions c files))
       = first_offer (\<lambda>ex. ex_secretsStorage ex \<and> wanted (secretsStorageName c) ex) (extension_plugins files)
   \<and> hd_acManager (snd (initExtensions c files))
       = first_offer (\<lambda>ex. ex_acManager ex \<and> wanted (accessControlManagerName c) ex) (extension_plugins files)"
proof -
  obtain l h where r: "fold (daemon_initExtension c) (extension_plugins files) ([], nothing_held) = (l, h)" by fastforce
  then have i: "initExtensions c files = (l, h)" by (simp add: initExtensions_def extension_plugins_def)
  have "j \<in> set [] \<longleftrightarrow> holds j nothing_held" for j by (simp add: holds_def nothing_held_def)
  from loading_holds [OF r this] loading_managers [OF r]
  show ?thesis unfolding i fst_conv snd_conv by (simp add: nothing_held_def)
qed

section \<open>The end of the process\<close>

text \<open>C40: Whatever happened to the process since \<open>main\<close>, once there was a signal with a handler, the bus
  went away or the daemon was idle for its timeout, it takes no more than a bounded number of turns of the
  loop, one for each event waiting and each daemon living, until \<open>main\<close> returns. This holds for \<open>SIGHUP\<close> too,
  which is meant to restart the daemon and posts the \<open>init\<close> of the next one: the destructor of the old daemon
  ends the loop they share.\<close>

theorem every_signal_ends_the_process:
  assumes "process_run daemon_main hs p" and "list_ex dooms hs"
  shows "\<exists>n \<le> events_left p. \<not> pr_running ((deliver_event ^^ n) p)"
proof -
  have "doomed p" using doomed_run [OF assms(1)] assms(2) by blast
  then show ?thesis by (rule doomed_ends)
qed

definition after_hangup :: process where
  "after_hangup = handleUnixSignal 0 SIGHUP (deliver_event daemon_main)"

lemma after_hangup_run: "process_run daemon_main [Turn, Signal 0 SIGHUP] after_hangup"
proof -
  have 1: "process_run daemon_main [Turn] (deliver_event daemon_main)"
    using process_run.step [OF process_run.start process_step.turn [of daemon_main]]
    by (simp add: daemon_main_def daemon_instance_def post_event_def)
  have "process_step (deliver_event daemon_main) (Signal 0 SIGHUP) after_hangup"
    unfolding after_hangup_def
    by (rule process_step.signal) (simp_all add: daemon_main_def daemon_instance_def post_event_def deliver_event_def)
  from process_run.step [OF 1 this] show ?thesis by simp
qed

text \<open>A \<open>SIGHUP\<close> to the daemon that has started: the second daemon is constructed and waits for its \<open>init\<close>, and
  three turns later the process has ended.\<close>

theorem every_signal_ends_the_process_witness:
  "(\<exists>n \<le> events_left after_hangup. \<not> pr_running ((deliver_event ^^ n) after_hangup)) \<and> pr_living after_hangup = [0, 1]
   \<and> pr_running ((deliver_event ^^ 2) after_hangup) \<and> \<not> pr_running ((deliver_event ^^ 3) after_hangup)"
proof (intro conjI)
  show "\<exists>n \<le> events_left after_hangup. \<not> pr_running ((deliver_event ^^ n) after_hangup)"
    by (rule every_signal_ends_the_process [OF after_hangup_run]) (simp add: dooms_def)
qed code_simp+

section \<open>The backup mode\<close>

text \<open>With \<open>-backup\<close> nothing is loaded and nothing is opened: the storage has no crypto manager, and the
  backup object works on a credentials system that is closed.\<close>

lemma daemon_init_backup_mode:
  assumes "ba_backupObject bus" and "ba_backupService bus" and "''-backup'' \<in> set arguments"
    and "daemon_init se arguments bus files auths s0 = (r, dc, s)"
  shows "r = BackupMode \<and> cm_kind s = None \<and> \<not> cam_systemOpened s"
  using assms by (auto simp: daemon_init_def new_cam_def Let_def)

end
