(* ===== verification/Network_Proxy.thy ===== *)
theory Network_Proxy
  imports Signon_Prelude
begin

text \<open>
  \<open>MyNetworkProxyFactory\<close> (remotepluginprocess/my-network-proxy-factory.cpp): which proxies the plugin processes
  use for a connection. The answer of libproxy for an address is a parameter, as the scheme, the host, the port
  and the credentials of each entry.
\<close>

section \<open>Proxies\<close>

datatype proxy_type = NoProxy | HttpProxy | Socks5Proxy | FtpCachingProxy

datatype capability = TunnelingCapability | ListeningCapability | UdpTunnelingCapability | CachingCapability | HostNameLookupCapability

text \<open>The capabilities \<open>QNetworkProxy\<close> gives a proxy of a type.\<close>

fun capabilities :: "proxy_type \<Rightarrow> capability list" where
  "capabilities NoProxy = [ListeningCapability, TunnelingCapability, UdpTunnelingCapability]"
| "capabilities HttpProxy = [TunnelingCapability, CachingCapability, HostNameLookupCapability]"
| "capabilities Socks5Proxy = [TunnelingCapability, ListeningCapability, UdpTunnelingCapability, HostNameLookupCapability]"
| "capabilities FtpCachingProxy = [CachingCapability, HostNameLookupCapability]"

record proxy_url =
  pu_scheme :: string
  pu_host :: string
  pu_port :: int
  pu_userName :: string
  pu_password :: string

record network_proxy =
  np_type :: proxy_type
  np_host :: string
  np_port :: int
  np_userName :: string
  np_password :: string

definition direct_proxy :: network_proxy where
  "direct_proxy = \<lparr>np_type = NoProxy, np_host = [], np_port = 0, np_userName = [], np_password = []\<rparr>"

datatype proxy_query = UrlRequest string | TcpSocket string int | UdpSocket string int | OtherQuery

section \<open>queryProxy\<close>

fun scheme_type :: "string \<Rightarrow> proxy_type option" where
  "scheme_type scheme =
     (if scheme = ''http'' then Some HttpProxy
      else if scheme = ''socks'' \<or> scheme = ''socks5'' then Some Socks5Proxy
      else if scheme = ''ftp'' then Some FtpCachingProxy
      else if scheme = ''direct'' then Some NoProxy
      else None)"

text \<open>One entry of the answer: what has been taken, and whether there was a direct connection.\<close>

definition take_proxy :: "capability list \<Rightarrow> proxy_url \<Rightarrow> network_proxy list \<times> bool \<Rightarrow> network_proxy list \<times> bool" where
  "take_proxy required url acc =
     (case scheme_type (pu_scheme url) of
        None \<Rightarrow> acc
      | Some type \<Rightarrow>
          let proxy = \<lparr>np_type = type, np_host = pu_host url, np_port = pu_port url, np_userName = pu_userName url, np_password = pu_password url\<rparr>
          in (if set required \<subseteq> set (capabilities type) then fst acc @ [proxy] else fst acc, snd acc \<or> type = NoProxy))"

definition queryProxy :: "(string \<times> string \<times> int \<Rightarrow> proxy_url list) \<Rightarrow> proxy_query \<Rightarrow> network_proxy list" where
  "queryProxy getProxies query =
     (case query of
        OtherQuery \<Rightarrow> [direct_proxy]
      | _ \<Rightarrow>
          let (url, required) =
                (case query of
                   UrlRequest url \<Rightarrow> ((url, [], 0), [])
                 | TcpSocket host port \<Rightarrow> ((''tcp'', host, port), [TunnelingCapability])
                 | UdpSocket host port \<Rightarrow> ((''udp'', host, port), [UdpTunnelingCapability])
                 | OtherQuery \<Rightarrow> (([], [], 0), []));
              (proxyList, haveDirectConnection) = fold (take_proxy required) (getProxies url) ([], False)
          in if proxyList = [] \<or> \<not> haveDirectConnection then proxyList @ [direct_proxy] else proxyList)"

section \<open>A proxy that works is offered\<close>

definition required_capabilities :: "proxy_query \<Rightarrow> capability list" where
  "required_capabilities query =
     (case query of TcpSocket _ _ \<Rightarrow> [TunnelingCapability] | UdpSocket _ _ \<Rightarrow> [UdpTunnelingCapability] | _ \<Rightarrow> [])"

definition usable :: "capability list \<Rightarrow> network_proxy list \<Rightarrow> bool" where
  "usable required ps \<longleftrightarrow> list_all (\<lambda>p. set required \<subseteq> set (capabilities (np_type p))) ps"

definition offers_direct :: "network_proxy list \<Rightarrow> bool" where
  "offers_direct ps \<longleftrightarrow> list_ex (\<lambda>p. np_type p = NoProxy) ps"

lemma take_proxies:
  assumes "usable required ps" and "direct \<Longrightarrow> offers_direct ps" and "set required \<subseteq> set (capabilities NoProxy)"
    and "fold (take_proxy required) urls (ps, direct) = (qs, direct')"
  shows "usable required qs \<and> (direct' \<longrightarrow> offers_direct qs)"
  using assms
proof (induction urls arbitrary: ps direct)
  case (Cons url urls)
  obtain ps1 direct1 where 1: "take_proxy required url (ps, direct) = (ps1, direct1)" by fastforce
  have "usable required ps1 \<and> (direct1 \<longrightarrow> offers_direct ps1)"
  proof (cases "scheme_type (pu_scheme url)")
    case None
    then show ?thesis using 1 Cons.prems(1,2) by (auto simp: take_proxy_def)
  next
    case (Some type)
    show ?thesis
      using 1 Cons.prems(1-3) Some
      by (cases "set required \<subseteq> set (capabilities type)") (auto simp: take_proxy_def Let_def usable_def offers_direct_def)
  qed
  then show ?case using Cons.IH [of ps1 direct1] Cons.prems(3,4) 1 by simp
qed simp

lemma direct_connection_is_offered:
  "offers_direct (queryProxy getProxies query) \<and> usable (required_capabilities query) (queryProxy getProxies query)"
proof -
  have direct: "offers_direct (ps @ [direct_proxy])" for ps by (simp add: offers_direct_def direct_proxy_def)
  have more: "usable required ps \<Longrightarrow> set required \<subseteq> set (capabilities NoProxy) \<Longrightarrow> usable required (ps @ [direct_proxy])" for required ps
    by (simp add: usable_def direct_proxy_def)
  have one: "offers_direct r \<and> usable required r"
    if "set required \<subseteq> set (capabilities NoProxy)"
      and "r = (let (ps, d) = fold (take_proxy required) urls ([], False) in if ps = [] \<or> \<not> d then ps @ [direct_proxy] else ps)"
    for required urls r
  proof -
    obtain ps d where f: "fold (take_proxy required) urls ([], False) = (ps, d)" by fastforce
    have "usable required ps \<and> (d \<longrightarrow> offers_direct ps)"
      using take_proxies [OF _ _ that(1) f] by (simp add: usable_def)
    then show ?thesis using that(2) direct more [OF _ that(1)] f by auto
  qed
  show ?thesis
  proof (cases query)
    case (UrlRequest url)
    show ?thesis by (rule one [of _ _ "getProxies (url, [], 0)"]) (simp_all add: UrlRequest queryProxy_def required_capabilities_def)
  next
    case (TcpSocket host port)
    show ?thesis by (rule one [of _ _ "getProxies (''tcp'', host, port)"]) (simp_all add: TcpSocket queryProxy_def required_capabilities_def)
  next
    case (UdpSocket host port)
    show ?thesis by (rule one [of _ _ "getProxies (''udp'', host, port)"]) (simp_all add: UdpSocket queryProxy_def required_capabilities_def)
  next
    case OtherQuery
    then show ?thesis by (simp add: queryProxy_def required_capabilities_def usable_def offers_direct_def direct_proxy_def)
  qed
qed

end
