(* ===== verification/Spec2Isabelle.thy ===== *)
theory Spec2Isabelle
  imports Identity_Findings Session_Parameters Storage_Events Plugin_Link Client_Errors Client_Identity_Run Client_Service
    Client_Info Daemon_Start Network_Proxy
begin

text \<open>
  The single sign-on daemon \<open>signond\<close>: its databases, the D-Bus interface of identities, the
  authentication sessions, the encrypted storage of the secrets, and the processes of authentication plugins; and the library
  through which clients use it. This theory is the root of the
  development and says what the others hold.

  \<^bold>\<open>The program.\<close> Clients call the daemon over D-Bus. An \<^emph>\<open>identity\<close> is a row of the metadata database
  (a user name, a caption, the methods it may be used with, access control and owner lists) and,
  in the secrets database, a password and data of plugins. \<open>SignonIdentity\<close> is the D-Bus object of
  one identity. An \<^emph>\<open>authentication session\<close> belongs to an identity and a method; the sessions
  of one identity and method share a \<open>SignonSessionCore\<close>, which queues their requests and hands them, one at a time,
  to a plugin process. The plugin answers with a result, an error, data to store, or a dialog to
  be shown by the program signon-ui. The secrets database may lie in an encrypted file system: the
  \<open>CredentialsAccessManager\<close> opens the databases, the \<open>KeyHandler\<close> knows which keys are inserted and which are
  authorized, and a crypto manager mounts the file system with one of them.

  \<^bold>\<open>The theories.\<close> In the order of import (paths are under src/):

  \<^item> \<open>Signon_Prelude\<close>, \<open>Qt_Map\<close>, \<open>Variants\<close>: strings that may be null, machine integers, \<open>QMap\<close> as a sorted
    list of pairs, \<open>QVariant\<close>, and the helpers on variant maps
    (src/signond/signonsessioncoretools.cpp).
  \<^item> \<open>Identity_Info\<close>: \<open>SignonIdentityInfo\<close> (src/signond/signonidentityinfo.h, .cpp).
  \<^item> \<open>Sql_Database\<close>: \<open>SqlDatabase\<close>, the layer over SQLite (src/signond/credentialsdb.cpp).
  \<^item> \<open>Meta_Tables\<close>, \<open>Meta_Integrity\<close>, \<open>Meta_Db\<close>, \<open>Meta_Update\<close>, \<open>Meta_Refinement\<close>, \<open>Meta_Properties\<close>: \<open>MetaDataDB\<close>, its
    schema with the triggers, its statements and methods (the same file); the integrity the triggers
    stand for (the identity of a row of OWNER has no trigger and is excepted), and the refinement of a map from ids to what each identity is.
  \<^item> \<open>Secrets_Db\<close>, \<open>Secrets_Properties\<close>: \<open>SecretsDB\<close> and \<open>DefaultSecretsStorage\<close>
    (src/signond/default-secrets-storage.cpp, lib/signond/SignOn/abstract-secrets-storage.cpp).
  \<^item> \<open>Credentials_Db\<close>, \<open>Credentials_Properties\<close>: \<open>CredentialsDB\<close> and \<open>SecretsCache\<close>, which join the two databases.
  \<^item> \<open>Access_Control\<close>: \<open>AccessControlManagerHelper\<close> (src/signond/accesscontrolmanagerhelper.cpp).
  \<^item> \<open>Signon_Identity\<close>, \<open>Signon_Daemon\<close>: \<open>SignonIdentity\<close>, \<open>SignonDisposable\<close>, \<open>SignonIdentityAdaptor\<close>, and what \<open>SignonDaemon\<close>
    and \<open>SignonDaemonAdaptor\<close> do for identities; the events that drive them.
  \<^item> \<open>Identity_Frames\<close>, \<open>Identity_Properties\<close>, \<open>Identity_Safety\<close>, \<open>Identity_Memory\<close>, \<open>Identity_Findings\<close>: what clients of that interface
    can rely on, and what they cannot.
  \<^item> \<open>Blob_Io\<close>: \<open>BlobIOHandler\<close>, session data in pages (lib/plugins/signon-plugins-common).
  \<^item> \<open>Plugin_Proxy\<close>, \<open>Plugin_Properties\<close>: \<open>PluginProxy\<close>, the daemon's end of the pipes (src/signond/pluginproxy.cpp).
  \<^item> \<open>Session_Core\<close>, \<open>Session_Daemon\<close>: \<open>SignonSessionCore\<close>, \<open>SignonAuthSession\<close>, its adaptor, and what the daemon does
    for sessions.
  \<^item> \<open>Session_Frames\<close>, \<open>Session_Accounting\<close>, \<open>Session_Answers\<close>, \<open>Session_Properties\<close>, \<open>Session_Parameters\<close>: the account of calls and
    answers, the properties of sessions, what the plugin is given against a reference, and how a session comes to
    another identity's credentials.
  \<^item> \<open>Remote_Plugin\<close>, \<open>Plugin_Link\<close>: \<open>RemotePluginProcess\<close> (src/remotepluginprocess), the other end of the pipes, and the
    password plugin (src/plugins/password); a request and its answer over both ends.
  \<^item> \<open>Crypto_Manager\<close>, \<open>Credentials_Access\<close>: the crypto managers and the calls of the system they make
    (src/extensions/cryptsetup, lib/signond/SignOn/abstract-crypto-manager.cpp, src/signond/default-crypto-manager.cpp);
    \<open>KeyHandler\<close>, the key authorizers (lib/signond/SignOn/key-handler.cpp, abstract-key-authorizer.cpp,
    src/signond/default-key-authorizer.cpp) and \<open>CredentialsAccessManager\<close> (src/signond/credentialsaccessmanager.cpp).
  \<^item> \<open>Storage_Frames\<close>, \<open>Storage_Properties\<close>, \<open>Storage_Safety\<close>, \<open>Storage_Opening\<close>, \<open>Storage_Events\<close>: what these operations leave alone,
    the contract \<open>storage_contract\<close> of an invariant of the storage, its two interpretations (the storage is
    consistent; without a key it stays shut), and what single events do.
  \<^item> \<open>Async_Proxy\<close>: \<open>AsyncDBusProxy\<close> and \<open>PendingCall\<close> of the client library (lib/SignOn/async-dbus-proxy.cpp): the account of its
    calls, in a locale for clients whose slots leave the proxy alone, and a locale for what a client adds to it.
  \<^item> \<open>Client_Session\<close>, \<open>Client_Session_Run\<close>, \<open>Client_Errors\<close>: \<open>AuthSessionImpl\<close> (lib/SignOn/authsessionimpl.cpp), whose error slot
    changes the proxy while it is reporting errors; its invariant; the way of an error from a plugin to the application.
  \<^item> \<open>Client_Identity\<close>, \<open>Client_Identity_Run\<close>: \<open>IdentityImpl\<close> and \<open>IdentityInfoImpl\<close> (lib/SignOn/identityimpl.cpp, identityinfoimpl.cpp).
  \<^item> \<open>Client_Service\<close>: \<open>AuthServiceImpl\<close> and \<open>ConnectionManager\<close> (lib/SignOn/authserviceimpl.cpp, connection-manager.cpp).
  \<^item> \<open>Client_Info\<close>: \<open>IdentityInfo\<close> and the public \<open>Identity\<close> (lib/SignOn/identityinfo.cpp, identity.cpp), and the information on its way
    over D-Bus between an application and the databases.
  \<^item> \<open>Backup_Files\<close>, \<open>Backup\<close>: \<open>Backup\<close> (src/signond/backup.cpp), first on a disk of files and directories any call of which may
    fail, then on the access manager, whose databases are projected to files on that disk and read back.
  \<^item> \<open>Daemon_Config\<close>, \<open>Daemon_Start\<close>: the configuration of the daemon and of the access manager, the extensions, \<open>init\<close>,
    the signals and the end of the process (src/signond/signondaemon.cpp, main.cpp, credentialsaccessmanager.cpp).
  \<^item> \<open>Network_Proxy\<close>: which proxies plugin processes use (remotepluginprocess/my-network-proxy-factory.cpp).

  \<^bold>\<open>How state and operations are modelled.\<close> A class is a record with the class's members as fields, a
  method a definition over the state of the whole component, named after the method (with a
  prefix where two classes share a name: \<open>meta_\<close>, \<open>ss_\<close>, \<open>cd_\<close> for the databases, \<open>id_\<close>, \<open>ad_\<close> for identities and
  their adaptor, \<open>da_\<close> for the daemon's adaptor, \<open>sc_\<close>, \<open>as_\<close>, \<open>aa_\<close> for session cores, sessions and their
  adaptor, \<open>ap_\<close>, \<open>pc_\<close> for the client's proxy and its calls, \<open>ca_\<close>, \<open>ci_\<close>, \<open>ii_\<close>, \<open>cv_\<close>, \<open>co_\<close> for the sessions, identities, information, services and
  connection of the client library, \<open>pp_\<close> for the plugin proxy, \<open>rp_\<close> and \<open>pw_\<close> for the plugin process and the password plugin, \<open>cs_\<close>, \<open>kh_\<close>, \<open>cam_\<close> for
  the cryptsetup manager, the key handler and the access manager). Objects on the heap have numbers, which also stand for the
  names of D-Bus objects; \<open>deleteLater\<close> puts an object into a list that is emptied when control
  returns to the event loop. Three states of the daemon are kept apart: \<open>world\<close> for the identity side,
  \<open>sessions\<close> for the session side and \<open>storage\<close> for the encrypted storage; all contain the credentials database. A \<open>backup\<close> has
  a \<open>storage\<close> and the disk, a \<open>process\<close> the daemon objects and the queue of the event loop.
  In \<open>storage\<close> signals between the managers are calls of the slots connected to them, and the mount directory is
  a key list and files that mounting and unmounting exchange for those in the partition.
  Following a null or dangling pointer sets a fault flag. What clients are sent is appended to a
  list of events. The event loop is a function from events to state changes, with an inductive
  relation of reachable states; the life of the process is an inductive step relation.

  \<^bold>\<open>What is a parameter.\<close> The outcome of every access to an SQL driver is taken from a list (success,
  an error, an error after which SQLite has ended the transaction); an empty list means success.
  Likewise the outcomes of starting a plugin process and of the calls the crypto manager makes to the
  system and to programs (done, failed, or no output). libcryptsetup is a record of the functions that are
  called, on a device of any type; the one device is the partition file, whichever loop device it gets. The calls of the file system
  that a backup makes fail as a function of the call and the path says. What a plugin that has been loaded offers, what the configuration file and
  the environment hold, and what libproxy answers are arguments. Key
  managers, their keys at setup, authorizers other than the two in the sources, the first element of a
  \<open>QSet\<close>, and which library file gives which plugin, are arguments. How \<open>QDataStream\<close> writes and reads variant
  maps, the access control manager extension, and how a peer's process id is found, are
  arguments. In the client library the slots a proxy's calls are connected to are a record of functions, whether the
  connection is up, how a registration is answered and what connecting gives are events or arguments. SQLite is assumed to do what its documentation says of the statements used: unique keys,
  AUTOINCREMENT, triggers, rollback.

  \<^bold>\<open>Bounds.\<close> All loops are structural recursion or have a measure (the bytes that are left to be
  read, the pages to be written), so nothing runs on fuel; that the daemon's process ends after a signal is bounded by
  the events waiting and the daemons living. Ids are kept below 2^31 by
  AUTOINCREMENT in the properties that need it; \<open>quint32\<close> and \<open>int\<close> conversions wrap around.

  \<^bold>\<open>What the lemmas show.\<close> The integrity lemmas state that each statement keeps the tables consistent and the
  properties lift that to sequences of methods under any driver outcomes. The refinement lemmas
  relate each method to a function on views. The frames of the identity and of the session side
  state what each operation leaves alone: answers owed, passwords shown, pointers held. They are
  collected in locales of laws (\<open>session_law\<close>, \<open>response_law\<close> and those of the database theories) that the
  measures interpret; a property of runs is the sum of such steps.

  \<^bold>\<open>What is not modelled.\<close> The text of error messages on the identity side; the D-Bus
  registration of objects; timers as such (a timeout is an event, the clock is a field); what an
  extension does when it is loaded; a secrets storage other than the default one; the methods of the public classes of the client library that
  only hand their calls on; the log and its level's effect. Paths are taken to be clean. A \<open>CredentialsDB\<close> that is open when the system is opened again is leaked by the code; its
  connections are taken to be closed. Ownership and permissions of files are left out, and a backup sees
  of the databases what has been committed. The access manager is
  initialised with one set of connections, also after it has been finalised. Pipes are lists of bytes; how much
  \<open>QFile\<close> reads ahead is not modelled. Within a run the credentials system does not switch between open and
  closed on the identity side. The removal of a child of a session core calls
  \<open>destroyUnused\<close> once per child rather than recursively within itself. The order of \<open>QSet\<close> to
  \<open>QStringList\<close> conversions is that of the list they come from.
\<close>

end
